(* ===== verification/O7_Prelude.thy ===== *)
theory O7_Prelude
  imports Main "HOL-Library.Word" "HOL-Library.List_Lexorder" "HOL-Library.Char_ord"
begin

text \<open>
  The shared vocabulary of the development: Rust's machine integers and byte strings, the
  \<open>Result\<close> type with its \<open>?\<close> operator, little-endian encodings, and the theory of
  \<^emph>\<open>prefix codes\<close> on which the injectivity of every digest preimage rests.

  Conventions. A Rust \<open>String\<close> is its UTF-8 byte sequence, a \<^typ>\<open>string\<close> (an Isabelle
  \<^typ>\<open>char\<close> is one byte); \<open>as_bytes\<close> reads it as \<^typ>\<open>8 word\<close>s. A Rust
  \<open>Result<T, E>\<close> is \<open>'e + 't\<close>, with \<open>Inl\<close> for \<open>Err\<close> and \<open>Inr\<close> for \<open>Ok\<close>.
\<close>

section \<open>Types\<close>

type_synonym byte = "8 word"
type_synonym bytes = "8 word list"
type_synonym u32 = "32 word"
type_synonym u64 = "64 word"

text \<open>Signed Rust integers are kept as their two's-complement words; \<^const>\<open>sint\<close> reads them.\<close>

type_synonym i32 = "32 word"
type_synonym i64 = "64 word"

type_synonym ('e, 'a) result = "'e + 'a"

section \<open>Definitions\<close>

text \<open>The \<open>?\<close> operator: an error returns at once, a value continues.\<close>

definition and_then :: "('e, 'a) result \<Rightarrow> ('a \<Rightarrow> ('e, 'b) result) \<Rightarrow> ('e, 'b) result" where
  "and_then m k = (case m of Inl e \<Rightarrow> Inl e | Inr x \<Rightarrow> k x)"

text \<open>\<open>map_err\<close>: change the error, keep the value.\<close>

definition map_err :: "('e \<Rightarrow> 'f) \<Rightarrow> ('e, 'a) result \<Rightarrow> ('f, 'a) result" where
  "map_err f m = (case m of Inl e \<Rightarrow> Inl (f e) | Inr x \<Rightarrow> Inr x)"

text \<open>\<open>ok_or\<close> on an option.\<close>

definition ok_or :: "'a option \<Rightarrow> 'e \<Rightarrow> ('e, 'a) result" where
  "ok_or m e = (case m of None \<Rightarrow> Inl e | Some x \<Rightarrow> Inr x)"

text \<open>A \<open>for\<close> loop over a slice whose body may return an error: the first error wins.\<close>

fun try_for_each :: "('a \<Rightarrow> ('e, unit) result) \<Rightarrow> 'a list \<Rightarrow> ('e, unit) result" where
  "try_for_each f [] = Inr ()"
| "try_for_each f (x # xs) = and_then (f x) (\<lambda>_. try_for_each f xs)"

text \<open>The same loop when the body updates a local variable.\<close>

fun try_fold :: "('s \<Rightarrow> 'a \<Rightarrow> ('e, 's) result) \<Rightarrow> 's \<Rightarrow> 'a list \<Rightarrow> ('e, 's) result" where
  "try_fold f s [] = Inr s"
| "try_fold f s (x # xs) = and_then (f s x) (\<lambda>s'. try_fold f s' xs)"

text \<open>Collecting the results of a fallible map.\<close>

fun try_map :: "('a \<Rightarrow> ('e, 'b) result) \<Rightarrow> 'a list \<Rightarrow> ('e, 'b list) result" where
  "try_map f [] = Inr []"
| "try_map f (x # xs) = and_then (f x) (\<lambda>y. and_then (try_map f xs) (\<lambda>ys. Inr (y # ys)))"

definition byte_of_char :: "char \<Rightarrow> byte" where
  "byte_of_char c = of_nat (of_char c)"

definition as_bytes :: "string \<Rightarrow> bytes" where
  "as_bytes s = map byte_of_char s"

text \<open>\<open>to_le_bytes\<close> of a \<open>k\<close>-byte integer, from its unsigned reading.\<close>

fun le_bytes :: "nat \<Rightarrow> nat \<Rightarrow> bytes" where
  "le_bytes 0 n = []"
| "le_bytes (Suc k) n = of_nat (n mod 256) # le_bytes k (n div 256)"

definition u32_to_le_bytes :: "u32 \<Rightarrow> bytes" where
  "u32_to_le_bytes w = le_bytes 4 (unat w)"

definition u64_to_le_bytes :: "u64 \<Rightarrow> bytes" where
  "u64_to_le_bytes w = le_bytes 8 (unat w)"

text \<open>
  \<open>str::trim\<close> followed by \<open>is_empty\<close>: every character has the Unicode property
  \<open>White_Space\<close>. The characters with that property are, in UTF-8, the one-byte
  U+0009..U+000D and U+0020, and the multi-byte sequences listed below
  (U+0085, U+00A0, U+1680, U+2000..U+200A, U+2028, U+2029, U+202F, U+205F, U+3000).
\<close>

definition ascii_white :: "nat \<Rightarrow> bool" where
  "ascii_white n \<longleftrightarrow> (9 \<le> n \<and> n \<le> 13) \<or> n = 32"

definition white2 :: "nat \<Rightarrow> nat \<Rightarrow> bool" where
  "white2 a b \<longleftrightarrow> a = 194 \<and> (b = 133 \<or> b = 160)"

definition white3 :: "nat \<Rightarrow> nat \<Rightarrow> nat \<Rightarrow> bool" where
  "white3 a b c \<longleftrightarrow>
     (a = 225 \<and> b = 154 \<and> c = 128) \<or>
     (a = 226 \<and> b = 128 \<and> ((128 \<le> c \<and> c \<le> 138) \<or> c = 168 \<or> c = 169 \<or> c = 175)) \<or>
     (a = 226 \<and> b = 129 \<and> c = 159) \<or>
     (a = 227 \<and> b = 128 \<and> c = 128)"

fun blank_codes :: "nat list \<Rightarrow> bool" where
  "blank_codes [] = True"
| "blank_codes (a # b # c # r) =
     (if ascii_white a then blank_codes (b # c # r)
      else if white2 a b then blank_codes (c # r)
      else white3 a b c \<and> blank_codes r)"
| "blank_codes [a, b] = (if ascii_white a then ascii_white b else white2 a b)"
| "blank_codes [a] = ascii_white a"

definition trim_is_empty :: "string \<Rightarrow> bool" where
  "trim_is_empty s = blank_codes (map of_char s)"

section \<open>Results\<close>

lemma and_then_simps [simp]:
  "and_then (Inl e) k = Inl e"
  "and_then (Inr x) k = k x"
  by (simp_all add: and_then_def)

lemma and_then_eq_Inr [simp]:
  "and_then m k = Inr y \<longleftrightarrow> (\<exists>x. m = Inr x \<and> k x = Inr y)"
  by (cases m) simp_all

lemma and_then_eq_Inl:
  "and_then m k = Inl e \<longleftrightarrow> m = Inl e \<or> (\<exists>x. m = Inr x \<and> k x = Inl e)"
  by (cases m) auto

lemma map_err_simps [simp]:
  "map_err f (Inl e) = Inl (f e)"
  "map_err f (Inr x) = Inr x"
  by (simp_all add: map_err_def)

lemma map_err_eq_Inr [simp]: "map_err f m = Inr x \<longleftrightarrow> m = Inr x"
  by (cases m) simp_all

lemma ok_or_eq_Inr [simp]: "ok_or m e = Inr x \<longleftrightarrow> m = Some x"
  by (cases m) (simp_all add: ok_or_def)

lemma ok_or_Some [simp]: "ok_or (Some x) e = Inr x"
  by (simp add: ok_or_def)

lemma if_Inl_eq_Inr [simp]:
  "(if b then Inl e else m) = Inr x \<longleftrightarrow> \<not> b \<and> m = Inr x"
  by simp

lemma try_for_each_Inr: "try_for_each f xs = Inr u \<longleftrightarrow> (\<forall>x \<in> set xs. f x = Inr ())"
  by (induction xs) (auto simp: and_then_def split: sum.splits)

lemma try_fold_append:
  "try_fold f s (xs @ ys) = and_then (try_fold f s xs) (\<lambda>s'. try_fold f s' ys)"
proof (induction xs arbitrary: s)
  case (Cons x xs)
  then show ?case by (cases "f s x") simp_all
qed simp

lemma try_fold_snoc_Inr:
  "try_fold f s (xs @ [x]) = Inr t \<longleftrightarrow> (\<exists>u. try_fold f s xs = Inr u \<and> f u x = Inr t)"
  by (auto simp: try_fold_append)

lemma try_fold_take:
  assumes "try_fold f s xs = Inr t"
  shows "\<exists>u. try_fold f s (take n xs) = Inr u"
proof -
  have "try_fold f s (take n xs @ drop n xs) = Inr t" using assms by simp
  then show ?thesis unfolding try_fold_append by auto
qed

text \<open>A completed fold passes through a state just before and just after every element.\<close>

lemma try_fold_nth:
  assumes "try_fold f s xs = Inr t" and "i < length xs"
  shows "\<exists>u v. try_fold f s (take i xs) = Inr u \<and> f u (xs ! i) = Inr v
               \<and> try_fold f s (take (Suc i) xs) = Inr v"
proof -
  obtain v where v: "try_fold f s (take (Suc i) xs) = Inr v"
    using try_fold_take [OF assms(1)] by blast
  with assms(2) show ?thesis
    by (auto simp: take_Suc_conv_app_nth try_fold_append)
qed

lemma try_map_cong [fundef_cong]:
  "xs = ys \<Longrightarrow> (\<And>y. y \<in> set ys \<Longrightarrow> f y = g y) \<Longrightarrow> try_map f xs = try_map g ys"
  by (induction ys arbitrary: xs) simp_all

lemma try_map_Inr: "try_map f xs = Inr ys \<longleftrightarrow> list_all2 (\<lambda>x y. f x = Inr y) xs ys"
  by (induction xs arbitrary: ys) (auto simp: list_all2_Cons1)

lemma try_map_ok: "(\<And>x. x \<in> set xs \<Longrightarrow> f x = Inr (g x)) \<Longrightarrow> try_map f xs = Inr (map g xs)"
  by (induction xs) simp_all

lemma try_map_ex: "(\<exists>ys. try_map f xs = Inr ys) \<longleftrightarrow> (\<forall>x \<in> set xs. \<exists>y. f x = Inr y)"
  by (induction xs) auto

section \<open>Bytes\<close>

lemma byte_of_char_inj [simp]: "byte_of_char c = byte_of_char d \<longleftrightarrow> c = d"
proof
  assume "byte_of_char c = byte_of_char d"
  then have "unat (byte_of_char c) = unat (byte_of_char d)" by simp
  then show "c = d" by (simp add: byte_of_char_def unat_of_nat)
qed simp

lemma as_bytes_inj [simp]: "as_bytes s = as_bytes t \<longleftrightarrow> s = t"
  unfolding as_bytes_def by (rule inj_map_eq_map) (simp add: inj_def)

lemma length_as_bytes [simp]: "length (as_bytes s) = length s"
  by (simp add: as_bytes_def)

lemma length_le_bytes [simp]: "length (le_bytes k n) = k"
  by (induction k arbitrary: n) simp_all

lemma le_bytes_inj:
  "n < 256 ^ k \<Longrightarrow> m < 256 ^ k \<Longrightarrow> le_bytes k n = le_bytes k m \<Longrightarrow> n = m"
proof (induction k arbitrary: n m)
  case 0
  then show ?case by simp
next
  case (Suc k)
  have "n div 256 = m div 256"
    using Suc.prems by (intro Suc.IH) (simp_all add: less_mult_imp_div_less mult.commute)
  moreover have "n mod 256 = m mod 256"
  proof -
    have "(of_nat (n mod 256) :: byte) = of_nat (m mod 256)" using Suc.prems by simp
    then have "unat (of_nat (n mod 256) :: byte) = unat (of_nat (m mod 256) :: byte)" by simp
    then show ?thesis by (simp add: unat_of_nat)
  qed
  ultimately show ?case by (metis div_mult_mod_eq)
qed

lemma length_word_to_le_bytes [simp]:
  "length (u32_to_le_bytes v) = 4" "length (u64_to_le_bytes w) = 8"
  by (simp_all add: u32_to_le_bytes_def u64_to_le_bytes_def)

lemma u32_to_le_bytes_inj [simp]: "u32_to_le_bytes v = u32_to_le_bytes w \<longleftrightarrow> v = w"
proof
  assume "u32_to_le_bytes v = u32_to_le_bytes w"
  then have "unat v = unat w"
    unfolding u32_to_le_bytes_def
    by (rule le_bytes_inj [rotated 2]) (use unsigned_less [of v] unsigned_less [of w] in simp_all)
  then show "v = w" by (simp add: word_unat_eq_iff)
qed simp

lemma u64_to_le_bytes_inj [simp]: "u64_to_le_bytes v = u64_to_le_bytes w \<longleftrightarrow> v = w"
proof
  assume "u64_to_le_bytes v = u64_to_le_bytes w"
  then have "unat v = unat w"
    unfolding u64_to_le_bytes_def
    by (rule le_bytes_inj [rotated 2]) (use unsigned_less [of v] unsigned_less [of w] in simp_all)
  then show "v = w" by (simp add: word_unat_eq_iff)
qed simp

section \<open>Prefix codes\<close>

text \<open>
  A digest preimage is a concatenation of encoded fields, so two values with one preimage are
  equal only if every field's encoding says where it ends. The contract of a field encoder is
  that two encodings followed by anything agree only if values and rests agree, provided
  the whole is shorter than \<open>2 ^ 64\<close> bytes: the length prefixes are \<open>u64\<close>, and Rust slices (and
  SHA-256 messages) are shorter than that.
\<close>

abbreviation (input) max_preimage :: nat where
  "max_preimage \<equiv> 18446744073709551616"

named_theorems peel \<open>equations between concatenations of encoded fields, one field at a time\<close>

locale prefix_code =
  fixes enc :: "'a \<Rightarrow> bytes"
  assumes enc_peel: "length (enc x @ r) < max_preimage \<Longrightarrow> enc x @ r = enc y @ s \<Longrightarrow> x = y \<and> r = s"
    and enc_ne: "enc x \<noteq> []"
begin

lemma peel_iff:
  "length (enc x) + length r < max_preimage \<Longrightarrow> enc x @ r = enc y @ s \<longleftrightarrow> x = y \<and> r = s"
  using enc_peel [of x r y s] by (metis length_append)

lemma peel_end: "length (enc x) < max_preimage \<Longrightarrow> enc x = enc y \<longleftrightarrow> x = y"
  using enc_peel [of x "[]" y "[]"] by auto

lemma length_concat: "length xs \<le> length (concat (map enc xs))"
proof (induction xs)
  case (Cons x xs)
  have "1 \<le> length (enc x)" using enc_ne [of x] by (cases "enc x") simp_all
  with Cons show ?case by simp
qed simp

lemma peel_concat:
  "length xs = length ys \<Longrightarrow> length (concat (map enc xs)) + length r < max_preimage \<Longrightarrow>
   concat (map enc xs) @ r = concat (map enc ys) @ s \<longleftrightarrow> xs = ys \<and> r = s"
proof (induction xs ys rule: list_induct2)
  case (Cons x xs y ys)
  then show ?case by (auto simp: peel_iff)
qed simp

end

end
