(* ===== verification/Run_Event.thy ===== *)
theory Run_Event
  imports O7_Prelude
begin

text \<open>
  The canonical run-event contract: \<^verbatim>\<open>crates/o7-run/src/ids.rs\<close> and
  \<^verbatim>\<open>crates/o7-run/src/event.rs\<close>. Identifiers and digests, the obligation contract, the
  event payloads, and the digest of an event, which is computed by length-prefixed field
  framing. SHA-256 itself is the \<^verbatim>\<open>sha2\<close> package: the parameter \<open>sha\<close> of
  \<open>of_bytes\<close> and \<open>compute_digest\<close>. A \<^verbatim>\<open>fold_x(h, v)\<close> of the source feeds bytes to the
  hasher; here \<open>fold_x v\<close> is the byte sequence it feeds, and consecutive \<^verbatim>\<open>h.update\<close>
  calls are concatenation, which is what the hasher digests.

  The lemmas show that the framing is a prefix code for every type, so that the preimage of an
  event determines all of its fields but the stored digest.
\<close>

section \<open>Identifiers\<close>

datatype IdError = IdError string

datatype RunId = RunId (run_id_str: string)
datatype RunEventId = RunEventId (event_id_str: string)
datatype GateId = GateId (gate_id_str: string)

definition RunId_new :: "string \<Rightarrow> (IdError, RunId) result" where
  "RunId_new raw = (if raw = [] then Inl (IdError ''run'') else Inr (RunId raw))"

definition RunEventId_new :: "string \<Rightarrow> (IdError, RunEventId) result" where
  "RunEventId_new raw = (if raw = [] then Inl (IdError ''run-event'') else Inr (RunEventId raw))"

definition GateId_new :: "string \<Rightarrow> (IdError, GateId) result" where
  "GateId_new raw = (if raw = [] then Inl (IdError ''gate'') else Inr (GateId raw))"

section \<open>Digests\<close>

definition RUN_EVENT_SCHEMA_VERSION :: u32 where
  "RUN_EVENT_SCHEMA_VERSION = 1"

datatype Digest256 = Digest256 (digest_str: string)

datatype DigestFormatError = DigestFormatError string

definition HEX :: string where
  "HEX = ''0123456789abcdef''"

text \<open>
  One byte: \<open>HEX.get(b >> 4)\<close> and \<open>HEX.get(b & 0x0f)\<close>. Both indices are below 16, so both
  lookups are \<open>Some\<close> (lemma \<open>hex_byte_total\<close>); the \<open>None\<close> branch pushes nothing.
\<close>

definition hex_get :: "nat \<Rightarrow> char option" where
  "hex_get i = (if i < length HEX then Some (HEX ! i) else None)"

definition hex_byte :: "byte \<Rightarrow> string" where
  "hex_byte b =
     (case (hex_get (unat b div 16), hex_get (unat b mod 16)) of
        (Some hi, Some lo) \<Rightarrow> [hi, lo]
      | _ \<Rightarrow> [])"

definition hex_lower :: "bytes \<Rightarrow> string" where
  "hex_lower bs = concat (map hex_byte bs)"

definition is_lower_hex_char :: "char \<Rightarrow> bool" where
  "is_lower_hex_char c \<longleftrightarrow>
     (let n = (of_char c :: nat) in (48 \<le> n \<and> n \<le> 57) \<or> (97 \<le> n \<and> n \<le> 102))"

definition is_canonical_hex :: "string \<Rightarrow> bool" where
  "is_canonical_hex s \<longleftrightarrow> length s = 64 \<and> list_all is_lower_hex_char s"

definition of_bytes :: "(bytes \<Rightarrow> bytes) \<Rightarrow> bytes \<Rightarrow> Digest256" where
  "of_bytes sha bs = Digest256 (hex_lower (sha bs))"

definition genesis :: Digest256 where
  "genesis = Digest256 (replicate 64 CHR ''0'')"

definition Digest256_parse :: "string \<Rightarrow> (DigestFormatError, Digest256) result" where
  "Digest256_parse s =
     (if is_canonical_hex s then Inr (Digest256 s) else Inl (DigestFormatError s))"

definition from_sha256 :: "bytes \<Rightarrow> Digest256" where
  "from_sha256 raw = Digest256 (hex_lower raw)"

section \<open>Artifacts, outcomes, obligations\<close>

datatype ArtifactKind =
    AK_Task | AK_Diff | AK_GateLog | AK_SandboxReport | AK_Worktree | AK_Policy
  | AK_ProviderSession | AK_CommandBinding | AK_CandidateState | AK_CandidatePatch

record ArtifactRef =
  art_kind :: ArtifactKind
  art_locator :: string
  art_digest :: Digest256

datatype GateOutcome = GO_Pass | GO_Fail | GO_Warn | GO_Blocked | GO_NotApplicable | GO_Error

datatype PolicyOutcome = PO_Allowed | PO_Denied | PO_Error

datatype ExecutionSubject = ES_Agent | ES_Gate GateId | ES_Verifier

datatype SandboxEvidenceOutcome = SE_Satisfied | SE_Violated | SE_Error

record SandboxRequirement =
  sreq_subject :: ExecutionSubject
  sreq_policy_digest :: Digest256

datatype GateRequirement = GR_Required | GR_Optional

datatype GateApplicability = Applicable | Waived string string

record GateObligation =
  gob_gate :: GateId
  gob_requirement :: GateRequirement
  gob_applicability :: GateApplicability

datatype PolicyRequirement = PR_Required | PR_Optional

datatype PolicyProtectedSubject = PP_Agent | PP_Gate GateId

record PolicyObligation =
  pob_policy :: ArtifactRef
  pob_requirement :: PolicyRequirement
  pob_protects :: "PolicyProtectedSubject list"

datatype AgentObligation = AO_Required | AO_NotUsed string

record RepositoryIdentity =
  repo_git_common_dir :: string
  repo_dev :: u64
  repo_ino :: u64

datatype CandidatePatchKind = GitBinaryCumulativePatchV1

definition CANDIDATE_STATE_CONTRACT_SCHEMA_V1 :: u32 where
  "CANDIDATE_STATE_CONTRACT_SCHEMA_V1 = 1"

record CandidateStateContractV1 =
  csc_schema :: u32
  csc_conversation_id :: string
  csc_repository_id :: RepositoryIdentity
  csc_base_commit :: string
  csc_patch_kind :: CandidatePatchKind

record RunContract =
  rc_gate_obligations :: "GateObligation list"
  rc_policy_obligations :: "PolicyObligation list"
  rc_sandbox_requirements :: "SandboxRequirement list"
  rc_agent :: AgentObligation
  rc_runner_environment :: string
  rc_candidate_state :: "CandidateStateContractV1 option"

datatype AgentOutcome =
    ExitedNormally i32
  | ExitedBySignal i32
  | CancelledGracefully
  | CancelledForcefully
  | FailedToStart string
  | BoundaryFailure string
  | ObservationFailure string
  | OutputFailure string
  | CleanupFailure string

section \<open>Events\<close>

datatype RunEventKind =
    RunStarted RunContract ArtifactRef
  | WorktreeCreated ArtifactRef
  | AgentStarted
  | AgentExited AgentOutcome
  | PatchCaptured ArtifactRef
  | PolicyChecked ArtifactRef PolicyOutcome
  | GateStarted GateId
  | GateFinished GateId GateOutcome "ArtifactRef option"
  | SandboxEvidenceCaptured ExecutionSubject Digest256 ArtifactRef SandboxEvidenceOutcome
  | ProviderSessionCaptured ArtifactRef
  | CommandBindingCaptured ArtifactRef
  | CandidateStateCaptured ArtifactRef
  | CandidateStateMaterialized RunId ArtifactRef ArtifactRef string
  | RunSealed

fun kind_tag :: "RunEventKind \<Rightarrow> byte" where
  "kind_tag (RunStarted _ _) = 1"
| "kind_tag (WorktreeCreated _) = 2"
| "kind_tag AgentStarted = 3"
| "kind_tag (AgentExited _) = 4"
| "kind_tag (PatchCaptured _) = 5"
| "kind_tag (PolicyChecked _ _) = 6"
| "kind_tag (GateStarted _) = 7"
| "kind_tag (GateFinished _ _ _) = 8"
| "kind_tag (SandboxEvidenceCaptured _ _ _ _) = 9"
| "kind_tag RunSealed = 10"
| "kind_tag (ProviderSessionCaptured _) = 11"
| "kind_tag (CommandBindingCaptured _) = 12"
| "kind_tag (CandidateStateCaptured _) = 13"
| "kind_tag (CandidateStateMaterialized _ _ _ _) = 14"

fun kind_name :: "RunEventKind \<Rightarrow> string" where
  "kind_name (RunStarted _ _) = ''run_started''"
| "kind_name (WorktreeCreated _) = ''worktree_created''"
| "kind_name AgentStarted = ''agent_started''"
| "kind_name (AgentExited _) = ''agent_exited''"
| "kind_name (PatchCaptured _) = ''patch_captured''"
| "kind_name (PolicyChecked _ _) = ''policy_checked''"
| "kind_name (GateStarted _) = ''gate_started''"
| "kind_name (GateFinished _ _ _) = ''gate_finished''"
| "kind_name (SandboxEvidenceCaptured _ _ _ _) = ''sandbox_evidence_captured''"
| "kind_name (ProviderSessionCaptured _) = ''provider_session_captured''"
| "kind_name (CommandBindingCaptured _) = ''command_binding_captured''"
| "kind_name (CandidateStateCaptured _) = ''candidate_state_captured''"
| "kind_name (CandidateStateMaterialized _ _ _ _) = ''candidate_state_materialized''"
| "kind_name RunSealed = ''run_sealed''"

record RunEvent =
  ev_event_id :: RunEventId
  ev_schema_version :: u32
  ev_run_id :: RunId
  ev_sequence :: u64
  ev_previous_event_digest :: Digest256
  ev_event_digest :: Digest256
  ev_timestamp_millis :: i64
  ev_kind :: RunEventKind

section \<open>Framing\<close>

definition frame :: "bytes \<Rightarrow> bytes" where
  "frame bs = u64_to_le_bytes (of_nat (length bs)) @ bs"

fun artifact_kind_tag :: "ArtifactKind \<Rightarrow> byte" where
  "artifact_kind_tag AK_Task = 1"
| "artifact_kind_tag AK_Diff = 2"
| "artifact_kind_tag AK_GateLog = 3"
| "artifact_kind_tag AK_SandboxReport = 4"
| "artifact_kind_tag AK_Worktree = 5"
| "artifact_kind_tag AK_Policy = 6"
| "artifact_kind_tag AK_ProviderSession = 7"
| "artifact_kind_tag AK_CommandBinding = 8"
| "artifact_kind_tag AK_CandidateState = 9"
| "artifact_kind_tag AK_CandidatePatch = 10"

fun gate_outcome_tag :: "GateOutcome \<Rightarrow> byte" where
  "gate_outcome_tag GO_Pass = 1"
| "gate_outcome_tag GO_Fail = 2"
| "gate_outcome_tag GO_Warn = 3"
| "gate_outcome_tag GO_Blocked = 4"
| "gate_outcome_tag GO_NotApplicable = 5"
| "gate_outcome_tag GO_Error = 6"

fun policy_outcome_tag :: "PolicyOutcome \<Rightarrow> byte" where
  "policy_outcome_tag PO_Allowed = 1"
| "policy_outcome_tag PO_Denied = 2"
| "policy_outcome_tag PO_Error = 3"

fun sandbox_outcome_tag :: "SandboxEvidenceOutcome \<Rightarrow> byte" where
  "sandbox_outcome_tag SE_Satisfied = 1"
| "sandbox_outcome_tag SE_Violated = 2"
| "sandbox_outcome_tag SE_Error = 3"

fun gate_requirement_tag :: "GateRequirement \<Rightarrow> byte" where
  "gate_requirement_tag GR_Required = 1"
| "gate_requirement_tag GR_Optional = 2"

fun policy_requirement_tag :: "PolicyRequirement \<Rightarrow> byte" where
  "policy_requirement_tag PR_Required = 1"
| "policy_requirement_tag PR_Optional = 2"

fun candidate_patch_kind_tag :: "CandidatePatchKind \<Rightarrow> byte" where
  "candidate_patch_kind_tag GitBinaryCumulativePatchV1 = 1"

fun fold_applicability :: "GateApplicability \<Rightarrow> bytes" where
  "fold_applicability Applicable = [1]"
| "fold_applicability (Waived environment reason) =
     2 # frame (as_bytes environment) @ frame (as_bytes reason)"

fun fold_subject :: "ExecutionSubject \<Rightarrow> bytes" where
  "fold_subject ES_Agent = [1]"
| "fold_subject (ES_Gate gate) = 2 # frame (as_bytes (gate_id_str gate))"
| "fold_subject ES_Verifier = [3]"

fun fold_protected_subject :: "PolicyProtectedSubject \<Rightarrow> bytes" where
  "fold_protected_subject PP_Agent = [1]"
| "fold_protected_subject (PP_Gate gate) = 2 # frame (as_bytes (gate_id_str gate))"

definition fold_artifact :: "ArtifactRef \<Rightarrow> bytes" where
  "fold_artifact a =
     artifact_kind_tag (art_kind a) # frame (as_bytes (art_locator a))
       @ frame (as_bytes (digest_str (art_digest a)))"

fun fold_optional_artifact :: "ArtifactRef option \<Rightarrow> bytes" where
  "fold_optional_artifact (Some a) = 1 # fold_artifact a"
| "fold_optional_artifact None = [0]"

fun fold_optional_candidate_state_contract :: "CandidateStateContractV1 option \<Rightarrow> bytes" where
  "fold_optional_candidate_state_contract (Some c) =
     1 # frame (u32_to_le_bytes (csc_schema c))
       @ frame (as_bytes (csc_conversation_id c))
       @ frame (as_bytes (repo_git_common_dir (csc_repository_id c)))
       @ frame (u64_to_le_bytes (repo_dev (csc_repository_id c)))
       @ frame (u64_to_le_bytes (repo_ino (csc_repository_id c)))
       @ frame (as_bytes (csc_base_commit c))
       @ [candidate_patch_kind_tag (csc_patch_kind c)]"
| "fold_optional_candidate_state_contract None = [0]"

fun fold_agent_outcome :: "AgentOutcome \<Rightarrow> bytes" where
  "fold_agent_outcome (ExitedNormally code) = 1 # frame (u32_to_le_bytes code)"
| "fold_agent_outcome (ExitedBySignal signal) = 2 # frame (u32_to_le_bytes signal)"
| "fold_agent_outcome CancelledGracefully = [3]"
| "fold_agent_outcome CancelledForcefully = [4]"
| "fold_agent_outcome (FailedToStart reason) = 5 # frame (as_bytes reason)"
| "fold_agent_outcome (BoundaryFailure reason) = 6 # frame (as_bytes reason)"
| "fold_agent_outcome (ObservationFailure reason) = 7 # frame (as_bytes reason)"
| "fold_agent_outcome (OutputFailure reason) = 8 # frame (as_bytes reason)"
| "fold_agent_outcome (CleanupFailure reason) = 9 # frame (as_bytes reason)"

fun fold_agent_obligation :: "AgentObligation \<Rightarrow> bytes" where
  "fold_agent_obligation AO_Required = [1]"
| "fold_agent_obligation (AO_NotUsed reason) = 2 # frame (as_bytes reason)"

text \<open>The bodies of the three loops of \<open>fold_contract\<close>, and the length frame before each.\<close>

definition fold_gate_obligation :: "GateObligation \<Rightarrow> bytes" where
  "fold_gate_obligation ob =
     frame (as_bytes (gate_id_str (gob_gate ob)))
       @ gate_requirement_tag (gob_requirement ob) # fold_applicability (gob_applicability ob)"

definition fold_len :: "'a list \<Rightarrow> bytes" where
  "fold_len xs = frame (u64_to_le_bytes (of_nat (length xs)))"

definition fold_policy_obligation :: "PolicyObligation \<Rightarrow> bytes" where
  "fold_policy_obligation p =
     fold_artifact (pob_policy p)
       @ policy_requirement_tag (pob_requirement p)
       # fold_len (pob_protects p) @ concat (map fold_protected_subject (pob_protects p))"

definition fold_sandbox_requirement :: "SandboxRequirement \<Rightarrow> bytes" where
  "fold_sandbox_requirement r =
     fold_subject (sreq_subject r) @ frame (as_bytes (digest_str (sreq_policy_digest r)))"

definition fold_contract :: "RunContract \<Rightarrow> bytes" where
  "fold_contract c =
     fold_len (rc_gate_obligations c)
       @ concat (map fold_gate_obligation (rc_gate_obligations c))
       @ fold_len (rc_policy_obligations c)
       @ concat (map fold_policy_obligation (rc_policy_obligations c))
       @ fold_len (rc_sandbox_requirements c)
       @ concat (map fold_sandbox_requirement (rc_sandbox_requirements c))
       @ fold_agent_obligation (rc_agent c)
       @ frame (as_bytes (rc_runner_environment c))
       @ fold_optional_candidate_state_contract (rc_candidate_state c)"

fun fold_kind :: "RunEventKind \<Rightarrow> bytes" where
  "fold_kind (RunStarted contract task) = fold_contract contract @ fold_artifact task"
| "fold_kind (WorktreeCreated worktree) = fold_artifact worktree"
| "fold_kind AgentStarted = []"
| "fold_kind RunSealed = []"
| "fold_kind (AgentExited outcome) = fold_agent_outcome outcome"
| "fold_kind (PatchCaptured patch) = fold_artifact patch"
| "fold_kind (PolicyChecked policy outcome) = fold_artifact policy @ [policy_outcome_tag outcome]"
| "fold_kind (GateStarted gate) = frame (as_bytes (gate_id_str gate))"
| "fold_kind (GateFinished gate outcome log) =
     frame (as_bytes (gate_id_str gate)) @ gate_outcome_tag outcome # fold_optional_artifact log"
| "fold_kind (SandboxEvidenceCaptured subject policy_digest report outcome) =
     fold_subject subject @ frame (as_bytes (digest_str policy_digest))
       @ fold_artifact report @ [sandbox_outcome_tag outcome]"
| "fold_kind (ProviderSessionCaptured receipt) = fold_artifact receipt"
| "fold_kind (CommandBindingCaptured binding) = fold_artifact binding"
| "fold_kind (CandidateStateCaptured receipt) = fold_artifact receipt"
| "fold_kind (CandidateStateMaterialized source_run_id source_receipt source_patch tree_oid) =
     frame (as_bytes (run_id_str source_run_id)) @ fold_artifact source_receipt
       @ fold_artifact source_patch @ frame (as_bytes tree_oid)"

text \<open>The domain separator \<^verbatim>\<open>b"o7-run-event\0v1\0"\<close>.\<close>

definition event_domain :: bytes where
  "event_domain = as_bytes ''o7-run-event'' @ [0] @ as_bytes ''v1'' @ [0]"

definition event_preimage :: "RunEvent \<Rightarrow> bytes" where
  "event_preimage e =
     event_domain
       @ frame (u32_to_le_bytes (ev_schema_version e))
       @ frame (as_bytes (run_id_str (ev_run_id e)))
       @ frame (u64_to_le_bytes (ev_sequence e))
       @ frame (as_bytes (digest_str (ev_previous_event_digest e)))
       @ frame (u64_to_le_bytes (ev_timestamp_millis e))
       @ frame (as_bytes (event_id_str (ev_event_id e)))
       @ kind_tag (ev_kind e) # fold_kind (ev_kind e)"

definition compute_digest :: "(bytes \<Rightarrow> bytes) \<Rightarrow> RunEvent \<Rightarrow> Digest256" where
  "compute_digest sha e = Digest256 (hex_lower (sha (event_preimage e)))"

definition digest_is_consistent :: "(bytes \<Rightarrow> bytes) \<Rightarrow> RunEvent \<Rightarrow> bool" where
  "digest_is_consistent sha e \<longleftrightarrow> ev_event_digest e = compute_digest sha e"

section \<open>Hexadecimal digests\<close>

lemma length_HEX [simp]: "length HEX = 16"
  by (simp add: HEX_def)

lemma hex_get_Some: "i < 16 \<Longrightarrow> hex_get i = Some (HEX ! i)"
  by (simp add: hex_get_def)

lemma byte_nibbles: "unat (b :: byte) div 16 < 16" "unat (b :: byte) mod 16 < 16"
  using unsigned_less [of b, where 'a = nat] by auto

lemma hex_byte_total: "hex_byte b = [HEX ! (unat b div 16), HEX ! (unat b mod 16)]"
  by (simp add: hex_byte_def hex_get_Some byte_nibbles)

lemma distinct_HEX: "distinct HEX"
  by (simp add: HEX_def)

lemma HEX_nth_inj: "i < 16 \<Longrightarrow> j < 16 \<Longrightarrow> HEX ! i = HEX ! j \<longleftrightarrow> i = j"
  using nth_eq_iff_index_eq [OF distinct_HEX] by simp

lemma hex_byte_inj: "hex_byte a = hex_byte b \<longleftrightarrow> a = b"
proof
  assume "hex_byte a = hex_byte b"
  then have "unat a div 16 = unat b div 16" "unat a mod 16 = unat b mod 16"
    by (simp_all add: hex_byte_total HEX_nth_inj byte_nibbles)
  then have "unat a = unat b" by (metis div_mult_mod_eq)
  then show "a = b" by (simp add: word_unat_eq_iff)
qed simp

lemma length_hex_byte [simp]: "length (hex_byte b) = 2"
  by (simp add: hex_byte_total)

lemma hex_lower_simps [simp]:
  "hex_lower [] = []"
  "hex_lower (b # bs) = hex_byte b @ hex_lower bs"
  by (simp_all add: hex_lower_def)

lemma length_hex_lower [simp]: "length (hex_lower bs) = 2 * length bs"
  by (induction bs) simp_all

lemma hex_byte_ne [simp]: "hex_byte b \<noteq> []" "[] \<noteq> hex_byte b"
  by (simp_all add: hex_byte_total)

lemma hex_lower_inj: "hex_lower as = hex_lower bs \<longleftrightarrow> as = bs"
proof (induction as arbitrary: bs)
  case Nil
  then show ?case by (cases bs) simp_all
next
  case (Cons a as)
  then show ?case by (cases bs) (simp_all add: hex_byte_inj)
qed

lemma HEX_nth_lower: "i < 16 \<Longrightarrow> is_lower_hex_char (HEX ! i)"
proof -
  have "list_all is_lower_hex_char HEX" by (simp add: HEX_def is_lower_hex_char_def)
  then show "i < 16 \<Longrightarrow> is_lower_hex_char (HEX ! i)" by (simp add: list_all_length)
qed

lemma hex_lower_chars: "list_all is_lower_hex_char (hex_lower bs)"
  by (induction bs) (simp_all add: hex_byte_total HEX_nth_lower byte_nibbles)

lemma is_canonical_hex_lower: "is_canonical_hex (hex_lower bs) \<longleftrightarrow> length bs = 32"
  by (auto simp: is_canonical_hex_def hex_lower_chars)

section \<open>Framing is a prefix code\<close>

lemma artifact_kind_tag_inj [simp]: "artifact_kind_tag a = artifact_kind_tag b \<longleftrightarrow> a = b"
  by (cases a; cases b) simp_all

lemma gate_outcome_tag_inj [simp]: "gate_outcome_tag a = gate_outcome_tag b \<longleftrightarrow> a = b"
  by (cases a; cases b) simp_all

lemma policy_outcome_tag_inj [simp]: "policy_outcome_tag a = policy_outcome_tag b \<longleftrightarrow> a = b"
  by (cases a; cases b) simp_all

lemma sandbox_outcome_tag_inj [simp]: "sandbox_outcome_tag a = sandbox_outcome_tag b \<longleftrightarrow> a = b"
  by (cases a; cases b) simp_all

lemma gate_requirement_tag_inj [simp]: "gate_requirement_tag a = gate_requirement_tag b \<longleftrightarrow> a = b"
  by (cases a; cases b) simp_all

lemma policy_requirement_tag_inj [simp]:
  "policy_requirement_tag a = policy_requirement_tag b \<longleftrightarrow> a = b"
  by (cases a; cases b) simp_all

lemma candidate_patch_kind_tag_inj [simp]:
  "candidate_patch_kind_tag a = candidate_patch_kind_tag b \<longleftrightarrow> a = b"
  by (cases a; cases b) simp_all

lemma newtype_inj [simp]:
  "run_id_str a = run_id_str b \<longleftrightarrow> a = b"
  "event_id_str c = event_id_str d \<longleftrightarrow> c = d"
  "gate_id_str e = gate_id_str f \<longleftrightarrow> e = f"
  "digest_str g = digest_str h \<longleftrightarrow> g = h"
  by (auto intro: RunId.expand RunEventId.expand GateId.expand Digest256.expand)

lemma length_frame [simp]: "length (frame bs) = 8 + length bs"
  by (simp add: frame_def)

lemma of_nat_u64_inj:
  assumes "n < max_preimage" "m < max_preimage"
  shows "(of_nat n :: u64) = of_nat m \<longleftrightarrow> n = m"
proof
  assume "(of_nat n :: u64) = of_nat m"
  then have "unat (of_nat n :: u64) = unat (of_nat m :: u64)" by simp
  with assms show "n = m" by (simp add: unat_of_nat)
qed simp

interpretation frame_code: prefix_code frame
proof
  fix a b r s :: bytes
  assume len: "length (frame a @ r) < max_preimage" and eq: "frame a @ r = frame b @ s"
  from eq have lens: "length (frame a @ r) = length (frame b @ s)" by simp
  from eq have "u64_to_le_bytes (of_nat (length a)) = u64_to_le_bytes (of_nat (length b))"
    by (simp add: frame_def)
  with len lens have "length a = length b" by (simp add: of_nat_u64_inj)
  with eq show "a = b \<and> r = s" by (simp add: frame_def)
next
  show "frame a \<noteq> []" for a
    using length_frame [of a] by (metis add_eq_0_iff_both_eq_0 list.size(3) zero_neq_numeral)
qed

declare frame_code.peel_iff [peel] frame_code.peel_end [peel]

lemma fold_len_peel:
  assumes "length xs < max_preimage" "length ys < max_preimage"
  shows "fold_len xs @ r = fold_len ys @ s \<longleftrightarrow> length xs = length ys \<and> r = s"
  using assms by (simp add: fold_len_def frame_def of_nat_u64_inj)

lemma length_fold_len [simp]: "length (fold_len xs) = 16"
  by (simp add: fold_len_def)

interpretation applicability_code: prefix_code fold_applicability
proof
  fix x y r s
  assume "length (fold_applicability x @ r) < max_preimage"
    and "fold_applicability x @ r = fold_applicability y @ s"
  then show "x = y \<and> r = s" by (cases x; cases y) (simp_all add: peel)
next
  show "fold_applicability x \<noteq> []" for x by (cases x) simp_all
qed

declare applicability_code.peel_iff [peel] applicability_code.peel_end [peel]

interpretation subject_code: prefix_code fold_subject
proof
  fix x y r s
  assume "length (fold_subject x @ r) < max_preimage"
    and "fold_subject x @ r = fold_subject y @ s"
  then show "x = y \<and> r = s" by (cases x; cases y) (simp_all add: peel)
next
  show "fold_subject x \<noteq> []" for x by (cases x) simp_all
qed

declare subject_code.peel_iff [peel] subject_code.peel_end [peel]

interpretation protected_code: prefix_code fold_protected_subject
proof
  fix x y r s
  assume "length (fold_protected_subject x @ r) < max_preimage"
    and "fold_protected_subject x @ r = fold_protected_subject y @ s"
  then show "x = y \<and> r = s" by (cases x; cases y) (simp_all add: peel)
next
  show "fold_protected_subject x \<noteq> []" for x by (cases x) simp_all
qed

interpretation artifact_code: prefix_code fold_artifact
proof
  fix x y :: ArtifactRef and r s
  assume "length (fold_artifact x @ r) < max_preimage"
    and "fold_artifact x @ r = fold_artifact y @ s"
  then show "x = y \<and> r = s" by (simp add: fold_artifact_def peel)
next
  show "fold_artifact x \<noteq> []" for x by (simp add: fold_artifact_def)
qed

declare artifact_code.peel_iff [peel] artifact_code.peel_end [peel]

text \<open>A list framed as the source frames it: its length, then its elements.\<close>

context prefix_code
begin

lemma peel_counted:
  assumes len: "16 + length (concat (map enc xs)) + length r < max_preimage"
  shows "fold_len xs @ concat (map enc xs) @ r = fold_len ys @ concat (map enc ys) @ s
           \<longleftrightarrow> xs = ys \<and> r = s" (is "?l = ?r \<longleftrightarrow> _")
proof
  assume eq: "?l = ?r"
  then have "length ?l = length ?r" by simp
  with len have "length (concat (map enc ys)) < max_preimage" by simp
  with length_concat [of ys] have ys: "length ys < max_preimage" by linarith
  from len length_concat [of xs] have xs: "length xs < max_preimage" by linarith
  from eq have "length xs = length ys"
    and "concat (map enc xs) @ r = concat (map enc ys) @ s"
    by (simp_all add: fold_len_peel [OF xs ys])
  with len show "xs = ys \<and> r = s" by (simp add: peel_concat)
qed simp

end

lemmas protected_counted [peel] =
  protected_code.peel_counted protected_code.peel_counted [where r = "[]" and s = "[]", simplified]

lemma optional_artifact_peel [peel]:
  "length (fold_optional_artifact a) + length r < max_preimage \<Longrightarrow>
   fold_optional_artifact a @ r = fold_optional_artifact b @ s \<longleftrightarrow> a = b \<and> r = s"
  by (cases a; cases b) (simp_all add: peel)

lemma optional_artifact_end [peel]:
  "length (fold_optional_artifact a) < max_preimage \<Longrightarrow>
   fold_optional_artifact a = fold_optional_artifact b \<longleftrightarrow> a = b"
  using optional_artifact_peel [of a "[]" b "[]"] by simp

lemma optional_candidate_peel [peel]:
  "length (fold_optional_candidate_state_contract a) + length r < max_preimage \<Longrightarrow>
   fold_optional_candidate_state_contract a @ r = fold_optional_candidate_state_contract b @ s
     \<longleftrightarrow> a = b \<and> r = s"
proof (cases a; cases b)
  fix x y
  assume "a = Some x" "b = Some y"
    and "length (fold_optional_candidate_state_contract a) + length r < max_preimage"
  then show ?thesis
    by (cases "csc_repository_id x"; cases "csc_repository_id y") (auto simp: peel)
qed simp_all

lemma agent_outcome_end [peel]:
  "length (fold_agent_outcome a) < max_preimage \<Longrightarrow>
   fold_agent_outcome a = fold_agent_outcome b \<longleftrightarrow> a = b"
  by (cases a; cases b) (simp_all add: peel)

lemma agent_obligation_peel [peel]:
  "length (fold_agent_obligation a) + length r < max_preimage \<Longrightarrow>
   fold_agent_obligation a @ r = fold_agent_obligation b @ s \<longleftrightarrow> a = b \<and> r = s"
  by (cases a; cases b) (simp_all add: peel)

interpretation gate_obligation_code: prefix_code fold_gate_obligation
proof
  fix x y :: GateObligation and r s
  assume "length (fold_gate_obligation x @ r) < max_preimage"
    and "fold_gate_obligation x @ r = fold_gate_obligation y @ s"
  then show "x = y \<and> r = s" by (simp add: fold_gate_obligation_def peel)
next
  show "fold_gate_obligation x \<noteq> []" for x by (simp add: fold_gate_obligation_def)
qed

interpretation policy_obligation_code: prefix_code fold_policy_obligation
proof
  fix x y :: PolicyObligation and r s
  assume "length (fold_policy_obligation x @ r) < max_preimage"
    and "fold_policy_obligation x @ r = fold_policy_obligation y @ s"
  then show "x = y \<and> r = s" by (simp add: fold_policy_obligation_def peel del: append_eq_append_conv)
next
  show "fold_policy_obligation x \<noteq> []" for x by (simp add: fold_policy_obligation_def)
qed

interpretation sandbox_requirement_code: prefix_code fold_sandbox_requirement
proof
  fix x y :: SandboxRequirement and r s
  assume "length (fold_sandbox_requirement x @ r) < max_preimage"
    and "fold_sandbox_requirement x @ r = fold_sandbox_requirement y @ s"
  then show "x = y \<and> r = s" by (simp add: fold_sandbox_requirement_def peel)
next
  show "fold_sandbox_requirement x \<noteq> []" for x
    by (simp add: fold_sandbox_requirement_def subject_code.enc_ne)
qed

lemmas obligations_counted [peel] =
  gate_obligation_code.peel_counted policy_obligation_code.peel_counted
  sandbox_requirement_code.peel_counted

interpretation contract_code: prefix_code fold_contract
proof
  fix x y :: RunContract and r s
  assume "length (fold_contract x @ r) < max_preimage"
    and "fold_contract x @ r = fold_contract y @ s"
  then show "x = y \<and> r = s" by (simp add: fold_contract_def peel del: append_eq_append_conv)
next
  show "fold_contract x \<noteq> []" for x by (simp add: fold_contract_def fold_len_def frame_code.enc_ne)
qed

declare contract_code.peel_iff [peel]

section \<open>The preimage determines the event\<close>

lemma kind_peel_iff:
  "kind_tag k = kind_tag l \<Longrightarrow> length (fold_kind k) < max_preimage \<Longrightarrow>
   fold_kind k = fold_kind l \<longleftrightarrow> k = l"
  by (cases k; cases l) (simp_all add: peel)

lemma kind_peel:
  "kind_tag k = kind_tag l \<Longrightarrow> fold_kind k = fold_kind l \<Longrightarrow>
   length (fold_kind k) < max_preimage \<Longrightarrow> k = l"
  using kind_peel_iff by blast

lemma event_preimage_fields:
  assumes "length (event_preimage e) < max_preimage"
    and "event_preimage e = event_preimage f"
  shows "ev_schema_version e = ev_schema_version f" "ev_run_id e = ev_run_id f"
    "ev_sequence e = ev_sequence f" "ev_previous_event_digest e = ev_previous_event_digest f"
    "ev_timestamp_millis e = ev_timestamp_millis f" "ev_event_id e = ev_event_id f"
    "ev_kind e = ev_kind f"
  using assms by (auto simp: event_preimage_def peel intro: kind_peel)

text \<open>Two events with one preimage differ at most in their stored digest.\<close>

lemma event_preimage_inj:
  assumes "length (event_preimage e) < max_preimage"
    and "event_preimage e = event_preimage f"
  shows "e\<lparr>ev_event_digest := d\<rparr> = f\<lparr>ev_event_digest := d\<rparr>"
  using event_preimage_fields [OF assms] by simp

lemma compute_digest_inj:
  assumes "sha (event_preimage e) = sha (event_preimage f) \<Longrightarrow> event_preimage e = event_preimage f"
    and "length (event_preimage e) < max_preimage"
    and "digest_is_consistent sha e" "digest_is_consistent sha f"
    and "ev_event_digest e = ev_event_digest f"
  shows "e = f"
proof -
  have "event_preimage e = event_preimage f"
    using assms by (simp add: digest_is_consistent_def compute_digest_def hex_lower_inj)
  from event_preimage_fields [OF assms(2) this] assms(5) show ?thesis by simp
qed

end
