(* ===== verification/Run_State.thy ===== *)
theory Run_State
  imports Run_Event "HOL-Library.Product_Lexorder"
begin

text \<open>
  The versioned run state: \<^verbatim>\<open>crates/o7-run/src/state.rs\<close>. The record \<open>RunState\<close> has the source's
  fields in the source's order; a \<^verbatim>\<open>BTreeSet\<close> is a set, a \<^verbatim>\<open>BTreeMap\<close> a partial map (their
  iteration order matters only to the serializer, which is a parameter of
  \<open>normalized_digest\<close>). The derived Rust orders on \<open>ExecutionSubject\<close> and
  \<open>SandboxEvidenceKey\<close>, by which the evidence vector is kept sorted, are instances of
  \<open>linorder\<close>.
\<close>

section \<open>The derived orders\<close>

text \<open>
  \<^verbatim>\<open>#[derive(PartialOrd, Ord)]\<close> compares the variants in their order of declaration, then the
  fields; strings compare bytewise.
\<close>

fun subject_ord :: "ExecutionSubject \<Rightarrow> nat \<times> string" where
  "subject_ord ES_Agent = (0, [])"
| "subject_ord (ES_Gate gate) = (1, gate_id_str gate)"
| "subject_ord ES_Verifier = (2, [])"

lemma subject_ord_inj: "subject_ord a = subject_ord b \<longleftrightarrow> a = b"
  by (cases a; cases b) auto

instantiation ExecutionSubject :: linorder
begin

definition less_eq_ExecutionSubject :: "ExecutionSubject \<Rightarrow> ExecutionSubject \<Rightarrow> bool" where
  "less_eq_ExecutionSubject a b \<longleftrightarrow> subject_ord a \<le> subject_ord b"

definition less_ExecutionSubject :: "ExecutionSubject \<Rightarrow> ExecutionSubject \<Rightarrow> bool" where
  "less_ExecutionSubject a b \<longleftrightarrow> subject_ord a < subject_ord b"

instance
  by standard
    (auto simp: less_eq_ExecutionSubject_def less_ExecutionSubject_def less_le_not_le
       simp flip: subject_ord_inj intro: antisym)

end

instantiation Digest256 :: linorder
begin

definition less_eq_Digest256 :: "Digest256 \<Rightarrow> Digest256 \<Rightarrow> bool" where
  "less_eq_Digest256 a b \<longleftrightarrow> digest_str a \<le> digest_str b"

definition less_Digest256 :: "Digest256 \<Rightarrow> Digest256 \<Rightarrow> bool" where
  "less_Digest256 a b \<longleftrightarrow> digest_str a < digest_str b"

instance
  by standard
    (auto simp: less_eq_Digest256_def less_Digest256_def less_le_not_le
       simp flip: newtype_inj intro: antisym)

end

datatype SandboxEvidenceKey =
  SandboxEvidenceKey (key_subject: ExecutionSubject) (key_policy_digest: Digest256)

definition evidence_key_ord :: "SandboxEvidenceKey \<Rightarrow> ExecutionSubject \<times> Digest256" where
  "evidence_key_ord k = (key_subject k, key_policy_digest k)"

lemma evidence_key_ord_inj: "evidence_key_ord a = evidence_key_ord b \<longleftrightarrow> a = b"
  by (auto simp: evidence_key_ord_def intro: SandboxEvidenceKey.expand)

instantiation SandboxEvidenceKey :: linorder
begin

definition less_eq_SandboxEvidenceKey :: "SandboxEvidenceKey \<Rightarrow> SandboxEvidenceKey \<Rightarrow> bool" where
  "less_eq_SandboxEvidenceKey a b \<longleftrightarrow> evidence_key_ord a \<le> evidence_key_ord b"

definition less_SandboxEvidenceKey :: "SandboxEvidenceKey \<Rightarrow> SandboxEvidenceKey \<Rightarrow> bool" where
  "less_SandboxEvidenceKey a b \<longleftrightarrow> evidence_key_ord a < evidence_key_ord b"

instance
  by standard
    (auto simp: less_eq_SandboxEvidenceKey_def less_SandboxEvidenceKey_def less_le_not_le
       simp flip: evidence_key_ord_inj intro: antisym)

end

section \<open>The state\<close>

definition RUN_STATE_SCHEMA_VERSION :: u32 where
  "RUN_STATE_SCHEMA_VERSION = 1"

datatype Verdict = V_Pass | V_Fail | V_Blocked | V_Error

datatype RunPhase = NotStarted | Running | Sealed

datatype GateProgress = GP_Started | GP_Finished GateOutcome

datatype AgentLifecycle = AL_NotObserved | AL_Started | AL_Exited AgentOutcome

record PolicyResult =
  pres_policy :: ArtifactRef
  pres_outcome :: PolicyOutcome

record SandboxEvidenceEntry =
  see_key :: SandboxEvidenceKey
  see_outcome :: SandboxEvidenceOutcome

record CandidateMaterialization =
  cm_source_run_id :: RunId
  cm_source_receipt :: ArtifactRef
  cm_source_patch :: ArtifactRef
  cm_materialized_tree_oid :: string

record RunState =
  st_schema_version :: u32
  st_phase :: RunPhase
  st_run_id :: "RunId option"
  st_contract :: "RunContract option"
  st_task :: "ArtifactRef option"
  st_worktree :: "ArtifactRef option"
  st_patch :: "ArtifactRef option"
  st_agent :: AgentLifecycle
  st_last_sequence :: "u64 option"
  st_last_event_digest :: Digest256
  st_seen_event_ids :: "RunEventId set"
  st_gates :: "GateId \<rightharpoonup> GateProgress"
  st_policy_results :: "PolicyResult list"
  st_sandbox_evidence :: "SandboxEvidenceEntry list"
  st_verdict :: "Verdict option"
  st_provider_session_receipt :: "ArtifactRef option"
  st_command_binding :: "ArtifactRef option"
  st_candidate_state :: "ArtifactRef option"
  st_candidate_materialized :: "CandidateMaterialization option"

definition initial_state :: RunState where
  "initial_state =
     \<lparr> st_schema_version = RUN_STATE_SCHEMA_VERSION,
       st_phase = NotStarted,
       st_run_id = None,
       st_contract = None,
       st_task = None,
       st_worktree = None,
       st_patch = None,
       st_agent = AL_NotObserved,
       st_last_sequence = None,
       st_last_event_digest = genesis,
       st_seen_event_ids = {},
       st_gates = Map.empty,
       st_policy_results = [],
       st_sandbox_evidence = [],
       st_verdict = None,
       st_provider_session_receipt = None,
       st_command_binding = None,
       st_candidate_state = None,
       st_candidate_materialized = None \<rparr>"

definition is_sealed :: "RunState \<Rightarrow> bool" where
  "is_sealed s \<longleftrightarrow> st_phase s = Sealed"

text \<open>
  \<open>to_vec\<close> stands for \<^verbatim>\<open>serde_json::to_vec\<close> on the state (a package outside the repository),
  \<open>None\<close> where it fails.
\<close>

definition state_domain :: bytes where
  "state_domain = as_bytes ''o7-run-state'' @ [0] @ as_bytes ''v1'' @ [0]"

definition normalized_digest ::
  "(bytes \<Rightarrow> bytes) \<Rightarrow> (RunState \<Rightarrow> bytes option) \<Rightarrow> RunState \<Rightarrow> Digest256 option" where
  "normalized_digest sha to_vec s =
     (case to_vec s of
        None \<Rightarrow> None
      | Some json \<Rightarrow> Some (from_sha256 (sha (state_domain @ json))))"

end
