(* ===== verification/Rust_Std.thy ===== *)
theory Rust_Std
  imports O7_Prelude
begin

text \<open>
  The parts of Rust's standard library the modelled code relies on beyond lists and options:
  \<^verbatim>\<open>slice::binary_search_by\<close> and the Unix reading of \<^verbatim>\<open>Path::components\<close>.
\<close>

section \<open>Ordering and binary search\<close>

datatype Ordering = Less | Equal | Greater

definition cmp :: "'a::linorder \<Rightarrow> 'a \<Rightarrow> Ordering" where
  "cmp a b = (if a < b then Less else if a = b then Equal else Greater)"

text \<open>
  The loop of \<^verbatim>\<open>binary_search_by\<close>: \<open>base\<close> and \<open>size\<close> (here \<open>sz\<close>) bound the window that can still hold the
  element.
\<close>

function bsearch_loop :: "('a \<Rightarrow> Ordering) \<Rightarrow> 'a list \<Rightarrow> nat \<Rightarrow> nat \<Rightarrow> nat" where
  "bsearch_loop f xs base sz =
     (if sz \<le> 1 then base
      else let half = sz div 2; mid = base + half
           in bsearch_loop f xs (if f (xs ! mid) = Greater then base else mid) (sz - half))"
  by pat_completeness auto
termination
  by (relation "measure (\<lambda>(f, xs, base, sz). sz)") auto

declare bsearch_loop.simps [simp del]

text \<open>\<open>Ok i\<close> (\<open>Inr i\<close>) is a position of an equal element, \<open>Err p\<close> (\<open>Inl p\<close>) the insertion point.\<close>

definition binary_search_by :: "('a \<Rightarrow> Ordering) \<Rightarrow> 'a list \<Rightarrow> (nat, nat) result" where
  "binary_search_by f xs =
     (if xs = [] then Inl 0
      else let base = bsearch_loop f xs 0 (length xs); c = f (xs ! base)
           in if c = Equal then Inr base
              else Inl (base + (if c = Less then 1 else 0)))"

text \<open>\<open>Vec::insert(pos, x)\<close> for \<open>pos \<le> len\<close>; it panics beyond, where this is not used.\<close>

definition vec_insert :: "nat \<Rightarrow> 'a \<Rightarrow> 'a list \<Rightarrow> 'a list" where
  "vec_insert i x xs = take i xs @ x # drop i xs"

section \<open>Path components\<close>

datatype PathComponent = RootDir | CurDir | ParentDir | Normal string

fun split_on :: "char \<Rightarrow> string \<Rightarrow> string list" where
  "split_on c [] = [[]]"
| "split_on c (x # xs) =
     (if x = c then [] # split_on c xs
      else (case split_on c xs of [] \<Rightarrow> [[x]] | y # ys \<Rightarrow> (x # y) # ys))"

definition parse_component :: "string \<Rightarrow> PathComponent list" where
  "parse_component s =
     (if s = [] \<or> s = ''.'' then []
      else if s = ''..'' then [ParentDir]
      else [Normal s])"

text \<open>
  Empty segments and inner \<^verbatim>\<open>.\<close> segments are skipped; a leading \<^verbatim>\<open>/\<close> is the root, a leading
  \<^verbatim>\<open>.\<close> segment is kept as \<open>CurDir\<close>.
\<close>

definition path_components :: "string \<Rightarrow> PathComponent list" where
  "path_components p =
     (let segs = split_on (CHR ''/'') p in
        (if p \<noteq> [] \<and> hd p = CHR ''/'' then [RootDir]
         else if hd segs = ''.'' then [CurDir]
         else [])
        @ concat (map parse_component segs))"

text \<open>
  \<^verbatim>\<open>Path::join\<close>: an absolute path replaces the base; otherwise one separator is put between them
  unless the base is empty or ends with one.
\<close>

definition path_join :: "string \<Rightarrow> string \<Rightarrow> string" where
  "path_join base p =
     (if p \<noteq> [] \<and> hd p = CHR ''/'' then p
      else if base = [] \<or> last base = CHR ''/'' then base @ p
      else base @ CHR ''/'' # p)"

text \<open>
  Where walking the components of a path leads from a directory, lexically:
  the root replaces the base, \<^verbatim>\<open>..\<close> leaves the last directory.
\<close>

fun walk :: "string list \<Rightarrow> PathComponent list \<Rightarrow> string list" where
  "walk dir [] = dir"
| "walk dir (RootDir # cs) = walk [] cs"
| "walk dir (CurDir # cs) = walk dir cs"
| "walk dir (ParentDir # cs) = walk (butlast dir) cs"
| "walk dir (Normal s # cs) = walk (dir @ [s]) cs"

section \<open>UTF-8\<close>

text \<open>\<^verbatim>\<open>str::from_utf8(bytes).is_ok()\<close>: well-formed UTF-8, as the standard's table 3-7 has it.\<close>

definition utf8_cont :: "byte \<Rightarrow> bool" where
  "utf8_cont c \<longleftrightarrow> 0x80 \<le> c \<and> c \<le> 0xBF"

definition utf8_second3 :: "byte \<Rightarrow> byte \<Rightarrow> bool" where
  "utf8_second3 b c \<longleftrightarrow>
     (if b = 0xE0 then 0xA0 \<le> c \<and> c \<le> 0xBF
      else if b = 0xED then 0x80 \<le> c \<and> c \<le> 0x9F
      else utf8_cont c)"

definition utf8_second4 :: "byte \<Rightarrow> byte \<Rightarrow> bool" where
  "utf8_second4 b c \<longleftrightarrow>
     (if b = 0xF0 then 0x90 \<le> c \<and> c \<le> 0xBF
      else if b = 0xF4 then 0x80 \<le> c \<and> c \<le> 0x8F
      else utf8_cont c)"

fun utf8_valid :: "bytes \<Rightarrow> bool" where
  "utf8_valid [] = True"
| "utf8_valid (b # r) =
     (if b < 0x80 then utf8_valid r
      else if 0xC2 \<le> b \<and> b \<le> 0xDF then
        (case r of c1 # r1 \<Rightarrow> utf8_cont c1 \<and> utf8_valid r1 | _ \<Rightarrow> False)
      else if 0xE0 \<le> b \<and> b \<le> 0xEF then
        (case r of c1 # c2 # r2 \<Rightarrow> utf8_second3 b c1 \<and> utf8_cont c2 \<and> utf8_valid r2 | _ \<Rightarrow> False)
      else if 0xF0 \<le> b \<and> b \<le> 0xF4 then
        (case r of c1 # c2 # c3 # r3 \<Rightarrow>
           utf8_second4 b c1 \<and> utf8_cont c2 \<and> utf8_cont c3 \<and> utf8_valid r3
         | _ \<Rightarrow> False)
      else False)"

section \<open>Binary search is correct on sorted slices\<close>

lemma bsearch_loop_stop [simp]: "sz \<le> 1 \<Longrightarrow> bsearch_loop f xs base sz = base"
  by (simp add: bsearch_loop.simps [of f xs base sz])

lemma bsearch_loop_bounds:
  assumes "sz \<ge> 1"
  shows "base \<le> bsearch_loop f xs base sz \<and> bsearch_loop f xs base sz < base + sz"
  using assms
proof (induction f xs base sz rule: bsearch_loop.induct)
  case (1 f xs base sz)
  show ?case
  proof (cases "sz \<le> 1")
    case True
    with 1(2) show ?thesis by simp
  next
    case False
    then have "sz - sz div 2 \<ge> 1" by simp
    from 1(1) [OF False refl refl this] False show ?thesis
      by (auto simp: bsearch_loop.simps [of f xs base sz] Let_def split: if_splits)
  qed
qed

text \<open>The window keeps every smaller-or-equal element at or before the result.\<close>

lemma bsearch_loop_window:
  fixes key :: "'a::linorder"
  assumes "sz \<ge> 1" "base + sz \<le> length xs" "sorted (map g xs)"
    and "base = 0 \<or> g (xs ! base) \<le> key"
    and "\<And>i. base + sz \<le> i \<Longrightarrow> i < length xs \<Longrightarrow> key < g (xs ! i)"
  defines "b \<equiv> bsearch_loop (\<lambda>x. cmp (g x) key) xs base sz"
  shows "(b = 0 \<or> g (xs ! b) \<le> key) \<and> (\<forall>i. b < i \<longrightarrow> i < length xs \<longrightarrow> key < g (xs ! i))"
  using assms(1-5) unfolding b_def
proof (induction "\<lambda>x. cmp (g x) key" xs base sz rule: bsearch_loop.induct)
  case (1 xs base sz)
  let ?f = "\<lambda>x. cmp (g x) key" and ?half = "sz div 2"
  let ?mid = "base + ?half"
  let ?base = "if ?f (xs ! ?mid) = Greater then base else ?mid"
  show ?case
  proof (cases "sz \<le> 1")
    case True
    with "1.prems" show ?thesis by auto
  next
    case False
    have mid: "?mid < length xs" using False "1.prems"(1,2) by auto
    have "?base + (sz - ?half) \<le> length xs" using "1.prems"(2) by auto
    moreover have "?base = 0 \<or> g (xs ! ?base) \<le> key"
      using "1.prems"(4) by (auto simp: cmp_def)
    moreover have "key < g (xs ! i)" if i: "?base + (sz - ?half) \<le> i" "i < length xs" for i
    proof (cases "?f (xs ! ?mid) = Greater")
      case True
      then have "key < g (xs ! ?mid)" by (simp add: cmp_def split: if_splits)
      moreover have "?mid \<le> i" using i True by auto
      then have "g (xs ! ?mid) \<le> g (xs ! i)"
        using sorted_nth_mono [OF "1.prems"(3), of ?mid i] i mid by simp
      ultimately show ?thesis by simp
    next
      case False
      with i "1.prems"(5) show ?thesis by auto
    qed
    moreover have "sz - ?half \<ge> 1" using False by simp
    ultimately have
      "(let b = bsearch_loop ?f xs ?base (sz - ?half) in
         (b = 0 \<or> g (xs ! b) \<le> key) \<and> (\<forall>i. b < i \<longrightarrow> i < length xs \<longrightarrow> key < g (xs ! i)))"
      using 1(1) [OF False refl refl] "1.prems"(3) unfolding Let_def by blast
    moreover have "bsearch_loop ?f xs base sz = bsearch_loop ?f xs ?base (sz - ?half)"
      using False by (subst bsearch_loop.simps) (simp only: Let_def if_False)
    ultimately show ?thesis unfolding Let_def by presburger
  qed
qed

text \<open>
  For a key that does not occur, \<^verbatim>\<open>binary_search_by\<close> returns the point that keeps the slice sorted.
\<close>

lemma binary_search_absent:
  fixes key :: "'a::linorder"
  assumes "sorted (map g xs)" and "key \<notin> g ` set xs"
  obtains p where "binary_search_by (\<lambda>x. cmp (g x) key) xs = Inl p" "p \<le> length xs"
    "\<forall>x \<in> set (take p xs). g x < key" "\<forall>x \<in> set (drop p xs). key < g x"
proof (cases "xs = []")
  case True
  then show ?thesis using that [of 0] by (simp add: binary_search_by_def)
next
  case False
  let ?f = "\<lambda>x. cmp (g x) key" and ?b = "bsearch_loop (\<lambda>x. cmp (g x) key) xs 0 (length xs)"
  have ne: "length xs \<ge> 1" using False by (cases xs) simp_all
  have b: "?b < length xs" using bsearch_loop_bounds [OF ne, of 0 ?f xs] by simp
  have win: "?b = 0 \<or> g (xs ! ?b) \<le> key" "\<And>i. ?b < i \<Longrightarrow> i < length xs \<Longrightarrow> key < g (xs ! i)"
    using bsearch_loop_window [OF ne, of 0 xs g key] assms(1) by auto
  have neq: "g (xs ! ?b) \<noteq> key" using assms(2) nth_mem [OF b] by (metis image_eqI)
  let ?p = "?b + (if ?f (xs ! ?b) = Less then 1 else 0)"
  have bs: "binary_search_by ?f xs = Inl ?p"
    using False neq by (auto simp: binary_search_by_def Let_def cmp_def)
  have low: "g (xs ! i) < key" if "i < ?p" for i
  proof (cases "?f (xs ! ?b) = Less")
    case True
    then have "g (xs ! ?b) < key" by (simp add: cmp_def split: if_splits)
    moreover have "g (xs ! i) \<le> g (xs ! ?b)"
      using sorted_nth_mono [OF assms(1), of i ?b] that True b by simp
    ultimately show ?thesis by simp
  next
    case False
    then have "key < g (xs ! ?b)" using neq by (auto simp: cmp_def split: if_splits)
    with win(1) have "?b = 0" by auto
    with False that show ?thesis by simp
  qed
  have high: "key < g (xs ! i)" if "?p \<le> i" "i < length xs" for i
  proof (cases "i = ?b")
    case True
    with that neq show ?thesis by (auto simp: cmp_def split: if_splits)
  next
    case False
    with that win(2) [of i] show ?thesis by (auto split: if_splits)
  qed
  show ?thesis
  proof (rule that [OF bs])
    show "?p \<le> length xs" using b by simp
    show "\<forall>x \<in> set (take ?p xs). g x < key" using low by (auto simp: in_set_conv_nth)
    show "\<forall>x \<in> set (drop ?p xs). key < g x"
      using high by (auto simp: in_set_conv_nth)
  qed
qed

lemma set_vec_insert [simp]: "set (vec_insert i x xs) = insert x (set xs)"
  by (simp add: vec_insert_def) (metis append_take_drop_id set_append)

lemma sorted_vec_insert:
  fixes key :: "'a::linorder"
  assumes "sorted (map g xs)"
    and "\<forall>y \<in> set (take p xs). g y < g x" "\<forall>y \<in> set (drop p xs). g x < g y"
  shows "sorted (map g (vec_insert p x xs))"
proof -
  have "sorted (map g (take p xs) @ map g (drop p xs))"
    using assms(1) by (simp flip: map_append)
  with assms(2,3) show ?thesis
    by (fastforce simp: vec_insert_def sorted_append)
qed

section \<open>Path confinement\<close>

lemma split_on_ne [simp]: "split_on c s \<noteq> []"
  by (induction s) (auto split: list.splits)

lemma walk_Normal:
  "list_all (\<lambda>c. \<exists>s. c = Normal s) cs \<Longrightarrow>
   walk dir cs = dir @ concat (map (\<lambda>c. case c of Normal s \<Rightarrow> [s] | _ \<Rightarrow> []) cs)"
  by (induction cs arbitrary: dir) auto

lemma hd_split_on_ne: "s \<noteq> [] \<Longrightarrow> hd s \<noteq> c \<Longrightarrow> hd (split_on c s) \<noteq> []"
  by (cases s) (auto split: list.splits)

text \<open>A non-empty relative path whose components are all \<open>Normal\<close> has at least one component.\<close>

lemma path_components_ne: "p \<noteq> [] \<Longrightarrow> path_components p \<noteq> []"
proof
  assume ne: "p \<noteq> []" and nil: "path_components p = []"
  let ?h = "hd (split_on (CHR ''/'') p)"
  from ne nil have hd: "hd p \<noteq> CHR ''/''" "?h \<noteq> ''.''"
    by (auto simp: path_components_def Let_def split: if_splits)
  have "?h \<in> set (split_on (CHR ''/'') p)" by simp
  with nil have "parse_component ?h = []"
    by (auto simp: path_components_def Let_def split: if_splits)
  with hd(2) hd_split_on_ne [OF ne hd(1)] show False
    by (auto simp: parse_component_def split: if_splits)
qed

lemma split_on_append: "split_on c (a @ c # b) = split_on c a @ split_on c b"
  by (induction a) (auto split: list.splits simp: Cons_eq_append_conv)

text \<open>The components of a path below a base are those of the base followed by its own.\<close>

lemma path_components_join:
  assumes "p \<noteq> []" and "RootDir \<notin> set (path_components p)" and "CurDir \<notin> set (path_components p)"
  shows "path_components (path_join base p) = path_components base @ path_components p"
proof -
  let ?split = "split_on (CHR ''/'')"
  have rel: "hd p \<noteq> CHR ''/''" "hd (?split p) \<noteq> ''.''"
    using assms by (auto simp: path_components_def Let_def split: if_splits)
  have below: "path_components (a @ CHR ''/'' # p) = path_components a @ path_components p"
    if "a \<noteq> []" for a
    using that rel by (simp add: path_components_def Let_def split_on_append)
  show ?thesis
  proof (cases "base = []")
    case True
    then show ?thesis using rel by (simp add: path_join_def path_components_def parse_component_def)
  next
    case ne: False
    show ?thesis
    proof (cases "last base = CHR ''/''")
      case True
      with ne obtain a where base: "base = a @ [CHR ''/'']"
        by (metis append_butlast_last_id)
      have "path_components base = (if a = [] then [RootDir] else path_components a)"
        using split_on_append [of "CHR ''/''" a "[]"]
        by (simp add: base path_components_def Let_def parse_component_def)
      moreover have "path_components (CHR ''/'' # p) = RootDir # path_components p"
        using split_on_append [of "CHR ''/''" "[]" p] rel
        by (simp add: path_components_def parse_component_def)
      ultimately show ?thesis
        using rel(1) below [of a] by (simp add: path_join_def base)
    next
      case False
      with ne rel(1) show ?thesis using below [OF ne] by (simp add: path_join_def)
    qed
  qed
qed

section \<open>Printing numbers\<close>

text \<open>\<^verbatim>\<open>format!("{}")\<close> of an unsigned integer.\<close>

fun decimal :: "nat \<Rightarrow> string" where
  "decimal n =
     (if n < 10 then [char_of (48 + n)] else decimal (n div 10) @ [char_of (48 + n mod 10)])"

declare decimal.simps [simp del]

definition dec_value :: "string \<Rightarrow> nat" where
  "dec_value s = foldl (\<lambda>a c. 10 * a + (of_char c - 48)) 0 s"

lemma dec_value_decimal: "dec_value (decimal n) = n"
proof (induction n rule: decimal.induct)
  case (1 n)
  then show ?case by (subst decimal.simps) (auto simp: dec_value_def)
qed

lemma decimal_inj [simp]: "decimal m = decimal n \<longleftrightarrow> m = n"
  by (metis dec_value_decimal)

lemma decimal_digits: "c \<in> set (decimal n) \<Longrightarrow> 48 \<le> (of_char c :: nat) \<and> (of_char c :: nat) \<le> 57"
proof (induction n rule: decimal.induct)
  case (1 n)
  then show ?case by (subst (asm) (2) decimal.simps) (auto split: if_splits)
qed

lemma decimal_ne [simp]: "decimal n \<noteq> []"
  by (subst decimal.simps) simp

end
