(* ===== verification/Run_Reduce.thy ===== *)
theory Run_Reduce
  imports Run_State Rust_Std
begin

text \<open>
  The pure run-state reducer: \<^verbatim>\<open>crates/o7-run/src/reduce.rs\<close>. One definition per function of the
  source, in the source's order of checks; every early return is a constructor of
  \<open>ReduceError\<close>. The \<^verbatim>\<open>&mut RunState\<close> of \<open>apply_kind\<close> and \<open>apply_with_contract\<close> is passed and
  returned; on an error \<open>reduce\<close> drops the state it owned, so the error alone is the result.
\<close>

section \<open>Errors\<close>

datatype (plugins only: code size) ReduceError =
    MissingRunStarted string u64
  | DuplicateStart u64
  | OutOfOrder u64 u64
  | DuplicateSequence u64
  | BrokenChain u64
  | InconsistentDigest u64
  | RunIdMismatch u64 RunId RunId
  | DuplicateEventId u64 RunEventId
  | UnsupportedSchema u64 u32 u32
  | DuplicateGateInContract GateId
  | UnsupportedCandidateContractSchema u32 u32
  | UnknownGate u64 GateId
  | DuplicateGateStarted u64 GateId
  | GateFinishedWithoutStart u64 GateId
  | DuplicateGateFinished u64 GateId
  | AgentExitBeforeStart u64
  | DuplicateAgentStart u64
  | DuplicateAgentExit u64
  | WrongArtifactKind u64 ArtifactKind ArtifactKind
  | EmptyArtifactLocator u64
  | WaiverEnvironmentMismatch GateId string string
  | EmptyWaiverReason GateId
  | SandboxAgentSubjectWithoutAgent
  | SandboxSubjectGateIneligible GateId
  | PolicyProtectsUnknownGate GateId
  | PolicyProtectsAgentWithoutAgent
  | DuplicateProtectedSubject PolicyProtectedSubject
  | OptionalPolicyWithProtects Digest256
  | DuplicateWorktree u64
  | DuplicatePatch u64
  | DisallowedAgentEvent u64
  | DuplicatePolicyInContract Digest256
  | UnknownPolicy u64 Digest256
  | DuplicatePolicyCheck u64 Digest256
  | ProtectedStartBeforePolicyAllowed u64 ExecutionSubject
  | DuplicateSandboxRequirement ExecutionSubject Digest256
  | SandboxSubjectUnknownGate GateId
  | DuplicateSandboxEvidence u64
  | UnrequiredSandboxEvidence u64
  | ImpossibleTransition u64 string
  | EventAfterSeal u64
  | DuplicateProviderSessionReceipt u64
  | DuplicateCommandBinding u64
  | DuplicateCandidateState u64
  | DuplicateCandidateMaterialized u64
  | CandidateCaptureBeforePatch u64
  | CandidateCaptureBeforeAgentTerminal u64
  | CandidateMaterializationWithoutCommandBinding u64
  | CandidateMaterializationAfterAgentStarted u64
  | AgentStartedWithoutCandidateMaterialization u64

section \<open>Helpers\<close>

definition gate_obligation :: "RunContract \<Rightarrow> GateId \<Rightarrow> GateObligation option" where
  "gate_obligation c gate = find (\<lambda>ob. gob_gate ob = gate) (rc_gate_obligations c)"

definition is_required_applicable :: "GateObligation \<Rightarrow> bool" where
  "is_required_applicable ob \<longleftrightarrow>
     gob_requirement ob = GR_Required \<and> gob_applicability ob = Applicable"

definition validate_artifact ::
  "ArtifactRef \<Rightarrow> ArtifactKind \<Rightarrow> u64 \<Rightarrow> (ReduceError, unit) result" where
  "validate_artifact artifact expected sq =
     (if art_locator artifact = [] then Inl (EmptyArtifactLocator sq)
      else if art_kind artifact \<noteq> expected
        then Inl (WrongArtifactKind sq expected (art_kind artifact))
      else Inr ())"

section \<open>The contract\<close>

definition validate_gate_obligation ::
  "RunContract \<Rightarrow> GateId set \<Rightarrow> GateObligation \<Rightarrow> (ReduceError, GateId set) result" where
  "validate_gate_obligation c seen_gates ob =
     (if gob_gate ob \<in> seen_gates then Inl (DuplicateGateInContract (gob_gate ob))
      else (case gob_applicability ob of
              Applicable \<Rightarrow> Inr (insert (gob_gate ob) seen_gates)
            | Waived environment reason \<Rightarrow>
                if environment \<noteq> rc_runner_environment c
                  then Inl (WaiverEnvironmentMismatch (gob_gate ob) environment
                              (rc_runner_environment c))
                else if trim_is_empty reason then Inl (EmptyWaiverReason (gob_gate ob))
                else Inr (insert (gob_gate ob) seen_gates)))"

definition validate_protected_subject ::
  "RunContract \<Rightarrow> PolicyProtectedSubject list \<Rightarrow> PolicyProtectedSubject
     \<Rightarrow> (ReduceError, PolicyProtectedSubject list) result" where
  "validate_protected_subject c seen_protected s =
     (if s \<in> set seen_protected then Inl (DuplicateProtectedSubject s)
      else (case s of
              PP_Agent \<Rightarrow>
                if rc_agent c \<noteq> AO_Required then Inl PolicyProtectsAgentWithoutAgent
                else Inr (seen_protected @ [s])
            | PP_Gate gate \<Rightarrow>
                if gate_obligation c gate = None then Inl (PolicyProtectsUnknownGate gate)
                else Inr (seen_protected @ [s])))"

definition validate_policy_obligation ::
  "RunContract \<Rightarrow> u64 \<Rightarrow> Digest256 set \<Rightarrow> PolicyObligation \<Rightarrow> (ReduceError, Digest256 set) result" where
  "validate_policy_obligation c sq seen_policies p =
     and_then (validate_artifact (pob_policy p) AK_Policy sq) (\<lambda>_.
       if art_digest (pob_policy p) \<in> seen_policies
         then Inl (DuplicatePolicyInContract (art_digest (pob_policy p)))
       else if pob_protects p \<noteq> [] \<and> pob_requirement p \<noteq> PR_Required
         then Inl (OptionalPolicyWithProtects (art_digest (pob_policy p)))
       else and_then (try_fold (validate_protected_subject c) [] (pob_protects p)) (\<lambda>_.
         Inr (insert (art_digest (pob_policy p)) seen_policies)))"

definition validate_sandbox_requirement ::
  "RunContract \<Rightarrow> (ExecutionSubject \<times> Digest256) list \<Rightarrow> SandboxRequirement
     \<Rightarrow> (ReduceError, (ExecutionSubject \<times> Digest256) list) result" where
  "validate_sandbox_requirement c seen_sandbox r =
     (let key = (sreq_subject r, sreq_policy_digest r) in
      if key \<in> set seen_sandbox
        then Inl (DuplicateSandboxRequirement (sreq_subject r) (sreq_policy_digest r))
      else (case sreq_subject r of
              ES_Agent \<Rightarrow>
                if rc_agent c \<noteq> AO_Required then Inl SandboxAgentSubjectWithoutAgent
                else Inr (seen_sandbox @ [key])
            | ES_Gate gate \<Rightarrow>
                (case gate_obligation c gate of
                   None \<Rightarrow> Inl (SandboxSubjectUnknownGate gate)
                 | Some ob \<Rightarrow>
                     if \<not> is_required_applicable ob then Inl (SandboxSubjectGateIneligible gate)
                     else Inr (seen_sandbox @ [key]))
            | ES_Verifier \<Rightarrow> Inr (seen_sandbox @ [key])))"

definition validate_candidate_schema :: "RunContract \<Rightarrow> (ReduceError, unit) result" where
  "validate_candidate_schema c =
     (case rc_candidate_state c of
        Some obligation \<Rightarrow>
          if csc_schema obligation \<noteq> CANDIDATE_STATE_CONTRACT_SCHEMA_V1
            then Inl (UnsupportedCandidateContractSchema (csc_schema obligation)
                        CANDIDATE_STATE_CONTRACT_SCHEMA_V1)
          else Inr ()
      | None \<Rightarrow> Inr ())"

definition validate_contract :: "RunContract \<Rightarrow> u64 \<Rightarrow> (ReduceError, unit) result" where
  "validate_contract c sq =
     and_then (validate_candidate_schema c) (\<lambda>_.
     and_then (try_fold (validate_gate_obligation c) {} (rc_gate_obligations c)) (\<lambda>_.
     and_then (try_fold (validate_policy_obligation c sq) {} (rc_policy_obligations c)) (\<lambda>_.
     and_then (try_fold (validate_sandbox_requirement c) [] (rc_sandbox_requirements c)) (\<lambda>_.
     Inr ()))))"

section \<open>Starts and verdict\<close>

fun protected_to_execution :: "PolicyProtectedSubject \<Rightarrow> ExecutionSubject" where
  "protected_to_execution PP_Agent = ES_Agent"
| "protected_to_execution (PP_Gate gate) = ES_Gate gate"

definition policy_allowed :: "RunState \<Rightarrow> PolicyObligation \<Rightarrow> bool" where
  "policy_allowed s p \<longleftrightarrow>
     list_ex (\<lambda>r. art_digest (pres_policy r) = art_digest (pob_policy p)
                  \<and> pres_outcome r = PO_Allowed) (st_policy_results s)"

definition check_protected_start ::
  "RunState \<Rightarrow> RunContract \<Rightarrow> PolicyProtectedSubject \<Rightarrow> u64 \<Rightarrow> (ReduceError, unit) result" where
  "check_protected_start s c subject sq =
     try_for_each (\<lambda>p.
        if pob_requirement p \<noteq> PR_Required then Inr ()
        else if \<not> list_ex (\<lambda>x. x = subject) (pob_protects p) then Inr ()
        else if \<not> policy_allowed s p
          then Inl (ProtectedStartBeforePolicyAllowed sq (protected_to_execution subject))
        else Inr ()) (rc_policy_obligations c)"

fun is_exited :: "AgentLifecycle \<Rightarrow> bool" where
  "is_exited (AL_Exited _) = True"
| "is_exited _ = False"

fun is_run_started :: "RunEventKind \<Rightarrow> bool" where
  "is_run_started (RunStarted _ _) = True"
| "is_run_started _ = False"

datatype NonStart = NonStart_Error | NonStart_Blocked

definition find_policy_result :: "RunState \<Rightarrow> PolicyObligation \<Rightarrow> PolicyResult option" where
  "find_policy_result s p =
     find (\<lambda>r. art_digest (pres_policy r) = art_digest (pob_policy p)) (st_policy_results s)"

definition agent_nonstart_disposition :: "RunState \<Rightarrow> RunContract \<Rightarrow> NonStart" where
  "agent_nonstart_disposition s c =
     (let protectors = filter (\<lambda>ob. list_ex (\<lambda>x. x = PP_Agent) (pob_protects ob))
                         (filter (\<lambda>ob. pob_requirement ob = PR_Required) (rc_policy_obligations c));
          outcome = (\<lambda>ob. map_option pres_outcome (find_policy_result s ob))
      in if protectors = [] then NonStart_Error
         else if list_ex (\<lambda>ob. outcome ob = Some PO_Error) protectors then NonStart_Error
         else if list_ex (\<lambda>ob. outcome ob = Some PO_Denied \<or> outcome ob = None) protectors
           then NonStart_Blocked
         else NonStart_Error)"

text \<open>
  The three flags \<open>error\<close>, \<open>fail\<close>, \<open>blocked\<close> of \<open>compute_verdict\<close>. Each loop only ever sets a
  flag, so a component contributes the three disjuncts below.
\<close>

record Flags =
  fl_error :: bool
  fl_fail :: bool
  fl_blocked :: bool

definition no_flags :: Flags where
  "no_flags = \<lparr>fl_error = False, fl_fail = False, fl_blocked = False\<rparr>"

definition agent_flags :: "RunState \<Rightarrow> RunContract \<Rightarrow> Flags \<Rightarrow> Flags" where
  "agent_flags s c fl =
     (if rc_agent c = AO_Required then
        (case st_agent s of
           AL_Exited outcome \<Rightarrow> if outcome \<noteq> ExitedNormally 0 then fl\<lparr>fl_error := True\<rparr> else fl
         | AL_Started \<Rightarrow> fl\<lparr>fl_error := True\<rparr>
         | AL_NotObserved \<Rightarrow>
             (case agent_nonstart_disposition s c of
                NonStart_Error \<Rightarrow> fl\<lparr>fl_error := True\<rparr>
              | NonStart_Blocked \<Rightarrow> fl\<lparr>fl_blocked := True\<rparr>))
      else fl)"

definition gate_flags :: "RunState \<Rightarrow> GateObligation \<Rightarrow> Flags \<Rightarrow> Flags" where
  "gate_flags s ob fl =
     (if \<not> is_required_applicable ob then fl
      else (case st_gates s (gob_gate ob) of
              None \<Rightarrow> fl\<lparr>fl_blocked := True\<rparr>
            | Some GP_Started \<Rightarrow> fl\<lparr>fl_error := True\<rparr>
            | Some (GP_Finished outcome) \<Rightarrow>
                (case outcome of
                   GO_Pass \<Rightarrow> fl
                 | GO_Warn \<Rightarrow> fl
                 | GO_Fail \<Rightarrow> fl\<lparr>fl_fail := True\<rparr>
                 | GO_Error \<Rightarrow> fl\<lparr>fl_error := True\<rparr>
                 | GO_Blocked \<Rightarrow> fl\<lparr>fl_blocked := True\<rparr>
                 | GO_NotApplicable \<Rightarrow> fl\<lparr>fl_blocked := True\<rparr>)))"

definition policy_flags :: "RunState \<Rightarrow> PolicyObligation \<Rightarrow> Flags \<Rightarrow> Flags" where
  "policy_flags s p fl =
     (if pob_requirement p \<noteq> PR_Required then fl
      else (case find_policy_result s p of
              None \<Rightarrow> fl\<lparr>fl_blocked := True\<rparr>
            | Some r \<Rightarrow>
                (case pres_outcome r of
                   PO_Allowed \<Rightarrow> fl
                 | PO_Denied \<Rightarrow> fl\<lparr>fl_blocked := True\<rparr>
                 | PO_Error \<Rightarrow> fl\<lparr>fl_error := True\<rparr>)))"

definition sandbox_flags :: "RunState \<Rightarrow> SandboxRequirement \<Rightarrow> Flags \<Rightarrow> Flags" where
  "sandbox_flags s req fl =
     (case find (\<lambda>e. key_subject (see_key e) = sreq_subject req
                     \<and> key_policy_digest (see_key e) = sreq_policy_digest req)
             (st_sandbox_evidence s) of
        None \<Rightarrow> fl\<lparr>fl_blocked := True\<rparr>
      | Some e \<Rightarrow>
          (case see_outcome e of
             SE_Satisfied \<Rightarrow> fl
           | SE_Violated \<Rightarrow> fl\<lparr>fl_blocked := True\<rparr>
           | SE_Error \<Rightarrow> fl\<lparr>fl_error := True\<rparr>))"

definition candidate_flags :: "RunState \<Rightarrow> RunContract \<Rightarrow> Flags \<Rightarrow> Flags" where
  "candidate_flags s c fl =
     (if rc_candidate_state c \<noteq> None \<and> st_candidate_state s = None
      then fl\<lparr>fl_blocked := True\<rparr> else fl)"

definition verdict_of_flags :: "Flags \<Rightarrow> Verdict" where
  "verdict_of_flags fl =
     (if fl_error fl then V_Error
      else if fl_fail fl then V_Fail
      else if fl_blocked fl then V_Blocked
      else V_Pass)"

definition compute_verdict :: "RunState \<Rightarrow> RunContract \<Rightarrow> Verdict" where
  "compute_verdict s c =
     verdict_of_flags
       (candidate_flags s c
         (fold (sandbox_flags s) (rc_sandbox_requirements c)
           (fold (policy_flags s) (rc_policy_obligations c)
             (fold (gate_flags s) (rc_gate_obligations c)
               (agent_flags s c no_flags)))))"

section \<open>Applying one event\<close>

definition insert_evidence ::
  "SandboxEvidenceEntry \<Rightarrow> SandboxEvidenceEntry list \<Rightarrow> SandboxEvidenceEntry list" where
  "insert_evidence entry es =
     (let pos = (case binary_search_by (\<lambda>e. cmp (see_key e) (see_key entry)) es of
                   Inl p \<Rightarrow> p | Inr p \<Rightarrow> p)
      in vec_insert pos entry es)"

fun apply_with_contract ::
  "RunState \<Rightarrow> RunContract \<Rightarrow> RunEventKind \<Rightarrow> u64 \<Rightarrow> (ReduceError, RunState) result" where
  "apply_with_contract s c (RunStarted _ _) sq = Inl (DuplicateStart sq)"
| "apply_with_contract s c (WorktreeCreated worktree) sq =
     and_then (validate_artifact worktree AK_Worktree sq) (\<lambda>_.
       if st_worktree s \<noteq> None then Inl (DuplicateWorktree sq)
       else Inr (s\<lparr>st_worktree := Some worktree\<rparr>))"
| "apply_with_contract s c (PatchCaptured patch) sq =
     and_then (validate_artifact patch AK_Diff sq) (\<lambda>_.
       if st_patch s \<noteq> None then Inl (DuplicatePatch sq)
       else Inr (s\<lparr>st_patch := Some patch\<rparr>))"
| "apply_with_contract s c AgentStarted sq =
     (if rc_agent c \<noteq> AO_Required then Inl (DisallowedAgentEvent sq)
      else if st_agent s \<noteq> AL_NotObserved then Inl (DuplicateAgentStart sq)
      else if rc_candidate_state c \<noteq> None \<and> st_command_binding s \<noteq> None
              \<and> st_candidate_materialized s = None
        then Inl (AgentStartedWithoutCandidateMaterialization sq)
      else and_then (check_protected_start s c PP_Agent sq) (\<lambda>_.
        Inr (s\<lparr>st_agent := AL_Started\<rparr>)))"
| "apply_with_contract s c (AgentExited outcome) sq =
     (if rc_agent c \<noteq> AO_Required then Inl (DisallowedAgentEvent sq)
      else (case st_agent s of
              AL_NotObserved \<Rightarrow>
                (case outcome of
                   FailedToStart _ \<Rightarrow> Inr (s\<lparr>st_agent := AL_Exited outcome\<rparr>)
                 | _ \<Rightarrow> Inl (AgentExitBeforeStart sq))
            | AL_Started \<Rightarrow> Inr (s\<lparr>st_agent := AL_Exited outcome\<rparr>)
            | AL_Exited _ \<Rightarrow> Inl (DuplicateAgentExit sq)))"
| "apply_with_contract s c (PolicyChecked policy outcome) sq =
     and_then (validate_artifact policy AK_Policy sq) (\<lambda>_.
       if \<not> list_ex (\<lambda>ob. art_digest (pob_policy ob) = art_digest policy) (rc_policy_obligations c)
         then Inl (UnknownPolicy sq (art_digest policy))
       else if list_ex (\<lambda>r. art_digest (pres_policy r) = art_digest policy) (st_policy_results s)
         then Inl (DuplicatePolicyCheck sq (art_digest policy))
       else Inr (s\<lparr>st_policy_results :=
              st_policy_results s @ [\<lparr>pres_policy = policy, pres_outcome = outcome\<rparr>]\<rparr>))"
| "apply_with_contract s c (GateStarted gate) sq =
     (if gate_obligation c gate = None then Inl (UnknownGate sq gate)
      else if st_gates s gate \<noteq> None then Inl (DuplicateGateStarted sq gate)
      else and_then (check_protected_start s c (PP_Gate gate) sq) (\<lambda>_.
        Inr (s\<lparr>st_gates := (st_gates s)(gate \<mapsto> GP_Started)\<rparr>)))"
| "apply_with_contract s c (GateFinished gate outcome log) sq =
     (if gate_obligation c gate = None then Inl (UnknownGate sq gate)
      else and_then (case log of Some l \<Rightarrow> validate_artifact l AK_GateLog sq | None \<Rightarrow> Inr ()) (\<lambda>_.
        (case st_gates s gate of
           None \<Rightarrow> Inl (GateFinishedWithoutStart sq gate)
         | Some (GP_Finished _) \<Rightarrow> Inl (DuplicateGateFinished sq gate)
         | Some GP_Started \<Rightarrow>
             Inr (s\<lparr>st_gates := (st_gates s)(gate \<mapsto> GP_Finished outcome)\<rparr>))))"
| "apply_with_contract s c (SandboxEvidenceCaptured subject policy_digest report outcome) sq =
     and_then (validate_artifact report AK_SandboxReport sq) (\<lambda>_.
       if \<not> list_ex (\<lambda>r. sreq_subject r = subject \<and> sreq_policy_digest r = policy_digest)
              (rc_sandbox_requirements c)
         then Inl (UnrequiredSandboxEvidence sq)
       else let key = SandboxEvidenceKey subject policy_digest in
         if list_ex (\<lambda>e. see_key e = key) (st_sandbox_evidence s)
           then Inl (DuplicateSandboxEvidence sq)
         else Inr (s\<lparr>st_sandbox_evidence :=
                insert_evidence \<lparr>see_key = key, see_outcome = outcome\<rparr> (st_sandbox_evidence s)\<rparr>))"
| "apply_with_contract s c (ProviderSessionCaptured receipt) sq =
     and_then (validate_artifact receipt AK_ProviderSession sq) (\<lambda>_.
       if st_provider_session_receipt s \<noteq> None then Inl (DuplicateProviderSessionReceipt sq)
       else Inr (s\<lparr>st_provider_session_receipt := Some receipt\<rparr>))"
| "apply_with_contract s c (CommandBindingCaptured binding) sq =
     and_then (validate_artifact binding AK_CommandBinding sq) (\<lambda>_.
       if st_command_binding s \<noteq> None then Inl (DuplicateCommandBinding sq)
       else Inr (s\<lparr>st_command_binding := Some binding\<rparr>))"
| "apply_with_contract s c (CandidateStateCaptured receipt) sq =
     and_then (validate_artifact receipt AK_CandidateState sq) (\<lambda>_.
       if st_candidate_state s \<noteq> None then Inl (DuplicateCandidateState sq)
       else if st_patch s = None then Inl (CandidateCaptureBeforePatch sq)
       else if rc_agent c = AO_Required \<and> \<not> is_exited (st_agent s)
         then Inl (CandidateCaptureBeforeAgentTerminal sq)
       else Inr (s\<lparr>st_candidate_state := Some receipt\<rparr>))"
| "apply_with_contract s c
     (CandidateStateMaterialized source_run_id source_receipt source_patch tree_oid) sq =
     and_then (validate_artifact source_receipt AK_CandidateState sq) (\<lambda>_.
     and_then (validate_artifact source_patch AK_CandidatePatch sq) (\<lambda>_.
       if st_candidate_materialized s \<noteq> None then Inl (DuplicateCandidateMaterialized sq)
       else if st_command_binding s = None
         then Inl (CandidateMaterializationWithoutCommandBinding sq)
       else if st_agent s \<noteq> AL_NotObserved
         then Inl (CandidateMaterializationAfterAgentStarted sq)
       else Inr (s\<lparr>st_candidate_materialized :=
              Some \<lparr>cm_source_run_id = source_run_id, cm_source_receipt = source_receipt,
                    cm_source_patch = source_patch, cm_materialized_tree_oid = tree_oid\<rparr>\<rparr>)))"
| "apply_with_contract s c RunSealed sq =
     Inr (s\<lparr>st_verdict := Some (compute_verdict s c), st_phase := Sealed\<rparr>)"

text \<open>
  \<open>RunStarted\<close> binds the contract; for every other event the contract is moved out of the state
  for the duration of the call and restored.
\<close>

definition apply_kind :: "RunState \<Rightarrow> RunEvent \<Rightarrow> u64 \<Rightarrow> (ReduceError, RunState) result" where
  "apply_kind s e sq =
     (case ev_kind e of
        RunStarted contract task \<Rightarrow>
          if st_phase s \<noteq> NotStarted then Inl (DuplicateStart sq)
          else and_then (validate_contract contract sq) (\<lambda>_.
               and_then (validate_artifact task AK_Task sq) (\<lambda>_.
               Inr (s\<lparr>st_run_id := Some (ev_run_id e), st_contract := Some contract,
                      st_task := Some task, st_phase := Running\<rparr>)))
      | k \<Rightarrow>
          (case st_contract s of
             None \<Rightarrow> Inl (MissingRunStarted (kind_name k) sq)
           | Some contract \<Rightarrow>
               and_then (apply_with_contract (s\<lparr>st_contract := None\<rparr>) contract k sq) (\<lambda>s'.
                 Inr (s'\<lparr>st_contract := Some contract\<rparr>))))"

section \<open>Folding the stream\<close>

definition check_sequence :: "u64 option \<Rightarrow> u64 \<Rightarrow> (ReduceError, unit) result" where
  "check_sequence last_sequence sq =
     (case last_sequence of
        None \<Rightarrow> if sq \<noteq> 0 then Inl (OutOfOrder 0 sq) else Inr ()
      | Some l \<Rightarrow>
          if sq = l then Inl (DuplicateSequence sq)
          else if sq \<noteq> l + 1 then Inl (OutOfOrder (l + 1) sq)
          else Inr ())"

definition check_envelope ::
  "(bytes \<Rightarrow> bytes) \<Rightarrow> RunState \<Rightarrow> RunEvent \<Rightarrow> (ReduceError, unit) result" where
  "check_envelope sha s e =
     (let sq = ev_sequence e in
      if st_phase s = Sealed then Inl (EventAfterSeal sq)
      else if ev_schema_version e \<noteq> RUN_EVENT_SCHEMA_VERSION
        then Inl (UnsupportedSchema sq (ev_schema_version e) RUN_EVENT_SCHEMA_VERSION)
      else if \<not> digest_is_consistent sha e then Inl (InconsistentDigest sq)
      else and_then (check_sequence (st_last_sequence s) sq) (\<lambda>_.
        if ev_previous_event_digest e \<noteq> st_last_event_digest s then Inl (BrokenChain sq)
        else and_then (case st_run_id s of
                         None \<Rightarrow> Inr ()
                       | Some expected \<Rightarrow>
                           if ev_run_id e \<noteq> expected then Inl (RunIdMismatch sq expected (ev_run_id e))
                           else Inr ()) (\<lambda>_.
          if ev_event_id e \<in> st_seen_event_ids s then Inl (DuplicateEventId sq (ev_event_id e))
          else if st_phase s = NotStarted \<and> \<not> is_run_started (ev_kind e)
            then Inl (MissingRunStarted (kind_name (ev_kind e)) sq)
          else Inr ())))"

definition reduce ::
  "(bytes \<Rightarrow> bytes) \<Rightarrow> RunState \<Rightarrow> RunEvent \<Rightarrow> (ReduceError, RunState) result" where
  "reduce sha s e =
     and_then (check_envelope sha s e) (\<lambda>_.
     and_then (apply_kind s e (ev_sequence e)) (\<lambda>s'.
       Inr (s'\<lparr>st_seen_event_ids := insert (ev_event_id e) (st_seen_event_ids s'),
              st_last_sequence := Some (ev_sequence e),
              st_last_event_digest := ev_event_digest e\<rparr>)))"

definition reduce_all :: "(bytes \<Rightarrow> bytes) \<Rightarrow> RunEvent list \<Rightarrow> (ReduceError, RunState) result" where
  "reduce_all sha events = try_fold (reduce sha) initial_state events"

end
