(* ===== verification/Run_Step.thy ===== *)
theory Run_Step
  imports Run_Reduce
begin

text \<open>
  The reducer's contract, stated without its control flow: a well-formed contract as a set of
  conditions (\<open>wf_contract\<close>), and the accepted transitions as an inductive relation with one rule
  per event kind (\<open>kind_step\<close>, \<open>run_step\<close>). The lemmas show that the code's checks compute
  exactly these (\<open>validate_contract_iff\<close>, \<open>reduce_iff_run_step\<close>), so the invariants of
  \<open>Run_Invariants\<close> are rule inductions over \<open>run_step\<close>.
\<close>

section \<open>The declarative contract\<close>

definition artifact_ok :: "ArtifactRef \<Rightarrow> ArtifactKind \<Rightarrow> bool" where
  "artifact_ok a k \<longleftrightarrow> art_locator a \<noteq> [] \<and> art_kind a = k"

fun waiver_ok :: "RunContract \<Rightarrow> GateApplicability \<Rightarrow> bool" where
  "waiver_ok c Applicable = True"
| "waiver_ok c (Waived environment reason) =
     (environment = rc_runner_environment c \<and> \<not> trim_is_empty reason)"

definition declared_gates :: "RunContract \<Rightarrow> GateId set" where
  "declared_gates c = set (map gob_gate (rc_gate_obligations c))"

fun protected_ok :: "RunContract \<Rightarrow> PolicyProtectedSubject \<Rightarrow> bool" where
  "protected_ok c PP_Agent = (rc_agent c = AO_Required)"
| "protected_ok c (PP_Gate gate) = (gate \<in> declared_gates c)"

definition policy_ok :: "RunContract \<Rightarrow> PolicyObligation \<Rightarrow> bool" where
  "policy_ok c p \<longleftrightarrow>
     artifact_ok (pob_policy p) AK_Policy
     \<and> (pob_protects p = [] \<or> pob_requirement p = PR_Required)
     \<and> distinct (pob_protects p) \<and> (\<forall>s \<in> set (pob_protects p). protected_ok c s)"

fun sandbox_subject_ok :: "RunContract \<Rightarrow> ExecutionSubject \<Rightarrow> bool" where
  "sandbox_subject_ok c ES_Agent = (rc_agent c = AO_Required)"
| "sandbox_subject_ok c (ES_Gate gate) =
     (\<exists>ob \<in> set (rc_gate_obligations c). gob_gate ob = gate \<and> is_required_applicable ob)"
| "sandbox_subject_ok c ES_Verifier = True"

definition candidate_schema_ok :: "RunContract \<Rightarrow> bool" where
  "candidate_schema_ok c \<longleftrightarrow>
     (\<forall>ob. rc_candidate_state c = Some ob \<longrightarrow> csc_schema ob = CANDIDATE_STATE_CONTRACT_SCHEMA_V1)"

definition wf_contract :: "RunContract \<Rightarrow> bool" where
  "wf_contract c \<longleftrightarrow>
     candidate_schema_ok c
     \<and> distinct (map gob_gate (rc_gate_obligations c))
     \<and> (\<forall>ob \<in> set (rc_gate_obligations c). waiver_ok c (gob_applicability ob))
     \<and> distinct (map (\<lambda>p. art_digest (pob_policy p)) (rc_policy_obligations c))
     \<and> (\<forall>p \<in> set (rc_policy_obligations c). policy_ok c p)
     \<and> distinct (map (\<lambda>r. (sreq_subject r, sreq_policy_digest r)) (rc_sandbox_requirements c))
     \<and> (\<forall>r \<in> set (rc_sandbox_requirements c). sandbox_subject_ok c (sreq_subject r))"

section \<open>The transition relation\<close>

definition start_allowed :: "RunState \<Rightarrow> RunContract \<Rightarrow> PolicyProtectedSubject \<Rightarrow> bool" where
  "start_allowed s c subject \<longleftrightarrow>
     (\<forall>p \<in> set (rc_policy_obligations c).
        pob_requirement p = PR_Required \<longrightarrow> subject \<in> set (pob_protects p) \<longrightarrow> policy_allowed s p)"

inductive kind_step :: "RunContract \<Rightarrow> RunState \<Rightarrow> RunEventKind \<Rightarrow> RunState \<Rightarrow> bool"
  for c :: RunContract and s :: RunState where
  worktree: "artifact_ok w AK_Worktree \<Longrightarrow> st_worktree s = None \<Longrightarrow>
     kind_step c s (WorktreeCreated w) (s\<lparr>st_worktree := Some w\<rparr>)"
| patch: "artifact_ok p AK_Diff \<Longrightarrow> st_patch s = None \<Longrightarrow>
     kind_step c s (PatchCaptured p) (s\<lparr>st_patch := Some p\<rparr>)"
| agent_start: "rc_agent c = AO_Required \<Longrightarrow> st_agent s = AL_NotObserved \<Longrightarrow>
     rc_candidate_state c = None \<or> st_command_binding s = None
       \<or> st_candidate_materialized s \<noteq> None \<Longrightarrow>
     start_allowed s c PP_Agent \<Longrightarrow>
     kind_step c s AgentStarted (s\<lparr>st_agent := AL_Started\<rparr>)"
| agent_exit: "rc_agent c = AO_Required \<Longrightarrow>
     st_agent s = AL_Started \<or> st_agent s = AL_NotObserved \<and> (\<exists>r. oc = FailedToStart r) \<Longrightarrow>
     kind_step c s (AgentExited oc) (s\<lparr>st_agent := AL_Exited oc\<rparr>)"
| policy: "artifact_ok p AK_Policy \<Longrightarrow>
     \<exists>ob \<in> set (rc_policy_obligations c). art_digest (pob_policy ob) = art_digest p \<Longrightarrow>
     \<forall>r \<in> set (st_policy_results s). art_digest (pres_policy r) \<noteq> art_digest p \<Longrightarrow>
     kind_step c s (PolicyChecked p oc)
       (s\<lparr>st_policy_results := st_policy_results s @ [\<lparr>pres_policy = p, pres_outcome = oc\<rparr>]\<rparr>)"
| gate_start: "g \<in> declared_gates c \<Longrightarrow> st_gates s g = None \<Longrightarrow> start_allowed s c (PP_Gate g) \<Longrightarrow>
     kind_step c s (GateStarted g) (s\<lparr>st_gates := (st_gates s)(g \<mapsto> GP_Started)\<rparr>)"
| gate_finish: "g \<in> declared_gates c \<Longrightarrow> (\<forall>l. log = Some l \<longrightarrow> artifact_ok l AK_GateLog) \<Longrightarrow>
     st_gates s g = Some GP_Started \<Longrightarrow>
     kind_step c s (GateFinished g oc log) (s\<lparr>st_gates := (st_gates s)(g \<mapsto> GP_Finished oc)\<rparr>)"
| evidence: "artifact_ok rep AK_SandboxReport \<Longrightarrow>
     \<exists>r \<in> set (rc_sandbox_requirements c). sreq_subject r = subj \<and> sreq_policy_digest r = d \<Longrightarrow>
     \<forall>e \<in> set (st_sandbox_evidence s). see_key e \<noteq> SandboxEvidenceKey subj d \<Longrightarrow>
     kind_step c s (SandboxEvidenceCaptured subj d rep oc)
       (s\<lparr>st_sandbox_evidence :=
          insert_evidence \<lparr>see_key = SandboxEvidenceKey subj d, see_outcome = oc\<rparr>
            (st_sandbox_evidence s)\<rparr>)"
| session: "artifact_ok r AK_ProviderSession \<Longrightarrow> st_provider_session_receipt s = None \<Longrightarrow>
     kind_step c s (ProviderSessionCaptured r) (s\<lparr>st_provider_session_receipt := Some r\<rparr>)"
| binding: "artifact_ok b AK_CommandBinding \<Longrightarrow> st_command_binding s = None \<Longrightarrow>
     kind_step c s (CommandBindingCaptured b) (s\<lparr>st_command_binding := Some b\<rparr>)"
| captured: "artifact_ok r AK_CandidateState \<Longrightarrow> st_candidate_state s = None \<Longrightarrow>
     st_patch s \<noteq> None \<Longrightarrow> rc_agent c \<noteq> AO_Required \<or> is_exited (st_agent s) \<Longrightarrow>
     kind_step c s (CandidateStateCaptured r) (s\<lparr>st_candidate_state := Some r\<rparr>)"
| materialized: "artifact_ok r AK_CandidateState \<Longrightarrow> artifact_ok p AK_CandidatePatch \<Longrightarrow>
     st_candidate_materialized s = None \<Longrightarrow> st_command_binding s \<noteq> None \<Longrightarrow>
     st_agent s = AL_NotObserved \<Longrightarrow>
     kind_step c s (CandidateStateMaterialized rid r p oid)
       (s\<lparr>st_candidate_materialized :=
          Some \<lparr>cm_source_run_id = rid, cm_source_receipt = r, cm_source_patch = p,
                cm_materialized_tree_oid = oid\<rparr>\<rparr>)"
| seal: "kind_step c s RunSealed (s\<lparr>st_verdict := Some (compute_verdict s c), st_phase := Sealed\<rparr>)"

definition next_sequence :: "u64 option \<Rightarrow> u64" where
  "next_sequence l = (case l of None \<Rightarrow> 0 | Some n \<Rightarrow> n + 1)"

definition envelope_ok :: "(bytes \<Rightarrow> bytes) \<Rightarrow> RunState \<Rightarrow> RunEvent \<Rightarrow> bool" where
  "envelope_ok sha s e \<longleftrightarrow>
     ev_schema_version e = RUN_EVENT_SCHEMA_VERSION
     \<and> digest_is_consistent sha e
     \<and> ev_sequence e = next_sequence (st_last_sequence s)
     \<and> ev_previous_event_digest e = st_last_event_digest s
     \<and> (st_run_id s = None \<or> st_run_id s = Some (ev_run_id e))
     \<and> ev_event_id e \<notin> st_seen_event_ids s"

definition advance :: "RunEvent \<Rightarrow> RunState \<Rightarrow> RunState" where
  "advance e s =
     s\<lparr>st_seen_event_ids := insert (ev_event_id e) (st_seen_event_ids s),
       st_last_sequence := Some (ev_sequence e),
       st_last_event_digest := ev_event_digest e\<rparr>"

inductive run_step :: "(bytes \<Rightarrow> bytes) \<Rightarrow> RunState \<Rightarrow> RunEvent \<Rightarrow> RunState \<Rightarrow> bool"
  for sha :: "bytes \<Rightarrow> bytes" and s :: RunState and e :: RunEvent where
  start: "st_phase s = NotStarted \<Longrightarrow> envelope_ok sha s e \<Longrightarrow> ev_kind e = RunStarted c t \<Longrightarrow>
     wf_contract c \<Longrightarrow> artifact_ok t AK_Task \<Longrightarrow>
     run_step sha s e
       (advance e (s\<lparr>st_run_id := Some (ev_run_id e), st_contract := Some c, st_task := Some t,
                     st_phase := Running\<rparr>))"
| continue: "st_phase s = Running \<Longrightarrow> envelope_ok sha s e \<Longrightarrow> st_contract s = Some c \<Longrightarrow>
     kind_step c s (ev_kind e) s' \<Longrightarrow> run_step sha s e (advance e s')"

inductive_cases run_stepE: "run_step sha s e t"
inductive_simps kind_step_simps:
  "kind_step c s (RunStarted k a) t"
  "kind_step c s (WorktreeCreated w) t"
  "kind_step c s (PatchCaptured p) t"
  "kind_step c s AgentStarted t"
  "kind_step c s (AgentExited oc) t"
  "kind_step c s (PolicyChecked p po) t"
  "kind_step c s (GateStarted g) t"
  "kind_step c s (GateFinished g go log) t"
  "kind_step c s (SandboxEvidenceCaptured subj d rep so) t"
  "kind_step c s (ProviderSessionCaptured r) t"
  "kind_step c s (CommandBindingCaptured b) t"
  "kind_step c s (CandidateStateCaptured r) t"
  "kind_step c s (CandidateStateMaterialized rid r p oid) t"
  "kind_step c s RunSealed t"

section \<open>The checks compute the contract\<close>

lemma validate_artifact_iff: "validate_artifact a k sq = Inr u \<longleftrightarrow> artifact_ok a k"
  by (auto simp: validate_artifact_def artifact_ok_def)

lemma gate_obligation_None: "gate_obligation c g = None \<longleftrightarrow> g \<notin> declared_gates c"
  by (auto simp: gate_obligation_def declared_gates_def find_None_iff)

text \<open>A loop that collects what it has seen and refuses a repetition accepts the distinct lists.\<close>

lemma try_fold_seen_set:
  assumes "\<And>seen x. f seen x = (if key x \<in> seen then Inl (dup x)
                               else and_then (g x) (\<lambda>_. Inr (insert (key x) seen)))"
  shows "(\<exists>t. try_fold f seen xs = Inr t) \<longleftrightarrow>
     distinct (map key xs) \<and> set (map key xs) \<inter> seen = {} \<and> (\<forall>x \<in> set xs. g x = Inr ())"
proof (induction xs arbitrary: seen)
  case (Cons x xs)
  then show ?case by (cases "g x") (auto simp: assms)
qed simp

lemma try_fold_seen_list:
  assumes "\<And>seen x. f seen x = (if key x \<in> set seen then Inl (dup x)
                               else and_then (g x) (\<lambda>_. Inr (seen @ [key x])))"
  shows "(\<exists>t. try_fold f seen xs = Inr t) \<longleftrightarrow>
     distinct (map key xs) \<and> set (map key xs) \<inter> set seen = {} \<and> (\<forall>x \<in> set xs. g x = Inr ())"
proof (induction xs arbitrary: seen)
  case (Cons x xs)
  then show ?case by (cases "g x") (auto simp: assms)
qed simp

lemma validate_gates_iff:
  "(\<exists>t. try_fold (validate_gate_obligation c) {} obs = Inr t) \<longleftrightarrow>
     distinct (map gob_gate obs) \<and> (\<forall>ob \<in> set obs. waiver_ok c (gob_applicability ob))"
proof -
  define g where "g ob = (case gob_applicability ob of
       Applicable \<Rightarrow> Inr ()
     | Waived environment reason \<Rightarrow>
         if environment \<noteq> rc_runner_environment c
           then Inl (WaiverEnvironmentMismatch (gob_gate ob) environment (rc_runner_environment c))
         else if trim_is_empty reason then Inl (EmptyWaiverReason (gob_gate ob))
         else Inr ())" for ob :: GateObligation
  have step: "validate_gate_obligation c seen ob =
      (if gob_gate ob \<in> seen then Inl (DuplicateGateInContract (gob_gate ob))
       else and_then (g ob) (\<lambda>_. Inr (insert (gob_gate ob) seen)))" for seen ob
    by (simp add: validate_gate_obligation_def g_def split: GateApplicability.split)
  have "g ob = Inr () \<longleftrightarrow> waiver_ok c (gob_applicability ob)" for ob
    by (cases "gob_applicability ob") (auto simp: g_def)
  then show ?thesis using try_fold_seen_set [where key = gob_gate, OF step, of "{}" obs] by simp
qed

lemma validate_protects_iff:
  "(\<exists>t. try_fold (validate_protected_subject c) [] ps = Inr t) \<longleftrightarrow>
     distinct ps \<and> (\<forall>s \<in> set ps. protected_ok c s)"
proof -
  define g where "g s = (case s of
       PP_Agent \<Rightarrow> if rc_agent c \<noteq> AO_Required then Inl PolicyProtectsAgentWithoutAgent else Inr ()
     | PP_Gate gate \<Rightarrow>
         if gate_obligation c gate = None then Inl (PolicyProtectsUnknownGate gate)
         else Inr ())" for s
  have step: "validate_protected_subject c seen s =
      (if s \<in> set seen then Inl (DuplicateProtectedSubject s)
       else and_then (g s) (\<lambda>_. Inr (seen @ [s])))" for seen s
    by (simp add: validate_protected_subject_def g_def split: PolicyProtectedSubject.split)
  have "g s = Inr () \<longleftrightarrow> protected_ok c s" for s
    by (cases s) (auto simp: g_def gate_obligation_None)
  then show ?thesis using try_fold_seen_list [where key = "\<lambda>x. x", OF step, of "[]" ps] by simp
qed

lemma validate_policies_iff:
  "(\<exists>t. try_fold (validate_policy_obligation c sq) seen ps = Inr t) \<longleftrightarrow>
     distinct (map (\<lambda>p. art_digest (pob_policy p)) ps)
     \<and> set (map (\<lambda>p. art_digest (pob_policy p)) ps) \<inter> seen = {} \<and> (\<forall>p \<in> set ps. policy_ok c p)"
proof (induction ps arbitrary: seen)
  case (Cons p ps)
  have "(\<exists>t. validate_policy_obligation c sq seen p = Inr t) \<longleftrightarrow>
      art_digest (pob_policy p) \<notin> seen \<and> policy_ok c p"
    using validate_protects_iff [of c "pob_protects p"]
    by (auto simp: validate_policy_obligation_def policy_ok_def validate_artifact_iff)
  moreover have "validate_policy_obligation c sq seen p = Inr t \<Longrightarrow>
      t = insert (art_digest (pob_policy p)) seen" for t
    by (auto simp: validate_policy_obligation_def)
  ultimately have "(\<exists>t. try_fold (validate_policy_obligation c sq) seen (p # ps) = Inr t) \<longleftrightarrow>
      art_digest (pob_policy p) \<notin> seen \<and> policy_ok c p
      \<and> (\<exists>t. try_fold (validate_policy_obligation c sq)
                (insert (art_digest (pob_policy p)) seen) ps = Inr t)"
    by auto
  then show ?case unfolding Cons.IH by auto
qed simp

lemma sandbox_subject_gate:
  assumes "distinct (map gob_gate (rc_gate_obligations c))"
  shows "(\<exists>ob. gate_obligation c g = Some ob \<and> is_required_applicable ob) \<longleftrightarrow>
         sandbox_subject_ok c (ES_Gate g)"
proof
  assume "\<exists>ob. gate_obligation c g = Some ob \<and> is_required_applicable ob"
  then show "sandbox_subject_ok c (ES_Gate g)"
    by (auto simp: gate_obligation_def find_Some_iff)
next
  assume "sandbox_subject_ok c (ES_Gate g)"
  then obtain ob where ob: "ob \<in> set (rc_gate_obligations c)" "gob_gate ob = g"
      "is_required_applicable ob" by auto
  then obtain ob' where ob': "gate_obligation c g = Some ob'"
    using gate_obligation_None [of c g] by (cases "gate_obligation c g") (auto simp: declared_gates_def)
  then have "ob' \<in> set (rc_gate_obligations c)" "gob_gate ob' = g"
    by (auto simp: gate_obligation_def find_Some_iff)
  with ob assms have "ob' = ob" by (auto simp: distinct_map dest: inj_onD)
  with ob ob' show "\<exists>ob. gate_obligation c g = Some ob \<and> is_required_applicable ob" by blast
qed

lemma validate_sandbox_iff:
  assumes "distinct (map gob_gate (rc_gate_obligations c))"
  shows "(\<exists>t. try_fold (validate_sandbox_requirement c) [] rs = Inr t) \<longleftrightarrow>
     distinct (map (\<lambda>r. (sreq_subject r, sreq_policy_digest r)) rs)
     \<and> (\<forall>r \<in> set rs. sandbox_subject_ok c (sreq_subject r))"
proof -
  define g where "g r = (case sreq_subject r of
       ES_Agent \<Rightarrow> if rc_agent c \<noteq> AO_Required then Inl SandboxAgentSubjectWithoutAgent else Inr ()
     | ES_Gate gate \<Rightarrow>
         (case gate_obligation c gate of
            None \<Rightarrow> Inl (SandboxSubjectUnknownGate gate)
          | Some ob \<Rightarrow> if \<not> is_required_applicable ob then Inl (SandboxSubjectGateIneligible gate)
                       else Inr ())
     | ES_Verifier \<Rightarrow> Inr ())" for r :: SandboxRequirement
  have step: "validate_sandbox_requirement c seen r =
      (if (sreq_subject r, sreq_policy_digest r) \<in> set seen
         then Inl (DuplicateSandboxRequirement (sreq_subject r) (sreq_policy_digest r))
       else and_then (g r) (\<lambda>_. Inr (seen @ [(sreq_subject r, sreq_policy_digest r)])))" for seen r
    by (simp add: validate_sandbox_requirement_def g_def Let_def
        split: ExecutionSubject.split option.split)
  have "g r = Inr () \<longleftrightarrow> sandbox_subject_ok c (sreq_subject r)" for r
  proof (cases "sreq_subject r")
    case (ES_Gate gate)
    then show ?thesis
      using sandbox_subject_gate [OF assms, of gate]
      by (simp add: g_def split: option.split) auto
  qed (auto simp: g_def)
  then show ?thesis
    using try_fold_seen_list [where key = "\<lambda>r. (sreq_subject r, sreq_policy_digest r)",
        OF step, of "[]" rs]
    by simp
qed

lemma validate_candidate_schema_iff:
  "validate_candidate_schema c = Inr u \<longleftrightarrow> candidate_schema_ok c"
  by (simp add: validate_candidate_schema_def candidate_schema_ok_def split: option.split)

lemma validate_contract_iff: "validate_contract c sq = Inr u \<longleftrightarrow> wf_contract c"
proof -
  have "validate_contract c sq = Inr u \<longleftrightarrow>
      candidate_schema_ok c
      \<and> (\<exists>t. try_fold (validate_gate_obligation c) {} (rc_gate_obligations c) = Inr t)
      \<and> (\<exists>t. try_fold (validate_policy_obligation c sq) {} (rc_policy_obligations c) = Inr t)
      \<and> (\<exists>t. try_fold (validate_sandbox_requirement c) [] (rc_sandbox_requirements c) = Inr t)"
    by (auto simp: validate_contract_def validate_candidate_schema_iff)
  then show ?thesis
    unfolding validate_gates_iff validate_policies_iff wf_contract_def
    using validate_sandbox_iff [of c "rc_sandbox_requirements c"] by auto
qed

section \<open>The reducer computes the relation\<close>

lemma check_protected_start_iff:
  "check_protected_start s c subject sq = Inr u \<longleftrightarrow> start_allowed s c subject"
  by (auto simp: check_protected_start_def start_allowed_def try_for_each_Inr list_ex_iff)

lemmas step_defs = validate_artifact_iff check_protected_start_iff gate_obligation_None list_ex_iff

lemma apply_with_contract_iff: "apply_with_contract s c k sq = Inr t \<longleftrightarrow> kind_step c s k t"
proof (cases k)
  case (AgentExited oc)
  then show ?thesis
    by (auto simp: kind_step_simps split: AgentLifecycle.split AgentOutcome.split)
next
  case (GateFinished g oc log)
  then show ?thesis
    by (auto simp: kind_step_simps step_defs split: option.splits GateProgress.splits)
qed (auto simp: kind_step_simps step_defs Let_def)

declare apply_with_contract.simps [simp del]

text \<open>Moving the contract out of the state and back is invisible: no step reads it there.\<close>

lemma compute_verdict_contract [simp]:
  "compute_verdict (s\<lparr>st_contract := x\<rparr>) c = compute_verdict s c"
proof -
  have "gate_flags (s\<lparr>st_contract := x\<rparr>) = gate_flags s"
    "policy_flags (s\<lparr>st_contract := x\<rparr>) = policy_flags s"
    "sandbox_flags (s\<lparr>st_contract := x\<rparr>) = sandbox_flags s"
    by (simp_all add: fun_eq_iff gate_flags_def policy_flags_def find_policy_result_def
        sandbox_flags_def)
  moreover have "agent_flags (s\<lparr>st_contract := x\<rparr>) c = agent_flags s c"
    by (simp add: fun_eq_iff agent_flags_def agent_nonstart_disposition_def find_policy_result_def
        cong: AgentLifecycle.case_cong)
  ultimately show ?thesis by (simp add: compute_verdict_def candidate_flags_def)
qed

lemma start_allowed_contract [simp]:
  "start_allowed (s\<lparr>st_contract := x\<rparr>) c subj = start_allowed s c subj"
  by (simp add: start_allowed_def policy_allowed_def)

lemma kind_step_contract:
  "kind_step c (s\<lparr>st_contract := x\<rparr>) k t \<Longrightarrow>
   st_contract t = x \<and> kind_step c (s\<lparr>st_contract := y\<rparr>) k (t\<lparr>st_contract := y\<rparr>)"
  by (cases k) (auto simp: kind_step_simps)

lemma st_contract_id: "st_contract s = x \<Longrightarrow> s\<lparr>st_contract := x\<rparr> = s"
  by (cases s) simp

lemma apply_kind_continue:
  assumes "st_contract s = Some c" and "\<not> is_run_started (ev_kind e)"
  shows "apply_kind s e sq = Inr t \<longleftrightarrow> kind_step c s (ev_kind e) t"
proof -
  have "apply_kind s e sq = Inr t \<longleftrightarrow>
      (\<exists>s'. kind_step c (s\<lparr>st_contract := None\<rparr>) (ev_kind e) s' \<and> t = s'\<lparr>st_contract := Some c\<rparr>)"
    using assms by (cases "ev_kind e") (auto simp: apply_kind_def apply_with_contract_iff)
  also have "\<dots> \<longleftrightarrow> kind_step c s (ev_kind e) t"
  proof
    assume "\<exists>s'. kind_step c (s\<lparr>st_contract := None\<rparr>) (ev_kind e) s' \<and> t = s'\<lparr>st_contract := Some c\<rparr>"
    then have "kind_step c (s\<lparr>st_contract := Some c\<rparr>) (ev_kind e) t"
      using kind_step_contract by blast
    then show "kind_step c s (ev_kind e) t" by (simp add: st_contract_id [OF assms(1)])
  next
    assume step: "kind_step c s (ev_kind e) t"
    then have "kind_step c (s\<lparr>st_contract := Some c\<rparr>) (ev_kind e) t"
      by (simp add: st_contract_id [OF assms(1)])
    from kind_step_contract [OF this, of None] st_contract_id [of t]
    have "kind_step c (s\<lparr>st_contract := None\<rparr>) (ev_kind e) (t\<lparr>st_contract := None\<rparr>)"
      and "t = t\<lparr>st_contract := None\<rparr>\<lparr>st_contract := Some c\<rparr>" by simp_all
    then show "\<exists>s'. kind_step c (s\<lparr>st_contract := None\<rparr>) (ev_kind e) s'
        \<and> t = s'\<lparr>st_contract := Some c\<rparr>" by blast
  qed
  finally show ?thesis .
qed

lemma apply_kind_start:
  assumes "ev_kind e = RunStarted c a"
  shows "apply_kind s e sq = Inr t \<longleftrightarrow>
     st_phase s = NotStarted \<and> wf_contract c \<and> artifact_ok a AK_Task
     \<and> t = s\<lparr>st_run_id := Some (ev_run_id e), st_contract := Some c, st_task := Some a,
            st_phase := Running\<rparr>"
  using assms by (auto simp: apply_kind_def validate_contract_iff validate_artifact_iff)

lemma check_sequence_iff: "check_sequence l sq = Inr u \<longleftrightarrow> sq = next_sequence l"
  by (auto simp: check_sequence_def next_sequence_def split: option.split)

lemma check_envelope_iff:
  "check_envelope sha s e = Inr u \<longleftrightarrow>
     st_phase s \<noteq> Sealed \<and> envelope_ok sha s e
     \<and> (st_phase s = NotStarted \<longrightarrow> is_run_started (ev_kind e))"
  by (auto simp: check_envelope_def envelope_ok_def Let_def check_sequence_iff split: option.splits)

lemma is_run_startedE: "is_run_started k \<Longrightarrow> (\<And>c a. k = RunStarted c a \<Longrightarrow> P) \<Longrightarrow> P"
  by (cases k) simp_all

lemma reduce_iff_run_step: "reduce sha s e = Inr t \<longleftrightarrow> run_step sha s e t"
proof -
  have red: "reduce sha s e = Inr t \<longleftrightarrow>
      st_phase s \<noteq> Sealed \<and> envelope_ok sha s e
      \<and> (st_phase s = NotStarted \<longrightarrow> is_run_started (ev_kind e))
      \<and> (\<exists>s'. apply_kind s e (ev_sequence e) = Inr s' \<and> t = advance e s')"
    by (auto simp: reduce_def check_envelope_iff advance_def)
  show ?thesis
  proof (cases "is_run_started (ev_kind e)")
    case True
    then obtain c a where k: "ev_kind e = RunStarted c a" by (rule is_run_startedE)
    show ?thesis
      unfolding red apply_kind_start [OF k] using k
      by (auto simp: run_step.simps kind_step_simps)
  next
    case False
    show ?thesis
    proof (cases "st_contract s")
      case None
      with False have "apply_kind s e (ev_sequence e) \<noteq> Inr s'" for s'
        by (cases "ev_kind e") (auto simp: apply_kind_def)
      with None False show ?thesis unfolding red by (auto elim!: run_stepE)
    next
      case (Some c)
      show ?thesis
        unfolding red apply_kind_continue [OF Some False] using Some False
        by (cases "st_phase s") (auto simp: run_step.simps)
    qed
  qed
qed

end
