(* ===== verification/Run_Invariants.thy ===== *)
theory Run_Invariants
  imports Run_Step
begin

text \<open>
  What holds of every state the reducer reaches. \<open>reachable sha es s\<close> relates an accepted stream to
  the state it folds to; it is exactly \<^const>\<open>reduce_all\<close>. The lemmas read the state off the
  stream: each field of the reduced state is a function of the set (or list) of events folded, so
  a claim about the state is a claim about what the stream recorded.
\<close>

section \<open>Reachable states\<close>

inductive reachable :: "(bytes \<Rightarrow> bytes) \<Rightarrow> RunEvent list \<Rightarrow> RunState \<Rightarrow> bool"
  for sha :: "bytes \<Rightarrow> bytes" where
  init: "reachable sha [] initial_state"
| step: "reachable sha es s \<Longrightarrow> run_step sha s e t \<Longrightarrow> reachable sha (es @ [e]) t"

inductive_cases reachable_nilE: "reachable sha [] s"
inductive_cases reachable_snocE: "reachable sha (es @ [e]) t"

definition start_state :: "RunEvent \<Rightarrow> RunContract \<Rightarrow> ArtifactRef \<Rightarrow> RunState" where
  "start_state e c a =
     advance e (initial_state\<lparr>st_run_id := Some (ev_run_id e), st_contract := Some c,
                              st_task := Some a, st_phase := Running\<rparr>)"

abbreviation kinds :: "RunEvent list \<Rightarrow> RunEventKind set" where
  "kinds es \<equiv> ev_kind ` set es"

lemma reduce_all_snoc:
  "reduce_all sha (es @ [e]) = Inr t \<longleftrightarrow>
     (\<exists>s. reduce_all sha es = Inr s \<and> run_step sha s e t)"
  by (simp add: reduce_all_def try_fold_snoc_Inr reduce_iff_run_step)

lemma reduce_all_iff_reachable: "reduce_all sha es = Inr s \<longleftrightarrow> reachable sha es s"
proof (induction es arbitrary: s rule: rev_induct)
  case Nil
  then show ?case
    by (auto simp: reduce_all_def intro: reachable.init elim: reachable_nilE)
next
  case (snoc e es)
  then show ?case
    by (auto simp: reduce_all_snoc intro: reachable.step elim: reachable_snocE)
qed

text \<open>Accepted streams are prefix closed.\<close>

lemma reachable_take:
  assumes "reachable sha es s"
  shows "\<exists>u. reachable sha (take n es) u"
  using try_fold_take [of "reduce sha" initial_state es s n] assms
  by (simp add: reduce_all_def flip: reduce_all_iff_reachable)

text \<open>The state just before an event of an accepted stream, and the step it takes.\<close>

lemma reachable_nth:
  assumes "reachable sha es s" and "i < length es"
  shows "\<exists>u v. reachable sha (take i es) u \<and> run_step sha u (es ! i) v
               \<and> reachable sha (take (Suc i) es) v"
  using try_fold_nth [of "reduce sha" initial_state es s i] assms
  by (simp add: reduce_all_def reduce_iff_run_step flip: reduce_all_iff_reachable)

lemma reachable_phase: "reachable sha es s \<Longrightarrow> st_phase s = NotStarted \<longleftrightarrow> es = []"
  by (induction rule: reachable.induct)
    (auto simp: initial_state_def advance_def elim!: run_stepE kind_step.cases)

lemma reachable_not_started: "reachable sha es s \<Longrightarrow> st_phase s = NotStarted \<Longrightarrow> s = initial_state"
  using reachable_phase [of sha es s] by (auto elim: reachable_nilE)

text \<open>Rule induction with the first event separated from the others.\<close>

lemma reachable_induct [consumes 1, case_names init start continue]:
  assumes "reachable sha es s"
    and "P [] initial_state"
    and "\<And>e c a. ev_kind e = RunStarted c a \<Longrightarrow> envelope_ok sha initial_state e \<Longrightarrow>
           wf_contract c \<Longrightarrow> artifact_ok a AK_Task \<Longrightarrow> P [e] (start_state e c a)"
    and "\<And>es s e c s'. reachable sha es s \<Longrightarrow> P es s \<Longrightarrow> st_phase s = Running \<Longrightarrow>
           envelope_ok sha s e \<Longrightarrow> st_contract s = Some c \<Longrightarrow> kind_step c s (ev_kind e) s' \<Longrightarrow>
           P (es @ [e]) (advance e s')"
  shows "P es s"
  using assms(1)
proof (induction rule: reachable.induct)
  case init
  show ?case by (rule assms(2))
next
  case (step es s e t)
  from step(2) show ?case
  proof (cases rule: run_step.cases)
    case (start c a)
    with step(1) have "es = []" "s = initial_state"
      using reachable_phase reachable_not_started by blast+
    with start assms(3) show ?thesis by (simp add: start_state_def)
  next
    case (continue c s')
    with step(1,3) assms(4) show ?thesis by blast
  qed
qed

section \<open>The envelope\<close>

lemma reachable_envelope:
  assumes "reachable sha es s"
  shows "st_last_sequence s = (if es = [] then None else Some (of_nat (length es - 1)))
       \<and> st_last_event_digest s = (if es = [] then genesis else ev_event_digest (last es))
       \<and> st_seen_event_ids s = ev_event_id ` set es
       \<and> distinct (map ev_event_id es)
       \<and> (\<forall>e \<in> set es. st_run_id s = Some (ev_run_id e)
            \<and> ev_schema_version e = RUN_EVENT_SCHEMA_VERSION \<and> digest_is_consistent sha e)"
  using assms
proof (induction rule: reachable_induct)
  case init
  show ?case by (simp add: initial_state_def)
next
  case (start e c a)
  then show ?case
    by (simp add: start_state_def advance_def initial_state_def envelope_ok_def next_sequence_def)
next
  case (continue es s e c s')
  have keep: "st_run_id s' = st_run_id s" "st_seen_event_ids s' = st_seen_event_ids s"
    using continue.hyps(5) by (cases; simp)+
  have ne: "es \<noteq> []"
    using reachable_phase [OF continue.hyps(1)] continue.hyps(2) by auto
  with continue.IH keep have "ev_sequence e = of_nat (length es)"
    using continue.hyps(3)
    by (simp add: envelope_ok_def next_sequence_def)
       (metis Suc_pred length_greater_0_conv of_nat_Suc add.commute)
  with continue.IH continue.hyps(3) keep ne show ?case
    by (auto simp: envelope_ok_def advance_def)
qed

lemma reachable_sequence:
  assumes "reachable sha es s" and "i < length es"
  shows "ev_sequence (es ! i) = of_nat i"
proof -
  obtain v where v: "reachable sha (take (Suc i) es) v" using reachable_take [OF assms(1)] by blast
  obtain u w where "reachable sha (take i es) u" "run_step sha u (es ! i) w"
    using reachable_nth [OF assms] by blast
  moreover from this(1) have "st_last_sequence u = (if i = 0 then None else Some (of_nat (i - 1)))"
    using reachable_envelope assms(2) by (auto simp: min_def)
  ultimately show ?thesis
    by (cases i) (auto elim!: run_stepE simp: envelope_ok_def next_sequence_def)
qed

lemma reachable_link:
  assumes "reachable sha es s" and "i < length es"
  shows "ev_previous_event_digest (es ! i) = (if i = 0 then genesis else ev_event_digest (es ! (i - 1)))"
proof -
  obtain u w where u: "reachable sha (take i es) u" and step: "run_step sha u (es ! i) w"
    using reachable_nth [OF assms] by blast
  have "ev_previous_event_digest (es ! i) = st_last_event_digest u"
    using step by (auto elim!: run_stepE simp: envelope_ok_def)
  also have "\<dots> = (if i = 0 then genesis else ev_event_digest (last (take i es)))"
    using reachable_envelope [OF u] assms(2) by auto
  also have "i \<noteq> 0 \<Longrightarrow> last (take i es) = es ! (i - 1)"
    using assms(2) by (cases i) (simp_all add: take_Suc_conv_app_nth)
  ultimately show ?thesis by simp
qed

section \<open>The state is what the stream recorded\<close>

lemma reachable_contract:
  assumes "reachable sha es s"
  shows "st_contract s = Some c \<longleftrightarrow> (\<exists>a. RunStarted c a \<in> kinds es)"
    and "st_contract s = Some c \<Longrightarrow> wf_contract c"
    and "es \<noteq> [] \<Longrightarrow> \<exists>c a. ev_kind (hd es) = RunStarted c a \<and> st_contract s = Some c \<and> st_task s = Some a"
    and "st_phase s = Sealed \<longleftrightarrow> RunSealed \<in> kinds es"
proof -
  have "((\<exists>a. RunStarted c a \<in> kinds es) \<longleftrightarrow> st_contract s = Some c)
      \<and> (st_contract s = Some c \<longrightarrow> wf_contract c)
      \<and> (es \<noteq> [] \<longrightarrow> (\<exists>c a. ev_kind (hd es) = RunStarted c a \<and> st_contract s = Some c
                        \<and> st_task s = Some a))
      \<and> (st_phase s = Sealed \<longleftrightarrow> RunSealed \<in> kinds es)"
    using assms
  proof (induction arbitrary: c rule: reachable_induct)
    case init
    show ?case by (simp add: initial_state_def)
  next
    case (start e c a)
    then show ?case by (auto simp: start_state_def advance_def initial_state_def)
  next
    case (continue es s e c' s')
    have "es \<noteq> []" using reachable_phase [OF continue.hyps(1)] continue.hyps(2) by auto
    with continue.hyps(5) continue.IH [of c] continue.hyps(2) show ?case
      by cases (auto simp: advance_def)
  qed
  then show "st_contract s = Some c \<longleftrightarrow> (\<exists>a. RunStarted c a \<in> kinds es)"
    and "st_contract s = Some c \<Longrightarrow> wf_contract c"
    and "es \<noteq> [] \<Longrightarrow> \<exists>c a. ev_kind (hd es) = RunStarted c a \<and> st_contract s = Some c \<and> st_task s = Some a"
    and "st_phase s = Sealed \<longleftrightarrow> RunSealed \<in> kinds es" by blast+
qed

end
