(* ===== verification/Run_Slots.thy ===== *)
theory Run_Slots
  imports Run_Invariants
begin

text \<open>
  The fields of the reduced state read off the stream. The locale \<open>slot\<close> states what the reducer's
  handlers share: one kind of event fills a field, and only once. It is interpreted on every field
  of \<open>RunState\<close> that events fill, on each gate, each policy and each sandbox requirement.
\<close>

section \<open>Write-once slots\<close>

text \<open>
  Most of the state is made of slots that one kind of event fills, at most once. \<open>fld\<close> reads a
  slot, \<open>wr k\<close> is what the event \<open>k\<close> writes to it. The laws are those of the reducer's handlers;
  the conclusion is that a slot holds exactly what the stream recorded for it and that the stream
  records it once.
\<close>

locale slot =
  fixes fld :: "RunState \<Rightarrow> 'a option"
    and wr :: "RunEventKind \<Rightarrow> 'a option"
  assumes fld_initial: "fld initial_state = None"
    and fld_start: "fld (start_state e c a) = None"
    and fld_advance: "fld (advance e s) = fld s"
    and wr_start: "wr (RunStarted c a) = None"
    and fld_keep: "st_phase s = Running \<Longrightarrow> kind_step c s k t \<Longrightarrow> wr k = None \<Longrightarrow> fld t = fld s"
    and fld_write: "st_phase s = Running \<Longrightarrow> kind_step c s k t \<Longrightarrow> wr k = Some x \<Longrightarrow>
                      fld s = None \<and> fld t = Some x"
begin

lemma recorded: "reachable sha es s \<Longrightarrow> fld s = Some x \<longleftrightarrow> (\<exists>k \<in> kinds es. wr k = Some x)"
proof (induction arbitrary: x rule: reachable_induct)
  case init
  show ?case by (simp add: fld_initial)
next
  case (start e c a)
  then show ?case by (simp add: fld_start wr_start)
next
  case (continue es s e c s')
  show ?case
  proof (cases "wr (ev_kind e)")
    case None
    then show ?thesis
      using fld_keep [OF continue.hyps(2,5) None] continue.IH [of x] by (auto simp: fld_advance)
  next
    case (Some y)
    have "fld s = None" "fld s' = Some y" using fld_write [OF continue.hyps(2,5) Some] by auto
    then show ?thesis using continue.IH Some by (auto simp: fld_advance)
  qed
qed

lemma unrecorded: "reachable sha es s \<Longrightarrow> fld s = None \<longleftrightarrow> (\<forall>k \<in> kinds es. wr k = None)"
  using recorded [of sha es s] by (metis not_None_eq)

lemma unwritten_before:
  assumes "reachable sha es s" "i < j" "j < length es"
    and "wr (ev_kind (es ! j)) = Some x"
  shows "wr (ev_kind (es ! i)) = None"
proof -
  obtain u v where u: "reachable sha (take j es) u" "run_step sha u (es ! j) v"
    using reachable_nth [OF assms(1,3)] by blast
  have "fld u = None"
    using u(2) assms(4) fld_write wr_start by (auto elim!: run_stepE)
  moreover have "ev_kind (es ! i) \<in> kinds (take j es)"
    using assms(2,3) nth_mem [of i "take j es"] by simp
  ultimately show ?thesis using unrecorded [OF u(1)] by blast
qed

lemma written_once:
  assumes "reachable sha es s" "i < length es" "j < length es"
    and "wr (ev_kind (es ! i)) = Some x" "wr (ev_kind (es ! j)) = Some y"
  shows "i = j"
  using unwritten_before [OF assms(1), of i j] unwritten_before [OF assms(1), of j i] assms(2-)
  by (metis linorder_neqE_nat option.distinct(1))

lemma recorded_unique:
  assumes "reachable sha es s" "k \<in> kinds es" "l \<in> kinds es" "wr k = Some x" "wr l = Some y"
  shows "x = y"
  using recorded [OF assms(1)] assms(2-) by (metis option.inject)

end

section \<open>The slots of the state\<close>

fun wr_worktree :: "RunEventKind \<Rightarrow> ArtifactRef option" where
  "wr_worktree (WorktreeCreated w) = Some w"
| "wr_worktree _ = None"

fun wr_patch :: "RunEventKind \<Rightarrow> ArtifactRef option" where
  "wr_patch (PatchCaptured p) = Some p"
| "wr_patch _ = None"

fun wr_session :: "RunEventKind \<Rightarrow> ArtifactRef option" where
  "wr_session (ProviderSessionCaptured r) = Some r"
| "wr_session _ = None"

fun wr_binding :: "RunEventKind \<Rightarrow> ArtifactRef option" where
  "wr_binding (CommandBindingCaptured b) = Some b"
| "wr_binding _ = None"

fun wr_captured :: "RunEventKind \<Rightarrow> ArtifactRef option" where
  "wr_captured (CandidateStateCaptured r) = Some r"
| "wr_captured _ = None"

fun wr_materialized :: "RunEventKind \<Rightarrow> CandidateMaterialization option" where
  "wr_materialized (CandidateStateMaterialized rid r p oid) =
     Some \<lparr>cm_source_run_id = rid, cm_source_receipt = r, cm_source_patch = p,
           cm_materialized_tree_oid = oid\<rparr>"
| "wr_materialized _ = None"

fun agent_exit_of :: "AgentLifecycle \<Rightarrow> AgentOutcome option" where
  "agent_exit_of (AL_Exited oc) = Some oc"
| "agent_exit_of _ = None"

fun wr_exit :: "RunEventKind \<Rightarrow> AgentOutcome option" where
  "wr_exit (AgentExited oc) = Some oc"
| "wr_exit _ = None"

fun gate_started_of :: "GateProgress option \<Rightarrow> unit option" where
  "gate_started_of None = None"
| "gate_started_of (Some _) = Some ()"

fun wr_gate_start :: "GateId \<Rightarrow> RunEventKind \<Rightarrow> unit option" where
  "wr_gate_start g (GateStarted h) = (if h = g then Some () else None)"
| "wr_gate_start _ _ = None"

fun gate_outcome_of :: "GateProgress option \<Rightarrow> GateOutcome option" where
  "gate_outcome_of (Some (GP_Finished oc)) = Some oc"
| "gate_outcome_of _ = None"

fun wr_gate :: "GateId \<Rightarrow> RunEventKind \<Rightarrow> GateOutcome option" where
  "wr_gate g (GateFinished h oc log) = (if h = g then Some oc else None)"
| "wr_gate _ _ = None"

definition policy_result_of :: "Digest256 \<Rightarrow> RunState \<Rightarrow> PolicyOutcome option" where
  "policy_result_of d s =
     map_option pres_outcome (find (\<lambda>r. art_digest (pres_policy r) = d) (st_policy_results s))"

fun wr_policy :: "Digest256 \<Rightarrow> RunEventKind \<Rightarrow> PolicyOutcome option" where
  "wr_policy d (PolicyChecked p oc) = (if art_digest p = d then Some oc else None)"
| "wr_policy _ _ = None"

definition evidence_of :: "ExecutionSubject \<Rightarrow> Digest256 \<Rightarrow> RunState \<Rightarrow> SandboxEvidenceOutcome option" where
  "evidence_of subj d s =
     map_option see_outcome
       (find (\<lambda>e. key_subject (see_key e) = subj \<and> key_policy_digest (see_key e) = d)
          (st_sandbox_evidence s))"

fun wr_evidence ::
  "ExecutionSubject \<Rightarrow> Digest256 \<Rightarrow> RunEventKind \<Rightarrow> SandboxEvidenceOutcome option" where
  "wr_evidence subj d (SandboxEvidenceCaptured subj' d' rep oc) =
     (if subj' = subj \<and> d' = d then Some oc else None)"
| "wr_evidence _ _ _ = None"

definition sealed_of :: "RunState \<Rightarrow> unit option" where
  "sealed_of s = (if st_phase s = Sealed then Some () else None)"

fun wr_seal :: "RunEventKind \<Rightarrow> unit option" where
  "wr_seal RunSealed = Some ()"
| "wr_seal _ = None"

lemmas slot_defs = initial_state_def start_state_def advance_def

lemma find_append: "find P (xs @ ys) = (case find P xs of None \<Rightarrow> find P ys | Some x \<Rightarrow> Some x)"
  by (induction xs) auto

lemma find_snoc:
  "\<forall>x \<in> set xs. P x \<longrightarrow> \<not> P y \<Longrightarrow> find P (xs @ [y]) = (if P y then Some y else find P xs)"
  by (induction xs) auto

lemma find_vec_insert:
  "\<forall>x \<in> set xs. P x \<longrightarrow> \<not> P y \<Longrightarrow>
   find P (vec_insert i y xs) = (if P y then Some y else find P xs)"
proof -
  assume *: "\<forall>x \<in> set xs. P x \<longrightarrow> \<not> P y"
  have "find P xs = find P (take i xs @ drop i xs)" by simp
  also have "\<dots> = (case find P (take i xs) of None \<Rightarrow> find P (drop i xs) | Some x \<Rightarrow> Some x)"
    by (rule find_append)
  finally have split: "find P xs = \<dots>" .
  have "P y \<Longrightarrow> find P (take i xs) = None"
    using * by (auto simp: find_None_iff dest: in_set_takeD)
  with split show ?thesis
    by (simp add: vec_insert_def find_append split: option.split)
qed

lemma find_insert_evidence:
  "\<forall>x \<in> set es. P x \<longrightarrow> \<not> P y \<Longrightarrow>
   find P (insert_evidence y es) = (if P y then Some y else find P es)"
  by (simp add: insert_evidence_def find_vec_insert Let_def)

interpretation worktree_slot: slot st_worktree wr_worktree
  by unfold_locales (auto simp: slot_defs elim!: kind_step.cases)

interpretation patch_slot: slot st_patch wr_patch
  by unfold_locales (auto simp: slot_defs elim!: kind_step.cases)

interpretation session_slot: slot st_provider_session_receipt wr_session
  by unfold_locales (auto simp: slot_defs elim!: kind_step.cases)

interpretation binding_slot: slot st_command_binding wr_binding
  by unfold_locales (auto simp: slot_defs elim!: kind_step.cases)

interpretation captured_slot: slot st_candidate_state wr_captured
  by unfold_locales (auto simp: slot_defs elim!: kind_step.cases)

interpretation materialized_slot: slot st_candidate_materialized wr_materialized
  by unfold_locales (auto simp: slot_defs elim!: kind_step.cases)

interpretation exit_slot: slot "\<lambda>s. agent_exit_of (st_agent s)" wr_exit
  by unfold_locales (auto simp: slot_defs elim!: kind_step.cases)

interpretation gate_start_slot: slot "\<lambda>s. gate_started_of (st_gates s g)" "wr_gate_start g" for g
  by unfold_locales (auto simp: slot_defs elim!: kind_step.cases split: if_splits)

interpretation gate_slot: slot "\<lambda>s. gate_outcome_of (st_gates s g)" "wr_gate g" for g
  by unfold_locales (auto simp: slot_defs elim!: kind_step.cases split: if_splits)

interpretation policy_slot: slot "policy_result_of d" "wr_policy d" for d
  by unfold_locales
    (auto simp: slot_defs policy_result_of_def find_snoc find_None_iff
       elim!: kind_step.cases split: if_splits)

lemma evidence_of_key:
  "evidence_of subj d s =
     map_option see_outcome (find (\<lambda>e. see_key e = SandboxEvidenceKey subj d) (st_sandbox_evidence s))"
proof -
  have "(key_subject k = subj \<and> key_policy_digest k = d) \<longleftrightarrow> k = SandboxEvidenceKey subj d" for k
    by (cases k) auto
  then show ?thesis by (simp add: evidence_of_def)
qed

interpretation evidence_slot: slot "evidence_of subj d" "wr_evidence subj d" for subj d
  by unfold_locales
    (auto simp: slot_defs evidence_of_key find_insert_evidence find_None_iff
       elim!: kind_step.cases split: if_splits)

interpretation seal_slot: slot sealed_of wr_seal
  by unfold_locales (auto simp: slot_defs sealed_of_def elim!: kind_step.cases)

end
