(* ===== verification/Run_Verdict.thy ===== *)
theory Run_Verdict
  imports Run_Slots
begin

text \<open>
  The verdict as a function of the contract and of the set of events the stream recorded. The
  specification (\<open>spec_verdict\<close>) has no state, no order and no loop; \<open>sealed_verdict_spec\<close> shows
  that the verdict \<open>compute_verdict\<close> freezes at the seal is exactly it.
\<close>

section \<open>What a stream recorded\<close>

definition gate_recorded :: "RunEventKind set \<Rightarrow> GateId \<Rightarrow> GateOutcome \<Rightarrow> bool" where
  "gate_recorded K g oc \<longleftrightarrow> (\<exists>log. GateFinished g oc log \<in> K)"

definition policy_recorded :: "RunEventKind set \<Rightarrow> PolicyObligation \<Rightarrow> PolicyOutcome \<Rightarrow> bool" where
  "policy_recorded K p oc \<longleftrightarrow> (\<exists>a. art_digest a = art_digest (pob_policy p) \<and> PolicyChecked a oc \<in> K)"

definition evidence_recorded ::
  "RunEventKind set \<Rightarrow> SandboxRequirement \<Rightarrow> SandboxEvidenceOutcome \<Rightarrow> bool" where
  "evidence_recorded K r oc \<longleftrightarrow>
     (\<exists>rep. SandboxEvidenceCaptured (sreq_subject r) (sreq_policy_digest r) rep oc \<in> K)"

definition required_gates :: "RunContract \<Rightarrow> GateId set" where
  "required_gates c =
     gob_gate ` {ob \<in> set (rc_gate_obligations c). is_required_applicable ob}"

definition required_policies :: "RunContract \<Rightarrow> PolicyObligation set" where
  "required_policies c = {p \<in> set (rc_policy_obligations c). pob_requirement p = PR_Required}"

definition agent_protectors :: "RunContract \<Rightarrow> PolicyObligation set" where
  "agent_protectors c = {p \<in> required_policies c. PP_Agent \<in> set (pob_protects p)}"

section \<open>The specification of the verdict\<close>

text \<open>
  A required agent that never started was withheld when a policy protecting it was denied or never
  decided, and no such policy errored.
\<close>

definition agent_withheld :: "RunContract \<Rightarrow> RunEventKind set \<Rightarrow> bool" where
  "agent_withheld c K \<longleftrightarrow>
     (\<exists>p \<in> agent_protectors c. policy_recorded K p PO_Denied \<or> (\<forall>oc. \<not> policy_recorded K p oc))
     \<and> (\<forall>p \<in> agent_protectors c. \<not> policy_recorded K p PO_Error)"

definition agent_exit_recorded :: "RunEventKind set \<Rightarrow> bool" where
  "agent_exit_recorded K \<longleftrightarrow> (\<exists>oc. AgentExited oc \<in> K)"

definition spec_error :: "RunContract \<Rightarrow> RunEventKind set \<Rightarrow> bool" where
  "spec_error c K \<longleftrightarrow>
     (rc_agent c = AO_Required
      \<and> ((\<exists>oc. AgentExited oc \<in> K \<and> oc \<noteq> ExitedNormally 0)
         \<or> \<not> agent_exit_recorded K \<and> (AgentStarted \<in> K \<or> \<not> agent_withheld c K)))
     \<or> (\<exists>g \<in> required_gates c. gate_recorded K g GO_Error
          \<or> GateStarted g \<in> K \<and> (\<forall>oc. \<not> gate_recorded K g oc))
     \<or> (\<exists>p \<in> required_policies c. policy_recorded K p PO_Error)
     \<or> (\<exists>r \<in> set (rc_sandbox_requirements c). evidence_recorded K r SE_Error)"

definition spec_fail :: "RunContract \<Rightarrow> RunEventKind set \<Rightarrow> bool" where
  "spec_fail c K \<longleftrightarrow> (\<exists>g \<in> required_gates c. gate_recorded K g GO_Fail)"

definition spec_blocked :: "RunContract \<Rightarrow> RunEventKind set \<Rightarrow> bool" where
  "spec_blocked c K \<longleftrightarrow>
     (rc_agent c = AO_Required \<and> \<not> agent_exit_recorded K \<and> AgentStarted \<notin> K \<and> agent_withheld c K)
     \<or> (\<exists>g \<in> required_gates c. gate_recorded K g GO_Blocked \<or> gate_recorded K g GO_NotApplicable
          \<or> GateStarted g \<notin> K)
     \<or> (\<exists>p \<in> required_policies c. policy_recorded K p PO_Denied \<or> (\<forall>oc. \<not> policy_recorded K p oc))
     \<or> (\<exists>r \<in> set (rc_sandbox_requirements c).
          evidence_recorded K r SE_Violated \<or> (\<forall>oc. \<not> evidence_recorded K r oc))
     \<or> (rc_candidate_state c \<noteq> None \<and> (\<forall>a. CandidateStateCaptured a \<notin> K))"

definition spec_verdict :: "RunContract \<Rightarrow> RunEventKind set \<Rightarrow> Verdict" where
  "spec_verdict c K =
     (if spec_error c K then V_Error
      else if spec_fail c K then V_Fail
      else if spec_blocked c K then V_Blocked
      else V_Pass)"

text \<open>Every obligation of the contract met by an event of the stream.\<close>

definition discharged :: "RunContract \<Rightarrow> RunEventKind set \<Rightarrow> bool" where
  "discharged c K \<longleftrightarrow>
     (rc_agent c = AO_Required \<longrightarrow> AgentExited (ExitedNormally 0) \<in> K)
     \<and> (\<forall>g \<in> required_gates c. gate_recorded K g GO_Pass \<or> gate_recorded K g GO_Warn)
     \<and> (\<forall>p \<in> required_policies c. policy_recorded K p PO_Allowed)
     \<and> (\<forall>r \<in> set (rc_sandbox_requirements c). evidence_recorded K r SE_Satisfied)
     \<and> (rc_candidate_state c \<noteq> None \<longrightarrow> (\<exists>a. CandidateStateCaptured a \<in> K))"

section \<open>The state reads as the stream\<close>

lemma ex_wr_gate: "(\<exists>k \<in> K. wr_gate g k = Some oc) \<longleftrightarrow> gate_recorded K g oc"
proof
  show "\<exists>k \<in> K. wr_gate g k = Some oc \<Longrightarrow> gate_recorded K g oc"
    by (auto simp: gate_recorded_def elim!: wr_gate.elims split: if_splits)
  show "gate_recorded K g oc \<Longrightarrow> \<exists>k \<in> K. wr_gate g k = Some oc"
    by (auto simp: gate_recorded_def intro!: bexI)
qed

lemma ex_wr_gate_start: "(\<exists>k \<in> K. wr_gate_start g k = Some u) \<longleftrightarrow> GateStarted g \<in> K"
proof
  show "\<exists>k \<in> K. wr_gate_start g k = Some u \<Longrightarrow> GateStarted g \<in> K"
    by (auto elim!: wr_gate_start.elims split: if_splits)
qed (auto intro!: bexI)

lemma ex_wr_policy:
  "(\<exists>k \<in> K. wr_policy (art_digest (pob_policy p)) k = Some oc) \<longleftrightarrow> policy_recorded K p oc"
proof
  show "\<exists>k \<in> K. wr_policy (art_digest (pob_policy p)) k = Some oc \<Longrightarrow> policy_recorded K p oc"
    by (auto simp: policy_recorded_def elim!: wr_policy.elims split: if_splits)
qed (auto simp: policy_recorded_def intro!: bexI)

lemma ex_wr_evidence:
  "(\<exists>k \<in> K. wr_evidence (sreq_subject r) (sreq_policy_digest r) k = Some oc)
     \<longleftrightarrow> evidence_recorded K r oc"
proof
  show "\<exists>k \<in> K. wr_evidence (sreq_subject r) (sreq_policy_digest r) k = Some oc \<Longrightarrow>
      evidence_recorded K r oc"
    by (auto simp: evidence_recorded_def elim!: wr_evidence.elims split: if_splits)
qed (auto simp: evidence_recorded_def intro!: bexI)

lemma ex_wr_exit: "(\<exists>k \<in> K. wr_exit k = Some oc) \<longleftrightarrow> AgentExited oc \<in> K"
proof
  show "\<exists>k \<in> K. wr_exit k = Some oc \<Longrightarrow> AgentExited oc \<in> K" by (auto elim!: wr_exit.elims)
qed (auto intro!: bexI)

lemma ex_wr_captured: "(\<exists>k \<in> K. wr_captured k = Some a) \<longleftrightarrow> CandidateStateCaptured a \<in> K"
proof
  show "\<exists>k \<in> K. wr_captured k = Some a \<Longrightarrow> CandidateStateCaptured a \<in> K"
    by (auto elim!: wr_captured.elims)
qed (auto intro!: bexI)

lemma read_gate:
  "reachable sha es s \<Longrightarrow> gate_outcome_of (st_gates s g) = Some oc \<longleftrightarrow> gate_recorded (kinds es) g oc"
  unfolding ex_wr_gate [symmetric] by (rule gate_slot.recorded)

lemma read_gate_start:
  "reachable sha es s \<Longrightarrow> gate_started_of (st_gates s g) = Some u \<longleftrightarrow> GateStarted g \<in> kinds es"
  unfolding ex_wr_gate_start [of _ g u, symmetric] by (rule gate_start_slot.recorded)

lemma read_policy:
  "reachable sha es s \<Longrightarrow>
   policy_result_of (art_digest (pob_policy p)) s = Some oc \<longleftrightarrow> policy_recorded (kinds es) p oc"
  unfolding ex_wr_policy [symmetric] by (rule policy_slot.recorded)

lemma read_evidence:
  "reachable sha es s \<Longrightarrow>
   evidence_of (sreq_subject r) (sreq_policy_digest r) s = Some oc
     \<longleftrightarrow> evidence_recorded (kinds es) r oc"
  unfolding ex_wr_evidence [symmetric] by (rule evidence_slot.recorded)

lemma read_exit:
  "reachable sha es s \<Longrightarrow> agent_exit_of (st_agent s) = Some oc \<longleftrightarrow> AgentExited oc \<in> kinds es"
  unfolding ex_wr_exit [symmetric] by (rule exit_slot.recorded)

lemma read_captured:
  "reachable sha es s \<Longrightarrow> st_candidate_state s = Some a \<longleftrightarrow> CandidateStateCaptured a \<in> kinds es"
  unfolding ex_wr_captured [symmetric] by (rule captured_slot.recorded)

lemma read_agent_idle:
  "reachable sha es s \<Longrightarrow>
   st_agent s = AL_NotObserved \<longleftrightarrow> AgentStarted \<notin> kinds es \<and> \<not> agent_exit_recorded (kinds es)"
proof (induction rule: reachable_induct)
  case (continue es s e c s')
  from continue.hyps(5) continue.IH show ?case
    by cases (auto simp: advance_def agent_exit_recorded_def)
qed (auto simp: slot_defs agent_exit_recorded_def)

lemma read_agent_running:
  assumes "reachable sha es s"
  shows "st_agent s = AL_Started \<longleftrightarrow> AgentStarted \<in> kinds es \<and> \<not> agent_exit_recorded (kinds es)"
proof -
  have "agent_exit_recorded (kinds es) \<longleftrightarrow> (\<exists>oc. agent_exit_of (st_agent s) = Some oc)"
    using read_exit [OF assms] unfolding agent_exit_recorded_def by blast
  then show ?thesis using read_agent_idle [OF assms] by (cases "st_agent s") simp_all
qed

lemma read_agent_exited:
  assumes "reachable sha es s"
  shows "st_agent s = AL_Exited oc \<longleftrightarrow> AgentExited oc \<in> kinds es"
  using read_exit [OF assms] by (cases "st_agent s") auto

section \<open>The flags\<close>

text \<open>Each loop of \<open>compute_verdict\<close> only ever raises a flag.\<close>

lemma fold_flag:
  assumes "\<And>x fl. flag (f x fl) \<longleftrightarrow> flag fl \<or> P x"
  shows "flag (fold f xs fl) \<longleftrightarrow> flag fl \<or> (\<exists>x \<in> set xs. P x)"
  by (induction xs arbitrary: fl) (auto simp: assms)

definition gate_errs :: "RunState \<Rightarrow> GateObligation \<Rightarrow> bool" where
  "gate_errs s ob \<longleftrightarrow> is_required_applicable ob
     \<and> (st_gates s (gob_gate ob) = Some GP_Started
        \<or> gate_outcome_of (st_gates s (gob_gate ob)) = Some GO_Error)"

definition gate_blocks :: "RunState \<Rightarrow> GateObligation \<Rightarrow> bool" where
  "gate_blocks s ob \<longleftrightarrow> is_required_applicable ob
     \<and> (st_gates s (gob_gate ob) = None
        \<or> gate_outcome_of (st_gates s (gob_gate ob)) \<in> {Some GO_Blocked, Some GO_NotApplicable})"

lemma gate_flags_raise:
  "fl_error (gate_flags s ob fl) \<longleftrightarrow> fl_error fl \<or> gate_errs s ob"
  "fl_fail (gate_flags s ob fl) \<longleftrightarrow>
     fl_fail fl \<or> is_required_applicable ob \<and> gate_outcome_of (st_gates s (gob_gate ob)) = Some GO_Fail"
  "fl_blocked (gate_flags s ob fl) \<longleftrightarrow> fl_blocked fl \<or> gate_blocks s ob"
  by (auto simp: gate_flags_def gate_errs_def gate_blocks_def
      split: option.split GateProgress.split GateOutcome.split)

lemma policy_outcome_of:
  "map_option pres_outcome (find_policy_result s p) = policy_result_of (art_digest (pob_policy p)) s"
  by (simp add: find_policy_result_def policy_result_of_def)

lemma policy_flags_raise:
  "fl_error (policy_flags s p fl) \<longleftrightarrow> fl_error fl
     \<or> pob_requirement p = PR_Required \<and> policy_result_of (art_digest (pob_policy p)) s = Some PO_Error"
  "fl_fail (policy_flags s p fl) \<longleftrightarrow> fl_fail fl"
  "fl_blocked (policy_flags s p fl) \<longleftrightarrow> fl_blocked fl
     \<or> pob_requirement p = PR_Required
       \<and> policy_result_of (art_digest (pob_policy p)) s \<in> {None, Some PO_Denied}"
  by (auto simp: policy_flags_def simp flip: policy_outcome_of
      split: option.splits PolicyOutcome.splits)

lemma sandbox_flags_raise:
  "fl_error (sandbox_flags s r fl) \<longleftrightarrow> fl_error fl
     \<or> evidence_of (sreq_subject r) (sreq_policy_digest r) s = Some SE_Error"
  "fl_fail (sandbox_flags s r fl) \<longleftrightarrow> fl_fail fl"
  "fl_blocked (sandbox_flags s r fl) \<longleftrightarrow> fl_blocked fl
     \<or> evidence_of (sreq_subject r) (sreq_policy_digest r) s \<in> {None, Some SE_Violated}"
  by (auto simp: sandbox_flags_def evidence_of_def
      split: option.splits SandboxEvidenceOutcome.splits)

lemmas fold_error = fold_flag [where flag = fl_error]
lemmas fold_fail = fold_flag [where flag = fl_fail]
lemmas fold_blocked = fold_flag [where flag = fl_blocked]

lemmas folded_flags =
  fold_error [OF gate_flags_raise(1)] fold_error [OF policy_flags_raise(1)]
  fold_error [OF sandbox_flags_raise(1)]
  fold_fail [OF gate_flags_raise(2)]
  fold_blocked [OF gate_flags_raise(3)] fold_blocked [OF policy_flags_raise(3)]
  fold_blocked [OF sandbox_flags_raise(3)]

lemma fail_kept:
  "fl_fail (fold (policy_flags s) ps fl) \<longleftrightarrow> fl_fail fl"
  "fl_fail (fold (sandbox_flags s) rs fl) \<longleftrightarrow> fl_fail fl"
  using fold_fail [of "policy_flags s" "\<lambda>_. False" ps fl]
    fold_fail [of "sandbox_flags s" "\<lambda>_. False" rs fl]
  by (simp_all add: policy_flags_raise sandbox_flags_raise)

section \<open>The flags of a reachable state\<close>

lemma option_None_iff_all: "x = None \<longleftrightarrow> (\<forall>y. x \<noteq> Some y)"
  by (cases x) auto

lemma read_policy_None:
  "reachable sha es s \<Longrightarrow>
   policy_result_of (art_digest (pob_policy p)) s = None \<longleftrightarrow> (\<forall>oc. \<not> policy_recorded (kinds es) p oc)"
  by (simp add: option_None_iff_all read_policy)

lemma read_evidence_None:
  "reachable sha es s \<Longrightarrow>
   evidence_of (sreq_subject r) (sreq_policy_digest r) s = None
     \<longleftrightarrow> (\<forall>oc. \<not> evidence_recorded (kinds es) r oc)"
  by (simp add: option_None_iff_all read_evidence)

lemma read_gate_None:
  assumes "reachable sha es s"
  shows "st_gates s g = None \<longleftrightarrow> GateStarted g \<notin> kinds es"
  using read_gate_start [OF assms, of g] by (cases "st_gates s g") auto

lemma read_gate_open:
  assumes "reachable sha es s"
  shows "st_gates s g = Some GP_Started \<longleftrightarrow>
     GateStarted g \<in> kinds es \<and> (\<forall>oc. \<not> gate_recorded (kinds es) g oc)"
proof -
  have "st_gates s g = Some GP_Started \<longleftrightarrow>
      st_gates s g \<noteq> None \<and> (\<forall>oc. gate_outcome_of (st_gates s g) \<noteq> Some oc)"
    by (cases "st_gates s g" rule: gate_outcome_of.cases) auto
  then show ?thesis using read_gate_None [OF assms] read_gate [OF assms] by simp
qed

lemmas read_state = read_policy read_policy_None read_evidence read_evidence_None read_gate
  read_gate_None read_gate_open

lemma nonstart_blocked:
  assumes "reachable sha es s"
  shows "agent_nonstart_disposition s c = NonStart_Blocked \<longleftrightarrow> agent_withheld c (kinds es)"
proof -
  have "agent_nonstart_disposition s c = NonStart_Blocked \<longleftrightarrow>
      (\<exists>p \<in> agent_protectors c. policy_result_of (art_digest (pob_policy p)) s \<in> {None, Some PO_Denied})
      \<and> (\<forall>p \<in> agent_protectors c. policy_result_of (art_digest (pob_policy p)) s \<noteq> Some PO_Error)"
    by (auto simp: agent_nonstart_disposition_def Let_def policy_outcome_of list_ex_iff
        agent_protectors_def required_policies_def filter_empty_conv)
  then show ?thesis
    unfolding agent_withheld_def insert_iff empty_iff read_state [OF assms] by blast
qed

lemma agent_flags_raise:
  assumes "reachable sha es s"
  shows "fl_error (agent_flags s c fl) \<longleftrightarrow> fl_error fl
     \<or> rc_agent c = AO_Required
       \<and> ((\<exists>oc. AgentExited oc \<in> kinds es \<and> oc \<noteq> ExitedNormally 0)
          \<or> \<not> agent_exit_recorded (kinds es)
            \<and> (AgentStarted \<in> kinds es \<or> \<not> agent_withheld c (kinds es)))"
    and "fl_fail (agent_flags s c fl) \<longleftrightarrow> fl_fail fl"
    and "fl_blocked (agent_flags s c fl) \<longleftrightarrow> fl_blocked fl
     \<or> rc_agent c = AO_Required \<and> \<not> agent_exit_recorded (kinds es)
       \<and> AgentStarted \<notin> kinds es \<and> agent_withheld c (kinds es)"
proof -
  have exit: "AgentExited oc \<in> kinds es \<longleftrightarrow> st_agent s = AL_Exited oc" for oc
    using read_agent_exited [OF assms] by simp
  have rec: "agent_exit_recorded (kinds es) \<longleftrightarrow> is_exited (st_agent s)"
    by (cases "st_agent s") (simp_all add: agent_exit_recorded_def exit)
  have run: "\<not> is_exited (st_agent s) \<Longrightarrow> AgentStarted \<in> kinds es \<longleftrightarrow> st_agent s = AL_Started"
    using read_agent_running [OF assms] rec by simp
  note facts = agent_flags_def exit rec nonstart_blocked [OF assms, symmetric]
  show "fl_error (agent_flags s c fl) \<longleftrightarrow> fl_error fl
     \<or> rc_agent c = AO_Required
       \<and> ((\<exists>oc. AgentExited oc \<in> kinds es \<and> oc \<noteq> ExitedNormally 0)
          \<or> \<not> agent_exit_recorded (kinds es)
            \<and> (AgentStarted \<in> kinds es \<or> \<not> agent_withheld c (kinds es)))"
    using run by (cases "st_agent s") (auto simp: facts split: NonStart.split)
  show "fl_fail (agent_flags s c fl) \<longleftrightarrow> fl_fail fl"
    by (simp add: agent_flags_def split: AgentLifecycle.split NonStart.split)
  show "fl_blocked (agent_flags s c fl) \<longleftrightarrow> fl_blocked fl
     \<or> rc_agent c = AO_Required \<and> \<not> agent_exit_recorded (kinds es)
       \<and> AgentStarted \<notin> kinds es \<and> agent_withheld c (kinds es)"
    using run by (cases "st_agent s") (auto simp: facts split: NonStart.split)
qed

lemma candidate_flags_raise:
  assumes "reachable sha es s"
  shows "fl_error (candidate_flags s c fl) \<longleftrightarrow> fl_error fl"
    and "fl_fail (candidate_flags s c fl) \<longleftrightarrow> fl_fail fl"
    and "fl_blocked (candidate_flags s c fl) \<longleftrightarrow> fl_blocked fl
     \<or> rc_candidate_state c \<noteq> None \<and> (\<forall>a. CandidateStateCaptured a \<notin> kinds es)"
proof -
  have "st_candidate_state s = None \<longleftrightarrow> (\<forall>a. CandidateStateCaptured a \<notin> kinds es)"
    by (simp add: option_None_iff_all read_captured [OF assms])
  then show "fl_blocked (candidate_flags s c fl) \<longleftrightarrow> fl_blocked fl
     \<or> rc_candidate_state c \<noteq> None \<and> (\<forall>a. CandidateStateCaptured a \<notin> kinds es)"
    by (auto simp: candidate_flags_def)
qed (simp_all add: candidate_flags_def)

lemma no_flags_sel [simp]: "\<not> fl_error no_flags" "\<not> fl_fail no_flags" "\<not> fl_blocked no_flags"
  by (simp_all add: no_flags_def)

lemma compute_verdict_spec:
  assumes "reachable sha es s"
  shows "compute_verdict s c = spec_verdict c (kinds es)"
proof -
  let ?fl = "candidate_flags s c (fold (sandbox_flags s) (rc_sandbox_requirements c)
      (fold (policy_flags s) (rc_policy_obligations c)
        (fold (gate_flags s) (rc_gate_obligations c) (agent_flags s c no_flags))))"
  note flags = candidate_flags_raise [OF assms] agent_flags_raise [OF assms] folded_flags fail_kept
    gate_errs_def gate_blocks_def read_state [OF assms]
  have "fl_error ?fl \<longleftrightarrow> spec_error c (kinds es)"
    unfolding flags spec_error_def required_gates_def required_policies_def by auto
  moreover have "fl_fail ?fl \<longleftrightarrow> spec_fail c (kinds es)"
    unfolding flags spec_fail_def required_gates_def by auto
  moreover have "fl_blocked ?fl \<longleftrightarrow> spec_blocked c (kinds es)"
    unfolding flags insert_iff empty_iff spec_blocked_def required_gates_def required_policies_def
    using no_flags_sel(3) by blast
  ultimately show ?thesis
    by (simp add: compute_verdict_def verdict_of_flags_def spec_verdict_def)
qed

section \<open>The seal\<close>

lemma compute_verdict_sealed [simp]:
  "compute_verdict (advance e (s\<lparr>st_verdict := v, st_phase := p\<rparr>)) c = compute_verdict s c"
proof -
  let ?t = "advance e (s\<lparr>st_verdict := v, st_phase := p\<rparr>)"
  have "gate_flags ?t = gate_flags s" "policy_flags ?t = policy_flags s"
    "sandbox_flags ?t = sandbox_flags s"
    by (simp_all add: advance_def fun_eq_iff gate_flags_def policy_flags_def
        find_policy_result_def sandbox_flags_def)
  moreover have "agent_flags ?t c = agent_flags s c"
    by (simp add: fun_eq_iff advance_def agent_flags_def agent_nonstart_disposition_def
        find_policy_result_def cong: AgentLifecycle.case_cong)
  ultimately show ?thesis by (simp add: compute_verdict_def candidate_flags_def advance_def)
qed

lemma reachable_verdict:
  "reachable sha es s \<Longrightarrow>
   st_verdict s = (if st_phase s = Sealed then map_option (compute_verdict s) (st_contract s) else None)"
proof (induction rule: reachable_induct)
  case (continue es s e c s')
  from continue.hyps(5) continue.hyps(2,4) continue.IH show ?case
    by cases (simp_all, simp_all add: advance_def)
qed (simp_all add: slot_defs)

lemma sealed_verdict:
  assumes "reachable sha es s" and "is_sealed s" and "st_contract s = Some c"
  shows "st_verdict s = Some (spec_verdict c (kinds es))"
  using reachable_verdict [OF assms(1)] compute_verdict_spec [OF assms(1), of c] assms(2,3)
  by (simp add: is_sealed_def)

text \<open>At most one outcome is recorded per obligation.\<close>

lemma recorded_once:
  assumes "reachable sha es s"
  shows "gate_recorded (kinds es) g x \<Longrightarrow> gate_recorded (kinds es) g y \<Longrightarrow> x = y"
    and "policy_recorded (kinds es) p u \<Longrightarrow> policy_recorded (kinds es) p v \<Longrightarrow> u = v"
    and "evidence_recorded (kinds es) r m \<Longrightarrow> evidence_recorded (kinds es) r n \<Longrightarrow> m = n"
    and "AgentExited oc \<in> kinds es \<Longrightarrow> AgentExited oc' \<in> kinds es \<Longrightarrow> oc = oc'"
  using read_gate [OF assms, of g x] read_gate [OF assms, of g y]
    read_policy [OF assms, of p u] read_policy [OF assms, of p v]
    read_evidence [OF assms, of r m] read_evidence [OF assms, of r n]
    read_exit [OF assms, of oc] read_exit [OF assms, of oc']
  by auto

text \<open>A finished gate was started.\<close>

lemma gate_recorded_started:
  assumes "reachable sha es s" and "gate_recorded (kinds es) g oc"
  shows "GateStarted g \<in> kinds es"
proof (rule ccontr)
  assume "GateStarted g \<notin> kinds es"
  then have "st_gates s g = None" using read_gate_None [OF assms(1)] by simp
  with assms show False using read_gate [OF assms(1), of g oc] by simp
qed

lemma no_flag_discharged:
  assumes "\<not> spec_error c K" "\<not> spec_fail c K" "\<not> spec_blocked c K"
  shows "discharged c K"
proof -
  have go: "gate_recorded K g oc \<Longrightarrow>
      gate_recorded K g GO_Pass \<or> gate_recorded K g GO_Warn \<or> gate_recorded K g GO_Fail
      \<or> gate_recorded K g GO_Error \<or> gate_recorded K g GO_Blocked
      \<or> gate_recorded K g GO_NotApplicable" for g oc by (cases oc) auto
  have po: "policy_recorded K p oc \<Longrightarrow> policy_recorded K p PO_Allowed
      \<or> policy_recorded K p PO_Denied \<or> policy_recorded K p PO_Error" for p oc
    by (cases oc) auto
  have so: "evidence_recorded K r oc \<Longrightarrow> evidence_recorded K r SE_Satisfied
      \<or> evidence_recorded K r SE_Violated \<or> evidence_recorded K r SE_Error" for r oc
    by (cases oc) auto
  show ?thesis unfolding discharged_def
  proof (intro conjI ballI impI)
    show "AgentExited (ExitedNormally 0) \<in> K" if "rc_agent c = AO_Required"
      using assms that unfolding spec_error_def spec_blocked_def agent_exit_recorded_def by blast
    show "gate_recorded K g GO_Pass \<or> gate_recorded K g GO_Warn" if "g \<in> required_gates c" for g
      using assms that go unfolding spec_error_def spec_fail_def spec_blocked_def by blast
    show "policy_recorded K p PO_Allowed" if "p \<in> required_policies c" for p
      using assms that po unfolding spec_error_def spec_blocked_def by blast
    show "evidence_recorded K r SE_Satisfied" if "r \<in> set (rc_sandbox_requirements c)" for r
      using assms that so unfolding spec_error_def spec_blocked_def by blast
    show "\<exists>a. CandidateStateCaptured a \<in> K" if "rc_candidate_state c \<noteq> None"
      using assms that unfolding spec_blocked_def by blast
  qed
qed

lemma discharged_no_flag:
  assumes "reachable sha es s" and "discharged c (kinds es)"
  shows "\<not> spec_error c (kinds es)" "\<not> spec_fail c (kinds es)" "\<not> spec_blocked c (kinds es)"
proof -
  let ?K = "kinds es"
  note once = recorded_once [OF assms(1)] and d = assms(2) [unfolded discharged_def]
  have exit: "rc_agent c = AO_Required \<Longrightarrow> agent_exit_recorded ?K"
    "rc_agent c = AO_Required \<Longrightarrow> AgentExited oc \<in> ?K \<Longrightarrow> oc = ExitedNormally 0" for oc
    using d once(4) unfolding agent_exit_recorded_def by blast+
  have gate: "GateStarted g \<in> ?K" "\<exists>oc. gate_recorded ?K g oc"
    "\<not> gate_recorded ?K g GO_Fail" "\<not> gate_recorded ?K g GO_Error"
    "\<not> gate_recorded ?K g GO_Blocked" "\<not> gate_recorded ?K g GO_NotApplicable"
    if "g \<in> required_gates c" for g
    using d that once(1) [of g] gate_recorded_started [OF assms(1), of g] by blast+
  have pol: "\<exists>oc. policy_recorded ?K p oc" "\<not> policy_recorded ?K p PO_Denied"
    "\<not> policy_recorded ?K p PO_Error" if "p \<in> required_policies c" for p
    using d that once(2) [of p] by blast+
  have ev: "\<exists>oc. evidence_recorded ?K r oc" "\<not> evidence_recorded ?K r SE_Violated"
    "\<not> evidence_recorded ?K r SE_Error" if "r \<in> set (rc_sandbox_requirements c)" for r
    using d that once(3) [of r] by blast+
  have cand: "rc_candidate_state c \<noteq> None \<Longrightarrow> \<exists>a. CandidateStateCaptured a \<in> ?K"
    using d by blast
  show "\<not> spec_error c ?K"
    unfolding spec_error_def de_Morgan_disj
    by (intro conjI; use exit gate pol ev in blast)
  show "\<not> spec_fail c ?K" using gate unfolding spec_fail_def by blast
  show "\<not> spec_blocked c ?K"
    unfolding spec_blocked_def de_Morgan_disj
    by (intro conjI; use cand exit gate pol ev in blast)
qed

lemma spec_pass_discharged:
  assumes "reachable sha es s"
  shows "spec_verdict c (kinds es) = V_Pass \<longleftrightarrow> discharged c (kinds es)"
  using no_flag_discharged [of c "kinds es"] discharged_no_flag [OF assms, of c]
  by (auto simp: spec_verdict_def)

end
