(* ===== verification/Run_Order.thy ===== *)
theory Run_Order
  imports Run_Verdict
begin

text \<open>
  Ordering inside an accepted stream: what must precede a start, a capture, a materialization and
  a seal; the order in which policy decisions and sandbox evidence are kept; and the hash chain,
  by which the last digest fixes the whole stream.
\<close>

section \<open>Events before an event\<close>

lemma kinds_take:
  "k \<in> kinds (take i es) \<longleftrightarrow> (\<exists>j < i. j < length es \<and> ev_kind (es ! j) = k)"
proof
  assume "k \<in> kinds (take i es)"
  then obtain j where "j < length (take i es)" "ev_kind (take i es ! j) = k"
    by (metis imageE in_set_conv_nth)
  then show "\<exists>j < i. j < length es \<and> ev_kind (es ! j) = k" by auto
next
  assume "\<exists>j < i. j < length es \<and> ev_kind (es ! j) = k"
  then obtain j where "j < length (take i es)" "ev_kind (take i es ! j) = k" by auto
  then show "k \<in> kinds (take i es)" using nth_mem [of j "take i es"] by blast
qed

lemma reachable_contract_take:
  assumes "reachable sha es s" "reachable sha (take i es) u" "st_contract u = Some d"
  shows "st_contract s = Some d"
proof -
  obtain a where "RunStarted d a \<in> kinds (take i es)"
    using reachable_contract(1) [OF assms(2)] assms(3) by blast
  then have "RunStarted d a \<in> kinds es" by (auto dest: in_set_takeD)
  then show ?thesis using reachable_contract(1) [OF assms(1)] by blast
qed

text \<open>The state before an event other than the first, and the rule that accepted the event.\<close>

lemma reachable_before:
  assumes "reachable sha es s" "i < length es" "st_contract s = Some c"
    and "\<not> is_run_started (ev_kind (es ! i))"
  obtains u t where "reachable sha (take i es) u" "st_phase u = Running"
    "kind_step c u (ev_kind (es ! i)) t"
proof -
  obtain u v where u: "reachable sha (take i es) u" "run_step sha u (es ! i) v"
    using reachable_nth [OF assms(1,2)] by blast
  from u(2) assms(4) obtain d t where "st_contract u = Some d" "st_phase u = Running"
    "kind_step d u (ev_kind (es ! i)) t"
    by (auto elim!: run_stepE)
  moreover from this(1) have "d = c"
    using reachable_contract_take [OF assms(1) u(1)] assms(3) by simp
  ultimately show ?thesis using that u(1) by blast
qed

section \<open>The seal is last\<close>

lemma seal_not_before:
  assumes "reachable sha es s" and "i < length es - 1"
  shows "ev_kind (es ! i) \<noteq> RunSealed"
proof
  assume k: "ev_kind (es ! i) = RunSealed"
  have "Suc i < length es" using assms(2) by simp
  then obtain u v where u: "reachable sha (take (Suc i) es) u"
    and step: "run_step sha u (es ! Suc i) v"
    using reachable_nth [OF assms(1)] by blast
  have "RunSealed \<in> kinds (take (Suc i) es)"
    unfolding kinds_take using assms(2) k by (intro exI [of _ i]) simp
  then have "st_phase u = Sealed" using reachable_contract(4) [OF u] by blast
  with step show False by (auto elim!: run_stepE)
qed

lemma seal_last:
  assumes "reachable sha es s"
  shows "is_sealed s \<longleftrightarrow> es \<noteq> [] \<and> ev_kind (last es) = RunSealed"
proof -
  have "RunSealed \<in> kinds es \<longleftrightarrow> es \<noteq> [] \<and> ev_kind (last es) = RunSealed"
  proof
    assume "RunSealed \<in> kinds es"
    then obtain i where i: "i < length es" "ev_kind (es ! i) = RunSealed"
      by (metis imageE in_set_conv_nth)
    then have "\<not> i < length es - 1" using seal_not_before [OF assms] by blast
    with i(1) have "i = length es - 1" and ne: "es \<noteq> []" by auto
    with i(2) show "es \<noteq> [] \<and> ev_kind (last es) = RunSealed" by (simp add: last_conv_nth)
  qed (metis image_eqI last_in_set)
  then show ?thesis using reachable_contract(4) [OF assms] by (simp add: is_sealed_def)
qed

section \<open>Policy decisions\<close>

fun wr_result :: "RunEventKind \<Rightarrow> PolicyResult option" where
  "wr_result (PolicyChecked p oc) = Some \<lparr>pres_policy = p, pres_outcome = oc\<rparr>"
| "wr_result _ = None"

lemma reachable_policy_results:
  "reachable sha es s \<Longrightarrow>
   st_policy_results s = List.map_filter wr_result (map ev_kind es)
   \<and> distinct (map (\<lambda>r. art_digest (pres_policy r)) (st_policy_results s))"
proof (induction rule: reachable_induct)
  case (continue es s e c s')
  from continue.hyps(5) continue.IH show ?case
    by cases (auto simp: advance_def List.map_filter_def)
qed (auto simp: slot_defs List.map_filter_def)

lemma policy_result_event:
  assumes "reachable sha es s" "r \<in> set (st_policy_results s)"
  shows "PolicyChecked (pres_policy r) (pres_outcome r) \<in> kinds es"
proof -
  have "r \<in> set (List.map_filter wr_result (map ev_kind es))"
    using reachable_policy_results [OF assms(1)] assms(2) by simp
  then obtain e where "e \<in> set es" "wr_result (ev_kind e) = Some r"
    by (force simp: List.map_filter_def)
  moreover from this(2) have "ev_kind e = PolicyChecked (pres_policy r) (pres_outcome r)"
    by (auto elim!: wr_result.elims)
  ultimately show ?thesis by force
qed

lemma start_allowed_recorded:
  assumes "reachable sha es s" "start_allowed s c subj"
    and "p \<in> required_policies c" "subj \<in> set (pob_protects p)"
  shows "policy_recorded (kinds es) p PO_Allowed"
proof -
  have "policy_allowed s p"
    using assms(2-) by (auto simp: start_allowed_def required_policies_def)
  then obtain r where "r \<in> set (st_policy_results s)" "pres_outcome r = PO_Allowed"
    "art_digest (pres_policy r) = art_digest (pob_policy p)"
    by (auto simp: policy_allowed_def list_ex_iff)
  then show ?thesis
    using policy_result_event [OF assms(1)] by (force simp: policy_recorded_def)
qed

section \<open>Lifecycles\<close>

lemma all_wr_patch: "(\<forall>k \<in> K. wr_patch k = None) \<longleftrightarrow> (\<forall>p. PatchCaptured p \<notin> K)"
proof -
  have "wr_patch k = None \<longleftrightarrow> (\<forall>p. k \<noteq> PatchCaptured p)" for k by (cases k) auto
  then show ?thesis by auto
qed

lemma all_wr_binding: "(\<forall>k \<in> K. wr_binding k = None) \<longleftrightarrow> (\<forall>b. CommandBindingCaptured b \<notin> K)"
proof -
  have "wr_binding k = None \<longleftrightarrow> (\<forall>b. k \<noteq> CommandBindingCaptured b)" for k by (cases k) auto
  then show ?thesis by auto
qed

lemma all_wr_materialized:
  "(\<forall>k \<in> K. wr_materialized k = None) \<longleftrightarrow>
   (\<forall>rid r p oid. CandidateStateMaterialized rid r p oid \<notin> K)"
proof -
  have "wr_materialized k = None \<longleftrightarrow> (\<forall>rid r p oid. k \<noteq> CandidateStateMaterialized rid r p oid)" for k
    by (cases k) auto
  then show ?thesis by auto
qed

lemma patch_unrecorded:
  "reachable sha es s \<Longrightarrow> st_patch s = None \<longleftrightarrow> (\<forall>p. PatchCaptured p \<notin> kinds es)"
  unfolding all_wr_patch [symmetric] by (rule patch_slot.unrecorded)

lemma binding_unrecorded:
  "reachable sha es s \<Longrightarrow> st_command_binding s = None \<longleftrightarrow> (\<forall>b. CommandBindingCaptured b \<notin> kinds es)"
  unfolding all_wr_binding [symmetric] by (rule binding_slot.unrecorded)

lemma materialized_unrecorded:
  "reachable sha es s \<Longrightarrow> st_candidate_materialized s = None \<longleftrightarrow>
   (\<forall>rid r p oid. CandidateStateMaterialized rid r p oid \<notin> kinds es)"
  unfolding all_wr_materialized [symmetric] by (rule materialized_slot.unrecorded)

section \<open>Sandbox evidence\<close>

lemma insert_evidence_sorted:
  assumes "sorted (map see_key es)" "see_key e \<notin> see_key ` set es"
  shows "sorted (map see_key (insert_evidence e es)) \<and> set (insert_evidence e es) = insert e (set es)"
proof -
  obtain p where p: "binary_search_by (\<lambda>x. cmp (see_key x) (see_key e)) es = Inl p"
    "\<forall>x \<in> set (take p es). see_key x < see_key e" "\<forall>x \<in> set (drop p es). see_key e < see_key x"
    by (rule binary_search_absent [OF assms])
  then show ?thesis
    using sorted_vec_insert [OF assms(1) p(2,3)] by (simp add: insert_evidence_def)
qed

lemma insert_evidence_length [simp]: "length (insert_evidence e es) = Suc (length es)"
  by (simp add: insert_evidence_def vec_insert_def Let_def)

lemma reachable_evidence:
  "reachable sha es s \<Longrightarrow>
   sorted (map see_key (st_sandbox_evidence s)) \<and> distinct (map see_key (st_sandbox_evidence s))
   \<and> (\<forall>x. x \<in> set (st_sandbox_evidence s) \<longleftrightarrow>
        (\<exists>rep. SandboxEvidenceCaptured (key_subject (see_key x)) (key_policy_digest (see_key x))
                 rep (see_outcome x) \<in> kinds es))"
proof (induction rule: reachable_induct)
  case (continue es s e c s')
  from continue.hyps(5) continue.IH show ?case
  proof cases
    case (evidence rep subj d oc)
    let ?x = "\<lparr>see_key = SandboxEvidenceKey subj d, see_outcome = oc\<rparr>"
    have new: "see_key ?x \<notin> see_key ` set (st_sandbox_evidence s)" using evidence by auto
    note ins = insert_evidence_sorted [OF conjunct1 [OF continue.IH] new]
    have "distinct (map see_key (insert_evidence ?x (st_sandbox_evidence s)))"
    proof (rule card_distinct)
      show "card (set (map see_key (insert_evidence ?x (st_sandbox_evidence s)))) =
          length (map see_key (insert_evidence ?x (st_sandbox_evidence s)))"
        using ins new continue.IH distinct_card [of "map see_key (st_sandbox_evidence s)"] by simp
    qed
    moreover have "x = ?x \<longleftrightarrow> key_subject (see_key x) = subj \<and> key_policy_digest (see_key x) = d
        \<and> see_outcome x = oc" for x :: SandboxEvidenceEntry
      by (cases x; cases "see_key x") auto
    ultimately show ?thesis
      using evidence ins continue.IH by (auto simp: advance_def)
  qed (auto simp: advance_def)
qed (auto simp: slot_defs)

section \<open>The hash chain\<close>

lemma chain_back:
  assumes "reachable sha es s" "reachable sha fs t"
    and len: "length es = length fs"
    and inj: "inj_on sha (event_preimage ` (set es \<union> set fs))"
    and small: "\<forall>e \<in> set es. length (event_preimage e) < max_preimage"
    and eq: "es ! i = fs ! i" and i: "i < length es"
  shows "take (Suc i) es = take (Suc i) fs"
  using eq i
proof (induction i)
  case 0
  then show ?case using len by (simp add: take_Suc_conv_app_nth)
next
  case (Suc i)
  have "ev_event_digest (es ! i) = ev_event_digest (fs ! i)"
    using reachable_link [OF assms(1), of "Suc i"] reachable_link [OF assms(2), of "Suc i"] Suc.prems len
    by simp
  moreover have "digest_is_consistent sha (es ! i)" "digest_is_consistent sha (fs ! i)"
    using reachable_envelope [OF assms(1)] reachable_envelope [OF assms(2)] Suc.prems len by auto
  moreover have "sha (event_preimage (es ! i)) = sha (event_preimage (fs ! i)) \<Longrightarrow>
      event_preimage (es ! i) = event_preimage (fs ! i)"
    using inj Suc.prems len by (auto simp: inj_on_def)
  moreover have "length (event_preimage (es ! i)) < max_preimage"
    using small Suc.prems by simp
  ultimately have "es ! i = fs ! i" by (intro compute_digest_inj [of sha])
  with Suc len show ?case by (simp add: take_Suc_conv_app_nth)
qed

lemma last_digest_fixes_stream:
  assumes "reachable sha es s" "reachable sha fs t" "es \<noteq> []" "fs \<noteq> []"
    and inj: "inj_on sha (event_preimage ` (set es \<union> set fs))"
    and small: "\<forall>e \<in> set es. length (event_preimage e) < max_preimage"
    and len: "length es \<le> 2 ^ 64" "length fs \<le> 2 ^ 64"
    and eq: "st_last_event_digest s = st_last_event_digest t"
  shows "es = fs"
proof -
  have "digest_is_consistent sha (last es)" "digest_is_consistent sha (last fs)"
    using reachable_envelope [OF assms(1)] reachable_envelope [OF assms(2)] assms(3,4) by auto
  moreover have "ev_event_digest (last es) = ev_event_digest (last fs)"
    using reachable_envelope [OF assms(1)] reachable_envelope [OF assms(2)] assms(3,4) eq by simp
  moreover have "sha (event_preimage (last es)) = sha (event_preimage (last fs)) \<Longrightarrow>
      event_preimage (last es) = event_preimage (last fs)"
    using inj assms(3,4) by (auto simp: inj_on_def)
  moreover have "length (event_preimage (last es)) < max_preimage"
    using small assms(3) by simp
  ultimately have last: "last es = last fs" by (intro compute_digest_inj [of sha])
  have "of_nat (length es - 1) = (of_nat (length fs - 1) :: u64)"
    using reachable_sequence [OF assms(1), of "length es - 1"]
      reachable_sequence [OF assms(2), of "length fs - 1"] last assms(3,4)
    by (simp add: last_conv_nth)
  then have n: "length es = length fs"
    using len assms(3,4) by (cases es; cases fs) (simp_all add: word_of_nat_eq_iff take_bit_nat_eq_self)
  from chain_back [OF assms(1,2) n inj small, of "length es - 1"] last n assms(3,4)
  show ?thesis by (simp add: last_conv_nth)
qed

end
