(* ===== verification/Run_Properties.thy ===== *)
theory Run_Properties
  imports Run_Order
begin

text \<open>
  The properties of the run reducer, stated over the definitions of \<open>Run_Event\<close> and \<open>Run_Reduce\<close>,
  each with a concrete accepted stream on which its hypotheses hold. The example streams use
  constant digest functions, which the reducer cannot tell from SHA-256 on a single stream.
\<close>

section \<open>Example streams\<close>

fun chain_events :: "(bytes \<Rightarrow> bytes) \<Rightarrow> Digest256 \<Rightarrow> nat \<Rightarrow> RunEventKind list \<Rightarrow> RunEvent list" where
  "chain_events sha prev n [] = []"
| "chain_events sha prev n (k # ks) =
     (let e = \<lparr>ev_event_id = RunEventId (replicate (Suc n) CHR ''e''),
               ev_schema_version = 1, ev_run_id = RunId ''run-1'', ev_sequence = of_nat n,
               ev_previous_event_digest = prev, ev_event_digest = genesis,
               ev_timestamp_millis = 0, ev_kind = k\<rparr>;
          d = compute_digest sha e
      in e\<lparr>ev_event_digest := d\<rparr> # chain_events sha d (Suc n) ks)"

definition zero_sha :: "bytes \<Rightarrow> bytes" where
  "zero_sha bs = [0]"

definition demo_ref :: "string \<Rightarrow> ArtifactKind \<Rightarrow> ArtifactRef" where
  "demo_ref locator k = \<lparr>art_kind = k, art_locator = locator, art_digest = Digest256 ''00''\<rparr>"

definition demo_contract :: RunContract where
  "demo_contract =
     \<lparr>rc_gate_obligations =
        [\<lparr>gob_gate = GateId ''test'', gob_requirement = GR_Required, gob_applicability = Applicable\<rparr>,
         \<lparr>gob_gate = GateId ''lint'', gob_requirement = GR_Optional, gob_applicability = Applicable\<rparr>],
      rc_policy_obligations =
        [\<lparr>pob_policy = demo_ref ''policy.json'' AK_Policy, pob_requirement = PR_Required,
          pob_protects = [PP_Agent, PP_Gate (GateId ''test'')]\<rparr>],
      rc_sandbox_requirements = [\<lparr>sreq_subject = ES_Agent, sreq_policy_digest = Digest256 ''00''\<rparr>],
      rc_agent = AO_Required,
      rc_runner_environment = ''linux'',
      rc_candidate_state =
        Some \<lparr>csc_schema = 1, csc_conversation_id = ''c'',
              csc_repository_id = \<lparr>repo_git_common_dir = ''/r'', repo_dev = 1, repo_ino = 2\<rparr>,
              csc_base_commit = ''b'', csc_patch_kind = GitBinaryCumulativePatchV1\<rparr>\<rparr>"

definition demo_kinds :: "RunEventKind list" where
  "demo_kinds =
     [RunStarted demo_contract (demo_ref ''task.md'' AK_Task),
      PolicyChecked (demo_ref ''policy.json'' AK_Policy) PO_Allowed,
      CommandBindingCaptured (demo_ref ''command_binding.json'' AK_CommandBinding),
      CandidateStateMaterialized (RunId ''run-0'') (demo_ref ''parent_candidate_receipt.json'' AK_CandidateState)
        (demo_ref ''parent_candidate.patch'' AK_CandidatePatch) ''oid'',
      AgentStarted,
      SandboxEvidenceCaptured ES_Agent (Digest256 ''00'') (demo_ref ''sandbox.json'' AK_SandboxReport) SE_Satisfied,
      AgentExited (ExitedNormally 0),
      PatchCaptured (demo_ref ''diff.patch'' AK_Diff),
      CandidateStateCaptured (demo_ref ''candidate_state_receipt.json'' AK_CandidateState),
      GateStarted (GateId ''test''),
      GateFinished (GateId ''test'') GO_Pass None,
      RunSealed]"

definition demo_stream :: "RunEvent list" where
  "demo_stream = chain_events zero_sha genesis 0 demo_kinds"

definition demo_state :: RunState where
  "demo_state = (case reduce_all zero_sha demo_stream of Inl _ \<Rightarrow> initial_state | Inr s \<Rightarrow> s)"

text \<open>
  Under \<open>zero_sha\<close> every digest is the same, so an accepted step can be computed without building
  the preimages.
\<close>

definition zero_reduce :: "RunState \<Rightarrow> RunEvent \<Rightarrow> (ReduceError, RunState) result" where
  "zero_reduce s e =
     (if ev_event_digest e = Digest256 ''00'' \<and> st_phase s \<noteq> Sealed
         \<and> ev_schema_version e = RUN_EVENT_SCHEMA_VERSION
         \<and> check_sequence (st_last_sequence s) (ev_sequence e) = Inr ()
         \<and> ev_previous_event_digest e = st_last_event_digest s
         \<and> (case st_run_id s of None \<Rightarrow> True | Some r \<Rightarrow> ev_run_id e = r)
         \<and> ev_event_id e \<notin> st_seen_event_ids s
         \<and> (st_phase s = NotStarted \<longrightarrow> is_run_started (ev_kind e))
      then and_then (apply_kind s e (ev_sequence e)) (\<lambda>s'. Inr (advance e s'))
      else Inl (EventAfterSeal 0))"

fun zero_chain :: "Digest256 \<Rightarrow> nat \<Rightarrow> RunEventKind list \<Rightarrow> RunEvent list" where
  "zero_chain prev n [] = []"
| "zero_chain prev n (k # ks) =
     \<lparr>ev_event_id = RunEventId (replicate (Suc n) CHR ''e''),
      ev_schema_version = 1, ev_run_id = RunId ''run-1'', ev_sequence = of_nat n,
      ev_previous_event_digest = prev, ev_event_digest = Digest256 ''00'',
      ev_timestamp_millis = 0, ev_kind = k\<rparr> # zero_chain (Digest256 ''00'') (Suc n) ks"

definition demo_ok :: bool where
  "demo_ok = (case try_fold zero_reduce initial_state (zero_chain genesis 0 demo_kinds) of
     Inl _ \<Rightarrow> False
   | Inr s \<Rightarrow> st_phase s = Sealed \<and> st_verdict s = Some V_Pass \<and> st_contract s = Some demo_contract
       \<and> st_run_id s = Some (RunId ''run-1'')
       \<and> st_command_binding s = Some (demo_ref ''command_binding.json'' AK_CommandBinding)
       \<and> st_candidate_state s = Some (demo_ref ''candidate_state_receipt.json'' AK_CandidateState)
       \<and> st_candidate_materialized s =
           Some \<lparr>cm_source_run_id = RunId ''run-0'',
                 cm_source_receipt = demo_ref ''parent_candidate_receipt.json'' AK_CandidateState,
                 cm_source_patch = demo_ref ''parent_candidate.patch'' AK_CandidatePatch,
                 cm_materialized_tree_oid = ''oid''\<rparr>)"

lemma demo_accepted: demo_ok
  by code_simp

lemma zero_digest: "compute_digest zero_sha e = Digest256 ''00''"
  by (simp add: compute_digest_def zero_sha_def hex_byte_total HEX_def)

lemma zero_reduce_reduce: "zero_reduce s e = Inr t \<Longrightarrow> reduce zero_sha s e = Inr t"
  by (auto simp: zero_reduce_def reduce_def check_envelope_def digest_is_consistent_def zero_digest
      advance_def Let_def split: if_splits option.splits)

lemma zero_reduce_all: "try_fold zero_reduce s es = Inr t \<Longrightarrow> try_fold (reduce zero_sha) s es = Inr t"
  by (induction es arbitrary: s) (auto dest: zero_reduce_reduce)

lemma zero_chain_events: "chain_events zero_sha d n ks = zero_chain d n ks"
  by (induction ks arbitrary: d n) (simp_all add: Let_def zero_digest)

lemma demo_reduced: "reduce_all zero_sha demo_stream = Inr demo_state"
  and demo_sealed: "is_sealed demo_state" "st_contract demo_state = Some demo_contract"
    "st_verdict demo_state = Some V_Pass"
  and demo_fields: "st_run_id demo_state = Some (RunId ''run-1'')"
    "st_command_binding demo_state = Some (demo_ref ''command_binding.json'' AK_CommandBinding)"
    "st_candidate_state demo_state =
       Some (demo_ref ''candidate_state_receipt.json'' AK_CandidateState)"
    "st_candidate_materialized demo_state =
       Some \<lparr>cm_source_run_id = RunId ''run-0'',
             cm_source_receipt = demo_ref ''parent_candidate_receipt.json'' AK_CandidateState,
             cm_source_patch = demo_ref ''parent_candidate.patch'' AK_CandidatePatch,
             cm_materialized_tree_oid = ''oid''\<rparr>"
proof -
  obtain s where s: "try_fold zero_reduce initial_state (zero_chain genesis 0 demo_kinds) = Inr s"
    using demo_accepted by (auto simp: demo_ok_def split: sum.splits)
  then have red: "reduce_all zero_sha demo_stream = Inr s"
    unfolding reduce_all_def demo_stream_def zero_chain_events by (rule zero_reduce_all)
  then have st: "demo_state = s" by (simp add: demo_state_def)
  show "reduce_all zero_sha demo_stream = Inr demo_state" using red st by simp
  note ok = demo_accepted [unfolded demo_ok_def s]
  show "is_sealed demo_state" "st_contract demo_state = Some demo_contract"
    "st_verdict demo_state = Some V_Pass" "st_run_id demo_state = Some (RunId ''run-1'')"
    "st_command_binding demo_state = Some (demo_ref ''command_binding.json'' AK_CommandBinding)"
    "st_candidate_state demo_state =
       Some (demo_ref ''candidate_state_receipt.json'' AK_CandidateState)"
    "st_candidate_materialized demo_state =
       Some \<lparr>cm_source_run_id = RunId ''run-0'',
             cm_source_receipt = demo_ref ''parent_candidate_receipt.json'' AK_CandidateState,
             cm_source_patch = demo_ref ''parent_candidate.patch'' AK_CandidatePatch,
             cm_materialized_tree_oid = ''oid''\<rparr>"
    using ok by (simp_all add: is_sealed_def st)
qed

lemma map_kind_chain: "map ev_kind (chain_events sha d n ks) = ks"
  by (induction ks arbitrary: d n) (simp_all add: Let_def)

lemma length_chain: "length (chain_events sha d n ks) = length ks"
  by (metis length_map map_kind_chain)

lemma demo_length [simp]: "length demo_stream = 12"
  unfolding demo_stream_def length_chain by (simp add: demo_kinds_def)

lemma demo_kinds_map: "map ev_kind demo_stream = demo_kinds"
  unfolding demo_stream_def by (rule map_kind_chain)

lemma demo_kind: "i < 12 \<Longrightarrow> ev_kind (demo_stream ! i) = demo_kinds ! i"
  by (metis demo_length demo_stream_def map_kind_chain nth_map)

section \<open>The verdict\<close>

text \<open>
  C1. The verdict of a sealed run is a function of the contract its first event bound and of the
  set of events it recorded: \<open>Error\<close> before \<open>Fail\<close> before \<open>Blocked\<close> before \<open>Pass\<close>, whatever the
  order in which the evidence arrived.
\<close>

theorem sealed_verdict_spec:
  assumes "reduce_all sha es = Inr s" and "is_sealed s"
  shows "\<exists>c a. ev_kind (hd es) = RunStarted c a \<and> st_contract s = Some c
           \<and> st_verdict s = Some (spec_verdict c (kinds es))"
proof -
  have r: "reachable sha es s" using assms(1) by (simp add: reduce_all_iff_reachable)
  have "es \<noteq> []" using reachable_phase [OF r] assms(2) by (auto simp: is_sealed_def)
  then show ?thesis
    using reachable_contract(3) [OF r] sealed_verdict [OF r assms(2)] by blast
qed

theorem sealed_verdict_spec_witness:
  "spec_verdict demo_contract (kinds demo_stream) = V_Pass"
  using sealed_verdict_spec [OF demo_reduced] demo_sealed by auto

text \<open>
  C2. No false green: an accepted stream carries the verdict \<open>Pass\<close> exactly when it is sealed and
  every obligation of its contract was met by an event of the stream: the required agent exited
  with code 0, every required applicable gate finished \<open>Pass\<close> or \<open>Warn\<close>, every required policy was
  \<open>Allowed\<close>, every sandbox requirement \<open>Satisfied\<close>, and a declared candidate state was captured.
\<close>

theorem no_false_green:
  assumes "reduce_all sha es = Inr s"
  shows "st_verdict s = Some V_Pass \<longleftrightarrow>
     is_sealed s \<and> (\<exists>c. st_contract s = Some c \<and> discharged c (kinds es))"
proof (cases "is_sealed s")
  case True
  then obtain c where c: "st_contract s = Some c" "st_verdict s = Some (spec_verdict c (kinds es))"
    using assms sealed_verdict reachable_contract(3) reachable_phase
    by (metis reduce_all_iff_reachable is_sealed_def RunPhase.distinct(3))
  with True show ?thesis
    using spec_pass_discharged assms by (simp add: reduce_all_iff_reachable)
next
  case False
  then show ?thesis
    using assms reachable_verdict by (auto simp: reduce_all_iff_reachable is_sealed_def)
qed

theorem no_false_green_witness: "discharged demo_contract (kinds demo_stream)"
  using no_false_green [OF demo_reduced] demo_sealed by auto

text \<open>
  C3. The reducer accepts an event exactly when the transition relation has the step, and then
  returns the state of that step: \<open>reduce\<close> is \<open>run_step\<close> computed.
\<close>

theorem reduce_refines_step: "reduce sha s e = Inr t \<longleftrightarrow> run_step sha s e t"
  by (rule reduce_iff_run_step)

text \<open>
  \<open>validate_contract\<close> accepts exactly the well-formed contracts: supported candidate schema,
  unique gates with waivers bound to the runner environment and a reason, unique policies that
  protect only existing subjects and only when required, unique sandbox requirements on eligible
  subjects.
\<close>

lemma validate_contract_spec: "validate_contract c sq = Inr () \<longleftrightarrow> wf_contract c"
  by (rule validate_contract_iff)

section \<open>The stream\<close>

text \<open>
  C4. Tamper evidence: two accepted streams with the same last digest are the same stream, event
  for event, provided the digest function has no collision among their preimages, the preimages
  are shorter than \<open>2^64\<close> bytes and the streams no longer than \<open>2^64\<close> events.
\<close>

theorem last_digest_binds_stream:
  assumes "reduce_all sha es = Inr s" "reduce_all sha fs = Inr t" "es \<noteq> []" "fs \<noteq> []"
    and "inj_on sha (event_preimage ` (set es \<union> set fs))"
    and "\<forall>e \<in> set es. length (event_preimage e) < 2 ^ 64"
    and "length es \<le> 2 ^ 64" "length fs \<le> 2 ^ 64"
    and "st_last_event_digest s = st_last_event_digest t"
  shows "es = fs"
  using last_digest_fixes_stream [of sha es s fs t] assms by (simp add: reduce_all_iff_reachable)

definition short_stream :: "RunEvent list" where
  "short_stream = chain_events id genesis 0 [RunStarted demo_contract (demo_ref ''task.md'' AK_Task)]"

lemma short_reduced: "\<exists>s. reduce_all id short_stream = Inr s"
proof -
  let ?e = "\<lparr>ev_event_id = RunEventId ''e'', ev_schema_version = 1, ev_run_id = RunId ''run-1'',
      ev_sequence = 0, ev_previous_event_digest = genesis, ev_event_digest = genesis,
      ev_timestamp_millis = 0, ev_kind = RunStarted demo_contract (demo_ref ''task.md'' AK_Task)\<rparr>"
  let ?f = "?e\<lparr>ev_event_digest := compute_digest id ?e\<rparr>"
  have "wf_contract demo_contract"
    using reachable_contract(2) demo_reduced demo_sealed by (auto simp: reduce_all_iff_reachable)
  moreover have "envelope_ok id initial_state ?f"
    by (simp add: envelope_ok_def initial_state_def RUN_EVENT_SCHEMA_VERSION_def next_sequence_def
        digest_is_consistent_def compute_digest_def event_preimage_def)
  ultimately have "\<exists>s. run_step id initial_state ?f s"
    by (auto simp: run_step.simps initial_state_def artifact_ok_def demo_ref_def)
  then show ?thesis
    by (simp add: short_stream_def Let_def reduce_all_def reduce_iff_run_step)
qed

lemma short_preimage: "\<forall>e \<in> set short_stream. length (event_preimage e) < 1000"
  by (simp add: short_stream_def Let_def event_preimage_def event_domain_def fold_contract_def
      demo_contract_def demo_ref_def fold_artifact_def fold_gate_obligation_def
      fold_policy_obligation_def fold_sandbox_requirement_def genesis_def)

theorem last_digest_binds_stream_witness:
  "\<exists>s. reduce_all id short_stream = Inr s \<and> short_stream \<noteq> []
     \<and> (\<forall>fs t. reduce_all id fs = Inr t \<and> length fs \<le> 2 ^ 64 \<and> fs \<noteq> []
          \<and> st_last_event_digest s = st_last_event_digest t \<longrightarrow> short_stream = fs)"
proof -
  obtain s where s: "reduce_all id short_stream = Inr s"
    using short_reduced by blast
  have ne: "short_stream \<noteq> []" by (simp add: short_stream_def Let_def)
  have len: "length short_stream \<le> 2 ^ 64" by (simp add: short_stream_def Let_def)
  have small: "\<forall>e \<in> set short_stream. length (event_preimage e) < 2 ^ 64"
    using short_preimage by fastforce
  show ?thesis
    using s ne last_digest_binds_stream [OF s _ ne _ _ small len] by auto
qed

text \<open>
  The envelope of an accepted stream: the first event is \<open>RunStarted\<close>, sequence numbers are
  dense from 0, each event names the digest of its predecessor (the first the genesis digest),
  stored digests are those of the content, all events carry one run id, and event ids are unique.
\<close>

lemma accepted_envelope:
  assumes "reduce_all sha es = Inr s"
  shows "(es \<noteq> [] \<longrightarrow> is_run_started (ev_kind (hd es)))
    \<and> (\<forall>i < length es. ev_sequence (es ! i) = of_nat i
         \<and> ev_previous_event_digest (es ! i) =
             (if i = 0 then genesis else ev_event_digest (es ! (i - 1))))
    \<and> (\<forall>e \<in> set es. digest_is_consistent sha e \<and> st_run_id s = Some (ev_run_id e))
    \<and> distinct (map ev_event_id es)"
proof -
  have r: "reachable sha es s" using assms by (simp add: reduce_all_iff_reachable)
  then show ?thesis
    using reachable_contract(3) [OF r] reachable_sequence [OF r] reachable_link [OF r]
      reachable_envelope [OF r] by auto
qed

text \<open>
  The seal is terminal: a run is sealed exactly when its last event is \<open>RunSealed\<close>, no earlier
  event is one, and any longer stream is refused at the first event after it.
\<close>

lemma seal_is_terminal:
  assumes "reduce_all sha es = Inr s"
  shows "(is_sealed s \<longleftrightarrow> es \<noteq> [] \<and> ev_kind (last es) = RunSealed)
    \<and> (\<forall>i < length es - 1. ev_kind (es ! i) \<noteq> RunSealed)
    \<and> (is_sealed s \<longrightarrow>
         (\<forall>e fs. reduce_all sha (es @ e # fs) = Inl (EventAfterSeal (ev_sequence e))))"
proof -
  have r: "reachable sha es s" using assms by (simp add: reduce_all_iff_reachable)
  have "is_sealed s \<longrightarrow>
      (\<forall>e fs. reduce_all sha (es @ e # fs) = Inl (EventAfterSeal (ev_sequence e)))"
    using assms
    by (simp add: reduce_all_def try_fold_append reduce_def check_envelope_def is_sealed_def)
  then show ?thesis
    using seal_last [OF r] seal_not_before [OF r] by simp
qed

section \<open>Ordering\<close>

text \<open>
  C7. Policy before protected work: where an accepted stream starts the agent, every required
  policy that protects the agent was recorded \<open>Allowed\<close> at an earlier position, and the same for
  each protected gate.
\<close>

theorem protected_start_after_allowed:
  assumes "reduce_all sha es = Inr s" "st_contract s = Some c" "i < length es"
    and "p \<in> set (rc_policy_obligations c)" "pob_requirement p = PR_Required"
    and "subject \<in> set (pob_protects p)"
    and "ev_kind (es ! i) = (case subject of PP_Agent \<Rightarrow> AgentStarted | PP_Gate g \<Rightarrow> GateStarted g)"
  shows "\<exists>j < i. \<exists>a. ev_kind (es ! j) = PolicyChecked a PO_Allowed
           \<and> art_digest a = art_digest (pob_policy p)"
proof -
  have r: "reachable sha es s" using assms(1) by (simp add: reduce_all_iff_reachable)
  have "\<not> is_run_started (ev_kind (es ! i))"
    using assms(7) by (simp split: PolicyProtectedSubject.split)
  from reachable_before [OF r assms(3,2) this] obtain u t
    where u: "reachable sha (take i es) u" "kind_step c u (ev_kind (es ! i)) t" by blast
  have "start_allowed u c subject"
    using u(2) unfolding assms(7) by (cases subject) (simp_all add: kind_step_simps)
  moreover have "p \<in> required_policies c" using assms(4,5) by (simp add: required_policies_def)
  ultimately have "policy_recorded (kinds (take i es)) p PO_Allowed"
    using start_allowed_recorded [OF u(1)] assms(6) by blast
  then show ?thesis unfolding policy_recorded_def kinds_take by blast
qed

theorem protected_start_after_allowed_witness:
  "\<exists>j < 4. \<exists>a. ev_kind (demo_stream ! j) = PolicyChecked a PO_Allowed \<and> art_digest a = Digest256 ''00''"
  using protected_start_after_allowed [OF demo_reduced demo_sealed(2), where i = 4 and subject = PP_Agent]
  by (simp add: demo_kind) (simp add: demo_contract_def demo_kinds_def demo_ref_def)

text \<open>
  Candidate lineage order. A candidate state is captured after the patch and, when an agent is
  required, after the agent's terminal event; a prior candidate is materialized after the command
  binding and before the agent starts or exits; and under a candidate contract a follow-up run
  (one with a command binding) starts its agent only after the materialization.
\<close>

lemma candidate_event_order:
  assumes "reduce_all sha es = Inr s" "st_contract s = Some c" "i < length es"
  shows "(\<forall>r. ev_kind (es ! i) = CandidateStateCaptured r \<longrightarrow>
           (\<exists>j < i. \<exists>p. ev_kind (es ! j) = PatchCaptured p)
           \<and> (rc_agent c = AO_Required \<longrightarrow> (\<exists>j < i. \<exists>oc. ev_kind (es ! j) = AgentExited oc)))
    \<and> (\<forall>rid r p oid. ev_kind (es ! i) = CandidateStateMaterialized rid r p oid \<longrightarrow>
           (\<exists>j < i. \<exists>b. ev_kind (es ! j) = CommandBindingCaptured b)
           \<and> (\<forall>j < i. ev_kind (es ! j) \<noteq> AgentStarted \<and> (\<forall>oc. ev_kind (es ! j) \<noteq> AgentExited oc)))
    \<and> (ev_kind (es ! i) = AgentStarted \<and> rc_candidate_state c \<noteq> None
         \<and> (\<exists>j < i. \<exists>b. ev_kind (es ! j) = CommandBindingCaptured b) \<longrightarrow>
           (\<exists>j < i. \<exists>rid r p oid. ev_kind (es ! j) = CandidateStateMaterialized rid r p oid))"
proof (cases "is_run_started (ev_kind (es ! i))")
  case False
  have r: "reachable sha es s" using assms(1) by (simp add: reduce_all_iff_reachable)
  from reachable_before [OF r assms(3,2) False] obtain u t
    where u: "reachable sha (take i es) u" and step: "kind_step c u (ev_kind (es ! i)) t" by blast
  have before: "k \<in> kinds (take i es) \<longleftrightarrow> (\<exists>j < i. ev_kind (es ! j) = k)" for k
    using kinds_take [of k i es] assms(3) by auto
  note slots = patch_unrecorded [OF u] binding_unrecorded [OF u] materialized_unrecorded [OF u]
    read_agent_idle [OF u] read_exit [OF u]
  show ?thesis
  proof (intro conjI allI impI)
    fix r assume k: "ev_kind (es ! i) = CandidateStateCaptured r"
    show "\<exists>j < i. \<exists>p. ev_kind (es ! j) = PatchCaptured p"
      using step slots(1) unfolding k before by (auto simp: kind_step_simps)
    assume "rc_agent c = AO_Required"
    then have "is_exited (st_agent u)" using step unfolding k by (auto simp: kind_step_simps)
    then obtain oc where "agent_exit_of (st_agent u) = Some oc" by (cases "st_agent u") auto
    then show "\<exists>j < i. \<exists>oc. ev_kind (es ! j) = AgentExited oc"
      unfolding slots(5) before by blast
  next
    fix rid r p oid j
    assume k: "ev_kind (es ! i) = CandidateStateMaterialized rid r p oid"
    show "\<exists>j < i. \<exists>b. ev_kind (es ! j) = CommandBindingCaptured b"
      using step slots(2) unfolding k before by (auto simp: kind_step_simps)
    have "AgentStarted \<notin> kinds (take i es) \<and> \<not> agent_exit_recorded (kinds (take i es))"
      using step slots(4) unfolding k by (simp add: kind_step_simps)
    moreover assume "j < i"
    ultimately show "ev_kind (es ! j) \<noteq> AgentStarted" and "ev_kind (es ! j) \<noteq> AgentExited oc" for oc
      unfolding agent_exit_recorded_def before by blast+
  next
    assume *: "ev_kind (es ! i) = AgentStarted \<and> rc_candidate_state c \<noteq> None
      \<and> (\<exists>j < i. \<exists>b. ev_kind (es ! j) = CommandBindingCaptured b)"
    then have "st_command_binding u \<noteq> None" using slots(2) unfolding before by blast
    with * step have "st_candidate_materialized u \<noteq> None" by (auto simp: kind_step_simps)
    then show "\<exists>j < i. \<exists>rid r p oid. ev_kind (es ! j) = CandidateStateMaterialized rid r p oid"
      unfolding slots(3) before by auto
  qed
next
  case True
  then show ?thesis by (auto elim!: is_run_startedE)
qed

text \<open>
  Lifecycles: a gate finishes only after it started, each gate starts once and finishes once,
  the agent exits once, and it exits without having started only as \<open>FailedToStart\<close>.
\<close>

lemma lifecycle_order:
  assumes "reduce_all sha es = Inr s" "i < length es" "j < length es"
  shows "(\<forall>g oc log. ev_kind (es ! i) = GateFinished g oc log \<longrightarrow>
            (\<exists>m < i. ev_kind (es ! m) = GateStarted g))
    \<and> (\<forall>g. ev_kind (es ! i) = GateStarted g \<and> ev_kind (es ! j) = GateStarted g \<longrightarrow> i = j)
    \<and> (\<forall>g oc log oc' log'. ev_kind (es ! i) = GateFinished g oc log
         \<and> ev_kind (es ! j) = GateFinished g oc' log' \<longrightarrow> i = j)
    \<and> (\<forall>oc. ev_kind (es ! i) = AgentExited oc \<longrightarrow>
         (\<exists>m < i. ev_kind (es ! m) = AgentStarted) \<or> (\<exists>why. oc = FailedToStart why))
    \<and> (\<forall>oc oc'. ev_kind (es ! i) = AgentExited oc \<and> ev_kind (es ! j) = AgentExited oc' \<longrightarrow> i = j)"
proof -
  have r: "reachable sha es s" using assms(1) by (simp add: reduce_all_iff_reachable)
  obtain u v where u: "reachable sha (take i es) u" and step: "run_step sha u (es ! i) v"
    using reachable_nth [OF r assms(2)] by blast
  have before: "k \<in> kinds (take i es) \<longleftrightarrow> (\<exists>m < i. ev_kind (es ! m) = k)" for k
    using kinds_take [of k i es] assms(2) by auto
  show ?thesis
  proof (intro conjI allI impI)
    fix g oc log assume "ev_kind (es ! i) = GateFinished g oc log"
    then have "st_gates u g = Some GP_Started" using step by (auto elim!: run_stepE simp: kind_step_simps)
    then show "\<exists>m < i. ev_kind (es ! m) = GateStarted g"
      using read_gate_open [OF u] unfolding before by blast
  next
    fix oc assume "ev_kind (es ! i) = AgentExited oc"
    then have "st_agent u = AL_Started \<or> (\<exists>why. oc = FailedToStart why)"
      using step by (auto elim!: run_stepE simp: kind_step_simps)
    then show "(\<exists>m < i. ev_kind (es ! m) = AgentStarted) \<or> (\<exists>why. oc = FailedToStart why)"
      using read_agent_running [OF u] unfolding before by blast
  qed (use gate_start_slot.written_once [OF r assms(2,3)] gate_slot.written_once [OF r assms(2,3)]
         exit_slot.written_once [OF r assms(2,3)] in fastforce)+
qed

text \<open>
  The kept evidence: policy decisions stand in the order of the stream and once per policy,
  and the sandbox evidence is strictly sorted by its key and holds exactly the captured outcomes,
  so equal sets of evidence give equal vectors.
\<close>

lemma kept_evidence:
  assumes "reduce_all sha es = Inr s"
  shows "st_policy_results s = List.map_filter wr_result (map ev_kind es)
    \<and> distinct (map (\<lambda>r. art_digest (pres_policy r)) (st_policy_results s))
    \<and> sorted_wrt (<) (map see_key (st_sandbox_evidence s))
    \<and> (\<forall>subj d oc. \<lparr>see_key = SandboxEvidenceKey subj d, see_outcome = oc\<rparr> \<in> set (st_sandbox_evidence s)
         \<longleftrightarrow> (\<exists>rep. SandboxEvidenceCaptured subj d rep oc \<in> kinds es))"
  using reachable_policy_results [of sha es s] reachable_evidence [of sha es s] assms
  by (auto simp: reduce_all_iff_reachable strict_sorted_iff)

section \<open>Digests\<close>

text \<open>
  The event preimage is unambiguous: two events whose canonical preimages are equal agree in
  every field the digest covers (schema, run, sequence, predecessor, time, event id and the whole
  payload), for any preimage shorter than \<open>2^64\<close> bytes.
\<close>

lemma event_preimage_unambiguous:
  assumes "length (event_preimage e) < 2 ^ 64" and "event_preimage e = event_preimage f"
  shows "e\<lparr>ev_event_digest := d\<rparr> = f\<lparr>ev_event_digest := d\<rparr>"
  using event_preimage_inj [of e f d] assms by simp

definition sealed_event :: RunEvent where
  "sealed_event =
     \<lparr>ev_event_id = RunEventId ''e'', ev_schema_version = 1, ev_run_id = RunId ''r'', ev_sequence = 3,
      ev_previous_event_digest = genesis, ev_event_digest = genesis, ev_timestamp_millis = 0,
      ev_kind = RunSealed\<rparr>"

text \<open>
  Digest text: the digest of any bytes under a 32-byte hash parses back to itself, distinct
  hash values have distinct texts, and a parsed digest is the text it was parsed from.
\<close>

lemma digest_round_trip:
  "(length (sha bs) = 32 \<longrightarrow> Digest256_parse (digest_str (of_bytes sha bs)) = Inr (of_bytes sha bs))
   \<and> (of_bytes sha bs = of_bytes sha cs \<longleftrightarrow> sha bs = sha cs)
   \<and> (Digest256_parse t = Inr d \<longrightarrow> digest_str d = t \<and> length t = 64)"
  by (auto simp: Digest256_parse_def of_bytes_def hex_lower_inj hex_lower_chars is_canonical_hex_def)

end
