(* ===== verification/Run_Candidate.thy ===== *)
theory Run_Candidate
  imports Run_State
begin

text \<open>
  Semantic verification of candidate-state evidence: \<^verbatim>\<open>crates/o7-run/src/candidate.rs\<close>. The artifact
  resolver (a trait object in the source) is the argument \<open>resolve\<close>; \<open>sha\<close> is SHA-256;
  \<open>receipt_of_json\<close> and \<open>binding_of_json\<close> stand for \<^verbatim>\<open>serde_json::from_slice\<close> at the two record types
  (a package outside the repository), \<open>Inl\<close> carrying its error text. An error is the message the
  source builds: its fixed text, or the format with its arguments.
\<close>

section \<open>Data\<close>

record ArtifactError =
  ae_locator :: string
  ae_reason :: string

type_synonym resolver = "ArtifactRef \<Rightarrow> (ArtifactError, bytes) result"

definition CANDIDATE_STATE_RECEIPT_SCHEMA_V1 :: u32 where
  "CANDIDATE_STATE_RECEIPT_SCHEMA_V1 = 1"

definition CANDIDATE_STATE_RECEIPT_LOCATOR :: string where
  "CANDIDATE_STATE_RECEIPT_LOCATOR = ''candidate_state_receipt.json''"

definition CANDIDATE_PATCH_LOCATOR :: string where
  "CANDIDATE_PATCH_LOCATOR = ''candidate.patch''"

definition PARENT_CANDIDATE_RECEIPT_LOCATOR :: string where
  "PARENT_CANDIDATE_RECEIPT_LOCATOR = ''parent_candidate_receipt.json''"

definition PARENT_CANDIDATE_PATCH_LOCATOR :: string where
  "PARENT_CANDIDATE_PATCH_LOCATOR = ''parent_candidate.patch''"

definition COMMAND_BINDING_LOCATOR :: string where
  "COMMAND_BINDING_LOCATOR = ''command_binding.json''"

definition COMMAND_BINDING_SCHEMA_V1 :: u32 where
  "COMMAND_BINDING_SCHEMA_V1 = 1"

record CommandBindingFacts =
  cbf_schema :: u32
  cbf_command_id :: string
  cbf_conversation_id :: string
  cbf_parent_run_id :: RunId
  cbf_child_run_id :: RunId
  cbf_command_sha256 :: string

record CandidateStateReceiptV1 =
  csr_schema :: u32
  csr_repository_id :: RepositoryIdentity
  csr_base_commit :: string
  csr_run_id :: RunId
  csr_conversation_id :: string
  csr_parent_run_id :: "RunId option"
  csr_candidate_tree_oid :: string
  csr_patch_kind :: CandidatePatchKind
  csr_patch :: ArtifactRef

datatype FailMessage =
    Reason string
  | WrongKind string ArtifactKind ArtifactKind
  | Resolving string ArtifactError
  | DigestDisagrees string
  | Parsing string string
  | UnsupportedSchemaOf string u32 u32
  | WrongLocator string string string
  | TreeDisagrees string string

datatype CandidateVerifyError = CandidateVerifyError FailMessage

definition fail :: "FailMessage \<Rightarrow> CandidateVerifyError" where
  "fail reason = CandidateVerifyError reason"

record CandidateMaterializationCheck =
  cmc_source_run_id :: RunId
  cmc_source_receipt :: CandidateStateReceiptV1
  cmc_patch_bytes :: bytes

section \<open>Helpers\<close>

definition resolve_and_verify ::
  "(bytes \<Rightarrow> bytes) \<Rightarrow> resolver \<Rightarrow> ArtifactRef \<Rightarrow> ArtifactKind \<Rightarrow> string
     \<Rightarrow> (CandidateVerifyError, bytes) result" where
  "resolve_and_verify sha resolve r expected_kind what =
     (if art_kind r \<noteq> expected_kind then Inl (fail (WrongKind what (art_kind r) expected_kind))
      else and_then (map_err (\<lambda>e. fail (Resolving what e)) (resolve r)) (\<lambda>bs.
        if of_bytes sha bs \<noteq> art_digest r then Inl (fail (DigestDisagrees what))
        else Inr bs))"

definition parse_receipt ::
  "(bytes \<Rightarrow> (string, CandidateStateReceiptV1) result) \<Rightarrow> bytes \<Rightarrow> string
     \<Rightarrow> (CandidateVerifyError, CandidateStateReceiptV1) result" where
  "parse_receipt receipt_of_json bs what =
     and_then (map_err (\<lambda>e. fail (Parsing what e)) (receipt_of_json bs)) (\<lambda>receipt.
       if csr_schema receipt \<noteq> CANDIDATE_STATE_RECEIPT_SCHEMA_V1
         then Inl (fail (UnsupportedSchemaOf what (csr_schema receipt)
                           CANDIDATE_STATE_RECEIPT_SCHEMA_V1))
       else Inr receipt)"

definition require_locator ::
  "ArtifactRef \<Rightarrow> string \<Rightarrow> string \<Rightarrow> (CandidateVerifyError, unit) result" where
  "require_locator r expected what =
     (if art_locator r \<noteq> expected then Inl (fail (WrongLocator what (art_locator r) expected))
      else Inr ())"

definition binding_what :: string where
  "binding_what = ''this run's own command-binding evidence''"

definition resolve_command_binding_facts ::
  "(bytes \<Rightarrow> bytes) \<Rightarrow> (bytes \<Rightarrow> (string, CommandBindingFacts) result) \<Rightarrow> RunState \<Rightarrow> resolver
     \<Rightarrow> (CandidateVerifyError, CommandBindingFacts option) result" where
  "resolve_command_binding_facts sha binding_of_json s resolve =
     (case st_command_binding s of
        None \<Rightarrow> Inr None
      | Some binding_ref \<Rightarrow>
          and_then (require_locator binding_ref COMMAND_BINDING_LOCATOR binding_what) (\<lambda>_.
          and_then (resolve_and_verify sha resolve binding_ref AK_CommandBinding binding_what) (\<lambda>bs.
          and_then (map_err (\<lambda>e. fail (Parsing binding_what e)) (binding_of_json bs)) (\<lambda>facts.
            if cbf_schema facts \<noteq> COMMAND_BINDING_SCHEMA_V1
              then Inl (fail (UnsupportedSchemaOf binding_what (cbf_schema facts)
                                COMMAND_BINDING_SCHEMA_V1))
            else Inr (Some facts)))))"

section \<open>The captured receipt\<close>

definition receipt_what :: string where
  "receipt_what = ''this run's own candidate-state receipt''"

definition contract_what :: string where
  "contract_what = ''this run's own contract''"

definition check_receipt_contract ::
  "CandidateStateReceiptV1 \<Rightarrow> CandidateStateContractV1 \<Rightarrow> (CandidateVerifyError, unit) result" where
  "check_receipt_contract receipt obligation =
     (if csc_schema obligation \<noteq> CANDIDATE_STATE_CONTRACT_SCHEMA_V1
        then Inl (fail (UnsupportedSchemaOf contract_what (csc_schema obligation)
                          CANDIDATE_STATE_CONTRACT_SCHEMA_V1))
      else if csr_conversation_id receipt \<noteq> csc_conversation_id obligation
        then Inl (fail (Reason ''receipt conversation_id disagrees with the run's own contract''))
      else if csr_repository_id receipt \<noteq> csc_repository_id obligation
        then Inl (fail (Reason ''receipt repository_id disagrees with the run's own contract''))
      else if csr_base_commit receipt \<noteq> csc_base_commit obligation
        then Inl (fail (Reason ''receipt base_commit disagrees with the run's own contract''))
      else if csr_patch_kind receipt \<noteq> csc_patch_kind obligation
        then Inl (fail (Reason ''receipt patch_kind disagrees with the run's own contract''))
      else Inr ())"

definition check_receipt_lineage ::
  "CandidateStateReceiptV1 \<Rightarrow> CommandBindingFacts option \<Rightarrow> (CandidateVerifyError, unit) result" where
  "check_receipt_lineage receipt facts =
     (case facts of
        None \<Rightarrow>
          if csr_parent_run_id receipt \<noteq> None
            then Inl (fail (Reason ''an initial (non-continuation) run's receipt must not declare a parent_run_id''))
          else Inr ()
      | Some binding \<Rightarrow>
          if run_id_str (csr_run_id receipt) \<noteq> run_id_str (cbf_child_run_id binding)
            then Inl (fail (Reason ''receipt run_id disagrees with this run's own command-binding child_run_id''))
          else if csr_conversation_id receipt \<noteq> cbf_conversation_id binding
            then Inl (fail (Reason ''receipt conversation_id disagrees with this run's own command-binding conversation_id''))
          else if map_option run_id_str (csr_parent_run_id receipt)
                    \<noteq> Some (run_id_str (cbf_parent_run_id binding))
            then Inl (fail (Reason ''receipt parent_run_id disagrees with this run's own command-binding parent_run_id''))
          else Inr ())"

definition patch_what :: string where
  "patch_what = ''this receipt's own nested patch artifact''"

definition verify_candidate_state_captured ::
  "(bytes \<Rightarrow> bytes) \<Rightarrow> (bytes \<Rightarrow> (string, CandidateStateReceiptV1) result)
     \<Rightarrow> (bytes \<Rightarrow> (string, CommandBindingFacts) result) \<Rightarrow> RunState \<Rightarrow> RunContract \<Rightarrow> resolver
     \<Rightarrow> (CandidateVerifyError, CandidateStateReceiptV1) result" where
  "verify_candidate_state_captured sha receipt_of_json binding_of_json s c resolve =
     and_then (ok_or (st_candidate_state s)
                 (fail (Reason ''no CandidateStateCaptured receipt in this run's state''))) (\<lambda>receipt_ref.
     and_then (require_locator receipt_ref CANDIDATE_STATE_RECEIPT_LOCATOR receipt_what) (\<lambda>_.
     and_then (resolve_and_verify sha resolve receipt_ref AK_CandidateState receipt_what) (\<lambda>bs.
     and_then (parse_receipt receipt_of_json bs receipt_what) (\<lambda>receipt.
     and_then (ok_or (rc_candidate_state c)
                 (fail (Reason ''this run's own contract declares no candidate_state obligation''))) (\<lambda>obligation.
     and_then (check_receipt_contract receipt obligation) (\<lambda>_.
     and_then (ok_or (st_run_id s)
                 (fail (Reason ''this run has no bound canonical run_id yet''))) (\<lambda>expected_run_id.
     and_then (if csr_run_id receipt \<noteq> expected_run_id
                 then Inl (fail (Reason ''receipt run_id disagrees with this run's own canonical run_id''))
               else Inr ()) (\<lambda>_.
     and_then (resolve_command_binding_facts sha binding_of_json s resolve) (\<lambda>facts.
     and_then (check_receipt_lineage receipt facts) (\<lambda>_.
     and_then (require_locator (csr_patch receipt) CANDIDATE_PATCH_LOCATOR patch_what) (\<lambda>_.
     and_then (resolve_and_verify sha resolve (csr_patch receipt) AK_CandidatePatch patch_what) (\<lambda>_.
     Inr receipt))))))))))))"

section \<open>The materialized parent\<close>

definition copied_receipt_what :: string where
  "copied_receipt_what = ''the child's own copy of the parent's candidate-state receipt''"

definition source_patch_what :: string where
  "source_patch_what = ''the source receipt's own nested patch artifact''"

definition copied_patch_what :: string where
  "copied_patch_what = ''the child's own copy of the parent's patch''"

definition check_binding_identity ::
  "RunState \<Rightarrow> CandidateMaterialization \<Rightarrow> CommandBindingFacts \<Rightarrow> CandidateStateContractV1
     \<Rightarrow> (CandidateVerifyError, unit) result" where
  "check_binding_identity s mat binding obligation =
     (if csc_schema obligation \<noteq> CANDIDATE_STATE_CONTRACT_SCHEMA_V1
        then Inl (fail (UnsupportedSchemaOf contract_what (csc_schema obligation)
                          CANDIDATE_STATE_CONTRACT_SCHEMA_V1))
      else and_then (ok_or (st_run_id s)
                       (fail (Reason ''this run has no bound canonical run_id yet''))) (\<lambda>canonical_run_id.
        if run_id_str (cbf_child_run_id binding) \<noteq> run_id_str canonical_run_id
          then Inl (fail (Reason ''this run's own command-binding child_run_id disagrees with its own canonical run_id''))
        else if run_id_str (cm_source_run_id mat) \<noteq> run_id_str (cbf_parent_run_id binding)
          then Inl (fail (Reason ''materialization source_run_id disagrees with this run's own command-binding parent_run_id''))
        else Inr ()))"

definition check_source_receipt ::
  "CandidateMaterialization \<Rightarrow> CommandBindingFacts \<Rightarrow> CandidateStateContractV1
     \<Rightarrow> CandidateStateReceiptV1 \<Rightarrow> (CandidateVerifyError, unit) result" where
  "check_source_receipt mat binding obligation src =
     (if csr_run_id src \<noteq> cm_source_run_id mat
        then Inl (fail (Reason ''the copied source receipt's own run_id disagrees with this event's source_run_id''))
      else if csr_conversation_id src \<noteq> cbf_conversation_id binding
        then Inl (fail (Reason ''the source receipt's conversation_id disagrees with this run's own command-binding conversation_id''))
      else if csr_conversation_id src \<noteq> csc_conversation_id obligation
        then Inl (fail (Reason ''the source receipt's conversation_id disagrees with this run's own contract''))
      else if csr_repository_id src \<noteq> csc_repository_id obligation
        then Inl (fail (Reason ''the source receipt's repository_id disagrees with this run's own contract''))
      else if csr_base_commit src \<noteq> csc_base_commit obligation
        then Inl (fail (Reason ''the source receipt's base_commit disagrees with this run's own contract''))
      else if csr_patch_kind src \<noteq> csc_patch_kind obligation
        then Inl (fail (Reason ''the source receipt's patch_kind disagrees with this run's own contract''))
      else Inr ())"

definition verify_candidate_state_materialized ::
  "(bytes \<Rightarrow> bytes) \<Rightarrow> (bytes \<Rightarrow> (string, CandidateStateReceiptV1) result)
     \<Rightarrow> (bytes \<Rightarrow> (string, CommandBindingFacts) result) \<Rightarrow> RunState \<Rightarrow> RunContract \<Rightarrow> resolver
     \<Rightarrow> (CandidateVerifyError, CandidateMaterializationCheck) result" where
  "verify_candidate_state_materialized sha receipt_of_json binding_of_json s c resolve =
     and_then (ok_or (st_candidate_materialized s)
                 (fail (Reason ''no CandidateStateMaterialized evidence in this run's state''))) (\<lambda>mat.
     and_then (resolve_command_binding_facts sha binding_of_json s resolve) (\<lambda>facts.
     and_then (ok_or facts
                 (fail (Reason ''materialization requires this run's own command-binding evidence''))) (\<lambda>binding.
     and_then (ok_or (rc_candidate_state c)
                 (fail (Reason ''this run's own contract declares no candidate_state obligation to materialize against'')))
       (\<lambda>obligation.
     and_then (check_binding_identity s mat binding obligation) (\<lambda>_.
     and_then (require_locator (cm_source_receipt mat) PARENT_CANDIDATE_RECEIPT_LOCATOR
                 copied_receipt_what) (\<lambda>_.
     and_then (resolve_and_verify sha resolve (cm_source_receipt mat) AK_CandidateState
                 copied_receipt_what) (\<lambda>receipt_bytes.
     and_then (parse_receipt receipt_of_json receipt_bytes copied_receipt_what) (\<lambda>src.
     and_then (check_source_receipt mat binding obligation src) (\<lambda>_.
     and_then (require_locator (csr_patch src) CANDIDATE_PATCH_LOCATOR source_patch_what) (\<lambda>_.
     and_then (require_locator (cm_source_patch mat) PARENT_CANDIDATE_PATCH_LOCATOR
                 copied_patch_what) (\<lambda>_.
     and_then (resolve_and_verify sha resolve (cm_source_patch mat) AK_CandidatePatch
                 copied_patch_what) (\<lambda>patch_bytes.
       if of_bytes sha patch_bytes \<noteq> art_digest (csr_patch src)
         then Inl (fail (Reason ''the child's copied patch does not match the source receipt's own patch digest''))
       else if cm_materialized_tree_oid mat \<noteq> csr_candidate_tree_oid src
         then Inl (fail (TreeDisagrees (cm_materialized_tree_oid mat) (csr_candidate_tree_oid src)))
       else Inr \<lparr>cmc_source_run_id = cm_source_run_id mat, cmc_source_receipt = src,
                 cmc_patch_bytes = patch_bytes\<rparr>))))))))))))"

section \<open>What verification establishes\<close>

text \<open>The bytes behind a reference: right kind, right locator, resolved, right digest.\<close>

definition authentic :: "(bytes \<Rightarrow> bytes) \<Rightarrow> resolver \<Rightarrow> ArtifactRef \<Rightarrow> ArtifactKind \<Rightarrow> string \<Rightarrow> bytes \<Rightarrow> bool" where
  "authentic sha resolve r k loc bs \<longleftrightarrow>
     art_kind r = k \<and> art_locator r = loc \<and> resolve r = Inr bs \<and> of_bytes sha bs = art_digest r"

definition authentic_binding ::
  "(bytes \<Rightarrow> bytes) \<Rightarrow> (bytes \<Rightarrow> (string, CommandBindingFacts) result) \<Rightarrow> resolver \<Rightarrow> ArtifactRef
     \<Rightarrow> CommandBindingFacts \<Rightarrow> bool" where
  "authentic_binding sha binding_of_json resolve r facts \<longleftrightarrow>
     (\<exists>bs. authentic sha resolve r AK_CommandBinding COMMAND_BINDING_LOCATOR bs
           \<and> binding_of_json bs = Inr facts \<and> cbf_schema facts = COMMAND_BINDING_SCHEMA_V1)"

definition authentic_receipt ::
  "(bytes \<Rightarrow> bytes) \<Rightarrow> (bytes \<Rightarrow> (string, CandidateStateReceiptV1) result) \<Rightarrow> resolver \<Rightarrow> ArtifactRef
     \<Rightarrow> string \<Rightarrow> CandidateStateReceiptV1 \<Rightarrow> bool" where
  "authentic_receipt sha receipt_of_json resolve r loc receipt \<longleftrightarrow>
     (\<exists>bs. authentic sha resolve r AK_CandidateState loc bs
           \<and> receipt_of_json bs = Inr receipt \<and> csr_schema receipt = CANDIDATE_STATE_RECEIPT_SCHEMA_V1)"

definition same_candidate :: "CandidateStateReceiptV1 \<Rightarrow> CandidateStateContractV1 \<Rightarrow> bool" where
  "same_candidate receipt ob \<longleftrightarrow>
     csc_schema ob = CANDIDATE_STATE_CONTRACT_SCHEMA_V1
     \<and> csr_conversation_id receipt = csc_conversation_id ob
     \<and> csr_repository_id receipt = csc_repository_id ob
     \<and> csr_base_commit receipt = csc_base_commit ob
     \<and> csr_patch_kind receipt = csc_patch_kind ob"

text \<open>An initial run's receipt names no parent; a continuation's agrees with its command binding.\<close>

definition lineage_ok :: "CandidateStateReceiptV1 \<Rightarrow> CommandBindingFacts option \<Rightarrow> bool" where
  "lineage_ok receipt facts \<longleftrightarrow>
     (case facts of
        None \<Rightarrow> csr_parent_run_id receipt = None
      | Some b \<Rightarrow> csr_run_id receipt = cbf_child_run_id b
                  \<and> csr_conversation_id receipt = cbf_conversation_id b
                  \<and> csr_parent_run_id receipt = Some (cbf_parent_run_id b))"

lemma resolve_and_verify_iff:
  "resolve_and_verify sha resolve r k what = Inr bs \<longleftrightarrow>
     art_kind r = k \<and> resolve r = Inr bs \<and> of_bytes sha bs = art_digest r"
  by (auto simp: resolve_and_verify_def map_err_def split: sum.splits)

lemma require_locator_iff: "require_locator r loc what = Inr u \<longleftrightarrow> art_locator r = loc"
  by (simp add: require_locator_def)

lemma parse_receipt_iff:
  "parse_receipt receipt_of_json bs what = Inr receipt \<longleftrightarrow>
     receipt_of_json bs = Inr receipt \<and> csr_schema receipt = CANDIDATE_STATE_RECEIPT_SCHEMA_V1"
  by (auto simp: parse_receipt_def map_err_def split: sum.splits)

lemma command_binding_iff:
  "resolve_command_binding_facts sha binding_of_json s resolve = Inr facts \<longleftrightarrow>
     (case st_command_binding s of
        None \<Rightarrow> facts = None
      | Some r \<Rightarrow> \<exists>b. facts = Some b \<and> authentic_binding sha binding_of_json resolve r b)"
  by (auto simp: resolve_command_binding_facts_def require_locator_iff resolve_and_verify_iff
      authentic_binding_def authentic_def split: option.split)

lemma check_receipt_contract_iff:
  "check_receipt_contract receipt ob = Inr u \<longleftrightarrow> same_candidate receipt ob"
  by (simp add: check_receipt_contract_def same_candidate_def)

lemma RunId_str_eq: "run_id_str a = run_id_str b \<longleftrightarrow> a = b"
  by (cases a; cases b) simp

lemma parent_str_eq: "map_option run_id_str p = Some (run_id_str q) \<longleftrightarrow> p = Some q"
  by (cases p) (simp_all add: RunId_str_eq)

lemma check_receipt_lineage_iff:
  "check_receipt_lineage receipt facts = Inr u \<longleftrightarrow> lineage_ok receipt facts"
  by (auto simp: check_receipt_lineage_def lineage_ok_def RunId_str_eq parent_str_eq
      split: option.split)

text \<open>The captured receipt is accepted exactly when it is authentic and agrees with the run.\<close>

lemma candidate_captured_iff:
  "verify_candidate_state_captured sha receipt_of_json binding_of_json s c resolve = Inr receipt \<longleftrightarrow>
     (\<exists>r ob facts. st_candidate_state s = Some r
        \<and> authentic_receipt sha receipt_of_json resolve r CANDIDATE_STATE_RECEIPT_LOCATOR receipt
        \<and> rc_candidate_state c = Some ob \<and> same_candidate receipt ob
        \<and> st_run_id s = Some (csr_run_id receipt)
        \<and> resolve_command_binding_facts sha binding_of_json s resolve = Inr facts
        \<and> lineage_ok receipt facts
        \<and> (\<exists>bs. authentic sha resolve (csr_patch receipt) AK_CandidatePatch CANDIDATE_PATCH_LOCATOR bs))"
  by (auto simp: verify_candidate_state_captured_def require_locator_iff resolve_and_verify_iff
      parse_receipt_iff check_receipt_contract_iff check_receipt_lineage_iff
      authentic_receipt_def authentic_def)

lemma check_binding_identity_iff:
  "check_binding_identity s mat b ob = Inr u \<longleftrightarrow>
     csc_schema ob = CANDIDATE_STATE_CONTRACT_SCHEMA_V1
     \<and> st_run_id s = Some (cbf_child_run_id b) \<and> cm_source_run_id mat = cbf_parent_run_id b"
  by (auto simp: check_binding_identity_def RunId_str_eq)

lemma check_source_receipt_iff:
  assumes "csc_schema ob = CANDIDATE_STATE_CONTRACT_SCHEMA_V1"
  shows "check_source_receipt mat b ob src = Inr u \<longleftrightarrow>
     csr_run_id src = cm_source_run_id mat \<and> csr_conversation_id src = cbf_conversation_id b
     \<and> same_candidate src ob"
  using assms by (auto simp: check_source_receipt_def same_candidate_def)

text \<open>
  The materialization is accepted exactly when the binding names this run as child and the source
  as parent, the copied receipt is authentic and the source's, the copied patch is the one that
  receipt names, and the materialized tree is the one it claims.
\<close>

lemma candidate_materialized_iff:
  "verify_candidate_state_materialized sha receipt_of_json binding_of_json s c resolve = Inr chk \<longleftrightarrow>
     (\<exists>mat r b ob. st_candidate_materialized s = Some mat \<and> st_command_binding s = Some r
        \<and> authentic_binding sha binding_of_json resolve r b
        \<and> rc_candidate_state c = Some ob \<and> same_candidate (cmc_source_receipt chk) ob
        \<and> st_run_id s = Some (cbf_child_run_id b)
        \<and> cm_source_run_id mat = cbf_parent_run_id b
        \<and> authentic_receipt sha receipt_of_json resolve (cm_source_receipt mat)
             PARENT_CANDIDATE_RECEIPT_LOCATOR (cmc_source_receipt chk)
        \<and> csr_run_id (cmc_source_receipt chk) = cm_source_run_id mat
        \<and> csr_conversation_id (cmc_source_receipt chk) = cbf_conversation_id b
        \<and> art_locator (csr_patch (cmc_source_receipt chk)) = CANDIDATE_PATCH_LOCATOR
        \<and> authentic sha resolve (cm_source_patch mat) AK_CandidatePatch
             PARENT_CANDIDATE_PATCH_LOCATOR (cmc_patch_bytes chk)
        \<and> of_bytes sha (cmc_patch_bytes chk) = art_digest (csr_patch (cmc_source_receipt chk))
        \<and> cm_materialized_tree_oid mat = csr_candidate_tree_oid (cmc_source_receipt chk)
        \<and> cmc_source_run_id chk = cm_source_run_id mat)"
  (is "?code \<longleftrightarrow> ?spec")
proof -
  have facts: "resolve_command_binding_facts sha binding_of_json s resolve = Inr (Some b) \<longleftrightarrow>
      (\<exists>r. st_command_binding s = Some r \<and> authentic_binding sha binding_of_json resolve r b)" for b
    by (auto simp: command_binding_iff split: option.split)
  have chk: "chk = \<lparr>cmc_source_run_id = x, cmc_source_receipt = y, cmc_patch_bytes = z\<rparr> \<longleftrightarrow>
      cmc_source_run_id chk = x \<and> cmc_source_receipt chk = y \<and> cmc_patch_bytes chk = z" for x y z
    by (cases chk) auto
  show ?thesis
  proof
    assume ?code
    then show ?spec
      by (auto simp: verify_candidate_state_materialized_def facts require_locator_iff
          resolve_and_verify_iff parse_receipt_iff check_binding_identity_iff check_source_receipt_iff
          authentic_receipt_def authentic_def) blast
  next
    assume ?spec
    then obtain mat r b ob rb where m: "st_candidate_materialized s = Some mat"
        "st_command_binding s = Some r" "authentic_binding sha binding_of_json resolve r b"
        "rc_candidate_state c = Some ob" "same_candidate (cmc_source_receipt chk) ob"
        "st_run_id s = Some (cbf_child_run_id b)" "cm_source_run_id mat = cbf_parent_run_id b"
      and rb: "authentic sha resolve (cm_source_receipt mat) AK_CandidateState
          PARENT_CANDIDATE_RECEIPT_LOCATOR rb" "receipt_of_json rb = Inr (cmc_source_receipt chk)"
        "csr_schema (cmc_source_receipt chk) = CANDIDATE_STATE_RECEIPT_SCHEMA_V1"
      and src: "csr_run_id (cmc_source_receipt chk) = cm_source_run_id mat"
        "csr_conversation_id (cmc_source_receipt chk) = cbf_conversation_id b"
        "art_locator (csr_patch (cmc_source_receipt chk)) = CANDIDATE_PATCH_LOCATOR"
        "authentic sha resolve (cm_source_patch mat) AK_CandidatePatch
          PARENT_CANDIDATE_PATCH_LOCATOR (cmc_patch_bytes chk)"
        "of_bytes sha (cmc_patch_bytes chk) = art_digest (csr_patch (cmc_source_receipt chk))"
        "cm_materialized_tree_oid mat = csr_candidate_tree_oid (cmc_source_receipt chk)"
        "cmc_source_run_id chk = cm_source_run_id mat"
      unfolding authentic_receipt_def by blast
    have schema: "csc_schema ob = CANDIDATE_STATE_CONTRACT_SCHEMA_V1"
      using m(5) by (simp add: same_candidate_def)
    have "resolve_command_binding_facts sha binding_of_json s resolve = Inr (Some b)"
      using m facts by blast
    moreover have "check_binding_identity s mat b ob = Inr ()"
      using m schema by (simp add: check_binding_identity_iff)
    moreover have "check_source_receipt mat b ob (cmc_source_receipt chk) = Inr ()"
      using m src by (simp add: check_source_receipt_iff [OF schema])
    moreover have "resolve_and_verify sha resolve (cm_source_receipt mat) AK_CandidateState
        copied_receipt_what = Inr rb"
      "resolve_and_verify sha resolve (cm_source_patch mat) AK_CandidatePatch copied_patch_what
        = Inr (cmc_patch_bytes chk)"
      using rb src by (simp_all add: resolve_and_verify_iff authentic_def)
    moreover have "parse_receipt receipt_of_json rb copied_receipt_what = Inr (cmc_source_receipt chk)"
      using rb by (simp add: parse_receipt_iff)
    ultimately show ?code
      using m src rb chk
      by (simp add: verify_candidate_state_materialized_def require_locator_def authentic_def)
  qed
qed

end
