(* ===== verification/Run_Replay.thy ===== *)
theory Run_Replay
  imports Run_Order Run_Candidate
begin

text \<open>
  Independent replay: \<^verbatim>\<open>crates/o7-run/src/replay.rs\<close>. The trait \<^verbatim>\<open>ArtifactResolver\<close> is the argument
  \<open>resolve\<close>; its contract (\<open>resolve\<close> reads the reference's locator and nothing else) is the locale
  \<open>artifact_resolver\<close>, interpreted on the one resolver of the source, \<open>RecordDirResolver\<close>.
  \<open>fs_read\<close> stands for \<^verbatim>\<open>std::fs::read\<close> on a path, \<open>to_vec\<close> for \<^verbatim>\<open>serde_json::to_vec\<close> on the state.
\<close>

section \<open>The record directory\<close>

fun is_normal :: "PathComponent \<Rightarrow> bool" where
  "is_normal (Normal _) = True"
| "is_normal _ = False"

definition confined :: "string \<Rightarrow> bool" where
  "confined locator \<longleftrightarrow> locator \<noteq> [] \<and> list_all is_normal (path_components locator)"

definition RecordDirResolver_resolve ::
  "(string \<Rightarrow> (string, bytes) result) \<Rightarrow> string \<Rightarrow> resolver" where
  "RecordDirResolver_resolve fs_read base a =
     (if \<not> confined (art_locator a)
        then Inl \<lparr>ae_locator = art_locator a,
                  ae_reason = ''locator escapes the record directory (absolute, `..`, or empty) - refused before I/O''\<rparr>
      else map_err (\<lambda>e. \<lparr>ae_locator = art_locator a, ae_reason = e\<rparr>)
             (fs_read (path_join base (art_locator a))))"

section \<open>Classification and errors\<close>

datatype Replayability = RP_LegacyNonReplayable | CanonicalReplayable | CanonicalMalformed

definition classify :: "RunEvent list \<Rightarrow> Replayability" where
  "classify events =
     (case events of
        [] \<Rightarrow> RP_LegacyNonReplayable
      | first # _ \<Rightarrow>
          if is_run_started (ev_kind first) \<and> ev_sequence first = 0
             \<and> ev_previous_event_digest first = genesis
          then CanonicalReplayable else CanonicalMalformed)"

record ReplayReport =
  rr_verdict :: Verdict
  rr_events_verified :: u64
  rr_artifacts_verified :: u64
  rr_final_event_digest :: Digest256
  rr_normalized_state_digest :: Digest256

datatype ReplayError =
    Reduce ReduceError
  | ChainBroken u64
  | EventDigestMismatch u64
  | ArtifactUnresolved ArtifactError
  | ArtifactDigestMismatch string
  | NotSealed
  | VerdictMismatch Verdict Verdict
  | LegacyNonReplayable
  | StateDigestUnavailable
  | CandidateSemantic CandidateVerifyError

section \<open>Verification\<close>

fun referenced_artifacts :: "RunEventKind \<Rightarrow> ArtifactRef list" where
  "referenced_artifacts (RunStarted contract task) =
     task # map pob_policy (rc_policy_obligations contract)"
| "referenced_artifacts (WorktreeCreated worktree) = [worktree]"
| "referenced_artifacts (PatchCaptured patch) = [patch]"
| "referenced_artifacts (PolicyChecked policy _) = [policy]"
| "referenced_artifacts (GateFinished _ _ (Some log)) = [log]"
| "referenced_artifacts (SandboxEvidenceCaptured _ _ report _) = [report]"
| "referenced_artifacts (ProviderSessionCaptured receipt) = [receipt]"
| "referenced_artifacts (CommandBindingCaptured binding) = [binding]"
| "referenced_artifacts (CandidateStateCaptured receipt) = [receipt]"
| "referenced_artifacts (CandidateStateMaterialized _ source_receipt source_patch _) =
     [source_receipt, source_patch]"
| "referenced_artifacts AgentStarted = []"
| "referenced_artifacts (AgentExited _) = []"
| "referenced_artifacts (GateStarted _) = []"
| "referenced_artifacts (GateFinished _ _ None) = []"
| "referenced_artifacts RunSealed = []"

definition check_link ::
  "(bytes \<Rightarrow> bytes) \<Rightarrow> Digest256 \<Rightarrow> RunEvent \<Rightarrow> (ReplayError, Digest256) result" where
  "check_link sha prev e =
     (if \<not> digest_is_consistent sha e then Inl (EventDigestMismatch (ev_sequence e))
      else if ev_previous_event_digest e \<noteq> prev then Inl (ChainBroken (ev_sequence e))
      else Inr (ev_event_digest e))"

definition artifact_id :: "ArtifactRef \<Rightarrow> string \<times> string" where
  "artifact_id a = (art_locator a, digest_str (art_digest a))"

definition note_artifact ::
  "ArtifactRef \<Rightarrow> (string \<times> string) set \<times> ArtifactRef list \<Rightarrow> (string \<times> string) set \<times> ArtifactRef list" where
  "note_artifact a = (\<lambda>(seen, unique).
     if artifact_id a \<in> seen then (seen, unique)
     else (insert (artifact_id a) seen, unique @ [a]))"

definition unique_artifacts :: "RunEvent list \<Rightarrow> ArtifactRef list" where
  "unique_artifacts events =
     snd (fold (\<lambda>e. fold note_artifact (referenced_artifacts (ev_kind e))) events ({}, []))"

definition check_artifact ::
  "(bytes \<Rightarrow> bytes) \<Rightarrow> resolver \<Rightarrow> ArtifactRef \<Rightarrow> (ReplayError, unit) result" where
  "check_artifact sha resolve a =
     and_then (map_err ArtifactUnresolved (resolve a)) (\<lambda>bs.
       if of_bytes sha bs \<noteq> art_digest a then Inl (ArtifactDigestMismatch (art_locator a))
       else Inr ())"

definition verify_prefix_core ::
  "(bytes \<Rightarrow> bytes) \<Rightarrow> RunEvent list \<Rightarrow> resolver \<Rightarrow> (ReplayError, RunState \<times> u64) result" where
  "verify_prefix_core sha events resolve =
     (if events = [] then Inl LegacyNonReplayable
      else and_then (try_fold (check_link sha) genesis events) (\<lambda>_.
           and_then (map_err Reduce (reduce_all sha events)) (\<lambda>s.
           let unique = unique_artifacts events in
           and_then (try_for_each (check_artifact sha resolve) unique) (\<lambda>_.
           Inr (s, of_nat (length unique))))))"

definition verify_prefix ::
  "(bytes \<Rightarrow> bytes) \<Rightarrow> (bytes \<Rightarrow> (string, CandidateStateReceiptV1) result)
     \<Rightarrow> (bytes \<Rightarrow> (string, CommandBindingFacts) result) \<Rightarrow> RunEvent list \<Rightarrow> resolver
     \<Rightarrow> (ReplayError, RunState \<times> u64) result" where
  "verify_prefix sha rj bj events resolve =
     and_then (verify_prefix_core sha events resolve) (\<lambda>(s, artifacts_verified).
       if st_candidate_state s \<noteq> None \<or> st_candidate_materialized s \<noteq> None then
         (case st_contract s of
            None \<Rightarrow> Inl (CandidateSemantic (CandidateVerifyError
                      (Reason ''candidate evidence is present but this run has no contract'')))
          | Some c \<Rightarrow>
              and_then (if st_candidate_state s \<noteq> None
                        then and_then (map_err CandidateSemantic
                               (verify_candidate_state_captured sha rj bj s c resolve)) (\<lambda>_. Inr ())
                        else Inr ()) (\<lambda>_.
              and_then (if st_candidate_materialized s \<noteq> None
                        then and_then (map_err CandidateSemantic
                               (verify_candidate_state_materialized sha rj bj s c resolve)) (\<lambda>_. Inr ())
                        else Inr ()) (\<lambda>_.
              Inr (s, artifacts_verified))))
       else Inr (s, artifacts_verified))"

datatype RecordVerdict =
    NoCanonicalStream
  | ValidUnsealed
  | ValidSealed ReplayReport
  | Invalid ReplayError

text \<open>\<^verbatim>\<open>events.last()\<close>\<close>

definition last_opt :: "'a list \<Rightarrow> 'a option" where
  "last_opt xs = (if xs = [] then None else Some (last xs))"

definition classify_record ::
  "(bytes \<Rightarrow> bytes) \<Rightarrow> (RunState \<Rightarrow> bytes option)
     \<Rightarrow> (bytes \<Rightarrow> (string, CandidateStateReceiptV1) result)
     \<Rightarrow> (bytes \<Rightarrow> (string, CommandBindingFacts) result) \<Rightarrow> RunEvent list \<Rightarrow> resolver
     \<Rightarrow> RecordVerdict" where
  "classify_record sha to_vec rj bj events resolve =
     (if events = [] then NoCanonicalStream
      else (case verify_prefix sha rj bj events resolve of
              Inl e \<Rightarrow> Invalid e
            | Inr (s, artifacts_verified) \<Rightarrow>
                (case st_verdict s of
                   None \<Rightarrow> ValidUnsealed
                 | Some verdict \<Rightarrow>
                     (case last_opt events of
                        None \<Rightarrow> Invalid LegacyNonReplayable
                      | Some lst \<Rightarrow>
                          (case normalized_digest sha to_vec s of
                             None \<Rightarrow> Invalid StateDigestUnavailable
                           | Some d \<Rightarrow>
                               ValidSealed \<lparr>rr_verdict = verdict,
                                 rr_events_verified = of_nat (length events),
                                 rr_artifacts_verified = artifacts_verified,
                                 rr_final_event_digest = ev_event_digest lst,
                                 rr_normalized_state_digest = d\<rparr>)))))"

definition replay ::
  "(bytes \<Rightarrow> bytes) \<Rightarrow> (RunState \<Rightarrow> bytes option)
     \<Rightarrow> (bytes \<Rightarrow> (string, CandidateStateReceiptV1) result)
     \<Rightarrow> (bytes \<Rightarrow> (string, CommandBindingFacts) result) \<Rightarrow> RunEvent list \<Rightarrow> resolver
     \<Rightarrow> (ReplayError, ReplayReport) result" where
  "replay sha to_vec rj bj events resolve =
     and_then (verify_prefix sha rj bj events resolve) (\<lambda>(s, artifacts_verified).
     and_then (ok_or (st_verdict s) NotSealed) (\<lambda>verdict.
     and_then (ok_or (last_opt events) LegacyNonReplayable) (\<lambda>lst.
     and_then (ok_or (normalized_digest sha to_vec s) StateDigestUnavailable) (\<lambda>d.
     Inr \<lparr>rr_verdict = verdict, rr_events_verified = of_nat (length events),
          rr_artifacts_verified = artifacts_verified,
          rr_final_event_digest = ev_event_digest lst,
          rr_normalized_state_digest = d\<rparr>))))"

definition replay_verify ::
  "(bytes \<Rightarrow> bytes) \<Rightarrow> (RunState \<Rightarrow> bytes option)
     \<Rightarrow> (bytes \<Rightarrow> (string, CandidateStateReceiptV1) result)
     \<Rightarrow> (bytes \<Rightarrow> (string, CommandBindingFacts) result) \<Rightarrow> RunEvent list \<Rightarrow> resolver \<Rightarrow> Verdict
     \<Rightarrow> (ReplayError, ReplayReport) result" where
  "replay_verify sha to_vec rj bj events resolve stored_verdict =
     and_then (replay sha to_vec rj bj events resolve) (\<lambda>report.
       if rr_verdict report \<noteq> stored_verdict
         then Inl (VerdictMismatch (rr_verdict report) stored_verdict)
       else Inr report)"

section \<open>The pass over the chain\<close>

lemma check_link_reachable:
  "reachable sha es s \<Longrightarrow> try_fold (check_link sha) genesis es = Inr (st_last_event_digest s)"
proof (induction rule: reachable.induct)
  case init
  show ?case by (simp add: initial_state_def)
next
  case (step es s e t)
  from step(2) have "digest_is_consistent sha e" "ev_previous_event_digest e = st_last_event_digest s"
    "st_last_event_digest t = ev_event_digest e"
    by (auto elim!: run_stepE simp: envelope_ok_def advance_def)
  with step(3) show ?case by (auto simp: try_fold_snoc_Inr check_link_def)
qed

section \<open>The distinct artifacts\<close>

definition references :: "RunEvent list \<Rightarrow> ArtifactRef list" where
  "references es = concat (map (\<lambda>e. referenced_artifacts (ev_kind e)) es)"

lemma fold_concat_map: "fold (\<lambda>e. fold f (g e)) es s = fold f (concat (map g es)) s"
  by (induction es arbitrary: s) simp_all

lemma note_artifact_fold:
  assumes "fold note_artifact xs (artifact_id ` set us, us) = (seen, vs)"
    and "distinct (map artifact_id us)"
  shows "distinct (map artifact_id vs) \<and> set vs \<subseteq> set us \<union> set xs
       \<and> artifact_id ` set vs = artifact_id ` (set us \<union> set xs)"
  using assms
proof (induction xs arbitrary: us)
  case (Cons x xs)
  show ?case
  proof (cases "artifact_id x \<in> artifact_id ` set us")
    case True
    with Cons.prems Cons.IH [of us] show ?thesis by (auto simp: note_artifact_def)
  next
    case False
    with Cons.prems Cons.IH [of "us @ [x]"] show ?thesis by (auto simp: note_artifact_def)
  qed
qed auto

lemma unique_artifacts_props:
  "distinct (map artifact_id (unique_artifacts es))"
  "set (unique_artifacts es) \<subseteq> set (references es)"
  "artifact_id ` set (unique_artifacts es) = artifact_id ` set (references es)"
proof -
  obtain seen where "fold note_artifact (references es) (artifact_id ` set [], []) =
      (seen, unique_artifacts es)"
    by (cases "fold note_artifact (references es) ({}, [])")
      (simp add: unique_artifacts_def fold_concat_map references_def)
  from note_artifact_fold [OF this]
  show "distinct (map artifact_id (unique_artifacts es))"
    "set (unique_artifacts es) \<subseteq> set (references es)"
    "artifact_id ` set (unique_artifacts es) = artifact_id ` set (references es)" by simp_all
qed

lemma length_unique_artifacts:
  "length (unique_artifacts es) = card (artifact_id ` set (references es))"
  using distinct_card [OF unique_artifacts_props(1)] unique_artifacts_props(3) by simp

section \<open>Every referenced artifact is checked\<close>

text \<open>The reference resolves to bytes with the digest it declares.\<close>

definition intact :: "(bytes \<Rightarrow> bytes) \<Rightarrow> resolver \<Rightarrow> ArtifactRef \<Rightarrow> bool" where
  "intact sha resolve a \<longleftrightarrow> (\<exists>bs. resolve a = Inr bs \<and> of_bytes sha bs = art_digest a)"

lemma check_artifact_iff: "check_artifact sha resolve a = Inr u \<longleftrightarrow> intact sha resolve a"
  by (auto simp: check_artifact_def intact_def)

text \<open>The contract of the trait: an artifact is read by its locator.\<close>

locale artifact_resolver =
  fixes resolve :: resolver
  assumes by_locator: "art_locator a = art_locator b \<Longrightarrow> resolve a = resolve b"
begin

text \<open>What replay accepts for a reference holds for every reference with the same identity.\<close>

lemma intact_id:
  assumes "artifact_id a = artifact_id b"
  shows "intact sha resolve a \<longleftrightarrow> intact sha resolve b"
proof -
  have "art_locator a = art_locator b" "art_digest a = art_digest b"
    using assms by (auto simp: artifact_id_def)
  then show ?thesis using by_locator [of a b] by (simp add: intact_def)
qed

lemma check_unique_iff:
  "try_for_each (check_artifact sha resolve) (unique_artifacts es) = Inr u \<longleftrightarrow>
   (\<forall>a \<in> set (references es). intact sha resolve a)"
proof -
  have "\<exists>b \<in> set (unique_artifacts es). artifact_id a = artifact_id b" if "a \<in> set (references es)" for a
    using that unique_artifacts_props(3) [of es] by (metis image_iff)
  then have "(\<forall>a \<in> set (unique_artifacts es). intact sha resolve a) \<longleftrightarrow>
      (\<forall>a \<in> set (references es). intact sha resolve a)"
    using unique_artifacts_props(2) [of es] intact_id by (meson subsetD)
  then show ?thesis by (simp add: try_for_each_Inr check_artifact_iff)
qed

lemma verify_prefix_core_iff:
  "verify_prefix_core sha es resolve = Inr (s, n) \<longleftrightarrow>
     es \<noteq> [] \<and> reduce_all sha es = Inr s \<and> (\<forall>a \<in> set (references es). intact sha resolve a)
     \<and> n = of_nat (card (artifact_id ` set (references es)))"
proof -
  have "reduce_all sha es = Inr s \<Longrightarrow> \<exists>d. try_fold (check_link sha) genesis es = Inr d"
    using check_link_reachable by (auto simp: reduce_all_iff_reachable)
  then show ?thesis
    by (auto simp: verify_prefix_core_def Let_def check_unique_iff length_unique_artifacts)
qed

text \<open>
  Full verification: the branch for a missing contract is never taken, and candidate evidence is
  accepted only when its content passes the semantic checks.
\<close>

lemma verify_prefix_iff:
  "verify_prefix sha rj bj es resolve = Inr (s, n) \<longleftrightarrow>
     verify_prefix_core sha es resolve = Inr (s, n)
     \<and> (\<forall>c. st_contract s = Some c \<longrightarrow>
          (st_candidate_state s \<noteq> None \<longrightarrow>
             (\<exists>r. verify_candidate_state_captured sha rj bj s c resolve = Inr r))
          \<and> (st_candidate_materialized s \<noteq> None \<longrightarrow>
             (\<exists>m. verify_candidate_state_materialized sha rj bj s c resolve = Inr m)))"
proof (cases "verify_prefix_core sha es resolve")
  case (Inl err)
  then show ?thesis by (simp add: verify_prefix_def)
next
  case (Inr p)
  then obtain t m where p: "verify_prefix_core sha es resolve = Inr (t, m)" by (cases p) simp
  then have "es \<noteq> []" "reachable sha es t"
    by (auto simp: verify_prefix_core_iff reduce_all_iff_reachable)
  then obtain c where c: "st_contract t = Some c" using reachable_contract(3) by blast
  show ?thesis
  proof (cases "t = s")
    case True
    with c have "st_contract s = Some c" by simp
    with True show ?thesis by (auto simp: verify_prefix_def p)
  next
    case False
    then show ?thesis by (auto simp: verify_prefix_def p c)
  qed
qed

end

interpretation record_dir: artifact_resolver "RecordDirResolver_resolve fs_read base" for fs_read base
  by unfold_locales (simp add: RecordDirResolver_resolve_def)

section \<open>Classification agrees with replay\<close>

lemma try_fold_InlD: "try_fold f s xs = Inl err \<Longrightarrow> \<exists>t. \<exists>x \<in> set xs. f t x = Inl err"
proof (induction xs arbitrary: s)
  case (Cons x xs)
  then show ?case by (cases "f s x") fastforce+
qed simp

lemma try_for_each_InlD: "try_for_each f xs = Inl err \<Longrightarrow> \<exists>x \<in> set xs. f x = Inl err"
proof (induction xs)
  case (Cons x xs)
  then show ?case by (cases "f x") auto
qed simp

lemma map_err_eq_Inl: "map_err g m = Inl e \<longleftrightarrow> (\<exists>x. m = Inl x \<and> e = g x)"
  by (cases m) auto

text \<open>On a non-empty stream verification never answers with one of the two verdicts reserved for
  legacy and unsealed records.\<close>

lemma verify_prefix_error:
  assumes "es \<noteq> []" and "verify_prefix sha rj bj es resolve = Inl err"
  shows "err \<noteq> LegacyNonReplayable \<and> err \<noteq> NotSealed"
proof -
  have link: "check_link sha d e = Inl err \<Longrightarrow> err \<noteq> LegacyNonReplayable \<and> err \<noteq> NotSealed" for d e
    by (auto simp: check_link_def split: if_splits)
  have art: "check_artifact sha resolve a = Inl err \<Longrightarrow> err \<noteq> LegacyNonReplayable \<and> err \<noteq> NotSealed" for a
    by (auto simp: check_artifact_def and_then_eq_Inl map_err_eq_Inl split: if_splits)
  consider (core) "verify_prefix_core sha es resolve = Inl err"
    | (cand) x where "err = CandidateSemantic x"
    using assms(2)
    by (auto simp: verify_prefix_def and_then_eq_Inl map_err_eq_Inl split: if_splits option.splits prod.splits)
  then show ?thesis
  proof cases
    case core
    then show ?thesis
      using assms(1) link art
      by (auto simp: verify_prefix_core_def and_then_eq_Inl map_err_eq_Inl Let_def
          dest!: try_fold_InlD try_for_each_InlD)
  qed simp
qed

fun record_verdict_of :: "(ReplayError, ReplayReport) result \<Rightarrow> RecordVerdict" where
  "record_verdict_of (Inr report) = ValidSealed report"
| "record_verdict_of (Inl LegacyNonReplayable) = NoCanonicalStream"
| "record_verdict_of (Inl NotSealed) = ValidUnsealed"
| "record_verdict_of (Inl err) = Invalid err"

lemma record_verdict_of_other:
  "err \<noteq> LegacyNonReplayable \<Longrightarrow> err \<noteq> NotSealed \<Longrightarrow> record_verdict_of (Inl err) = Invalid err"
  by (cases err) simp_all

lemma classify_record_replay:
  "classify_record sha to_vec rj bj es resolve =
     record_verdict_of (replay sha to_vec rj bj es resolve)"
proof (cases "es = []")
  case True
  then show ?thesis
    by (simp add: classify_record_def replay_def verify_prefix_def verify_prefix_core_def)
next
  case False
  show ?thesis
  proof (cases "verify_prefix sha rj bj es resolve")
    case (Inl err)
    then show ?thesis
      using verify_prefix_error [OF False Inl] False
      by (simp add: classify_record_def replay_def record_verdict_of_other)
  next
    case (Inr p)
    then show ?thesis using False
      by (cases p) (simp add: classify_record_def replay_def last_opt_def ok_or_def
          split: option.split)
  qed
qed

section \<open>Confinement\<close>

lemma confined_components:
  assumes "confined locator"
  obtains names where "path_components locator = map Normal names" "names \<noteq> []"
proof -
  have "\<exists>names. cs = map Normal names" if "list_all is_normal cs" for cs
    using that
  proof (induction cs)
    case (Cons c cs)
    then obtain names where "cs = map Normal names" by auto
    with Cons.prems show ?case by (cases c) (auto intro: exI [of _ "_ # names"])
  qed simp
  then obtain names where "path_components locator = map Normal names"
    using assms by (auto simp: confined_def)
  moreover have "path_components locator \<noteq> []"
    using assms path_components_ne by (simp add: confined_def)
  ultimately show ?thesis using that by auto
qed

lemma walk_append: "walk dir (cs @ ds) = walk (walk dir cs) ds"
  by (induction dir cs rule: walk.induct) simp_all

lemma confined_join:
  assumes "confined locator"
  shows "\<exists>names. names \<noteq> []
     \<and> walk cwd (path_components (path_join base locator)) = walk cwd (path_components base) @ names"
proof -
  obtain names where names: "path_components locator = map Normal names" "names \<noteq> []"
    using confined_components [OF assms] .
  have "path_components (path_join base locator) = path_components base @ map Normal names"
    using path_components_join [of locator base] assms names by (auto simp: confined_def)
  moreover have "walk d (map Normal names) = d @ names" for d
    by (induction names arbitrary: d) simp_all
  ultimately show ?thesis using names(2) by (auto simp: walk_append)
qed

end
