(* ===== verification/Replay_Properties.thy ===== *)
theory Replay_Properties
  imports Run_Properties Run_Replay
begin

text \<open>
  The properties of replay and of the candidate-state verification. The example record is the
  example stream of \<open>Run_Properties\<close> in a directory whose files hold their own path.
\<close>

section \<open>An example record\<close>

definition demo_fs :: "string \<Rightarrow> (string, bytes) result" where
  "demo_fs p = Inr (as_bytes p)"

definition demo_resolve :: resolver where
  "demo_resolve = RecordDirResolver_resolve demo_fs ''rec''"

definition demo_receipt :: "RunId \<Rightarrow> RunId option \<Rightarrow> CandidateStateReceiptV1" where
  "demo_receipt rid parent =
     \<lparr>csr_schema = 1,
      csr_repository_id = \<lparr>repo_git_common_dir = ''/r'', repo_dev = 1, repo_ino = 2\<rparr>,
      csr_base_commit = ''b'', csr_run_id = rid, csr_conversation_id = ''c'',
      csr_parent_run_id = parent, csr_candidate_tree_oid = ''oid'',
      csr_patch_kind = GitBinaryCumulativePatchV1,
      csr_patch = demo_ref ''candidate.patch'' AK_CandidatePatch\<rparr>"

definition demo_receipts :: "bytes \<Rightarrow> (string, CandidateStateReceiptV1) result" where
  "demo_receipts bs =
     (if bs = as_bytes ''rec/candidate_state_receipt.json''
        then Inr (demo_receipt (RunId ''run-1'') (Some (RunId ''run-0'')))
      else Inr (demo_receipt (RunId ''run-0'') None))"

definition demo_bindings :: "bytes \<Rightarrow> (string, CommandBindingFacts) result" where
  "demo_bindings bs =
     Inr \<lparr>cbf_schema = 1, cbf_command_id = ''cmd'', cbf_conversation_id = ''c'',
          cbf_parent_run_id = RunId ''run-0'', cbf_child_run_id = RunId ''run-1'',
          cbf_command_sha256 = ''00''\<rparr>"

definition demo_vec :: "RunState \<Rightarrow> bytes option" where
  "demo_vec s = Some []"

definition demo_refs_ok :: bool where
  "demo_refs_ok \<longleftrightarrow>
     list_all (list_all (\<lambda>a. confined (art_locator a) \<and> art_digest a = Digest256 ''00''))
       (map referenced_artifacts demo_kinds)"

lemma demo_ne: "demo_stream \<noteq> []"
  by (metis demo_length list.size(3) zero_neq_numeral)

lemma demo_refs: demo_refs_ok
  by code_simp

lemma zero_of_bytes: "of_bytes zero_sha bs = Digest256 ''00''"
  by (simp add: of_bytes_def zero_sha_def hex_byte_total HEX_def)

lemma demo_resolve_confined:
  "confined (art_locator a) \<Longrightarrow> demo_resolve a = Inr (as_bytes (path_join ''rec'' (art_locator a)))"
  by (simp add: demo_resolve_def RecordDirResolver_resolve_def demo_fs_def)

lemma demo_intact: "\<forall>a \<in> set (references demo_stream). intact zero_sha demo_resolve a"
proof -
  have "references demo_stream = concat (map referenced_artifacts (map ev_kind demo_stream))"
    by (simp add: references_def comp_def)
  then show ?thesis
    using demo_refs unfolding demo_refs_ok_def demo_kinds_map
    by (auto simp: list_all_iff intact_def demo_resolve_confined zero_of_bytes)
qed

text \<open>The candidate checks read four fields of the state.\<close>

definition demo_view :: RunState where
  "demo_view = initial_state\<lparr>st_run_id := Some (RunId ''run-1''),
     st_command_binding := Some (demo_ref ''command_binding.json'' AK_CommandBinding),
     st_candidate_state := Some (demo_ref ''candidate_state_receipt.json'' AK_CandidateState),
     st_candidate_materialized :=
       Some \<lparr>cm_source_run_id = RunId ''run-0'',
             cm_source_receipt = demo_ref ''parent_candidate_receipt.json'' AK_CandidateState,
             cm_source_patch = demo_ref ''parent_candidate.patch'' AK_CandidatePatch,
             cm_materialized_tree_oid = ''oid''\<rparr>\<rparr>"

definition demo_candidate_ok :: bool where
  "demo_candidate_ok \<longleftrightarrow>
     (case verify_candidate_state_captured zero_sha demo_receipts demo_bindings demo_view
             demo_contract demo_resolve of Inl _ \<Rightarrow> False | Inr _ \<Rightarrow> True)
     \<and> (case verify_candidate_state_materialized zero_sha demo_receipts demo_bindings demo_view
             demo_contract demo_resolve of Inl _ \<Rightarrow> False | Inr _ \<Rightarrow> True)"

lemma demo_candidate: demo_candidate_ok
  by code_simp

lemma candidate_checks_cong:
  assumes "st_run_id s = st_run_id t" "st_command_binding s = st_command_binding t"
    and "st_candidate_state s = st_candidate_state t"
    and "st_candidate_materialized s = st_candidate_materialized t"
  shows "verify_candidate_state_captured sha rj bj s c r = verify_candidate_state_captured sha rj bj t c r"
    and "verify_candidate_state_materialized sha rj bj s c r =
         verify_candidate_state_materialized sha rj bj t c r"
  unfolding verify_candidate_state_captured_def verify_candidate_state_materialized_def
    resolve_command_binding_facts_def check_binding_identity_def assms
  by (rule refl)+

lemma demo_view_fields:
  "verify_candidate_state_captured sha rj bj demo_state c r =
     verify_candidate_state_captured sha rj bj demo_view c r"
  "verify_candidate_state_materialized sha rj bj demo_state c r =
     verify_candidate_state_materialized sha rj bj demo_view c r"
  by (rule candidate_checks_cong; simp add: demo_view_def demo_fields)+

lemma demo_verified:
  "\<exists>n. verify_prefix zero_sha demo_receipts demo_bindings demo_stream demo_resolve = Inr (demo_state, n)"
proof -
  have "\<exists>n. verify_prefix_core zero_sha demo_stream demo_resolve = Inr (demo_state, n)"
    using demo_reduced demo_intact demo_ne unfolding demo_resolve_def
    by (auto simp: record_dir.verify_prefix_core_iff)
  moreover have "\<exists>r. verify_candidate_state_captured zero_sha demo_receipts demo_bindings
      demo_state demo_contract demo_resolve = Inr r"
    "\<exists>r. verify_candidate_state_materialized zero_sha demo_receipts demo_bindings
      demo_state demo_contract demo_resolve = Inr r"
    using demo_candidate by (auto simp: demo_candidate_ok_def demo_view_fields split: sum.splits)
  ultimately show ?thesis
    using demo_sealed(2) unfolding demo_resolve_def
    by (auto simp: record_dir.verify_prefix_iff)
qed

lemma read_binding:
  assumes "reachable sha es s"
  shows "st_command_binding s = Some b \<longleftrightarrow> CommandBindingCaptured b \<in> kinds es"
proof -
  have "wr_binding k = Some b \<longleftrightarrow> k = CommandBindingCaptured b" for k by (cases k) auto
  then show ?thesis using binding_slot.recorded [OF assms, of b] by simp
qed

section \<open>Replay\<close>

text \<open>
  C5. Verification of a stored prefix is exact: with the record directory as resolver it succeeds
  exactly on the non-empty streams the reducer accepts all of whose artifact references, also
  the ones skipped as duplicates, resolve to bytes with the declared digest; it returns the reduced
  state and the number of distinct references.
\<close>

theorem verify_prefix_core_exact:
  "verify_prefix_core sha es (RecordDirResolver_resolve fs_read base) = Inr (s, n) \<longleftrightarrow>
     es \<noteq> [] \<and> reduce_all sha es = Inr s
     \<and> (\<forall>e \<in> set es. \<forall>a \<in> set (referenced_artifacts (ev_kind e)).
          \<exists>bs. RecordDirResolver_resolve fs_read base a = Inr bs \<and> of_bytes sha bs = art_digest a)
     \<and> n = of_nat (card (artifact_id ` set (references es)))"
  by (auto simp: record_dir.verify_prefix_core_iff references_def intact_def)

theorem verify_prefix_core_exact_witness:
  "\<exists>n. verify_prefix_core zero_sha demo_stream (RecordDirResolver_resolve demo_fs ''rec'') =
     Inr (demo_state, n)"
  using verify_prefix_core_exact [of zero_sha demo_stream demo_fs "''rec''" demo_state]
    demo_reduced demo_intact demo_ne
  by (auto simp: references_def intact_def demo_resolve_def)

text \<open>
  C6. A verified replay reports the truth about the record: the stored verdict is the verdict the
  specification assigns to the contract and the recorded events, the run is sealed by its last
  event, whose digest is reported, every event was counted, and every referenced artifact is
  intact.
\<close>

theorem replay_verify_sound:
  assumes "replay_verify sha to_vec rj bj es (RecordDirResolver_resolve fs_read base) stored = Inr report"
  shows "\<exists>c a. ev_kind (hd es) = RunStarted c a \<and> stored = spec_verdict c (kinds es)
    \<and> rr_verdict report = stored
    \<and> ev_kind (last es) = RunSealed \<and> rr_final_event_digest report = ev_event_digest (last es)
    \<and> rr_events_verified report = of_nat (length es)
    \<and> (\<forall>e \<in> set es. \<forall>x \<in> set (referenced_artifacts (ev_kind e)).
         intact sha (RecordDirResolver_resolve fs_read base) x)"
proof -
  let ?res = "RecordDirResolver_resolve fs_read base"
  obtain s n v where vp: "verify_prefix sha rj bj es ?res = Inr (s, n)" and v: "st_verdict s = Some v"
    and report: "rr_verdict report = v" "v = stored"
      "rr_events_verified report = of_nat (length es)"
      "rr_final_event_digest report = ev_event_digest (last es)"
    using assms by (auto simp: replay_verify_def replay_def last_opt_def split: if_splits)
  have ne: "es \<noteq> []" and red: "reachable sha es s"
    and arts: "\<forall>a \<in> set (references es). intact sha ?res a"
    using vp by (auto simp: record_dir.verify_prefix_iff record_dir.verify_prefix_core_iff
        reduce_all_iff_reachable)
  have "is_sealed s"
    using reachable_verdict [OF red] v by (auto simp: is_sealed_def split: if_splits)
  moreover obtain c a where c: "ev_kind (hd es) = RunStarted c a" "st_contract s = Some c"
    using reachable_contract(3) [OF red ne] by blast
  ultimately have "v = spec_verdict c (kinds es)" "ev_kind (last es) = RunSealed"
    using sealed_verdict [OF red] seal_last [OF red] v by auto
  with report c(1) arts show ?thesis by (auto simp: references_def)
qed

lemma demo_replayed:
  "\<exists>report. replay_verify zero_sha demo_vec demo_receipts demo_bindings demo_stream demo_resolve V_Pass
     = Inr report"
proof -
  obtain n where "verify_prefix zero_sha demo_receipts demo_bindings demo_stream demo_resolve =
      Inr (demo_state, n)" using demo_verified by blast
  with demo_ne demo_sealed(3) show ?thesis
    by (simp add: replay_verify_def replay_def last_opt_def normalized_digest_def demo_vec_def)
qed

theorem replay_verify_sound_witness:
  "ev_kind (last demo_stream) = RunSealed \<and> (\<exists>c. V_Pass = spec_verdict c (kinds demo_stream))"
  using demo_replayed replay_verify_sound unfolding demo_resolve_def by blast

text \<open>
  Classification of a stored record is the replay, case by case: \<open>ValidSealed\<close> carries exactly
  the report of a successful replay, \<open>ValidUnsealed\<close> is a replay that fails only for the missing
  seal, \<open>NoCanonicalStream\<close> the empty stream, and every other failure is \<open>Invalid\<close> with its error.
\<close>

lemma classify_record_is_replay:
  "classify_record sha to_vec rj bj es resolve =
     record_verdict_of (replay sha to_vec rj bj es resolve)"
  by (rule classify_record_replay)

section \<open>Candidate evidence\<close>

text \<open>
  A verified record that captured a candidate state has an authentic receipt, at the canonical
  locator, that names this run, agrees with the contract's conversation, repository, base commit
  and patch kind, names its parent exactly as the command binding does (none for an initial run),
  and whose nested patch is authentic too.
\<close>

lemma captured_candidate_authentic:
  assumes "verify_prefix sha rj bj es (RecordDirResolver_resolve fs_read base) = Inr (s, n)"
    and "CandidateStateCaptured r \<in> kinds es"
  shows "\<exists>c ob receipt facts. st_contract s = Some c \<and> rc_candidate_state c = Some ob
    \<and> authentic_receipt sha rj (RecordDirResolver_resolve fs_read base) r
         CANDIDATE_STATE_RECEIPT_LOCATOR receipt
    \<and> same_candidate receipt ob \<and> st_run_id s = Some (csr_run_id receipt)
    \<and> resolve_command_binding_facts sha bj s (RecordDirResolver_resolve fs_read base) = Inr facts
    \<and> lineage_ok receipt facts
    \<and> (\<exists>bs. authentic sha (RecordDirResolver_resolve fs_read base) (csr_patch receipt)
              AK_CandidatePatch CANDIDATE_PATCH_LOCATOR bs)"
proof -
  have red: "reachable sha es s" and ne: "es \<noteq> []"
    using assms(1) by (auto simp: record_dir.verify_prefix_iff record_dir.verify_prefix_core_iff
        reduce_all_iff_reachable)
  obtain c where c: "st_contract s = Some c" using reachable_contract(3) [OF red ne] by blast
  have st: "st_candidate_state s = Some r" using read_captured [OF red] assms(2) by simp
  with assms(1) c obtain receipt where
    "verify_candidate_state_captured sha rj bj s c (RecordDirResolver_resolve fs_read base) = Inr receipt"
    by (auto simp: record_dir.verify_prefix_iff)
  with c st show ?thesis unfolding candidate_captured_iff by auto
qed

text \<open>
  C8. A verified record that materialized a prior candidate proves its immediate lineage: its own
  authentic command binding names this run as child and the source as parent; the copied receipt
  is authentic and is the source's; the copied patch has the digest that receipt names; and the
  materialized tree is the one that receipt claims.
\<close>

theorem materialized_candidate_authentic:
  assumes "verify_prefix sha rj bj es (RecordDirResolver_resolve fs_read base) = Inr (s, n)"
    and "CandidateStateMaterialized source rr rp oid \<in> kinds es"
  shows "\<exists>b bref src bs. CommandBindingCaptured bref \<in> kinds es
    \<and> authentic_binding sha bj (RecordDirResolver_resolve fs_read base) bref b
    \<and> st_run_id s = Some (cbf_child_run_id b) \<and> cbf_parent_run_id b = source
    \<and> authentic_receipt sha rj (RecordDirResolver_resolve fs_read base) rr
         PARENT_CANDIDATE_RECEIPT_LOCATOR src
    \<and> csr_run_id src = source \<and> csr_conversation_id src = cbf_conversation_id b
    \<and> csr_candidate_tree_oid src = oid
    \<and> authentic sha (RecordDirResolver_resolve fs_read base) rp AK_CandidatePatch
         PARENT_CANDIDATE_PATCH_LOCATOR bs
    \<and> of_bytes sha bs = art_digest (csr_patch src)"
proof -
  let ?res = "RecordDirResolver_resolve fs_read base"
  have red: "reachable sha es s" and ne: "es \<noteq> []"
    using assms(1) by (auto simp: record_dir.verify_prefix_iff record_dir.verify_prefix_core_iff
        reduce_all_iff_reachable)
  obtain c where c: "st_contract s = Some c" using reachable_contract(3) [OF red ne] by blast
  have "wr_materialized (CandidateStateMaterialized source rr rp oid) =
      Some \<lparr>cm_source_run_id = source, cm_source_receipt = rr, cm_source_patch = rp,
            cm_materialized_tree_oid = oid\<rparr>" by simp
  with assms(2) have mat: "st_candidate_materialized s =
      Some \<lparr>cm_source_run_id = source, cm_source_receipt = rr, cm_source_patch = rp,
            cm_materialized_tree_oid = oid\<rparr>"
    using materialized_slot.recorded [OF red] by blast
  with assms(1) c obtain chk where
    "verify_candidate_state_materialized sha rj bj s c ?res = Inr chk"
    by (auto simp: record_dir.verify_prefix_iff)
  then obtain b bref where b: "st_command_binding s = Some bref" "authentic_binding sha bj ?res bref b"
      "st_run_id s = Some (cbf_child_run_id b)" "source = cbf_parent_run_id b"
      "authentic_receipt sha rj ?res rr PARENT_CANDIDATE_RECEIPT_LOCATOR (cmc_source_receipt chk)"
      "csr_run_id (cmc_source_receipt chk) = source"
      "csr_conversation_id (cmc_source_receipt chk) = cbf_conversation_id b"
      "authentic sha ?res rp AK_CandidatePatch PARENT_CANDIDATE_PATCH_LOCATOR (cmc_patch_bytes chk)"
      "of_bytes sha (cmc_patch_bytes chk) = art_digest (csr_patch (cmc_source_receipt chk))"
      "oid = csr_candidate_tree_oid (cmc_source_receipt chk)"
    unfolding candidate_materialized_iff using mat by auto
  moreover have "CommandBindingCaptured bref \<in> kinds es"
    using read_binding [OF red, of bref] b(1) by blast
  ultimately show ?thesis by metis
qed

theorem materialized_candidate_authentic_witness:
  "\<exists>src. authentic_receipt zero_sha demo_receipts demo_resolve
     (demo_ref ''parent_candidate_receipt.json'' AK_CandidateState) PARENT_CANDIDATE_RECEIPT_LOCATOR src
     \<and> csr_candidate_tree_oid src = ''oid''"
proof -
  have "CandidateStateMaterialized (RunId ''run-0'')
      (demo_ref ''parent_candidate_receipt.json'' AK_CandidateState)
      (demo_ref ''parent_candidate.patch'' AK_CandidatePatch) ''oid'' \<in> set (map ev_kind demo_stream)"
    unfolding demo_kinds_map by (simp add: demo_kinds_def)
  moreover obtain n where "verify_prefix zero_sha demo_receipts demo_bindings demo_stream
      (RecordDirResolver_resolve demo_fs ''rec'') = Inr (demo_state, n)"
    using demo_verified unfolding demo_resolve_def by blast
  ultimately show ?thesis
    using materialized_candidate_authentic unfolding demo_resolve_def set_map by meson
qed

section \<open>The record directory\<close>

text \<open>
  Confinement: the record-directory resolver either refuses a locator without reading
  anything, whatever the file system, or reads exactly one path, and that path leads strictly
  below the record directory from any working directory.
\<close>

lemma resolver_confined:
  "(\<exists>err. \<forall>fs_read. RecordDirResolver_resolve fs_read base a = Inl err)
   \<or> (\<exists>path. (\<forall>fs_read. RecordDirResolver_resolve fs_read base a =
                 map_err (\<lambda>e. \<lparr>ae_locator = art_locator a, ae_reason = e\<rparr>) (fs_read path))
       \<and> (\<forall>cwd. \<exists>names. names \<noteq> []
            \<and> walk cwd (path_components path) = walk cwd (path_components base) @ names))"
proof (cases "confined (art_locator a)")
  case True
  then show ?thesis
    using confined_join [OF True, of _ base]
    by (intro disjI2 exI [of _ "path_join base (art_locator a)"])
      (simp add: RecordDirResolver_resolve_def)
qed (simp add: RecordDirResolver_resolve_def)

text \<open>
  The cheap classification never calls a verifiable record legacy or malformed: every
  non-empty stream the reducer accepts is \<open>CanonicalReplayable\<close>, and only the empty stream is
  legacy.
\<close>

lemma classify_accepted:
  assumes "reduce_all sha es = Inr s"
  shows "classify es = (if es = [] then RP_LegacyNonReplayable else CanonicalReplayable)"
proof (cases es)
  case (Cons e es')
  have r: "reachable sha es s" using assms by (simp add: reduce_all_iff_reachable)
  show ?thesis
    using reachable_contract(3) [OF r] reachable_sequence [OF r, of 0] reachable_link [OF r, of 0] Cons
    by (auto simp: classify_def)
qed (simp add: classify_def)

lemma classify_demo: "classify demo_stream = CanonicalReplayable"
  using classify_accepted [OF demo_reduced] demo_ne by simp

end
