(* ===== verification/Run_Build.thy ===== *)
theory Run_Build
  imports Run_Replay
begin

text \<open>
  How \<^verbatim>\<open>o7 run\<close> produces a record: the gate manifest and its steps (\<^verbatim>\<open>src/gate.rs\<close>), step verdicts and their
  reduction (\<^verbatim>\<open>src/verdict.rs\<close>), the contract and the event stream (\<^verbatim>\<open>src/events.rs\<close>), and the order in
  which \<open>execute\<close> (\<^verbatim>\<open>src/main.rs\<close>, the path without a ledger) writes the record (\<^verbatim>\<open>src/record.rs\<close>). Files are a store from
  paths to bytes; \<open>writable\<close> says where a write succeeds, \<open>bash\<close> what running a step's command gave, with
  its output as text, and \<open>clock\<close> what the \<open>n\<close>-th event reads from the system clock (\<open>None\<close> before the
  epoch or beyond \<^verbatim>\<open>i64\<close>).
\<close>

section \<open>Verdicts\<close>

datatype MetaVerdict = MV_Pass | MV_Fail | MV_Error | MV_Warn | MV_Blocked | MV_NotApplicable

record StepVerdict =
  sv_name :: string
  sv_required :: bool
  sv_verdict :: MetaVerdict
  sv_exit_code :: "i32 option"
  sv_log :: string
  sv_waived :: "string option"

definition Verdict_reduce :: "StepVerdict list \<Rightarrow> MetaVerdict" where
  "Verdict_reduce steps =
     (if list_ex (\<lambda>s. sv_verdict s = MV_Error) steps then MV_Error
      else if list_ex (\<lambda>s. sv_required s \<and> sv_verdict s = MV_Fail) steps then MV_Fail
      else if list_ex (\<lambda>s. sv_required s \<and> sv_waived s = None
                          \<and> sv_verdict s \<in> {MV_Blocked, MV_NotApplicable}) steps then MV_Blocked
      else MV_Pass)"

section \<open>Errors\<close>

datatype BuildError =
    B_BlankName
  | B_DuplicateName string
  | B_LogCollision string string string
  | B_GateId IdError
  | B_RunId IdError
  | B_EventId IdError
  | B_Clock
  | B_SequenceOverflow
  | B_Read string
  | B_Write string
  | B_Reduction ReduceError
  | B_NotSealed
  | B_NotCanonical MetaVerdict
  | B_Agent string
  | B_Mkdir string
  | B_Json
  | B_Utf8 string
  | B_Line nat
  | B_Meta
  | B_Replay ReplayError

section \<open>The manifest\<close>

record GateStep =
  gs_name :: string
  gs_cmd :: string
  gs_required :: bool
  gs_env :: "string option"
  gs_waive_reason :: "string option"

record GateManifest =
  gm_schema :: u32
  gm_gate :: "GateStep list"

text \<open>
  \<open>sanitize\<close> replaces every character but ASCII letters, digits, \<^verbatim>\<open>-\<close> and \<^verbatim>\<open>_\<close> by one \<^verbatim>\<open>-\<close>. On UTF-8 bytes, a
  character is its leading byte; continuation bytes (128 to 191) go with it.
\<close>

definition is_continuation :: "char \<Rightarrow> bool" where
  "is_continuation c \<longleftrightarrow> 128 \<le> (of_char c :: nat) \<and> (of_char c :: nat) < 192"

definition log_char :: "char \<Rightarrow> bool" where
  "log_char c \<longleftrightarrow>
     (let n = (of_char c :: nat) in
      48 \<le> n \<and> n \<le> 57 \<or> 65 \<le> n \<and> n \<le> 90 \<or> 97 \<le> n \<and> n \<le> 122 \<or> n = 45 \<or> n = 95)"

definition sanitize :: "string \<Rightarrow> string" where
  "sanitize s = map (\<lambda>c. if log_char c then c else CHR ''-'') (filter (\<lambda>c. \<not> is_continuation c) s)"

text \<open>The loop of \<open>validate\<close>, with the names seen and the log names with the step that took each.\<close>

fun validate_steps :: "string set \<Rightarrow> (string \<rightharpoonup> string) \<Rightarrow> GateStep list \<Rightarrow> (BuildError, unit) result" where
  "validate_steps names logs [] = Inr ()"
| "validate_steps names logs (step # rest) =
     (if trim_is_empty (gs_name step) then Inl B_BlankName
      else if gs_name step \<in> names then Inl (B_DuplicateName (gs_name step))
      else
        let log = sanitize (gs_name step) in
        (case logs log of
           Some prev \<Rightarrow> Inl (B_LogCollision prev (gs_name step) log)
         | None \<Rightarrow> validate_steps (insert (gs_name step) names) (logs(log \<mapsto> gs_name step)) rest))"

definition GateManifest_validate :: "GateManifest \<Rightarrow> (BuildError, unit) result" where
  "GateManifest_validate m = validate_steps {} Map.empty (gm_gate m)"

section \<open>Running the steps\<close>

type_synonym Store = "string \<rightharpoonup> bytes"

definition store_read :: "Store \<Rightarrow> string \<Rightarrow> (string, bytes) result" where
  "store_read fs p = (case fs p of Some bs \<Rightarrow> Inr bs | None \<Rightarrow> Inl ''No such file or directory'')"

definition store_write :: "(string \<Rightarrow> bool) \<Rightarrow> string \<Rightarrow> bytes \<Rightarrow> Store \<Rightarrow> (BuildError, Store) result" where
  "store_write writable p bs fs = (if writable p then Inr (fs(p \<mapsto> bs)) else Inl (B_Write p))"

text \<open>What running \<^verbatim>\<open>bash -lc\<close> gave: success, exit code and combined output, or a failed spawn.\<close>

datatype BashRun = Ran bool "i32 option" string | SpawnFailed string

definition waived_step :: "GateStep \<Rightarrow> string option" where
  "waived_step step =
     (case gs_waive_reason step of
        Some reason \<Rightarrow> if trim_is_empty reason then None else Some reason
      | None \<Rightarrow> None)"

definition run_one_step ::
  "(GateStep \<Rightarrow> BashRun) \<Rightarrow> (string \<Rightarrow> bool) \<Rightarrow> string \<Rightarrow> GateStep \<Rightarrow> Store \<Rightarrow> (BuildError, StepVerdict \<times> Store) result" where
  "run_one_step bash writable gate_out step fs =
     (if gs_env step = Some ''windows'' then
        Inr (\<lparr>sv_name = gs_name step, sv_required = gs_required step,
              sv_verdict = (if waived_step step = None then MV_Blocked else MV_NotApplicable),
              sv_exit_code = None, sv_log = [], sv_waived = waived_step step\<rparr>, fs)
      else
        let (verdict, exit_code, combined) =
              (case bash step of
                 Ran success code output \<Rightarrow> (if success then MV_Pass else MV_Fail, code, output)
               | SpawnFailed e \<Rightarrow> (MV_Error, None, ''failed to spawn bash: '' @ e));
            log_name = sanitize (gs_name step) @ ''.log'' in
        and_then (store_write writable (path_join gate_out log_name) (as_bytes combined) fs) (\<lambda>fs'.
          Inr (\<lparr>sv_name = gs_name step, sv_required = gs_required step, sv_verdict = verdict,
                sv_exit_code = exit_code, sv_log = ''gate/'' @ log_name, sv_waived = None\<rparr>, fs')))"

fun run_steps ::
  "(GateStep \<Rightarrow> BashRun) \<Rightarrow> (string \<Rightarrow> bool) \<Rightarrow> string \<Rightarrow> GateStep list \<Rightarrow> Store
     \<Rightarrow> (BuildError, StepVerdict list \<times> Store) result" where
  "run_steps bash writable gate_out [] fs = Inr ([], fs)"
| "run_steps bash writable gate_out (step # rest) fs =
     and_then (run_one_step bash writable gate_out step fs) (\<lambda>(v, fs1).
     and_then (run_steps bash writable gate_out rest fs1) (\<lambda>(vs, fs2). Inr (v # vs, fs2)))"

definition GateManifest_run ::
  "(string \<Rightarrow> bool) \<Rightarrow> (GateStep \<Rightarrow> BashRun) \<Rightarrow> (string \<Rightarrow> bool) \<Rightarrow> string \<Rightarrow> GateManifest \<Rightarrow> Store
     \<Rightarrow> (BuildError, StepVerdict list \<times> Store) result" where
  "GateManifest_run mkdir bash writable gate_out m fs =
     and_then (GateManifest_validate m) (\<lambda>_.
       if mkdir gate_out then run_steps bash writable gate_out (gm_gate m) fs else Inl (B_Mkdir gate_out))"

section \<open>The contract\<close>

definition RUNNER_ENVIRONMENT :: string where
  "RUNNER_ENVIRONMENT = ''linux''"

definition EVENTS_FILE :: string where
  "EVENTS_FILE = ''events.jsonl''"

definition build_obligation :: "GateStep \<Rightarrow> (BuildError, GateObligation) result" where
  "build_obligation step =
     and_then (map_err B_GateId (GateId_new (gs_name step))) (\<lambda>gate.
       Inr \<lparr>gob_gate = gate,
            gob_requirement = (if gs_required step then GR_Required else GR_Optional),
            gob_applicability =
              (case (gs_env step, gs_waive_reason step) of
                 (Some env, Some reason) \<Rightarrow>
                   if env = ''windows'' \<and> \<not> trim_is_empty reason
                   then Waived RUNNER_ENVIRONMENT reason else Applicable
               | _ \<Rightarrow> Applicable)\<rparr>)"

definition build_contract :: "GateManifest \<Rightarrow> (BuildError, RunContract) result" where
  "build_contract m =
     and_then (GateManifest_validate m) (\<lambda>_.
     and_then (try_map build_obligation (gm_gate m)) (\<lambda>gates.
       Inr \<lparr>rc_gate_obligations = gates, rc_policy_obligations = [], rc_sandbox_requirements = [],
            rc_agent = AO_Required, rc_runner_environment = RUNNER_ENVIRONMENT,
            rc_candidate_state = None\<rparr>))"

section \<open>The stream\<close>

definition artifact :: "(bytes \<Rightarrow> bytes) \<Rightarrow> ArtifactKind \<Rightarrow> string \<Rightarrow> bytes \<Rightarrow> ArtifactRef" where
  "artifact sha kind locator bs = \<lparr>art_kind = kind, art_locator = locator, art_digest = of_bytes sha bs\<rparr>"

record EventChain =
  ec_run_id :: RunId
  ec_seq :: u64
  ec_prev :: Digest256
  ec_out :: "RunEvent list"

definition EventChain_new :: "RunId \<Rightarrow> EventChain" where
  "EventChain_new rid = \<lparr>ec_run_id = rid, ec_seq = 0, ec_prev = genesis, ec_out = []\<rparr>"

definition minted_id :: "RunId \<Rightarrow> u64 \<Rightarrow> string" where
  "minted_id rid sq = run_id_str rid @ ''-e'' @ decimal (unat sq)"

definition EventChain_push ::
  "(bytes \<Rightarrow> bytes) \<Rightarrow> (u64 \<Rightarrow> i64 option) \<Rightarrow> RunEventKind \<Rightarrow> EventChain
     \<Rightarrow> (BuildError, RunEvent \<times> EventChain) result" where
  "EventChain_push sha clock kind ch =
     and_then (map_err B_EventId (RunEventId_new (minted_id (ec_run_id ch) (ec_seq ch)))) (\<lambda>event_id.
     and_then (ok_or (clock (ec_seq ch)) B_Clock) (\<lambda>timestamp_millis.
     let draft = \<lparr>ev_event_id = event_id, ev_schema_version = RUN_EVENT_SCHEMA_VERSION,
           ev_run_id = ec_run_id ch, ev_sequence = ec_seq ch, ev_previous_event_digest = ec_prev ch,
           ev_event_digest = genesis, ev_timestamp_millis = timestamp_millis, ev_kind = kind\<rparr>;
         event = draft\<lparr>ev_event_digest := compute_digest sha draft\<rparr> in
     if ec_seq ch = - 1 then Inl B_SequenceOverflow
     else Inr (event, ch\<lparr>ec_prev := ev_event_digest event, ec_seq := ec_seq ch + 1,
                         ec_out := ec_out ch @ [event]\<rparr>)))"

fun gate_outcome :: "MetaVerdict \<Rightarrow> GateOutcome" where
  "gate_outcome MV_Pass = GO_Pass"
| "gate_outcome MV_Fail = GO_Fail"
| "gate_outcome MV_Warn = GO_Warn"
| "gate_outcome MV_Blocked = GO_Blocked"
| "gate_outcome MV_NotApplicable = GO_NotApplicable"
| "gate_outcome MV_Error = GO_Error"

record AgentRun =
  ar_stdout :: string
  ar_exit_code :: "i32 option"
  ar_session_id :: "string option"

definition agent_outcome :: "AgentRun \<Rightarrow> AgentOutcome" where
  "agent_outcome agent =
     (case ar_exit_code agent of
        Some code \<Rightarrow> ExitedNormally code
      | None \<Rightarrow> BoundaryFailure ''agent exit status carried no exit code (signal-terminated; signal not captured by the MVP)'')"

definition executed :: "StepVerdict \<Rightarrow> bool" where
  "executed step \<longleftrightarrow> sv_verdict step \<notin> {MV_Blocked, MV_NotApplicable}"

definition push_kind ::
  "(bytes \<Rightarrow> bytes) \<Rightarrow> (u64 \<Rightarrow> i64 option) \<Rightarrow> EventChain \<Rightarrow> RunEventKind \<Rightarrow> (BuildError, EventChain) result" where
  "push_kind sha clock ch kind = and_then (EventChain_push sha clock kind ch) (\<lambda>(_, ch'). Inr ch')"

definition step_log ::
  "(bytes \<Rightarrow> bytes) \<Rightarrow> Store \<Rightarrow> string \<Rightarrow> StepVerdict \<Rightarrow> (BuildError, ArtifactRef option) result" where
  "step_log sha fs dir step =
     (if sv_log step = [] then Inr None
      else and_then (map_err B_Read (store_read fs (path_join dir (sv_log step)))) (\<lambda>bs.
             Inr (Some (artifact sha AK_GateLog (sv_log step) bs))))"

definition push_step ::
  "(bytes \<Rightarrow> bytes) \<Rightarrow> (u64 \<Rightarrow> i64 option) \<Rightarrow> Store \<Rightarrow> string \<Rightarrow> EventChain \<Rightarrow> StepVerdict
     \<Rightarrow> (BuildError, EventChain) result" where
  "push_step sha clock fs dir ch step =
     (if \<not> executed step then Inr ch
      else
        and_then (map_err B_GateId (GateId_new (sv_name step))) (\<lambda>gate.
        and_then (step_log sha fs dir step) (\<lambda>log.
        and_then (push_kind sha clock ch (GateStarted gate)) (\<lambda>ch1.
        push_kind sha clock ch1 (GateFinished gate (gate_outcome (sv_verdict step)) log)))))"

definition build_events ::
  "(bytes \<Rightarrow> bytes) \<Rightarrow> (u64 \<Rightarrow> i64 option) \<Rightarrow> Store \<Rightarrow> string \<Rightarrow> string \<Rightarrow> RunContract \<Rightarrow> ArtifactRef
     \<Rightarrow> ArtifactRef \<Rightarrow> AgentRun \<Rightarrow> StepVerdict list \<Rightarrow> (BuildError, RunEvent list) result" where
  "build_events sha clock fs dir run_id contract task diff agent steps =
     and_then (map_err B_RunId (RunId_new run_id)) (\<lambda>rid.
     and_then (push_kind sha clock (EventChain_new rid) (RunStarted contract task)) (\<lambda>ch1.
     and_then (push_kind sha clock ch1 AgentStarted) (\<lambda>ch2.
     and_then (push_kind sha clock ch2 (AgentExited (agent_outcome agent))) (\<lambda>ch3.
     and_then (push_kind sha clock ch3 (PatchCaptured diff)) (\<lambda>ch4.
     and_then (try_fold (push_step sha clock fs dir) ch4 steps) (\<lambda>ch5.
     and_then (push_kind sha clock ch5 RunSealed) (\<lambda>ch6. Inr (ec_out ch6))))))))"

section \<open>The verdict of the record\<close>

fun from_canonical :: "Verdict \<Rightarrow> MetaVerdict" where
  "from_canonical V_Pass = MV_Pass"
| "from_canonical V_Fail = MV_Fail"
| "from_canonical V_Blocked = MV_Blocked"
| "from_canonical V_Error = MV_Error"

definition to_canonical :: "MetaVerdict \<Rightarrow> (BuildError, Verdict) result" where
  "to_canonical v =
     (case v of
        MV_Pass \<Rightarrow> Inr V_Pass
      | MV_Fail \<Rightarrow> Inr V_Fail
      | MV_Blocked \<Rightarrow> Inr V_Blocked
      | MV_Error \<Rightarrow> Inr V_Error
      | _ \<Rightarrow> Inl (B_NotCanonical v))"

definition canonical_verdict :: "(bytes \<Rightarrow> bytes) \<Rightarrow> RunEvent list \<Rightarrow> (BuildError, MetaVerdict) result" where
  "canonical_verdict sha events =
     and_then (map_err B_Reduction (reduce_all sha events)) (\<lambda>s.
     and_then (ok_or (st_verdict s) B_NotSealed) (\<lambda>v. Inr (from_canonical v)))"

text \<open>
  What \<open>execute\<close> needs of the host: the clock, the directories and paths that can be written, the shell,
  and \<^verbatim>\<open>serde_json\<close> on events, on the metadata and on the step verdicts.
\<close>

type_synonym f64 = "64 word"

record RunMeta =
  rm_schema :: u32
  rm_kind :: string
  rm_run_id :: string
  rm_target :: string
  rm_repo :: string
  rm_base_commit :: string
  rm_engine :: string
  rm_model :: string
  rm_verdict :: MetaVerdict
  rm_steps :: "StepVerdict list"
  rm_agent_exit_code :: "i32 option"
  rm_session_id :: "string option"
  rm_cost_usd :: "f64 option"
  rm_started_at :: "string option"
  rm_finished_at :: "string option"

record Host =
  h_clock :: "u64 \<Rightarrow> i64 option"
  h_mkdir :: "string \<Rightarrow> bool"
  h_writable :: "string \<Rightarrow> bool"
  h_bash :: "GateStep \<Rightarrow> BashRun"
  h_event_json :: "RunEvent \<Rightarrow> string option"
  h_meta_json :: "RunMeta \<Rightarrow> string option"
  h_steps_json :: "StepVerdict list \<Rightarrow> string option"

definition to_jsonl :: "(RunEvent \<Rightarrow> string option) \<Rightarrow> RunEvent list \<Rightarrow> (BuildError, string) result" where
  "to_jsonl event_json events =
     try_fold (\<lambda>s e. and_then (ok_or (event_json e) B_Json) (\<lambda>line. Inr (s @ line @ ''\<newline>''))) [] events"

text \<open>The writers of \<^verbatim>\<open>RunRecord\<close>, on the record directory \<open>dir\<close>.\<close>

definition RunRecord_create :: "Host \<Rightarrow> string \<Rightarrow> string \<Rightarrow> string \<Rightarrow> (BuildError, string) result" where
  "RunRecord_create h runs_dir target run_id =
     (let dir = path_join (path_join runs_dir target) run_id in
      if h_mkdir h dir then Inr dir else Inl (B_Mkdir dir))"

definition gate_dir :: "string \<Rightarrow> string" where
  "gate_dir dir = path_join dir ''gate''"

definition write_text :: "Host \<Rightarrow> string \<Rightarrow> string \<Rightarrow> string \<Rightarrow> Store \<Rightarrow> (BuildError, Store) result" where
  "write_text h dir name s fs = store_write (h_writable h) (path_join dir name) (as_bytes s) fs"

definition write_task :: "Host \<Rightarrow> string \<Rightarrow> string \<Rightarrow> Store \<Rightarrow> (BuildError, Store) result" where
  "write_task h dir task fs = store_write (h_writable h) (path_join dir ''task.md'') (as_bytes task) fs"

definition write_agent_stdout :: "Host \<Rightarrow> string \<Rightarrow> string \<Rightarrow> Store \<Rightarrow> (BuildError, Store) result" where
  "write_agent_stdout h dir s fs = store_write (h_writable h) (path_join dir ''agent.stdout'') (as_bytes s) fs"

definition write_diff :: "Host \<Rightarrow> string \<Rightarrow> string \<Rightarrow> Store \<Rightarrow> (BuildError, Store) result" where
  "write_diff h dir d fs = store_write (h_writable h) (path_join dir ''diff.patch'') (as_bytes d) fs"

definition write_meta :: "Host \<Rightarrow> string \<Rightarrow> RunMeta \<Rightarrow> Store \<Rightarrow> (BuildError, Store) result" where
  "write_meta h dir meta fs =
     and_then (ok_or (h_meta_json h meta) B_Json) (\<lambda>meta_text.
     and_then (store_write (h_writable h) (path_join dir ''meta.json'') (as_bytes meta_text) fs) (\<lambda>fs1.
     and_then (ok_or (h_steps_json h (rm_steps meta)) B_Json) (\<lambda>steps_text.
     store_write (h_writable h) (path_join (gate_dir dir) ''verdict.json'') (as_bytes steps_text) fs1)))"

record RunArgs =
  ra_runs_dir :: string
  ra_engine :: string
  ra_model :: string

text \<open>What \<open>execute\<close> leaves: the files, and the values it computed on the way.\<close>

record Executed =
  ex_dir :: string
  ex_store :: Store
  ex_stream :: "RunEvent list"
  ex_meta :: RunMeta

text \<open>
  \<open>execute\<close> without a ledger. The agent's run (or why it could not be started) and the diff of the
  worktree (\<open>None\<close> when \<^verbatim>\<open>git\<close> failed, read as empty) are given.
\<close>

definition execute ::
  "(bytes \<Rightarrow> bytes) \<Rightarrow> Host \<Rightarrow> RunArgs \<Rightarrow> string \<Rightarrow> string \<Rightarrow> string \<Rightarrow> string \<Rightarrow> string \<Rightarrow> GateManifest
     \<Rightarrow> RunContract \<Rightarrow> (string, AgentRun) result \<Rightarrow> string option \<Rightarrow> Store \<Rightarrow> (BuildError, Executed) result" where
  "execute sha h a repo target run_id base_commit task manifest contract agent diff_vs_base fs =
     and_then (RunRecord_create h (ra_runs_dir a) target run_id) (\<lambda>dir.
     let task_ref = artifact sha AK_Task ''task.md'' (as_bytes task) in
     and_then (map_err B_Agent agent) (\<lambda>ar.
     and_then (write_task h dir task fs) (\<lambda>fs1.
     and_then (write_agent_stdout h dir (ar_stdout ar) fs1) (\<lambda>fs2.
     let diff = (case diff_vs_base of Some d \<Rightarrow> d | None \<Rightarrow> []) in
     and_then (write_diff h dir diff fs2) (\<lambda>fs3.
     and_then (GateManifest_run (h_mkdir h) (h_bash h) (h_writable h) (gate_dir dir) manifest fs3) (\<lambda>(steps, fs4).
     let diff_ref = artifact sha AK_Diff ''diff.patch'' (as_bytes diff) in
     and_then (build_events sha (h_clock h) fs4 dir run_id contract task_ref diff_ref ar steps) (\<lambda>stream.
     and_then (to_jsonl (h_event_json h) stream) (\<lambda>jsonl.
     and_then (write_text h dir EVENTS_FILE jsonl fs4) (\<lambda>fs5.
     and_then (canonical_verdict sha stream) (\<lambda>verdict.
     let meta = \<lparr>rm_schema = 1, rm_kind = ''run'', rm_run_id = run_id, rm_target = target, rm_repo = repo,
           rm_base_commit = base_commit, rm_engine = ra_engine a, rm_model = ra_model a, rm_verdict = verdict,
           rm_steps = steps, rm_agent_exit_code = ar_exit_code ar, rm_session_id = ar_session_id ar,
           rm_cost_usd = None, rm_started_at = None, rm_finished_at = None\<rparr> in
     and_then (write_meta h dir meta fs5) (\<lambda>fs6.
     Inr \<lparr>ex_dir = dir, ex_store = fs6, ex_stream = stream, ex_meta = meta\<rparr>)))))))))))"

section \<open>Replaying a record\<close>

definition string_of_bytes :: "bytes \<Rightarrow> string" where
  "string_of_bytes bs = map (\<lambda>b. char_of (unat b)) bs"

definition read_to_string :: "Store \<Rightarrow> string \<Rightarrow> (BuildError, string) result" where
  "read_to_string fs p =
     and_then (map_err B_Read (store_read fs p)) (\<lambda>bs.
       if utf8_valid bs then Inr (string_of_bytes bs) else Inl (B_Utf8 p))"

text \<open>
  \<^verbatim>\<open>str::lines\<close>: a line ends with a line feed, taken off together with one carriage return before it;
  an unterminated last line is kept as it is, an empty one is not a line.
\<close>

definition strip_cr :: "string \<Rightarrow> string" where
  "strip_cr s = (if s \<noteq> [] \<and> last s = CHR 0x0D then butlast s else s)"

fun str_lines :: "string \<Rightarrow> string \<Rightarrow> string list" where
  "str_lines acc [] = (if acc = [] then [] else [acc])"
| "str_lines acc (c # cs) = (if c = CHR 0x0A then strip_cr acc # str_lines [] cs else str_lines (acc @ [c]) cs)"

fun jsonl_events :: "(string \<Rightarrow> RunEvent option) \<Rightarrow> nat \<Rightarrow> string list \<Rightarrow> (BuildError, RunEvent list) result" where
  "jsonl_events from_str i [] = Inr []"
| "jsonl_events from_str i (line # rest) =
     (if trim_is_empty line then jsonl_events from_str (i + 1) rest
      else and_then (ok_or (from_str line) (B_Line (i + 1))) (\<lambda>e.
           and_then (jsonl_events from_str (i + 1) rest) (\<lambda>out. Inr (e # out))))"

definition from_jsonl :: "(string \<Rightarrow> RunEvent option) \<Rightarrow> string \<Rightarrow> (BuildError, RunEvent list) result" where
  "from_jsonl from_str text = jsonl_events from_str 0 (str_lines [] text)"

text \<open>\<open>from_str\<close> and \<open>meta_of\<close> are \<^verbatim>\<open>serde_json::from_str\<close> on an event and on the metadata.\<close>

definition replay_record ::
  "(bytes \<Rightarrow> bytes) \<Rightarrow> (RunState \<Rightarrow> bytes option) \<Rightarrow> (bytes \<Rightarrow> (string, CandidateStateReceiptV1) result)
     \<Rightarrow> (bytes \<Rightarrow> (string, CommandBindingFacts) result) \<Rightarrow> (string \<Rightarrow> RunEvent option) \<Rightarrow> (string \<Rightarrow> RunMeta option)
     \<Rightarrow> Store \<Rightarrow> string \<Rightarrow> (BuildError, ReplayReport) result" where
  "replay_record sha to_vec rj bj from_str meta_of fs dir =
     and_then (read_to_string fs (path_join dir EVENTS_FILE)) (\<lambda>events_text.
     and_then (from_jsonl from_str events_text) (\<lambda>events.
     and_then (read_to_string fs (path_join dir ''meta.json'')) (\<lambda>meta_text.
     and_then (ok_or (meta_of meta_text) B_Meta) (\<lambda>meta.
     and_then (to_canonical (rm_verdict meta)) (\<lambda>stored.
     map_err B_Replay
       (replay_verify sha to_vec rj bj events (RecordDirResolver_resolve (store_read fs) dir) stored))))))"

end
