(* ===== verification/Run_Record.thy ===== *)
theory Run_Record
  imports Run_Build
begin

text \<open>
  The stream that \<^verbatim>\<open>o7 run\<close> builds is always accepted by the reducer, its verdict is the reduction of the
  required steps (or \<open>Error\<close> when the agent did not exit cleanly), and the record replays: every
  artifact the stream references is in the store under its digest.
\<close>

section \<open>Minted identifiers\<close>

lemma minted_id_inj [simp]: "minted_id rid a = minted_id rid b \<longleftrightarrow> a = b"
  by (simp add: minted_id_def word_unat_eq_iff)

lemma minted_id_ne [simp]: "minted_id rid a \<noteq> []"
  by (simp add: minted_id_def)

section \<open>Pushing events\<close>

definition chain_inv :: "(bytes \<Rightarrow> bytes) \<Rightarrow> EventChain \<Rightarrow> RunState \<Rightarrow> bool" where
  "chain_inv sha ch s \<longleftrightarrow>
     reachable sha (ec_out ch) s \<and> ec_seq ch = of_nat (length (ec_out ch)) \<and> length (ec_out ch) < 2 ^ 64
     \<and> ec_prev ch = st_last_event_digest s
     \<and> (\<forall>i < length (ec_out ch). ev_event_id (ec_out ch ! i) = RunEventId (minted_id (ec_run_id ch) (of_nat i))
          \<and> ev_run_id (ec_out ch ! i) = ec_run_id ch)"

lemma chain_inv_new: "chain_inv sha (EventChain_new rid) initial_state"
  using reachable.init [of sha] by (simp add: chain_inv_def EventChain_new_def) (simp add: initial_state_def)

lemma push_effect:
  assumes "EventChain_push sha clock kind ch = Inr (e, ch')"
  shows "ch' = ch\<lparr>ec_prev := ev_event_digest e, ec_seq := ec_seq ch + 1, ec_out := ec_out ch @ [e]\<rparr>"
    "ev_event_id e = RunEventId (minted_id (ec_run_id ch) (ec_seq ch))" "ev_run_id e = ec_run_id ch"
    "ev_sequence e = ec_seq ch" "ev_previous_event_digest e = ec_prev ch" "ev_kind e = kind"
    "digest_is_consistent sha e" "ev_schema_version e = RUN_EVENT_SCHEMA_VERSION" "ec_seq ch \<noteq> - 1"
  using assms
  by (auto simp: EventChain_push_def Let_def RunEventId_new_def digest_is_consistent_def compute_digest_def
      event_preimage_def split: if_splits)

lemma push_envelope:
  assumes inv: "chain_inv sha ch s" and push: "EventChain_push sha clock kind ch = Inr (e, ch')"
  shows "envelope_ok sha s e"
proof -
  note f = push_effect [OF push]
  note r = inv [unfolded chain_inv_def]
  have env: "st_last_sequence s = (if ec_out ch = [] then None else Some (of_nat (length (ec_out ch) - 1)))"
    "st_seen_event_ids s = ev_event_id ` set (ec_out ch)"
    "\<forall>x \<in> set (ec_out ch). st_run_id s = Some (ev_run_id x)"
    using reachable_envelope [of sha "ec_out ch" s] r by blast+
  have "ev_sequence e = Run_Step.next_sequence (st_last_sequence s)"
    using f(4) r env(1) by (cases "ec_out ch") (simp_all add: next_sequence_def)
  moreover have "ev_event_id e \<notin> st_seen_event_ids s"
  proof
    assume "ev_event_id e \<in> st_seen_event_ids s"
    then obtain i where i: "i < length (ec_out ch)" "ev_event_id e = ev_event_id (ec_out ch ! i)"
      unfolding env(2) by (metis imageE in_set_conv_nth)
    then have "(of_nat i :: u64) = of_nat (length (ec_out ch))" using f(2) r by simp
    then show False using i(1) r by (simp add: word_of_nat_eq_iff take_bit_nat_eq_self)
  qed
  moreover have "st_run_id s = None \<or> st_run_id s = Some (ev_run_id e)"
  proof (cases "ec_out ch")
    case Nil
    then have "s = initial_state" using r by (auto elim: reachable_nilE)
    then show ?thesis by (simp add: initial_state_def)
  next
    case (Cons x xs)
    then have "ev_run_id x = ec_run_id ch" using r by fastforce
    then show ?thesis using Cons env(3) f(3) by simp
  qed
  ultimately show ?thesis using f r by (simp add: envelope_ok_def)
qed

lemma push_inv:
  assumes inv: "chain_inv sha ch s" and push: "EventChain_push sha clock kind ch = Inr (e, ch')"
    and step: "run_step sha s e t" and len: "Suc (length (ec_out ch)) < 2 ^ 64"
  shows "chain_inv sha ch' t"
proof -
  note f = push_effect [OF push]
  note r = inv [unfolded chain_inv_def]
  have "reachable sha (ec_out ch @ [e]) t" using r step by (blast intro: reachable.step)
  moreover have "st_last_event_digest t = ev_event_digest e"
    using step by (auto elim!: run_stepE simp: advance_def)
  ultimately show ?thesis using r f len by (auto simp: chain_inv_def nth_append less_Suc_eq add.commute)
qed

text \<open>The first event binds the contract; later ones take a step of the contract.\<close>

lemma push_start:
  assumes "push_kind sha clock (EventChain_new rid) (RunStarted c t) = Inr ch" "wf_contract c" "artifact_ok t AK_Task"
  shows "\<exists>s e. chain_inv sha ch s \<and> s = advance e (initial_state\<lparr>st_run_id := Some rid, st_contract := Some c,
      st_task := Some t, st_phase := Running\<rparr>) \<and> ec_out ch = [e] \<and> ev_kind e = RunStarted c t \<and> ec_run_id ch = rid"
proof -
  obtain e where e: "EventChain_push sha clock (RunStarted c t) (EventChain_new rid) = Inr (e, ch)"
    using assms(1) by (auto simp: push_kind_def)
  note f = push_effect [OF e]
  have "run_step sha initial_state e (advance e (initial_state\<lparr>st_run_id := Some (ev_run_id e), st_contract := Some c,
      st_task := Some t, st_phase := Running\<rparr>))"
    using push_envelope [OF chain_inv_new e] assms(2,3) f(6)
    by (intro run_step.start) (simp_all add: initial_state_def)
  from push_inv [OF chain_inv_new e this] f show ?thesis by (auto simp: EventChain_new_def)
qed

lemma push_continue:
  assumes "chain_inv sha ch s" "push_kind sha clock ch kind = Inr ch'" "st_phase s = Running" "st_contract s = Some c"
    "kind_step c s kind t" "Suc (length (ec_out ch)) < 2 ^ 64"
  shows "\<exists>e. chain_inv sha ch' (advance e t) \<and> ec_out ch' = ec_out ch @ [e] \<and> ev_kind e = kind
    \<and> ec_run_id ch' = ec_run_id ch"
proof -
  obtain e where e: "EventChain_push sha clock kind ch = Inr (e, ch')"
    using assms(2) by (auto simp: push_kind_def)
  note f = push_effect [OF e]
  have "run_step sha s e (advance e t)"
    using push_envelope [OF assms(1) e] assms(3-5) f(6) by (intro run_step.continue) simp_all
  from push_inv [OF assms(1) e this assms(6)] f show ?thesis by auto
qed

lemma seq_below:
  assumes "n < 2 ^ 64 - 1"
  shows "(of_nat n :: u64) \<noteq> - 1"
proof
  assume "(of_nat n :: u64) = - 1"
  then have "unat (of_nat n :: u64) = unat (- 1 :: u64)" by simp
  then show False
    using assms by (simp add: unsigned_of_nat unsigned_minus_1_eq_mask mask_eq_exp_minus_1 take_bit_nat_eq_self)
qed

lemma push_succeeds:
  assumes "chain_inv sha ch s" "\<And>n. clock n \<noteq> None" "Suc (length (ec_out ch)) < 2 ^ 64"
  shows "\<exists>ch'. push_kind sha clock ch kind = Inr ch'"
proof -
  have "ec_seq ch \<noteq> - 1" using assms(1,3) seq_below [of "length (ec_out ch)"] by (auto simp: chain_inv_def)
  moreover obtain ts where "clock (ec_seq ch) = Some ts" using assms(2) by (metis option.exhaust)
  ultimately show ?thesis by (simp add: push_kind_def EventChain_push_def Let_def RunEventId_new_def)
qed

lemma push_step_ok:
  assumes "chain_inv sha ch s" "\<And>n. clock n \<noteq> None" "st_phase s = Running" "st_contract s = Some c"
    "kind_step c s kind t" "Suc (length (ec_out ch)) < 2 ^ 64"
  shows "\<exists>ch' e. push_kind sha clock ch kind = Inr ch' \<and> chain_inv sha ch' (advance e t)
    \<and> ec_out ch' = ec_out ch @ [e] \<and> ev_kind e = kind \<and> ec_run_id ch' = ec_run_id ch"
proof -
  obtain ch' where p: "push_kind sha clock ch kind = Inr ch'"
    using push_succeeds [of sha ch s clock kind, OF assms(1,2,6)] by blast
  from push_continue [OF assms(1) p assms(3-6)] p show ?thesis by blast
qed

lemma advance_sel [simp]:
  "st_phase (advance e s) = st_phase s" "st_contract (advance e s) = st_contract s" "st_gates (advance e s) = st_gates s"
  "st_agent (advance e s) = st_agent s" "st_patch (advance e s) = st_patch s" "st_task (advance e s) = st_task s"
  "st_verdict (advance e s) = st_verdict s" "st_command_binding (advance e s) = st_command_binding s"
  by (simp_all add: advance_def)

section \<open>The gate steps\<close>

definition logged :: "(bytes \<Rightarrow> bytes) \<Rightarrow> Store \<Rightarrow> string \<Rightarrow> StepVerdict \<Rightarrow> ArtifactRef option" where
  "logged sha fs dir v = (case step_log sha fs dir v of Inr l \<Rightarrow> l | Inl _ \<Rightarrow> None)"

definition step_kinds :: "(bytes \<Rightarrow> bytes) \<Rightarrow> Store \<Rightarrow> string \<Rightarrow> StepVerdict \<Rightarrow> RunEventKind list" where
  "step_kinds sha fs dir v =
     (if executed v then [GateStarted (GateId (sv_name v)),
        GateFinished (GateId (sv_name v)) (gate_outcome (sv_verdict v)) (logged sha fs dir v)] else [])"

text \<open>A step that can be recorded: declared in the contract, with a log that can be read back.\<close>

definition recordable :: "(bytes \<Rightarrow> bytes) \<Rightarrow> Store \<Rightarrow> string \<Rightarrow> RunContract \<Rightarrow> StepVerdict \<Rightarrow> bool" where
  "recordable sha fs dir c v \<longleftrightarrow> sv_name v \<noteq> [] \<and> GateId (sv_name v) \<in> declared_gates c
     \<and> (\<exists>l. step_log sha fs dir v = Inr l)"

lemma step_log_ok: "step_log sha fs dir v = Inr (Some a) \<Longrightarrow> artifact_ok a AK_GateLog"
  by (auto simp: step_log_def artifact_def artifact_ok_def split: if_splits)

lemma start_allowed_free: "rc_policy_obligations c = [] \<Longrightarrow> start_allowed s c p"
  by (simp add: start_allowed_def)

lemma push_step_accepted:
  assumes inv: "chain_inv sha ch s" and clock: "\<And>n. clock n \<noteq> None" and run: "st_phase s = Running"
    and c: "st_contract s = Some c" "rc_policy_obligations c = []"
    and v: "executed v \<Longrightarrow> recordable sha fs dir c v" "st_gates s (GateId (sv_name v)) = None"
    and len: "length (ec_out ch) + 2 < 2 ^ 64"
  shows "\<exists>ch' s'. push_step sha clock fs dir ch v = Inr ch' \<and> chain_inv sha ch' s' \<and> st_phase s' = Running
    \<and> st_contract s' = Some c \<and> map ev_kind (ec_out ch') = map ev_kind (ec_out ch) @ step_kinds sha fs dir v
    \<and> (\<forall>n. n \<noteq> sv_name v \<longrightarrow> st_gates s' (GateId n) = st_gates s (GateId n))"
proof (cases "executed v")
  case False
  then show ?thesis using inv run c by (auto simp: push_step_def step_kinds_def)
next
  case True
  let ?g = "GateId (sv_name v)"
  obtain l where l: "step_log sha fs dir v = Inr l" and g: "?g \<in> declared_gates c" "sv_name v \<noteq> []"
    using v(1) [OF True] by (auto simp: recordable_def)
  let ?s1 = "s\<lparr>st_gates := (st_gates s)(?g \<mapsto> GP_Started)\<rparr>"
  have k1: "kind_step c s (GateStarted ?g) ?s1"
    using g v(2) c(2) by (simp add: kind_step_simps start_allowed_free)
  obtain ch1 e1 where p1: "push_kind sha clock ch (GateStarted ?g) = Inr ch1" "chain_inv sha ch1 (advance e1 ?s1)"
    "ec_out ch1 = ec_out ch @ [e1]" "ev_kind e1 = GateStarted ?g"
    using push_step_ok [of sha ch s clock c, OF inv clock run c(1) k1] len by auto
  let ?oc = "gate_outcome (sv_verdict v)"
  let ?s2 = "(advance e1 ?s1)\<lparr>st_gates := (st_gates s)(?g \<mapsto> GP_Finished ?oc)\<rparr>"
  have k2: "kind_step c (advance e1 ?s1) (GateFinished ?g ?oc l) ?s2"
    using g l step_log_ok by (auto simp: kind_step_simps)
  have run1: "st_phase (advance e1 ?s1) = Running" "st_contract (advance e1 ?s1) = Some c" using run c by simp_all
  obtain ch2 e2 where p2: "push_kind sha clock ch1 (GateFinished ?g ?oc l) = Inr ch2" "chain_inv sha ch2 (advance e2 ?s2)"
    "ec_out ch2 = ec_out ch1 @ [e2]" "ev_kind e2 = GateFinished ?g ?oc l"
    using push_step_ok [of sha ch1 _ clock c, OF p1(2) clock run1 k2] len p1(3) by auto
  have "push_step sha clock fs dir ch v = Inr ch2"
    using True g(2) l p1(1) p2(1) by (simp add: push_step_def GateId_new_def)
  moreover have "map ev_kind (ec_out ch2) = map ev_kind (ec_out ch) @ step_kinds sha fs dir v"
    using True p1(3,4) p2(3,4) l by (simp add: step_kinds_def logged_def)
  ultimately show ?thesis using p2(2) run c(1) by (intro exI [of _ ch2] exI [of _ "advance e2 ?s2"]) auto
qed

lemma step_kinds_len: "length (step_kinds sha fs dir v) \<le> 2"
  by (simp add: step_kinds_def)

lemma gate_steps_accepted:
  assumes "chain_inv sha ch s" and clock: "\<And>n. clock n \<noteq> None" and "st_phase s = Running"
    and "st_contract s = Some c" and pol: "rc_policy_obligations c = []"
    and "\<And>v. v \<in> set steps \<Longrightarrow> executed v \<Longrightarrow> recordable sha fs dir c v"
    and "\<And>v. v \<in> set steps \<Longrightarrow> st_gates s (GateId (sv_name v)) = None" "distinct (map sv_name steps)"
    and "length (ec_out ch) + 2 * length steps < 2 ^ 64"
  shows "\<exists>ch' s'. try_fold (push_step sha clock fs dir) ch steps = Inr ch' \<and> chain_inv sha ch' s'
    \<and> st_phase s' = Running \<and> st_contract s' = Some c
    \<and> map ev_kind (ec_out ch') = map ev_kind (ec_out ch) @ concat (map (step_kinds sha fs dir) steps)"
  using assms(1,3,4,6-)
proof (induction steps arbitrary: ch s)
  case (Cons v steps)
  obtain ch1 s1 where one: "push_step sha clock fs dir ch v = Inr ch1" "chain_inv sha ch1 s1" "st_phase s1 = Running"
    "st_contract s1 = Some c" "map ev_kind (ec_out ch1) = map ev_kind (ec_out ch) @ step_kinds sha fs dir v"
    "\<forall>n. n \<noteq> sv_name v \<longrightarrow> st_gates s1 (GateId n) = st_gates s (GateId n)"
    using push_step_accepted [of sha ch s clock c v fs dir, OF Cons.prems(1) clock Cons.prems(2,3) pol]
      Cons.prems(4,5,7) by auto
  have gates: "st_gates s1 (GateId (sv_name w)) = None" if "w \<in> set steps" for w
  proof -
    have "sv_name w \<in> sv_name ` set steps" "sv_name v \<notin> sv_name ` set steps" using that Cons.prems(6) by simp_all
    then have "sv_name w \<noteq> sv_name v" by metis
    then show ?thesis using one(6) Cons.prems(5) that by simp
  qed
  have "length (map ev_kind (ec_out ch1)) \<le> length (ec_out ch) + 2"
    unfolding one(5) using step_kinds_len [of sha fs dir v] by simp
  then have len: "length (ec_out ch1) + 2 * length steps < 2 ^ 64" using Cons.prems(7) by simp
  from Cons.IH [OF one(2-4) _ gates _ len] Cons.prems(4,6) one(1,5) show ?case by auto
qed auto

section \<open>The whole stream\<close>

lemma wf_task_free:
  "rc_policy_obligations c = [] \<Longrightarrow> rc_candidate_state c = None \<Longrightarrow> rc_sandbox_requirements c = [] \<Longrightarrow>
   distinct (map gob_gate (rc_gate_obligations c)) \<Longrightarrow>
   (\<forall>ob \<in> set (rc_gate_obligations c). waiver_ok c (gob_applicability ob)) \<Longrightarrow> wf_contract c"
  by (simp add: wf_contract_def candidate_schema_ok_def)

definition built_kinds ::
  "(bytes \<Rightarrow> bytes) \<Rightarrow> Store \<Rightarrow> string \<Rightarrow> RunContract \<Rightarrow> ArtifactRef \<Rightarrow> ArtifactRef \<Rightarrow> AgentRun \<Rightarrow> StepVerdict list
     \<Rightarrow> RunEventKind list" where
  "built_kinds sha fs dir c task diff agent steps =
     [RunStarted c task, AgentStarted, AgentExited (agent_outcome agent), PatchCaptured diff]
     @ concat (map (step_kinds sha fs dir) steps) @ [RunSealed]"

lemma build_accepted:
  assumes clock: "\<And>n. clock n \<noteq> None" and rid: "run_id \<noteq> []" and wf: "wf_contract c"
    and c: "rc_policy_obligations c = []" "rc_agent c = AO_Required" "rc_candidate_state c = None"
    and arts: "artifact_ok task AK_Task" "artifact_ok diff AK_Diff"
    and steps: "\<And>v. v \<in> set steps \<Longrightarrow> executed v \<Longrightarrow> recordable sha fs dir c v" "distinct (map sv_name steps)"
    and len: "2 * length steps + 6 < 2 ^ 64"
  shows "\<exists>es s. build_events sha clock fs dir run_id c task diff agent steps = Inr es \<and> reachable sha es s
    \<and> is_sealed s \<and> st_contract s = Some c \<and> map ev_kind es = built_kinds sha fs dir c task diff agent steps"
proof -
  let ?rid = "RunId run_id"
  obtain ch1 where p1: "push_kind sha clock (EventChain_new ?rid) (RunStarted c task) = Inr ch1"
    using push_succeeds [of sha "EventChain_new ?rid" initial_state clock, OF chain_inv_new clock]
    by (auto simp: EventChain_new_def)
  obtain e1 where i1: "chain_inv sha ch1 (advance e1 (initial_state\<lparr>st_run_id := Some ?rid, st_contract := Some c,
      st_task := Some task, st_phase := Running\<rparr>))" (is "chain_inv sha ch1 ?s1")
    and o1: "ec_out ch1 = [e1]" "ev_kind e1 = RunStarted c task"
    using push_start [OF p1 wf arts(1)] by auto
  have s1: "st_phase ?s1 = Running" "st_contract ?s1 = Some c" "st_agent ?s1 = AL_NotObserved" "st_patch ?s1 = None"
    "st_gates ?s1 = Map.empty" by (simp_all add: initial_state_def)
  have k2: "kind_step c ?s1 AgentStarted (?s1\<lparr>st_agent := AL_Started\<rparr>)"
    using c s1 by (simp add: kind_step_simps start_allowed_free)
  obtain ch2 e2 where p2: "push_kind sha clock ch1 AgentStarted = Inr ch2"
    and i2: "chain_inv sha ch2 (advance e2 (?s1\<lparr>st_agent := AL_Started\<rparr>))" (is "chain_inv sha ch2 ?s2")
    and o2: "ec_out ch2 = ec_out ch1 @ [e2]" "ev_kind e2 = AgentStarted"
    using push_step_ok [of sha ch1 ?s1 clock c, OF i1 clock s1(1,2) k2] len o1 by auto
  have s2: "st_phase ?s2 = Running" "st_contract ?s2 = Some c" using s1 by simp_all
  have k3: "kind_step c ?s2 (AgentExited (agent_outcome agent)) (?s2\<lparr>st_agent := AL_Exited (agent_outcome agent)\<rparr>)"
    using c by (simp add: kind_step_simps)
  obtain ch3 e3 where p3: "push_kind sha clock ch2 (AgentExited (agent_outcome agent)) = Inr ch3"
    and i3: "chain_inv sha ch3 (advance e3 (?s2\<lparr>st_agent := AL_Exited (agent_outcome agent)\<rparr>))" (is "chain_inv sha ch3 ?s3")
    and o3: "ec_out ch3 = ec_out ch2 @ [e3]" "ev_kind e3 = AgentExited (agent_outcome agent)"
    using push_step_ok [of sha ch2 ?s2 clock c, OF i2 clock s2 k3] len o1 o2 by auto
  have s3: "st_phase ?s3 = Running" "st_contract ?s3 = Some c" using s1 by simp_all
  have k4: "kind_step c ?s3 (PatchCaptured diff) (?s3\<lparr>st_patch := Some diff\<rparr>)"
    using arts(2) s1(4) by (simp add: kind_step_simps)
  obtain ch4 e4 where p4: "push_kind sha clock ch3 (PatchCaptured diff) = Inr ch4"
    and i4: "chain_inv sha ch4 (advance e4 (?s3\<lparr>st_patch := Some diff\<rparr>))" (is "chain_inv sha ch4 ?s4")
    and o4: "ec_out ch4 = ec_out ch3 @ [e4]" "ev_kind e4 = PatchCaptured diff"
    using push_step_ok [of sha ch3 ?s3 clock c, OF i3 clock s3 k4] len o1 o2 o3 by auto
  have s4: "st_phase ?s4 = Running" "st_contract ?s4 = Some c" "st_gates ?s4 (GateId n) = None" for n
    using s1 by simp_all
  have len4: "length (ec_out ch4) = 4" using o1 o2 o3 o4 by simp
  obtain ch5 s5 where p5: "try_fold (push_step sha clock fs dir) ch4 steps = Inr ch5" and i5: "chain_inv sha ch5 s5"
    and s5: "st_phase s5 = Running" "st_contract s5 = Some c"
    and o5: "map ev_kind (ec_out ch5) = map ev_kind (ec_out ch4) @ concat (map (step_kinds sha fs dir) steps)"
    using gate_steps_accepted [of sha ch4 ?s4 clock c steps fs dir, OF i4 clock s4(1,2) c(1) steps(1) s4(3) steps(2)]
      len len4 by auto
  have "length (concat (map (step_kinds sha fs dir) steps)) \<le> 2 * length steps"
    by (induction steps) (auto simp: step_kinds_def)
  then have len5: "Suc (length (ec_out ch5)) < 2 ^ 64"
    using arg_cong [OF o5, of length] len len4 by simp
  obtain ch6 e6 where p6: "push_kind sha clock ch5 RunSealed = Inr ch6"
    and i6: "chain_inv sha ch6 (advance e6 (s5\<lparr>st_verdict := Some (compute_verdict s5 c), st_phase := Sealed\<rparr>))"
    and o6: "ec_out ch6 = ec_out ch5 @ [e6]" "ev_kind e6 = RunSealed"
    using push_step_ok [of sha ch5 s5 clock c, OF i5 clock s5 kind_step.seal len5] by blast
  have "build_events sha clock fs dir run_id c task diff agent steps = Inr (ec_out ch6)"
    using rid p1 p2 p3 p4 p5 p6 by (simp add: build_events_def RunId_new_def)
  moreover have "map ev_kind (ec_out ch6) = built_kinds sha fs dir c task diff agent steps"
    using o1 o2 o3 o4 o5 o6 by (simp add: built_kinds_def)
  moreover have "reachable sha (ec_out ch6) (advance e6 (s5\<lparr>st_verdict := Some (compute_verdict s5 c), st_phase := Sealed\<rparr>))"
    using i6 by (simp add: chain_inv_def)
  ultimately show ?thesis using s5 by (intro exI conjI) (assumption | simp add: is_sealed_def)+
qed

section \<open>The manifest\<close>

lemma validate_steps_iff:
  "validate_steps names logs steps = Inr u \<longleftrightarrow>
     distinct (map gs_name steps) \<and> distinct (map (sanitize \<circ> gs_name) steps)
     \<and> (\<forall>s \<in> set steps. \<not> trim_is_empty (gs_name s) \<and> gs_name s \<notin> names \<and> logs (sanitize (gs_name s)) = None)"
proof (induction steps arbitrary: names logs)
  case (Cons step rest)
  let ?n = "gs_name step" and ?l = "sanitize (gs_name step)"
  show ?case
  proof (cases "trim_is_empty ?n \<or> ?n \<in> names \<or> logs ?l \<noteq> None")
    case True
    then show ?thesis by (auto simp: Let_def)
  next
    case False
    let ?ok = "\<lambda>s. \<not> trim_is_empty (gs_name s) \<and> gs_name s \<notin> names \<and> logs (sanitize (gs_name s)) = None"
    have eq: "validate_steps names logs (step # rest) = validate_steps (insert ?n names) (logs(?l \<mapsto> ?n)) rest"
      using False by (simp add: Let_def del: fun_upd_apply)
    have sp: "(\<forall>s \<in> set rest. \<not> trim_is_empty (gs_name s) \<and> gs_name s \<notin> insert ?n names
        \<and> (logs(?l \<mapsto> ?n)) (sanitize (gs_name s)) = None)
      \<longleftrightarrow> (\<forall>s \<in> set rest. ?ok s) \<and> ?n \<notin> gs_name ` set rest \<and> ?l \<notin> (sanitize \<circ> gs_name) ` set rest"
      (is "?lhs \<longleftrightarrow> ?rhs")
    proof
      assume l: ?lhs
      then have "?ok s \<and> gs_name s \<noteq> ?n \<and> sanitize (gs_name s) \<noteq> ?l" if "s \<in> set rest" for s
        using bspec [OF l that] by (simp split: if_splits)
      then show ?rhs unfolding image_iff comp_def by metis
    next
      assume r: ?rhs
      show ?lhs
      proof
        fix s assume s: "s \<in> set rest"
        have "gs_name s \<noteq> ?n" "sanitize (gs_name s) \<noteq> ?l"
          using imageI [OF s, of gs_name] imageI [OF s, of "sanitize \<circ> gs_name"] r unfolding comp_def by metis+
        then show "\<not> trim_is_empty (gs_name s) \<and> gs_name s \<notin> insert ?n names
            \<and> (logs(?l \<mapsto> ?n)) (sanitize (gs_name s)) = None" using r s by simp
      qed
    qed
    have ok: "\<not> trim_is_empty ?n" "?n \<notin> names" "logs ?l = None" using False by simp_all
    show ?thesis
      unfolding eq Cons.IH sp list.map distinct.simps list.set set_map ball_simps comp_apply [of sanitize gs_name step]
      by (simp only: ok not_False_eq_True simp_thms conj_ac)
  qed
qed simp

definition obligation_of :: "GateStep \<Rightarrow> GateObligation" where
  "obligation_of g = \<lparr>gob_gate = GateId (gs_name g),
     gob_requirement = (if gs_required g then GR_Required else GR_Optional),
     gob_applicability = (if gs_env g = Some ''windows''
       then (case waived_step g of None \<Rightarrow> Applicable | Some reason \<Rightarrow> Waived RUNNER_ENVIRONMENT reason) else Applicable)\<rparr>"

lemma build_obligation_ok: "gs_name g \<noteq> [] \<Longrightarrow> build_obligation g = Inr (obligation_of g)"
  by (auto simp: build_obligation_def GateId_new_def obligation_of_def waived_step_def split: option.splits)

lemma blank_empty [simp]: "trim_is_empty []"
  by (simp add: trim_is_empty_def)

lemma manifest_valid:
  assumes "build_contract m = Inr c"
  shows "distinct (map gs_name (gm_gate m))" "distinct (map (sanitize \<circ> gs_name) (gm_gate m))"
    "\<And>g. g \<in> set (gm_gate m) \<Longrightarrow> gs_name g \<noteq> []" "GateManifest_validate m = Inr ()"
    "c = \<lparr>rc_gate_obligations = map obligation_of (gm_gate m), rc_policy_obligations = [],
          rc_sandbox_requirements = [], rc_agent = AO_Required, rc_runner_environment = RUNNER_ENVIRONMENT,
          rc_candidate_state = None\<rparr>"
proof -
  have v: "GateManifest_validate m = Inr ()" using assms by (auto simp: build_contract_def)
  note i = v [unfolded GateManifest_validate_def validate_steps_iff]
  show d: "distinct (map gs_name (gm_gate m))" "distinct (map (sanitize \<circ> gs_name) (gm_gate m))"
    "GateManifest_validate m = Inr ()" using i v by simp_all
  show ne: "gs_name g \<noteq> []" if "g \<in> set (gm_gate m)" for g using i that by auto
  show "c = \<lparr>rc_gate_obligations = map obligation_of (gm_gate m), rc_policy_obligations = [],
          rc_sandbox_requirements = [], rc_agent = AO_Required, rc_runner_environment = RUNNER_ENVIRONMENT,
          rc_candidate_state = None\<rparr>"
    using assms try_map_ok [of "gm_gate m" build_obligation obligation_of] ne build_obligation_ok v
    by (simp add: build_contract_def)
qed

lemma built_contract_wf: "build_contract m = Inr c \<Longrightarrow> wf_contract c"
proof -
  assume b: "build_contract m = Inr c"
  note v = manifest_valid [OF b]
  have "distinct (map gob_gate (rc_gate_obligations c))"
    using v(1) by (simp add: v(5) obligation_of_def distinct_map inj_on_def)
  moreover have "waiver_ok c (gob_applicability (obligation_of g))" for g
    by (auto simp: v(5) obligation_of_def waived_step_def split: option.split)
  ultimately show ?thesis by (intro wf_task_free) (auto simp: v(5))
qed

end
