(* ===== verification/Run_Execute.thy ===== *)
theory Run_Execute
  imports Run_Record Run_Properties
begin

text \<open>
  What \<open>execute\<close> leaves behind: the step verdicts as a function of the manifest and the shell, the logs in
  the store, the canonical verdict of the record as the reduction of the required steps, and what replaying
  the record needs: the references of the stream, the lines of the event file.
\<close>

section \<open>Paths of a record\<close>

definition relative :: "string \<Rightarrow> bool" where
  "relative p \<longleftrightarrow> p \<noteq> [] \<and> hd p \<noteq> CHR ''/''"

lemma path_join_relative:
  "relative p \<Longrightarrow> path_join base p = (if base = [] \<or> last base = CHR ''/'' then base @ p else base @ CHR ''/'' # p)"
  by (simp add: path_join_def relative_def)

lemma path_join_inj: "relative p \<Longrightarrow> relative q \<Longrightarrow> path_join base p = path_join base q \<longleftrightarrow> p = q"
  by (simp add: path_join_relative)

lemma gate_dir_join: "relative p \<Longrightarrow> path_join (gate_dir dir) p = path_join dir (''gate/'' @ p)"
  by (simp add: gate_dir_def path_join_relative relative_def)

lemma relative_Cons [simp]: "relative (c # p) \<longleftrightarrow> c \<noteq> CHR ''/''"
  by (simp add: relative_def)

definition log_file :: "GateStep \<Rightarrow> string" where
  "log_file g = sanitize (gs_name g) @ ''.log''"

lemma sanitize_chars: "c \<in> set (sanitize s) \<Longrightarrow> log_char c"
  by (auto simp: sanitize_def log_char_def split: if_splits)

lemma sanitize_no_slash: "CHR ''/'' \<notin> set (sanitize s)"
  using sanitize_chars [of "CHR ''/''" s] by (auto simp: log_char_def)

lemma log_file_no_slash: "CHR ''/'' \<notin> set (log_file g)"
  using sanitize_no_slash by (simp add: log_file_def)

lemma log_file_last: "last (log_file g) = CHR ''g''"
  by (simp add: log_file_def)

lemma relative_log_file [simp]: "relative (log_file g)"
proof -
  have "log_file g \<noteq> []" by (simp add: log_file_def)
  then show ?thesis using log_file_no_slash [of g] hd_in_set [of "log_file g"] unfolding relative_def by metis
qed

lemma split_on_free: "c \<notin> set s \<Longrightarrow> split_on c s = [s]"
  by (induction s) auto

lemma log_confined: "confined (''gate/'' @ log_file g)"
proof -
  have "split_on (CHR ''/'') (''gate/'' @ log_file g) = [''gate'', log_file g]"
    using split_on_free [OF log_file_no_slash] by simp
  moreover have "length (log_file g) \<ge> 4" by (simp add: log_file_def)
  then have "log_file g \<notin> {[], ''.'', ''..''}" by auto
  ultimately show ?thesis by (simp add: confined_def path_components_def parse_component_def)
qed

section \<open>The steps\<close>

definition on_windows :: "GateStep \<Rightarrow> bool" where
  "on_windows g \<longleftrightarrow> gs_env g = Some ''windows''"

definition step_verdict :: "(GateStep \<Rightarrow> BashRun) \<Rightarrow> GateStep \<Rightarrow> MetaVerdict" where
  "step_verdict bash g =
     (if on_windows g then if waived_step g = None then MV_Blocked else MV_NotApplicable
      else (case bash g of Ran True _ _ \<Rightarrow> MV_Pass | Ran False _ _ \<Rightarrow> MV_Fail | SpawnFailed _ \<Rightarrow> MV_Error))"

definition step_text :: "(GateStep \<Rightarrow> BashRun) \<Rightarrow> GateStep \<Rightarrow> string" where
  "step_text bash g = (case bash g of Ran _ _ out \<Rightarrow> out | SpawnFailed e \<Rightarrow> ''failed to spawn bash: '' @ e)"

definition step_result :: "(GateStep \<Rightarrow> BashRun) \<Rightarrow> GateStep \<Rightarrow> StepVerdict" where
  "step_result bash g =
     \<lparr>sv_name = gs_name g, sv_required = gs_required g, sv_verdict = step_verdict bash g,
      sv_exit_code = (if on_windows g then None else (case bash g of Ran _ code _ \<Rightarrow> code | SpawnFailed _ \<Rightarrow> None)),
      sv_log = (if on_windows g then [] else ''gate/'' @ log_file g),
      sv_waived = (if on_windows g then waived_step g else None)\<rparr>"

definition log_written :: "(GateStep \<Rightarrow> BashRun) \<Rightarrow> string \<Rightarrow> GateStep \<Rightarrow> Store \<Rightarrow> Store" where
  "log_written bash gate_out g fs =
     (if on_windows g then fs else fs(path_join gate_out (log_file g) \<mapsto> as_bytes (step_text bash g)))"

lemma run_one_step_result:
  assumes "\<And>p. writable p"
  shows "run_one_step bash writable gate_out g fs = Inr (step_result bash g, log_written bash gate_out g fs)"
proof (cases "on_windows g")
  case True
  then show ?thesis
    by (simp add: run_one_step_def step_result_def step_verdict_def log_written_def on_windows_def)
next
  case False
  then show ?thesis using assms
    by (cases "bash g") (auto simp: run_one_step_def step_result_def step_verdict_def step_text_def log_written_def
        on_windows_def log_file_def store_write_def Let_def)
qed

lemma run_steps_result:
  assumes "\<And>p. writable p"
  shows "run_steps bash writable gate_out gs fs = Inr (map (step_result bash) gs, fold (log_written bash gate_out) gs fs)"
  by (induction gs arbitrary: fs) (simp_all add: run_one_step_result assms)

lemma logs_elsewhere:
  "(\<And>g. g \<in> set gs \<Longrightarrow> p \<noteq> path_join gate_out (log_file g)) \<Longrightarrow> fold (log_written bash gate_out) gs fs p = fs p"
  by (induction gs arbitrary: fs) (simp_all add: log_written_def)

lemma log_file_inj: "log_file g = log_file h \<longleftrightarrow> sanitize (gs_name g) = sanitize (gs_name h)"
  by (simp add: log_file_def)

text \<open>Distinct log names keep every step's log, whatever runs after it.\<close>

lemma logs_kept:
  assumes "distinct (map (sanitize \<circ> gs_name) gs)" "g \<in> set gs" "\<not> on_windows g"
  shows "fold (log_written bash gate_out) gs fs (path_join gate_out (log_file g)) = Some (as_bytes (step_text bash g))"
  using assms(1,2)
proof (induction gs arbitrary: fs)
  case (Cons h gs)
  show ?case
  proof (cases "g \<in> set gs")
    case True
    then show ?thesis using Cons by simp
  next
    case False
    then have "g = h" using Cons.prems(2) by simp
    moreover have "path_join gate_out (log_file g) \<noteq> path_join gate_out (log_file k)" if "k \<in> set gs" for k
      using imageI [OF that, of "sanitize \<circ> gs_name"] Cons.prems(1) \<open>g = h\<close>
      by (auto simp: path_join_inj log_file_inj)
    ultimately have "fold (log_written bash gate_out) gs (log_written bash gate_out h fs) (path_join gate_out (log_file g))
        = log_written bash gate_out h fs (path_join gate_out (log_file g))" by (intro logs_elsewhere)
    then show ?thesis using assms(3) \<open>g = h\<close> by (simp add: log_written_def [of bash gate_out h])
  qed
qed simp

section \<open>The canonical verdict\<close>

definition required_steps :: "(GateStep \<Rightarrow> BashRun) \<Rightarrow> GateManifest \<Rightarrow> StepVerdict list" where
  "required_steps bash m = map (step_result bash) (filter gs_required (gm_gate m))"

lemma executed_result: "executed (step_result bash g) \<longleftrightarrow> \<not> on_windows g"
  by (auto simp: executed_def step_result_def step_verdict_def split: BashRun.split bool.split)

lemma waived_result: "sv_waived (step_result bash g) = None \<longleftrightarrow> \<not> (on_windows g \<and> waived_step g \<noteq> None)"
  by (simp add: step_result_def)

lemma kind_in_step:
  "GateFinished g oc l \<in> set (step_kinds sha fs dir v) \<longleftrightarrow>
     executed v \<and> g = GateId (sv_name v) \<and> oc = gate_outcome (sv_verdict v) \<and> l = logged sha fs dir v"
  "GateStarted g \<in> set (step_kinds sha fs dir v) \<longleftrightarrow> executed v \<and> g = GateId (sv_name v)"
  by (auto simp: step_kinds_def)

lemma kind_in_built:
  "GateFinished g oc l \<in> set (built_kinds sha fs dir c task diff agent steps) \<longleftrightarrow>
     (\<exists>v \<in> set steps. executed v \<and> g = GateId (sv_name v) \<and> oc = gate_outcome (sv_verdict v) \<and> l = logged sha fs dir v)"
  "GateStarted g \<in> set (built_kinds sha fs dir c task diff agent steps) \<longleftrightarrow>
     (\<exists>v \<in> set steps. executed v \<and> g = GateId (sv_name v))"
  "AgentExited oa \<in> set (built_kinds sha fs dir c task diff agent steps) \<longleftrightarrow> oa = agent_outcome agent"
  by (auto simp: built_kinds_def kind_in_step) (auto simp: step_kinds_def)

lemma result_name [simp]: "sv_name (step_result bash g) = gs_name g"
  by (simp add: step_result_def)

lemma gate_recorded_built:
  assumes "distinct (map gs_name gs)" "g \<in> set gs"
  shows "gate_recorded (set (built_kinds sha fs dir c task diff agent (map (step_result bash) gs))) (GateId (gs_name g)) oc
      \<longleftrightarrow> \<not> on_windows g \<and> oc = gate_outcome (step_verdict bash g)"
    "GateStarted (GateId (gs_name g)) \<in> set (built_kinds sha fs dir c task diff agent (map (step_result bash) gs))
      \<longleftrightarrow> \<not> on_windows g"
proof -
  have inj: "h = g" if "h \<in> set gs" "gs_name h = gs_name g" for h
    using assms that by (auto simp: distinct_map inj_on_def)
  have v: "sv_verdict (step_result bash h) = step_verdict bash h" for h by (simp add: step_result_def)
  show "gate_recorded (set (built_kinds sha fs dir c task diff agent (map (step_result bash) gs))) (GateId (gs_name g)) oc
      \<longleftrightarrow> \<not> on_windows g \<and> oc = gate_outcome (step_verdict bash g)"
    unfolding gate_recorded_def kind_in_built set_map bex_simps executed_result v result_name GateId.inject
    using inj assms(2) by (metis (no_types))
  show "GateStarted (GateId (gs_name g)) \<in> set (built_kinds sha fs dir c task diff agent (map (step_result bash) gs))
      \<longleftrightarrow> \<not> on_windows g"
    unfolding kind_in_built set_map bex_simps executed_result result_name GateId.inject
    using inj assms(2) by (metis (no_types))
qed

text \<open>The gates the contract requires are the required steps without a waiver.\<close>

lemma required_gates_built:
  assumes "build_contract m = Inr c"
  shows "required_gates c = (\<lambda>g. GateId (gs_name g)) ` {g \<in> set (gm_gate m). gs_required g \<and> \<not> (on_windows g \<and> waived_step g \<noteq> None)}"
proof -
  have "is_required_applicable (obligation_of g) \<longleftrightarrow> gs_required g \<and> \<not> (on_windows g \<and> waived_step g \<noteq> None)" for g
    by (auto simp: is_required_applicable_def obligation_of_def on_windows_def split: option.split)
  moreover have "gob_gate (obligation_of g) = GateId (gs_name g)" for g by (simp add: obligation_of_def)
  moreover have "{ob \<in> f ` A. P ob} = f ` {x \<in> A. P (f x)}" for f :: "GateStep \<Rightarrow> GateObligation" and A P by blast
  ultimately show ?thesis by (simp add: required_gates_def manifest_valid(5) [OF assms] image_image)
qed

lemma gate_outcome_eq:
  "GO_Pass = gate_outcome v \<longleftrightarrow> v = MV_Pass" "GO_Fail = gate_outcome v \<longleftrightarrow> v = MV_Fail"
  "GO_Blocked = gate_outcome v \<longleftrightarrow> v = MV_Blocked" "GO_NotApplicable = gate_outcome v \<longleftrightarrow> v = MV_NotApplicable"
  "GO_Error = gate_outcome v \<longleftrightarrow> v = MV_Error"
  by (cases v; simp)+

lemma verdict_cases:
  "step_verdict bash g = MV_Error \<Longrightarrow> \<not> on_windows g" "step_verdict bash g = MV_Fail \<Longrightarrow> \<not> on_windows g"
  "step_verdict bash g \<in> {MV_Blocked, MV_NotApplicable} \<longleftrightarrow> on_windows g"
  by (auto simp: step_verdict_def split: if_splits BashRun.split bool.split)

text \<open>The legacy reduction, restricted to the required steps.\<close>

lemma required_reduce:
  fixes m :: GateManifest and bash :: "GateStep \<Rightarrow> BashRun"
  defines "R \<equiv> {g \<in> set (gm_gate m). gs_required g \<and> \<not> (on_windows g \<and> waived_step g \<noteq> None)}"
  shows "Verdict_reduce (required_steps bash m) =
    (if \<exists>g \<in> R. step_verdict bash g = MV_Error then MV_Error
     else if \<exists>g \<in> R. step_verdict bash g = MV_Fail then MV_Fail
     else if \<exists>g \<in> R. on_windows g then MV_Blocked else MV_Pass)"
proof -
  have sel: "sv_verdict (step_result bash g) = step_verdict bash g" "sv_required (step_result bash g) = gs_required g" for g
    by (simp_all add: step_result_def)
  have ex: "list_ex P (required_steps bash m) \<longleftrightarrow> (\<exists>g \<in> set (gm_gate m). gs_required g \<and> P (step_result bash g))" for P
    by (auto simp: required_steps_def list_ex_iff)
  have "(\<exists>g \<in> set (gm_gate m). gs_required g \<and> step_verdict bash g = MV_Error) \<longleftrightarrow> (\<exists>g \<in> R. step_verdict bash g = MV_Error)"
    "(\<exists>g \<in> set (gm_gate m). gs_required g \<and> gs_required g \<and> step_verdict bash g = MV_Fail)
      \<longleftrightarrow> (\<exists>g \<in> R. step_verdict bash g = MV_Fail)"
    unfolding R_def using verdict_cases(1,2) by blast+
  moreover have "(\<exists>g \<in> set (gm_gate m). gs_required g \<and> gs_required g
        \<and> \<not> (on_windows g \<and> waived_step g \<noteq> None) \<and> on_windows g) \<longleftrightarrow> (\<exists>g \<in> R. on_windows g)"
    unfolding R_def by blast
  ultimately show ?thesis by (simp only: Verdict_reduce_def ex sel waived_result verdict_cases(3))
qed

lemma spec_built:
  assumes b: "build_contract m = Inr c"
    and K: "K = set (built_kinds sha fs dir c task diff agent (map (step_result bash) (gm_gate m)))"
  shows "from_canonical (spec_verdict c K) =
    (if ar_exit_code agent = Some 0 then Verdict_reduce (required_steps bash m) else MV_Error)"
proof -
  note v = manifest_valid [OF b]
  note rec = gate_recorded_built [OF v(1), where sha = sha and fs = fs and dir = dir and c = c and task = task
      and diff = diff and agent = agent and bash = bash, folded K]
  have free: "required_policies c = {}" "rc_sandbox_requirements c = []" "rc_candidate_state c = None" "rc_agent c = AO_Required"
    by (simp_all add: v(5) required_policies_def)
  have exit: "AgentExited oa \<in> K \<longleftrightarrow> oa = agent_outcome agent" for oa by (simp add: K kind_in_built)
  have exited: "agent_exit_recorded K" by (simp add: agent_exit_recorded_def exit)
  have clean: "agent_outcome agent = ExitedNormally 0 \<longleftrightarrow> ar_exit_code agent = Some 0"
    by (simp add: agent_outcome_def split: option.split)
  let ?R = "{g \<in> set (gm_gate m). gs_required g \<and> \<not> (on_windows g \<and> waived_step g \<noteq> None)}"
  have ex: "(\<exists>x \<in> required_gates c. P x) \<longleftrightarrow> (\<exists>g \<in> ?R. P (GateId (gs_name g)))" for P
    unfolding required_gates_built [OF b] by blast
  have gates: "gate_recorded K (GateId (gs_name g)) oc \<longleftrightarrow> \<not> on_windows g \<and> oc = gate_outcome (step_verdict bash g)"
    "GateStarted (GateId (gs_name g)) \<in> K \<longleftrightarrow> \<not> on_windows g" if "g \<in> ?R" for g oc
    using rec that by simp_all
  have bex: "(\<exists>g \<in> ?R. P g) \<longleftrightarrow> (\<exists>g \<in> ?R. Q g)" if "\<And>g. g \<in> ?R \<Longrightarrow> P g \<longleftrightarrow> Q g" for P Q
    using that by blast
  have "(\<exists>g \<in> ?R. gate_recorded K (GateId (gs_name g)) GO_Error
      \<or> GateStarted (GateId (gs_name g)) \<in> K \<and> (\<forall>oc. \<not> gate_recorded K (GateId (gs_name g)) oc))
    \<longleftrightarrow> (\<exists>g \<in> ?R. step_verdict bash g = MV_Error)"
    using verdict_cases(1) [of bash] by (intro bex) (simp only: gates gate_outcome_eq, blast)
  then have "spec_error c K \<longleftrightarrow> ar_exit_code agent \<noteq> Some 0 \<or> (\<exists>g \<in> ?R. step_verdict bash g = MV_Error)"
    unfolding spec_error_def ex free using exit exited clean by auto
  moreover have "(\<exists>g \<in> ?R. gate_recorded K (GateId (gs_name g)) GO_Fail) \<longleftrightarrow> (\<exists>g \<in> ?R. step_verdict bash g = MV_Fail)"
    using verdict_cases(2) [of bash] by (intro bex) (simp only: gates gate_outcome_eq, blast)
  then have "spec_fail c K \<longleftrightarrow> (\<exists>g \<in> ?R. step_verdict bash g = MV_Fail)"
    unfolding spec_fail_def ex .
  moreover have "(\<exists>g \<in> ?R. gate_recorded K (GateId (gs_name g)) GO_Blocked
      \<or> gate_recorded K (GateId (gs_name g)) GO_NotApplicable \<or> GateStarted (GateId (gs_name g)) \<notin> K)
    \<longleftrightarrow> (\<exists>g \<in> ?R. on_windows g)"
    using verdict_cases(3) [of bash] by (intro bex) (simp only: gates gate_outcome_eq, blast)
  then have "spec_blocked c K \<longleftrightarrow> (\<exists>g \<in> ?R. on_windows g)"
    unfolding spec_blocked_def ex free using exited by auto
  moreover have "(if \<not> z \<or> E then a else X) = (if z then if E then a else X else a)" for z E and a X :: MetaVerdict by simp
  ultimately show ?thesis
    by (simp only: spec_verdict_def required_reduce from_canonical.simps if_distrib [of from_canonical])
qed

section \<open>The record\<close>

text \<open>A host on which nothing fails.\<close>

definition host_ok :: "Host \<Rightarrow> bool" where
  "host_ok h \<longleftrightarrow> (\<forall>n. h_clock h n \<noteq> None) \<and> (\<forall>d. h_mkdir h d) \<and> (\<forall>p. h_writable h p)
     \<and> (\<forall>e. h_event_json h e \<noteq> None) \<and> (\<forall>x. h_meta_json h x \<noteq> None) \<and> (\<forall>vs. h_steps_json h vs \<noteq> None)"

definition record_path :: "RunArgs \<Rightarrow> string \<Rightarrow> string \<Rightarrow> string" where
  "record_path a target run_id = path_join (path_join (ra_runs_dir a) target) run_id"

text \<open>The files of the record when the stream is built.\<close>

definition staged :: "(GateStep \<Rightarrow> BashRun) \<Rightarrow> string \<Rightarrow> string \<Rightarrow> AgentRun \<Rightarrow> string \<Rightarrow> GateManifest \<Rightarrow> Store \<Rightarrow> Store" where
  "staged bash dir task ar diff m fs =
     fold (log_written bash (gate_dir dir)) (gm_gate m)
       (fs(path_join dir ''task.md'' \<mapsto> as_bytes task, path_join dir ''agent.stdout'' \<mapsto> as_bytes (ar_stdout ar),
           path_join dir ''diff.patch'' \<mapsto> as_bytes diff))"

lemma staged_files:
  shows "staged bash dir task ar diff m fs (path_join dir ''task.md'') = Some (as_bytes task)"
    "staged bash dir task ar diff m fs (path_join dir ''diff.patch'') = Some (as_bytes diff)"
    "distinct (map (sanitize \<circ> gs_name) (gm_gate m)) \<Longrightarrow> g \<in> set (gm_gate m) \<Longrightarrow> \<not> on_windows g \<Longrightarrow>
     staged bash dir task ar diff m fs (path_join dir (''gate/'' @ log_file g)) = Some (as_bytes (step_text bash g))"
proof -
  have other: "path_join dir p \<noteq> path_join (gate_dir dir) (log_file k)" if "p \<in> {''task.md'', ''diff.patch''}" for p k
    using that by (auto simp: gate_dir_join path_join_inj)
  show "staged bash dir task ar diff m fs (path_join dir ''task.md'') = Some (as_bytes task)"
    "staged bash dir task ar diff m fs (path_join dir ''diff.patch'') = Some (as_bytes diff)"
    unfolding staged_def by (subst logs_elsewhere; use other in \<open>simp add: path_join_inj\<close>)+
  show "distinct (map (sanitize \<circ> gs_name) (gm_gate m)) \<Longrightarrow> g \<in> set (gm_gate m) \<Longrightarrow> \<not> on_windows g \<Longrightarrow>
     staged bash dir task ar diff m fs (path_join dir (''gate/'' @ log_file g)) = Some (as_bytes (step_text bash g))"
    using logs_kept unfolding staged_def gate_dir_join [OF relative_log_file, symmetric] by blast
qed

lemma step_log_staged:
  assumes "distinct (map (sanitize \<circ> gs_name) (gm_gate m))" "g \<in> set (gm_gate m)" "\<not> on_windows g"
  shows "step_log sha (staged bash dir task ar diff m fs) dir (step_result bash g) =
    Inr (Some (artifact sha AK_GateLog (''gate/'' @ log_file g) (as_bytes (step_text bash g))))"
proof -
  have "sv_log (step_result bash g) = ''gate/'' @ log_file g" using assms(3) by (simp add: step_result_def)
  then show ?thesis using staged_files(3) [OF assms] by (simp add: step_log_def store_read_def)
qed

lemma to_jsonl_total: "(\<And>e. f e \<noteq> None) \<Longrightarrow> \<exists>text. to_jsonl f es = Inr text"
proof -
  assume f: "\<And>e. f e \<noteq> None"
  have "\<exists>t. try_fold (\<lambda>s e. and_then (ok_or (f e) B_Json) (\<lambda>line. Inr (s @ line @ ''\<newline>''))) s es = Inr t" for s
  proof (induction es arbitrary: s)
    case (Cons e es)
    obtain line where "f e = Some line" using f by fastforce
    then show ?case using Cons by simp
  qed simp
  then show ?thesis by (simp add: to_jsonl_def)
qed

text \<open>Everything a successful \<open>execute\<close> computed, in one place.\<close>

lemma execute_result:
  assumes b: "build_contract m = Inr c" and h: "host_ok h" and rid: "run_id \<noteq> []"
    and len: "2 * length (gm_gate m) + 6 < 2 ^ 64"
    and dir_def: "dir = record_path a target run_id"
    and diff_def: "diff = (case diff_vs_base of Some d \<Rightarrow> d | None \<Rightarrow> [])"
    and fs4_def: "fs4 = staged (h_bash h) dir task ar diff m fs"
  shows "\<exists>x s jsonl mt g. execute sha h a repo target run_id base task m c (Inr ar) diff_vs_base fs = Inr x
    \<and> ex_dir x = dir
    \<and> ex_store x = fs4(path_join dir ''events.jsonl'' \<mapsto> as_bytes jsonl, path_join dir ''meta.json'' \<mapsto> as_bytes mt,
        path_join dir (''gate/verdict.json'') \<mapsto> g)
    \<and> to_jsonl (h_event_json h) (ex_stream x) = Inr jsonl \<and> h_meta_json h (ex_meta x) = Some mt
    \<and> rm_steps (ex_meta x) = map (step_result (h_bash h)) (gm_gate m)
    \<and> reachable sha (ex_stream x) s \<and> is_sealed s \<and> st_contract s = Some c
    \<and> map ev_kind (ex_stream x) = built_kinds sha fs4 dir c (artifact sha AK_Task ''task.md'' (as_bytes task))
        (artifact sha AK_Diff ''diff.patch'' (as_bytes diff)) ar (map (step_result (h_bash h)) (gm_gate m))
    \<and> (\<exists>v. st_verdict s = Some v \<and> rm_verdict (ex_meta x) = from_canonical v)"
proof -
  let ?tr = "artifact sha AK_Task ''task.md'' (as_bytes task)"
  let ?dr = "artifact sha AK_Diff ''diff.patch'' (as_bytes diff)"
  let ?steps = "map (step_result (h_bash h)) (gm_gate m)"
  note v = manifest_valid [OF b]
  have clock: "h_clock h n \<noteq> None" and wr: "h_writable h p" and mk: "h_mkdir h p" for n p
    using h by (simp_all add: host_ok_def)
  have run: "GateManifest_run (h_mkdir h) (h_bash h) (h_writable h) (gate_dir dir) m
      (fs(path_join dir ''task.md'' \<mapsto> as_bytes task, path_join dir ''agent.stdout'' \<mapsto> as_bytes (ar_stdout ar),
          path_join dir ''diff.patch'' \<mapsto> as_bytes diff)) = Inr (?steps, fs4)"
    using run_steps_result [of "h_writable h", OF wr] by (simp add: GateManifest_run_def v(4) mk fs4_def staged_def)
  have recordable: "recordable sha fs4 dir c w" if w: "w \<in> set ?steps" "executed w" for w
  proof -
    obtain g where g: "g \<in> set (gm_gate m)" "w = step_result (h_bash h) g" using w(1) by auto
    then have "\<not> on_windows g" using w(2) executed_result by simp
    then show ?thesis
      using step_log_staged [OF v(2) g(1)] g v(3) [OF g(1)] unfolding fs4_def recordable_def
      by (auto simp: v(5) declared_gates_def obligation_of_def)
  qed
  have names: "distinct (map sv_name ?steps)" using v(1) by (simp add: comp_def)
  have arts: "artifact_ok ?tr AK_Task" "artifact_ok ?dr AK_Diff" by (simp_all add: artifact_def artifact_ok_def)
  have free: "rc_policy_obligations c = []" "rc_agent c = AO_Required" "rc_candidate_state c = None" by (simp_all add: v(5))
  have len': "2 * length ?steps + 6 < 2 ^ 64" using len by simp
  obtain es s where es: "build_events sha (h_clock h) fs4 dir run_id c ?tr ?dr ar ?steps = Inr es" "reachable sha es s"
    "is_sealed s" "st_contract s = Some c" "map ev_kind es = built_kinds sha fs4 dir c ?tr ?dr ar ?steps"
    using build_accepted [of "h_clock h" run_id c ?tr ?dr ?steps sha fs4 dir ar, OF clock rid built_contract_wf [OF b] free arts
        recordable names len'] by blast
  obtain vd where vd: "st_verdict s = Some vd" using sealed_verdict [OF es(2,3,4)] by blast
  have can: "canonical_verdict sha es = Inr (from_canonical vd)"
    using es(2) vd by (simp add: canonical_verdict_def flip: reduce_all_iff_reachable)
  obtain jsonl where jsonl: "to_jsonl (h_event_json h) es = Inr jsonl"
    using to_jsonl_total [of "h_event_json h" es] h unfolding host_ok_def by blast
  define mt st where "mt = (\<lambda>mm. the (h_meta_json h mm))" and "st = (\<lambda>vs. the (h_steps_json h vs))"
  then have json: "h_meta_json h mm = Some (mt mm)" "h_steps_json h vs = Some (st vs)" for mm vs
    using h by (simp_all add: host_ok_def)
  have wm: "write_meta h dir mm f = Inr (f(path_join dir ''meta.json'' \<mapsto> as_bytes (mt mm),
      path_join dir ''gate/verdict.json'' \<mapsto> as_bytes (st (rm_steps mm))))" for mm f
    by (simp add: write_meta_def json store_write_def wr gate_dir_join)
  have create: "RunRecord_create h (ra_runs_dir a) target run_id = Inr dir"
    by (simp add: RunRecord_create_def mk dir_def record_path_def)
  show ?thesis
    unfolding execute_def Let_def diff_def [symmetric]
    by (simp add: create write_task_def write_agent_stdout_def write_diff_def write_text_def EVENTS_FILE_def
        store_write_def wr run es(1) jsonl can wm json del: fun_upd_apply) (use es vd jsonl in blast)
qed

section \<open>Replay of the record\<close>

lemma built_references:
  assumes "distinct (map (sanitize \<circ> gs_name) (gm_gate m))" "rc_policy_obligations c = []"
    and "map ev_kind es = built_kinds sha (staged bash dir task ar diff m fs) dir c tr dr ar (map (step_result bash) (gm_gate m))"
    and "a \<in> set (references es)"
  shows "a = tr \<or> a = dr \<or> (\<exists>g \<in> set (gm_gate m). \<not> on_windows g
    \<and> a = artifact sha AK_GateLog (''gate/'' @ log_file g) (as_bytes (step_text bash g)))"
proof -
  have "references es = concat (map referenced_artifacts (map ev_kind es))" by (simp add: references_def comp_def)
  then consider "a = tr" | "a = dr" | v where "v \<in> set (map (step_result bash) (gm_gate m))"
      "a \<in> set (concat (map referenced_artifacts (step_kinds sha (staged bash dir task ar diff m fs) dir v)))"
    using assms(2,4) unfolding assms(3) by (auto simp: built_kinds_def)
  then show ?thesis
  proof cases
    case 3
    then obtain g where g: "g \<in> set (gm_gate m)" "v = step_result bash g" by auto
    then have "\<not> on_windows g" using 3(2) executed_result by (auto simp: step_kinds_def split: if_splits)
    then show ?thesis
      using 3(2) g step_log_staged [OF assms(1) g(1)]
      by (auto simp: step_kinds_def executed_result logged_def)
  qed simp_all
qed

lemma intact_in_store:
  assumes "fs (path_join dir locator) = Some bs" "confined locator"
  shows "intact sha (RecordDirResolver_resolve (store_read fs) dir) (artifact sha k locator bs)"
  using assms by (simp add: intact_def RecordDirResolver_resolve_def artifact_def store_read_def)

lemma names_confined: "confined ''task.md''" "confined ''diff.patch''"
  by code_simp+

lemma built_no_candidate:
  "CandidateStateCaptured r \<notin> set (built_kinds sha fs dir c task diff agent steps)"
  "CandidateStateMaterialized p q r d \<notin> set (built_kinds sha fs dir c task diff agent steps)"
  by (auto simp: built_kinds_def step_kinds_def split: if_splits)

lemma length_built: "length (built_kinds sha fs dir c task diff agent steps) \<le> 5 + 2 * length steps"
proof -
  have "length (concat (map (step_kinds sha fs dir) steps)) \<le> 2 * length steps"
    by (induction steps) (auto simp: step_kinds_def)
  then show ?thesis by (simp add: built_kinds_def)
qed

lemma captured_unrecorded:
  "reachable sha es s \<Longrightarrow> st_candidate_state s = None \<longleftrightarrow> (\<forall>r. CandidateStateCaptured r \<notin> kinds es)"
proof -
  assume r: "reachable sha es s"
  have "wr_captured k = None \<longleftrightarrow> (\<forall>r. k \<noteq> CandidateStateCaptured r)" for k by (cases k) auto
  then have "(\<forall>k \<in> K. wr_captured k = None) \<longleftrightarrow> (\<forall>r. CandidateStateCaptured r \<notin> K)" for K by auto
  then show ?thesis using captured_slot.unrecorded [OF r] by simp
qed

lemma kinds_built: "map ev_kind es = ks \<Longrightarrow> kinds es = set ks"
  by (metis set_map)

lemma to_from_canonical [simp]: "to_canonical (from_canonical v) = Inr v"
  by (cases v) (simp_all add: to_canonical_def)

section \<open>Lines\<close>

lemma utf8_valid_append: "utf8_valid xs \<Longrightarrow> utf8_valid ys \<Longrightarrow> utf8_valid (xs @ ys)"
proof (induction "length xs" arbitrary: xs rule: less_induct)
  case less
  note [simp del] = utf8_valid.simps(2)
  show ?case
  proof (cases xs)
    case (Cons b r)
    note valid = less.prems(1) [unfolded Cons utf8_valid.simps(2)]
    have ih: "utf8_valid (zs @ ys)" if "length zs \<le> length r" "utf8_valid zs" for zs
      using less.hyps [of zs] that less.prems(2) Cons by simp
    consider (one) "b < 0x80" | (two) "\<not> b < 0x80" "0xC2 \<le> b \<and> b \<le> 0xDF"
      | (three) "\<not> b < 0x80" "\<not> (0xC2 \<le> b \<and> b \<le> 0xDF)" "0xE0 \<le> b \<and> b \<le> 0xEF"
      | (four) "\<not> b < 0x80" "\<not> (0xC2 \<le> b \<and> b \<le> 0xDF)" "\<not> (0xE0 \<le> b \<and> b \<le> 0xEF)" "0xF0 \<le> b \<and> b \<le> 0xF4"
      using valid by meson
    then show ?thesis
    proof cases
      case one
      then show ?thesis using valid ih [of r] by (simp add: Cons utf8_valid.simps(2) [of b])
    next
      case two
      then obtain c1 r1 where r: "r = c1 # r1" using valid by (cases r) simp_all
      then show ?thesis using valid two ih [of r1] by (simp add: Cons utf8_valid.simps(2) [of b])
    next
      case three
      then obtain c1 c2 r2 where r: "r = c1 # c2 # r2" using valid by (cases r; cases "tl r") simp_all
      then show ?thesis using valid three ih [of r2] by (auto simp: Cons utf8_valid.simps(2) [of b])
    next
      case four
      then obtain c1 c2 c3 r3 where r: "r = c1 # c2 # c3 # r3"
        using valid by (cases r; cases "tl r"; cases "tl (tl r)") simp_all
      then show ?thesis using valid four ih [of r3] by (auto simp: Cons utf8_valid.simps(2) [of b])
    qed
  qed (use less.prems in simp)
qed

lemma as_bytes_append [simp]: "as_bytes (s @ t) = as_bytes s @ as_bytes t"
  by (simp add: as_bytes_def)

lemma string_of_as_bytes [simp]: "string_of_bytes (as_bytes s) = s"
proof -
  have "char_of (unat (byte_of_char c)) = c" for c
    by (simp add: byte_of_char_def unsigned_of_nat take_bit_nat_eq_self)
  then show ?thesis by (simp add: string_of_bytes_def as_bytes_def map_idI)
qed

text \<open>A line of text: valid UTF-8, not blank, without line feeds, not ending in a carriage return.\<close>

definition text_line :: "string \<Rightarrow> bool" where
  "text_line l \<longleftrightarrow> utf8_valid (as_bytes l) \<and> \<not> trim_is_empty l \<and> CHR 0x0A \<notin> set l \<and> last l \<noteq> CHR 0x0D"

lemma str_lines_line: "CHR 0x0A \<notin> set l \<Longrightarrow> str_lines acc (l @ CHR 0x0A # rest) = strip_cr (acc @ l) # str_lines [] rest"
  by (induction l arbitrary: acc) auto

lemma str_lines_text: "(\<And>l. l \<in> set ls \<Longrightarrow> text_line l) \<Longrightarrow> str_lines [] (concat (map (\<lambda>l. l @ ''\<newline>'') ls)) = ls"
  by (induction ls) (auto simp: str_lines_line text_line_def strip_cr_def)

lemma utf8_text: "(\<And>l. l \<in> set ls \<Longrightarrow> text_line l) \<Longrightarrow> utf8_valid (as_bytes (concat (map (\<lambda>l. l @ ''\<newline>'') ls)))"
proof (induction ls)
  case (Cons l ls)
  have "utf8_valid (as_bytes ''\<newline>'')" by code_simp
  moreover have "utf8_valid (as_bytes l)" using Cons.prems [of l] by (simp add: text_line_def)
  ultimately have "utf8_valid (as_bytes (l @ ''\<newline>''))"
    unfolding as_bytes_append by (intro utf8_valid_append)
  moreover have "utf8_valid (as_bytes (concat (map (\<lambda>l. l @ ''\<newline>'') ls)))" using Cons by simp
  ultimately have "utf8_valid (as_bytes (l @ ''\<newline>'') @ as_bytes (concat (map (\<lambda>l. l @ ''\<newline>'') ls)))"
    by (rule utf8_valid_append)
  then show ?case unfolding list.map concat.simps as_bytes_append [symmetric] .
qed (simp add: as_bytes_def)

lemma to_jsonl_lines:
  "to_jsonl f es = Inr text \<Longrightarrow> \<exists>ls. list_all2 (\<lambda>e l. f e = Some l) es ls \<and> text = concat (map (\<lambda>l. l @ ''\<newline>'') ls)"
proof -
  have "\<exists>ls. list_all2 (\<lambda>e l. f e = Some l) es ls \<and> t = s @ concat (map (\<lambda>l. l @ ''\<newline>'') ls)"
    if "try_fold (\<lambda>s e. and_then (ok_or (f e) B_Json) (\<lambda>line. Inr (s @ line @ ''\<newline>''))) s es = Inr t" for s t
    using that
  proof (induction es arbitrary: s)
    case (Cons e es)
    then obtain l where l: "f e = Some l"
      "try_fold (\<lambda>s e. and_then (ok_or (f e) B_Json) (\<lambda>line. Inr (s @ line @ ''\<newline>''))) (s @ l @ ''\<newline>'') es = Inr t"
      by auto
    from Cons.IH [OF l(2)] obtain ls where "list_all2 (\<lambda>e l. f e = Some l) es ls"
      "t = (s @ l @ ''\<newline>'') @ concat (map (\<lambda>l. l @ ''\<newline>'') ls)" by blast
    then show ?case using l(1) by (intro exI [of _ "l # ls"]) simp
  qed simp
  then show "to_jsonl f es = Inr text \<Longrightarrow> ?thesis" unfolding to_jsonl_def by fastforce
qed

lemma jsonl_events_back:
  "list_all2 (\<lambda>e l. \<not> trim_is_empty l \<and> from_str l = Some e) es ls \<Longrightarrow> jsonl_events from_str i ls = Inr es"
  by (induction arbitrary: i rule: list_all2_induct) simp_all

text \<open>The event file reads back as the stream when the serializer writes one line per event and reads it back.\<close>

lemma jsonl_round_trip:
  assumes "to_jsonl f es = Inr text" "\<And>e l. e \<in> set es \<Longrightarrow> f e = Some l \<Longrightarrow> text_line l \<and> from_str l = Some e"
  shows "utf8_valid (as_bytes text)" "from_jsonl from_str text = Inr es"
proof -
  obtain ls where ls: "list_all2 (\<lambda>e l. f e = Some l) es ls" "text = concat (map (\<lambda>l. l @ ''\<newline>'') ls)"
    using to_jsonl_lines [OF assms(1)] by blast
  have both: "list_all2 (\<lambda>e l. text_line l \<and> from_str l = Some e) es ls"
    using ls(1) by (rule list.rel_mono_strong) (rule assms(2))
  then have line: "text_line l" if "l \<in> set ls" for l
    using that by (auto simp: list_all2_conv_all_nth in_set_conv_nth)
  show "utf8_valid (as_bytes text)" unfolding ls(2) using utf8_text line by blast
  have "list_all2 (\<lambda>e l. \<not> trim_is_empty l \<and> from_str l = Some e) es ls"
    using both by (rule list_all2_mono) (simp add: text_line_def)
  moreover have "str_lines [] text = ls" unfolding ls(2) using line by (rule str_lines_text)
  ultimately show "from_jsonl from_str text = Inr es"
    unfolding from_jsonl_def by (simp add: jsonl_events_back)
qed

text \<open>Files that keep the staged task, diff and logs are enough for the stream to verify.\<close>

lemma record_verifies:
  assumes b: "build_contract m = Inr c"
    and k: "map ev_kind es = built_kinds sha (staged bash dir task ar d m fs) dir c
      (artifact sha AK_Task ''task.md'' (as_bytes task)) (artifact sha AK_Diff ''diff.patch'' (as_bytes d)) ar
      (map (step_result bash) (gm_gate m))"
    and r: "reachable sha es s"
    and kept: "\<And>p. relative p \<Longrightarrow> p \<notin> {''events.jsonl'', ''meta.json'', ''gate/verdict.json''} \<Longrightarrow>
      store (path_join dir p) = staged bash dir task ar d m fs (path_join dir p)"
  shows "\<exists>n. verify_prefix sha rj bj es (RecordDirResolver_resolve (store_read store) dir) = Inr (s, n)"
proof -
  note v = manifest_valid [OF b]
  have free: "rc_policy_obligations c = []" by (simp add: v(5))
  let ?res = "RecordDirResolver_resolve (store_read store) dir"
  have "intact sha ?res a" if "a \<in> set (references es)" for a
    using built_references [OF v(2) free k that]
  proof (elim disjE bexE conjE)
    show "a = artifact sha AK_Task ''task.md'' (as_bytes task) \<Longrightarrow> intact sha ?res a"
      "a = artifact sha AK_Diff ''diff.patch'' (as_bytes d) \<Longrightarrow> intact sha ?res a"
      using staged_files(1,2) kept names_confined by (simp_all add: intact_in_store)
  next
    fix g assume g: "g \<in> set (gm_gate m)" "\<not> on_windows g"
      "a = artifact sha AK_GateLog (''gate/'' @ log_file g) (as_bytes (step_text bash g))"
    have "log_file g \<noteq> ''verdict.json''" using log_file_last [of g] by auto
    then have "store (path_join dir (''gate/'' @ log_file g)) = Some (as_bytes (step_text bash g))"
      using kept [of "''gate/'' @ log_file g"] staged_files(3) [OF v(2) g(1,2)] by simp
    then show "intact sha ?res a" unfolding g(3) using log_confined by (rule intact_in_store)
  qed
  moreover have "st_candidate_state s = None" "st_candidate_materialized s = None"
    unfolding captured_unrecorded [OF r] materialized_unrecorded [OF r] kinds_built [OF k]
    by (simp_all add: built_no_candidate)
  moreover have "es \<noteq> []" using k by (auto simp: built_kinds_def)
  ultimately show ?thesis
    using r by (auto simp: record_dir.verify_prefix_iff record_dir.verify_prefix_core_iff reduce_all_iff_reachable)
qed

end
