(* ===== verification/Execute_Properties.thy ===== *)
theory Execute_Properties
  imports Run_Execute
begin

text \<open>The properties of \<^verbatim>\<open>o7 run\<close> and of the replay of its record, with an example host and manifest.\<close>

section \<open>A host, a manifest\<close>

definition demo_gate :: "string \<Rightarrow> bool \<Rightarrow> string option \<Rightarrow> string option \<Rightarrow> GateStep" where
  "demo_gate n required env waiver =
     \<lparr>gs_name = n, gs_cmd = ''make '' @ n, gs_required = required, gs_env = env, gs_waive_reason = waiver\<rparr>"

definition demo_manifest :: GateManifest where
  "demo_manifest = \<lparr>gm_schema = 1, gm_gate =
     [demo_gate ''build'' True None None, demo_gate ''unit tests'' True None None, demo_gate ''lint'' False None None,
      demo_gate ''ui'' True (Some ''windows'') (Some ''no desktop session'')]\<rparr>"

definition demo_contract :: RunContract where
  "demo_contract = (case build_contract demo_manifest of Inr c \<Rightarrow> c | Inl _ \<Rightarrow>
     \<lparr>rc_gate_obligations = [], rc_policy_obligations = [], rc_sandbox_requirements = [], rc_agent = AO_Required,
      rc_runner_environment = [], rc_candidate_state = None\<rparr>)"

definition demo_host :: Host where
  "demo_host = \<lparr>h_clock = (\<lambda>n. Some 5), h_mkdir = (\<lambda>_. True), h_writable = (\<lambda>_. True),
     h_bash = (\<lambda>g. if gs_name g = ''lint'' then SpawnFailed ''no bash'' else Ran True (Some 0) ''ok''),
     h_event_json = (\<lambda>_. Some ''{}''), h_meta_json = (\<lambda>_. Some ''{}''), h_steps_json = (\<lambda>_. Some ''[]'')\<rparr>"

definition demo_args :: RunArgs where
  "demo_args = \<lparr>ra_runs_dir = ''runs'', ra_engine = ''claude'', ra_model = ''m''\<rparr>"

definition demo_agent :: AgentRun where
  "demo_agent = \<lparr>ar_stdout = ''done'', ar_exit_code = Some 0, ar_session_id = None\<rparr>"

lemma demo_built: "build_contract demo_manifest = Inr demo_contract"
  by code_simp


lemma demo_sizes: "(''run-1'' :: string) \<noteq> []" "2 * length (gm_gate demo_manifest) + 6 < 2 ^ 64"
  by (simp_all add: demo_manifest_def)

section \<open>Properties\<close>




text \<open>
  C21. A record replays from its own files. \<open>replay_record\<close>, run on the directory \<open>execute\<close> left, reads back the
  stream and the metadata and accepts them: the task, the diff and every gate log are found under the digests
  the stream declares, none overwritten by a later step or by the metadata files, and the replayed verdict is
  the recorded one. The hypotheses on \<^verbatim>\<open>serde_json\<close> are that an event is written as one line that parses back
  to it, and likewise the metadata as text.
\<close>

theorem execute_replays:
  assumes "build_contract m = Inr c" "host_ok h" "run_id \<noteq> []" "2 * length (gm_gate m) + 6 < 2 ^ 64"
    and "\<And>s. to_vec s \<noteq> None"
    and exec: "execute sha h a repo target run_id base task m c (Inr ar) diff fs = Inr x"
    and events: "\<And>e l. e \<in> set (ex_stream x) \<Longrightarrow> h_event_json h e = Some l \<Longrightarrow> text_line l \<and> from_str l = Some e"
    and meta: "\<And>t. h_meta_json h (ex_meta x) = Some t \<Longrightarrow> utf8_valid (as_bytes t) \<and> meta_of t = Some (ex_meta x)"
  shows "\<exists>report. replay_record sha to_vec rj bj from_str meta_of (ex_store x) (ex_dir x) = Inr report
    \<and> from_canonical (rr_verdict report) = rm_verdict (ex_meta x)
    \<and> rr_events_verified report = of_nat (length (ex_stream x))"
proof -
  define dir d where "dir = record_path a target run_id" and "d = (case diff of Some d \<Rightarrow> d | None \<Rightarrow> [])"
  define fs4 where "fs4 = staged (h_bash h) dir task ar d m fs"
  obtain s jsonl mt g v where x: "ex_dir x = dir"
    "ex_store x = fs4(path_join dir ''events.jsonl'' \<mapsto> as_bytes jsonl, path_join dir ''meta.json'' \<mapsto> as_bytes mt,
        path_join dir (''gate/verdict.json'') \<mapsto> g)"
    "to_jsonl (h_event_json h) (ex_stream x) = Inr jsonl" "h_meta_json h (ex_meta x) = Some mt"
    and s: "reachable sha (ex_stream x) s" "st_verdict s = Some v" "rm_verdict (ex_meta x) = from_canonical v"
    and k: "map ev_kind (ex_stream x) = built_kinds sha fs4 dir c (artifact sha AK_Task ''task.md'' (as_bytes task))
      (artifact sha AK_Diff ''diff.patch'' (as_bytes d)) ar (map (step_result (h_bash h)) (gm_gate m))"
    using execute_result [OF assms(1-4) dir_def d_def fs4_def, where sha = sha and repo = repo and base = base] exec by auto
  have kept: "ex_store x (path_join dir p) = fs4 (path_join dir p)"
    if "relative p" "p \<notin> {''events.jsonl'', ''meta.json'', ''gate/verdict.json''}" for p
    using that by (simp add: x(2) path_join_inj)
  obtain n where "verify_prefix sha rj bj (ex_stream x) (RecordDirResolver_resolve (store_read (ex_store x)) dir) = Inr (s, n)"
    using record_verifies [OF assms(1) k [unfolded fs4_def] s(1) kept [unfolded fs4_def]] by blast
  moreover obtain bs where "to_vec s = Some bs" using assms(5) by fastforce
  moreover have "ex_stream x \<noteq> []" using k by (auto simp: built_kinds_def)
  moreover have "read_to_string (ex_store x) (path_join dir EVENTS_FILE) = Inr jsonl"
    "from_jsonl from_str jsonl = Inr (ex_stream x)"
    using jsonl_round_trip [OF x(3) events] by (simp_all add: read_to_string_def store_read_def EVENTS_FILE_def x(2) path_join_inj)
  moreover have "read_to_string (ex_store x) (path_join dir ''meta.json'') = Inr mt" "meta_of mt = Some (ex_meta x)"
    using meta [OF x(4)] by (simp_all add: read_to_string_def store_read_def x(2) path_join_inj)
  ultimately show ?thesis
    using s(2,3) by (simp add: replay_record_def x(1) replay_verify_def replay_def last_opt_def normalized_digest_def)
qed

text \<open>The host above with an event written as its sequence number.\<close>

definition numbering_host :: Host where
  "numbering_host = demo_host\<lparr>h_event_json := \<lambda>e. Some (decimal (unat (ev_sequence e)))\<rparr>"

lemma numbering_host_ok: "host_ok numbering_host"
  by (simp add: host_ok_def numbering_host_def demo_host_def)

lemma blank_digit: "48 \<le> a \<Longrightarrow> a \<le> 57 \<Longrightarrow> \<not> blank_codes (a # as)"
  by (cases as; cases "tl as") (auto simp: ascii_white_def white2_def white3_def)

lemma ascii_utf8: "(\<And>c. c \<in> set s \<Longrightarrow> (of_char c :: nat) < 128) \<Longrightarrow> utf8_valid (as_bytes s)"
proof (induction s)
  case (Cons c s)
  have "byte_of_char c < 0x80" using Cons.prems [of c] by (simp add: byte_of_char_def word_less_nat_alt unat_of_nat)
  then show ?case using Cons by (simp add: as_bytes_def)
qed (simp add: as_bytes_def)

lemma decimal_line: "text_line (decimal n)"
  unfolding text_line_def
proof (intro conjI)
  show "utf8_valid (as_bytes (decimal n))" using decimal_digits by (intro ascii_utf8) fastforce
  obtain c cs where d: "decimal n = c # cs" using decimal_ne by (metis neq_Nil_conv)
  show "\<not> trim_is_empty (decimal n)"
    using decimal_digits [of c n] by (simp add: d trim_is_empty_def blank_digit del: decimal.simps)
  show "CHR 0x0A \<notin> set (decimal n)" using decimal_digits [of "CHR 0x0A" n] by auto
  show "last (decimal n) \<noteq> CHR 0x0D" using decimal_digits [of "last (decimal n)" n] last_in_set [OF decimal_ne, of n] by auto
qed

theorem execute_replays_witness:
  "\<exists>x from_str meta_of report. execute zero_sha numbering_host demo_args ''repo'' ''t'' ''run-1'' ''base'' ''task''
      demo_manifest demo_contract (Inr demo_agent) (Some ''diff'') Map.empty = Inr x
    \<and> replay_record zero_sha (\<lambda>_. Some []) (\<lambda>_. Inl ''none'') (\<lambda>_. Inl ''none'') from_str meta_of
        (ex_store x) (ex_dir x) = Inr report
    \<and> from_canonical (rr_verdict report) = rm_verdict (ex_meta x)"
proof -
  obtain x s where x: "execute zero_sha numbering_host demo_args ''repo'' ''t'' ''run-1'' ''base'' ''task''
      demo_manifest demo_contract (Inr demo_agent) (Some ''diff'') Map.empty = Inr x" and s: "reachable zero_sha (ex_stream x) s"
    and ks: "length (map ev_kind (ex_stream x)) \<le> 5 + 2 * length (gm_gate demo_manifest)"
    using execute_result [OF demo_built numbering_host_ok demo_sizes refl refl refl, where sha = zero_sha and ar = demo_agent
        and diff_vs_base = "Some ''diff''" and a = demo_args and target = "''t''" and task = "''task''" and fs = Map.empty
        and repo = "''repo''" and base = "''base''"] length_built length_map by metis
  let ?from = "\<lambda>l. Some (ex_stream x ! dec_value l)" and ?meta = "\<lambda>_. Some (ex_meta x)"
  have "text_line l \<and> ?from l = Some e" if e: "e \<in> set (ex_stream x)" "h_event_json numbering_host e = Some l" for e l
  proof -
    obtain i where i: "i < length (ex_stream x)" "e = ex_stream x ! i" using e(1) by (metis in_set_conv_nth)
    then have "unat (ev_sequence e) = i"
      using reachable_sequence [OF s i(1)] ks by (simp add: demo_manifest_def unsigned_of_nat take_bit_nat_eq_self)
    moreover have "l = decimal (unat (ev_sequence e))" using e(2) by (simp add: numbering_host_def)
    ultimately show ?thesis using i decimal_line dec_value_decimal by simp
  qed
  moreover have "utf8_valid (as_bytes t) \<and> ?meta t = Some (ex_meta x)" if "h_meta_json numbering_host (ex_meta x) = Some t" for t
    using that by (auto simp: numbering_host_def demo_host_def intro!: ascii_utf8)
  ultimately show ?thesis
    using execute_replays [OF demo_built numbering_host_ok demo_sizes _ x, of "\<lambda>_. Some []" ?from ?meta] x by blast
qed

end
