(* ===== verification/Closure_Classifier.thy ===== *)
theory Closure_Classifier
  imports O7_Prelude
begin

text \<open>
  The pure closure classifier: \<^verbatim>\<open>crates/o7-closure-classifier/src/lib.rs\<close>. Explicit observations of a
  frozen subject are turned into a predicate with one state per required observation and a
  headline. The map of observations (a \<^verbatim>\<open>BTreeMap\<close>, only looked up) is a partial map.
\<close>

section \<open>Data\<close>

datatype State = S_Pass | S_Finding | S_Owed | S_CannotCheck | S_Stale

fun rank :: "State \<Rightarrow> nat" where
  "rank S_Pass = 0"
| "rank S_Owed = 1"
| "rank S_CannotCheck = 2"
| "rank S_Finding = 3"
| "rank S_Stale = 4"

datatype 'a Acquisition = Available 'a | NotProduced | RateLimited | Failed string

datatype CheckConclusion = Success | Failure

record CheckEvidence =
  chk_stable_id :: string
  chk_head_sha :: string
  chk_conclusion :: CheckConclusion

record ReviewEvidence =
  rev_stable_id :: string
  rev_commit_id :: string
  rev_author :: string
  rev_carries_finding :: bool

datatype ObservationInput = Check "CheckEvidence Acquisition" | Review "ReviewEvidence Acquisition"

datatype SourceKind = GithubActionsCheck | SubmittedReview | ReviewComment | IssueComment

datatype Verification = Reproduced | Claimed | VerificationFailed string

record FalsificationFact =
  ff_source_kind :: SourceKind
  ff_stable_id :: string
  ff_subject_sha :: "string option"
  ff_author :: string
  ff_verification :: Verification

datatype ClassifierError =
    MissingRequiredObservation string
  | FalsificationSubjectMismatch string string string

record Subject =
  sub_repository :: string
  sub_pull_request :: u64
  sub_expected_sha :: string
  sub_head_before :: string
  sub_head_after :: string

record Policy =
  pol_id :: string
  pol_required_observations :: "string list"

record ClassifierInput =
  ci_subject :: Subject
  ci_policy :: Policy
  ci_observations :: "string \<rightharpoonup> ObservationInput"
  ci_falsifications :: "FalsificationFact list"
  ci_known_debts :: "string list"

record SourceOut =
  so_kind :: SourceKind
  so_stable_id :: string

datatype AcquisitionStatus = AS_Available | AS_NotProduced | AS_RateLimited | AS_Failed

record AcquisitionOut =
  ao_status :: AcquisitionStatus
  ao_reason :: "string option"

datatype VerificationStatus = VS_Reproduced | VS_Claimed | VS_Failed

record VerificationOut =
  vo_status :: VerificationStatus
  vo_reason :: "string option"

record ObservationOut =
  oo_id :: string
  oo_state :: State
  oo_acquisition :: AcquisitionOut
  oo_source :: "SourceOut option"

record PolicyOut =
  po_id :: string
  po_required_observations :: "string list"
  po_completeness_claimed :: bool

record FalsificationOut =
  fo_source :: SourceOut
  fo_subject_sha :: "string option"
  fo_author :: string
  fo_verification :: VerificationOut
  fo_state :: State

record Predicate =
  pr_schema_version :: u32
  pr_repository :: string
  pr_pull_request :: u64
  pr_git_commit :: string
  pr_policy :: PolicyOut
  pr_observations :: "ObservationOut list"
  pr_falsifications :: "FalsificationOut list"
  pr_subject_stale :: bool
  pr_headline :: State
  pr_known_debts :: "string list"

section \<open>One observation\<close>

definition available :: AcquisitionOut where
  "available = \<lparr>ao_status = AS_Available, ao_reason = None\<rparr>"

definition status :: "AcquisitionStatus \<Rightarrow> AcquisitionOut" where
  "status st = \<lparr>ao_status = st, ao_reason = None\<rparr>"

definition failed :: "string \<Rightarrow> AcquisitionOut" where
  "failed reason = \<lparr>ao_status = AS_Failed, ao_reason = Some reason\<rparr>"

fun classify_check ::
  "CheckEvidence Acquisition \<Rightarrow> string \<Rightarrow> State \<times> AcquisitionOut \<times> SourceOut option" where
  "classify_check (Available check) expected_sha =
     (let source = Some \<lparr>so_kind = GithubActionsCheck, so_stable_id = chk_stable_id check\<rparr>;
          state = (if chk_head_sha check \<noteq> expected_sha then S_Owed
                   else (case chk_conclusion check of Success \<Rightarrow> S_Pass | Failure \<Rightarrow> S_Finding))
      in (state, available, source))"
| "classify_check NotProduced expected_sha = (S_Owed, status AS_NotProduced, None)"
| "classify_check RateLimited expected_sha = (S_Owed, status AS_RateLimited, None)"
| "classify_check (Failed reason) expected_sha = (S_CannotCheck, failed reason, None)"

fun classify_review ::
  "ReviewEvidence Acquisition \<Rightarrow> string \<Rightarrow> State \<times> AcquisitionOut \<times> SourceOut option" where
  "classify_review (Available review) expected_sha =
     (let source = Some \<lparr>so_kind = SubmittedReview, so_stable_id = rev_stable_id review\<rparr>;
          state = (if rev_commit_id review \<noteq> expected_sha then S_Owed
                   else if rev_carries_finding review then S_Finding
                   else S_Pass)
      in (state, available, source))"
| "classify_review NotProduced expected_sha = (S_Owed, status AS_NotProduced, None)"
| "classify_review RateLimited expected_sha = (S_Owed, status AS_RateLimited, None)"
| "classify_review (Failed reason) expected_sha = (S_CannotCheck, failed reason, None)"

section \<open>The snapshot\<close>

definition check_required :: "ClassifierInput \<Rightarrow> string \<Rightarrow> (ClassifierError, unit) result" where
  "check_required inp i =
     (if ci_observations inp i = None then Inl (MissingRequiredObservation i) else Inr ())"

definition check_falsification :: "string \<Rightarrow> FalsificationFact \<Rightarrow> (ClassifierError, unit) result" where
  "check_falsification expected f =
     (case ff_subject_sha f of
        Some sha \<Rightarrow>
          if sha \<noteq> expected then Inl (FalsificationSubjectMismatch (ff_stable_id f) sha expected)
          else Inr ()
      | None \<Rightarrow> Inr ())"

definition observation_out :: "ClassifierInput \<Rightarrow> string \<Rightarrow> ObservationOut" where
  "observation_out inp i =
     (let expected = sub_expected_sha (ci_subject inp);
          (state, acquisition, source) =
            (case ci_observations inp i of
               None \<Rightarrow> (S_CannotCheck, failed ''required observation absent from the input map'', None)
             | Some (Check acq) \<Rightarrow> classify_check acq expected
             | Some (Review acq) \<Rightarrow> classify_review acq expected)
      in \<lparr>oo_id = i, oo_state = state, oo_acquisition = acquisition, oo_source = source\<rparr>)"

fun verification_out :: "Verification \<Rightarrow> VerificationOut" where
  "verification_out Reproduced = \<lparr>vo_status = VS_Reproduced, vo_reason = None\<rparr>"
| "verification_out Claimed = \<lparr>vo_status = VS_Claimed, vo_reason = None\<rparr>"
| "verification_out (VerificationFailed reason) = \<lparr>vo_status = VS_Failed, vo_reason = Some reason\<rparr>"

fun verification_state :: "Verification \<Rightarrow> State" where
  "verification_state Reproduced = S_Finding"
| "verification_state Claimed = S_Owed"
| "verification_state (VerificationFailed _) = S_CannotCheck"

definition falsification_out :: "FalsificationFact \<Rightarrow> FalsificationOut" where
  "falsification_out f =
     \<lparr>fo_source = \<lparr>so_kind = ff_source_kind f, so_stable_id = ff_stable_id f\<rparr>,
      fo_subject_sha = ff_subject_sha f,
      fo_author = ff_author f,
      fo_verification = verification_out (ff_verification f),
      fo_state = verification_state (ff_verification f)\<rparr>"

text \<open>\<^verbatim>\<open>Iterator::max_by_key\<close>: the last element of maximal key, \<open>None\<close> on an empty iterator.\<close>

fun max_by_key :: "('a \<Rightarrow> nat) \<Rightarrow> 'a list \<Rightarrow> 'a option" where
  "max_by_key f [] = None"
| "max_by_key f (x # xs) = Some (fold (\<lambda>y best. if f best \<le> f y then y else best) xs x)"

definition headline_of :: "ObservationOut list \<Rightarrow> FalsificationOut list \<Rightarrow> bool \<Rightarrow> State" where
  "headline_of observations falsifications subject_stale =
     (let headline = (case max_by_key rank (map oo_state observations @ map fo_state falsifications) of
                        None \<Rightarrow> S_Pass | Some s \<Rightarrow> s)
      in if subject_stale then S_Stale else headline)"

definition classify_snapshot :: "ClassifierInput \<Rightarrow> (ClassifierError, Predicate) result" where
  "classify_snapshot inp =
     (let subject = ci_subject inp; expected = sub_expected_sha subject in
      and_then (try_for_each (check_required inp) (pol_required_observations (ci_policy inp))) (\<lambda>_.
      and_then (try_for_each (check_falsification expected) (ci_falsifications inp)) (\<lambda>_.
      let subject_stale = (sub_head_before subject \<noteq> expected \<or> sub_head_after subject \<noteq> expected);
          observations = map (observation_out inp) (pol_required_observations (ci_policy inp));
          falsifications = map falsification_out (ci_falsifications inp)
      in Inr \<lparr>pr_schema_version = 1,
              pr_repository = sub_repository subject,
              pr_pull_request = sub_pull_request subject,
              pr_git_commit = sub_expected_sha subject,
              pr_policy = \<lparr>po_id = pol_id (ci_policy inp),
                           po_required_observations = pol_required_observations (ci_policy inp),
                           po_completeness_claimed = False\<rparr>,
              pr_observations = observations,
              pr_falsifications = falsifications,
              pr_subject_stale = subject_stale,
              pr_headline = headline_of observations falsifications subject_stale,
              pr_known_debts = ci_known_debts inp\<rparr>)))"

section \<open>The specification\<close>

text \<open>What the observation says about the frozen subject, with no reference to the output record.\<close>

fun passes :: "string \<Rightarrow> ObservationInput \<Rightarrow> bool" where
  "passes sha (Check (Available e)) \<longleftrightarrow> chk_head_sha e = sha \<and> chk_conclusion e = Success"
| "passes sha (Review (Available e)) \<longleftrightarrow> rev_commit_id e = sha \<and> \<not> rev_carries_finding e"
| "passes sha _ \<longleftrightarrow> False"

fun finds :: "string \<Rightarrow> ObservationInput \<Rightarrow> bool" where
  "finds sha (Check (Available e)) \<longleftrightarrow> chk_head_sha e = sha \<and> chk_conclusion e = Failure"
| "finds sha (Review (Available e)) \<longleftrightarrow> rev_commit_id e = sha \<and> rev_carries_finding e"
| "finds sha _ \<longleftrightarrow> False"

fun broken :: "ObservationInput \<Rightarrow> bool" where
  "broken (Check (Failed _)) \<longleftrightarrow> True"
| "broken (Review (Failed _)) \<longleftrightarrow> True"
| "broken _ \<longleftrightarrow> False"

definition spec_state :: "string \<Rightarrow> ObservationInput \<Rightarrow> State" where
  "spec_state sha ob =
     (if finds sha ob then S_Finding
      else if broken ob then S_CannotCheck
      else if passes sha ob then S_Pass
      else S_Owed)"

definition well_posed :: "ClassifierInput \<Rightarrow> bool" where
  "well_posed inp \<longleftrightarrow>
     (\<forall>i \<in> set (pol_required_observations (ci_policy inp)). ci_observations inp i \<noteq> None)
     \<and> (\<forall>f \<in> set (ci_falsifications inp).
          ff_subject_sha f \<in> {None, Some (sub_expected_sha (ci_subject inp))})"

definition moved :: "ClassifierInput \<Rightarrow> bool" where
  "moved inp \<longleftrightarrow>
     sub_head_before (ci_subject inp) \<noteq> sub_expected_sha (ci_subject inp)
     \<or> sub_head_after (ci_subject inp) \<noteq> sub_expected_sha (ci_subject inp)"

definition required :: "ClassifierInput \<Rightarrow> ObservationInput set" where
  "required inp = {ob. \<exists>i \<in> set (pol_required_observations (ci_policy inp)). ci_observations inp i = Some ob}"

definition verdicts :: "ClassifierInput \<Rightarrow> Verification set" where
  "verdicts inp = ff_verification ` set (ci_falsifications inp)"

definition spec_headline :: "ClassifierInput \<Rightarrow> State" where
  "spec_headline inp =
     (let sha = sub_expected_sha (ci_subject inp) in
      if moved inp then S_Stale
      else if (\<exists>ob \<in> required inp. finds sha ob) \<or> Reproduced \<in> verdicts inp then S_Finding
      else if (\<exists>ob \<in> required inp. broken ob) \<or> (\<exists>r. VerificationFailed r \<in> verdicts inp)
        then S_CannotCheck
      else if (\<exists>ob \<in> required inp. \<not> passes sha ob) \<or> Claimed \<in> verdicts inp then S_Owed
      else S_Pass)"

section \<open>Proofs\<close>

lemma fold_max:
  fixes f :: "'a \<Rightarrow> nat"
  shows "fold (\<lambda>y best. if f best \<le> f y then y else best) xs x \<in> insert x (set xs)
       \<and> (\<forall>y \<in> insert x (set xs). f y \<le> f (fold (\<lambda>y best. if f best \<le> f y then y else best) xs x))"
proof (induction xs arbitrary: x)
  case (Cons y ys)
  show ?case
    using Cons.IH [of y] Cons.IH [of x] by (auto intro: order_trans)
qed simp

lemma max_by_key_Some:
  "max_by_key f xs = Some s \<Longrightarrow> s \<in> set xs \<and> (\<forall>y \<in> set xs. f y \<le> f s)"
  using fold_max [of f "tl xs" "hd xs"] by (cases xs) auto

lemma max_by_key_None: "max_by_key f xs = None \<longleftrightarrow> xs = []"
  by (cases xs) simp_all

text \<open>The headline is the highest state present, \<open>Pass\<close> when there is none.\<close>

lemma headline_highest:
  assumes "\<forall>s \<in> set ss. s \<noteq> S_Stale"
  shows "(case max_by_key rank ss of None \<Rightarrow> S_Pass | Some s \<Rightarrow> s) =
     (if S_Finding \<in> set ss then S_Finding
      else if S_CannotCheck \<in> set ss then S_CannotCheck
      else if S_Owed \<in> set ss then S_Owed
      else S_Pass)"
proof (cases "max_by_key rank ss")
  case None
  then show ?thesis by (simp add: max_by_key_None)
next
  case (Some s)
  then have "s \<in> set ss" "\<forall>y \<in> set ss. rank y \<le> rank s" by (auto dest: max_by_key_Some)
  with Some assms show ?thesis by (cases s) fastforce+
qed

lemma observation_state:
  assumes "ci_observations inp i = Some ob"
  shows "oo_state (observation_out inp i) = spec_state (sub_expected_sha (ci_subject inp)) ob"
proof (cases ob)
  case (Check acq)
  with assms show ?thesis
    by (cases acq) (auto simp: spec_state_def observation_out_def Let_def split: CheckConclusion.split)
next
  case (Review acq)
  with assms show ?thesis
    by (cases acq) (auto simp: spec_state_def observation_out_def Let_def)
qed

lemma check_required_iff: "check_required inp i = Inr u \<longleftrightarrow> ci_observations inp i \<noteq> None"
  by (simp add: check_required_def)

lemma check_falsification_iff:
  "check_falsification expected f = Inr u \<longleftrightarrow> ff_subject_sha f \<in> {None, Some expected}"
  by (auto simp: check_falsification_def split: option.split)

lemma classify_snapshot_ok: "(\<exists>p. classify_snapshot inp = Inr p) \<longleftrightarrow> well_posed inp"
  by (auto simp: classify_snapshot_def Let_def try_for_each_Inr check_required_iff
      check_falsification_iff well_posed_def)

lemma observation_states:
  assumes "well_posed inp"
  shows "set (map (\<lambda>i. oo_state (observation_out inp i)) (pol_required_observations (ci_policy inp))) =
     spec_state (sub_expected_sha (ci_subject inp)) ` required inp"
proof -
  let ?ids = "set (pol_required_observations (ci_policy inp))"
  let ?get = "\<lambda>i. the (ci_observations inp i)"
  have some: "ci_observations inp i = Some (?get i)" if "i \<in> ?ids" for i
    using assms that by (auto simp: well_posed_def)
  then have "required inp = ?get ` ?ids" by (force simp: required_def)
  then show ?thesis
    by (simp add: image_image observation_state [OF some] cong: image_cong_simp)
qed

lemma not_both: "finds sha ob \<Longrightarrow> \<not> passes sha ob \<and> \<not> broken ob" "broken ob \<Longrightarrow> \<not> passes sha ob"
  by (cases ob rule: broken.cases; auto)+

lemma headline_spec:
  assumes "well_posed inp"
  shows "headline_of (map (observation_out inp) (pol_required_observations (ci_policy inp)))
           (map falsification_out (ci_falsifications inp)) (moved inp) = spec_headline inp"
proof -
  let ?sha = "sub_expected_sha (ci_subject inp)"
  let ?ss = "map oo_state (map (observation_out inp) (pol_required_observations (ci_policy inp)))
      @ map fo_state (map falsification_out (ci_falsifications inp))"
  have ss: "set ?ss = spec_state ?sha ` required inp \<union> verification_state ` verdicts inp"
    using observation_states [OF assms]
    by (auto simp: verdicts_def falsification_out_def comp_def image_image)
  have v: "verification_state v = S_Finding \<longleftrightarrow> v = Reproduced"
    "verification_state v = S_CannotCheck \<longleftrightarrow> (\<exists>r. v = VerificationFailed r)"
    "verification_state v = S_Owed \<longleftrightarrow> v = Claimed" "S_Stale \<noteq> verification_state v" for v
    by (cases v; simp)+
  have mem: "S_Finding \<in> set ?ss \<longleftrightarrow> (\<exists>ob \<in> required inp. finds ?sha ob) \<or> Reproduced \<in> verdicts inp"
    "S_CannotCheck \<in> set ?ss \<longleftrightarrow>
       (\<exists>ob \<in> required inp. broken ob) \<or> (\<exists>r. VerificationFailed r \<in> verdicts inp)"
    "S_Owed \<in> set ?ss \<longleftrightarrow> (\<exists>ob \<in> required inp. \<not> finds ?sha ob \<and> \<not> broken ob \<and> \<not> passes ?sha ob)
       \<or> Claimed \<in> verdicts inp"
    unfolding ss using not_both
    by (auto simp: image_iff spec_state_def v eq_commute [of _ "verification_state _"] split: if_splits)
  have "\<forall>s \<in> set ?ss. s \<noteq> S_Stale" unfolding ss by (auto simp: spec_state_def v)
  from headline_highest [OF this] show ?thesis
    by (simp only: headline_of_def spec_headline_def Let_def mem) auto
qed

lemma classify_snapshot_headline:
  assumes "classify_snapshot inp = Inr p"
  shows "pr_headline p = spec_headline inp"
proof -
  have "well_posed inp" using assms classify_snapshot_ok by blast
  from headline_spec [OF this] assms show ?thesis
    by (auto simp: classify_snapshot_def Let_def moved_def)
qed

section \<open>Properties\<close>

definition demo_input :: ClassifierInput where
  "demo_input =
     \<lparr>ci_subject = \<lparr>sub_repository = ''r'', sub_pull_request = 7, sub_expected_sha = ''s1'',
                    sub_head_before = ''s1'', sub_head_after = ''s1''\<rparr>,
      ci_policy = \<lparr>pol_id = ''p'', pol_required_observations = [''ci'', ''review'']\<rparr>,
      ci_observations =
        [''ci'' \<mapsto> Check (Available \<lparr>chk_stable_id = ''1'', chk_head_sha = ''s1'', chk_conclusion = Success\<rparr>),
         ''review'' \<mapsto> Review (Available \<lparr>rev_stable_id = ''2'', rev_commit_id = ''s0'',
                                        rev_author = ''a'', rev_carries_finding = True\<rparr>)],
      ci_falsifications = [],
      ci_known_debts = []\<rparr>"

definition demo_predicate :: Predicate where
  "demo_predicate = projr (classify_snapshot demo_input)"

lemma demo_classified: "classify_snapshot demo_input = Inr demo_predicate"
  by (simp add: demo_predicate_def classify_snapshot_def Let_def demo_input_def check_required_def)

text \<open>
  The headline is the precedence \<open>STALE > FINDING > CANNOT_CHECK > OWED > PASS\<close> over what was
  observed of the frozen subject: a moved head, a failing check or a finding review bound to the
  subject or a reproduced falsification, a failed acquisition or verification, any other required
  observation that is not a pass or an unverified claim.
\<close>

lemma headline_precedence:
  assumes "classify_snapshot inp = Inr p"
  shows "pr_headline p = spec_headline inp"
  using assms by (rule classify_snapshot_headline)

text \<open>
  C9. A \<open>PASS\<close> headline means exactly this: the head never moved, every required observation is
  available, bound to the frozen subject and positive, and the falsification channel is empty.
\<close>

theorem headline_pass_iff:
  assumes "classify_snapshot inp = Inr p"
  shows "pr_headline p = S_Pass \<longleftrightarrow>
     \<not> moved inp \<and> ci_falsifications inp = []
     \<and> (\<forall>i \<in> set (pol_required_observations (ci_policy inp)).
          \<exists>ob. ci_observations inp i = Some ob \<and> passes (sub_expected_sha (ci_subject inp)) ob)"
proof -
  let ?sha = "sub_expected_sha (ci_subject inp)"
  have wp: "well_posed inp" using assms classify_snapshot_ok by blast
  have "spec_headline inp = S_Pass \<longleftrightarrow> \<not> moved inp \<and> verdicts inp = {} \<and> (\<forall>ob \<in> required inp. passes ?sha ob)"
    using not_both [where sha = ?sha]
    by (auto simp: spec_headline_def Let_def) (metis Verification.exhaust)
  moreover have "(\<forall>ob \<in> required inp. passes ?sha ob) \<longleftrightarrow>
      (\<forall>i \<in> set (pol_required_observations (ci_policy inp)).
         \<exists>ob. ci_observations inp i = Some ob \<and> passes ?sha ob)"
    using wp by (fastforce simp: required_def well_posed_def)
  moreover have "verdicts inp = {} \<longleftrightarrow> ci_falsifications inp = []" by (simp add: verdicts_def)
  ultimately show ?thesis using classify_snapshot_headline [OF assms] by simp
qed

theorem headline_pass_iff_witness: "pr_headline demo_predicate \<noteq> S_Pass"
  using headline_pass_iff [OF demo_classified] by (auto simp: demo_input_def)

text \<open>
  Malformed input gets no predicate: classification fails exactly when a required observation
  has no entry, reported with the first such id, or else a falsification is bound to another commit,
  reported with the first such record; it succeeds on every other input.
\<close>

lemma classify_refusals:
  "classify_snapshot inp =
     (case find (\<lambda>i. ci_observations inp i = None) (pol_required_observations (ci_policy inp)) of
        Some i \<Rightarrow> Inl (MissingRequiredObservation i)
      | None \<Rightarrow>
          (case find (\<lambda>f. ff_subject_sha f \<notin> {None, Some (sub_expected_sha (ci_subject inp))})
                  (ci_falsifications inp) of
             Some f \<Rightarrow> Inl (FalsificationSubjectMismatch (ff_stable_id f) (the (ff_subject_sha f))
                              (sub_expected_sha (ci_subject inp)))
           | None \<Rightarrow> Inr (projr (classify_snapshot inp))))"
proof -
  let ?sha = "sub_expected_sha (ci_subject inp)"
  have req: "try_for_each (check_required inp) is =
      (case find (\<lambda>i. ci_observations inp i = None) is of
         Some i \<Rightarrow> Inl (MissingRequiredObservation i) | None \<Rightarrow> Inr ())" for "is"
    by (induction "is") (auto simp: check_required_def)
  have fal: "try_for_each (check_falsification ?sha) fs =
      (case find (\<lambda>f. ff_subject_sha f \<notin> {None, Some ?sha}) fs of
         Some f \<Rightarrow> Inl (FalsificationSubjectMismatch (ff_stable_id f) (the (ff_subject_sha f)) ?sha)
       | None \<Rightarrow> Inr ())" for fs
    by (induction fs) (auto simp: check_falsification_def split: option.split)
  show ?thesis
    by (simp add: classify_snapshot_def Let_def req fal split: option.split)
qed

text \<open>
  The observation vector follows the policy's enumeration, one entry per required id with the
  state its own evidence warrants: never combined across commits (evidence bound elsewhere is
  \<open>OWED\<close>), and \<open>CANNOT_CHECK\<close> exactly with a recorded failure reason.
\<close>

lemma observation_vector:
  assumes "classify_snapshot inp = Inr p"
  shows "map oo_id (pr_observations p) = pol_required_observations (ci_policy inp)
    \<and> (\<forall>o' \<in> set (pr_observations p). \<exists>ob. ci_observations inp (oo_id o') = Some ob
         \<and> oo_state o' = spec_state (sub_expected_sha (ci_subject inp)) ob
         \<and> (oo_state o' = S_CannotCheck \<longleftrightarrow> ao_status (oo_acquisition o') = AS_Failed)
         \<and> (ao_status (oo_acquisition o') = AS_Failed \<longleftrightarrow> ao_reason (oo_acquisition o') \<noteq> None))"
proof -
  have obs: "pr_observations p = map (observation_out inp) (pol_required_observations (ci_policy inp))"
    using assms by (auto simp: classify_snapshot_def Let_def)
  have id: "oo_id (observation_out inp i) = i" for i
    by (simp add: observation_out_def Let_def split: prod.split)
  have acq: "(oo_state (observation_out inp i) = S_CannotCheck \<longleftrightarrow>
        ao_status (oo_acquisition (observation_out inp i)) = AS_Failed)
      \<and> (ao_status (oo_acquisition (observation_out inp i)) = AS_Failed \<longleftrightarrow>
        ao_reason (oo_acquisition (observation_out inp i)) \<noteq> None)"
    if "ci_observations inp i = Some ob" for i ob
    using that
    by (cases ob rule: broken.cases)
      (auto simp: observation_out_def Let_def available_def status_def failed_def
        split: CheckConclusion.split)
  have "\<exists>ob. ci_observations inp i = Some ob" if "i \<in> set (pol_required_observations (ci_policy inp))" for i
    using assms classify_snapshot_ok that unfolding well_posed_def by blast
  with acq observation_state id show ?thesis unfolding obs by (fastforce simp: comp_def)
qed

end
