(* ===== verification/Closure_Json.thy ===== *)
theory Closure_Json
  imports Rust_Std
begin

text \<open>
  The JSON values of the closure crates. \<^verbatim>\<open>serde_json::Value\<close> is its documented data type: an object is a map
  ordered by its keys (the crate's default), a number is a non-negative \<^verbatim>\<open>u64\<close>, a negative \<^verbatim>\<open>i64\<close> or a double
  (kept as its bits, which nothing here reads). \<open>wf_value\<close> is the invariant of that type.
\<close>

section \<open>Values\<close>

datatype JsonNumber = PosInt u64 | NegInt i64 | Float "64 word"

datatype Value =
    VNull
  | VBool bool
  | VNumber JsonNumber
  | VString string
  | VArray "Value list"
  | VObject "(string \<times> Value) list"

fun wf_number :: "JsonNumber \<Rightarrow> bool" where
  "wf_number (NegInt i) \<longleftrightarrow> sint i < 0"
| "wf_number _ \<longleftrightarrow> True"

fun wf_value :: "Value \<Rightarrow> bool" where
  "wf_value (VNumber n) \<longleftrightarrow> wf_number n"
| "wf_value (VArray items) \<longleftrightarrow> list_all wf_value items"
| "wf_value (VObject members) \<longleftrightarrow>
     sorted_wrt (<) (map fst members) \<and> list_all (\<lambda>m. wf_value (snd m)) members"
| "wf_value _ \<longleftrightarrow> True"

section \<open>Reading values\<close>

fun as_str :: "Value \<Rightarrow> string option" where
  "as_str (VString s) = Some s"
| "as_str _ = None"

fun as_array :: "Value \<Rightarrow> Value list option" where
  "as_array (VArray items) = Some items"
| "as_array _ = None"

fun as_object :: "Value \<Rightarrow> (string \<times> Value) list option" where
  "as_object (VObject members) = Some members"
| "as_object _ = None"

fun is_boolean :: "Value \<Rightarrow> bool" where
  "is_boolean (VBool _) \<longleftrightarrow> True"
| "is_boolean _ \<longleftrightarrow> False"

fun as_u64 :: "Value \<Rightarrow> nat option" where
  "as_u64 (VNumber (PosInt u)) = Some (unat u)"
| "as_u64 _ = None"

fun as_i64 :: "Value \<Rightarrow> int option" where
  "as_i64 (VNumber (PosInt u)) = (if unat u < 2 ^ 63 then Some (int (unat u)) else None)"
| "as_i64 (VNumber (NegInt i)) = Some (sint i)"
| "as_i64 _ = None"

definition json_get :: "Value \<Rightarrow> string \<Rightarrow> Value option" where
  "json_get v key = Option.bind (as_object v) (\<lambda>members. map_of members key)"

text \<open>
  \<^verbatim>\<open>Value::pointer\<close> (RFC 6901): tokens after each slash, with \<^verbatim>\<open>~1\<close> and then \<^verbatim>\<open>~0\<close> decoded; an object is
  entered by key, an array by an index without sign or leading zeros.
\<close>

fun decode_token :: "string \<Rightarrow> string" where
  "decode_token (a # b # r) =
     (if a = CHR ''~'' \<and> b = CHR ''1'' then CHR ''/'' # decode_token r
      else if a = CHR ''~'' \<and> b = CHR ''0'' then CHR ''~'' # decode_token r
      else a # decode_token (b # r))"
| "decode_token s = s"

definition parse_index :: "string \<Rightarrow> nat option" where
  "parse_index s =
     (if s \<noteq> [] \<and> list_all (\<lambda>c. CHR ''0'' \<le> c \<and> c \<le> CHR ''9'') s \<and> (hd s = CHR ''0'' \<longrightarrow> length s = 1)
         \<and> dec_value s < 2 ^ 64
      then Some (dec_value s) else None)"

fun child :: "Value \<Rightarrow> string \<Rightarrow> Value option" where
  "child (VObject members) token = map_of members token"
| "child (VArray items) token =
     (case parse_index token of
        Some i \<Rightarrow> if i < length items then Some (items ! i) else None
      | None \<Rightarrow> None)"
| "child _ token = None"

fun descend :: "Value \<Rightarrow> string list \<Rightarrow> Value option" where
  "descend v [] = Some v"
| "descend v (token # tokens) = Option.bind (child v token) (\<lambda>w. descend w tokens)"

definition pointer :: "Value \<Rightarrow> string \<Rightarrow> Value option" where
  "pointer v p =
     (if p = [] then Some v
      else if hd p \<noteq> CHR ''/'' then None
      else descend v (map decode_token (tl (split_on (CHR ''/'') p))))"

definition str_at :: "Value \<Rightarrow> string \<Rightarrow> string option" where
  "str_at v p = Option.bind (pointer v p) as_str"

text \<open>The version read of the shape checks: \<^verbatim>\<open>as_i64\<close>, else \<^verbatim>\<open>as_u64\<close> converted to \<^verbatim>\<open>i64\<close>.\<close>

definition integer_of :: "Value \<Rightarrow> int option" where
  "integer_of v =
     (case as_i64 v of
        Some i \<Rightarrow> Some i
      | None \<Rightarrow> (case as_u64 v of
                   Some u \<Rightarrow> if u < 2 ^ 63 then Some (int u) else None
                 | None \<Rightarrow> None))"

section \<open>Lemmas\<close>

lemma as_simps [simp]:
  "as_str v = Some s \<longleftrightarrow> v = VString s" "as_array v = Some items \<longleftrightarrow> v = VArray items"
  "as_object v = Some members \<longleftrightarrow> v = VObject members"
  by (cases v; auto)+

lemma integer_of_as_i64: "integer_of v = as_i64 v"
  by (cases v rule: as_i64.cases) (auto simp: integer_of_def)

lemma json_get_Some [simp]: "json_get v key = Some w \<longleftrightarrow> (\<exists>members. v = VObject members \<and> map_of members key = Some w)"
  by (auto simp: json_get_def bind_eq_Some_conv)

lemma pointer_key:
  assumes "CHR ''/'' \<notin> set key" "CHR ''~'' \<notin> set key"
  shows "pointer v (CHR ''/'' # key) = child v key"
proof -
  have "split_on c s = [s]" if "c \<notin> set s" for c s using that by (induction s) auto
  moreover have "decode_token s = s" if "CHR ''~'' \<notin> set s" for s
    using that by (induction s rule: decode_token.induct) auto
  ultimately show ?thesis using assms by (simp add: pointer_def split: bind_splits)
qed

text \<open>Two key-ordered objects with the same members are the same list.\<close>

lemma members_unique:
  fixes xs ys :: "(string \<times> 'a) list"
  assumes "sorted_wrt (<) (map fst xs)" "sorted_wrt (<) (map fst ys)" "set xs = set ys"
  shows "xs = ys"
proof -
  have "sorted (map fst xs)" "distinct (map fst xs)" "sorted (map fst ys)" "distinct (map fst ys)"
    using assms(1,2) by (simp_all add: strict_sorted_iff)
  moreover have "inj_on fst (set xs \<union> set ys)" using calculation(2) assms(3) by (simp add: distinct_map)
  ultimately show ?thesis using assms(3) map_sorted_distinct_set_unique [of fst xs ys] by blast
qed

end
