(* ===== verification/Closure_Canonical.thy ===== *)
theory Closure_Canonical
  imports Closure_Json Run_Event
begin

text \<open>
  Canonical JSON and its digests: \<^verbatim>\<open>crates/o7-closure-canonical/src/lib.rs\<close>. A \<open>write_\<close> function returns the text the
  source appends to its buffer. Characters are UTF-8 bytes, so every byte of a character above U+001F other
  than a quote and a backslash is copied; \<open>sha\<close> is SHA-256.
\<close>

section \<open>Digests\<close>

datatype ClosureDigest = ClosureDigest (closure_digest_str: string)

datatype DigestFault = NoPrefix | WrongLength | NotLowerHex

datatype CanonicalError =
    NonIntegerNumber JsonNumber
  | IntegerOutsideSafeDomain int
  | MalformedDigest string DigestFault

definition strip_prefix :: "string \<Rightarrow> string \<Rightarrow> string option" where
  "strip_prefix p s = (if take (length p) s = p then Some (drop (length p) s) else None)"

definition ClosureDigest_parse :: "string \<Rightarrow> (CanonicalError, ClosureDigest) result" where
  "ClosureDigest_parse text =
     and_then (ok_or (strip_prefix ''sha256:'' text) (MalformedDigest text NoPrefix)) (\<lambda>hex.
     if length hex \<noteq> 64 then Inl (MalformedDigest text WrongLength)
     else if \<not> list_all (\<lambda>b. CHR ''0'' \<le> b \<and> b \<le> CHR ''9'' \<or> CHR ''a'' \<le> b \<and> b \<le> CHR ''f'') hex
       then Inl (MalformedDigest text NotLowerHex)
     else Inr (ClosureDigest text))"

definition digest_of_canonical_bytes :: "(bytes \<Rightarrow> bytes) \<Rightarrow> bytes \<Rightarrow> ClosureDigest" where
  "digest_of_canonical_bytes sha bs = ClosureDigest (''sha256:'' @ hex_lower (sha bs))"

section \<open>Numbers\<close>

definition SAFE_INTEGER_LIMIT :: int where
  "SAFE_INTEGER_LIMIT = 9007199254740991"

definition int_text :: "int \<Rightarrow> string" where
  "int_text i = (if i < 0 then CHR ''-'' # decimal (nat (- i)) else decimal (nat i))"

fun integer_value :: "JsonNumber \<Rightarrow> int option" where
  "integer_value (PosInt u) = Some (int (unat u))"
| "integer_value (NegInt i) = Some (sint i)"
| "integer_value (Float _) = None"

definition write_number :: "JsonNumber \<Rightarrow> (CanonicalError, string) result" where
  "write_number n =
     and_then (ok_or (integer_value n) (NonIntegerNumber n)) (\<lambda>value.
     if \<bar>value\<bar> > SAFE_INTEGER_LIMIT then Inl (IntegerOutsideSafeDomain value)
     else Inr (int_text value))"

section \<open>Strings\<close>

definition nibble :: "nat \<Rightarrow> char" where
  "nibble n = char_of (if n < 10 then 48 + n else 87 + n)"

definition escape_char :: "char \<Rightarrow> string" where
  "escape_char c =
     (if c = CHR 0x22 then [CHR 0x5C, CHR 0x22]
      else if c = CHR 0x5C then [CHR 0x5C, CHR 0x5C]
      else if c = CHR 0x08 then [CHR 0x5C, CHR ''b'']
      else if c = CHR 0x09 then [CHR 0x5C, CHR ''t'']
      else if c = CHR 0x0A then [CHR 0x5C, CHR ''n'']
      else if c = CHR 0x0C then [CHR 0x5C, CHR ''f'']
      else if c = CHR 0x0D then [CHR 0x5C, CHR ''r'']
      else if (of_char c :: nat) < 32 then
        [CHR 0x5C, CHR ''u'', CHR ''0'', CHR ''0'', nibble (of_char c div 16), nibble (of_char c mod 16)]
      else [c])"

definition write_string :: "string \<Rightarrow> string" where
  "write_string s = CHR 0x22 # concat (map escape_char s) @ [CHR 0x22]"

text \<open>\<^verbatim>\<open>encode_utf16\<close> on a string: its code points, those beyond the basic plane as a surrogate pair.\<close>

fun code_points :: "nat list \<Rightarrow> nat list" where
  "code_points [] = []"
| "code_points (a # r) =
     (if a < 0x80 then a # code_points r
      else if a < 0xE0 then
        (case r of b # r1 \<Rightarrow> ((a - 0xC0) * 64 + (b - 0x80)) # code_points r1 | _ \<Rightarrow> [])
      else if a < 0xF0 then
        (case r of b # c # r2 \<Rightarrow> ((a - 0xE0) * 4096 + (b - 0x80) * 64 + (c - 0x80)) # code_points r2 | _ \<Rightarrow> [])
      else
        (case r of b # c # d # r3 \<Rightarrow>
           ((a - 0xF0) * 262144 + (b - 0x80) * 4096 + (c - 0x80) * 64 + (d - 0x80)) # code_points r3 | _ \<Rightarrow> []))"

definition utf16_units :: "nat \<Rightarrow> nat list" where
  "utf16_units c =
     (if c < 0x10000 then [c] else [0xD800 + (c - 0x10000) div 1024, 0xDC00 + (c - 0x10000) mod 1024])"

definition encode_utf16 :: "string \<Rightarrow> nat list" where
  "encode_utf16 s = concat (map utf16_units (code_points (map of_char s)))"

section \<open>Values\<close>

fun join_comma :: "string list \<Rightarrow> string" where
  "join_comma [] = []"
| "join_comma [t] = t"
| "join_comma (t # ts) = t @ CHR '','' # join_comma ts"

fun write_value :: "Value \<Rightarrow> (CanonicalError, string) result" where
  "write_value VNull = Inr ''null''"
| "write_value (VBool True) = Inr ''true''"
| "write_value (VBool False) = Inr ''false''"
| "write_value (VNumber n) = write_number n"
| "write_value (VString s) = Inr (write_string s)"
| "write_value (VArray items) =
     and_then (try_map write_value items) (\<lambda>ts. Inr (CHR ''['' # join_comma ts @ '']''))"
| "write_value (VObject members) =
     and_then (try_map (\<lambda>m. and_then (write_value (snd m)) (\<lambda>t. Inr (write_string (fst m) @ CHR '':'' # t)))
       (sort_key (\<lambda>m. encode_utf16 (fst m)) members)) (\<lambda>ts.
     Inr (CHR ''{'' # join_comma ts @ ''}''))"

definition canonicalize :: "Value \<Rightarrow> (CanonicalError, bytes) result" where
  "canonicalize v = and_then (write_value v) (\<lambda>out. Inr (as_bytes out))"

definition digest :: "(bytes \<Rightarrow> bytes) \<Rightarrow> Value \<Rightarrow> (CanonicalError, ClosureDigest) result" where
  "digest sha v = and_then (canonicalize v) (\<lambda>bs. Inr (digest_of_canonical_bytes sha bs))"

section \<open>What is refused\<close>

text \<open>Every number anywhere in the value is an integer that a double represents exactly.\<close>

fun safe_number :: "JsonNumber \<Rightarrow> bool" where
  "safe_number n \<longleftrightarrow> (\<exists>i. integer_value n = Some i \<and> \<bar>i\<bar> \<le> SAFE_INTEGER_LIMIT)"

fun safe_value :: "Value \<Rightarrow> bool" where
  "safe_value (VNumber n) \<longleftrightarrow> safe_number n"
| "safe_value (VArray items) \<longleftrightarrow> list_all safe_value items"
| "safe_value (VObject members) \<longleftrightarrow> list_all (\<lambda>m. safe_value (snd m)) members"
| "safe_value _ \<longleftrightarrow> True"

lemma write_number_ex: "(\<exists>t. write_number n = Inr t) \<longleftrightarrow> safe_number n"
  by (cases "integer_value n") (auto simp: write_number_def ok_or_def not_le)

lemma write_value_ex: "(\<exists>t. write_value v = Inr t) \<longleftrightarrow> safe_value v"
proof (induction v)
  case (VBool b)
  then show ?case by (cases b) simp_all
next
  case (VNumber n)
  then show ?case using write_number_ex by simp
next
  case (VArray items)
  then show ?case using try_map_ex [of write_value items] by (auto simp: list_all_iff)
next
  case (VObject members)
  have "(\<exists>t. write_value (VObject members) = Inr t) \<longleftrightarrow>
      (\<forall>m \<in> set members. \<exists>t. write_value (snd m) = Inr t)"
    using try_map_ex [of "\<lambda>m. and_then (write_value (snd m)) (\<lambda>t. Inr (write_string (fst m) @ CHR '':'' # t))"
        "sort_key (\<lambda>m. encode_utf16 (fst m)) members"] by auto
  then show ?case using VObject by (auto simp: list_all_iff snds.simps)
qed simp_all

section \<open>Reading back\<close>

text \<open>A canonical text is followed by nothing, a comma or a closing bracket.\<close>

definition stop :: "string \<Rightarrow> bool" where
  "stop s \<longleftrightarrow> s = [] \<or> hd s \<in> {CHR '','', CHR '']'', CHR ''}''}"

definition unnibble :: "char \<Rightarrow> nat" where
  "unnibble c = (let n = of_char c in if n < 58 then n - 48 else n - 87)"

lemma unnibble_nibble: "n < 16 \<Longrightarrow> unnibble (nibble n) = n"
  by (auto simp: unnibble_def nibble_def Let_def)

fun unescape :: "string \<Rightarrow> (char \<times> string) option" where
  "unescape (c # r) =
     (if c \<noteq> CHR 0x5C then Some (c, r)
      else (case r of
          [] \<Rightarrow> None
        | e # q \<Rightarrow>
            if e = CHR 0x22 \<or> e = CHR 0x5C then Some (e, q)
            else if e = CHR ''b'' then Some (CHR 0x08, q)
            else if e = CHR ''t'' then Some (CHR 0x09, q)
            else if e = CHR ''n'' then Some (CHR 0x0A, q)
            else if e = CHR ''f'' then Some (CHR 0x0C, q)
            else if e = CHR ''r'' then Some (CHR 0x0D, q)
            else (case q of _ # _ # h # l # q' \<Rightarrow> Some (char_of (16 * unnibble h + unnibble l), q') | _ \<Rightarrow> None)))"
| "unescape [] = None"

lemma unescape_escape: "unescape (escape_char c @ r) = Some (c, r)"
proof (cases "(of_char c :: nat) < 32")
  case True
  then have "char_of (16 * unnibble (nibble (of_char c div 16)) + unnibble (nibble (of_char c mod 16))) = c"
    by (simp add: unnibble_nibble)
  then show ?thesis by (simp add: escape_char_def)
next
  case False
  then show ?thesis by (simp add: escape_char_def)
qed

lemma escape_peel: "escape_char c @ r = escape_char d @ q \<Longrightarrow> c = d \<and> r = q"
  using unescape_escape by (metis option.inject prod.inject)

lemma escape_start: "\<exists>e es. escape_char c = e # es \<and> e \<noteq> CHR 0x22"
  by (simp add: escape_char_def)

lemma string_peel: "write_string a @ s = write_string b @ t \<Longrightarrow> a = b \<and> s = t"
proof -
  have "a = b \<and> s = t" if "concat (map escape_char a) @ CHR 0x22 # s = concat (map escape_char b) @ CHR 0x22 # t"
    using that
  proof (induction a arbitrary: b)
    case Nil
    show ?case
    proof (cases b)
      case (Cons d b')
      obtain e es where "escape_char d = e # es" "e \<noteq> CHR 0x22" using escape_start by blast
      then show ?thesis using Nil Cons by simp
    qed (use Nil in simp)
  next
    case (Cons c a)
    show ?case
    proof (cases b)
      case Nil
      obtain e es where "escape_char c = e # es" "e \<noteq> CHR 0x22" using escape_start by blast
      then show ?thesis using Nil Cons.prems by simp
    next
      case (Cons d b')
      then have "escape_char c @ (concat (map escape_char a) @ CHR 0x22 # s) =
          escape_char d @ (concat (map escape_char b') @ CHR 0x22 # t)" using Cons.prems by simp
      from escape_peel [OF this] show ?thesis using Cons.IH [of b'] Cons by simp
    qed
  qed
  then show "write_string a @ s = write_string b @ t \<Longrightarrow> a = b \<and> s = t" by (simp add: write_string_def)
qed

definition digit :: "char \<Rightarrow> bool" where
  "digit c \<longleftrightarrow> 48 \<le> (of_char c :: nat) \<and> (of_char c :: nat) \<le> 57"

lemma stop_no_digit: "stop s \<Longrightarrow> takeWhile digit s = []"
  by (cases s) (auto simp: stop_def digit_def)

lemma decimal_peel:
  assumes "decimal m @ s = decimal n @ t" "stop s" "stop t"
  shows "m = n \<and> s = t"
proof -
  have "takeWhile digit (decimal k @ r) = decimal k" if "stop r" for k r
    using stop_no_digit [OF that] decimal_digits [of _ k] by (subst takeWhile_append2) (auto simp: digit_def)
  then have "decimal m = decimal n" using assms by metis
  then show ?thesis using assms(1) by simp
qed

lemma decimal_start: "\<exists>d ds. decimal n = d # ds \<and> digit d"
  using decimal_digits [of "hd (decimal n)" n] hd_in_set [OF decimal_ne] decimal_ne [of n]
  unfolding digit_def by (metis list.collapse)

lemma digit_not_minus: "digit d \<Longrightarrow> d \<noteq> CHR ''-''"
  by (auto simp: digit_def)

lemma int_text_peel:
  assumes "int_text i @ s = int_text j @ t" "stop s" "stop t"
  shows "i = j \<and> s = t"
proof (cases "i < 0"; cases "j < 0")
  assume "i < 0" "j < 0"
  then show ?thesis using assms decimal_peel [of "nat (- i)" s "nat (- j)" t] by (auto simp: int_text_def)
next
  assume "\<not> i < 0" "\<not> j < 0"
  then show ?thesis using assms decimal_peel [of "nat i" s "nat j" t] by (auto simp: int_text_def)
next
  assume n: "i < 0" "\<not> j < 0"
  obtain d ds where "decimal (nat j) = d # ds" "digit d" using decimal_start by blast
  then show ?thesis using assms(1) n digit_not_minus by (auto simp: int_text_def)
next
  assume n: "\<not> i < 0" "j < 0"
  obtain d ds where "decimal (nat i) = d # ds" "digit d" using decimal_start by blast
  then show ?thesis using assms(1) n digit_not_minus by (auto simp: int_text_def)
qed

lemma integer_value_inj:
  assumes "wf_number m" "wf_number n" "integer_value m = integer_value n" "integer_value n \<noteq> None"
  shows "m = n"
proof -
  have mixed: "int (unat u) \<noteq> sint i" if "sint i < 0" for u :: u64 and i :: i64 using that by linarith
  show ?thesis
  proof (cases m)
    case (PosInt u)
    then show ?thesis using assms mixed by (cases n) (simp_all add: word_uint_eq_iff)
  next
    case (NegInt i)
    show ?thesis
    proof (cases n)
      case (PosInt u)
      then show ?thesis using assms(1,3) mixed [of i u] NegInt by simp
    next
      case (NegInt k)
      then have "sint i = sint k" using assms(3) \<open>m = NegInt i\<close> by simp
      then show ?thesis using signed_word_eqI [of i k] NegInt \<open>m = NegInt i\<close> by simp
    qed (use assms in simp)
  next
    case (Float f)
    then show ?thesis using assms by simp
  qed
qed

lemma number_peel:
  assumes "write_number m = Inr x" "write_number n = Inr y" "wf_number m" "wf_number n" "x @ s = y @ t" "stop s" "stop t"
  shows "m = n \<and> s = t"
proof -
  obtain i j where ij: "integer_value m = Some i" "x = int_text i" "integer_value n = Some j" "y = int_text j"
    using assms(1,2) by (auto simp: write_number_def split: if_splits)
  then have "i = j \<and> s = t" using int_text_peel assms(5-7) by blast
  then have "integer_value m = integer_value n" "s = t" "integer_value n \<noteq> None" using ij by simp_all
  then show ?thesis using integer_value_inj [OF assms(3,4)] by blast
qed

text \<open>The first character of a text tells its constructor.\<close>

definition opens_with :: "Value \<Rightarrow> char \<Rightarrow> bool" where
  "opens_with v c \<longleftrightarrow>
     (case v of
        VNull \<Rightarrow> c = CHR ''n''
      | VBool b \<Rightarrow> c = (if b then CHR ''t'' else CHR ''f'')
      | VNumber _ \<Rightarrow> c = CHR ''-'' \<or> digit c
      | VString _ \<Rightarrow> c = CHR 0x22
      | VArray _ \<Rightarrow> c = CHR ''[''
      | VObject _ \<Rightarrow> c = CHR ''{'')"

lemma write_value_opens: "write_value v = Inr t \<Longrightarrow> \<exists>c r. t = c # r \<and> opens_with v c"
proof (cases v)
  case (VBool b)
  then show "write_value v = Inr t \<Longrightarrow> ?thesis" by (cases b) (auto simp: opens_with_def)
next
  case (VNumber n)
  assume "write_value v = Inr t"
  then obtain i where i: "t = int_text i" using VNumber by (auto simp: write_number_def split: if_splits)
  obtain d ds where "decimal (nat i) = d # ds" "digit d" using decimal_start by blast
  then show ?thesis using i VNumber by (auto simp: opens_with_def int_text_def)
qed (auto simp: opens_with_def write_string_def)

lemma opens_same:
  "opens_with v c \<Longrightarrow> opens_with w c \<Longrightarrow>
     (case v of VNull \<Rightarrow> w = VNull | VBool b \<Rightarrow> w = VBool b | VNumber _ \<Rightarrow> \<exists>n. w = VNumber n
      | VString _ \<Rightarrow> \<exists>s. w = VString s | VArray _ \<Rightarrow> \<exists>xs. w = VArray xs | VObject _ \<Rightarrow> \<exists>ms. w = VObject ms)"
  by (cases v; cases w) (auto simp: opens_with_def digit_def split: if_splits)

lemma opens_no_close: "opens_with v c \<Longrightarrow> c \<noteq> CHR '']'' \<and> c \<noteq> CHR ''}'' \<and> c \<noteq> CHR '',''"
  by (cases v) (auto simp: opens_with_def digit_def split: if_splits)

text \<open>
  A comma-separated, closed list of texts reads back when each text does: \<open>pr\<close> prints an element, and
  elements outside \<open>xs\<close> are only required to satisfy \<open>ok\<close>.
\<close>

lemma joined_peel:
  assumes peel: "\<And>x y t u a b. x \<in> set xs \<Longrightarrow> ok y \<Longrightarrow> pr x = Inr t \<Longrightarrow> pr y = Inr u \<Longrightarrow> t @ a = u @ b \<Longrightarrow>
      stop a \<Longrightarrow> stop b \<Longrightarrow> x = y \<and> a = b"
    and start: "\<And>x t. pr x = Inr t \<Longrightarrow> \<exists>e r. t = e # r \<and> e \<noteq> c"
    and c: "c \<in> {CHR '']'', CHR ''}''}"
    and "list_all2 (\<lambda>x t. pr x = Inr t) xs ts" "list_all2 (\<lambda>y u. pr y = Inr u) ys us" "\<forall>y \<in> set ys. ok y"
    and "join_comma ts @ c # s = join_comma us @ c # t"
  shows "xs = ys \<and> s = t"
  using assms(1,4-)
proof (induction xs arbitrary: ys ts us)
  case Nil
  show ?case
  proof (cases ys)
    case (Cons y ys')
    then obtain u us' where u: "us = u # us'" "pr y = Inr u" using Nil.prems(3) by (auto simp: list_all2_Cons1)
    obtain e r where "u = e # r" "e \<noteq> c" using start [OF u(2)] by blast
    then show ?thesis using Nil.prems(2,5) u(1) by (cases us') simp_all
  qed (use Nil in simp)
next
  case (Cons x xs)
  obtain t1 ts' where t: "ts = t1 # ts'" "pr x = Inr t1" "list_all2 (\<lambda>x t. pr x = Inr t) xs ts'"
    using Cons.prems(2) by (auto simp: list_all2_Cons1)
  obtain e r where er: "t1 = e # r" "e \<noteq> c" using start [OF t(2)] by blast
  show ?case
  proof (cases ys)
    case Nil
    then show ?thesis using Cons.prems(3,5) t(1) er by (cases ts') simp_all
  next
    case (Cons y ys')
    then obtain u1 us' where u: "us = u1 # us'" "pr y = Inr u1" "list_all2 (\<lambda>y u. pr y = Inr u) ys' us'"
      using Cons.prems(3) by (auto simp: list_all2_Cons1)
    define rest where "rest zs q = (if zs = [] then c # q else CHR '','' # join_comma zs @ c # q)" for zs q
    have split: "join_comma (z # zs) @ c # q = z @ rest zs q" for z zs q by (cases zs) (simp_all add: rest_def)
    have stops: "stop (rest zs q)" for zs q using c by (auto simp: rest_def stop_def)
    have xy: "x = y \<and> rest ts' s = rest us' t"
      using Cons.prems(1) [of x y t1 u1 "rest ts' s" "rest us' t"] Cons.prems(4,5) \<open>ys = y # ys'\<close> t(1,2) u(1,2) split stops by simp
    have comma: "c \<noteq> CHR '',''" using c by auto
    then have empty: "ts' = [] \<longleftrightarrow> us' = []" using xy by (auto simp: rest_def split: if_splits)
    show ?thesis
    proof (cases "ts' = []")
      case True
      then have "xs = []" "ys' = []" using t(3) u(3) empty by simp_all
      then show ?thesis using xy True empty \<open>ys = y # ys'\<close> by (simp add: rest_def)
    next
      case False
      then have "join_comma ts' @ c # s = join_comma us' @ c # t" using xy empty by (simp add: rest_def)
      moreover have "\<forall>y \<in> set ys'. ok y" using Cons.prems(4) \<open>ys = y # ys'\<close> by simp
      moreover have "x = y \<and> a = b" if "x \<in> set xs" "ok y" "pr x = Inr t" "pr y = Inr u" "t @ a = u @ b" "stop a" "stop b"
        for x y t u a b
        using Cons.prems(1) [OF list.set_intros(2) [OF that(1)] that(2-)] .
      ultimately have "xs = ys' \<and> s = t" using Cons.IH [OF _ t(3) u(3)] by blast
      then show ?thesis using xy \<open>ys = y # ys'\<close> by simp
    qed
  qed
qed

definition write_member :: "string \<times> Value \<Rightarrow> (CanonicalError, string) result" where
  "write_member m = and_then (write_value (snd m)) (\<lambda>t. Inr (write_string (fst m) @ CHR '':'' # t))"

lemma write_object: "write_value (VObject members) =
    and_then (try_map write_member (sort_key (\<lambda>m. encode_utf16 (fst m)) members)) (\<lambda>ts. Inr (CHR ''{'' # join_comma ts @ ''}''))"
  by (simp add: write_member_def [abs_def])

lemma value_peel:
  "write_value v = Inr x \<Longrightarrow> write_value w = Inr y \<Longrightarrow> wf_value v \<Longrightarrow> wf_value w \<Longrightarrow> x @ s = y @ t \<Longrightarrow>
     stop s \<Longrightarrow> stop t \<Longrightarrow> v = w \<and> s = t"
proof (induction v arbitrary: w x y s t)
  case VNull
  obtain c r q where "x = c # r" "opens_with VNull c" "y = c # q" "opens_with w c"
    using write_value_opens [OF VNull(1)] write_value_opens [OF VNull(2)] VNull(5) by auto
  then show ?case using VNull opens_same [of VNull c w] by simp
next
  case (VBool b)
  obtain c r q where "x = c # r" "opens_with (VBool b) c" "y = c # q" "opens_with w c"
    using write_value_opens [OF VBool(1)] write_value_opens [OF VBool(2)] VBool(5) by auto
  then show ?case using VBool opens_same [of "VBool b" c w] by (cases b) simp_all
next
  case (VNumber m)
  obtain c r q where "x = c # r" "opens_with (VNumber m) c" "y = c # q" "opens_with w c"
    using write_value_opens [OF VNumber(1)] write_value_opens [OF VNumber(2)] VNumber(5) by auto
  then obtain n where "w = VNumber n" using opens_same [of "VNumber m" c w] by auto
  then show ?case using VNumber number_peel [of m x n y s t] by simp
next
  case (VString a)
  obtain c r q where "x = c # r" "opens_with (VString a) c" "y = c # q" "opens_with w c"
    using write_value_opens [OF VString(1)] write_value_opens [OF VString(2)] VString(5) by auto
  then obtain b where "w = VString b" using opens_same [of "VString a" c w] by auto
  then show ?case using VString string_peel [of a s b t] by simp
next
  case (VArray xs)
  note p = VArray.prems
  obtain c r q where "x = c # r" "opens_with (VArray xs) c" "y = c # q" "opens_with w c"
    using write_value_opens [OF p(1)] write_value_opens [OF p(2)] p(5) by auto
  then obtain ys where w: "w = VArray ys" using opens_same [of "VArray xs" c w] by auto
  obtain ts us where ts: "list_all2 (\<lambda>x t. write_value x = Inr t) xs ts" "x = CHR ''['' # join_comma ts @ '']''"
    and us: "list_all2 (\<lambda>x t. write_value x = Inr t) ys us" "y = CHR ''['' # join_comma us @ '']''"
    using p(1,2) w by (auto simp: try_map_Inr)
  have "xs = ys \<and> s = t"
  proof (rule joined_peel [where pr = write_value and ok = wf_value and c = "CHR '']''", OF _ _ _ ts(1) us(1)])
    show "v = w \<and> a = b" if "v \<in> set xs" "wf_value w" "write_value v = Inr t" "write_value w = Inr u" "t @ a = u @ b"
      "stop a" "stop b" for v w t u a b
      using VArray.IH [OF that(1,3,4) _ that(2,5-)] that(1) p(3) by (simp add: list_all_iff)
    show "\<exists>e r. t = e # r \<and> e \<noteq> CHR '']''" if "write_value v = Inr t" for v t
      using write_value_opens [OF that] opens_no_close by blast
    show "join_comma ts @ CHR '']'' # s = join_comma us @ CHR '']'' # t" using p(5) ts(2) us(2) by simp
    show "\<forall>y \<in> set ys. wf_value y" using p(4) w by (simp add: list_all_iff)
  qed simp
  then show ?case using w by simp
next
  case (VObject ms)
  note p = VObject.prems
  obtain c r q where "x = c # r" "opens_with (VObject ms) c" "y = c # q" "opens_with w c"
    using write_value_opens [OF p(1)] write_value_opens [OF p(2)] p(5) by auto
  then obtain ns where w: "w = VObject ns" using opens_same [of "VObject ms" c w] by auto
  let ?sort = "sort_key (\<lambda>m. encode_utf16 (fst m)) :: (string \<times> Value) list \<Rightarrow> _"
  obtain ts us where ts: "list_all2 (\<lambda>x t. write_member x = Inr t) (?sort ms) ts" "x = CHR ''{'' # join_comma ts @ ''}''"
    and us: "list_all2 (\<lambda>x t. write_member x = Inr t) (?sort ns) us" "y = CHR ''{'' # join_comma us @ ''}''"
    using p(1,2) unfolding w write_object by (auto simp: try_map_Inr)
  have "?sort ms = ?sort ns \<and> s = t"
  proof (rule joined_peel [where pr = write_member and ok = "\<lambda>m. wf_value (snd m)" and c = "CHR ''}''", OF _ _ _ ts(1) us(1)])
    show "m = n \<and> a = b" if m: "m \<in> set (?sort ms)" "wf_value (snd n)" "write_member m = Inr t" "write_member n = Inr u"
      "t @ a = u @ b" "stop a" "stop b" for m n t u a b
    proof -
      obtain t' u' where tu: "write_value (snd m) = Inr t'" "t = write_string (fst m) @ CHR '':'' # t'"
        "write_value (snd n) = Inr u'" "u = write_string (fst n) @ CHR '':'' # u'"
        using m(3,4) by (auto simp: write_member_def)
      have k: "fst m = fst n" "t' @ a = u' @ b"
        using string_peel [of "fst m" "CHR '':'' # t' @ a" "fst n" "CHR '':'' # u' @ b"] m(5) tu by simp_all
      have "snd m \<in> Basic_BNFs.snds m" "m \<in> set ms" "wf_value (snd m)" using m(1) p(3) by (auto simp: list_all_iff snds.simps)
      then have "snd m = snd n \<and> a = b" using VObject.IH [of m "snd m"] tu k m by blast
      then show ?thesis using k(1) by (simp add: prod_eq_iff)
    qed
    show "\<exists>e r. t = e # r \<and> e \<noteq> CHR ''}''" if "write_member m = Inr t" for m t
      using that by (auto simp: write_member_def write_string_def)
    show "join_comma ts @ CHR ''}'' # s = join_comma us @ CHR ''}'' # t" using p(5) ts(2) us(2) by simp
    show "\<forall>n \<in> set (?sort ns). wf_value (snd n)" using p(4) w by (simp add: list_all_iff)
  qed simp
  then have "set ms = set ns" "s = t" by (metis set_sort)+
  then show ?case using w p(3,4) members_unique [of ms ns] by simp
qed

lemma canonicalize_inj:
  assumes "wf_value v" "wf_value w" "canonicalize v = Inr bs" "canonicalize w = Inr bs"
  shows "v = w"
proof -
  obtain x where "write_value v = Inr x" "write_value w = Inr x"
    using assms(3,4) by (auto simp: canonicalize_def)
  then show ?thesis using value_peel [of v x w x "[]" "[]"] assms(1,2) by (simp add: stop_def)
qed

end
