(* ===== verification/Closure_Matcher.thy ===== *)
theory Closure_Matcher
  imports Closure_Canonical
begin

text \<open>
  Matchers and their replay: \<^verbatim>\<open>crates/o7-closure-matcher/src/lib.rs\<close>, \<^verbatim>\<open>schemas.rs\<close> and \<^verbatim>\<open>matchers.rs\<close>. A predicate is a
  function of the candidate and the parameters, as the \<^verbatim>\<open>fn\<close> pointer of the source is. Parameters of the
  model: \<open>sha\<close> (SHA-256), \<open>from_str\<close> (\<^verbatim>\<open>serde_json::from_str\<close>) and \<open>include_str\<close> (the text of a source file).
  Messages are constructors that keep the values the source formats into them.
\<close>

section \<open>Instants\<close>

datatype InstantError =
    NotTwentyBytes string
  | WrongPunctuation string nat char
  | NoFinalZ string
  | NotADigit string
  | NoSuchDate string
  | NoSuchTime string

definition byte_at :: "string \<Rightarrow> nat \<Rightarrow> char option" where
  "byte_at s i = (if i < length s then Some (s ! i) else None)"

definition digit_at :: "string \<Rightarrow> nat \<Rightarrow> nat option" where
  "digit_at s i =
     (case byte_at s i of
        Some c \<Rightarrow> if 48 \<le> (of_char c :: nat) \<and> (of_char c :: nat) \<le> 57 then Some (of_char c - 48) else None
      | None \<Rightarrow> None)"

text \<open>The fold of the source saturates at \<open>2^32 - 1\<close>; with at most four digits it never gets there.\<close>

definition saturating :: "nat \<Rightarrow> nat" where
  "saturating n = min n (2 ^ 32 - 1)"

fun number_from :: "string \<Rightarrow> nat \<Rightarrow> nat list \<Rightarrow> nat option" where
  "number_from s acc [] = Some acc"
| "number_from s acc (i # is) =
     (case digit_at s i of
        Some d \<Rightarrow> number_from s (saturating (saturating (acc * 10) + d)) is
      | None \<Rightarrow> None)"

definition number_at :: "string \<Rightarrow> nat \<Rightarrow> nat \<Rightarrow> nat option" where
  "number_at s from len = number_from s 0 [from..<from + len]"

definition is_leap :: "nat \<Rightarrow> bool" where
  "is_leap year \<longleftrightarrow> year mod 4 = 0 \<and> (year mod 100 \<noteq> 0 \<or> year mod 400 = 0)"

definition days_in :: "nat \<Rightarrow> nat \<Rightarrow> nat" where
  "days_in year month =
     (if month \<in> {1, 3, 5, 7, 8, 10, 12} then 31
      else if month \<in> {4, 6, 9, 11} then 30
      else if month = 2 then if is_leap year then 29 else 28
      else 0)"

definition check_punctuation :: "string \<Rightarrow> nat \<times> char \<Rightarrow> (InstantError, unit) result" where
  "check_punctuation s = (\<lambda>(position, expected).
     if byte_at s position \<noteq> Some expected then Inl (WrongPunctuation s position expected) else Inr ())"

definition utc_instant :: "string \<Rightarrow> (InstantError, unit) result" where
  "utc_instant s =
     (if length s \<noteq> 20 then Inl (NotTwentyBytes s)
      else and_then (try_for_each (check_punctuation s)
             [(4, CHR ''-''), (7, CHR ''-''), (10, CHR ''T''), (13, CHR '':''), (16, CHR '':'')]) (\<lambda>_.
        if byte_at s 19 \<noteq> Some (CHR ''Z'') then Inl (NoFinalZ s)
        else (case (number_at s 0 4, number_at s 5 2, number_at s 8 2, number_at s 11 2, number_at s 14 2, number_at s 17 2) of
            (Some year, Some month, Some day, Some hour, Some minute, Some second) \<Rightarrow>
              (let days = days_in year month in
               if days = 0 \<or> day = 0 \<or> day > days then Inl (NoSuchDate s)
               else if hour > 23 \<or> minute > 59 \<or> second > 59 then Inl (NoSuchTime s)
               else Inr ())
          | _ \<Rightarrow> Inl (NotADigit s))))"

section \<open>Shapes\<close>

datatype ValueKind =
    VK_Text | VK_Integer | VK_Bool | VK_TextArray | VK_Timestamp | VK_OneOf "string list" | VK_OpenObject
  | VK_Object "Member list"
and Member = Member (mem_name: string) (mem_required: bool) (mem_kind: ValueKind)

datatype ShapeError =
    NotAnObject string
  | RequiredAbsent string
  | IsNull string
  | NotAString string
  | NotAnInteger string
  | NotABoolean string
  | NotAnArray string
  | ElementNotAString string nat
  | NotAnInstant string InstantError
  | NotAdmissible string string "string list"
  | OutsideKeySet string string

fun position :: "('a \<Rightarrow> bool) \<Rightarrow> 'a list \<Rightarrow> nat option" where
  "position P [] = None"
| "position P (x # xs) = (if P x then Some 0 else map_option Suc (position P xs))"

definition text_of :: "Value \<Rightarrow> string \<Rightarrow> (ShapeError, string) result" where
  "text_of found at = ok_or (as_str found) (NotAString at)"

function (sequential) check_shape :: "Value \<Rightarrow> Member list \<Rightarrow> string \<Rightarrow> (ShapeError, unit) result"
  and check_members :: "(string \<times> Value) list \<Rightarrow> Member list \<Rightarrow> string \<Rightarrow> (ShapeError, unit) result"
  and check_kind :: "ValueKind \<Rightarrow> Value \<Rightarrow> string \<Rightarrow> (ShapeError, unit) result" where
  "check_shape v members path =
     and_then (ok_or (as_object v) (NotAnObject path)) (\<lambda>object.
     and_then (check_members object members path) (\<lambda>_.
     try_for_each (\<lambda>key. if list_ex (\<lambda>m. mem_name m = key) members then Inr () else Inl (OutsideKeySet path key))
       (map fst object)))"
| "check_members object [] path = Inr ()"
| "check_members object (Member name required kind # members) path =
     (let at = path @ CHR ''/'' # name in
      and_then
        (case map_of object name of
           None \<Rightarrow> if required then Inl (RequiredAbsent at) else Inr ()
         | Some VNull \<Rightarrow> Inl (IsNull at)
         | Some found \<Rightarrow> check_kind kind found at)
        (\<lambda>_. check_members object members path))"
| "check_kind VK_Text found at = and_then (text_of found at) (\<lambda>_. Inr ())"
| "check_kind VK_Integer found at =
     (if as_i64 found = None \<and> as_u64 found = None then Inl (NotAnInteger at) else Inr ())"
| "check_kind VK_Bool found at = (if \<not> is_boolean found then Inl (NotABoolean at) else Inr ())"
| "check_kind VK_TextArray found at =
     and_then (ok_or (as_array found) (NotAnArray at)) (\<lambda>items.
       case position (\<lambda>i. as_str i = None) items of
         Some p \<Rightarrow> Inl (ElementNotAString at p)
       | None \<Rightarrow> Inr ())"
| "check_kind VK_Timestamp found at =
     and_then (text_of found at) (\<lambda>text. map_err (NotAnInstant at) (utc_instant text))"
| "check_kind (VK_OneOf admissible) found at =
     and_then (text_of found at) (\<lambda>text.
       if text \<notin> set admissible then Inl (NotAdmissible at text admissible) else Inr ())"
| "check_kind VK_OpenObject found at = (if as_object found = None then Inl (NotAnObject at) else Inr ())"
| "check_kind (VK_Object nested) found at = check_shape found nested at"
  by pat_completeness auto
termination
  by (relation "measure (case_sum (\<lambda>(v, ms, p). 2 * size_list size ms + 1)
      (case_sum (\<lambda>(o', ms, p). 2 * size_list size ms) (\<lambda>(k, v, at). 2 * size k)))") auto

section \<open>The registered shapes\<close>

definition req :: "string \<Rightarrow> Member" where "req name = Member name True VK_Text"
definition opt :: "string \<Rightarrow> Member" where "opt name = Member name False VK_Text"
definition text_array :: "string \<Rightarrow> Member" where "text_array name = Member name True VK_TextArray"
definition int_member :: "string \<Rightarrow> Member" where "int_member name = Member name True VK_Integer"
definition opt_int :: "string \<Rightarrow> Member" where "opt_int name = Member name False VK_Integer"

definition USER :: "Member list" where
  "USER = [req ''id'', req ''login'', req ''type'']"

definition user :: Member where
  "user = Member ''user'' True (VK_Object USER)"

definition PULL_REQUEST_HEAD_V1 :: "Member list" where
  "PULL_REQUEST_HEAD_V1 =
     [int_member ''schemaVersion'', req ''sourceKind'', req ''repository'', req ''pullRequest'', req ''headSha'',
      req ''headRef'', req ''headRepoFullName'', opt ''updatedAt'']"

definition ACTIONS_CHECK_V1 :: "Member list" where
  "ACTIONS_CHECK_V1 =
     [int_member ''schemaVersion'', req ''sourceKind'', req ''stableId'', req ''name'', req ''headSha'',
      req ''status'', opt ''conclusion'', opt ''startedAt'', opt ''completedAt'']"

definition SUBMITTED_REVIEW_V1 :: "Member list" where
  "SUBMITTED_REVIEW_V1 =
     [int_member ''schemaVersion'', req ''sourceKind'', req ''stableId'', user, req ''authorAssociation'',
      req ''state'', req ''body'', req ''submittedAt'', req ''commitId'']"

definition REVIEW_COMMENT_V1 :: "Member list" where
  "REVIEW_COMMENT_V1 =
     [int_member ''schemaVersion'', req ''sourceKind'', req ''stableId'', req ''pullRequestReviewId'', user,
      req ''authorAssociation'', req ''body'', req ''commitId'', req ''originalCommitId'', req ''path'',
      req ''createdAt'', req ''updatedAt'', opt ''inReplyToId'', opt_int ''line'', opt_int ''originalLine'',
      opt ''side'', opt_int ''startLine'']"

definition ISSUE_COMMENT_V1 :: "Member list" where
  "ISSUE_COMMENT_V1 =
     [int_member ''schemaVersion'', req ''sourceKind'', req ''stableId'', user, req ''authorAssociation'',
      req ''body'', req ''createdAt'', req ''updatedAt'']"

record CandidateSchema =
  cs_source_kind :: string
  cs_schema_version :: int
  cs_members :: "Member list"

definition SOURCE_SCHEMAS :: "CandidateSchema list" where
  "SOURCE_SCHEMAS =
     [\<lparr>cs_source_kind = ''github-pull-request-head'', cs_schema_version = 1, cs_members = PULL_REQUEST_HEAD_V1\<rparr>,
      \<lparr>cs_source_kind = ''github-actions-check'', cs_schema_version = 1, cs_members = ACTIONS_CHECK_V1\<rparr>,
      \<lparr>cs_source_kind = ''github-submitted-review'', cs_schema_version = 1, cs_members = SUBMITTED_REVIEW_V1\<rparr>,
      \<lparr>cs_source_kind = ''github-review-comment'', cs_schema_version = 1, cs_members = REVIEW_COMMENT_V1\<rparr>,
      \<lparr>cs_source_kind = ''github-issue-comment'', cs_schema_version = 1, cs_members = ISSUE_COMMENT_V1\<rparr>]"

definition MATCHER_V1 :: "Member list" where
  "MATCHER_V1 = [req ''id'', req ''version'', Member ''parameters'' True VK_OpenObject]"

definition MATCHER_V2 :: "Member list" where
  "MATCHER_V2 = [req ''id'', req ''version'', req ''implementationDigest'', Member ''parameters'' True VK_OpenObject]"

definition BINDING :: "Member list" where
  "BINDING = [req ''repository'', req ''pullRequest'', opt ''sha'']"

definition PAGINATION :: "Member list" where
  "PAGINATION =
     [int_member ''perPage'', text_array ''pagesRequested'', text_array ''pagesObtained'',
      Member ''nextPagePresent'' True VK_Bool]"

definition ENUMERATION_STATES :: "string list" where
  "ENUMERATION_STATES = [''COMPLETE'', ''INCOMPLETE'']"

definition query_snapshot :: "Member list \<Rightarrow> Member list" where
  "query_snapshot matcher =
     [int_member ''schemaVersion'',
      Member ''sourceKind'' True (VK_OneOf [''github-query-snapshot'']),
      req ''surface'',
      req ''requiredObservationId'',
      Member ''binding'' True (VK_Object BINDING),
      Member ''pagination'' True (VK_Object PAGINATION),
      Member ''enumeration'' True (VK_OneOf ENUMERATION_STATES),
      opt ''incompleteReason'',
      Member ''matcher'' True (VK_Object matcher),
      text_array ''allReturnedSnapshotDigests'',
      text_array ''matchedSnapshotDigests'']"

record QuerySnapshotSchema =
  qs_schema_version :: int
  qs_members :: "Member list"

definition QUERY_SNAPSHOT_SCHEMAS :: "QuerySnapshotSchema list" where
  "QUERY_SNAPSHOT_SCHEMAS =
     [\<lparr>qs_schema_version = 1, qs_members = query_snapshot MATCHER_V1\<rparr>,
      \<lparr>qs_schema_version = 2, qs_members = query_snapshot MATCHER_V2\<rparr>]"

definition QUERY_SNAPSHOT_SOURCE_KIND :: string where
  "QUERY_SNAPSHOT_SOURCE_KIND = ''github-query-snapshot''"

section \<open>Errors\<close>

datatype QueryFault =
    QF_NoSourceKind
  | QF_OtherKind string
  | QF_NoSchemaVersion
  | QF_UnknownVersion int
  | QF_Shape ShapeError

datatype CandidateFault =
    CF_NoSourceKind
  | CF_NoSchemaVersion
  | CF_NoSurface string
  | CF_OtherVersion int int
  | CF_Shape ShapeError

datatype RecordFault =
    RF_SchemaVersion
  | RF_NoMatcher
  | RF_NotAString
  | RF_V1Carries
  | RF_V2Lacks
  | RF_UnknownVersion
  | RF_NoParameters
  | RF_NoDigestArray
  | RF_DigestNotString

datatype MatchError =
    UnknownMatcherId string
  | UnknownMatcherVersion string string "string list"
  | ImplementationDigestMismatch string string string string
  | ConformanceDigestMismatch string string string string
  | ConformanceVectorFailed string string string bool bool
  | ParameterMismatch string "string list" "string list"
  | CandidateDigestMismatch string string
  | CandidateSetMismatch "string list" "string list"
  | IncompleteCandidate string CandidateFault string
  | RecordedImplementationDrift string string string string
  | QuerySnapshotDigestMismatch string string
  | MalformedRecordedMatcher RecordFault
  | MalformedQuerySnapshot QueryFault
  | Canonical CanonicalError
  | MalformedCandidate string

section \<open>The registry\<close>

record ConformanceVector =
  cv_name :: string
  cv_parameters :: string
  cv_candidate :: string
  cv_expected :: bool

record MatcherEntry =
  me_id :: string
  me_version :: string
  me_parameter_keys :: "string list"
  me_vectors :: "ConformanceVector list"
  me_implementation_source :: string
  me_implementation_digest :: string
  me_conformance_digest :: string
  me_target_source_kind :: string
  me_predicate :: "Value \<Rightarrow> Value \<Rightarrow> (MatchError, bool) result"

definition review_by_expected_author_login_v1 :: "Value \<Rightarrow> Value \<Rightarrow> (MatchError, bool) result" where
  "review_by_expected_author_login_v1 candidate parameters =
     and_then (ok_or (Option.bind (json_get parameters ''expectedAuthorLogin'') as_str)
         (MalformedCandidate ''expectedAuthorLogin is not a string'')) (\<lambda>expected.
     if str_at candidate ''/sourceKind'' \<noteq> Some ''github-submitted-review'' then Inr False
     else Inr (str_at candidate ''/user/login'' = Some expected))"

definition actions_check_by_name_v1 :: "Value \<Rightarrow> Value \<Rightarrow> (MatchError, bool) result" where
  "actions_check_by_name_v1 candidate parameters =
     and_then (ok_or (Option.bind (json_get parameters ''checkName'') as_str)
         (MalformedCandidate ''checkName is not a string'')) (\<lambda>expected.
     if str_at candidate ''/sourceKind'' \<noteq> Some ''github-actions-check'' then Inr False
     else Inr (str_at candidate ''/name'' = Some expected))"

definition REVIEW_BY_AUTHOR_VECTORS :: "ConformanceVector list" where
  \<open>REVIEW_BY_AUTHOR_VECTORS = [
     \<lparr>cv_name = ''submitted review by the expected author'',
      cv_parameters = ''{"expectedAuthorLogin":"expected-reviewer"}'',
      cv_candidate = ''{"schemaVersion":1,"sourceKind":"github-submitted-review","stableId":"1","user":{"id":"1","login":"expected-reviewer","type":"User"},"authorAssociation":"NONE","state":"APPROVED","body":"","submittedAt":"2026-01-01T00:00:00Z","commitId":"1111111111111111111111111111111111111111"}'',
      cv_expected = True\<rparr>,
     \<lparr>cv_name = ''submitted review by somebody else'',
      cv_parameters = ''{"expectedAuthorLogin":"expected-reviewer"}'',
      cv_candidate = ''{"schemaVersion":1,"sourceKind":"github-submitted-review","stableId":"2","user":{"id":"2","login":"other-reviewer","type":"User"},"authorAssociation":"NONE","state":"APPROVED","body":"","submittedAt":"2026-01-01T00:00:00Z","commitId":"1111111111111111111111111111111111111111"}'',
      cv_expected = False\<rparr>,
     \<lparr>cv_name = ''issue comment by the expected author is not a review'',
      cv_parameters = ''{"expectedAuthorLogin":"expected-reviewer"}'',
      cv_candidate = ''{"schemaVersion":1,"sourceKind":"github-issue-comment","stableId":"3","user":{"id":"1","login":"expected-reviewer","type":"User"},"authorAssociation":"NONE","body":"looks clean on 1111111111111111111111111111111111111111","createdAt":"2026-01-01T00:00:00Z","updatedAt":"2026-01-01T00:00:00Z"}'',
      cv_expected = False\<rparr>,
     \<lparr>cv_name = ''review comment by the expected author is not a submitted review'',
      cv_parameters = ''{"expectedAuthorLogin":"expected-reviewer"}'',
      cv_candidate = ''{"schemaVersion":1,"sourceKind":"github-review-comment","stableId":"4","pullRequestReviewId":"9","user":{"id":"1","login":"expected-reviewer","type":"User"},"authorAssociation":"NONE","body":"","commitId":"1111111111111111111111111111111111111111","originalCommitId":"1111111111111111111111111111111111111111","path":"a","createdAt":"2026-01-01T00:00:00Z","updatedAt":"2026-01-01T00:00:00Z"}'',
      cv_expected = False\<rparr>,
     \<lparr>cv_name = ''submitted review by the expected author on another commit still matches'',
      cv_parameters = ''{"expectedAuthorLogin":"expected-reviewer"}'',
      cv_candidate = ''{"schemaVersion":1,"sourceKind":"github-submitted-review","stableId":"5","user":{"id":"1","login":"expected-reviewer","type":"User"},"authorAssociation":"NONE","state":"APPROVED","body":"","submittedAt":"2026-01-01T00:00:00Z","commitId":"2222222222222222222222222222222222222222"}'',
      cv_expected = True\<rparr>,
     \<lparr>cv_name = ''login differing only in case does not match'',
      cv_parameters = ''{"expectedAuthorLogin":"expected-reviewer"}'',
      cv_candidate = ''{"schemaVersion":1,"sourceKind":"github-submitted-review","stableId":"6","user":{"id":"6","login":"Expected-Reviewer","type":"User"},"authorAssociation":"NONE","state":"APPROVED","body":"","submittedAt":"2026-01-01T00:00:00Z","commitId":"1111111111111111111111111111111111111111"}'',
      cv_expected = False\<rparr>]\<close>

definition CHECK_BY_NAME_VECTORS :: "ConformanceVector list" where
  \<open>CHECK_BY_NAME_VECTORS = [
     \<lparr>cv_name = ''check run with the named check'',
      cv_parameters = ''{"checkName":"worker gate"}'',
      cv_candidate = ''{"schemaVersion":1,"sourceKind":"github-actions-check","stableId":"1","name":"worker gate","headSha":"1111111111111111111111111111111111111111","status":"completed","conclusion":"success"}'',
      cv_expected = True\<rparr>,
     \<lparr>cv_name = ''check run with another name'',
      cv_parameters = ''{"checkName":"worker gate"}'',
      cv_candidate = ''{"schemaVersion":1,"sourceKind":"github-actions-check","stableId":"2","name":"dependency policy","headSha":"1111111111111111111111111111111111111111","status":"completed","conclusion":"success"}'',
      cv_expected = False\<rparr>,
     \<lparr>cv_name = ''a failed run of the named check still matches'',
      cv_parameters = ''{"checkName":"worker gate"}'',
      cv_candidate = ''{"schemaVersion":1,"sourceKind":"github-actions-check","stableId":"3","name":"worker gate","headSha":"1111111111111111111111111111111111111111","status":"completed","conclusion":"failure"}'',
      cv_expected = True\<rparr>,
     \<lparr>cv_name = ''a submitted review is not a check run'',
      cv_parameters = ''{"checkName":"worker gate"}'',
      cv_candidate = ''{"schemaVersion":1,"sourceKind":"github-submitted-review","stableId":"4","user":{"id":"1","login":"worker gate","type":"Bot"},"authorAssociation":"NONE","state":"APPROVED","body":"","submittedAt":"2026-01-01T00:00:00Z","commitId":"1111111111111111111111111111111111111111"}'',
      cv_expected = False\<rparr>]\<close>

definition REVIEW_BY_EXPECTED_AUTHOR_LOGIN_V1 :: "(string \<Rightarrow> string) \<Rightarrow> MatcherEntry" where
  "REVIEW_BY_EXPECTED_AUTHOR_LOGIN_V1 include_str =
     \<lparr>me_id = ''review-by-expected-author-login'', me_version = ''1'',
      me_parameter_keys = [''expectedAuthorLogin''], me_vectors = REVIEW_BY_AUTHOR_VECTORS,
      me_implementation_source = include_str ''matchers/review_by_expected_author_login_v1.rs'',
      me_implementation_digest = ''sha256:59ea097cb9ea6705ebff04487a35861af0ea2b1b8e3e7c4980485af52f9567e9'',
      me_conformance_digest = ''sha256:7ea10c56ced0cc83ac3889750fd2a133584275d39f6f5fe809f744ebf74c5178'',
      me_target_source_kind = ''github-submitted-review'', me_predicate = review_by_expected_author_login_v1\<rparr>"

definition ACTIONS_CHECK_BY_NAME_V1 :: "(string \<Rightarrow> string) \<Rightarrow> MatcherEntry" where
  "ACTIONS_CHECK_BY_NAME_V1 include_str =
     \<lparr>me_id = ''actions-check-by-name'', me_version = ''1'',
      me_parameter_keys = [''checkName''], me_vectors = CHECK_BY_NAME_VECTORS,
      me_implementation_source = include_str ''matchers/actions_check_by_name_v1.rs'',
      me_implementation_digest = ''sha256:0400752fb274d0ab8e1540ce39b95fb9c122749612560519f54882074618c4c4'',
      me_conformance_digest = ''sha256:524e0585621242e6e7a995f952473dd15b01d3da66663c6505fc244a7714d01a'',
      me_target_source_kind = ''github-actions-check'', me_predicate = actions_check_by_name_v1\<rparr>"

definition REGISTRY :: "(string \<Rightarrow> string) \<Rightarrow> MatcherEntry list" where
  "REGISTRY include_str = [REVIEW_BY_EXPECTED_AUTHOR_LOGIN_V1 include_str, ACTIONS_CHECK_BY_NAME_V1 include_str]"

definition resolve_matcher :: "(string \<Rightarrow> string) \<Rightarrow> string \<Rightarrow> string \<Rightarrow> (MatchError, MatcherEntry) result" where
  "resolve_matcher include_str mid version =
     (let by_id = filter (\<lambda>e. me_id e = mid) (REGISTRY include_str) in
      if by_id = [] then Inl (UnknownMatcherId mid)
      else ok_or (find (\<lambda>e. me_version e = version) by_id) (UnknownMatcherVersion mid version (map me_version by_id)))"

section \<open>The binding of an entry\<close>

definition verify_implementation :: "(bytes \<Rightarrow> bytes) \<Rightarrow> MatcherEntry \<Rightarrow> (MatchError, ClosureDigest) result" where
  "verify_implementation sha entry =
     (let computed = digest_of_canonical_bytes sha (as_bytes (me_implementation_source entry)) in
      if closure_digest_str computed \<noteq> me_implementation_digest entry
      then Inl (ImplementationDigestMismatch (me_id entry) (me_version entry) (me_implementation_digest entry)
                 (closure_digest_str computed))
      else Inr computed)"

definition run_vector ::
  "(string \<Rightarrow> Value option) \<Rightarrow> MatcherEntry \<Rightarrow> ConformanceVector \<Rightarrow> (MatchError, Value) result" where
  "run_vector from_str entry vector =
     and_then (ok_or (from_str (cv_parameters vector)) (MalformedCandidate ''vector parameters are not JSON'')) (\<lambda>parameters.
     and_then (ok_or (from_str (cv_candidate vector)) (MalformedCandidate ''vector candidate is not JSON'')) (\<lambda>candidate.
     and_then (me_predicate entry candidate parameters) (\<lambda>got.
     if got \<noteq> cv_expected vector
     then Inl (ConformanceVectorFailed (me_id entry) (me_version entry) (cv_name vector) (cv_expected vector) got)
     else Inr (VObject [(''candidate'', candidate), (''name'', VString (cv_name vector)),
                        (''parameters'', parameters), (''result'', VBool got)]))))"

definition conformance_statement :: "MatcherEntry \<Rightarrow> Value list \<Rightarrow> Value" where
  "conformance_statement entry results =
     VObject [(''matcher'', VObject [(''id'', VString (me_id entry)), (''version'', VString (me_version entry))]),
              (''parameterKeys'', VArray (map VString (me_parameter_keys entry))),
              (''schemaVersion'', VNumber (PosInt 1)),
              (''sourceKind'', VString ''closure-matcher-conformance''),
              (''vectors'', VArray results)]"

definition verify_conformance ::
  "(bytes \<Rightarrow> bytes) \<Rightarrow> (string \<Rightarrow> Value option) \<Rightarrow> MatcherEntry \<Rightarrow> (MatchError, ClosureDigest) result" where
  "verify_conformance sha from_str entry =
     and_then (try_map (run_vector from_str entry) (me_vectors entry)) (\<lambda>results.
     and_then (map_err Canonical (digest sha (conformance_statement entry results))) (\<lambda>computed.
     if closure_digest_str computed \<noteq> me_conformance_digest entry
     then Inl (ConformanceDigestMismatch (me_id entry) (me_version entry) (me_conformance_digest entry)
                (closure_digest_str computed))
     else Inr computed))"

definition verify_binding ::
  "(bytes \<Rightarrow> bytes) \<Rightarrow> (string \<Rightarrow> Value option) \<Rightarrow> MatcherEntry \<Rightarrow> (MatchError, ClosureDigest) result" where
  "verify_binding sha from_str entry =
     and_then (verify_implementation sha entry) (\<lambda>_. verify_conformance sha from_str entry)"

section \<open>Recorded matchers\<close>

datatype RecordedImplementation = RI_Bound string | RI_Unrecorded

datatype ImplementationCheck = IC_Bound string | IC_CannotCheck

record RecordedMatcher =
  rm_id :: string
  rm_version :: string
  rm_matched_snapshot_digests :: "string list"
  rm_all_returned_snapshot_digests :: "string list"
  rm_parameters :: Value
  rm_implementation :: RecordedImplementation

definition digest_array :: "Value \<Rightarrow> string \<Rightarrow> (MatchError, string list) result" where
  "digest_array snapshot field =
     and_then (ok_or (Option.bind (json_get snapshot field) as_array) (MalformedRecordedMatcher RF_NoDigestArray)) (\<lambda>items.
     try_map (\<lambda>d. ok_or (as_str d) (MalformedRecordedMatcher RF_DigestNotString)) items)"

definition recorded_implementation ::
  "nat \<Rightarrow> Value option \<Rightarrow> (MatchError, RecordedImplementation) result" where
  "recorded_implementation schema_version declared =
     (if schema_version = 1 \<and> declared = None then Inr RI_Unrecorded
      else case (schema_version = 2, declared) of
        (True, Some (VString d)) \<Rightarrow> Inr (RI_Bound d)
      | _ \<Rightarrow> if schema_version = 1 then Inl (MalformedRecordedMatcher RF_V1Carries)
             else if schema_version = 2 then Inl (MalformedRecordedMatcher RF_V2Lacks)
             else Inl (MalformedRecordedMatcher RF_UnknownVersion))"

definition from_query_snapshot :: "Value \<Rightarrow> (MatchError, RecordedMatcher) result" where
  "from_query_snapshot snapshot =
     and_then (ok_or (Option.bind (json_get snapshot ''schemaVersion'') as_u64)
         (MalformedRecordedMatcher RF_SchemaVersion)) (\<lambda>schema_version.
     and_then (ok_or (json_get snapshot ''matcher'') (MalformedRecordedMatcher RF_NoMatcher)) (\<lambda>matcher.
     let string_of = (\<lambda>key. ok_or (Option.bind (json_get matcher key) as_str) (MalformedRecordedMatcher RF_NotAString)) in
     and_then (recorded_implementation schema_version (json_get matcher ''implementationDigest'')) (\<lambda>implementation.
     and_then (string_of ''id'') (\<lambda>mid.
     and_then (string_of ''version'') (\<lambda>version.
     and_then (ok_or (json_get matcher ''parameters'') (MalformedRecordedMatcher RF_NoParameters)) (\<lambda>parameters.
     and_then (digest_array snapshot ''matchedSnapshotDigests'') (\<lambda>matched.
     and_then (digest_array snapshot ''allReturnedSnapshotDigests'') (\<lambda>returned.
     Inr \<lparr>rm_id = mid, rm_version = version, rm_matched_snapshot_digests = matched,
          rm_all_returned_snapshot_digests = returned, rm_parameters = parameters,
          rm_implementation = implementation\<rparr>))))))))"

definition check_query_snapshot_shape :: "Value \<Rightarrow> (MatchError, unit) result" where
  "check_query_snapshot_shape snapshot =
     (case str_at snapshot ''/sourceKind'' of
        None \<Rightarrow> Inl (MalformedQuerySnapshot QF_NoSourceKind)
      | Some declared_kind \<Rightarrow>
          if declared_kind \<noteq> QUERY_SNAPSHOT_SOURCE_KIND then Inl (MalformedQuerySnapshot (QF_OtherKind declared_kind))
          else (case Option.bind (pointer snapshot ''/schemaVersion'') integer_of of
              None \<Rightarrow> Inl (MalformedQuerySnapshot QF_NoSchemaVersion)
            | Some declared_version \<Rightarrow>
                (case find (\<lambda>s. qs_schema_version s = declared_version) QUERY_SNAPSHOT_SCHEMAS of
                   None \<Rightarrow> Inl (MalformedQuerySnapshot (QF_UnknownVersion declared_version))
                 | Some schema \<Rightarrow>
                     map_err (\<lambda>why. MalformedQuerySnapshot (QF_Shape why)) (check_shape snapshot (qs_members schema) []))))"

record RecordedQuerySnapshot =
  rq_digest :: string
  rq_matcher :: RecordedMatcher

definition RecordedQuerySnapshot_from_canonical ::
  "(bytes \<Rightarrow> bytes) \<Rightarrow> Value \<Rightarrow> string \<Rightarrow> (MatchError, RecordedQuerySnapshot) result" where
  "RecordedQuerySnapshot_from_canonical sha snapshot expected_query_digest =
     and_then (map_err Canonical (digest sha snapshot)) (\<lambda>computed.
     if closure_digest_str computed \<noteq> expected_query_digest
     then Inl (QuerySnapshotDigestMismatch expected_query_digest (closure_digest_str computed))
     else
       and_then (check_query_snapshot_shape snapshot) (\<lambda>_.
       and_then (from_query_snapshot snapshot) (\<lambda>matcher.
       Inr \<lparr>rq_digest = closure_digest_str computed, rq_matcher = matcher\<rparr>)))"

section \<open>Replay\<close>

record Replay =
  rp_matched :: "string list"
  rp_implementation :: ImplementationCheck

record Candidate =
  cd_declared_digest :: string
  cd_snapshot :: Value

record MatchedVerdict =
  mv_replay :: Replay
  mv_reproduced :: bool

definition check_recorded_implementation ::
  "(bytes \<Rightarrow> bytes) \<Rightarrow> MatcherEntry \<Rightarrow> RecordedImplementation \<Rightarrow> (MatchError, ImplementationCheck) result" where
  "check_recorded_implementation sha entry recorded =
     and_then (verify_implementation sha entry) (\<lambda>resolved.
     case recorded of
       RI_Unrecorded \<Rightarrow> Inr IC_CannotCheck
     | RI_Bound d \<Rightarrow>
         if d = closure_digest_str resolved then Inr (IC_Bound d)
         else Inl (RecordedImplementationDrift (me_id entry) (me_version entry) d (closure_digest_str resolved)))"

definition check_parameters :: "MatcherEntry \<Rightarrow> Value \<Rightarrow> (MatchError, unit) result" where
  "check_parameters entry parameters =
     and_then (ok_or (as_object parameters) (MalformedCandidate ''matcher.parameters is not an object'')) (\<lambda>object.
     let found = sort (map fst object); expected = sort (me_parameter_keys entry) in
     if found \<noteq> expected then Inl (ParameterMismatch (me_id entry) expected found) else Inr ())"

definition check_candidate_shape :: "Candidate \<Rightarrow> (MatchError, unit) result" where
  "check_candidate_shape candidate =
     (let snapshot = cd_snapshot candidate;
          refuse = (\<lambda>why. IncompleteCandidate
            (case str_at snapshot ''/sourceKind'' of Some k \<Rightarrow> k | None \<Rightarrow> ''<absent>'') why (cd_declared_digest candidate)) in
      (case str_at snapshot ''/sourceKind'' of
         None \<Rightarrow> Inl (refuse CF_NoSourceKind)
       | Some declared_kind \<Rightarrow>
           (case Option.bind (pointer snapshot ''/schemaVersion'') integer_of of
              None \<Rightarrow> Inl (refuse CF_NoSchemaVersion)
            | Some declared_version \<Rightarrow>
                (case find (\<lambda>s. cs_source_kind s = declared_kind) SOURCE_SCHEMAS of
                   None \<Rightarrow> Inl (refuse (CF_NoSurface declared_kind))
                 | Some schema \<Rightarrow>
                     if declared_version \<noteq> cs_schema_version schema
                     then Inl (refuse (CF_OtherVersion declared_version (cs_schema_version schema)))
                     else map_err (\<lambda>why. refuse (CF_Shape why)) (check_shape snapshot (cs_members schema) [])))))"

definition score_candidate ::
  "(bytes \<Rightarrow> bytes) \<Rightarrow> MatcherEntry \<Rightarrow> Value \<Rightarrow> string list \<Rightarrow> Candidate \<Rightarrow> (MatchError, string list) result" where
  "score_candidate sha entry parameters matched candidate =
     and_then (map_err Canonical (digest sha (cd_snapshot candidate))) (\<lambda>computed.
     if closure_digest_str computed \<noteq> cd_declared_digest candidate
     then Inl (CandidateDigestMismatch (cd_declared_digest candidate) (closure_digest_str computed))
     else
       and_then (check_candidate_shape candidate) (\<lambda>_.
       and_then (me_predicate entry (cd_snapshot candidate) parameters) (\<lambda>hit.
       Inr (if hit then matched @ [cd_declared_digest candidate] else matched))))"

definition recompute_matched ::
  "(bytes \<Rightarrow> bytes) \<Rightarrow> (string \<Rightarrow> Value option) \<Rightarrow> (string \<Rightarrow> string) \<Rightarrow> RecordedMatcher \<Rightarrow> Candidate list
     \<Rightarrow> (MatchError, Replay) result" where
  "recompute_matched sha from_str include_str recorded candidates =
     and_then (resolve_matcher include_str (rm_id recorded) (rm_version recorded)) (\<lambda>entry.
     and_then (verify_binding sha from_str entry) (\<lambda>_.
     and_then (check_recorded_implementation sha entry (rm_implementation recorded)) (\<lambda>implementation.
     and_then (check_parameters entry (rm_parameters recorded)) (\<lambda>_.
     let supplied = map cd_declared_digest candidates in
     if supplied \<noteq> rm_all_returned_snapshot_digests recorded
     then Inl (CandidateSetMismatch (rm_all_returned_snapshot_digests recorded) supplied)
     else
       and_then (try_fold (score_candidate sha entry (rm_parameters recorded)) [] candidates) (\<lambda>matched.
       Inr \<lparr>rp_matched = matched, rp_implementation = implementation\<rparr>)))))"

definition verify_matched ::
  "(bytes \<Rightarrow> bytes) \<Rightarrow> (string \<Rightarrow> Value option) \<Rightarrow> (string \<Rightarrow> string) \<Rightarrow> RecordedMatcher \<Rightarrow> Candidate list
     \<Rightarrow> (MatchError, MatchedVerdict) result" where
  "verify_matched sha from_str include_str recorded candidates =
     and_then (recompute_matched sha from_str include_str recorded candidates) (\<lambda>replay.
     Inr \<lparr>mv_replay = replay, mv_reproduced = (rp_matched replay = rm_matched_snapshot_digests recorded)\<rparr>)"

end
