(* ===== verification/Closure_Shapes.thy ===== *)
theory Closure_Shapes
  imports Closure_Matcher
begin

text \<open>
  What the checks of the closure crates accept, stated without their control flow: an instant is the fixed
  spelling of a date and time that exist, a shape check is conformance to a closed table in both directions.
\<close>

section \<open>Instants\<close>

definition two_digits :: "nat \<Rightarrow> string" where
  "two_digits n = [char_of (48 + n div 10), char_of (48 + n mod 10)]"

definition four_digits :: "nat \<Rightarrow> string" where
  "four_digits n = [char_of (48 + n div 1000), char_of (48 + n div 100 mod 10), char_of (48 + n div 10 mod 10),
     char_of (48 + n mod 10)]"

record Instant =
  i_year :: nat
  i_month :: nat
  i_day :: nat
  i_hour :: nat
  i_minute :: nat
  i_second :: nat

definition instant_exists :: "Instant \<Rightarrow> bool" where
  "instant_exists i \<longleftrightarrow> i_year i < 10000 \<and> i_month i \<in> {1..12} \<and> i_day i \<in> {1..days_in (i_year i) (i_month i)}
     \<and> i_hour i < 24 \<and> i_minute i < 60 \<and> i_second i < 60"

definition instant_text :: "Instant \<Rightarrow> string" where
  "instant_text i =
     four_digits (i_year i) @ ''-'' @ two_digits (i_month i) @ ''-'' @ two_digits (i_day i) @ ''T''
       @ two_digits (i_hour i) @ '':'' @ two_digits (i_minute i) @ '':'' @ two_digits (i_second i) @ ''Z''"

lemma digit_at_Some: "digit_at s i = Some d \<longleftrightarrow> i < length s \<and> d < 10 \<and> s ! i = char_of (48 + d)"
proof -
  have "c = char_of (48 + (of_char c - 48 :: nat))" if "48 \<le> (of_char c :: nat)" for c using that by simp
  then show ?thesis by (auto simp: digit_at_def byte_at_def)
qed

lemma number_step:
  "acc < 100000 \<Longrightarrow> number_from s acc (i # is) =
     (case digit_at s i of Some d \<Rightarrow> number_from s (acc * 10 + d) is | None \<Rightarrow> None)"
proof (cases "digit_at s i")
  case (Some d)
  then have "d < 10" by (simp add: digit_at_Some)
  then show "acc < 100000 \<Longrightarrow> ?thesis" using Some by (simp add: saturating_def)
qed simp

lemma number_at_two:
  "number_at s i 2 = Some n \<longleftrightarrow>
     Suc i < length s \<and> n < 100 \<and> s ! i = char_of (48 + n div 10) \<and> s ! Suc i = char_of (48 + n mod 10)"
  (is "?l \<longleftrightarrow> ?r")
proof
  have upt: "[i..<i + 2] = [i, Suc i]" by (simp add: upt_rec)
  {
    assume l: ?l
    then obtain d where d: "digit_at s i = Some d" by (cases "digit_at s i") (simp_all add: number_at_def upt)
    then have "d < 10" by (simp add: digit_at_Some)
    then obtain e where e: "digit_at s (Suc i) = Some e" "n = d * 10 + e"
      using l d by (cases "digit_at s (Suc i)") (simp_all add: number_at_def upt number_step del: number_from.simps(2))
    then show ?r using d by (auto simp: digit_at_Some)
  next
    assume r: ?r
    then have "digit_at s i = Some (n div 10)" "digit_at s (Suc i) = Some (n mod 10)" by (auto simp: digit_at_Some)
    moreover have "n div 10 < 100000" using r by linarith
    ultimately show ?l using r by (simp add: number_at_def upt number_step del: number_from.simps(2))
  }
qed

lemma number_at_four:
  "number_at s 0 4 = Some n \<longleftrightarrow>
     3 < length s \<and> n < 10000 \<and> s ! 0 = char_of (48 + n div 1000) \<and> s ! 1 = char_of (48 + n div 100 mod 10)
       \<and> s ! 2 = char_of (48 + n div 10 mod 10) \<and> s ! 3 = char_of (48 + n mod 10)"
  (is "?l \<longleftrightarrow> ?r")
proof
  have upt: "[0..<4] = [0, 1, 2, 3 :: nat]" by (simp add: upt_rec)
  {
    assume l: ?l
    then have some: "number_from s 0 [0, 1, 2, 3] = Some n" by (simp add: number_at_def upt del: number_from.simps(2))
    obtain d where d: "digit_at s 0 = Some d" "d < 10" using some by (cases "digit_at s 0") (auto simp: digit_at_Some)
    then have "number_from s d [1, 2, 3] = Some n" using some by (simp add: number_step del: number_from.simps(2))
    moreover from this obtain e where e: "digit_at s 1 = Some e" "e < 10" by (cases "digit_at s 1") (auto simp: digit_at_Some)
    ultimately have "number_from s (d * 10 + e) [2, 3] = Some n" using d by (simp add: number_step del: number_from.simps(2))
    moreover from this obtain f where f: "digit_at s 2 = Some f" "f < 10" by (cases "digit_at s 2") (auto simp: digit_at_Some)
    ultimately have "number_from s ((d * 10 + e) * 10 + f) [3] = Some n" using d e by (simp add: number_step del: number_from.simps(2))
    moreover from this obtain g where g: "digit_at s 3 = Some g" "g < 10" by (cases "digit_at s 3") (auto simp: digit_at_Some)
    ultimately have n: "n = ((d * 10 + e) * 10 + f) * 10 + g" using d e f by (simp add: number_step del: number_from.simps(2))
    have q: "n div 100 = n div 10 div 10" "n div 1000 = n div 10 div 10 div 10" by (simp_all flip: div_mult2_eq)
    have ten: "(q * 10 + r) div 10 = q" "(q * 10 + r) mod 10 = r" if "r < 10" for q r :: nat using that by simp_all
    have "n div 10 = (d * 10 + e) * 10 + f" "n mod 10 = g" unfolding n by (rule ten [OF g(2)])+
    moreover have "n div 10 div 10 = d * 10 + e" "n div 10 mod 10 = f" unfolding calculation(1) by (rule ten [OF f(2)])+
    ultimately have "n div 1000 = d" "n div 100 mod 10 = e" "n div 10 mod 10 = f" "n mod 10 = g" using ten [OF e(2), of d] unfolding q by simp_all
    then show ?r using d e f g n by (simp add: digit_at_Some)
  next
    assume r: ?r
    then have "digit_at s 0 = Some (n div 1000)" "digit_at s 1 = Some (n div 100 mod 10)"
      "digit_at s 2 = Some (n div 10 mod 10)" "digit_at s 3 = Some (n mod 10)" by (auto simp: digit_at_Some)
    moreover have "n div 1000 = n div 100 div 10" "n div 100 = n div 10 div 10" by (simp_all flip: div_mult2_eq)
    then have "n div 1000 * 10 + n div 100 mod 10 = n div 100" "n div 100 * 10 + n div 10 mod 10 = n div 10"
      "n div 10 * 10 + n mod 10 = n" by (simp_all only: div_mult_mod_eq)
    moreover have "n div k < 100000" for k using r div_le_dividend [of n k] by linarith
    ultimately show ?l by (simp add: number_at_def upt number_step del: number_from.simps(2))
  }
qed

lemma days_in_pos: "days_in y m \<noteq> 0 \<longleftrightarrow> m \<in> {1..12}"
proof -
  have "m \<in> {1..12} \<longleftrightarrow> m \<in> {1, 2, 3, 4, 5, 6, 7, 8, 9, 10, 11, 12}" by auto presburger
  then show ?thesis by (auto simp: days_in_def)
qed

lemma twenty: "length s = 20 \<Longrightarrow> s = [s ! 0, s ! 1, s ! 2, s ! 3, s ! 4, s ! 5, s ! 6, s ! 7, s ! 8, s ! 9, s ! 10, s ! 11,
    s ! 12, s ! 13, s ! 14, s ! 15, s ! 16, s ! 17, s ! 18, s ! 19]"
proof -
  have "[0..<20] = [0, 1, 2, 3, 4, 5, 6, 7, 8, 9, 10, 11, 12, 13, 14, 15, 16, 17, 18, 19 :: nat]" by code_simp
  then show "length s = 20 \<Longrightarrow> ?thesis" using map_nth [of s] by simp
qed

lemma utc_instant_iff:
  "utc_instant s = Inr () \<longleftrightarrow> (\<exists>i. instant_exists i \<and> s = instant_text i)"
proof
  assume u: "utc_instant s = Inr ()"
  then have len: "length s = 20" by (simp add: utc_instant_def split: if_splits)
  have p: "s ! 4 = CHR ''-''" "s ! 7 = CHR ''-''" "s ! 10 = CHR ''T''" "s ! 13 = CHR '':''" "s ! 16 = CHR '':''" "s ! 19 = CHR ''Z''"
    using u len by (auto simp: utc_instant_def check_punctuation_def byte_at_def split: if_splits)
  obtain y mo d h mi se where n: "number_at s 0 4 = Some y" "number_at s 5 2 = Some mo" "number_at s 8 2 = Some d"
    "number_at s 11 2 = Some h" "number_at s 14 2 = Some mi" "number_at s 17 2 = Some se"
    and ok: "days_in y mo \<noteq> 0" "d \<noteq> 0" "d \<le> days_in y mo" "h \<le> 23" "mi \<le> 59" "se \<le> 59"
    using u len by (auto simp: utc_instant_def Let_def split: if_splits option.splits)
  let ?i = "\<lparr>i_year = y, i_month = mo, i_day = d, i_hour = h, i_minute = mi, i_second = se\<rparr>"
  have "mo \<in> {1..12}" using ok(1) days_in_pos by blast
  then have "instant_exists ?i" using ok n(1) by (simp add: instant_exists_def number_at_four)
  moreover have "s = instant_text ?i"
    using twenty [OF len] n p by (simp add: instant_text_def four_digits_def two_digits_def number_at_two number_at_four)
  ultimately show "\<exists>i. instant_exists i \<and> s = instant_text i" by blast
next
  assume "\<exists>i. instant_exists i \<and> s = instant_text i"
  then obtain i where i: "instant_exists i" "s = instant_text i" by blast
  have "days_in y m \<le> 31" for y m by (simp add: days_in_def)
  then have "i_day i \<le> 31" using i(1) by (auto simp: instant_exists_def intro: le_trans)
  then have b: "i_year i < 10000" "i_month i < 100" "i_day i < 100" "i_hour i < 100" "i_minute i < 100" "i_second i < 100"
    using i(1) by (auto simp: instant_exists_def)
  have n: "number_at s 0 4 = Some (i_year i)" "number_at s 5 2 = Some (i_month i)" "number_at s 8 2 = Some (i_day i)"
    "number_at s 11 2 = Some (i_hour i)" "number_at s 14 2 = Some (i_minute i)" "number_at s 17 2 = Some (i_second i)"
    unfolding number_at_two number_at_four using b by (simp_all add: i(2) instant_text_def four_digits_def two_digits_def)
  show "utc_instant s = Inr ()"
    using i(1) days_in_pos [of "i_year i" "i_month i"]
    by (simp add: utc_instant_def n instant_exists_def Let_def check_punctuation_def byte_at_def)
      (simp add: i(2) instant_text_def four_digits_def two_digits_def)
qed

section \<open>Shapes\<close>

lemma size_mem_kind: "m \<in> set ms \<Longrightarrow> size (mem_kind m) < Suc (size_list size ms)"
proof -
  have "size (mem_kind m) < size m" by (cases m) simp
  then show "m \<in> set ms \<Longrightarrow> ?thesis" using size_list_estimation' [of m ms "size m" size] by simp
qed

text \<open>A value of a kind; an object has every required member, no null, and no member outside the table.\<close>

function fits :: "ValueKind \<Rightarrow> Value \<Rightarrow> bool" where
  "fits VK_Text v \<longleftrightarrow> (\<exists>s. v = VString s)"
| "fits VK_Integer v \<longleftrightarrow> (\<exists>u. v = VNumber (PosInt u)) \<or> (\<exists>i. v = VNumber (NegInt i))"
| "fits VK_Bool v \<longleftrightarrow> (\<exists>b. v = VBool b)"
| "fits VK_TextArray v \<longleftrightarrow> (\<exists>ss. v = VArray (map VString ss))"
| "fits VK_Timestamp v \<longleftrightarrow> (\<exists>i. instant_exists i \<and> v = VString (instant_text i))"
| "fits (VK_OneOf admissible) v \<longleftrightarrow> (\<exists>s \<in> set admissible. v = VString s)"
| "fits VK_OpenObject v \<longleftrightarrow> (\<exists>ms. v = VObject ms)"
| "fits (VK_Object members) v \<longleftrightarrow>
     (\<exists>object. v = VObject object
        \<and> (\<forall>m \<in> set members. case map_of object (mem_name m) of
              None \<Rightarrow> \<not> mem_required m
            | Some w \<Rightarrow> w \<noteq> VNull \<and> fits (mem_kind m) w)
        \<and> fst ` set object \<subseteq> mem_name ` set members)"
  by pat_completeness auto
termination
  by (relation "measure (\<lambda>(k, v). size k)") (auto simp: size_mem_kind)

lemma position_None: "position P xs = None \<longleftrightarrow> (\<forall>x \<in> set xs. \<not> P x)"
  by (induction xs) auto

lemma text_items: "(\<forall>x \<in> set xs. as_str x \<noteq> None) \<longleftrightarrow> (\<exists>ss. xs = map VString ss)"
proof
  assume "\<forall>x \<in> set xs. as_str x \<noteq> None"
  then show "\<exists>ss. xs = map VString ss"
  proof (induction xs)
    case (Cons x xs)
    then obtain ss s where "xs = map VString ss" "x = VString s" by auto
    then show ?case by (intro exI [of _ "s # ss"]) simp
  qed simp
qed auto

lemma integers: "as_i64 v = None \<and> as_u64 v = None \<longleftrightarrow> \<not> fits VK_Integer v"
  by (cases v rule: as_i64.cases) auto

lemma check_shape_iff:
  "check_shape v members path = Inr () \<longleftrightarrow> fits (VK_Object members) v"
  "check_members object members path = Inr () \<longleftrightarrow>
     (\<forall>m \<in> set members. case map_of object (mem_name m) of
        None \<Rightarrow> \<not> mem_required m | Some w \<Rightarrow> w \<noteq> VNull \<and> fits (mem_kind m) w)"
  "check_kind k v at = Inr () \<longleftrightarrow> fits k v"
proof (induction v members path and object members path and k v at rule: check_shape_check_members_check_kind.induct)
  case (1 v members path)
  have closed: "try_for_each (\<lambda>key. if list_ex (\<lambda>m. mem_name m = key) members then Inr () else Inl (OutsideKeySet path key))
      (map fst object) = Inr () \<longleftrightarrow> fst ` set object \<subseteq> mem_name ` set members" for object :: "(string \<times> Value) list"
    unfolding try_for_each_Inr list_ex_iff by (auto split: if_splits) (force simp: image_iff)+
  show ?case
  proof (cases "as_object v")
    case None
    then show ?thesis by (cases v) (simp_all add: ok_or_def)
  next
    case (Some object)
    then have "v = VObject object" by simp
    then show ?thesis using 1 [of object] closed by simp
  qed
next
  case (3 object name required kind members path)
  show ?case
  proof (cases "map_of object name")
    case None
    then show ?thesis using 3 by simp
  next
    case (Some w)
    then show ?thesis using 3 by (cases w) simp_all
  qed
next
  case (7 found at)
  show ?case
  proof (cases "as_array found")
    case None
    then show ?thesis by (cases found) (simp_all add: ok_or_def)
  next
    case (Some items)
    then have "found = VArray items" by simp
    then show ?thesis using text_items [of items] position_None [of "\<lambda>i. as_str i = None" items]
      by (auto split: option.split)
  qed
next
  case (5 found at)
  then show ?case using integers [of found] by simp
next
  case (6 found at)
  then show ?case by (cases found) simp_all
next
  case (8 found at)
  then show ?case by (auto simp: text_of_def utc_instant_iff)
next
  case (10 found at)
  then show ?case by (cases found) simp_all
qed (auto simp: text_of_def split: if_splits)

end
