(* ===== verification/Closure_Matching.thy ===== *)
theory Closure_Matching
  imports Closure_Shapes
begin

text \<open>
  Replaying a recorded selection: what a conforming query snapshot yields, what a successful replay
  established about every candidate, and the properties of the canonical form.
\<close>

section \<open>Reading a query snapshot\<close>

lemma pointer_names:
  "pointer v ''/sourceKind'' = child v ''sourceKind''" "pointer v ''/schemaVersion'' = child v ''schemaVersion''"
  "pointer v ''/name'' = child v ''name''"
  by (rule pointer_key; simp)+

lemma as_u64_integer: "wf_value n \<Longrightarrow> integer_of n = Some i \<Longrightarrow> 0 \<le> i \<Longrightarrow> as_u64 n = Some (nat i)"
  by (cases n rule: as_i64.cases) (auto simp: integer_of_as_i64 nat_uint_eq split: if_splits)

lemma child_get: "v = VObject ms \<Longrightarrow> child v k = json_get v k"
  by (simp add: json_get_def)

lemma digest_array_fits:
  assumes "map_of object field = Some w" "fits VK_TextArray w"
  shows "\<exists>ss. w = VArray (map VString ss) \<and> digest_array (VObject object) field = Inr ss"
proof -
  obtain ss where ss: "w = VArray (map VString ss)" using assms(2) by auto
  have "try_map (\<lambda>d. ok_or (as_str d) (MalformedRecordedMatcher RF_DigestNotString)) (map VString ss) = Inr ss"
    by (induction ss) simp_all
  then show ?thesis using assms(1) ss by (simp add: digest_array_def json_get_def)
qed

lemma required_member:
  assumes "fits (VK_Object members) (VObject object)" "Member name True kind \<in> set members"
  shows "\<exists>w. map_of object name = Some w \<and> fits kind w"
  using assms by (fastforce split: option.splits)

lemma absent_member:
  assumes "fits (VK_Object members) (VObject object)" "name \<notin> mem_name ` set members"
  shows "map_of object name = None"
  using assms by (auto simp: map_of_eq_None_iff)

definition snapshot_members :: "int \<Rightarrow> Member list" where
  "snapshot_members version = query_snapshot (if version = 1 then MATCHER_V1 else MATCHER_V2)"

definition query_conforming :: "Value \<Rightarrow> bool" where
  "query_conforming v \<longleftrightarrow>
     str_at v ''/sourceKind'' = Some QUERY_SNAPSHOT_SOURCE_KIND
     \<and> (\<exists>version \<in> {1, 2}. Option.bind (pointer v ''/schemaVersion'') integer_of = Some version
          \<and> fits (VK_Object (snapshot_members version)) v)"

lemma query_shape_iff: "check_query_snapshot_shape v = Inr () \<longleftrightarrow> query_conforming v"
proof (cases "str_at v ''/sourceKind'' = Some QUERY_SNAPSHOT_SOURCE_KIND")
  case kind: True
  show ?thesis
  proof (cases "Option.bind (pointer v ''/schemaVersion'') integer_of")
    case None
    then show ?thesis using kind by (simp add: check_query_snapshot_shape_def query_conforming_def)
  next
    case (Some n)
    have "check_query_snapshot_shape v = Inr () \<longleftrightarrow> n \<in> {1, 2} \<and> check_shape v (snapshot_members n) [] = Inr ()"
      using kind Some by (auto simp: check_query_snapshot_shape_def QUERY_SNAPSHOT_SCHEMAS_def snapshot_members_def
          simp del: check_shape.simps)
    then show ?thesis using kind Some by (auto simp: query_conforming_def check_shape_iff(1) simp del: check_shape.simps fits.simps)
  qed
qed (simp add: check_query_snapshot_shape_def query_conforming_def split: option.splits)

text \<open>
  The extraction after the shape check has no reachable refusal, and reads the version's own matcher block.
\<close>

definition matcher_members :: "int \<Rightarrow> Member list" where
  "matcher_members version = (if version = 1 then MATCHER_V1 else MATCHER_V2)"

lemma matcher_member:
  "Member ''id'' True VK_Text \<in> set (matcher_members n)" "Member ''version'' True VK_Text \<in> set (matcher_members n)"
  "Member ''parameters'' True VK_OpenObject \<in> set (matcher_members n)"
  "n \<noteq> 1 \<Longrightarrow> Member ''implementationDigest'' True VK_Text \<in> set (matcher_members n)"
  "''implementationDigest'' \<notin> mem_name ` set (matcher_members 1)"
  by (simp_all add: matcher_members_def MATCHER_V1_def MATCHER_V2_def req_def)

lemma snapshot_member:
  "Member ''matcher'' True (VK_Object (matcher_members n)) \<in> set (snapshot_members n)"
  "Member ''matchedSnapshotDigests'' True VK_TextArray \<in> set (snapshot_members n)"
  "Member ''allReturnedSnapshotDigests'' True VK_TextArray \<in> set (snapshot_members n)"
  by (simp_all add: snapshot_members_def matcher_members_def query_snapshot_def text_array_def)

lemma recorded_implementation_total:
  assumes "n \<in> {1, 2}" and m: "fits (VK_Object (matcher_members n)) (VObject block)"
  shows "\<exists>r. recorded_implementation (nat n) (map_of block ''implementationDigest'') = Inr r"
proof (cases "n = 1")
  case True
  show ?thesis using absent_member [OF m [unfolded True] matcher_member(5)] True by (simp add: recorded_implementation_def)
next
  case False
  obtain d where "map_of block ''implementationDigest'' = Some (VString d)"
    using required_member [OF m matcher_member(4) [OF False]] by (auto simp: fits.simps(1))
  then show ?thesis using False assms(1) by (simp add: recorded_implementation_def)
qed

lemma from_query_snapshot_total:
  assumes wf: "wf_value v" and shape: "check_query_snapshot_shape v = Inr ()"
  shows "\<exists>r. from_query_snapshot v = Inr r"
proof -
  obtain version where ver: "version \<in> {1, 2}" "Option.bind (pointer v ''/schemaVersion'') integer_of = Some version"
    and f: "fits (VK_Object (snapshot_members version)) v" using shape unfolding query_shape_iff query_conforming_def by blast
  obtain object where v: "v = VObject object" using f by auto
  note req = required_member [OF f [unfolded v]]
  obtain n where n: "map_of object ''schemaVersion'' = Some n" "integer_of n = Some version"
    using ver(2) by (auto simp: v pointer_names bind_eq_Some_conv)
  have "wf_value n" using wf map_of_SomeD [OF n(1)] by (fastforce simp: v list_all_iff)
  then have u: "as_u64 n = Some (nat version)" using as_u64_integer [OF _ n(2)] ver(1) by auto
  obtain w where w: "map_of object ''matcher'' = Some w" "fits (VK_Object (matcher_members version)) w"
    using req [OF snapshot_member(1)] by blast
  obtain block where b: "w = VObject block" using w(2) by auto
  note m = w(2) [unfolded b]
  obtain i where i: "map_of block ''id'' = Some (VString i)"
    using required_member [OF m matcher_member(1)] by (auto simp: fits.simps(1))
  obtain k where k: "map_of block ''version'' = Some (VString k)"
    using required_member [OF m matcher_member(2)] by (auto simp: fits.simps(1))
  obtain p where p: "map_of block ''parameters'' = Some p"
    using required_member [OF m matcher_member(3)] by blast
  obtain impl where impl: "recorded_implementation (nat version) (map_of block ''implementationDigest'') = Inr impl"
    using recorded_implementation_total [OF ver(1) m] by blast
  obtain ms rs where "digest_array v ''matchedSnapshotDigests'' = Inr ms" "digest_array v ''allReturnedSnapshotDigests'' = Inr rs"
    using req [OF snapshot_member(2)] req [OF snapshot_member(3)] digest_array_fits unfolding v by blast
  then show ?thesis using n(1) u w(1) b i k p impl
    by (simp add: from_query_snapshot_def v json_get_def Let_def)
qed

section \<open>Replaying a selection\<close>

text \<open>
  A candidate the replay accepts: its declared digest is the digest of its bytes, its surface and version
  are registered and it has that shape. The selection is then what the predicate says of each, in order.
\<close>

definition authentic_candidate :: "(bytes \<Rightarrow> bytes) \<Rightarrow> Candidate \<Rightarrow> bool" where
  "authentic_candidate sha c \<longleftrightarrow> (case digest sha (cd_snapshot c) of Inl _ \<Rightarrow> False | Inr d \<Rightarrow> closure_digest_str d = cd_declared_digest c)"

definition surface_of :: "Candidate \<Rightarrow> CandidateSchema option" where
  "surface_of c = Option.bind (str_at (cd_snapshot c) ''/sourceKind'') (\<lambda>kind. find (\<lambda>s. cs_source_kind s = kind) SOURCE_SCHEMAS)"

definition conforming :: "Candidate \<Rightarrow> bool" where
  "conforming c \<longleftrightarrow>
     (case surface_of c of
        None \<Rightarrow> False
      | Some schema \<Rightarrow> Option.bind (pointer (cd_snapshot c) ''/schemaVersion'') integer_of = Some (cs_schema_version schema)
          \<and> fits (VK_Object (cs_members schema)) (cd_snapshot c))"

definition selects :: "MatcherEntry \<Rightarrow> Value \<Rightarrow> Candidate \<Rightarrow> bool" where
  "selects entry parameters c \<longleftrightarrow> me_predicate entry (cd_snapshot c) parameters = Inr True"

definition scorable :: "(bytes \<Rightarrow> bytes) \<Rightarrow> MatcherEntry \<Rightarrow> Value \<Rightarrow> Candidate \<Rightarrow> bool" where
  "scorable sha entry parameters c \<longleftrightarrow>
     authentic_candidate sha c \<and> conforming c \<and> (\<exists>hit. me_predicate entry (cd_snapshot c) parameters = Inr hit)"

lemma candidate_shape_iff: "check_candidate_shape c = Inr () \<longleftrightarrow> conforming c"
proof (cases "str_at (cd_snapshot c) ''/sourceKind''")
  case None
  then show ?thesis by (simp add: check_candidate_shape_def conforming_def surface_of_def)
next
  case (Some kind)
  show ?thesis
  proof (cases "Option.bind (pointer (cd_snapshot c) ''/schemaVersion'') integer_of")
    case None
    then show ?thesis using Some by (simp add: check_candidate_shape_def conforming_def split: option.split)
  next
    case (Some n)
    with \<open>str_at _ _ = _\<close> show ?thesis
      by (simp add: check_candidate_shape_def conforming_def surface_of_def check_shape_iff(1) Let_def
          del: check_shape.simps fits.simps split: option.split)
  qed
qed

lemma score_candidate_Inr:
  "score_candidate sha entry parameters matched c = Inr matched' \<longleftrightarrow>
     scorable sha entry parameters c
     \<and> matched' = matched @ map cd_declared_digest (filter (selects entry parameters) [c])"
  by (cases "me_predicate entry (cd_snapshot c) parameters"; cases "digest sha (cd_snapshot c)")
    (auto simp: score_candidate_def scorable_def authentic_candidate_def candidate_shape_iff selects_def split: if_splits)

lemma score_candidates_Inr:
  "try_fold (score_candidate sha entry parameters) matched cs = Inr matched' \<longleftrightarrow>
     list_all (scorable sha entry parameters) cs
     \<and> matched' = matched @ map cd_declared_digest (filter (selects entry parameters) cs)"
proof (induction cs arbitrary: matched)
  case (Cons c cs)
  show ?case by (auto simp: score_candidate_Inr Cons.IH)
qed auto

text \<open>What has to hold before any candidate is looked at.\<close>

definition bound_entry ::
  "(bytes \<Rightarrow> bytes) \<Rightarrow> (string \<Rightarrow> Value option) \<Rightarrow> MatcherEntry \<Rightarrow> RecordedMatcher \<Rightarrow> ImplementationCheck \<Rightarrow> bool" where
  "bound_entry sha from_str entry recorded check \<longleftrightarrow>
     (\<exists>d. verify_binding sha from_str entry = Inr d)
     \<and> (case rm_implementation recorded of
          RI_Unrecorded \<Rightarrow> check = IC_CannotCheck
        | RI_Bound d \<Rightarrow> d = me_implementation_digest entry \<and> check = IC_Bound d)
     \<and> (\<exists>object. rm_parameters recorded = VObject object
          \<and> sort (map fst object) = sort (me_parameter_keys entry))"

lemma verify_implementation_Inr:
  "verify_implementation sha entry = Inr d \<longleftrightarrow>
     d = digest_of_canonical_bytes sha (as_bytes (me_implementation_source entry))
     \<and> closure_digest_str d = me_implementation_digest entry"
  by (auto simp: verify_implementation_def Let_def)

lemma recorded_check_Inr:
  "check_recorded_implementation sha entry recorded = Inr check \<longleftrightarrow>
     (\<exists>d. verify_implementation sha entry = Inr d)
     \<and> (case recorded of
          RI_Unrecorded \<Rightarrow> check = IC_CannotCheck
        | RI_Bound d \<Rightarrow> d = me_implementation_digest entry \<and> check = IC_Bound d)"
  by (cases recorded) (auto simp: check_recorded_implementation_def verify_implementation_Inr split: if_splits)

lemma bound_entry_iff:
  "bound_entry sha from_str entry recorded check \<longleftrightarrow>
     (\<exists>d. verify_binding sha from_str entry = Inr d)
     \<and> check_recorded_implementation sha entry (rm_implementation recorded) = Inr check
     \<and> check_parameters entry (rm_parameters recorded) = Inr ()"
  unfolding bound_entry_def recorded_check_Inr
  by (cases "rm_parameters recorded") (auto simp: check_parameters_def verify_binding_def Let_def ok_or_def)

lemma recompute_matched_Inr:
  "recompute_matched sha from_str include_str recorded cs = Inr replay \<longleftrightarrow>
     (\<exists>entry. resolve_matcher include_str (rm_id recorded) (rm_version recorded) = Inr entry
        \<and> bound_entry sha from_str entry recorded (rp_implementation replay)
        \<and> map cd_declared_digest cs = rm_all_returned_snapshot_digests recorded
        \<and> list_all (scorable sha entry (rm_parameters recorded)) cs
        \<and> rp_matched replay = map cd_declared_digest (filter (selects entry (rm_parameters recorded)) cs))"
  unfolding recompute_matched_def bound_entry_iff Let_def
  by (cases replay) (auto simp: score_candidates_Inr split: if_splits)

end
