(* ===== verification/Closure_Properties.thy ===== *)
theory Closure_Properties
  imports Closure_Matching
begin

text \<open>
  The canonical form and the replay of a recorded selection, as properties of the two crates.
\<close>

section \<open>Canonical bytes\<close>

text \<open>
  C28. Canonical bytes determine the value: two different JSON values never have the same canonical text, so
  a digest of canonical bytes identifies one value up to collisions of the hash alone.
\<close>

theorem canonical_injective:
  assumes "wf_value v" "wf_value w" "v \<noteq> w" "canonicalize v = Inr bs"
  shows "canonicalize w \<noteq> Inr bs"
  using canonicalize_inj assms by blast

theorem canonical_injective_witness:
  "\<exists>bs. canonicalize (VObject [(''a'', VNumber (PosInt 1))]) = Inr bs
      \<and> canonicalize (VObject [(''a'', VString ''1'')]) \<noteq> Inr bs"
proof -
  let ?v = "VObject [(''a'', VNumber (PosInt 1))]" and ?w = "VObject [(''a'', VString ''1'')]"
  have "safe_value ?v" by (simp add: SAFE_INTEGER_LIMIT_def)
  then obtain t where "write_value ?v = Inr t" using write_value_ex by blast
  then have c: "canonicalize ?v = Inr (as_bytes t)" by (simp add: canonicalize_def)
  have "canonicalize ?w \<noteq> Inr (as_bytes t)" by (rule canonical_injective [OF _ _ _ c]) simp_all
  then show ?thesis using c by blast
qed

text \<open>
  The writer refuses exactly the values that hold a number that is not an integer of magnitude at most
  \<open>2^53 - 1\<close>; everything else has a canonical form.
\<close>

lemma canonicalize_refusals: "(\<exists>bs. canonicalize v = Inr bs) \<longleftrightarrow> safe_value v"
  using write_value_ex [of v] by (auto simp: canonicalize_def)

section \<open>Query snapshots\<close>

text \<open>
  C29. Type soundness of a query snapshot: once its digest and its shape are checked, reading its matcher block has no
  failing case. A snapshot is accepted exactly when its bytes have the expected digest and it declares a
  registered version whose shape it has.
\<close>

theorem query_snapshot_progress:
  assumes "wf_value v"
  shows "(\<exists>r. RecordedQuerySnapshot_from_canonical sha v expected = Inr r) \<longleftrightarrow>
     (\<exists>d. digest sha v = Inr d \<and> closure_digest_str d = expected) \<and> query_conforming v"
  using from_query_snapshot_total [OF assms]
  by (auto simp: RecordedQuerySnapshot_from_canonical_def query_shape_iff split: if_splits)

definition sample_query :: Value where
  "sample_query = VObject
     [(''allReturnedSnapshotDigests'', VArray []),
      (''binding'', VObject [(''pullRequest'', VString ''7''), (''repository'', VString ''o/r'')]),
      (''enumeration'', VString ''COMPLETE''),
      (''matchedSnapshotDigests'', VArray []),
      (''matcher'', VObject [(''id'', VString ''actions-check-by-name''), (''implementationDigest'', VString ''sha256:00''),
         (''parameters'', VObject []), (''version'', VString ''1'')]),
      (''pagination'', VObject [(''nextPagePresent'', VBool False), (''pagesObtained'', VArray []),
         (''pagesRequested'', VArray []), (''perPage'', VNumber (PosInt 100))]),
      (''requiredObservationId'', VString ''ci''), (''schemaVersion'', VNumber (PosInt 2)),
      (''sourceKind'', VString ''github-query-snapshot''), (''surface'', VString ''checks'')]"

lemma sample_query_wf: "wf_value sample_query"
  by (simp add: sample_query_def)

lemma sample_query_shape: "check_query_snapshot_shape sample_query = Inr ()"
proof -
  have "pointer sample_query ''/sourceKind'' = Some (VString QUERY_SNAPSHOT_SOURCE_KIND)"
    "pointer sample_query ''/schemaVersion'' = Some (VNumber (PosInt 2))"
    unfolding pointer_names by (simp_all add: sample_query_def QUERY_SNAPSHOT_SOURCE_KIND_def)
  moreover have "check_shape sample_query (query_snapshot MATCHER_V2) [] = Inr ()"
    by (simp add: sample_query_def query_snapshot_def BINDING_def PAGINATION_def ENUMERATION_STATES_def MATCHER_V2_def
        int_member_def req_def opt_def text_array_def text_of_def Let_def)
  ultimately show ?thesis
    by (simp add: check_query_snapshot_shape_def str_at_def QUERY_SNAPSHOT_SCHEMAS_def integer_of_def del: check_shape.simps)
qed

theorem query_snapshot_progress_witness:
  "\<exists>expected r. RecordedQuerySnapshot_from_canonical (\<lambda>bs. replicate 32 0) sample_query expected = Inr r"
proof -
  let ?sha = "\<lambda>bs :: bytes. replicate 32 0 :: bytes"
  have "safe_value sample_query" by (simp add: sample_query_def SAFE_INTEGER_LIMIT_def)
  then obtain d where "digest ?sha sample_query = Inr d"
    using write_value_ex [of sample_query] by (auto simp: digest_def canonicalize_def)
  then show ?thesis
    using query_snapshot_progress [OF sample_query_wf, of ?sha "closure_digest_str d"] sample_query_shape
    by (auto simp: query_shape_iff)
qed

section \<open>Replay\<close>

text \<open>
  C30. A replay succeeds exactly when the recorded matcher is registered and bound to its implementation and
  conformance digests, its parameters are the declared ones, the supplied candidates are the returned ones in
  order, and every candidate is authentic, has its registered shape and can be scored. The selection is then
  the candidates the predicate accepts, in order, and a verdict says whether the record claims the same.
\<close>

theorem verify_matched_exact:
  "verify_matched sha from_str include_str recorded cs = Inr verdict \<longleftrightarrow>
     (\<exists>entry. resolve_matcher include_str (rm_id recorded) (rm_version recorded) = Inr entry
        \<and> bound_entry sha from_str entry recorded (rp_implementation (mv_replay verdict))
        \<and> map cd_declared_digest cs = rm_all_returned_snapshot_digests recorded
        \<and> list_all (scorable sha entry (rm_parameters recorded)) cs
        \<and> rp_matched (mv_replay verdict) = map cd_declared_digest (filter (selects entry (rm_parameters recorded)) cs)
        \<and> mv_reproduced verdict = (rp_matched (mv_replay verdict) = rm_matched_snapshot_digests recorded))"
  unfolding verify_matched_def by (cases verdict) (auto simp: recompute_matched_Inr)

end
