(* ===== verification/Closure_Redaction.thy ===== *)
theory Closure_Redaction
  imports Closure_Shapes
begin

text \<open>
  The retention assessment as an artifact: \<^verbatim>\<open>crates/o7-closure-provenance/src/redaction.rs\<close>, its tables and
  \<^verbatim>\<open>check_assessment\<close>. The module's own \<^verbatim>\<open>Member\<close>, \<^verbatim>\<open>MemberKind\<close> and \<^verbatim>\<open>check_shape\<close> carry a prefix here, since the
  matcher crate has items of the same names. Messages are constructors.
\<close>

section \<open>Tables\<close>

datatype MemberKind =
    MK_Text | MK_Integer | MK_Bool | MK_TextArray | MK_Timestamp | MK_OneOf "string list"
  | MK_Object "RedMember list" | MK_ObjectArray "RedMember list"
and RedMember = RedMember (rm_name: string) (rm_kind: MemberKind)

definition DETECTOR :: "RedMember list" where
  "DETECTOR = [RedMember ''id'' MK_Text, RedMember ''version'' MK_Text, RedMember ''configDigest'' MK_Text]"

definition FINDING :: "RedMember list" where
  "FINDING = [RedMember ''field'' MK_Text, RedMember ''findingId'' MK_Text]"

definition ASSESSMENT_REQUIRED :: "RedMember list" where
  "ASSESSMENT_REQUIRED =
     [RedMember ''schemaVersion'' MK_Integer,
      RedMember ''sourceKind'' (MK_OneOf [''closure-retention-assessment'']),
      RedMember ''redactionPolicyVersion'' MK_Text,
      RedMember ''detector'' (MK_Object DETECTOR),
      RedMember ''representation'' (MK_OneOf [''decoded-source-field-values'']),
      RedMember ''assessedFields'' MK_TextArray,
      RedMember ''coverageComplete'' MK_Bool,
      RedMember ''outcome'' (MK_OneOf [''RETAIN'', ''BLOCK_SECRET'', ''CANNOT_ASSESS'']),
      RedMember ''observedAt'' MK_Timestamp]"

definition ASSESSMENT_CONDITIONAL :: "RedMember list" where
  "ASSESSMENT_CONDITIONAL =
     [RedMember ''findings'' (MK_ObjectArray FINDING),
      RedMember ''coverageFailureCode''
        (MK_OneOf [''DETECTOR_UNAVAILABLE'', ''DETECTOR_FAILED'', ''INCOMPLETE_COVERAGE'', ''INVALID_RESULT''])]"

record PresentOnly =
  po_decoded :: string
  po_canonical :: string

record RequiredFields =
  rf_locator_kind :: string
  rf_always :: "string list"
  rf_present_only :: "PresentOnly list"

definition present :: "string \<Rightarrow> string \<Rightarrow> PresentOnly" where
  "present decoded canonical = \<lparr>po_decoded = decoded, po_canonical = canonical\<rparr>"

definition REQUIRED_FIELDS :: "RequiredFields list" where
  "REQUIRED_FIELDS =
     [\<lparr>rf_locator_kind = ''github-issue-comment'',
       rf_always = [''/id'', ''/user/id'', ''/user/login'', ''/user/type'', ''/author_association'', ''/body'',
                    ''/created_at'', ''/updated_at''],
       rf_present_only = []\<rparr>,
      \<lparr>rf_locator_kind = ''github-submitted-review'',
       rf_always = [''/id'', ''/user/id'', ''/user/login'', ''/user/type'', ''/author_association'', ''/state'',
                    ''/body'', ''/submitted_at'', ''/commit_id''],
       rf_present_only = []\<rparr>,
      \<lparr>rf_locator_kind = ''github-review-comment'',
       rf_always = [''/id'', ''/pull_request_review_id'', ''/user/id'', ''/user/login'', ''/user/type'',
                    ''/author_association'', ''/body'', ''/commit_id'', ''/original_commit_id'', ''/path'',
                    ''/created_at'', ''/updated_at''],
       rf_present_only = [present ''/in_reply_to_id'' ''inReplyToId'', present ''/line'' ''line'',
                          present ''/original_line'' ''originalLine'', present ''/side'' ''side'',
                          present ''/start_line'' ''startLine'']\<rparr>,
      \<lparr>rf_locator_kind = ''github-pull-request-head'',
       rf_always = [''/number'', ''/head/sha'', ''/head/ref'', ''/head/repo/full_name''],
       rf_present_only = [present ''/updated_at'' ''updatedAt'']\<rparr>,
      \<lparr>rf_locator_kind = ''github-actions-check'',
       rf_always = [''/id'', ''/name'', ''/head_sha'', ''/status''],
       rf_present_only = [present ''/conclusion'' ''conclusion'', present ''/started_at'' ''startedAt'',
                          present ''/completed_at'' ''completedAt'']\<rparr>]"

definition required_fields :: "string \<Rightarrow> RequiredFields option" where
  "required_fields locator_kind = find (\<lambda>r. rf_locator_kind r = locator_kind) REQUIRED_FIELDS"

section \<open>Closed shapes\<close>

function (sequential) red_check_shape :: "Value \<Rightarrow> RedMember list \<Rightarrow> string \<Rightarrow> (ShapeError, unit) result"
  and red_members :: "(string \<times> Value) list \<Rightarrow> RedMember list \<Rightarrow> string \<Rightarrow> (ShapeError, unit) result"
  and red_items :: "Value list \<Rightarrow> RedMember list \<Rightarrow> string \<Rightarrow> nat \<Rightarrow> (ShapeError, unit) result"
  and check_member :: "Value \<Rightarrow> MemberKind \<Rightarrow> string \<Rightarrow> (ShapeError, unit) result"
  and member_of_kind :: "MemberKind \<Rightarrow> Value \<Rightarrow> string \<Rightarrow> (ShapeError, unit) result" where
  "red_check_shape v members path =
     and_then (ok_or (as_object v) (NotAnObject path)) (\<lambda>object.
     and_then (red_members object members path) (\<lambda>_.
     try_for_each (\<lambda>key. if list_ex (\<lambda>m. rm_name m = key) members then Inr () else Inl (OutsideKeySet path key))
       (map fst object)))"
| "red_members object [] path = Inr ()"
| "red_members object (RedMember name kind # members) path =
     (let at = path @ CHR ''/'' # name in
      and_then (ok_or (map_of object name) (RequiredAbsent at)) (\<lambda>found.
      and_then (check_member found kind at) (\<lambda>_. red_members object members path)))"
| "red_items [] nested at i = Inr ()"
| "red_items (item # items) nested at i =
     and_then (red_check_shape item nested (at @ CHR ''['' # decimal i @ '']'')) (\<lambda>_. red_items items nested at (Suc i))"
| "check_member found kind at = (if found = VNull then Inl (IsNull at) else member_of_kind kind found at)"
| "member_of_kind MK_Text found at = (if as_str found = None then Inl (NotAString at) else Inr ())"
| "member_of_kind MK_Timestamp found at =
     and_then (text_of found at) (\<lambda>text. map_err (NotAnInstant at) (utc_instant text))"
| "member_of_kind MK_Integer found at =
     (if as_i64 found = None \<and> as_u64 found = None then Inl (NotAnInteger at) else Inr ())"
| "member_of_kind MK_Bool found at = (if \<not> is_boolean found then Inl (NotABoolean at) else Inr ())"
| "member_of_kind MK_TextArray found at =
     and_then (ok_or (as_array found) (NotAnArray at)) (\<lambda>items.
       case position (\<lambda>i. as_str i = None) items of
         Some p \<Rightarrow> Inl (ElementNotAString at p)
       | None \<Rightarrow> Inr ())"
| "member_of_kind (MK_OneOf admissible) found at =
     and_then (text_of found at) (\<lambda>text.
       if text \<in> set admissible then Inr () else Inl (NotAdmissible at text admissible))"
| "member_of_kind (MK_Object nested) found at = red_check_shape found nested at"
| "member_of_kind (MK_ObjectArray nested) found at =
     and_then (ok_or (as_array found) (NotAnArray at)) (\<lambda>items. red_items items nested at 0)"
  by pat_completeness auto
termination
  by (relation "inv_image (less_than <*lex*> less_than)
      (case_sum (case_sum (\<lambda>(v, ms, p). (3 * size_list size ms + 1, 0)) (\<lambda>(o', ms, p). (3 * size_list size ms, 0)))
        (case_sum (\<lambda>(vs, ms, at, i). (3 * size_list size ms + 2, length vs))
          (case_sum (\<lambda>(v, k, at). (3 * size k + 1, 0)) (\<lambda>(k, v, at). (3 * size k, 0)))))") auto

section \<open>The assessment\<close>

datatype AssessmentFault =
    AF_NotAnObject
  | AF_Shape ShapeError
  | AF_FindingsEmpty
  | AF_FailureCode bool bool
  | AF_RetainIncomplete
  | AF_Outcome string string
  | AF_NotAString string
  | AF_NotAnArray string
  | AF_Unordered string string string
  | AF_FindingsUnordered "string \<times> string" "string \<times> string"

definition member_str :: "Value \<Rightarrow> string \<Rightarrow> (AssessmentFault, string) result" where
  "member_str object name = ok_or (str_at object (CHR ''/'' # name)) (AF_NotAString name)"

fun push_ordered :: "string \<Rightarrow> string list \<Rightarrow> Value \<Rightarrow> (AssessmentFault, string list) result" where
  "push_ordered name out item =
     and_then (ok_or (as_str item) (AF_NotAString name)) (\<lambda>text.
     if out \<noteq> [] \<and> text \<le> last out then Inl (AF_Unordered name (last out) text)
     else Inr (out @ [text]))"

definition ordered_unique :: "Value \<Rightarrow> string \<Rightarrow> (AssessmentFault, string list) result" where
  "ordered_unique object name =
     and_then (ok_or (Option.bind (pointer object (CHR ''/'' # name)) as_array) (AF_NotAnArray name)) (\<lambda>items.
     try_fold (push_ordered name) [] items)"

definition finding_pair :: "Value \<Rightarrow> (AssessmentFault, string \<times> string) result" where
  "finding_pair finding =
     and_then (ok_or (str_at finding ''/field'') (AF_NotAString ''field'')) (\<lambda>field.
     and_then (ok_or (str_at finding ''/findingId'') (AF_NotAString ''findingId'')) (\<lambda>fid. Inr (field, fid)))"

definition pair_le :: "string \<times> string \<Rightarrow> string \<times> string \<Rightarrow> bool" where
  "pair_le p q \<longleftrightarrow> fst p < fst q \<or> fst p = fst q \<and> snd p \<le> snd q"

definition step_finding ::
  "(string \<times> string) option \<Rightarrow> Value \<Rightarrow> (AssessmentFault, (string \<times> string) option) result" where
  "step_finding previous finding =
     and_then (finding_pair finding) (\<lambda>pair.
     case previous of
       Some prev \<Rightarrow> if pair_le pair prev then Inl (AF_FindingsUnordered prev pair) else Inr (Some pair)
     | None \<Rightarrow> Inr (Some pair))"

definition required_member_ok :: "(string \<times> Value) list \<Rightarrow> RedMember \<Rightarrow> (AssessmentFault, unit) result" where
  "required_member_ok object m =
     (let at = CHR ''/'' # rm_name m in
      and_then (ok_or (map_of object (rm_name m)) (AF_Shape (RequiredAbsent at))) (\<lambda>found.
      map_err AF_Shape (check_member found (rm_kind m) at)))"

definition conditional_member_ok :: "(string \<times> Value) list \<Rightarrow> RedMember \<Rightarrow> (AssessmentFault, unit) result" where
  "conditional_member_ok object m =
     (case map_of object (rm_name m) of
        Some found \<Rightarrow> map_err AF_Shape (check_member found (rm_kind m) (CHR ''/'' # rm_name m))
      | None \<Rightarrow> Inr ())"

definition computed_outcome :: "bool \<Rightarrow> bool \<Rightarrow> string" where
  "computed_outcome findings_present coverage_complete =
     (if findings_present then ''BLOCK_SECRET'' else if coverage_complete then ''RETAIN'' else ''CANNOT_ASSESS'')"

definition check_assessment :: "Value \<Rightarrow> (AssessmentFault, unit) result" where
  "check_assessment assessment =
     and_then (ok_or (as_object assessment) AF_NotAnObject) (\<lambda>object.
     and_then (try_for_each (required_member_ok object) ASSESSMENT_REQUIRED) (\<lambda>_.
     and_then (try_for_each (conditional_member_ok object) ASSESSMENT_CONDITIONAL) (\<lambda>_.
     and_then (try_for_each (\<lambda>key.
         if list_ex (\<lambda>m. rm_name m = key) (ASSESSMENT_REQUIRED @ ASSESSMENT_CONDITIONAL) then Inr ()
         else Inl (AF_Shape (OutsideKeySet [] key))) (map fst object)) (\<lambda>_.
     and_then (member_str assessment ''outcome'') (\<lambda>outcome.
     let findings = map_of object ''findings'';
         coverage_complete = (map_of object ''coverageComplete'' = Some (VBool True));
         code_present = (map_of object ''coverageFailureCode'' \<noteq> None);
         computed = computed_outcome (findings \<noteq> None) coverage_complete in
     if Option.bind findings as_array = Some [] then Inl AF_FindingsEmpty
     else if code_present = coverage_complete then Inl (AF_FailureCode coverage_complete code_present)
     else if outcome = ''RETAIN'' \<and> \<not> coverage_complete then Inl AF_RetainIncomplete
     else if outcome \<noteq> computed then Inl (AF_Outcome outcome computed)
     else
       and_then (ordered_unique assessment ''assessedFields'') (\<lambda>_.
       case Option.bind findings as_array of
         Some items \<Rightarrow> and_then (try_fold step_finding None items) (\<lambda>_. Inr ())
       | None \<Rightarrow> Inr ()))))))"

section \<open>Ordered members\<close>

text \<open>The array readers accept exactly the strictly ascending arrays of strings.\<close>

lemma push_ordered_fold:
  assumes "sorted_wrt (<) out"
  shows "try_fold (push_ordered name) out items = Inr bs \<longleftrightarrow>
    (\<exists>ss. items = map VString ss \<and> bs = out @ ss \<and> sorted_wrt (<) (out @ ss))"
  using assms
proof (induction items arbitrary: out)
  case (Cons item items)
  show ?case
  proof (cases "as_str item")
    case None
    then show ?thesis by (cases item) (auto simp: ok_or_def)
  next
    case (Some t)
    then have item: "item = VString t" by simp
    have snoc: "sorted_wrt (<) (out @ [t]) \<longleftrightarrow> out = [] \<or> last out < t"
    proof (cases out rule: rev_cases)
      case (snoc ys y)
      then show ?thesis using Cons.prems by (fastforce simp: sorted_wrt_append)
    qed simp
    show ?thesis
    proof (cases "out \<noteq> [] \<and> t \<le> last out")
      case True
      then have "\<not> sorted_wrt (<) (out @ [t])" using snoc by auto
      then have "\<not> sorted_wrt (<) (out @ t # ss)" for ss by (auto simp: sorted_wrt_append)
      then show ?thesis using True item by (auto simp: map_eq_Cons_conv)
    next
      case False
      then have "sorted_wrt (<) (out @ [t])" using snoc by auto
      from Cons.IH [OF this] False item show ?thesis by (auto simp: Cons_eq_map_conv map_eq_Cons_conv)
    qed
  qed
qed auto

lemma ordered_items:
  "try_fold (push_ordered name) [] items = Inr bs \<longleftrightarrow> items = map VString bs \<and> sorted_wrt (<) bs"
  using push_ordered_fold [of "[]"] by auto

end
