(* ===== verification/Closure_Artifact.thy ===== *)
theory Closure_Artifact
  imports Closure_Redaction Closure_Matching
begin

text \<open>
  The door every retained object passes: \<^verbatim>\<open>crates/o7-closure-provenance/src/artifact.rs\<close>. A \<open>ValidatedArtifact\<close> has no
  public constructor in the source; \<open>validate\<close> is the only function that makes one. The module's \<^verbatim>\<open>req\<close> takes a
  kind, unlike the matcher's, and is \<open>req_kind\<close> here.
\<close>

section \<open>Shapes\<close>

definition req_kind :: "string \<Rightarrow> ValueKind \<Rightarrow> Member" where
  "req_kind name kind = Member name True kind"

record LocatorShape =
  ls_locator_kind :: string
  ls_members :: "Member list"

definition REPO_PR_ID :: "Member list" where
  "REPO_PR_ID = [req_kind ''repository'' VK_Text, req_kind ''pullRequest'' VK_Text, req_kind ''stableId'' VK_Text]"

definition REPO_ID :: "Member list" where
  "REPO_ID = [req_kind ''repository'' VK_Text, req_kind ''stableId'' VK_Text]"

definition REPO_PR :: "Member list" where
  "REPO_PR = [req_kind ''repository'' VK_Text, req_kind ''pullRequest'' VK_Text]"

definition LOCATOR_SHAPES :: "LocatorShape list" where
  "LOCATOR_SHAPES =
     [\<lparr>ls_locator_kind = ''github-issue-comment'', ls_members = REPO_PR_ID\<rparr>,
      \<lparr>ls_locator_kind = ''github-submitted-review'', ls_members = REPO_PR_ID\<rparr>,
      \<lparr>ls_locator_kind = ''github-review-comment'', ls_members = REPO_PR_ID\<rparr>,
      \<lparr>ls_locator_kind = ''github-actions-check'', ls_members = REPO_ID\<rparr>,
      \<lparr>ls_locator_kind = ''github-pull-request-head'', ls_members = REPO_PR\<rparr>]"

definition locator_shape :: "string \<Rightarrow> LocatorShape option" where
  "locator_shape locator_kind = find (\<lambda>l. ls_locator_kind l = locator_kind) LOCATOR_SHAPES"

definition REDUCED_RECORD :: "Member list" where
  "REDUCED_RECORD =
     [req_kind ''schemaVersion'' VK_Integer,
      req_kind ''sourceKind'' (VK_OneOf [''github-reduced-source-record'']),
      req_kind ''locatorKind'' VK_Text,
      req_kind ''locator'' VK_OpenObject,
      req_kind ''redactionPolicyVersion'' VK_Text,
      req_kind ''outcome'' (VK_OneOf [''BLOCK_SECRET'', ''CANNOT_ASSESS'']),
      req_kind ''coverageComplete'' VK_Bool,
      req_kind ''retainedFields'' VK_OpenObject,
      req_kind ''blockedFields'' VK_TextArray]"

definition RETENTION_BINDING :: "Member list" where
  "RETENTION_BINDING =
     [req_kind ''schemaVersion'' VK_Integer,
      req_kind ''sourceKind'' (VK_OneOf [''closure-retention-binding'']),
      req_kind ''recordDigest'' VK_Text,
      req_kind ''assessmentDigest'' VK_Text]"

definition HEAD_READ_EVENT_AVAILABLE :: "Member list" where
  "HEAD_READ_EVENT_AVAILABLE =
     [req_kind ''schemaVersion'' VK_Integer,
      req_kind ''sourceKind'' (VK_OneOf [''github-head-read-event'']),
      req_kind ''role'' (VK_OneOf [''HEAD_BEFORE'', ''HEAD_AFTER'']),
      req_kind ''acquisition'' (VK_OneOf [''AVAILABLE'']),
      req_kind ''snapshotDigest'' VK_Text,
      req_kind ''observedAt'' VK_Timestamp]"

definition HEAD_READ_EVENT_FAILED :: "Member list" where
  "HEAD_READ_EVENT_FAILED =
     [req_kind ''schemaVersion'' VK_Integer,
      req_kind ''sourceKind'' (VK_OneOf [''github-head-read-event'']),
      req_kind ''role'' (VK_OneOf [''HEAD_BEFORE'', ''HEAD_AFTER'']),
      req_kind ''acquisition'' (VK_OneOf [''FAILED'']),
      req_kind ''reasonCode'' (VK_OneOf [''NOT_FOUND'', ''RATE_LIMITED'', ''REQUEST_FAILED'', ''UNAUTHORIZED'']),
      req_kind ''observedAt'' VK_Timestamp]"

section \<open>Kinds\<close>

datatype Gate = Gated | Ungated

datatype EvidenceKind =
    AK_CompleteProjection string
  | AK_ReducedSourceRecord string
  | AK_QuerySnapshot
  | AK_HeadReadEvent
  | AK_RetentionAssessment
  | AK_RetentionBinding

fun gate :: "EvidenceKind \<Rightarrow> Gate" where
  "gate (AK_CompleteProjection _) = Gated"
| "gate (AK_ReducedSourceRecord _) = Gated"
| "gate AK_QuerySnapshot = Ungated"
| "gate AK_HeadReadEvent = Ungated"
| "gate AK_RetentionAssessment = Ungated"
| "gate AK_RetentionBinding = Ungated"

fun evidence_kind_name :: "EvidenceKind \<Rightarrow> string" where
  "evidence_kind_name (AK_CompleteProjection kind) = kind"
| "evidence_kind_name (AK_ReducedSourceRecord _) = ''github-reduced-source-record''"
| "evidence_kind_name AK_QuerySnapshot = ''github-query-snapshot''"
| "evidence_kind_name AK_HeadReadEvent = ''github-head-read-event''"
| "evidence_kind_name AK_RetentionAssessment = ''closure-retention-assessment''"
| "evidence_kind_name AK_RetentionBinding = ''closure-retention-binding''"

fun surface :: "EvidenceKind \<Rightarrow> string" where
  "surface (AK_ReducedSourceRecord locator_kind) = locator_kind"
| "surface kind = evidence_kind_name kind"

section \<open>Validated artifacts\<close>

record ValidatedArtifact =
  va_digest :: string
  va_kind :: EvidenceKind
  va_value :: Value

definition va_pointer :: "ValidatedArtifact \<Rightarrow> string \<Rightarrow> Value option" where
  "va_pointer a p = pointer (va_value a) p"

definition va_str_at :: "ValidatedArtifact \<Rightarrow> string \<Rightarrow> string option" where
  "va_str_at a p = Option.bind (pointer (va_value a) p) as_str"

definition recorded_query ::
  "(bytes \<Rightarrow> bytes) \<Rightarrow> ValidatedArtifact \<Rightarrow> (MatchError, RecordedQuerySnapshot) result option" where
  "recorded_query sha a =
     (if va_kind a \<noteq> AK_QuerySnapshot then None
      else Some (RecordedQuerySnapshot_from_canonical sha (va_value a) (va_digest a)))"

definition matcher_candidate :: "ValidatedArtifact \<Rightarrow> Candidate option" where
  "matcher_candidate a =
     (case va_kind a of
        AK_CompleteProjection _ \<Rightarrow> Some \<lparr>cd_declared_digest = va_digest a, cd_snapshot = va_value a\<rparr>
      | _ \<Rightarrow> None)"

datatype FormFault =
    FF_NoSourceKind
  | FF_NoAcquisition
  | FF_Acquisition string
  | FF_NoSchemaVersion
  | FF_Unregistered int string "int list"
  | FF_NoShape int
  | FF_NoLocatorKind
  | FF_LocatorKind string
  | FF_NoLocator
  | FF_UnknownKind string
  | FF_Shape ShapeError
  | FF_Assessment AssessmentFault

datatype ComputedDigest = Computed string | NotCanonicalizable CanonicalError

datatype ValidationError = DigestMismatch ComputedDigest | Malformed FormFault

definition check_registered_version :: "Value \<Rightarrow> int list \<Rightarrow> string \<Rightarrow> (FormFault, int) result" where
  "check_registered_version v registered declared =
     and_then (ok_or (Option.bind (pointer v ''/schemaVersion'') integer_of) FF_NoSchemaVersion) (\<lambda>found.
     if found \<in> set registered then Inr found else Inl (FF_Unregistered found declared registered))"

definition check_reduced_locator :: "Value \<Rightarrow> (FormFault, string) result" where
  "check_reduced_locator record =
     and_then (ok_or (str_at record ''/locatorKind'') FF_NoLocatorKind) (\<lambda>locator_kind.
     and_then (ok_or (locator_shape locator_kind) (FF_LocatorKind locator_kind)) (\<lambda>shape.
     and_then (ok_or (pointer record ''/locator'') FF_NoLocator) (\<lambda>locator.
     and_then (map_err FF_Shape (check_shape locator (ls_members shape) ''/locator'')) (\<lambda>_.
     Inr (ls_locator_kind shape)))))"

definition check_closed_form :: "string \<Rightarrow> Value \<Rightarrow> (FormFault, EvidenceKind) result" where
  "check_closed_form declared v =
     (case find (\<lambda>s. cs_source_kind s = declared) SOURCE_SCHEMAS of
        Some schema \<Rightarrow>
          and_then (check_registered_version v [cs_schema_version schema] declared) (\<lambda>_.
          and_then (map_err FF_Shape (check_shape v (cs_members schema) [])) (\<lambda>_.
          Inr (AK_CompleteProjection (cs_source_kind schema))))
      | None \<Rightarrow>
          if declared = ''github-query-snapshot'' then
            and_then (check_registered_version v (map qs_schema_version QUERY_SNAPSHOT_SCHEMAS) declared) (\<lambda>version.
            and_then (ok_or (find (\<lambda>s. qs_schema_version s = version) QUERY_SNAPSHOT_SCHEMAS) (FF_NoShape version)) (\<lambda>schema.
            and_then (map_err FF_Shape (check_shape v (qs_members schema) [])) (\<lambda>_.
            Inr AK_QuerySnapshot)))
          else if declared = ''github-reduced-source-record'' then
            and_then (check_registered_version v [1] declared) (\<lambda>_.
            and_then (map_err FF_Shape (check_shape v REDUCED_RECORD [])) (\<lambda>_.
            and_then (check_reduced_locator v) (\<lambda>locator_kind.
            Inr (AK_ReducedSourceRecord locator_kind))))
          else if declared = ''github-head-read-event'' then
            and_then (ok_or (str_at v ''/acquisition'') FF_NoAcquisition) (\<lambda>acquisition.
            and_then (if acquisition = ''AVAILABLE'' then Inr HEAD_READ_EVENT_AVAILABLE
                      else if acquisition = ''FAILED'' then Inr HEAD_READ_EVENT_FAILED
                      else Inl (FF_Acquisition acquisition)) (\<lambda>members.
            and_then (check_registered_version v [1] declared) (\<lambda>_.
            and_then (map_err FF_Shape (check_shape v members [])) (\<lambda>_.
            Inr AK_HeadReadEvent))))
          else if declared = ''closure-retention-assessment'' then
            and_then (check_registered_version v [1] declared) (\<lambda>_.
            and_then (map_err FF_Assessment (check_assessment v)) (\<lambda>_.
            Inr AK_RetentionAssessment))
          else if declared = ''closure-retention-binding'' then
            and_then (check_registered_version v [1] declared) (\<lambda>_.
            and_then (map_err FF_Shape (check_shape v RETENTION_BINDING [])) (\<lambda>_.
            Inr AK_RetentionBinding))
          else Inl (FF_UnknownKind declared))"

definition validate ::
  "(bytes \<Rightarrow> bytes) \<Rightarrow> string \<Rightarrow> Value \<Rightarrow> (ValidationError, ValidatedArtifact) result" where
  "validate sha requested v =
     (case digest sha v of
        Inl e \<Rightarrow> Inl (DigestMismatch (NotCanonicalizable e))
      | Inr computed \<Rightarrow>
          if closure_digest_str computed \<noteq> requested then Inl (DigestMismatch (Computed (closure_digest_str computed)))
          else
            and_then (ok_or (str_at v ''/sourceKind'') (Malformed FF_NoSourceKind)) (\<lambda>declared.
            and_then (map_err Malformed (check_closed_form declared v)) (\<lambda>kind.
            Inr \<lparr>va_digest = requested, va_kind = kind, va_value = v\<rparr>)))"

end
