(* ===== verification/Closure_Authorise.thy ===== *)
theory Closure_Authorise
  imports Closure_Artifact
begin

text \<open>
  Does an assessment permit keeping this record: \<^verbatim>\<open>denominator_of\<close> and \<^verbatim>\<open>check_authorises\<close> of
  \<^verbatim>\<open>crates/o7-closure-provenance/src/redaction.rs\<close>. The function is one sequence of checks in the source; each group has a
  definition here and \<open>check_authorises\<close> runs them in the order of the source.
\<close>

record ExpectedDetector =
  ed_id :: string
  ed_version :: string
  ed_config_digest :: string

datatype AuthoriseFault =
    AU_Reader AssessmentFault
  | AU_NoSourceKind
  | AU_NoLocatorKind
  | AU_LocatorKind string
  | AU_NoDetector string
  | AU_Detector string string string
  | AU_Policy string string
  | AU_AssessedOutside string
  | AU_FindingUnassessed string
  | AU_AlwaysUnassessed string
  | AU_PresentUnassessed string
  | AU_RefusedProjection string
  | AU_RecordPolicy string string
  | AU_RecordOutcome string string
  | AU_ReducedRetain
  | AU_Coverage
  | AU_NothingBlocked
  | AU_NoRetained
  | AU_PartitionOutside string
  | AU_Both string
  | AU_Neither string
  | AU_FlaggedKept string
  | AU_RetainedUnassessed string
  | AU_Thinned string

definition refuse_if :: "'a option \<Rightarrow> ('a \<Rightarrow> 'e) \<Rightarrow> ('e, unit) result" where
  "refuse_if found why = (case found of Some x \<Rightarrow> Inl (why x) | None \<Rightarrow> Inr ())"

definition member_str_at :: "ValidatedArtifact \<Rightarrow> string \<Rightarrow> (AuthoriseFault, string) result" where
  "member_str_at a name = ok_or (va_str_at a (CHR ''/'' # name)) (AU_Reader (AF_NotAString name))"

definition ordered_unique_at :: "ValidatedArtifact \<Rightarrow> string \<Rightarrow> (AuthoriseFault, string list) result" where
  "ordered_unique_at a name =
     and_then (ok_or (Option.bind (va_pointer a (CHR ''/'' # name)) as_array) (AU_Reader (AF_NotAnArray name))) (\<lambda>items.
     map_err AU_Reader (try_fold (push_ordered name) [] items))"

definition denominator_of :: "ValidatedArtifact \<Rightarrow> (AuthoriseFault, bool \<times> RequiredFields option) result" where
  "denominator_of record =
     and_then (ok_or (va_str_at record ''/sourceKind'') AU_NoSourceKind) (\<lambda>kind.
     if kind \<noteq> ''github-reduced-source-record'' then Inr (False, required_fields kind)
     else
       and_then (ok_or (va_str_at record ''/locatorKind'') AU_NoLocatorKind) (\<lambda>locator_kind.
       and_then (ok_or (required_fields locator_kind) (AU_LocatorKind locator_kind)) (\<lambda>required.
       Inr (True, Some required))))"

section \<open>The groups of checks\<close>

definition check_detector :: "ValidatedArtifact \<Rightarrow> ExpectedDetector \<Rightarrow> (AuthoriseFault, unit) result" where
  "check_detector assessment expected =
     try_for_each (\<lambda>(member, expectation).
         and_then (ok_or (va_str_at assessment (''/detector/'' @ member)) (AU_NoDetector member)) (\<lambda>declared.
         if declared \<noteq> expectation then Inl (AU_Detector member declared expectation) else Inr ()))
       [(''id'', ed_id expected), (''version'', ed_version expected), (''configDigest'', ed_config_digest expected)]"

definition always_of :: "RequiredFields option \<Rightarrow> string list" where
  "always_of required = (case required of Some r \<Rightarrow> rf_always r | None \<Rightarrow> [])"

definition present_only_of :: "RequiredFields option \<Rightarrow> PresentOnly list" where
  "present_only_of required = (case required of Some r \<Rightarrow> rf_present_only r | None \<Rightarrow> [])"

definition in_required :: "RequiredFields option \<Rightarrow> string \<Rightarrow> bool" where
  "in_required required p \<longleftrightarrow>
     p \<in> set (always_of required) \<or> list_ex (\<lambda>f. po_decoded f = p) (present_only_of required)"

definition named_in :: "ValidatedArtifact \<Rightarrow> string \<Rightarrow> string \<Rightarrow> bool" where
  "named_in record decoded member =
     (case va_pointer record (CHR ''/'' # member) of
        Some (VArray items) \<Rightarrow> list_ex (\<lambda>i. as_str i = Some decoded) items
      | Some (VObject kept) \<Rightarrow> map_of kept decoded \<noteq> None
      | _ \<Rightarrow> False)"

definition declares_present :: "ValidatedArtifact \<Rightarrow> bool \<Rightarrow> PresentOnly \<Rightarrow> bool" where
  "declares_present record is_reduced f =
     (if is_reduced then named_in record (po_decoded f) ''retainedFields'' \<or> named_in record (po_decoded f) ''blockedFields''
      else (case va_pointer record (CHR ''/'' # po_canonical f) of Some v \<Rightarrow> v \<noteq> VNull | None \<Rightarrow> False))"

definition present_now :: "ValidatedArtifact \<Rightarrow> bool \<Rightarrow> RequiredFields option \<Rightarrow> string list" where
  "present_now record is_reduced required =
     map po_decoded (filter (declares_present record is_reduced) (present_only_of required))"

definition flagged_fields :: "ValidatedArtifact \<Rightarrow> string list" where
  "flagged_fields assessment =
     (case Option.bind (va_pointer assessment ''/findings'') as_array of
        Some items \<Rightarrow> List.map_filter (\<lambda>x. str_at x ''/field'') items
      | None \<Rightarrow> [])"

definition check_coverage ::
  "ValidatedArtifact \<Rightarrow> string list \<Rightarrow> string list \<Rightarrow> string list \<Rightarrow> (AuthoriseFault, unit) result" where
  "check_coverage assessment always present' assessed =
     (if va_pointer assessment ''/coverageComplete'' = Some (VBool True) then
        and_then (refuse_if (find (\<lambda>p. p \<notin> set assessed) always) AU_AlwaysUnassessed) (\<lambda>_.
        refuse_if (find (\<lambda>p. p \<notin> set assessed) present') AU_PresentUnassessed)
      else Inr ())"

definition check_partition ::
  "RequiredFields option \<Rightarrow> string list \<Rightarrow> string list \<Rightarrow> string list \<Rightarrow> string list \<Rightarrow> (AuthoriseFault, unit) result" where
  "check_partition required assessed flagged retained blocked =
     and_then (refuse_if (find (\<lambda>p. \<not> in_required required p) (retained @ blocked)) AU_PartitionOutside) (\<lambda>_.
     and_then (refuse_if (find (\<lambda>p. p \<in> set blocked) retained) AU_Both) (\<lambda>_.
     and_then (refuse_if (find (\<lambda>p. p \<notin> set blocked \<and> p \<notin> set retained) (always_of required)) AU_Neither) (\<lambda>_.
     and_then (refuse_if (find (\<lambda>f. f \<notin> set blocked) flagged) AU_FlaggedKept) (\<lambda>_.
     and_then (refuse_if (find (\<lambda>p. p \<notin> set assessed) retained) AU_RetainedUnassessed) (\<lambda>_.
     refuse_if (find (\<lambda>b. b \<in> set assessed \<and> b \<notin> set flagged) blocked) AU_Thinned)))))"

definition check_reduced ::
  "ValidatedArtifact \<Rightarrow> ValidatedArtifact \<Rightarrow> string \<Rightarrow> string \<Rightarrow> RequiredFields option \<Rightarrow> string list \<Rightarrow> string list
     \<Rightarrow> (AuthoriseFault, unit) result" where
  "check_reduced record assessment assessment_policy outcome required assessed flagged =
     and_then (member_str_at record ''redactionPolicyVersion'') (\<lambda>record_policy.
     if record_policy \<noteq> assessment_policy then Inl (AU_RecordPolicy record_policy assessment_policy)
     else and_then (member_str_at record ''outcome'') (\<lambda>record_outcome.
     if record_outcome \<noteq> outcome then Inl (AU_RecordOutcome record_outcome outcome)
     else if outcome = ''RETAIN'' then Inl AU_ReducedRetain
     else if va_pointer record ''/coverageComplete'' \<noteq> va_pointer assessment ''/coverageComplete'' then Inl AU_Coverage
     else and_then (ordered_unique_at record ''blockedFields'') (\<lambda>blocked.
     if blocked = [] then Inl AU_NothingBlocked
     else and_then (ok_or (Option.bind (va_pointer record ''/retainedFields'') as_object) AU_NoRetained) (\<lambda>kept.
     check_partition required assessed flagged (map fst kept) blocked))))"

definition check_authorises ::
  "ValidatedArtifact \<Rightarrow> ValidatedArtifact \<Rightarrow> string \<Rightarrow> ExpectedDetector \<Rightarrow> (AuthoriseFault, unit) result" where
  "check_authorises record assessment expected_policy expected_detector =
     and_then (check_detector assessment expected_detector) (\<lambda>_.
     and_then (member_str_at assessment ''redactionPolicyVersion'') (\<lambda>assessment_policy.
     if assessment_policy \<noteq> expected_policy then Inl (AU_Policy assessment_policy expected_policy)
     else and_then (denominator_of record) (\<lambda>(is_reduced, required).
     and_then (ordered_unique_at assessment ''assessedFields'') (\<lambda>assessed.
     and_then (refuse_if (find (\<lambda>p. \<not> in_required required p) assessed) AU_AssessedOutside) (\<lambda>_.
     and_then (member_str_at assessment ''outcome'') (\<lambda>outcome.
     let flagged = flagged_fields assessment in
     and_then (refuse_if (find (\<lambda>f. f \<notin> set assessed) flagged) AU_FindingUnassessed) (\<lambda>_.
     and_then (check_coverage assessment (always_of required) (present_now record is_reduced required) assessed) (\<lambda>_.
     if \<not> is_reduced then if outcome \<noteq> ''RETAIN'' then Inl (AU_RefusedProjection outcome) else Inr ()
     else check_reduced record assessment assessment_policy outcome required assessed flagged))))))))"

section \<open>What a permission establishes\<close>

lemma refuse_if_find [simp]: "refuse_if (find P xs) why = Inr () \<longleftrightarrow> (\<forall>x \<in> set xs. \<not> P x)"
proof (cases "find P xs")
  case None
  then show ?thesis using find_None_iff [of P xs] by (auto simp: refuse_if_def)
next
  case (Some x)
  then have "x \<in> set xs" "P x" by (auto simp: find_Some_iff)
  then show ?thesis using Some by (auto simp: refuse_if_def)
qed

text \<open>The partition a reduced record has to be: both halves are computed from the assessment.\<close>

definition required_set :: "ValidatedArtifact \<Rightarrow> bool \<Rightarrow> RequiredFields option \<Rightarrow> string set" where
  "required_set record is_reduced required = set (always_of required) \<union> set (present_now record is_reduced required)"

definition computed_partition ::
  "string set \<Rightarrow> string set \<Rightarrow> string set \<Rightarrow> string set \<Rightarrow> string set \<Rightarrow> bool" where
  "computed_partition required assessed flagged retained blocked \<longleftrightarrow>
     blocked = flagged \<union> (required - assessed) \<and> retained = required - blocked \<and> flagged \<subseteq> required"

lemma named_in_blocked:
  assumes "ordered_unique_at record ''blockedFields'' = Inr blocked"
  shows "named_in record p ''blockedFields'' \<longleftrightarrow> p \<in> set blocked"
proof -
  obtain items where items: "va_pointer record ''/blockedFields'' = Some (VArray items)"
    and f: "try_fold (push_ordered ''blockedFields'') [] items = Inr blocked"
    using assms by (auto simp: ordered_unique_at_def bind_eq_Some_conv)
  then have "items = map VString blocked" unfolding ordered_items by blast
  then show ?thesis using items by (auto simp: named_in_def list_ex_iff)
qed

lemma named_in_retained:
  assumes "va_pointer record ''/retainedFields'' = Some (VObject kept)"
  shows "named_in record p ''retainedFields'' \<longleftrightarrow> p \<in> set (map fst kept)"
  using assms by (simp add: named_in_def map_of_eq_None_iff)

lemma partition_algebra:
  fixes ret bl al po asd fl rq :: "'a set"
  assumes "fl \<subseteq> asd" and rq: "rq = al \<union> (po \<inter> (ret \<union> bl))"
  shows "(ret \<union> bl \<subseteq> al \<union> po \<and> ret \<inter> bl = {} \<and> al \<subseteq> bl \<union> ret \<and> fl \<subseteq> bl \<and> ret \<subseteq> asd \<and> bl \<inter> asd \<subseteq> fl)
    \<longleftrightarrow> (bl = fl \<union> (rq - asd) \<and> ret = rq - bl \<and> fl \<subseteq> rq)" (is "?checks \<longleftrightarrow> ?spec")
proof
  assume c: ?checks
  have r: "rq = ret \<union> bl" unfolding rq using c by auto
  show ?spec unfolding r using c by auto
next
  assume s: ?spec
  have "al \<subseteq> rq" "rq \<subseteq> al \<union> po" unfolding rq by auto
  moreover have "bl \<subseteq> rq" using s by auto
  moreover have "rq = ret \<union> bl" "ret \<inter> bl = {}" using s calculation(3) by auto
  moreover have "ret \<subseteq> asd" using s by auto
  moreover have "bl \<inter> asd \<subseteq> fl" "fl \<subseteq> bl" using s by auto
  ultimately show ?checks by auto
qed

lemma check_partition_iff:
  assumes b: "ordered_unique_at record ''blockedFields'' = Inr blocked"
    and r: "va_pointer record ''/retainedFields'' = Some (VObject kept)"
    and a: "\<forall>f \<in> set flagged. f \<in> set assessed"
  shows "check_partition required assessed flagged (map fst kept) blocked = Inr () \<longleftrightarrow>
    computed_partition (required_set record True required) (set assessed) (set flagged) (set (map fst kept)) (set blocked)"
proof -
  let ?ret = "set (map fst kept)" and ?bl = "set blocked" and ?al = "set (always_of required)"
  let ?po = "po_decoded ` set (present_only_of required)"
  have req: "required_set record True required = ?al \<union> (?po \<inter> (?ret \<union> ?bl))"
    unfolding required_set_def present_now_def declares_present_def
    by (auto simp: named_in_blocked [OF b] named_in_retained [OF r])
  have inr: "in_required required p \<longleftrightarrow> p \<in> ?al \<union> ?po" for p
    by (auto simp: in_required_def list_ex_iff image_iff)
  have "check_partition required assessed flagged (map fst kept) blocked = Inr () \<longleftrightarrow>
      ?ret \<union> ?bl \<subseteq> ?al \<union> ?po \<and> ?ret \<inter> ?bl = {} \<and> ?al \<subseteq> ?bl \<union> ?ret \<and> set flagged \<subseteq> ?bl
      \<and> ?ret \<subseteq> set assessed \<and> ?bl \<inter> set assessed \<subseteq> set flagged"
    unfolding check_partition_def by (simp add: inr) blast
  also have "\<dots> \<longleftrightarrow> computed_partition (required_set record True required) (set assessed) (set flagged) ?ret ?bl"
    unfolding computed_partition_def by (rule partition_algebra [OF _ req]) (use a in blast)
  finally show ?thesis .
qed

end
