(* ===== verification/Closure_Provenance.thy ===== *)
theory Closure_Provenance
  imports Closure_Authorise
begin

text \<open>
  Provenance binding of classifier decisions: \<^verbatim>\<open>crates/o7-closure-provenance/src/lib.rs\<close> and \<^verbatim>\<open>derivations.rs\<close>. The store is a
  record of the two methods of the trait \<^verbatim>\<open>RetainedEvidence\<close>; nothing is assumed of it. A function that pushes
  one \<^verbatim>\<open>Unresolved\<close> and returns nothing is a result here, \<open>Inl\<close> the refusal pushed; a function that may push
  several returns the list it appends. \<open>sha\<close>, \<open>from_str\<close> and \<open>include_str\<close> are as in the matcher.
\<close>

section \<open>Decisions\<close>

datatype AcquisitionLocator =
    InPullRequest (al_repository: string) (al_pull_request: string) (al_stable_id: string)
  | Check_locator string string
  | Head_locator string string

fun locator_members :: "AcquisitionLocator \<Rightarrow> (string \<times> string) list" where
  "locator_members (InPullRequest repository pull_request stable_id) =
     [(''repository'', repository), (''pullRequest'', pull_request), (''stableId'', stable_id)]"
| "locator_members (Check_locator repository stable_id) = [(''repository'', repository), (''stableId'', stable_id)]"
| "locator_members (Head_locator repository pull_request) =
     [(''repository'', repository), (''pullRequest'', pull_request)]"

record DecisionInput =
  di_source_digest :: string
  di_pointer :: string
  di_locator :: AcquisitionLocator

record CitedSource =
  ci_digest :: string
  ci_locator :: AcquisitionLocator

record DerivedFact =
  df_derivation :: string
  df_version :: string
  df_value :: Value
  df_derived_from :: "CitedSource list"

record DeclaredBinding =
  db_record_digest :: string
  db_assessment_digest :: string

datatype DecisionProfile = DP_Check | DP_Review | DP_Absence

datatype Needs =
    Needs_Observed string string string
  | Needs_Derived string
  | Needs_ExpectedQuerySnapshot

record BasisRequirement =
  br_name :: string
  br_needs :: Needs

definition CHECK_BASIS :: "BasisRequirement list" where
  "CHECK_BASIS =
     [\<lparr>br_name = ''observed head_sha'', br_needs = Needs_Observed ''github-actions-check'' ''/headSha'' ''/head_sha''\<rparr>,
      \<lparr>br_name = ''observed conclusion'', br_needs = Needs_Observed ''github-actions-check'' ''/conclusion'' ''/conclusion''\<rparr>]"

definition ABSENCE_BASIS :: "BasisRequirement list" where
  "ABSENCE_BASIS = [\<lparr>br_name = ''expected query snapshot digest'', br_needs = Needs_ExpectedQuerySnapshot\<rparr>]"

definition REVIEW_BASIS :: "BasisRequirement list" where
  "REVIEW_BASIS =
     [\<lparr>br_name = ''observed commit_id'', br_needs = Needs_Observed ''github-submitted-review'' ''/commitId'' ''/commit_id''\<rparr>,
      \<lparr>br_name = ''derived carries_finding'', br_needs = Needs_Derived ''review-carries-finding''\<rparr>]"

fun profile_name :: "DecisionProfile \<Rightarrow> string" where
  "profile_name DP_Check = ''check''"
| "profile_name DP_Review = ''review''"
| "profile_name DP_Absence = ''absence''"

fun profile_requires :: "DecisionProfile \<Rightarrow> BasisRequirement list" where
  "profile_requires DP_Check = CHECK_BASIS"
| "profile_requires DP_Review = REVIEW_BASIS"
| "profile_requires DP_Absence = ABSENCE_BASIS"

record QueryBinding =
  qb_repository :: string
  qb_pull_request :: string

record ExpectedQuery =
  eq_digest :: string
  eq_subject :: QueryBinding

record DecisionBasis =
  bs_observation_id :: string
  bs_inputs :: "DecisionInput list"
  bs_derived :: "DerivedFact list"
  bs_expected_query :: "ExpectedQuery option"
  bs_bindings :: "DeclaredBinding list"
  bs_expected_redaction_policy :: string
  bs_expected_detector :: ExpectedDetector

record RetainedEvidence =
  re_resolve :: "string \<Rightarrow> Value option"
  re_binding_for :: "string \<Rightarrow> Value option"

record Expected =
  ex_declared :: "DeclaredBinding list"
  ex_detector :: ExpectedDetector
  ex_policy :: string

section \<open>Refusals\<close>

datatype Unresolved =
    NoSuchRecord string
  | RecordDigestMismatch string ComputedDigest
  | PointerBlocked string string
  | PointerAbsent string string
  | NoRetentionBinding string
  | NoSuchRetentionBinding string string
  | BindingMismatch string string string
  | BindingSubjectMismatch string string
  | NoSuchAssessment string string
  | MalformedArtifact string string FormFault
  | AssessmentDoesNotAuthorise string string AuthoriseFault
  | WrongKindForRole string string string
  | DerivationDisagrees string Value Value
  | DerivationArityMismatch string nat nat
  | LocatorSubjectMismatch string string "string option" "string option"
  | BasisIncompleteForProfile string string
  | BasisSubjectNotShared string string
  | DerivationSlotKindMismatch string string nat string string
  | DerivationInputUnavailable string string string
  | DerivationCannotRecompute string string
  | UnknownDerivation string string
  | DerivationImplementationDrift string string string string
  | QueryDoesNotSupportRole string string QueryReason
and QueryReason =
    QR_Incomplete
  | QR_UnknownEnumeration string
  | QR_NoEnumeration
  | QR_NextPage
  | QR_PaginationUnknown "Value option"
  | QR_NotAQuery
  | QR_NotBound MatchError
  | QR_CandidateNotRetained string
  | QR_CandidateRefused string Unresolved
  | QR_CandidateNotAProjection string
  | QR_DoesNotReplay MatchError
  | QR_ImplementationUnbound
  | QR_NotReproduced "string list" "string list"
  | QR_NoObservation
  | QR_OtherObservation string string
  | QR_Matched "string list"
  | QR_OtherSubject "string option" "string option"
  | QR_ClaimsContradicted "string list"
  | QR_EvidenceRefused string Unresolved
  | QR_OtherSurface "string option"

datatype Admissible = Adm_Yes "Value list" | Adm_CannotCheck "Unresolved list"

section \<open>Roles\<close>

datatype ConsumedAs =
    CA_GatedSource | CA_ExpectedQuerySnapshot | CA_ScanEvidence | CA_HeadReadEvent | CA_SubjectHead
  | CA_RetentionAssessment | CA_RetentionBinding | CA_QueryCandidate

fun role_name :: "ConsumedAs \<Rightarrow> string" where
  "role_name CA_GatedSource = ''a gated source record''"
| "role_name CA_ExpectedQuerySnapshot = ''the expected query snapshot''"
| "role_name CA_ScanEvidence = [CHR ''a''] @ '' falsification scan'' @ [CHR 0x27] @ ''s evidence''"
| "role_name CA_HeadReadEvent = ''a head-read event''"
| "role_name CA_SubjectHead = ''a subject head projection''"
| "role_name CA_RetentionAssessment = ''an authorising retention assessment''"
| "role_name CA_RetentionBinding = ''a retention binding''"
| "role_name CA_QueryCandidate = ''a query snapshot'' @ [CHR 0x27] @ ''s replay candidate''"

fun is_projection :: "EvidenceKind \<Rightarrow> bool" where
  "is_projection (AK_CompleteProjection _) \<longleftrightarrow> True"
| "is_projection _ \<longleftrightarrow> False"

fun is_reduced :: "EvidenceKind \<Rightarrow> bool" where
  "is_reduced (AK_ReducedSourceRecord _) \<longleftrightarrow> True"
| "is_reduced _ \<longleftrightarrow> False"

fun accepts :: "ConsumedAs \<Rightarrow> EvidenceKind \<Rightarrow> bool" where
  "accepts CA_GatedSource kind \<longleftrightarrow> is_projection kind \<or> is_reduced kind"
| "accepts CA_ExpectedQuerySnapshot kind \<longleftrightarrow> kind = AK_QuerySnapshot"
| "accepts CA_ScanEvidence kind \<longleftrightarrow> kind = AK_QuerySnapshot"
| "accepts CA_HeadReadEvent kind \<longleftrightarrow> kind = AK_HeadReadEvent"
| "accepts CA_SubjectHead kind \<longleftrightarrow> kind = AK_CompleteProjection ''github-pull-request-head''"
| "accepts CA_RetentionAssessment kind \<longleftrightarrow> kind = AK_RetentionAssessment"
| "accepts CA_RetentionBinding kind \<longleftrightarrow> kind = AK_RetentionBinding"
| "accepts CA_QueryCandidate kind \<longleftrightarrow> is_projection kind"

definition locator_mismatch :: "ValidatedArtifact \<Rightarrow> AcquisitionLocator \<Rightarrow> string \<Rightarrow> bool" where
  "locator_mismatch artifact cited name \<longleftrightarrow>
     va_str_at artifact (''/locator/'' @ name) \<noteq> map_of (locator_members cited) name"

definition concerns_source ::
  "ValidatedArtifact \<Rightarrow> string \<Rightarrow> AcquisitionLocator \<Rightarrow> (Unresolved, unit) result" where
  "concerns_source artifact source cited =
     (case va_kind artifact of
        AK_ReducedSourceRecord locator_kind \<Rightarrow>
          (case locator_shape locator_kind of
             None \<Rightarrow> Inr ()
           | Some shape \<Rightarrow>
               refuse_if (find (locator_mismatch artifact cited) (map mem_name (ls_members shape)))
                 (\<lambda>name. LocatorSubjectMismatch source name (va_str_at artifact (''/locator/'' @ name))
                    (map_of (locator_members cited) name)))
      | _ \<Rightarrow> Inr ())"

section \<open>The door\<close>

definition unwrap_or_default :: "string option \<Rightarrow> string" where
  "unwrap_or_default s = (case s of Some t \<Rightarrow> t | None \<Rightarrow> [])"

definition malformed_kind :: "Value \<Rightarrow> string" where
  "malformed_kind raw = (case str_at raw ''/sourceKind'' of Some k \<Rightarrow> k | None \<Rightarrow> ''<absent>'')"

definition validated :: "(bytes \<Rightarrow> bytes) \<Rightarrow> string \<Rightarrow> Value \<Rightarrow> (Unresolved, ValidatedArtifact) result" where
  "validated sha requested raw =
     (case validate sha requested raw of
        Inr artifact \<Rightarrow> Inr artifact
      | Inl (DigestMismatch computed) \<Rightarrow> Inl (RecordDigestMismatch requested computed)
      | Inl (Malformed why) \<Rightarrow> Inl (MalformedArtifact requested (malformed_kind raw) why))"

text \<open>
  \<^verbatim>\<open>resolve_artifact\<close> and \<^verbatim>\<open>authorised\<close> call each other; the role decides that a binding and an assessment are
  ungated, which is why the recursion ends.
\<close>

function (sequential) resolve_artifact ::
    "(bytes \<Rightarrow> bytes) \<Rightarrow> RetainedEvidence \<Rightarrow> string \<Rightarrow> ConsumedAs \<Rightarrow> Expected \<Rightarrow> (Unresolved, ValidatedArtifact) result"
  and authorised ::
    "(bytes \<Rightarrow> bytes) \<Rightarrow> RetainedEvidence \<Rightarrow> ValidatedArtifact \<Rightarrow> Expected \<Rightarrow> (Unresolved, unit) result" where
  "resolve_artifact sha store requested role expected =
     and_then (ok_or (re_resolve store requested) (NoSuchRecord requested)) (\<lambda>raw.
     and_then (validated sha requested raw) (\<lambda>artifact.
     if \<not> accepts role (va_kind artifact)
     then Inl (WrongKindForRole requested (role_name role) (evidence_kind_name (va_kind artifact)))
     else if gate (va_kind artifact) = Gated
       then and_then (authorised sha store artifact expected) (\<lambda>_. Inr artifact)
       else Inr artifact))"
| "authorised sha store record expected =
     (let requested = va_digest record in
      and_then (ok_or (re_binding_for store requested) (NoRetentionBinding requested)) (\<lambda>binding_bytes.
      and_then (map_err (\<lambda>_. NoRetentionBinding requested) (digest sha binding_bytes)) (\<lambda>d.
      let binding_digest = closure_digest_str d in
      if re_resolve store binding_digest = None then Inl (NoSuchRetentionBinding requested binding_digest)
      else and_then (resolve_artifact sha store binding_digest CA_RetentionBinding expected) (\<lambda>binding.
      let names = unwrap_or_default (va_str_at binding ''/recordDigest'') in
      if names \<noteq> requested then Inl (BindingSubjectMismatch requested names)
      else
        let assessment_digest = unwrap_or_default (va_str_at binding ''/assessmentDigest'') in
        if re_resolve store assessment_digest = None then Inl (NoSuchAssessment requested assessment_digest)
        else and_then (resolve_artifact sha store assessment_digest CA_RetentionAssessment expected) (\<lambda>assessment.
        and_then (map_err (AssessmentDoesNotAuthorise requested assessment_digest)
            (check_authorises record assessment (ex_policy expected) (ex_detector expected))) (\<lambda>_.
        refuse_if (find (\<lambda>b. db_assessment_digest b \<noteq> assessment_digest)
            (filter (\<lambda>b. db_record_digest b = requested) (ex_declared expected)))
          (\<lambda>b. BindingMismatch requested (db_assessment_digest b) assessment_digest)))))))"
  by pat_completeness auto
termination
proof (relation "measure (case_sum
      (\<lambda>(sha, store, requested, role, expected). if role \<in> {CA_RetentionAssessment, CA_RetentionBinding} then 0 else 2)
      (\<lambda>(sha, store, record, expected). 1))", goal_cases)
  case (2 sha store requested role expected raw artifact)
  then show ?case by (cases role) auto
qed auto

section \<open>Queries\<close>

record QualifiedQuery =
  qq_digest :: string
  qq_matched :: "string list"
  qq_observation :: string

definition concerns :: "ValidatedArtifact \<Rightarrow> QueryBinding \<Rightarrow> (QueryReason, unit) result" where
  "concerns snapshot subject =
     (let repository = va_str_at snapshot ''/binding/repository'';
          pull_request = va_str_at snapshot ''/binding/pullRequest'' in
      if repository = Some (qb_repository subject) \<and> pull_request = Some (qb_pull_request subject) then Inr ()
      else Inl (QR_OtherSubject repository pull_request))"

definition supports_absence :: "QualifiedQuery \<Rightarrow> string \<Rightarrow> (QueryReason, unit) result" where
  "supports_absence q expected_observation =
     (if qq_observation q \<noteq> expected_observation then Inl (QR_OtherObservation expected_observation (qq_observation q))
      else if qq_matched q = [] then Inr ()
      else Inl (QR_Matched (qq_matched q)))"

definition supports_claim_count :: "QualifiedQuery \<Rightarrow> nat \<Rightarrow> (QueryReason, unit) result" where
  "supports_claim_count q claims =
     (if claims > 0 \<or> qq_matched q = [] then Inr () else Inl (QR_ClaimsContradicted (qq_matched q)))"

definition check_enumeration :: "ValidatedArtifact \<Rightarrow> (QueryReason, unit) result" where
  "check_enumeration snapshot =
     (case va_str_at snapshot ''/enumeration'' of
        None \<Rightarrow> Inl QR_NoEnumeration
      | Some state \<Rightarrow>
          if state = ''COMPLETE'' then Inr ()
          else if state = ''INCOMPLETE'' then Inl QR_Incomplete
          else Inl (QR_UnknownEnumeration state))"

definition check_pagination :: "ValidatedArtifact \<Rightarrow> (QueryReason, unit) result" where
  "check_pagination snapshot =
     (case va_pointer snapshot ''/pagination/nextPagePresent'' of
        Some (VBool False) \<Rightarrow> Inr ()
      | Some (VBool True) \<Rightarrow> Inl QR_NextPage
      | other \<Rightarrow> Inl (QR_PaginationUnknown other))"

definition load_candidate ::
  "(bytes \<Rightarrow> bytes) \<Rightarrow> RetainedEvidence \<Rightarrow> Expected \<Rightarrow> string \<Rightarrow> (QueryReason, Candidate) result" where
  "load_candidate sha store expected cited =
     (if re_resolve store cited = None then Inl (QR_CandidateNotRetained cited)
      else and_then (map_err (QR_CandidateRefused cited) (resolve_artifact sha store cited CA_QueryCandidate expected)) (\<lambda>a.
        ok_or (matcher_candidate a) (QR_CandidateNotAProjection cited)))"

definition qualify_query ::
  "(bytes \<Rightarrow> bytes) \<Rightarrow> (string \<Rightarrow> Value option) \<Rightarrow> (string \<Rightarrow> string) \<Rightarrow> ValidatedArtifact \<Rightarrow> RetainedEvidence \<Rightarrow> Expected
     \<Rightarrow> (QueryReason, QualifiedQuery) result" where
  "qualify_query sha from_str include_str snapshot store expected =
     and_then (check_enumeration snapshot) (\<lambda>_.
     and_then (check_pagination snapshot) (\<lambda>_.
     and_then (ok_or (recorded_query sha snapshot) QR_NotAQuery) (\<lambda>attempt.
     and_then (map_err QR_NotBound attempt) (\<lambda>recorded.
     let matcher = rq_matcher recorded in
     and_then (try_map (load_candidate sha store expected) (rm_all_returned_snapshot_digests matcher)) (\<lambda>candidates.
     and_then (map_err QR_DoesNotReplay (verify_matched sha from_str include_str matcher candidates)) (\<lambda>verdict.
     if rp_implementation (mv_replay verdict) = IC_CannotCheck then Inl QR_ImplementationUnbound
     else if \<not> mv_reproduced verdict
       then Inl (QR_NotReproduced (rm_matched_snapshot_digests matcher) (rp_matched (mv_replay verdict)))
     else and_then (ok_or (va_str_at snapshot ''/requiredObservationId'') QR_NoObservation) (\<lambda>observation.
       Inr \<lparr>qq_digest = va_digest snapshot, qq_matched = rp_matched (mv_replay verdict),
            qq_observation = observation\<rparr>)))))))"

section \<open>Reading fields\<close>

definition blocks :: "ValidatedArtifact \<Rightarrow> string \<Rightarrow> bool" where
  "blocks record ptr =
     (case Option.bind (va_pointer record ''/blockedFields'') as_array of
        Some items \<Rightarrow> list_ex (\<lambda>f. as_str f = Some ptr) items
      | None \<Rightarrow> False)"

definition read_pointer :: "ValidatedArtifact \<Rightarrow> string \<Rightarrow> (Unresolved, Value) result" where
  "read_pointer record ptr =
     (if \<not> is_reduced (va_kind record) then ok_or (va_pointer record ptr) (PointerAbsent (va_digest record) ptr)
      else if blocks record ptr then Inl (PointerBlocked (va_digest record) ptr)
      else ok_or (Option.bind (Option.bind (va_pointer record ''/retainedFields'') as_object) (\<lambda>kept. map_of kept ptr))
        (PointerBlocked (va_digest record) ptr))"

section \<open>Derivations\<close>

record DerivationInput =
  dv_canonical :: string
  dv_decoded :: string

record DerivationSource =
  ds_kind :: string
  ds_inputs :: "DerivationInput list"

record DerivationEntry =
  de_id :: string
  de_version :: string
  de_sources :: "DerivationSource list"
  de_implementation_source :: string
  de_implementation_digest :: string
  de_derive :: "Value list \<Rightarrow> Value option"

definition carries_finding_v1 :: "Value list \<Rightarrow> Value option" where
  "carries_finding_v1 sources =
     (case sources of
        review # comment # _ \<Rightarrow>
          Option.bind (str_at review ''/stableId'') (\<lambda>review_id.
          Option.bind (str_at comment ''/pullRequestReviewId'') (\<lambda>owning_review.
          Some (VBool (review_id = owning_review))))
      | _ \<Rightarrow> None)"

definition DERIVATIONS :: "(string \<Rightarrow> string) \<Rightarrow> DerivationEntry list" where
  "DERIVATIONS include_str =
     [\<lparr>de_id = ''review-carries-finding'', de_version = ''1'',
       de_sources =
         [\<lparr>ds_kind = ''github-submitted-review'', ds_inputs = [\<lparr>dv_canonical = ''/stableId'', dv_decoded = ''/id''\<rparr>]\<rparr>,
          \<lparr>ds_kind = ''github-review-comment'',
           ds_inputs = [\<lparr>dv_canonical = ''/pullRequestReviewId'', dv_decoded = ''/pull_request_review_id''\<rparr>]\<rparr>],
       de_implementation_source = include_str ''derivations/carries_finding_v1.rs'',
       de_implementation_digest = ''sha256:9990c9990875b746b0afcc3bda59538b34aeaaef87f9efeb98a03c5d9d7e902e'',
       de_derive = carries_finding_v1\<rparr>]"

definition arity :: "DerivationEntry \<Rightarrow> nat" where
  "arity entry = length (de_sources entry)"

definition resolve_derivation :: "(string \<Rightarrow> string) \<Rightarrow> string \<Rightarrow> string \<Rightarrow> DerivationEntry option" where
  "resolve_derivation include_str i v = find (\<lambda>e. de_id e = i \<and> de_version e = v) (DERIVATIONS include_str)"

definition verify_derivation :: "(bytes \<Rightarrow> bytes) \<Rightarrow> DerivationEntry \<Rightarrow> (string \<times> string, unit) result" where
  "verify_derivation sha entry =
     (let computed = closure_digest_str (digest_of_canonical_bytes sha (as_bytes (de_implementation_source entry))) in
      if computed = de_implementation_digest entry then Inr () else Inl (de_implementation_digest entry, computed))"

text \<open>An ordered map of the standard library, as its entries in key order.\<close>

fun btree_insert :: "'k::linorder \<Rightarrow> 'v \<Rightarrow> ('k \<times> 'v) list \<Rightarrow> ('k \<times> 'v) list" where
  "btree_insert k v [] = [(k, v)]"
| "btree_insert k v ((k', v') # m) =
     (if k < k' then (k, v) # (k', v') # m else if k = k' then (k, v) # m else (k', v') # btree_insert k v m)"

definition btree_push :: "'k::linorder \<Rightarrow> 'v \<Rightarrow> ('k \<times> 'v list) list \<Rightarrow> ('k \<times> 'v list) list" where
  "btree_push k x m = btree_insert k ((case map_of m k of Some xs \<Rightarrow> xs | None \<Rightarrow> []) @ [x]) m"

text \<open>A target that a failed placement leaves half-written is dropped by its only caller.\<close>

fun place_segments :: "Value \<Rightarrow> string list \<Rightarrow> Value \<Rightarrow> Value option" where
  "place_segments target [] v = None"
| "place_segments target (head # rest) v =
     Option.bind (as_object target) (\<lambda>m.
       if rest = [] then Some (VObject (btree_insert head v m))
       else
         (let child = (case map_of m head of Some c \<Rightarrow> c | None \<Rightarrow> VObject []) in
          Option.bind (place_segments child rest v) (\<lambda>c. Some (VObject (btree_insert head c m)))))"

definition place :: "Value \<Rightarrow> string \<Rightarrow> Value \<Rightarrow> Value option" where
  "place target ptr v =
     Option.bind (strip_prefix ''/'' ptr) (\<lambda>p. place_segments target (map decode_token (split_on (CHR ''/'') p)) v)"

datatype ViewError = VE_Input Unresolved | VE_Undeclarable

definition view_step :: "ValidatedArtifact \<Rightarrow> Value \<Rightarrow> DerivationInput \<Rightarrow> (ViewError, Value) result" where
  "view_step record view input =
     and_then (map_err VE_Input
         (read_pointer record (if is_reduced (va_kind record) then dv_decoded input else dv_canonical input))) (\<lambda>v.
     ok_or (place view (dv_canonical input) v) VE_Undeclarable)"

definition derivation_source_view :: "ValidatedArtifact \<Rightarrow> DerivationInput list \<Rightarrow> (ViewError, Value) result" where
  "derivation_source_view record inputs = try_fold (view_step record) (VObject []) inputs"

definition load_source ::
  "(bytes \<Rightarrow> bytes) \<Rightarrow> RetainedEvidence \<Rightarrow> DerivedFact \<Rightarrow> Expected \<Rightarrow> nat \<times> DerivationSource \<times> CitedSource
     \<Rightarrow> (Unresolved list, Value) result" where
  "load_source sha store claim expected = (\<lambda>(slot, source, cited).
     and_then (map_err (\<lambda>u. [u]) (resolve_artifact sha store (ci_digest cited) CA_GatedSource expected)) (\<lambda>record.
     and_then (map_err (\<lambda>u. [u]) (concerns_source record (ci_digest cited) (ci_locator cited))) (\<lambda>_.
     let found = surface (va_kind record) in
     if found \<noteq> ds_kind source
     then Inl [DerivationSlotKindMismatch (df_derivation claim) (df_version claim) slot (ds_kind source) found]
     else (case derivation_source_view record (ds_inputs source) of
         Inr view \<Rightarrow> Inr view
       | Inl (VE_Input why) \<Rightarrow> Inl [why, DerivationInputUnavailable (df_derivation claim) (df_version claim) (ci_digest cited)]
       | Inl VE_Undeclarable \<Rightarrow> Inl [DerivationCannotRecompute (df_derivation claim) (df_version claim)]))))"

definition check_derived ::
  "(bytes \<Rightarrow> bytes) \<Rightarrow> (string \<Rightarrow> string) \<Rightarrow> RetainedEvidence \<Rightarrow> DerivedFact \<Rightarrow> Expected \<Rightarrow> Unresolved list" where
  "check_derived sha include_str store claim expected =
     (case resolve_derivation include_str (df_derivation claim) (df_version claim) of
        None \<Rightarrow> [UnknownDerivation (df_derivation claim) (df_version claim)]
      | Some entry \<Rightarrow>
          (case verify_derivation sha entry of
             Inl (wanted, computed) \<Rightarrow> [DerivationImplementationDrift (df_derivation claim) (df_version claim) wanted computed]
           | Inr _ \<Rightarrow>
               if length (df_derived_from claim) \<noteq> arity entry
               then [DerivationArityMismatch (df_derivation claim) (arity entry) (length (df_derived_from claim))]
               else (case try_map (load_source sha store claim expected)
                     (enumerate 0 (zip (de_sources entry) (df_derived_from claim))) of
                   Inl why \<Rightarrow> why
                 | Inr sources \<Rightarrow>
                     (case de_derive entry sources of
                        Some recomputed \<Rightarrow>
                          if recomputed = df_value claim then []
                          else [DerivationDisagrees (df_derivation claim) (df_value claim) recomputed]
                      | None \<Rightarrow> [DerivationCannotRecompute (df_derivation claim) (df_version claim)]))))"

section \<open>The basis\<close>

record ObservedField =
  of_surface :: string
  of_pointer :: string
  of_digest :: string

record CheckedBasis =
  cb_why :: "Unresolved list"
  cb_values :: "Value list"
  cb_observed :: "ObservedField list"
  cb_some_input_did_not_resolve :: bool

definition expected_of :: "DecisionBasis \<Rightarrow> Expected" where
  "expected_of basis =
     \<lparr>ex_declared = bs_bindings basis, ex_detector = bs_expected_detector basis,
      ex_policy = bs_expected_redaction_policy basis\<rparr>"

definition check_input ::
  "(bytes \<Rightarrow> bytes) \<Rightarrow> RetainedEvidence \<Rightarrow> Expected \<Rightarrow> CheckedBasis \<Rightarrow> DecisionInput \<Rightarrow> CheckedBasis" where
  "check_input sha store expected st input =
     (case resolve_artifact sha store (di_source_digest input) CA_GatedSource expected of
        Inl u \<Rightarrow> st\<lparr>cb_why := cb_why st @ [u], cb_some_input_did_not_resolve := True\<rparr>
      | Inr record \<Rightarrow>
          (case concerns_source record (di_source_digest input) (di_locator input) of
             Inl u \<Rightarrow> st\<lparr>cb_why := cb_why st @ [u]\<rparr>
           | Inr _ \<Rightarrow>
               (let observed = \<lparr>of_surface = surface (va_kind record), of_pointer = di_pointer input,
                                of_digest = di_source_digest input\<rparr>;
                    st' = st\<lparr>cb_observed := cb_observed st @ [observed]\<rparr> in
                case read_pointer record (di_pointer input) of
                  Inr v \<Rightarrow> st'\<lparr>cb_values := cb_values st @ [v]\<rparr>
                | Inl u \<Rightarrow> st'\<lparr>cb_why := cb_why st @ [u]\<rparr>)))"

definition check_absence ::
  "(bytes \<Rightarrow> bytes) \<Rightarrow> (string \<Rightarrow> Value option) \<Rightarrow> (string \<Rightarrow> string) \<Rightarrow> RetainedEvidence \<Rightarrow> Expected \<Rightarrow> string
     \<Rightarrow> ExpectedQuery \<Rightarrow> Unresolved list" where
  "check_absence sha from_str include_str store expected observation q =
     (case resolve_artifact sha store (eq_digest q) CA_ExpectedQuerySnapshot expected of
        Inl u \<Rightarrow> [u]
      | Inr snapshot \<Rightarrow>
          (case and_then (concerns snapshot (eq_subject q)) (\<lambda>_.
                and_then (qualify_query sha from_str include_str snapshot store expected) (\<lambda>qualified.
                supports_absence qualified observation)) of
             Inl reason \<Rightarrow> [QueryDoesNotSupportRole (eq_digest q) (role_name CA_ExpectedQuerySnapshot) reason]
           | Inr _ \<Rightarrow> []))"

definition check_basis ::
  "(bytes \<Rightarrow> bytes) \<Rightarrow> (string \<Rightarrow> Value option) \<Rightarrow> (string \<Rightarrow> string) \<Rightarrow> DecisionBasis \<Rightarrow> RetainedEvidence
     \<Rightarrow> CheckedBasis" where
  "check_basis sha from_str include_str basis store =
     (let expected = expected_of basis;
          read = foldl (check_input sha store expected)
            \<lparr>cb_why = [], cb_values = [], cb_observed = [], cb_some_input_did_not_resolve = False\<rparr> (bs_inputs basis);
          derived = concat (map (\<lambda>claim. check_derived sha include_str store claim expected) (bs_derived basis));
          query = (case bs_expected_query basis of
            Some q \<Rightarrow> check_absence sha from_str include_str store expected (bs_observation_id basis) q
          | None \<Rightarrow> []) in
      read\<lparr>cb_why := cb_why read @ derived @ query\<rparr>)"

definition relations_checked ::
  "(bytes \<Rightarrow> bytes) \<Rightarrow> (string \<Rightarrow> Value option) \<Rightarrow> (string \<Rightarrow> string) \<Rightarrow> DecisionBasis \<Rightarrow> RetainedEvidence
     \<Rightarrow> (Unresolved list, Value list) result" where
  "relations_checked sha from_str include_str basis store =
     (let checked = check_basis sha from_str include_str basis store in
      if cb_why checked = [] then Inr (cb_values checked) else Inl (cb_why checked))"

definition observes :: "string \<Rightarrow> string \<Rightarrow> string \<Rightarrow> ObservedField \<Rightarrow> bool" where
  "observes surf canonical decoded ob \<longleftrightarrow>
     of_surface ob = surf \<and> (of_pointer ob = canonical \<or> of_pointer ob = decoded)"

fun satisfied :: "DecisionBasis \<Rightarrow> ObservedField list \<Rightarrow> Needs \<Rightarrow> bool" where
  "satisfied basis obs (Needs_Observed surf canonical decoded) \<longleftrightarrow> list_ex (observes surf canonical decoded) obs"
| "satisfied basis obs (Needs_Derived derivation) \<longleftrightarrow> list_ex (\<lambda>f. df_derivation f = derivation) (bs_derived basis)"
| "satisfied basis obs Needs_ExpectedQuerySnapshot \<longleftrightarrow> bs_expected_query basis \<noteq> None"

definition missing_requirements :: "DecisionProfile \<Rightarrow> DecisionBasis \<Rightarrow> ObservedField list \<Rightarrow> Unresolved list" where
  "missing_requirements profile basis obs =
     map (\<lambda>r. BasisIncompleteForProfile (profile_name profile) (br_name r))
       (filter (\<lambda>r. \<not> satisfied basis obs (br_needs r)) (profile_requires profile))"

definition fact_slots ::
  "(string \<Rightarrow> string) \<Rightarrow> (string \<times> string list) list \<Rightarrow> DerivedFact \<Rightarrow> (string \<times> string list) list" where
  "fact_slots include_str slots claim =
     (case resolve_derivation include_str (df_derivation claim) (df_version claim) of
        None \<Rightarrow> slots
      | Some entry \<Rightarrow>
          foldl (\<lambda>m (source, cited). btree_push (ds_kind source) (ci_digest cited) m) slots
            (zip (de_sources entry) (df_derived_from claim)))"

fun requirement_witnesses ::
  "(string \<Rightarrow> string) \<Rightarrow> DecisionBasis \<Rightarrow> ObservedField list \<Rightarrow> (string \<times> string list list) list \<Rightarrow> Needs
     \<Rightarrow> (string \<times> string list list) list" where
  "requirement_witnesses include_str basis obs m (Needs_Observed surf canonical decoded) =
     btree_push surf (map of_digest (filter (observes surf canonical decoded) obs)) m"
| "requirement_witnesses include_str basis obs m (Needs_Derived derivation) =
     foldl (\<lambda>m (kind, cited). btree_push kind cited m) m
       (foldl (fact_slots include_str) [] (filter (\<lambda>f. df_derivation f = derivation) (bs_derived basis)))"
| "requirement_witnesses include_str basis obs m Needs_ExpectedQuerySnapshot = m"

definition by_surface ::
  "(string \<Rightarrow> string) \<Rightarrow> DecisionProfile \<Rightarrow> DecisionBasis \<Rightarrow> ObservedField list \<Rightarrow> (string \<times> string list list) list" where
  "by_surface include_str profile basis obs =
     foldl (\<lambda>m r. requirement_witnesses include_str basis obs m (br_needs r)) [] (profile_requires profile)"

fun unshared :: "string list list \<Rightarrow> bool" where
  "unshared [] \<longleftrightarrow> False"
| "unshared (first # rest) \<longleftrightarrow>
     rest \<noteq> [] \<and> [] \<notin> set (first # rest)
     \<and> \<not> list_ex (\<lambda>candidate. list_all (\<lambda>s. candidate \<in> set s) rest) first"

definition unshared_subjects ::
  "(string \<Rightarrow> string) \<Rightarrow> DecisionProfile \<Rightarrow> DecisionBasis \<Rightarrow> ObservedField list \<Rightarrow> Unresolved list" where
  "unshared_subjects include_str profile basis obs =
     map (\<lambda>(surf, _). BasisSubjectNotShared (profile_name profile) surf)
       (filter (\<lambda>(_, witnesses). unshared witnesses) (by_surface include_str profile basis obs))"

definition admissibility ::
  "(bytes \<Rightarrow> bytes) \<Rightarrow> (string \<Rightarrow> Value option) \<Rightarrow> (string \<Rightarrow> string) \<Rightarrow> DecisionProfile \<Rightarrow> DecisionBasis
     \<Rightarrow> RetainedEvidence \<Rightarrow> Admissible" where
  "admissibility sha from_str include_str profile basis store =
     (let checked = check_basis sha from_str include_str basis store;
          obs = cb_observed checked;
          why = cb_why checked @
            (if cb_some_input_did_not_resolve checked then []
             else missing_requirements profile basis obs @ unshared_subjects include_str profile basis obs) in
      if why = [] then Adm_Yes (cb_values checked) else Adm_CannotCheck why)"

section \<open>Falsification scans\<close>

datatype ScanCompleteness = SC_Complete | SC_Incomplete string | SC_Failed string

record FalsificationSurfaceScan =
  sc_surface :: string
  sc_binding :: QueryBinding
  sc_completeness :: ScanCompleteness
  sc_expected_redaction_policy :: string
  sc_expected_detector :: ExpectedDetector
  sc_snapshot_digest :: string

datatype ScanReason = SR_Incomplete string nat | SR_Failed string | SR_Evidence QueryReason

datatype ScanVerdict = ZeroClaimsMeaningful | Claims nat | Scan_CannotCheck ScanReason

definition check_scan_evidence ::
  "(bytes \<Rightarrow> bytes) \<Rightarrow> (string \<Rightarrow> Value option) \<Rightarrow> (string \<Rightarrow> string) \<Rightarrow> FalsificationSurfaceScan \<Rightarrow> RetainedEvidence
     \<Rightarrow> (QueryReason, QualifiedQuery) result" where
  "check_scan_evidence sha from_str include_str scan store =
     (let expected = \<lparr>ex_declared = [], ex_detector = sc_expected_detector scan,
                      ex_policy = sc_expected_redaction_policy scan\<rparr> in
      and_then (map_err (QR_EvidenceRefused (sc_surface scan))
          (resolve_artifact sha store (sc_snapshot_digest scan) CA_ScanEvidence expected)) (\<lambda>snapshot.
      let evidenced = va_str_at snapshot ''/surface'' in
      if evidenced \<noteq> Some (sc_surface scan) then Inl (QR_OtherSurface evidenced)
      else and_then (concerns snapshot (sc_binding scan)) (\<lambda>_.
        qualify_query sha from_str include_str snapshot store expected)))"

definition scan_verdict ::
  "(bytes \<Rightarrow> bytes) \<Rightarrow> (string \<Rightarrow> Value option) \<Rightarrow> (string \<Rightarrow> string) \<Rightarrow> FalsificationSurfaceScan \<Rightarrow> nat
     \<Rightarrow> RetainedEvidence \<Rightarrow> ScanVerdict" where
  "scan_verdict sha from_str include_str scan claims store =
     (case sc_completeness scan of
        SC_Incomplete reason \<Rightarrow> Scan_CannotCheck (SR_Incomplete reason claims)
      | SC_Failed reason \<Rightarrow> Scan_CannotCheck (SR_Failed reason)
      | SC_Complete \<Rightarrow>
          (case and_then (check_scan_evidence sha from_str include_str scan store) (\<lambda>q. supports_claim_count q claims) of
             Inl why \<Rightarrow> Scan_CannotCheck (SR_Evidence why)
           | Inr _ \<Rightarrow> if claims = 0 then ZeroClaimsMeaningful else Claims claims))"

section \<open>Head reads\<close>

datatype FailedRead = FR_RateLimited | FR_RequestFailed | FR_NotFound | FR_Unauthorized

fun code :: "FailedRead \<Rightarrow> string" where
  "code FR_RateLimited = ''RATE_LIMITED''"
| "code FR_RequestFailed = ''REQUEST_FAILED''"
| "code FR_NotFound = ''NOT_FOUND''"
| "code FR_Unauthorized = ''UNAUTHORIZED''"

datatype HeadRead = HR_Observed string | HR_Failed FailedRead

record SubjectRead =
  sr_before :: HeadRead
  sr_after :: HeadRead

record ReadSubject =
  sj_repository :: string
  sj_pull_request :: string
  sj_expected_sha :: string
  sj_expected_redaction_policy :: string
  sj_expected_detector :: ExpectedDetector

record ObservedHead =
  oh_sha :: string
  oh_observed_at :: string

datatype HeadFault =
    HF_DidNotHappen string string
  | HF_Refused string Unresolved
  | HF_OtherRole string string
  | HF_NoRole
  | HF_NotAvailable
  | HF_NoSnapshotDigest
  | HF_SnapshotRefused Unresolved
  | HF_OtherSubject "string option" "string option"
  | HF_NoObservedAt
  | HF_NoHeadSha

datatype Staleness =
    NotStale | Stale string
  | Stale_CannotCheck "HeadFault list"
  | Stale_NoBracket string string

definition resolve_head_read ::
  "(bytes \<Rightarrow> bytes) \<Rightarrow> RetainedEvidence \<Rightarrow> string \<Rightarrow> string \<Rightarrow> ReadSubject \<Rightarrow> (HeadFault, ObservedHead) result" where
  "resolve_head_read sha store event_digest expected_role subject =
     (let expected = \<lparr>ex_declared = [], ex_detector = sj_expected_detector subject,
                      ex_policy = sj_expected_redaction_policy subject\<rparr> in
      and_then (map_err (HF_Refused event_digest) (resolve_artifact sha store event_digest CA_HeadReadEvent expected)) (\<lambda>event.
      and_then (ok_or (va_str_at event ''/role'') HF_NoRole) (\<lambda>role.
      if role \<noteq> expected_role then Inl (HF_OtherRole role expected_role)
      else if va_str_at event ''/acquisition'' \<noteq> Some ''AVAILABLE'' then Inl HF_NotAvailable
      else and_then (ok_or (va_str_at event ''/snapshotDigest'') HF_NoSnapshotDigest) (\<lambda>snapshot_digest.
      and_then (map_err HF_SnapshotRefused (resolve_artifact sha store snapshot_digest CA_SubjectHead expected)) (\<lambda>snapshot.
      let repository = va_str_at snapshot ''/repository''; pull_request = va_str_at snapshot ''/pullRequest'' in
      if repository \<noteq> Some (sj_repository subject) \<or> pull_request \<noteq> Some (sj_pull_request subject)
      then Inl (HF_OtherSubject repository pull_request)
      else and_then (ok_or (va_str_at event ''/observedAt'') HF_NoObservedAt) (\<lambda>observed_at.
      and_then (ok_or (va_str_at snapshot ''/headSha'') HF_NoHeadSha) (\<lambda>head.
      Inr \<lparr>oh_sha = head, oh_observed_at = observed_at\<rparr>)))))))"

definition read_slot ::
  "(bytes \<Rightarrow> bytes) \<Rightarrow> RetainedEvidence \<Rightarrow> ReadSubject \<Rightarrow> string \<times> string \<times> HeadRead \<Rightarrow> (HeadFault, ObservedHead) result" where
  "read_slot sha store subject = (\<lambda>(slot, expected_role, r).
     case r of
       HR_Failed c \<Rightarrow> Inl (HF_DidNotHappen slot (code c))
     | HR_Observed event_digest \<Rightarrow> resolve_head_read sha store event_digest expected_role subject)"

definition lefts :: "('a + 'b) list \<Rightarrow> 'a list" where
  "lefts xs = List.map_filter (\<lambda>x. case x of Inl a \<Rightarrow> Some a | Inr _ \<Rightarrow> None) xs"

definition rights :: "('a + 'b) list \<Rightarrow> 'b list" where
  "rights xs = List.map_filter (\<lambda>x. case x of Inl _ \<Rightarrow> None | Inr b \<Rightarrow> Some b) xs"

definition staleness :: "(bytes \<Rightarrow> bytes) \<Rightarrow> ReadSubject \<Rightarrow> SubjectRead \<Rightarrow> RetainedEvidence \<Rightarrow> Staleness" where
  "staleness sha subject read store =
     (let reads = map (read_slot sha store subject)
            [(''head_before'', ''HEAD_BEFORE'', sr_before read), (''head_after'', ''HEAD_AFTER'', sr_after read)];
          observed = rights reads; unresolved = lefts reads in
      if unresolved \<noteq> [] then Stale_CannotCheck unresolved
      else (case observed of
          [before, after] \<Rightarrow>
            if oh_observed_at before > oh_observed_at after
            then Stale_NoBracket (oh_observed_at before) (oh_observed_at after)
            else (case find (\<lambda>r. oh_sha r \<noteq> sj_expected_sha subject) observed of
                Some r \<Rightarrow> Stale (oh_sha r) | None \<Rightarrow> NotStale)
        | _ \<Rightarrow> (case find (\<lambda>r. oh_sha r \<noteq> sj_expected_sha subject) observed of
                Some r \<Rightarrow> Stale (oh_sha r) | None \<Rightarrow> NotStale)))"

end
