(* ===== verification/Closure_Evidence.thy ===== *)
theory Closure_Evidence
  imports Closure_Provenance
begin

text \<open>
  What a verdict of the provenance crate establishes: the chain of retained objects behind a record, the
  bracket of a head read, the evidence of an absence, and that the store cannot choose what is read.
\<close>

declare resolve_artifact.simps [simp del] authorised.simps [simp del] check_shape.simps [simp del] fits.simps [simp del]

section \<open>The door\<close>

lemma validate_Inr:
  "validate sha d v = Inr a \<longleftrightarrow>
     (\<exists>c. digest sha v = Inr c \<and> closure_digest_str c = d)
     \<and> (\<exists>declared. str_at v ''/sourceKind'' = Some declared \<and> check_closed_form declared v = Inr (va_kind a))
     \<and> va_digest a = d \<and> va_value a = v"
  by (cases a; cases "digest sha v"; cases "str_at v ''/sourceKind''") (auto simp: validate_def ok_or_def)

definition retained :: "(bytes \<Rightarrow> bytes) \<Rightarrow> RetainedEvidence \<Rightarrow> string \<Rightarrow> ValidatedArtifact \<Rightarrow> bool" where
  "retained sha store d a \<longleftrightarrow> re_resolve store d = Some (va_value a) \<and> validate sha d (va_value a) = Inr a"

lemma validated_Inr: "validated sha d raw = Inr a \<longleftrightarrow> validate sha d raw = Inr a"
proof (cases "validate sha d raw")
  case (Inl e)
  then show ?thesis by (cases e) (simp_all add: validated_def)
qed (simp add: validated_def)

lemma retained_iff: "(\<exists>raw. re_resolve store d = Some raw \<and> validated sha d raw = Inr a) \<longleftrightarrow> retained sha store d a"
proof -
  have "va_value a = raw" if "validate sha d raw = Inr a" for raw using that by (simp add: validate_Inr)
  then show ?thesis unfolding retained_def validated_Inr by blast
qed

text \<open>
  The permission behind a gated record: a retained binding that names the record, and a retained assessment
  it names that authorises the record under the caller's policy and detector and that no declared binding of
  the caller contradicts.
\<close>

definition evidence_permitted :: "(bytes \<Rightarrow> bytes) \<Rightarrow> RetainedEvidence \<Rightarrow> Expected \<Rightarrow> ValidatedArtifact \<Rightarrow> bool" where
  "evidence_permitted sha store expected a \<longleftrightarrow>
     (\<exists>bytes d binding assessment_digest assessment.
        re_binding_for store (va_digest a) = Some bytes \<and> digest sha bytes = Inr d
        \<and> retained sha store (closure_digest_str d) binding \<and> va_kind binding = AK_RetentionBinding
        \<and> va_str_at binding ''/recordDigest'' = Some (va_digest a)
        \<and> va_str_at binding ''/assessmentDigest'' = Some assessment_digest
        \<and> retained sha store assessment_digest assessment \<and> va_kind assessment = AK_RetentionAssessment
        \<and> check_authorises a assessment (ex_policy expected) (ex_detector expected) = Inr ()
        \<and> (\<forall>b \<in> set (ex_declared expected). db_record_digest b = va_digest a \<longrightarrow> db_assessment_digest b = assessment_digest))"

lemma closed_form_binding:
  "check_closed_form declared v = Inr AK_RetentionBinding \<Longrightarrow> fits (VK_Object RETENTION_BINDING) v"
  unfolding check_closed_form_def
  by (auto simp: check_shape_iff(1) split: option.splits if_splits)

lemma text_member:
  assumes "fits (VK_Object members) v" "Member name True VK_Text \<in> set members"
    "CHR ''/'' \<notin> set name" "CHR ''~'' \<notin> set name"
  shows "\<exists>s. str_at v (CHR ''/'' # name) = Some s"
proof -
  obtain object where v: "v = VObject object" using assms(1) by (auto simp: fits.simps)
  obtain s where "map_of object name = Some (VString s)"
    using required_member [OF assms(1) [unfolded v] assms(2)] by (auto simp: fits.simps(1))
  then show ?thesis by (simp add: str_at_def v pointer_key [OF assms(3,4)])
qed

lemma binding_names:
  assumes "validate sha d v = Inr a" "va_kind a = AK_RetentionBinding"
  obtains r s where "va_str_at a ''/recordDigest'' = Some r" "va_str_at a ''/assessmentDigest'' = Some s"
proof -
  have f: "fits (VK_Object RETENTION_BINDING) (va_value a)"
    using assms closed_form_binding by (auto simp: validate_Inr)
  show ?thesis using that text_member [OF f, of "''recordDigest''"] text_member [OF f, of "''assessmentDigest''"]
    by (auto simp: RETENTION_BINDING_def req_kind_def va_str_at_def str_at_def)
qed

lemma resolve_artifact_Inr:
  "resolve_artifact sha store d role expected = Inr a \<longleftrightarrow>
     retained sha store d a \<and> accepts role (va_kind a)
     \<and> (gate (va_kind a) = Gated \<longrightarrow> authorised sha store a expected = Inr ())"
  unfolding resolve_artifact.simps [of sha store d role expected] retained_iff [symmetric]
  by (auto split: if_splits)

lemma resolve_ungated:
  assumes "\<And>k. accepts role k \<longleftrightarrow> k = kind" "gate kind = Ungated"
  shows "resolve_artifact sha store d role expected = Inr a \<longleftrightarrow> retained sha store d a \<and> va_kind a = kind"
  using assms by (auto simp: resolve_artifact_Inr)

lemma authorised_Inr: "authorised sha store a expected = Inr () \<longleftrightarrow> evidence_permitted sha store expected a"
proof
  assume "authorised sha store a expected = Inr ()"
  then obtain bytes d binding assessment where
    c: "re_binding_for store (va_digest a) = Some bytes" "digest sha bytes = Inr d"
    "resolve_artifact sha store (closure_digest_str d) CA_RetentionBinding expected = Inr binding"
    "unwrap_or_default (va_str_at binding ''/recordDigest'') = va_digest a"
    "resolve_artifact sha store (unwrap_or_default (va_str_at binding ''/assessmentDigest'')) CA_RetentionAssessment expected = Inr assessment"
    "check_authorises a assessment (ex_policy expected) (ex_detector expected) = Inr ()"
    "\<forall>b \<in> set (ex_declared expected). db_record_digest b = va_digest a \<longrightarrow>
        db_assessment_digest b = unwrap_or_default (va_str_at binding ''/assessmentDigest'')"
    by (auto simp: authorised.simps Let_def split: if_splits)
  have b: "retained sha store (closure_digest_str d) binding" "va_kind binding = AK_RetentionBinding"
    using c(3) resolve_ungated [of CA_RetentionBinding AK_RetentionBinding] by simp_all
  obtain r s where n: "va_str_at binding ''/recordDigest'' = Some r" "va_str_at binding ''/assessmentDigest'' = Some s"
    using b binding_names unfolding retained_def by blast
  have "retained sha store s assessment" "va_kind assessment = AK_RetentionAssessment"
    using c(5) resolve_ungated [of CA_RetentionAssessment AK_RetentionAssessment] n by (simp_all add: unwrap_or_default_def)
  then show "evidence_permitted sha store expected a"
    using c b n unfolding evidence_permitted_def by (auto simp: unwrap_or_default_def)
next
  assume "evidence_permitted sha store expected a"
  then obtain bytes d binding s assessment where
    c: "re_binding_for store (va_digest a) = Some bytes" "digest sha bytes = Inr d"
    "retained sha store (closure_digest_str d) binding" "va_kind binding = AK_RetentionBinding"
    "va_str_at binding ''/recordDigest'' = Some (va_digest a)" "va_str_at binding ''/assessmentDigest'' = Some s"
    "retained sha store s assessment" "va_kind assessment = AK_RetentionAssessment"
    "check_authorises a assessment (ex_policy expected) (ex_detector expected) = Inr ()"
    "\<forall>b \<in> set (ex_declared expected). db_record_digest b = va_digest a \<longrightarrow> db_assessment_digest b = s"
    unfolding evidence_permitted_def by blast
  have "resolve_artifact sha store (closure_digest_str d) CA_RetentionBinding expected = Inr binding"
    "resolve_artifact sha store s CA_RetentionAssessment expected = Inr assessment"
    using c(3,4,7,8) resolve_ungated [of CA_RetentionBinding AK_RetentionBinding]
      resolve_ungated [of CA_RetentionAssessment AK_RetentionAssessment] by simp_all
  moreover have "re_resolve store (closure_digest_str d) \<noteq> None" "re_resolve store s \<noteq> None"
    using c(3,7) by (simp_all add: retained_def)
  ultimately show "authorised sha store a expected = Inr ()"
    using c by (simp add: authorised.simps Let_def unwrap_or_default_def)
qed

lemma resolve_artifact_iff:
  "resolve_artifact sha store d role expected = Inr a \<longleftrightarrow>
     retained sha store d a \<and> accepts role (va_kind a) \<and> (gate (va_kind a) = Gated \<longrightarrow> evidence_permitted sha store expected a)"
  by (simp add: resolve_artifact_Inr authorised_Inr)

section \<open>What an assessment permits\<close>

definition ascending_texts :: "ValidatedArtifact \<Rightarrow> string \<Rightarrow> string list \<Rightarrow> bool" where
  "ascending_texts a name ts \<longleftrightarrow>
     va_pointer a (CHR ''/'' # name) = Some (VArray (map VString ts)) \<and> sorted_wrt (<) ts"

definition withholds ::
  "ValidatedArtifact \<Rightarrow> ValidatedArtifact \<Rightarrow> string \<Rightarrow> string \<Rightarrow> RequiredFields option \<Rightarrow> string list \<Rightarrow> bool" where
  "withholds record assessment policy outcome required assessed \<longleftrightarrow>
     va_str_at record ''/redactionPolicyVersion'' = Some policy
     \<and> va_str_at record ''/outcome'' = Some outcome \<and> outcome \<noteq> ''RETAIN''
     \<and> va_pointer record ''/coverageComplete'' = va_pointer assessment ''/coverageComplete''
     \<and> (\<exists>blocked kept. ascending_texts record ''blockedFields'' blocked \<and> blocked \<noteq> []
          \<and> va_pointer record ''/retainedFields'' = Some (VObject kept)
          \<and> computed_partition (required_set record True required) (set assessed) (set (flagged_fields assessment))
               (set (map fst kept)) (set blocked))"

definition permits :: "ValidatedArtifact \<Rightarrow> ValidatedArtifact \<Rightarrow> string \<Rightarrow> ExpectedDetector \<Rightarrow> bool" where
  "permits record assessment policy detector \<longleftrightarrow>
     va_str_at assessment ''/detector/id'' = Some (ed_id detector)
     \<and> va_str_at assessment ''/detector/version'' = Some (ed_version detector)
     \<and> va_str_at assessment ''/detector/configDigest'' = Some (ed_config_digest detector)
     \<and> va_str_at assessment ''/redactionPolicyVersion'' = Some policy
     \<and> (\<exists>reduced required assessed outcome.
          denominator_of record = Inr (reduced, required)
          \<and> ascending_texts assessment ''assessedFields'' assessed
          \<and> list_all (in_required required) assessed
          \<and> va_str_at assessment ''/outcome'' = Some outcome
          \<and> set (flagged_fields assessment) \<subseteq> set assessed
          \<and> (va_pointer assessment ''/coverageComplete'' = Some (VBool True) \<longrightarrow>
               required_set record reduced required \<subseteq> set assessed)
          \<and> (if reduced then withholds record assessment policy outcome required assessed else outcome = ''RETAIN''))"

lemma ordered_unique_at_Inr: "ordered_unique_at a name = Inr ts \<longleftrightarrow> ascending_texts a name ts"
  unfolding ordered_unique_at_def ascending_texts_def
  by (auto simp: ordered_items bind_eq_Some_conv)

lemma member_str_at_Inr: "member_str_at a name = Inr s \<longleftrightarrow> va_str_at a (CHR ''/'' # name) = Some s"
  by (simp add: member_str_at_def)

lemma check_detector_Inr:
  "check_detector assessment detector = Inr () \<longleftrightarrow>
     va_str_at assessment ''/detector/id'' = Some (ed_id detector)
     \<and> va_str_at assessment ''/detector/version'' = Some (ed_version detector)
     \<and> va_str_at assessment ''/detector/configDigest'' = Some (ed_config_digest detector)"
  by (auto simp: check_detector_def split: if_splits)

lemma check_coverage_Inr:
  "check_coverage assessment always present' assessed = Inr () \<longleftrightarrow>
     (va_pointer assessment ''/coverageComplete'' = Some (VBool True) \<longrightarrow> set always \<union> set present' \<subseteq> set assessed)"
  by (auto simp: check_coverage_def)

lemma check_reduced_Inr:
  assumes "set (flagged_fields assessment) \<subseteq> set assessed"
  shows "check_reduced record assessment policy outcome required assessed (flagged_fields assessment) = Inr () \<longleftrightarrow>
    withholds record assessment policy outcome required assessed"
proof -
  have part: "check_partition required assessed (flagged_fields assessment) (map fst kept) blocked = Inr () \<longleftrightarrow>
      computed_partition (required_set record True required) (set assessed) (set (flagged_fields assessment))
        (set (map fst kept)) (set blocked)"
    if "ascending_texts record ''blockedFields'' blocked" "va_pointer record ''/retainedFields'' = Some (VObject kept)"
    for kept blocked
    using that assms by (intro check_partition_iff) (auto simp: ordered_unique_at_Inr)
  have "check_reduced record assessment policy outcome required assessed (flagged_fields assessment) = Inr () \<longleftrightarrow>
      va_str_at record ''/redactionPolicyVersion'' = Some policy
      \<and> va_str_at record ''/outcome'' = Some outcome \<and> outcome \<noteq> ''RETAIN''
      \<and> va_pointer record ''/coverageComplete'' = va_pointer assessment ''/coverageComplete''
      \<and> (\<exists>blocked kept. ascending_texts record ''blockedFields'' blocked \<and> blocked \<noteq> []
           \<and> va_pointer record ''/retainedFields'' = Some (VObject kept)
           \<and> check_partition required assessed (flagged_fields assessment) (map fst kept) blocked = Inr ())"
    unfolding check_reduced_def
    by (auto simp: member_str_at_Inr ordered_unique_at_Inr bind_eq_Some_conv simp del: map_map split: if_splits)
  then show ?thesis unfolding withholds_def using part by blast
qed

lemma check_authorises_groups:
  "check_authorises record assessment policy detector = Inr () \<longleftrightarrow>
     check_detector assessment detector = Inr () \<and> member_str_at assessment ''redactionPolicyVersion'' = Inr policy
     \<and> (\<exists>reduced required assessed outcome.
          denominator_of record = Inr (reduced, required) \<and> ordered_unique_at assessment ''assessedFields'' = Inr assessed
          \<and> list_all (in_required required) assessed \<and> member_str_at assessment ''outcome'' = Inr outcome
          \<and> set (flagged_fields assessment) \<subseteq> set assessed
          \<and> check_coverage assessment (always_of required) (present_now record reduced required) assessed = Inr ()
          \<and> (if reduced
              then check_reduced record assessment policy outcome required assessed (flagged_fields assessment) = Inr ()
              else outcome = ''RETAIN''))" (is "?checked \<longleftrightarrow> ?groups")
proof
  assume ?checked
  then show ?groups by (auto simp: check_authorises_def Let_def list_all_iff split: if_splits)
next
  assume ?groups
  then show ?checked by (auto simp: check_authorises_def Let_def list_all_iff subset_iff split: if_splits)
qed

lemma check_authorises_Inr:
  "check_authorises record assessment policy detector = Inr () \<longleftrightarrow> permits record assessment policy detector"
proof -
  have "(if reduced then check_reduced record assessment policy outcome required assessed (flagged_fields assessment) = Inr ()
         else outcome = ''RETAIN'')
      \<longleftrightarrow> (if reduced then withholds record assessment policy outcome required assessed else outcome = ''RETAIN'')"
    if "set (flagged_fields assessment) \<subseteq> set assessed" for reduced outcome required assessed
    using check_reduced_Inr [OF that] by simp
  then show ?thesis
    unfolding check_authorises_groups permits_def check_detector_Inr member_str_at_Inr ordered_unique_at_Inr
      check_coverage_Inr required_set_def by (simp cong: conj_cong)
qed

section \<open>Reading a reduced record\<close>

lemma reduced_closed_form: "check_closed_form declared v = Inr (AK_ReducedSourceRecord k) \<Longrightarrow> declared = ''github-reduced-source-record''"
  by (auto simp: check_closed_form_def split: option.splits if_splits)

lemma reduced_denominator:
  assumes "validate sha d v = Inr a" "is_reduced (va_kind a)" "denominator_of a = Inr (reduced, required)"
  shows reduced
proof -
  obtain k where "va_kind a = AK_ReducedSourceRecord k" using assms(2) by (cases "va_kind a") auto
  then have "va_str_at a ''/sourceKind'' = Some ''github-reduced-source-record''"
    using assms(1) reduced_closed_form by (auto simp: validate_Inr va_str_at_def str_at_def)
  then show ?thesis using assms(3) by (auto simp: denominator_of_def)
qed

definition examined :: "ValidatedArtifact \<Rightarrow> string \<Rightarrow> bool" where
  "examined assessment p \<longleftrightarrow>
     (\<exists>assessed. ascending_texts assessment ''assessedFields'' assessed \<and> p \<in> set assessed)
     \<and> p \<notin> set (flagged_fields assessment)"

lemma permitted_read:
  assumes v: "validate sha d x = Inr a" and k: "is_reduced (va_kind a)"
    and p: "permits a assessment policy detector" and r: "read_pointer a ptr = Inr val"
  shows "examined assessment ptr"
proof -
  obtain reduced required assessed outcome where c: "denominator_of a = Inr (reduced, required)"
    "ascending_texts assessment ''assessedFields'' assessed"
    "if reduced then withholds a assessment policy outcome required assessed else outcome = ''RETAIN''"
    using p unfolding permits_def by blast
  have "withholds a assessment policy outcome required assessed" using c(3) reduced_denominator [OF v k c(1)] by simp
  then obtain blocked kept where w: "ascending_texts a ''blockedFields'' blocked"
    "va_pointer a ''/retainedFields'' = Some (VObject kept)"
    "computed_partition (required_set a True required) (set assessed) (set (flagged_fields assessment))
       (set (map fst kept)) (set blocked)"
    unfolding withholds_def by blast
  have "map_of kept ptr = Some val" using r k w(2) by (auto simp: read_pointer_def split: if_splits)
  then have "ptr \<in> set (map fst kept)" by (metis domI dom_map_of_conv_image_fst list.set_map)
  then show ?thesis using w(3) c(2) unfolding computed_partition_def examined_def by blast
qed

section \<open>The basis\<close>

definition reads ::
  "(bytes \<Rightarrow> bytes) \<Rightarrow> RetainedEvidence \<Rightarrow> Expected \<Rightarrow> DecisionInput \<Rightarrow> ObservedField \<times> Value \<Rightarrow> bool" where
  "reads sha store expected input = (\<lambda>(ob, v).
     \<exists>a. resolve_artifact sha store (di_source_digest input) CA_GatedSource expected = Inr a
       \<and> concerns_source a (di_source_digest input) (di_locator input) = Inr ()
       \<and> read_pointer a (di_pointer input) = Inr v
       \<and> ob = \<lparr>of_surface = surface (va_kind a), of_pointer = di_pointer input, of_digest = di_source_digest input\<rparr>)"

lemma check_input_reads:
  "reads sha store expected input (ob, v) \<Longrightarrow>
     check_input sha store expected st input = st\<lparr>cb_values := cb_values st @ [v], cb_observed := cb_observed st @ [ob]\<rparr>"
  by (auto simp: check_input_def reads_def Let_def)

lemma check_input_refuses:
  assumes "\<And>r. \<not> reads sha store expected input r"
  shows "\<exists>u. cb_why (check_input sha store expected st input) = cb_why st @ [u]"
proof (cases "resolve_artifact sha store (di_source_digest input) CA_GatedSource expected")
  case (Inr a)
  then show ?thesis
  proof (cases "read_pointer a (di_pointer input)")
    case r: (Inr v)
    have "concerns_source a (di_source_digest input) (di_locator input) \<noteq> Inr ()"
      using assms [of "(_, v)"] Inr r unfolding reads_def by blast
    then show ?thesis using Inr
      by (cases "concerns_source a (di_source_digest input) (di_locator input)") (auto simp: check_input_def)
  qed (use Inr in \<open>auto simp: check_input_def Let_def split: sum.split\<close>)
qed (simp add: check_input_def)

lemma check_inputs_why:
  "cb_why (foldl (check_input sha store expected) st inputs) = [] \<longleftrightarrow>
     cb_why st = [] \<and> (\<exists>rs. list_all2 (reads sha store expected) inputs rs)"
proof (induction inputs arbitrary: st)
  case (Cons input inputs)
  show ?case
  proof (cases "\<exists>r. reads sha store expected input r")
    case True
    then obtain ob v where r: "reads sha store expected input (ob, v)" by (metis surj_pair)
    have "(\<exists>rs. list_all2 (reads sha store expected) (input # inputs) rs) \<longleftrightarrow>
        (\<exists>rs. list_all2 (reads sha store expected) inputs rs)" using r by (metis list_all2_Cons1 list_all2_Cons)
    then show ?thesis using check_input_reads [OF r, of st] Cons.IH by simp
  next
    case False
    then obtain u where "cb_why (check_input sha store expected st input) = cb_why st @ [u]"
      using check_input_refuses [of sha store expected input st] by blast
    then show ?thesis using Cons.IH False by (simp add: list_all2_Cons1)
  qed
qed (auto intro: exI [of _ "[]"])

lemma check_inputs_values:
  "list_all2 (reads sha store expected) inputs rs \<Longrightarrow>
     foldl (check_input sha store expected) st inputs =
       st\<lparr>cb_values := cb_values st @ map snd rs, cb_observed := cb_observed st @ map fst rs\<rparr>"
proof (induction inputs arbitrary: st rs)
  case (Cons input inputs)
  then obtain ob v rs' where rs: "rs = (ob, v) # rs'" "reads sha store expected input (ob, v)"
    "list_all2 (reads sha store expected) inputs rs'" by (auto simp: list_all2_Cons1)
  then show ?case using Cons.IH [OF rs(3)] check_input_reads [OF rs(2)] by simp
qed simp

definition derived_hold ::
  "(bytes \<Rightarrow> bytes) \<Rightarrow> (string \<Rightarrow> string) \<Rightarrow> RetainedEvidence \<Rightarrow> Expected \<Rightarrow> DerivedFact list \<Rightarrow> bool" where
  "derived_hold sha include_str store expected claims \<longleftrightarrow>
     list_all (\<lambda>claim. check_derived sha include_str store claim expected = []) claims"

definition query_holds ::
  "(bytes \<Rightarrow> bytes) \<Rightarrow> (string \<Rightarrow> Value option) \<Rightarrow> (string \<Rightarrow> string) \<Rightarrow> RetainedEvidence \<Rightarrow> DecisionBasis \<Rightarrow> bool" where
  "query_holds sha from_str include_str store basis =
     (case bs_expected_query basis of
        Some q \<Rightarrow> check_absence sha from_str include_str store (expected_of basis) (bs_observation_id basis) q = []
      | None \<Rightarrow> True)"

definition basis_holds ::
  "(bytes \<Rightarrow> bytes) \<Rightarrow> (string \<Rightarrow> Value option) \<Rightarrow> (string \<Rightarrow> string) \<Rightarrow> RetainedEvidence \<Rightarrow> DecisionBasis
     \<Rightarrow> (ObservedField \<times> Value) list \<Rightarrow> bool" where
  "basis_holds sha from_str include_str store basis rs \<longleftrightarrow>
     list_all2 (reads sha store (expected_of basis)) (bs_inputs basis) rs
     \<and> derived_hold sha include_str store (expected_of basis) (bs_derived basis)
     \<and> query_holds sha from_str include_str store basis"

lemma check_basis_why:
  "cb_why (check_basis sha from_str include_str basis store) = [] \<longleftrightarrow>
     (\<exists>rs. basis_holds sha from_str include_str store basis rs)"
  unfolding check_basis_def basis_holds_def derived_hold_def query_holds_def Let_def
  by (auto simp: check_inputs_why list_all_iff split: option.split)

lemma check_basis_values:
  assumes "basis_holds sha from_str include_str store basis rs"
  shows "check_basis sha from_str include_str basis store =
    \<lparr>cb_why = [], cb_values = map snd rs, cb_observed = map fst rs, cb_some_input_did_not_resolve = False\<rparr>"
  using assms check_inputs_values [of sha store "expected_of basis" "bs_inputs basis" rs]
  unfolding check_basis_def basis_holds_def derived_hold_def query_holds_def Let_def
  by (auto simp: list_all_iff split: option.splits)

lemma list_all2_functional:
  assumes "list_all2 P xs ys" "list_all2 Q xs zs" and "\<And>x y z. P x y \<Longrightarrow> Q x z \<Longrightarrow> y = z"
  shows "ys = zs"
  using assms(1,2)
proof (induction xs arbitrary: ys zs)
  case (Cons x xs)
  obtain y ys' where y: "ys = y # ys'" "P x y" "list_all2 P xs ys'" using Cons.prems(1) unfolding list_all2_Cons1 by blast
  obtain z zs' where z: "zs = z # zs'" "Q x z" "list_all2 Q xs zs'" using Cons.prems(2) unfolding list_all2_Cons1 by blast
  show ?case using assms(3) [OF y(2) z(2)] Cons.IH [OF y(3) z(3)] y(1) z(1) by simp
qed simp

lemma reads_functional: "reads sha store expected input r \<Longrightarrow> reads sha store expected input r' \<Longrightarrow> r = r'"
  by (auto simp: reads_def split: prod.splits)

lemma admissibility_Yes:
  "admissibility sha from_str include_str profile basis store = Adm_Yes vs \<longleftrightarrow>
     (\<exists>rs. basis_holds sha from_str include_str store basis rs \<and> vs = map snd rs
        \<and> missing_requirements profile basis (map fst rs) = []
        \<and> unshared_subjects include_str profile basis (map fst rs) = [])"
proof (cases "\<exists>rs. basis_holds sha from_str include_str store basis rs")
  case True
  then obtain rs where rs: "basis_holds sha from_str include_str store basis rs" by blast
  have u: "rs' = rs" if "basis_holds sha from_str include_str store basis rs'" for rs'
  proof -
    have "list_all2 (reads sha store (expected_of basis)) (bs_inputs basis) rs'"
      "list_all2 (reads sha store (expected_of basis)) (bs_inputs basis) rs"
      using that rs by (simp_all add: basis_holds_def)
    then show ?thesis by (rule list_all2_functional) (rule reads_functional)
  qed
  have "admissibility sha from_str include_str profile basis store = Adm_Yes vs \<longleftrightarrow>
      vs = map snd rs \<and> missing_requirements profile basis (map fst rs) = []
      \<and> unshared_subjects include_str profile basis (map fst rs) = []"
    unfolding admissibility_def check_basis_values [OF rs] by (auto simp: Let_def)
  then show ?thesis using u rs by blast
next
  case False
  then have "cb_why (check_basis sha from_str include_str basis store) \<noteq> []" by (simp add: check_basis_why)
  then show ?thesis using False by (simp add: admissibility_def Let_def)
qed

lemma missing_requirements_Nil:
  "missing_requirements profile basis obs = [] \<longleftrightarrow> list_all (\<lambda>r. satisfied basis obs (br_needs r)) (profile_requires profile)"
  by (simp add: missing_requirements_def filter_empty_conv list_all_iff)

text \<open>For a check the two required fields come from one record.\<close>

definition one_check :: "ObservedField list \<Rightarrow> bool" where
  "one_check obs \<longleftrightarrow>
     (\<exists>x \<in> set obs. \<exists>y \<in> set obs. of_digest x = of_digest y
        \<and> observes ''github-actions-check'' ''/headSha'' ''/head_sha'' x
        \<and> observes ''github-actions-check'' ''/conclusion'' ''/conclusion'' y)"

lemma shared_pair: "(h \<noteq> [] \<and> c \<noteq> []) \<and> \<not> unshared [h, c] \<longleftrightarrow> set h \<inter> set c \<noteq> {}"
  by (cases h; cases c) (auto simp: list_ex_iff)

lemma check_profile_iff:
  "missing_requirements DP_Check basis obs = [] \<and> unshared_subjects include_str DP_Check basis obs = [] \<longleftrightarrow> one_check obs"
proof -
  let ?h = "map of_digest (filter (observes ''github-actions-check'' ''/headSha'' ''/head_sha'') obs)"
  let ?c = "map of_digest (filter (observes ''github-actions-check'' ''/conclusion'' ''/conclusion'') obs)"
  have "by_surface include_str DP_Check basis obs = [(''github-actions-check'', [?h, ?c])]"
    by (simp add: by_surface_def CHECK_BASIS_def btree_push_def)
  then have "unshared_subjects include_str DP_Check basis obs = [] \<longleftrightarrow> \<not> unshared [?h, ?c]"
    by (simp add: unshared_subjects_def)
  moreover have "missing_requirements DP_Check basis obs = [] \<longleftrightarrow> ?h \<noteq> [] \<and> ?c \<noteq> []"
    by (auto simp: missing_requirements_Nil CHECK_BASIS_def list_ex_iff filter_empty_conv)
  moreover have "one_check obs \<longleftrightarrow> set ?h \<inter> set ?c \<noteq> {}" unfolding one_check_def by (auto simp: image_iff)
  ultimately show ?thesis using shared_pair [of ?h ?c] by blast
qed

section \<open>One digest, one object\<close>

lemma digest_determines:
  assumes "inj sha" "wf_value v" "wf_value w" "digest sha v = Inr c" "digest sha w = Inr c'"
    "closure_digest_str c = closure_digest_str c'"
  shows "v = w"
proof -
  obtain bs bs' where b: "canonicalize v = Inr bs" "canonicalize w = Inr bs'"
    "c = digest_of_canonical_bytes sha bs" "c' = digest_of_canonical_bytes sha bs'"
    using assms(4,5) by (auto simp: digest_def)
  have "sha bs = sha bs'" using assms(6) b(3,4) by (simp add: hex_lower_inj digest_of_canonical_bytes_def)
  then have "bs = bs'" using assms(1) by (simp add: inj_eq)
  then show ?thesis using canonicalize_inj [OF assms(2,3) b(1)] b(2) by simp
qed

definition wf_store :: "RetainedEvidence \<Rightarrow> bool" where
  "wf_store store \<longleftrightarrow> (\<forall>d v. re_resolve store d = Some v \<longrightarrow> wf_value v)"

lemma retained_determines:
  assumes "inj sha" "wf_store s1" "wf_store s2" "retained sha s1 d a" "retained sha s2 d b"
  shows "a = b"
proof -
  have "va_value a = va_value b"
    using assms(4,5) digest_determines [OF assms(1)] assms(2,3) unfolding retained_def validate_Inr wf_store_def by metis
  then show ?thesis using assms(4,5) by (simp add: retained_def)
qed

lemma reads_determined:
  assumes "inj sha" "wf_store s1" "wf_store s2" "reads sha s1 expected input r" "reads sha s2 expected input r'"
  shows "r = r'"
proof -
  obtain a b where "retained sha s1 (di_source_digest input) a" "retained sha s2 (di_source_digest input) b"
    "reads sha s1 expected input r" "read_pointer a (di_pointer input) = Inr (snd r)"
    "read_pointer b (di_pointer input) = Inr (snd r')"
    "fst r = \<lparr>of_surface = surface (va_kind a), of_pointer = di_pointer input, of_digest = di_source_digest input\<rparr>"
    "fst r' = \<lparr>of_surface = surface (va_kind b), of_pointer = di_pointer input, of_digest = di_source_digest input\<rparr>"
    using assms(4,5) by (auto simp: reads_def resolve_artifact_iff split: prod.splits)
  then show ?thesis using retained_determines [OF assms(1-3)] by (metis prod.expand sum.inject(2))
qed

end
