(* ===== verification/Closure_Bracket.thy ===== *)
theory Closure_Bracket
  imports Closure_Evidence
begin

text \<open>
  The two head reads around an evaluation and the query behind an absence: what resolves, and why comparing
  two frozen instants as texts compares them in time.
\<close>

section \<open>Instants in time\<close>

definition instant_key :: "Instant \<Rightarrow> nat list" where
  "instant_key i = [i_year i, i_month i, i_day i, i_hour i, i_minute i, i_second i]"

lemma digit_order: "a < 10 \<Longrightarrow> b < 10 \<Longrightarrow> (char_of (48 + a) :: char) < char_of (48 + b) \<longleftrightarrow> (a::nat) < b"
  by (simp add: less_char_def)

lemma digit_inj: "a < 10 \<Longrightarrow> b < 10 \<Longrightarrow> (char_of (48 + a) :: char) = char_of (48 + b) \<longleftrightarrow> (a::nat) = b"
  by (metis digit_order less_irrefl linorder_neqE_nat)

lemma radix_order:
  fixes m :: nat
  assumes "0 < m"
  shows "a < b \<longleftrightarrow> a div m < b div m \<or> a div m = b div m \<and> a mod m < b mod m"
proof -
  have a: "a = m * (a div m) + a mod m" and b: "b = m * (b div m) + b mod m" by simp_all
  have "m * q + r < m * q' + r'" if "q < q'" "r < m" for q r q' r' :: nat
  proof -
    have "m * Suc q \<le> m * q'" using that(1) by (intro mult_le_mono2) simp
    then show ?thesis using that(2) by simp
  qed
  then have lt: "x < y" if "x div m < y div m" for x y :: nat
    using that assms by (metis mod_less_divisor mult_div_mod_eq)
  consider "a div m < b div m" | "b div m < a div m" | "a div m = b div m" by linarith
  then show ?thesis
  proof cases
    case 3
    then show ?thesis using a b by (metis add_less_cancel_left less_irrefl)
  qed (use lt [of a b] lt [of b a] in \<open>auto dest: less_trans\<close>)
qed

lemma radix_eq: "a = b \<longleftrightarrow> a div m = b div m \<and> a mod m = (b::nat) mod m"
  by (metis mult_div_mod_eq)

lemma two_digits_order:
  assumes "a < 100" "b < 100"
  shows "two_digits a @ x \<le> two_digits b @ y \<longleftrightarrow> a < b \<or> a = b \<and> x \<le> y"
proof -
  have d: "a div 10 < 10" "b div 10 < 10" "a mod 10 < 10" "b mod 10 < 10" using assms by simp_all
  show ?thesis unfolding two_digits_def using radix_order [of 10 a b] radix_eq [of a b 10]
    by (simp only: append_Cons append_Nil Cons_le_Cons digit_order [OF d(1,2)] digit_order [OF d(3,4)]
        digit_inj [OF d(1,2)] digit_inj [OF d(3,4)]) auto
qed

lemma four_digits_two: "four_digits n = two_digits (n div 100) @ two_digits (n mod 100)"
proof -
  have "n div 1000 = n div 100 div 10" "n div 10 mod 10 = n mod 100 div 10" "n mod 10 = n mod 100 mod 10"
    by (simp_all add: div_mult2_eq [symmetric] mod_mult2_eq [of n 10 10, simplified] mod_mod_cancel)
  then show ?thesis by (simp add: four_digits_def two_digits_def)
qed

lemma four_digits_order:
  assumes "a < 10000" "b < 10000"
  shows "four_digits a @ x \<le> four_digits b @ y \<longleftrightarrow> a < b \<or> a = b \<and> x \<le> y"
proof -
  have d: "a div 100 < 100" "b div 100 < 100" "a mod 100 < 100" "b mod 100 < 100" using assms by simp_all
  show ?thesis unfolding four_digits_two append_assoc two_digits_order [OF d(1,2)] two_digits_order [OF d(3,4)]
    using radix_order [of 100 a b] radix_eq [of a b 100] by auto
qed

text \<open>Byte order of the frozen spelling is time order.\<close>

lemma instant_order:
  assumes "instant_exists i" "instant_exists j"
  shows "instant_text i \<le> instant_text j \<longleftrightarrow> instant_key i \<le> instant_key j"
proof -
  have "days_in y m \<le> 31" for y m by (simp add: days_in_def)
  then have "i_day i \<le> 31" "i_day j \<le> 31" using assms by (auto simp: instant_exists_def intro: le_trans)
  then have b: "i_year i < 10000" "i_year j < 10000" "i_month i < 100" "i_month j < 100" "i_day i < 100" "i_day j < 100"
    "i_hour i < 100" "i_hour j < 100" "i_minute i < 100" "i_minute j < 100" "i_second i < 100" "i_second j < 100"
    using assms by (auto simp: instant_exists_def)
  show ?thesis
    unfolding instant_text_def instant_key_def four_digits_order [OF b(1,2)]
    by (simp add: two_digits_order b)
qed

section \<open>Head reads\<close>

definition subject_expected :: "ReadSubject \<Rightarrow> Expected" where
  "subject_expected subject =
     \<lparr>ex_declared = [], ex_detector = sj_expected_detector subject, ex_policy = sj_expected_redaction_policy subject\<rparr>"

definition head_read ::
  "(bytes \<Rightarrow> bytes) \<Rightarrow> RetainedEvidence \<Rightarrow> ReadSubject \<Rightarrow> string \<Rightarrow> string \<Rightarrow> ObservedHead \<Rightarrow> bool" where
  "head_read sha store subject role e h \<longleftrightarrow>
     (\<exists>event sd snapshot.
        retained sha store e event \<and> va_kind event = AK_HeadReadEvent
        \<and> va_str_at event ''/role'' = Some role \<and> va_str_at event ''/acquisition'' = Some ''AVAILABLE''
        \<and> va_str_at event ''/snapshotDigest'' = Some sd \<and> va_str_at event ''/observedAt'' = Some (oh_observed_at h)
        \<and> retained sha store sd snapshot \<and> va_kind snapshot = AK_CompleteProjection ''github-pull-request-head''
        \<and> evidence_permitted sha store (subject_expected subject) snapshot
        \<and> va_str_at snapshot ''/repository'' = Some (sj_repository subject)
        \<and> va_str_at snapshot ''/pullRequest'' = Some (sj_pull_request subject)
        \<and> va_str_at snapshot ''/headSha'' = Some (oh_sha h))"

lemma resolve_head_read_Inr:
  "resolve_head_read sha store e role subject = Inr h \<longleftrightarrow> head_read sha store subject role e h"
proof -
  have "resolve_head_read sha store e role subject = Inr h \<longleftrightarrow>
      (\<exists>event sd snapshot.
        resolve_artifact sha store e CA_HeadReadEvent (subject_expected subject) = Inr event
        \<and> va_str_at event ''/role'' = Some role \<and> va_str_at event ''/acquisition'' = Some ''AVAILABLE''
        \<and> va_str_at event ''/snapshotDigest'' = Some sd \<and> va_str_at event ''/observedAt'' = Some (oh_observed_at h)
        \<and> resolve_artifact sha store sd CA_SubjectHead (subject_expected subject) = Inr snapshot
        \<and> va_str_at snapshot ''/repository'' = Some (sj_repository subject)
        \<and> va_str_at snapshot ''/pullRequest'' = Some (sj_pull_request subject)
        \<and> va_str_at snapshot ''/headSha'' = Some (oh_sha h))"
    unfolding resolve_head_read_def subject_expected_def Let_def by (cases h) (auto split: if_splits)
  then show ?thesis unfolding head_read_def
    by (simp add: resolve_artifact_iff cong: conj_cong)
qed

lemma closed_form_event:
  assumes "check_closed_form declared v = Inr AK_HeadReadEvent" "str_at v ''/acquisition'' = Some ''AVAILABLE''"
  shows "fits (VK_Object HEAD_READ_EVENT_AVAILABLE) v"
  using assms unfolding check_closed_form_def
  by (auto simp: check_shape_iff(1) split: option.splits if_splits)

lemma head_read_instant:
  assumes "head_read sha store subject role e h"
  obtains i where "instant_exists i" "oh_observed_at h = instant_text i"
proof -
  obtain event where c: "retained sha store e event" "va_kind event = AK_HeadReadEvent"
    "va_str_at event ''/acquisition'' = Some ''AVAILABLE''" "va_str_at event ''/observedAt'' = Some (oh_observed_at h)"
    using assms unfolding head_read_def by blast
  then have f: "fits (VK_Object HEAD_READ_EVENT_AVAILABLE) (va_value event)"
    using closed_form_event by (auto simp: retained_def validate_Inr va_str_at_def str_at_def)
  then obtain object where v: "va_value event = VObject object" by (auto simp: fits.simps)
  have "Member ''observedAt'' True VK_Timestamp \<in> set HEAD_READ_EVENT_AVAILABLE"
    by (simp add: HEAD_READ_EVENT_AVAILABLE_def req_kind_def)
  then obtain w where "map_of object ''observedAt'' = Some w" "fits VK_Timestamp w"
    using required_member [OF f [unfolded v]] by blast
  then show ?thesis using that c(4) pointer_key [of "''observedAt''" "va_value event"]
    by (auto simp: va_str_at_def v fits.simps)
qed

definition bracketed ::
  "(bytes \<Rightarrow> bytes) \<Rightarrow> RetainedEvidence \<Rightarrow> ReadSubject \<Rightarrow> SubjectRead \<Rightarrow> ObservedHead \<Rightarrow> ObservedHead \<Rightarrow> bool" where
  "bracketed sha store subject read before after \<longleftrightarrow>
     (\<exists>e1 e2 i1 i2. sr_before read = HR_Observed e1 \<and> sr_after read = HR_Observed e2
        \<and> head_read sha store subject ''HEAD_BEFORE'' e1 before \<and> head_read sha store subject ''HEAD_AFTER'' e2 after
        \<and> instant_exists i1 \<and> oh_observed_at before = instant_text i1
        \<and> instant_exists i2 \<and> oh_observed_at after = instant_text i2 \<and> instant_key i1 \<le> instant_key i2)"

lemma read_slot_Inr:
  "read_slot sha store subject (slot, role, r) = Inr h \<longleftrightarrow>
     (\<exists>e. r = HR_Observed e \<and> head_read sha store subject role e h)"
  by (cases r) (simp_all add: read_slot_def resolve_head_read_Inr)

lemma bracketed_reads:
  "bracketed sha store subject read before after \<longleftrightarrow>
     read_slot sha store subject (s1, ''HEAD_BEFORE'', sr_before read) = Inr before
     \<and> read_slot sha store subject (s2, ''HEAD_AFTER'', sr_after read) = Inr after
     \<and> oh_observed_at before \<le> oh_observed_at after" (is "_ \<longleftrightarrow> ?slots")
proof
  assume "bracketed sha store subject read before after"
  then show ?slots unfolding bracketed_def read_slot_Inr using instant_order by auto
next
  assume s: ?slots
  then obtain e1 e2 where r: "sr_before read = HR_Observed e1" "head_read sha store subject ''HEAD_BEFORE'' e1 before"
    "sr_after read = HR_Observed e2" "head_read sha store subject ''HEAD_AFTER'' e2 after"
    unfolding read_slot_Inr by blast
  obtain i1 where i1: "instant_exists i1" "oh_observed_at before = instant_text i1" using head_read_instant [OF r(2)] .
  obtain i2 where i2: "instant_exists i2" "oh_observed_at after = instant_text i2" using head_read_instant [OF r(4)] .
  have "instant_key i1 \<le> instant_key i2" using s i1 i2 instant_order by auto
  then show "bracketed sha store subject read before after" unfolding bracketed_def using r i1 i2 by blast
qed

lemma bracketed_functional:
  "bracketed sha store subject read b a \<Longrightarrow> bracketed sha store subject read b' a' \<Longrightarrow> b = b' \<and> a = a'"
  unfolding bracketed_reads [where ?s1.0 = "[]" and ?s2.0 = "[]"] by auto

lemma staleness_cases:
  "staleness sha subject read store = v \<and> (v = NotStale \<or> (\<exists>s. v = Stale s)) \<longleftrightarrow>
     (\<exists>before after. bracketed sha store subject read before after
        \<and> v = (if oh_sha before \<noteq> sj_expected_sha subject then Stale (oh_sha before)
               else if oh_sha after \<noteq> sj_expected_sha subject then Stale (oh_sha after) else NotStale))"
  (is "?verdict \<longleftrightarrow> ?bracket")
proof -
  let ?r1 = "read_slot sha store subject (''head_before'', ''HEAD_BEFORE'', sr_before read)"
  let ?r2 = "read_slot sha store subject (''head_after'', ''HEAD_AFTER'', sr_after read)"
  show ?thesis
  proof (cases "\<exists>b a. ?r1 = Inr b \<and> ?r2 = Inr a")
    case True
    then obtain b a where r: "?r1 = Inr b" "?r2 = Inr a" by blast
    then show ?thesis
      unfolding bracketed_reads [where ?s1.0 = "''head_before''" and ?s2.0 = "''head_after''"]
      by (auto simp: staleness_def Let_def rights_def lefts_def map_filter_simps not_less)
  next
    case False
    then have "lefts [?r1, ?r2] \<noteq> []" by (cases ?r1; cases ?r2) (auto simp: lefts_def map_filter_simps)
    then show ?thesis using False
      unfolding bracketed_reads [where ?s1.0 = "''head_before''" and ?s2.0 = "''head_after''"]
      by (auto simp: staleness_def Let_def)
  qed
qed

section \<open>Absence\<close>

definition candidate_of :: "ValidatedArtifact \<Rightarrow> Candidate" where
  "candidate_of a = \<lparr>cd_declared_digest = va_digest a, cd_snapshot = va_value a\<rparr>"

definition loaded :: "(bytes \<Rightarrow> bytes) \<Rightarrow> RetainedEvidence \<Rightarrow> Expected \<Rightarrow> string \<Rightarrow> Candidate \<Rightarrow> bool" where
  "loaded sha store expected d c \<longleftrightarrow>
     (\<exists>a. retained sha store d a \<and> is_projection (va_kind a) \<and> evidence_permitted sha store expected a \<and> c = candidate_of a)"

lemma load_candidate_Inr: "load_candidate sha store expected d = Inr c \<longleftrightarrow> loaded sha store expected d c"
proof -
  have m: "matcher_candidate a = Some c \<longleftrightarrow> c = candidate_of a" "gate (va_kind a) = Gated" if "is_projection (va_kind a)" for a
    using that by (cases "va_kind a"; auto simp: matcher_candidate_def candidate_of_def)+
  have "re_resolve store d \<noteq> None" if "retained sha store d a" for a using that by (simp add: retained_def)
  then show ?thesis unfolding load_candidate_def loaded_def using m
    by (auto simp: resolve_artifact_iff split: if_splits)
qed

text \<open>
  An absence with evidence behind it: a retained query snapshot about this change and this observation,
  complete and without a next page, whose matcher is bound to its implementation, whose every returned
  candidate is retained and permitted, has its registered shape, and is rejected by the matcher's predicate.
\<close>

definition absence_established ::
  "(bytes \<Rightarrow> bytes) \<Rightarrow> (string \<Rightarrow> Value option) \<Rightarrow> (string \<Rightarrow> string) \<Rightarrow> RetainedEvidence \<Rightarrow> Expected \<Rightarrow> string
     \<Rightarrow> ExpectedQuery \<Rightarrow> bool" where
  "absence_established sha from_str include_str store expected observation q \<longleftrightarrow>
     (\<exists>snapshot recorded entry cs d.
        retained sha store (eq_digest q) snapshot \<and> va_kind snapshot = AK_QuerySnapshot
        \<and> va_str_at snapshot ''/binding/repository'' = Some (qb_repository (eq_subject q))
        \<and> va_str_at snapshot ''/binding/pullRequest'' = Some (qb_pull_request (eq_subject q))
        \<and> va_str_at snapshot ''/enumeration'' = Some ''COMPLETE''
        \<and> va_pointer snapshot ''/pagination/nextPagePresent'' = Some (VBool False)
        \<and> va_str_at snapshot ''/requiredObservationId'' = Some observation
        \<and> RecordedQuerySnapshot_from_canonical sha (va_value snapshot) (va_digest snapshot) = Inr recorded
        \<and> resolve_matcher include_str (rm_id (rq_matcher recorded)) (rm_version (rq_matcher recorded)) = Inr entry
        \<and> bound_entry sha from_str entry (rq_matcher recorded) (IC_Bound d)
        \<and> list_all2 (loaded sha store expected) (rm_all_returned_snapshot_digests (rq_matcher recorded)) cs
        \<and> list_all (scorable sha entry (rm_parameters (rq_matcher recorded))) cs
        \<and> filter (selects entry (rm_parameters (rq_matcher recorded))) cs = []
        \<and> rm_matched_snapshot_digests (rq_matcher recorded) = [])"

lemma enumeration_Inr: "check_enumeration a = Inr () \<longleftrightarrow> va_str_at a ''/enumeration'' = Some ''COMPLETE''"
  by (auto simp: check_enumeration_def split: option.split)

lemma pagination_Inr: "check_pagination a = Inr () \<longleftrightarrow> va_pointer a ''/pagination/nextPagePresent'' = Some (VBool False)"
  by (auto simp: check_pagination_def split: option.splits Value.splits bool.splits)

lemma loaded_digests: "list_all2 (loaded sha store expected) ds cs \<Longrightarrow> map cd_declared_digest cs = ds"
proof (induction ds arbitrary: cs)
  case (Cons d ds)
  then show ?case by (auto simp: list_all2_Cons1 loaded_def candidate_of_def retained_def validate_Inr)
qed simp

lemma qualify_query_Inr:
  assumes "va_kind snapshot = AK_QuerySnapshot"
  shows "qualify_query sha from_str include_str snapshot store expected = Inr q \<longleftrightarrow>
    (\<exists>recorded entry cs d.
       va_str_at snapshot ''/enumeration'' = Some ''COMPLETE''
       \<and> va_pointer snapshot ''/pagination/nextPagePresent'' = Some (VBool False)
       \<and> va_str_at snapshot ''/requiredObservationId'' = Some (qq_observation q)
       \<and> RecordedQuerySnapshot_from_canonical sha (va_value snapshot) (va_digest snapshot) = Inr recorded
       \<and> resolve_matcher include_str (rm_id (rq_matcher recorded)) (rm_version (rq_matcher recorded)) = Inr entry
       \<and> bound_entry sha from_str entry (rq_matcher recorded) (IC_Bound d)
       \<and> list_all2 (loaded sha store expected) (rm_all_returned_snapshot_digests (rq_matcher recorded)) cs
       \<and> list_all (scorable sha entry (rm_parameters (rq_matcher recorded))) cs
       \<and> qq_digest q = va_digest snapshot
       \<and> qq_matched q = map cd_declared_digest (filter (selects entry (rm_parameters (rq_matcher recorded))) cs)
       \<and> qq_matched q = rm_matched_snapshot_digests (rq_matcher recorded))" (is "_ \<longleftrightarrow> ?spec")
proof
  assume "qualify_query sha from_str include_str snapshot store expected = Inr q"
  then obtain recorded cs replay where c: "check_enumeration snapshot = Inr ()" "check_pagination snapshot = Inr ()"
    "RecordedQuerySnapshot_from_canonical sha (va_value snapshot) (va_digest snapshot) = Inr recorded"
    "try_map (load_candidate sha store expected) (rm_all_returned_snapshot_digests (rq_matcher recorded)) = Inr cs"
    "recompute_matched sha from_str include_str (rq_matcher recorded) cs = Inr replay"
    "rp_implementation replay \<noteq> IC_CannotCheck" "rp_matched replay = rm_matched_snapshot_digests (rq_matcher recorded)"
    "va_str_at snapshot ''/requiredObservationId'' = Some (qq_observation q)"
    "qq_digest q = va_digest snapshot" "qq_matched q = rp_matched replay"
    using assms unfolding qualify_query_def recorded_query_def Let_def verify_matched_def
    by (auto split: if_splits)
  obtain d where "rp_implementation replay = IC_Bound d" using c(6) by (cases "rp_implementation replay") auto
  then show ?spec
    using c unfolding recompute_matched_Inr try_map_Inr enumeration_Inr pagination_Inr load_candidate_Inr by metis
next
  assume ?spec
  then obtain recorded entry cs d where c: "va_str_at snapshot ''/enumeration'' = Some ''COMPLETE''"
    "va_pointer snapshot ''/pagination/nextPagePresent'' = Some (VBool False)"
    "va_str_at snapshot ''/requiredObservationId'' = Some (qq_observation q)"
    "RecordedQuerySnapshot_from_canonical sha (va_value snapshot) (va_digest snapshot) = Inr recorded"
    "resolve_matcher include_str (rm_id (rq_matcher recorded)) (rm_version (rq_matcher recorded)) = Inr entry"
    "bound_entry sha from_str entry (rq_matcher recorded) (IC_Bound d)"
    "list_all2 (loaded sha store expected) (rm_all_returned_snapshot_digests (rq_matcher recorded)) cs"
    "list_all (scorable sha entry (rm_parameters (rq_matcher recorded))) cs"
    "qq_digest q = va_digest snapshot"
    "qq_matched q = map cd_declared_digest (filter (selects entry (rm_parameters (rq_matcher recorded))) cs)"
    "qq_matched q = rm_matched_snapshot_digests (rq_matcher recorded)" by blast
  have "recompute_matched sha from_str include_str (rq_matcher recorded) cs =
      Inr \<lparr>rp_matched = qq_matched q, rp_implementation = IC_Bound d\<rparr>"
    unfolding recompute_matched_Inr using c(5,6,8,10) loaded_digests [OF c(7)] by auto
  moreover have "try_map (load_candidate sha store expected) (rm_all_returned_snapshot_digests (rq_matcher recorded)) = Inr cs"
    using c(7) by (simp add: try_map_Inr load_candidate_Inr)
  moreover have "check_enumeration snapshot = Inr ()" "check_pagination snapshot = Inr ()"
    using c(1,2) by (simp_all add: enumeration_Inr pagination_Inr)
  ultimately show "qualify_query sha from_str include_str snapshot store expected = Inr q"
    using assms c(3,4,9,11) unfolding qualify_query_def recorded_query_def Let_def verify_matched_def
    by (cases q) simp
qed

lemma check_absence_iff:
  "check_absence sha from_str include_str store expected observation q = [] \<longleftrightarrow>
     absence_established sha from_str include_str store expected observation q"
proof -
  have c: "concerns snapshot subject = Inr () \<longleftrightarrow>
      va_str_at snapshot ''/binding/repository'' = Some (qb_repository subject)
      \<and> va_str_at snapshot ''/binding/pullRequest'' = Some (qb_pull_request subject)" for snapshot subject
    by (simp add: concerns_def Let_def)
  have s: "supports_absence qq observation = Inr () \<longleftrightarrow> qq_observation qq = observation \<and> qq_matched qq = []" for qq
    by (simp add: supports_absence_def)
  have "check_absence sha from_str include_str store expected observation q = [] \<longleftrightarrow>
      (\<exists>snapshot qq. resolve_artifact sha store (eq_digest q) CA_ExpectedQuerySnapshot expected = Inr snapshot
         \<and> concerns snapshot (eq_subject q) = Inr ()
         \<and> qualify_query sha from_str include_str snapshot store expected = Inr qq
         \<and> supports_absence qq observation = Inr ())"
    unfolding check_absence_def by (auto split: sum.splits)
  also have "\<dots> \<longleftrightarrow>
      (\<exists>snapshot qq. retained sha store (eq_digest q) snapshot \<and> va_kind snapshot = AK_QuerySnapshot
         \<and> concerns snapshot (eq_subject q) = Inr ()
         \<and> qualify_query sha from_str include_str snapshot store expected = Inr qq
         \<and> qq_observation qq = observation \<and> qq_matched qq = [])"
    unfolding s using resolve_ungated [of CA_ExpectedQuerySnapshot AK_QuerySnapshot] by auto
  also have "\<dots> \<longleftrightarrow> absence_established sha from_str include_str store expected observation q" (is "?lhs \<longleftrightarrow> _")
  proof
    assume ?lhs
    then obtain snapshot qq where k: "va_kind snapshot = AK_QuerySnapshot" "retained sha store (eq_digest q) snapshot"
      "concerns snapshot (eq_subject q) = Inr ()" "qq_observation qq = observation" "qq_matched qq = []"
      and qual: "qualify_query sha from_str include_str snapshot store expected = Inr qq" by blast
    show "absence_established sha from_str include_str store expected observation q"
      using qual [unfolded qualify_query_Inr [OF k(1)] k(4,5)] k(1-3) unfolding absence_established_def c
      by (metis Nil_is_map_conv)
  next
    assume "absence_established sha from_str include_str store expected observation q"
    then obtain snapshot recorded entry cs d where k: "va_kind snapshot = AK_QuerySnapshot"
      "retained sha store (eq_digest q) snapshot" "concerns snapshot (eq_subject q) = Inr ()"
      and rest: "va_str_at snapshot ''/enumeration'' = Some ''COMPLETE''"
      "va_pointer snapshot ''/pagination/nextPagePresent'' = Some (VBool False)"
      "va_str_at snapshot ''/requiredObservationId'' = Some observation"
      "RecordedQuerySnapshot_from_canonical sha (va_value snapshot) (va_digest snapshot) = Inr recorded"
      "resolve_matcher include_str (rm_id (rq_matcher recorded)) (rm_version (rq_matcher recorded)) = Inr entry"
      "bound_entry sha from_str entry (rq_matcher recorded) (IC_Bound d)"
      "list_all2 (loaded sha store expected) (rm_all_returned_snapshot_digests (rq_matcher recorded)) cs"
      "list_all (scorable sha entry (rm_parameters (rq_matcher recorded))) cs"
      "filter (selects entry (rm_parameters (rq_matcher recorded))) cs = []"
      "rm_matched_snapshot_digests (rq_matcher recorded) = []"
      unfolding absence_established_def c by blast
    let ?q = "\<lparr>qq_digest = va_digest snapshot, qq_matched = [], qq_observation = observation\<rparr>"
    have "qualify_query sha from_str include_str snapshot store expected = Inr ?q"
      unfolding qualify_query_Inr [OF k(1)] using rest by auto
    then show ?lhs using k by force
  qed
  finally show ?thesis .
qed

end
