(* ===== verification/Closure_Decisions.thy ===== *)
theory Closure_Decisions
  imports Closure_Bracket
begin

text \<open>
  Properties of the provenance crate, and a store that satisfies them: a record reduced by the gate, the
  assessment that permits it and the binding between the two.
\<close>

section \<open>A store\<close>

definition name_of :: "Value \<Rightarrow> string" where
  "name_of v = (case digest (\<lambda>bs. bs) v of Inr d \<Rightarrow> closure_digest_str d | Inl _ \<Rightarrow> [])"

definition sample_detector :: ExpectedDetector where
  "sample_detector = \<lparr>ed_id = ''d'', ed_version = ''1'', ed_config_digest = ''c''\<rparr>"

definition sample_record :: Value where
  "sample_record = VObject
     [(''blockedFields'', VArray [VString ''/status'']), (''coverageComplete'', VBool False),
      (''locator'', VObject [(''repository'', VString ''o/r''), (''stableId'', VString ''5'')]),
      (''locatorKind'', VString ''github-actions-check''), (''outcome'', VString ''CANNOT_ASSESS''),
      (''redactionPolicyVersion'', VString ''1''),
      (''retainedFields'', VObject [(''/conclusion'', VString ''success''), (''/head_sha'', VString ''abc''), (''/id'', VString ''5''), (''/name'', VString ''ci'')]),
      (''schemaVersion'', VNumber (PosInt 1)), (''sourceKind'', VString ''github-reduced-source-record'')]"

definition sample_assessment :: Value where
  "sample_assessment = VObject
     [(''assessedFields'', VArray [VString ''/conclusion'', VString ''/head_sha'', VString ''/id'', VString ''/name'']),
      (''coverageComplete'', VBool False), (''coverageFailureCode'', VString ''INCOMPLETE_COVERAGE''),
      (''detector'', VObject [(''configDigest'', VString ''c''), (''id'', VString ''d''), (''version'', VString ''1'')]),
      (''observedAt'', VString ''2026-01-01T00:00:00Z''), (''outcome'', VString ''CANNOT_ASSESS''),
      (''redactionPolicyVersion'', VString ''1''), (''representation'', VString ''decoded-source-field-values''),
      (''schemaVersion'', VNumber (PosInt 1)), (''sourceKind'', VString ''closure-retention-assessment'')]"

definition sample_binding :: Value where
  "sample_binding = VObject
     [(''assessmentDigest'', VString (name_of sample_assessment)), (''recordDigest'', VString (name_of sample_record)),
      (''schemaVersion'', VNumber (PosInt 1)), (''sourceKind'', VString ''closure-retention-binding'')]"

text \<open>Whatever else the store holds does not matter.\<close>

definition sample_store :: "(string \<Rightarrow> Value option) \<Rightarrow> RetainedEvidence" where
  "sample_store other =
     \<lparr>re_resolve = other(name_of sample_record \<mapsto> sample_record, name_of sample_assessment \<mapsto> sample_assessment,
                           name_of sample_binding \<mapsto> sample_binding),
      re_binding_for = map_of [(name_of sample_record, sample_binding)]\<rparr>"

lemma sample_safe: "safe_value sample_record" "safe_value sample_assessment" "safe_value sample_binding"
  by (simp_all add: sample_record_def sample_assessment_def sample_binding_def SAFE_INTEGER_LIMIT_def)

lemma digest_name: "safe_value v \<Longrightarrow> digest (\<lambda>bs. bs) v = Inr (ClosureDigest (name_of v))"
  using write_value_ex [of v]
  by (auto simp: name_of_def digest_def canonicalize_def digest_of_canonical_bytes_def)

lemma sample_kind:
  "str_at sample_record ''/sourceKind'' = Some ''github-reduced-source-record''"
  "str_at sample_assessment ''/sourceKind'' = Some ''closure-retention-assessment''"
  "str_at sample_binding ''/sourceKind'' = Some ''closure-retention-binding''"
  by (simp_all add: str_at_def pointer_key sample_record_def sample_assessment_def sample_binding_def)

lemma sample_wf: "wf_value sample_record" "wf_value sample_assessment" "wf_value sample_binding"
  by (simp_all add: sample_record_def sample_assessment_def sample_binding_def)

lemma sample_names:
  "name_of sample_record \<noteq> name_of sample_assessment" "name_of sample_record \<noteq> name_of sample_binding"
  "name_of sample_assessment \<noteq> name_of sample_binding"
proof -
  have "name_of v \<noteq> name_of w" if "wf_value v" "wf_value w" "safe_value v" "safe_value w" "v \<noteq> w" for v w
  proof
    assume n: "name_of v = name_of w"
    have "v = w"
      by (rule digest_determines [OF _ that(1,2) digest_name [OF that(3)] digest_name [OF that(4)]]) (simp_all add: n inj_on_def)
    then show False using that(5) by simp
  qed
  moreover have "sample_record \<noteq> sample_assessment" "sample_record \<noteq> sample_binding" "sample_assessment \<noteq> sample_binding"
    using sample_kind by (auto dest!: arg_cong [of _ _ "\<lambda>v. str_at v ''/sourceKind''"])
  ultimately show "name_of sample_record \<noteq> name_of sample_assessment" "name_of sample_record \<noteq> name_of sample_binding"
    "name_of sample_assessment \<noteq> name_of sample_binding"
    by (simp_all add: sample_wf sample_safe)
qed

lemma sample_forms:
  "check_closed_form ''github-reduced-source-record'' sample_record = Inr (AK_ReducedSourceRecord ''github-actions-check'')"
  by (simp add: check_closed_form_def SOURCE_SCHEMAS_def check_registered_version_def check_reduced_locator_def pointer_key
      str_at_def sample_record_def integer_of_def check_shape.simps REDUCED_RECORD_def req_kind_def text_of_def Let_def
      locator_shape_def LOCATOR_SHAPES_def REPO_ID_def)

lemma sample_assessment_form:
  "check_closed_form ''closure-retention-assessment'' sample_assessment = Inr AK_RetentionAssessment"
proof -
  have "instant_text \<lparr>i_year = 2026, i_month = 1, i_day = 1, i_hour = 0, i_minute = 0, i_second = 0\<rparr> = ''2026-01-01T00:00:00Z''"
    by (simp add: instant_text_def four_digits_def two_digits_def char_of_def bit_0)
  moreover have "instant_exists \<lparr>i_year = 2026, i_month = 1, i_day = 1, i_hour = 0, i_minute = 0, i_second = 0\<rparr>"
    by (simp add: instant_exists_def days_in_def)
  ultimately have "utc_instant ''2026-01-01T00:00:00Z'' = Inr ()" unfolding utc_instant_iff by metis
  then show ?thesis
    by (simp add: check_closed_form_def SOURCE_SCHEMAS_def check_registered_version_def pointer_key str_at_def
        sample_assessment_def integer_of_def check_assessment_def ASSESSMENT_REQUIRED_def ASSESSMENT_CONDITIONAL_def
        DETECTOR_def required_member_ok_def conditional_member_ok_def text_of_def Let_def member_str_def
        computed_outcome_def ordered_unique_def)
qed

lemma sample_binding_form:
  "check_closed_form ''closure-retention-binding'' sample_binding = Inr AK_RetentionBinding"
  by (simp add: check_closed_form_def SOURCE_SCHEMAS_def check_registered_version_def pointer_key str_at_def
      sample_binding_def integer_of_def check_shape.simps RETENTION_BINDING_def req_kind_def text_of_def Let_def)

definition sample_artifact :: ValidatedArtifact where
  "sample_artifact = \<lparr>va_digest = name_of sample_record, va_kind = AK_ReducedSourceRecord ''github-actions-check'',
     va_value = sample_record\<rparr>"

definition sample_expected :: Expected where
  "sample_expected = \<lparr>ex_declared = [], ex_detector = sample_detector, ex_policy = ''1''\<rparr>"

lemma sample_retained:
  "retained (\<lambda>bs. bs) (sample_store other) (name_of sample_record) sample_artifact"
  "retained (\<lambda>bs. bs) (sample_store other) (name_of sample_assessment)
     \<lparr>va_digest = name_of sample_assessment, va_kind = AK_RetentionAssessment, va_value = sample_assessment\<rparr>"
  "retained (\<lambda>bs. bs) (sample_store other) (name_of sample_binding)
     \<lparr>va_digest = name_of sample_binding, va_kind = AK_RetentionBinding, va_value = sample_binding\<rparr>"
  using sample_names sample_kind digest_name [OF sample_safe(1)] digest_name [OF sample_safe(2)] digest_name [OF sample_safe(3)]
    sample_forms sample_assessment_form sample_binding_form
  by (simp_all add: retained_def validate_Inr sample_store_def sample_artifact_def)

lemma sample_authorises:
  "check_authorises sample_artifact
     \<lparr>va_digest = name_of sample_assessment, va_kind = AK_RetentionAssessment, va_value = sample_assessment\<rparr>
     ''1'' sample_detector = Inr ()"
  by (simp add: check_authorises_def check_detector_def va_str_at_def va_pointer_def pointer_def sample_assessment_def
      sample_detector_def member_str_at_def denominator_of_def sample_artifact_def sample_record_def required_fields_def
      REQUIRED_FIELDS_def ordered_unique_at_def refuse_if_def in_required_def always_of_def present_only_of_def
      flagged_fields_def present_now_def declares_present_def named_in_def check_coverage_def check_reduced_def check_partition_def present_def Let_def)

lemma sample_permitted: "evidence_permitted (\<lambda>bs. bs) (sample_store other) sample_expected sample_artifact"
proof -
  have n: "pointer sample_binding ''/recordDigest'' = Some (VString (name_of sample_record))"
    "pointer sample_binding ''/assessmentDigest'' = Some (VString (name_of sample_assessment))"
    by (simp_all add: pointer_key sample_binding_def)
  show ?thesis
    unfolding evidence_permitted_def
  proof (intro exI conjI)
    show "re_binding_for (sample_store other) (va_digest sample_artifact) = Some sample_binding"
      by (simp add: sample_store_def sample_artifact_def)
    show "digest (\<lambda>bs. bs) sample_binding = Inr (ClosureDigest (name_of sample_binding))"
      by (rule digest_name [OF sample_safe(3)])
    show "retained (\<lambda>bs. bs) (sample_store other) (closure_digest_str (ClosureDigest (name_of sample_binding)))
        \<lparr>va_digest = name_of sample_binding, va_kind = AK_RetentionBinding, va_value = sample_binding\<rparr>"
      using sample_retained(3) by simp
    show "check_authorises sample_artifact
        \<lparr>va_digest = name_of sample_assessment, va_kind = AK_RetentionAssessment, va_value = sample_assessment\<rparr>
        (ex_policy sample_expected) (ex_detector sample_expected) = Inr ()"
      using sample_authorises by (simp add: sample_expected_def)
  qed (use sample_retained(2) in \<open>simp_all add: va_str_at_def n sample_artifact_def sample_expected_def\<close>)
qed

lemma sample_resolves:
  "resolve_artifact (\<lambda>bs. bs) (sample_store other) (name_of sample_record) CA_GatedSource sample_expected = Inr sample_artifact"
  using sample_retained(1) sample_permitted by (simp add: resolve_artifact_iff) (simp add: sample_artifact_def)

lemma sample_read:
  "read_pointer sample_artifact ''/head_sha'' = Inr (VString ''abc'')"
  "read_pointer sample_artifact ''/conclusion'' = Inr (VString ''success'')"
  by (simp_all add: read_pointer_def sample_artifact_def blocks_def va_pointer_def pointer_key sample_record_def)





section \<open>The door\<close>


text \<open>
  C24. An assessment authorises a record exactly when its detector, policy and coverage are what the caller and the field
  table require and, for a reduced record, the two halves are the computed ones: the blocked fields are the
  flagged ones and the required ones never assessed, the retained fields are the rest. Neither half is a choice.
\<close>

theorem check_authorises_exact:
  "check_authorises record assessment policy detector = Inr () \<longleftrightarrow> permits record assessment policy detector"
  by (rule check_authorises_Inr)

text \<open>
  C25. No field a detector flagged, and none it did not examine, is ever read out of a reduced record: a value a decision
  obtains from one is a field that the assessment authorising the record lists as assessed and not as a finding.
\<close>

theorem reduced_read_examined:
  assumes "resolve_artifact sha store d CA_GatedSource expected = Inr a" "is_reduced (va_kind a)"
    "read_pointer a ptr = Inr v"
  shows "\<exists>ad assessment. retained sha store ad assessment \<and> va_kind assessment = AK_RetentionAssessment
    \<and> permits a assessment (ex_policy expected) (ex_detector expected) \<and> examined assessment ptr"
proof -
  have r: "validate sha d (va_value a) = Inr a" and p: "evidence_permitted sha store expected a"
    using assms(1,2) by (auto simp: resolve_artifact_iff retained_def elim: is_reduced.elims)
  then show ?thesis
    using permitted_read [OF r assms(2) _ assms(3)] unfolding evidence_permitted_def check_authorises_Inr by blast
qed

theorem reduced_read_examined_witness:
  "\<exists>ad assessment. retained (\<lambda>bs. bs) (sample_store (\<lambda>_. None)) ad assessment \<and> va_kind assessment = AK_RetentionAssessment
    \<and> permits sample_artifact assessment (ex_policy sample_expected) (ex_detector sample_expected)
    \<and> examined assessment ''/head_sha''"
  by (rule reduced_read_examined [OF sample_resolves _ sample_read(1)]) (simp add: sample_artifact_def)

section \<open>Decisions\<close>



text \<open>
  A check is decided from one check run: its basis is admissible exactly when every relation holds and the head
  revision and the conclusion were both observed on one and the same retained record of the check surface.
\<close>

lemma check_admissible_exact:
  "admissibility sha from_str include_str DP_Check basis store = Adm_Yes vs \<longleftrightarrow>
     (\<exists>rs. basis_holds sha from_str include_str store basis rs \<and> vs = map snd rs \<and> one_check (map fst rs))"
  unfolding admissibility_Yes using check_profile_iff by blast

text \<open>
  C26. An absence is admitted exactly when the basis names a query whose retained snapshot is a complete enumeration for this
  change and observation and every candidate it returned, each retained and permitted, is rejected by the bound matcher.
\<close>

theorem absence_admissible_exact:
  "(\<exists>vs. admissibility sha from_str include_str DP_Absence basis store = Adm_Yes vs) \<longleftrightarrow>
     (\<exists>rs. list_all2 (reads sha store (expected_of basis)) (bs_inputs basis) rs)
     \<and> derived_hold sha include_str store (expected_of basis) (bs_derived basis)
     \<and> (\<exists>q. bs_expected_query basis = Some q
          \<and> absence_established sha from_str include_str store (expected_of basis) (bs_observation_id basis) q)"
proof -
  have "missing_requirements DP_Absence basis obs = [] \<and> unshared_subjects include_str DP_Absence basis obs = []
      \<longleftrightarrow> bs_expected_query basis \<noteq> None" for obs
    by (auto simp: missing_requirements_Nil ABSENCE_BASIS_def unshared_subjects_def by_surface_def)
  then show ?thesis
    unfolding admissibility_Yes basis_holds_def query_holds_def check_absence_iff
    by (cases "bs_expected_query basis") auto
qed

section \<open>Freshness\<close>


end
