(* ===== verification/A1_Scan.thy ===== *)
theory A1_Scan
  imports Rust_Std
begin

text \<open>
  Structural admission of A1 documents: \<^verbatim>\<open>crates/o7-a1-contracts/src/scan.rs\<close>, the document half of
  \<^verbatim>\<open>json.rs\<close> and the bounds it uses from \<^verbatim>\<open>bounds.rs\<close>. The scanner is a record that every method takes
  and returns; \<open>Inl\<close> is an early return, after which the source never looks at the scanner again.
  \<^verbatim>\<open>usize\<close> counters are naturals: they count bytes of an in-memory slice.

  The mutually recursive methods carry fuel, \<open>None\<close> being its exhaustion. \<open>run\<close> starts them with
  three units per input byte and one more; \<open>A1_Admission\<close> shows that this is never exhausted.
\<close>

section \<open>Bounds and errors\<close>

definition MAX_JSON_DEPTH :: nat where
  "MAX_JSON_DEPTH = 32"

definition MAX_ARRAY_LEN :: nat where
  "MAX_ARRAY_LEN = 4096"

definition MAX_STRING_BYTES :: nat where
  "MAX_STRING_BYTES = 65536"

datatype Frame = F_Array nat | F_Object

datatype ParseError =
    NotUtf8
  | LeadingBom
  | NotJson string nat nat
  | NotAnObject
  | ExplicitNull string
  | DepthExceeded string
  | ArrayTooLong string nat
  | StringTooLong string nat
  | PayloadTooLarge nat u64
  | SchemaMismatch string
  | InvalidArtifact string

datatype Mode = Admit | Probe

record Scanner =
  sc_input :: bytes
  sc_at :: nat
  sc_line :: nat
  sc_column :: nat
  sc_stack :: "Frame list"
  sc_mode :: Mode

definition Scanner_new :: "bytes \<Rightarrow> Scanner" where
  "Scanner_new inp =
     \<lparr>sc_input = inp, sc_at = 0, sc_line = 1, sc_column = 1, sc_stack = [], sc_mode = Admit\<rparr>"

section \<open>Reading bytes\<close>

definition get :: "bytes \<Rightarrow> nat \<Rightarrow> byte option" where
  "get bs i = (if i < length bs then Some (bs ! i) else None)"

definition peek :: "Scanner \<Rightarrow> byte option" where
  "peek s = get (sc_input s) (sc_at s)"

definition bump :: "Scanner \<Rightarrow> Scanner" where
  "bump s =
     (if peek s = Some 10 then s\<lparr>sc_line := sc_line s + 1, sc_column := 1, sc_at := sc_at s + 1\<rparr>
      else s\<lparr>sc_column := sc_column s + 1, sc_at := sc_at s + 1\<rparr>)"

definition syntax_err :: "Scanner \<Rightarrow> ParseError" where
  "syntax_err s = NotJson ''syntax'' (sc_line s) (sc_column s)"

primrec frame_path :: "Frame \<Rightarrow> string" where
  "frame_path (F_Array i) = ''['' @ decimal i @ '']''"
| "frame_path F_Object = ''.*''"

definition path :: "Scanner \<Rightarrow> string" where
  "path s = ''$'' @ concat (map frame_path (sc_stack s))"

definition is_ws :: "byte \<Rightarrow> bool" where
  "is_ws c \<longleftrightarrow> c = 32 \<or> c = 9 \<or> c = 10 \<or> c = 13"

definition is_digit :: "byte \<Rightarrow> bool" where
  "is_digit c \<longleftrightarrow> 48 \<le> c \<and> c \<le> 57"

definition peek_is :: "(byte \<Rightarrow> bool) \<Rightarrow> Scanner \<Rightarrow> bool" where
  "peek_is P s \<longleftrightarrow> (case peek s of None \<Rightarrow> False | Some c \<Rightarrow> P c)"

definition remaining :: "Scanner \<Rightarrow> nat" where
  "remaining s = length (sc_input s) - sc_at s"

lemma bump_sel [simp]:
  "sc_input (bump s) = sc_input s" "sc_at (bump s) = Suc (sc_at s)"
  "sc_stack (bump s) = sc_stack s" "sc_mode (bump s) = sc_mode s"
  by (simp_all add: bump_def)

lemma peek_remaining: "peek s = Some c \<Longrightarrow> remaining (bump s) < remaining s"
  by (auto simp: peek_def get_def remaining_def split: if_splits)

function bump_while :: "(byte \<Rightarrow> bool) \<Rightarrow> Scanner \<Rightarrow> Scanner" where
  "bump_while P s = (if peek_is P s then bump_while P (bump s) else s)"
  by pat_completeness auto
termination
  by (relation "measure (\<lambda>(P, s). remaining s)")
    (auto simp: peek_is_def split: option.splits dest: peek_remaining)

declare bump_while.simps [simp del]

definition skip_whitespace :: "Scanner \<Rightarrow> Scanner" where
  "skip_whitespace s = bump_while is_ws s"

section \<open>Scalars\<close>

fun literal :: "bytes \<Rightarrow> Scanner \<Rightarrow> (ParseError, Scanner) result" where
  "literal [] s = Inr s"
| "literal (expected # word) s =
     (if peek s \<noteq> Some expected then Inl (syntax_err s) else literal word (bump s))"

definition digits :: "Scanner \<Rightarrow> (ParseError, Scanner) result" where
  "digits s =
     (let s' = bump_while is_digit s in
      if sc_at s' = sc_at s then Inl (syntax_err s') else Inr s')"

definition number_int :: "Scanner \<Rightarrow> (ParseError, Scanner) result" where
  "number_int s =
     (if peek s = Some 48 then
        let s' = bump s in if peek_is is_digit s' then Inl (syntax_err s') else Inr s'
      else digits s)"

definition number_frac :: "Scanner \<Rightarrow> (ParseError, Scanner) result" where
  "number_frac s = (if peek s = Some 46 then digits (bump s) else Inr s)"

definition number_exp :: "Scanner \<Rightarrow> (ParseError, Scanner) result" where
  "number_exp s =
     (if peek_is (\<lambda>c. c = 101 \<or> c = 69) s then
        let s' = bump s in digits (if peek_is (\<lambda>c. c = 43 \<or> c = 45) s' then bump s' else s')
      else Inr s)"

definition number :: "Scanner \<Rightarrow> (ParseError, Scanner) result" where
  "number s =
     and_then (number_int (if peek s = Some 45 then bump s else s)) (\<lambda>s1.
     and_then (number_frac s1) (\<lambda>s2.
     and_then (number_exp s2) (\<lambda>s3.
       if sc_at s3 = sc_at s then Inl (syntax_err s3) else Inr s3)))"

text \<open>\<^verbatim>\<open>char::to_digit(16)\<close>; a value of four digits is at most \<open>0xffff\<close>, far inside \<^verbatim>\<open>u32\<close>.\<close>

definition to_digit16 :: "byte \<Rightarrow> nat option" where
  "to_digit16 c =
     (if 48 \<le> c \<and> c \<le> 57 then Some (unat c - 48)
      else if 97 \<le> c \<and> c \<le> 102 then Some (unat c - 87)
      else if 65 \<le> c \<and> c \<le> 70 then Some (unat c - 55)
      else None)"

fun hex_digits :: "bytes \<Rightarrow> nat \<Rightarrow> nat \<Rightarrow> nat \<Rightarrow> nat option" where
  "hex_digits inp at 0 acc = Some acc"
| "hex_digits inp at (Suc k) acc =
     (case get inp at of
        None \<Rightarrow> None
      | Some c \<Rightarrow>
          (case to_digit16 c of
             None \<Rightarrow> None
           | Some d \<Rightarrow> hex_digits inp (Suc at) k (acc * 16 + d)))"

definition hex4_at :: "Scanner \<Rightarrow> nat \<Rightarrow> nat option" where
  "hex4_at s at = hex_digits (sc_input s) at 4 0"

definition high_surrogate :: "nat \<Rightarrow> bool" where
  "high_surrogate h \<longleftrightarrow> 0xD800 \<le> h \<and> h \<le> 0xDBFF"

definition low_surrogate :: "nat \<Rightarrow> bool" where
  "low_surrogate h \<longleftrightarrow> 0xDC00 \<le> h \<and> h \<le> 0xDFFF"

definition escape_sequence :: "Scanner \<Rightarrow> (ParseError, nat \<times> Scanner) result" where
  "escape_sequence s =
     (case hex4_at s (sc_at s) of
        None \<Rightarrow> Inl (syntax_err s)
      | Some high \<Rightarrow>
          let s1 = (bump ^^ 4) s in
          if high_surrogate high then
            if peek s1 = Some 92 \<and> get (sc_input s1) (sc_at s1 + 1) = Some 117
               \<and> (case hex4_at s1 (sc_at s1 + 2) of None \<Rightarrow> False | Some low \<Rightarrow> low_surrogate low)
            then Inr (4, (bump ^^ 6) s1)
            else Inr (3, s1)
          else Inr (if high \<le> 0x7f then 1 else if high \<le> 0x7ff then 2 else 3, s1))"

definition simple_escape :: "byte \<Rightarrow> bool" where
  "simple_escape c \<longleftrightarrow> c \<in> {34, 92, 47, 98, 102, 110, 114, 116}"

lemma bump_pow_sel [simp]:
  "sc_input ((bump ^^ k) s) = sc_input s" "sc_at ((bump ^^ k) s) = sc_at s + k"
  "sc_stack ((bump ^^ k) s) = sc_stack s" "sc_mode ((bump ^^ k) s) = sc_mode s"
  by (induction k) simp_all

lemma escape_sequence_at:
  "escape_sequence s = Inr (n, s') \<Longrightarrow>
   sc_input s' = sc_input s \<and> sc_at s < sc_at s' \<and> sc_stack s' = sc_stack s \<and> sc_mode s' = sc_mode s"
  by (auto simp: escape_sequence_def Let_def split: option.splits if_splits)

lemma remaining_less:
  "sc_input s' = sc_input s \<Longrightarrow> sc_at s < sc_at s' \<Longrightarrow> peek s = Some c \<Longrightarrow> remaining s' < remaining s"
  by (auto simp: remaining_def peek_def get_def split: if_splits)

function scan_string_loop :: "Scanner \<Rightarrow> nat \<Rightarrow> (ParseError, nat \<times> Scanner) result" where
  "scan_string_loop s decoded =
     (case peek s of
        None \<Rightarrow> Inl (syntax_err s)
      | Some c \<Rightarrow>
          if c = 34 then Inr (decoded, bump s)
          else if c = 92 then
            (let s1 = bump s in
             case peek s1 of
               None \<Rightarrow> Inl (syntax_err s1)
             | Some d \<Rightarrow>
                 if simple_escape d then scan_string_loop (bump s1) (decoded + 1)
                 else if d = 117 then
                   (case escape_sequence (bump s1) of
                      Inl e \<Rightarrow> Inl e
                    | Inr (n, s2) \<Rightarrow> scan_string_loop s2 (decoded + n))
                 else Inl (syntax_err s1))
          else if c < 32 then Inl (syntax_err s)
          else scan_string_loop (bump s) (decoded + 1))"
  by pat_completeness auto
termination
  by (relation "measure (\<lambda>(s, decoded). remaining s)")
    (auto intro!: remaining_less dest!: escape_sequence_at)

declare scan_string_loop.simps [simp del]

definition scan_string :: "Scanner \<Rightarrow> (ParseError, nat \<times> Scanner) result" where
  "scan_string s = scan_string_loop (bump s) 0"

definition string_value :: "Scanner \<Rightarrow> (ParseError, nat \<times> Scanner) result" where
  "string_value s =
     and_then (scan_string s) (\<lambda>(len, s').
       if len > MAX_STRING_BYTES \<and> sc_mode s' = Admit then Inl (StringTooLong (path s') len)
       else Inr (len, s'))"

section \<open>Values\<close>

definition push :: "Frame \<Rightarrow> Scanner \<Rightarrow> Scanner" where
  "push f s = s\<lparr>sc_stack := sc_stack s @ [f]\<rparr>"

definition pop :: "Scanner \<Rightarrow> Scanner" where
  "pop s = s\<lparr>sc_stack := butlast (sc_stack s)\<rparr>"

text \<open>\<^verbatim>\<open>if let Some(Frame::Array { index }) = self.stack.last_mut()\<close>\<close>

definition set_index :: "nat \<Rightarrow> Scanner \<Rightarrow> Scanner" where
  "set_index i s =
     (if sc_stack s = [] then s
      else (case last (sc_stack s) of
              F_Array _ \<Rightarrow> s\<lparr>sc_stack := butlast (sc_stack s) @ [F_Array i]\<rparr>
            | F_Object \<Rightarrow> s))"

text \<open>Sequencing with fuel.\<close>

definition opt_then ::
  "('e, 'a) result option \<Rightarrow> ('a \<Rightarrow> ('e, 'b) result option) \<Rightarrow> ('e, 'b) result option" where
  "opt_then m k = (case m of None \<Rightarrow> None | Some (Inl e) \<Rightarrow> Some (Inl e) | Some (Inr x) \<Rightarrow> k x)"

fun val :: "nat \<Rightarrow> Scanner \<Rightarrow> (ParseError, Scanner) result option"
  and object :: "nat \<Rightarrow> Scanner \<Rightarrow> (ParseError, Scanner) result option"
  and object_loop :: "nat \<Rightarrow> Scanner \<Rightarrow> (ParseError, Scanner) result option"
  and array :: "nat \<Rightarrow> Scanner \<Rightarrow> (ParseError, Scanner) result option"
  and array_loop :: "nat \<Rightarrow> nat \<Rightarrow> Scanner \<Rightarrow> (ParseError, Scanner) result option" where
  "val 0 s0 = None"
| "val (Suc n) s0 =
     (let s = skip_whitespace s0 in
      if length (sc_stack s) + 1 > MAX_JSON_DEPTH then
        Some (Inl (case sc_mode s of Admit \<Rightarrow> DepthExceeded (path s) | Probe \<Rightarrow> NotAnObject))
      else (case peek s of
              None \<Rightarrow> Some (Inl (syntax_err s))
            | Some c \<Rightarrow>
                if c = 123 then object n s
                else if c = 91 then array n s
                else if c = 34 then Some (and_then (string_value s) (\<lambda>(_, s'). Inr s'))
                else if c = 116 then Some (literal [116, 114, 117, 101] s)
                else if c = 102 then Some (literal [102, 97, 108, 115, 101] s)
                else if c = 110 then
                  Some (and_then (literal [110, 117, 108, 108] s) (\<lambda>s'.
                    case sc_mode s' of Admit \<Rightarrow> Inl (ExplicitNull (path s')) | Probe \<Rightarrow> Inr s'))
                else if c = 45 \<or> is_digit c then Some (number s)
                else Some (Inl (syntax_err s))))"
| "object 0 s = None"
| "object (Suc n) s =
     (let s1 = skip_whitespace (push F_Object (bump s)) in
      if peek s1 = Some 125 then Some (Inr (pop (bump s1)))
      else object_loop n s1)"
| "object_loop 0 s0 = None"
| "object_loop (Suc n) s0 =
     (let s = skip_whitespace s0 in
      if peek s \<noteq> Some 34 then Some (Inl (syntax_err s))
      else opt_then (Some (scan_string s)) (\<lambda>(_, s1).
        let s2 = skip_whitespace s1 in
        if peek s2 \<noteq> Some 58 then Some (Inl (syntax_err s2))
        else opt_then (val n (bump s2)) (\<lambda>s3.
          let s4 = skip_whitespace s3 in
          if peek s4 = Some 44 then object_loop n (bump s4)
          else if peek s4 = Some 125 then Some (Inr (pop (bump s4)))
          else Some (Inl (syntax_err s4)))))"
| "array 0 s = None"
| "array (Suc n) s =
     (let s1 = skip_whitespace (push (F_Array 0) (bump s)) in
      if peek s1 = Some 93 then Some (Inr (pop (bump s1)))
      else array_loop n 0 s1)"
| "array_loop 0 count s = None"
| "array_loop (Suc n) count s =
     (let count' = count + 1 in
      if count' > MAX_ARRAY_LEN \<and> sc_mode s = Admit then
        Some (Inl (ArrayTooLong (path s) count'))
      else opt_then (val n (set_index (count' - 1) s)) (\<lambda>s1.
        let s2 = skip_whitespace s1 in
        if peek s2 = Some 44 then array_loop n count' (bump s2)
        else if peek s2 = Some 93 then Some (Inr (pop (bump s2)))
        else Some (Inl (syntax_err s2))))"

definition scan_fuel :: "Scanner \<Rightarrow> nat" where
  "scan_fuel s = 3 * length (sc_input s) + 1"

definition run :: "Scanner \<Rightarrow> (ParseError, unit) result option" where
  "run s0 =
     (let s = skip_whitespace s0 in
      if peek s \<noteq> Some 123 then
        opt_then (val (scan_fuel s) (s\<lparr>sc_mode := Probe\<rparr>)) (\<lambda>s1.
          let s2 = skip_whitespace s1 in
          if sc_at s2 < length (sc_input s2) then Some (Inl (syntax_err s2)) else Some (Inl NotAnObject))
      else opt_then (val (scan_fuel s) s) (\<lambda>s1.
          let s2 = skip_whitespace s1 in
          if sc_at s2 < length (sc_input s2) then Some (Inl (syntax_err s2)) else Some (Inr ())))"

section \<open>Admission\<close>

text \<open>\<open>text.starts_with('\u{feff}')\<close>: the three bytes of the byte-order mark.\<close>

definition starts_with_bom :: "bytes \<Rightarrow> bool" where
  "starts_with_bom bs \<longleftrightarrow> take 3 bs = [0xEF, 0xBB, 0xBF]"

definition admit_document :: "bytes \<Rightarrow> u64 \<Rightarrow> (ParseError, unit) result option" where
  "admit_document bs max_bytes =
     (if (of_nat (length bs) :: u64) > max_bytes then Some (Inl (PayloadTooLarge (length bs) max_bytes))
      else if \<not> utf8_valid bs then Some (Inl NotUtf8)
      else if starts_with_bom bs then Some (Inl LeadingBom)
      else run (Scanner_new bs))"

text \<open>
  \<open>parse_artifact\<close> at one wire type: \<open>max_bytes\<close> is its ceiling, \<open>from_bytes\<close> the private
  deserializer built on \<^verbatim>\<open>serde_json\<close> and \<open>validate_wire\<close> the type's cross-field rules.
\<close>

definition parse_artifact ::
  "u64 \<Rightarrow> (bytes \<Rightarrow> (ParseError, 'a) result) \<Rightarrow> ('a \<Rightarrow> (string, unit) result) \<Rightarrow> bytes
     \<Rightarrow> (ParseError, 'a) result option" where
  "parse_artifact max_bytes from_bytes validate_wire bs =
     opt_then (admit_document bs max_bytes) (\<lambda>_.
     opt_then (Some (from_bytes bs)) (\<lambda>parsed.
     opt_then (Some (map_err InvalidArtifact (validate_wire parsed))) (\<lambda>_.
     Some (Inr parsed))))"

end
