(* ===== verification/A1_Grammar.thy ===== *)
theory A1_Grammar
  imports A1_Scan
begin

text \<open>
  The grammar of admissible documents, stated without the scanner, and the proof that the scanner
  of \<open>A1_Scan\<close> accepts exactly it. \<open>jval d v\<close> says that the bytes \<open>v\<close> are a JSON value whose nesting,
  counted from depth \<open>d\<close>, stays within \<open>MAX_JSON_DEPTH\<close>, whose arrays and strings stay within
  their bounds, and which contains no \<open>null\<close>.
\<close>

section \<open>Tokens\<close>

definition ws :: "bytes \<Rightarrow> bool" where
  "ws w \<longleftrightarrow> list_all is_ws w"

definition jdigits :: "bytes \<Rightarrow> bool" where
  "jdigits ds \<longleftrightarrow> ds \<noteq> [] \<and> list_all is_digit ds"

definition jint :: "bytes \<Rightarrow> bool" where
  "jint i \<longleftrightarrow> i = [48] \<or> jdigits i \<and> hd i \<noteq> 48"

definition jfrac :: "bytes \<Rightarrow> bool" where
  "jfrac f \<longleftrightarrow> f = [] \<or> (\<exists>ds. f = 46 # ds \<and> jdigits ds)"

definition jexp :: "bytes \<Rightarrow> bool" where
  "jexp e \<longleftrightarrow> e = [] \<or>
     (\<exists>c sg ds. e = c # sg @ ds \<and> (c = 101 \<or> c = 69) \<and> (sg = [] \<or> sg = [43] \<or> sg = [45]) \<and> jdigits ds)"

definition jnumber :: "bytes \<Rightarrow> bool" where
  "jnumber bs \<longleftrightarrow>
     (\<exists>m i f e. bs = m @ i @ f @ e \<and> (m = [] \<or> m = [45]) \<and> jint i \<and> jfrac f \<and> jexp e)"

fun hexl :: "bytes \<Rightarrow> nat \<Rightarrow> nat option" where
  "hexl [] acc = Some acc"
| "hexl (c # cs) acc = (case to_digit16 c of None \<Rightarrow> None | Some d \<Rightarrow> hexl cs (acc * 16 + d))"

definition hex4 :: "bytes \<Rightarrow> nat option" where
  "hex4 hs = (if length hs = 4 then hexl hs 0 else None)"

definition utf8_len :: "nat \<Rightarrow> nat" where
  "utf8_len h = (if h \<le> 0x7f then 1 else if h \<le> 0x7ff then 2 else 3)"

definition starts_low :: "bytes \<Rightarrow> bool" where
  "starts_low cs \<longleftrightarrow> (\<exists>ls l r. cs = 92 # 117 # ls @ r \<and> hex4 ls = Some l \<and> low_surrogate l)"

text \<open>\<open>jchars n cs\<close>: the characters between two quotes, with \<open>n\<close> bytes once decoded.\<close>

inductive jchars :: "nat \<Rightarrow> bytes \<Rightarrow> bool" where
  nil: "jchars 0 []"
| plain: "\<not> c < 32 \<Longrightarrow> c \<noteq> 34 \<Longrightarrow> c \<noteq> 92 \<Longrightarrow> jchars n cs \<Longrightarrow> jchars (Suc n) (c # cs)"
| escape: "simple_escape c \<Longrightarrow> jchars n cs \<Longrightarrow> jchars (Suc n) (92 # c # cs)"
| unicode: "hex4 hs = Some h \<Longrightarrow> \<not> high_surrogate h \<Longrightarrow> jchars n cs \<Longrightarrow>
     jchars (utf8_len h + n) (92 # 117 # hs @ cs)"
| pair: "hex4 hs = Some h \<Longrightarrow> high_surrogate h \<Longrightarrow> hex4 ls = Some l \<Longrightarrow> low_surrogate l \<Longrightarrow>
     jchars n cs \<Longrightarrow> jchars (4 + n) (92 # 117 # hs @ 92 # 117 # ls @ cs)"
| lone: "hex4 hs = Some h \<Longrightarrow> high_surrogate h \<Longrightarrow> \<not> starts_low cs \<Longrightarrow> jchars n cs \<Longrightarrow>
     jchars (3 + n) (92 # 117 # hs @ cs)"

definition jstring :: "nat \<Rightarrow> bytes \<Rightarrow> bool" where
  "jstring n bs \<longleftrightarrow> (\<exists>cs. bs = 34 # cs @ [34] \<and> jchars n cs)"

section \<open>Values\<close>

inductive jval :: "nat \<Rightarrow> bytes \<Rightarrow> bool"
  and jmembers :: "nat \<Rightarrow> bytes \<Rightarrow> bool"
  and jelems :: "nat \<Rightarrow> nat \<Rightarrow> bytes \<Rightarrow> bool" where
  str: "d \<le> MAX_JSON_DEPTH \<Longrightarrow> jstring n bs \<Longrightarrow> n \<le> MAX_STRING_BYTES \<Longrightarrow> jval d bs"
| tru: "d \<le> MAX_JSON_DEPTH \<Longrightarrow> jval d [116, 114, 117, 101]"
| fls: "d \<le> MAX_JSON_DEPTH \<Longrightarrow> jval d [102, 97, 108, 115, 101]"
| num: "d \<le> MAX_JSON_DEPTH \<Longrightarrow> jnumber bs \<Longrightarrow> jval d bs"
| obj0: "d \<le> MAX_JSON_DEPTH \<Longrightarrow> ws w \<Longrightarrow> jval d (123 # w @ [125])"
| obj: "d \<le> MAX_JSON_DEPTH \<Longrightarrow> jmembers (Suc d) ms \<Longrightarrow> jval d (123 # ms @ [125])"
| arr0: "d \<le> MAX_JSON_DEPTH \<Longrightarrow> ws w \<Longrightarrow> jval d (91 # w @ [93])"
| arr: "d \<le> MAX_JSON_DEPTH \<Longrightarrow> jelems (Suc d) n es \<Longrightarrow> n \<le> MAX_ARRAY_LEN \<Longrightarrow> jval d (91 # es @ [93])"
| member1: "ws w1 \<Longrightarrow> jstring n k \<Longrightarrow> ws w2 \<Longrightarrow> ws w3 \<Longrightarrow> jval d v \<Longrightarrow> ws w4 \<Longrightarrow>
     jmembers d (w1 @ k @ w2 @ 58 # w3 @ v @ w4)"
| members: "ws w1 \<Longrightarrow> jstring n k \<Longrightarrow> ws w2 \<Longrightarrow> ws w3 \<Longrightarrow> jval d v \<Longrightarrow> ws w4 \<Longrightarrow> jmembers d ms \<Longrightarrow>
     jmembers d (w1 @ k @ w2 @ 58 # w3 @ v @ w4 @ 44 # ms)"
| elem1: "ws w1 \<Longrightarrow> jval d v \<Longrightarrow> ws w2 \<Longrightarrow> jelems d 1 (w1 @ v @ w2)"
| elems: "ws w1 \<Longrightarrow> jval d v \<Longrightarrow> ws w2 \<Longrightarrow> jelems d n es \<Longrightarrow> jelems d (Suc n) (w1 @ v @ w2 @ 44 # es)"

text \<open>A document: one object, at depth 1, between blanks.\<close>

definition jdocument :: "bytes \<Rightarrow> bool" where
  "jdocument bs \<longleftrightarrow>
     (\<exists>w1 v w2. bs = w1 @ v @ w2 \<and> ws w1 \<and> ws w2 \<and> jval 1 v \<and> hd v = 123)"

section \<open>Consumption\<close>

definition rest :: "Scanner \<Rightarrow> bytes" where
  "rest s = drop (sc_at s) (sc_input s)"

text \<open>\<open>eats s bs s'\<close>: from \<open>s\<close> to \<open>s'\<close> the scanner consumed exactly \<open>bs\<close>.\<close>

definition eats :: "Scanner \<Rightarrow> bytes \<Rightarrow> Scanner \<Rightarrow> bool" where
  "eats s bs s' \<longleftrightarrow> sc_input s' = sc_input s \<and> sc_at s' = sc_at s + length bs \<and> rest s = bs @ rest s'"

definition same_frame :: "Scanner \<Rightarrow> Scanner \<Rightarrow> bool" where
  "same_frame s s' \<longleftrightarrow> sc_stack s' = sc_stack s \<and> sc_mode s' = sc_mode s"

lemma peek_rest: "peek s = (case rest s of [] \<Rightarrow> None | c # _ \<Rightarrow> Some c)"
  by (auto simp: peek_def get_def rest_def hd_drop_conv_nth neq_Nil_conv split: list.split)
    (metis Cons_nth_drop_Suc list.inject not_le drop_all list.distinct(1))+

lemma rest_bump: "rest (bump s) = tl (rest s)"
  by (simp add: rest_def drop_Suc tl_drop)

lemma eats_nil [simp]: "eats s [] s"
  by (simp add: eats_def)

lemma eats_trans: "eats s xs t \<Longrightarrow> eats t ys u \<Longrightarrow> eats s (xs @ ys) u"
  by (simp add: eats_def)

lemma same_frame_refl [simp]: "same_frame s s"
  by (simp add: same_frame_def)

lemma same_frame_trans: "same_frame s t \<Longrightarrow> same_frame t u \<Longrightarrow> same_frame s u"
  by (simp add: same_frame_def)

lemma same_frame_bump [simp]: "same_frame s (bump s)"
  by (simp add: same_frame_def)

lemma eats_bump: "peek s = Some c \<Longrightarrow> eats s [c] (bump s)"
  by (simp add: eats_def peek_rest rest_bump split: list.splits)

lemma eats_rest: "eats s bs s' \<Longrightarrow> rest s = bs @ rest s'"
  by (simp add: eats_def)

lemma remaining_rest: "remaining s = length (rest s)"
  by (simp add: remaining_def rest_def)

text \<open>\<open>bump_while\<close> eats the longest prefix that satisfies the test.\<close>

lemma bump_while_spec:
  "eats s (takeWhile P (rest s)) (bump_while P s) \<and> same_frame s (bump_while P s)"
proof (induction P s rule: bump_while.induct)
  case (1 P s)
  show ?case
  proof (cases "peek_is P s")
    case True
    then obtain c where c: "peek s = Some c" "P c" by (auto simp: peek_is_def split: option.splits)
    then have r: "rest s = c # rest (bump s)" using eats_bump [OF c(1)] by (simp add: eats_def)
    have "eats s ([c] @ takeWhile P (rest (bump s))) (bump_while P (bump s))"
      using eats_trans [OF eats_bump [OF c(1)]] 1 [OF True] by blast
    with True r c show ?thesis
      using 1 [OF True] same_frame_trans [OF same_frame_bump]
      by (simp add: bump_while.simps [of P s])
  next
    case False
    then have "takeWhile P (rest s) = []"
      by (auto simp: peek_is_def peek_rest split: option.splits list.splits)
    with False show ?thesis by (simp add: bump_while.simps [of P s])
  qed
qed

lemma skip_whitespace_spec:
  "\<exists>w. ws w \<and> eats s w (skip_whitespace s) \<and> same_frame s (skip_whitespace s)
     \<and> (rest (skip_whitespace s) = [] \<or> \<not> is_ws (hd (rest (skip_whitespace s))))"
proof -
  let ?w = "takeWhile is_ws (rest s)" and ?t = "skip_whitespace s"
  have e: "eats s ?w ?t" "same_frame s ?t"
    using bump_while_spec [of s is_ws] by (simp_all add: skip_whitespace_def)
  have "rest ?t = dropWhile is_ws (rest s)"
    using eats_rest [OF e(1)] by (metis append_eq_conv_conj dropWhile_eq_drop takeWhile_dropWhile_id)
  then have "rest ?t = [] \<or> \<not> is_ws (hd (rest ?t))" using hd_dropWhile [of is_ws "rest s"] by auto
  moreover have "ws ?w" by (auto simp: ws_def list_all_iff dest: set_takeWhileD)
  ultimately show ?thesis using e by blast
qed

text \<open>Blanks before something that is not blank are skipped exactly.\<close>

lemma skip_whitespace_eats:
  assumes "rest s = w @ r" "ws w" "r = [] \<or> \<not> is_ws (hd r)"
  shows "eats s w (skip_whitespace s) \<and> same_frame s (skip_whitespace s) \<and> rest (skip_whitespace s) = r"
proof -
  have "takeWhile is_ws (rest s) = w"
    using assms by (cases r) (auto simp: ws_def list_all_iff takeWhile_append2 takeWhile_eq_all_conv)
  then have "eats s w (skip_whitespace s)" "same_frame s (skip_whitespace s)"
    using bump_while_spec [of s is_ws] by (simp_all add: skip_whitespace_def)
  then show ?thesis using assms(1) by (auto simp: eats_def)
qed

section \<open>Literals and numbers\<close>

lemma literal_spec:
  "literal word s = Inr s' \<longleftrightarrow>
     (\<exists>r. rest s = word @ r) \<and> s' = (bump ^^ length word) s"
proof (induction word arbitrary: s)
  case (Cons c word)
  have "rest s = c # rest (bump s)" if "peek s = Some c"
    using eats_bump [OF that] by (simp add: eats_def)
  then show ?case
    using Cons [of "bump s"]
    by (auto simp: peek_rest rest_bump funpow_swap1 split: list.splits)
qed auto

lemma eats_funpow:
  assumes "rest s = bs @ r"
  shows "eats s bs ((bump ^^ length bs) s) \<and> same_frame s ((bump ^^ length bs) s)"
proof -
  have "rest ((bump ^^ length bs) s) = drop (length bs) (rest s)"
    by (simp add: rest_def add.commute)
  with assms show ?thesis by (simp add: eats_def same_frame_def)
qed

lemma literal_eats: "literal word s = Inr s' \<Longrightarrow> eats s word s' \<and> same_frame s s'"
  using literal_spec eats_funpow by metis

lemma literal_accepts: "rest s = word @ r \<Longrightarrow> \<exists>s'. literal word s = Inr s' \<and> eats s word s' \<and> same_frame s s'"
  using literal_spec eats_funpow by metis

text \<open>What may follow a number: nothing that would continue it.\<close>

definition stops :: "bytes \<Rightarrow> bool" where
  "stops r \<longleftrightarrow> r = [] \<or> \<not> is_digit (hd r)"

lemma digits_sound:
  "digits s = Inr s' \<Longrightarrow> \<exists>ds. jdigits ds \<and> eats s ds s' \<and> same_frame s s' \<and> stops (rest s')"
proof -
  assume d: "digits s = Inr s'"
  let ?ds = "takeWhile is_digit (rest s)"
  have s': "s' = bump_while is_digit s" "sc_at s' \<noteq> sc_at s"
    using d by (auto simp: digits_def Let_def split: if_splits)
  have e: "eats s ?ds s'" "same_frame s s'" using bump_while_spec [of s is_digit] s'(1) by simp_all
  then have "?ds \<noteq> []" using s'(2) by (auto simp: eats_def)
  moreover have "rest s' = dropWhile is_digit (rest s)"
    using eats_rest [OF e(1)] by (metis append_eq_conv_conj dropWhile_eq_drop takeWhile_dropWhile_id)
  then have "stops (rest s')" using hd_dropWhile [of is_digit "rest s"] by (auto simp: stops_def)
  moreover have "list_all is_digit ?ds" by (auto simp: list_all_iff dest: set_takeWhileD)
  ultimately show ?thesis using e by (auto simp: jdigits_def)
qed

lemma digits_complete:
  assumes "rest s = ds @ r" "jdigits ds" "stops r"
  shows "\<exists>s'. digits s = Inr s' \<and> eats s ds s' \<and> same_frame s s' \<and> rest s' = r"
proof -
  have "takeWhile is_digit (rest s) = ds"
    using assms by (cases r) (auto simp: jdigits_def stops_def list_all_iff takeWhile_append2
        takeWhile_eq_all_conv)
  then have e: "eats s ds (bump_while is_digit s)" "same_frame s (bump_while is_digit s)"
    using bump_while_spec [of s is_digit] by simp_all
  then have "sc_at (bump_while is_digit s) \<noteq> sc_at s"
    using assms(2) by (auto simp: eats_def jdigits_def)
  with e show ?thesis using assms(1) by (auto simp: digits_def Let_def eats_def)
qed

lemma number_int_sound:
  "number_int s = Inr s' \<Longrightarrow> \<exists>i. jint i \<and> eats s i s' \<and> same_frame s s'"
proof (cases "peek s = Some 48")
  case True
  assume "number_int s = Inr s'"
  with True have "s' = bump s" by (auto simp: number_int_def Let_def split: if_splits)
  then show ?thesis using eats_bump [OF True] by (auto simp: jint_def)
next
  case False
  assume "number_int s = Inr s'"
  with False obtain ds where ds: "jdigits ds" "eats s ds s'" "same_frame s s'"
    using digits_sound by (auto simp: number_int_def)
  moreover have "hd ds \<noteq> 48"
    using False ds(1) eats_rest [OF ds(2)] by (auto simp: peek_rest jdigits_def neq_Nil_conv)
  ultimately show ?thesis by (auto simp: jint_def)
qed

lemma number_int_complete:
  assumes "rest s = i @ r" "jint i" "stops r"
  shows "\<exists>s'. number_int s = Inr s' \<and> eats s i s' \<and> same_frame s s' \<and> rest s' = r"
proof (cases "i = [48]")
  case True
  then have p: "peek s = Some 48" using assms(1) by (simp add: peek_rest)
  have "rest (bump s) = r" using assms(1) True by (simp add: rest_bump)
  then have "\<not> peek_is is_digit (bump s)"
    using assms(3) by (auto simp: peek_is_def peek_rest stops_def split: list.splits)
  then show ?thesis using p eats_bump [OF p] True \<open>rest (bump s) = r\<close> by (simp add: number_int_def Let_def)
next
  case False
  then have i: "jdigits i" "hd i \<noteq> 48" using assms(2) by (auto simp: jint_def)
  then have "peek s \<noteq> Some 48" using assms(1) by (auto simp: peek_rest jdigits_def neq_Nil_conv)
  then show ?thesis using digits_complete [OF assms(1) i(1) assms(3)] by (simp add: number_int_def)
qed

lemma number_frac_sound: "number_frac s = Inr s' \<Longrightarrow> \<exists>f. jfrac f \<and> eats s f s' \<and> same_frame s s'"
proof (cases "peek s = Some 46")
  case True
  assume "number_frac s = Inr s'"
  with True obtain ds where ds: "jdigits ds" "eats (bump s) ds s'" "same_frame (bump s) s'"
    using digits_sound by (auto simp: number_frac_def)
  have "eats s ([46] @ ds) s'" by (rule eats_trans [OF eats_bump [OF True] ds(2)])
  then show ?thesis
    using ds same_frame_trans [OF same_frame_bump ds(3)]
    by (intro exI [of _ "[46] @ ds"]) (simp add: jfrac_def)
next
  case False
  assume "number_frac s = Inr s'"
  with False show ?thesis by (intro exI [of _ "[]"]) (simp add: number_frac_def jfrac_def)
qed

lemma number_frac_complete:
  assumes "rest s = f @ r" "jfrac f" "stops r" "r = [] \<or> hd r \<noteq> 46"
  shows "\<exists>s'. number_frac s = Inr s' \<and> eats s f s' \<and> same_frame s s' \<and> rest s' = r"
proof (cases "f = []")
  case True
  then have "peek s \<noteq> Some 46" using assms(1,4) by (auto simp: peek_rest split: list.splits)
  then show ?thesis using True assms(1) by (simp add: number_frac_def)
next
  case False
  then obtain ds where ds: "f = 46 # ds" "jdigits ds" using assms(2) by (auto simp: jfrac_def)
  have p: "peek s = Some 46" using assms(1) ds by (simp add: peek_rest)
  have "rest (bump s) = ds @ r" using assms(1) ds by (simp add: rest_bump)
  from digits_complete [OF this ds(2) assms(3)] obtain s' where
    s': "digits (bump s) = Inr s'" "eats (bump s) ds s'" "same_frame (bump s) s'" "rest s' = r" by blast
  have "eats s f s'" using eats_trans [OF eats_bump [OF p] s'(2)] ds(1) by simp
  then show ?thesis
    using p s' same_frame_trans [OF same_frame_bump s'(3)] by (simp add: number_frac_def)
qed

lemma number_exp_sound: "number_exp s = Inr s' \<Longrightarrow> \<exists>e. jexp e \<and> eats s e s' \<and> same_frame s s'"
proof (cases "peek_is (\<lambda>c. c = 101 \<or> c = 69) s")
  case True
  assume e: "number_exp s = Inr s'"
  from True obtain c where c: "peek s = Some c" "c = 101 \<or> c = 69"
    by (auto simp: peek_is_def split: option.splits)
  let ?t = "if peek_is (\<lambda>c. c = 43 \<or> c = 45) (bump s) then bump (bump s) else bump s"
  obtain sg where sg: "eats (bump s) sg ?t" "same_frame (bump s) ?t" "sg = [] \<or> sg = [43] \<or> sg = [45]"
  proof (cases "peek_is (\<lambda>c. c = 43 \<or> c = 45) (bump s)")
    case True
    then obtain g where "peek (bump s) = Some g" "g = 43 \<or> g = 45"
      by (auto simp: peek_is_def split: option.splits)
    then show ?thesis using True that [of "[g]"] eats_bump by auto
  next
    case False
    then show ?thesis using that [of "[]"] by simp
  qed
  have "digits ?t = Inr s'" using e True by (simp add: number_exp_def Let_def)
  then obtain ds where ds: "jdigits ds" "eats ?t ds s'" "same_frame ?t s'"
    using digits_sound by blast
  have "eats s ([c] @ sg @ ds) s'"
    by (rule eats_trans [OF eats_bump [OF c(1)] eats_trans [OF sg(1) ds(2)]])
  moreover have "same_frame s s'"
    by (rule same_frame_trans [OF same_frame_bump same_frame_trans [OF sg(2) ds(3)]])
  moreover have "jexp ([c] @ sg @ ds)" using c(2) sg(3) ds(1) by (auto simp: jexp_def)
  ultimately show ?thesis by blast
next
  case False
  assume "number_exp s = Inr s'"
  with False show ?thesis by (intro exI [of _ "[]"]) (simp add: number_exp_def jexp_def)
qed

lemma digit_range: "is_digit c \<Longrightarrow> c \<noteq> 43 \<and> c \<noteq> 45 \<and> c \<noteq> 46 \<and> c \<noteq> 101 \<and> c \<noteq> 69"
  by (auto simp: is_digit_def)

lemma number_exp_complete:
  assumes "rest s = e @ r" "jexp e" "stops r" "r = [] \<or> hd r \<noteq> 101 \<and> hd r \<noteq> 69"
  shows "\<exists>s'. number_exp s = Inr s' \<and> eats s e s' \<and> same_frame s s' \<and> rest s' = r"
proof (cases "e = []")
  case True
  then have "\<not> peek_is (\<lambda>c. c = 101 \<or> c = 69) s"
    using assms(1,4) by (auto simp: peek_is_def peek_rest split: list.splits)
  then show ?thesis using True assms(1) by (simp add: number_exp_def)
next
  case False
  then obtain c sg ds where e: "e = c # sg @ ds" "c = 101 \<or> c = 69" "sg = [] \<or> sg = [43] \<or> sg = [45]"
    "jdigits ds" using assms(2) by (auto simp: jexp_def)
  have p: "peek s = Some c" using assms(1) e(1) by (simp add: peek_rest)
  have r1: "rest (bump s) = sg @ ds @ r" using assms(1) e(1) by (simp add: rest_bump)
  let ?t = "if peek_is (\<lambda>c. c = 43 \<or> c = 45) (bump s) then bump (bump s) else bump s"
  have t: "eats (bump s) sg ?t \<and> same_frame (bump s) ?t \<and> rest ?t = ds @ r"
  proof (cases "sg = []")
    case True
    then have "\<not> peek_is (\<lambda>c. c = 43 \<or> c = 45) (bump s)"
      using r1 e(4) digit_range [of "hd ds"] by (cases ds) (auto simp: peek_is_def peek_rest jdigits_def)
    then show ?thesis using True r1 by simp
  next
    case False
    then obtain g where g: "sg = [g]" "g = 43 \<or> g = 45" using e(3) by auto
    then have pg: "peek (bump s) = Some g" using r1 by (simp add: peek_rest)
    then show ?thesis
      using g r1 eats_bump [OF pg] by (simp add: peek_is_def rest_bump)
  qed
  then obtain s' where s': "digits ?t = Inr s'" "eats ?t ds s'" "same_frame ?t s'" "rest s' = r"
    using digits_complete [OF _ e(4) assms(3)] by blast
  have "eats s ([c] @ sg @ ds) s'"
    using eats_trans [OF eats_bump [OF p] eats_trans [of "bump s" sg ?t ds s']] t s'(2) by blast
  moreover have "same_frame s s'"
    using same_frame_trans [OF same_frame_bump same_frame_trans [of "bump s" ?t s']] t s'(3) by blast
  moreover have "number_exp s = Inr s'"
    using p e(2) s'(1) by (simp add: number_exp_def peek_is_def Let_def)
  ultimately show ?thesis using e(1) s'(4) by auto
qed

lemma number_sound: "number s = Inr s' \<Longrightarrow> \<exists>v. jnumber v \<and> eats s v s' \<and> same_frame s s'"
proof -
  assume n: "number s = Inr s'"
  let ?t = "if peek s = Some 45 then bump s else s"
  obtain m where m: "eats s m ?t" "same_frame s ?t" "m = [] \<or> m = [45]"
  proof (cases "peek s = Some 45")
    case True
    then show ?thesis using that [of "[45]"] eats_bump [OF True] by simp
  next
    case False
    then show ?thesis using that [of "[]"] by simp
  qed
  from n obtain s1 s2 where steps: "number_int ?t = Inr s1" "number_frac s1 = Inr s2"
    "number_exp s2 = Inr s'" by (auto simp: number_def)
  obtain i where i: "jint i" "eats ?t i s1" "same_frame ?t s1" using number_int_sound [OF steps(1)] by blast
  obtain f where f: "jfrac f" "eats s1 f s2" "same_frame s1 s2" using number_frac_sound [OF steps(2)] by blast
  obtain e where e: "jexp e" "eats s2 e s'" "same_frame s2 s'" using number_exp_sound [OF steps(3)] by blast
  have "eats s (m @ i @ f @ e) s'"
    by (rule eats_trans [OF m(1) eats_trans [OF i(2) eats_trans [OF f(2) e(2)]]])
  moreover have "same_frame s s'"
    by (rule same_frame_trans [OF m(2) same_frame_trans [OF i(3) same_frame_trans [OF f(3) e(3)]]])
  ultimately show ?thesis using m(3) i(1) f(1) e(1) unfolding jnumber_def by blast
qed

text \<open>What follows a value in a document: the end, a blank, a comma or a closing bracket.\<close>

definition follows :: "bytes \<Rightarrow> bool" where
  "follows r \<longleftrightarrow> r = [] \<or> is_ws (hd r) \<or> hd r = 44 \<or> hd r = 93 \<or> hd r = 125"

lemma follows_stops:
  "follows r \<Longrightarrow> stops r \<and> (r = [] \<or> hd r \<noteq> 46) \<and> (r = [] \<or> hd r \<noteq> 101 \<and> hd r \<noteq> 69)"
  by (auto simp: follows_def stops_def is_ws_def is_digit_def)

lemma jint_ne: "jint i \<Longrightarrow> i \<noteq> [] \<and> is_digit (hd i)"
  by (auto simp: jint_def jdigits_def is_digit_def list_all_iff)

lemma number_complete:
  assumes "rest s = v @ r" "jnumber v" "follows r"
  shows "\<exists>s'. number s = Inr s' \<and> eats s v s' \<and> same_frame s s' \<and> rest s' = r"
proof -
  obtain m i f e where v: "v = m @ i @ f @ e" "m = [] \<or> m = [45]" "jint i" "jfrac f" "jexp e"
    using assms(2) by (auto simp: jnumber_def)
  note fol = follows_stops [OF assms(3)]
  have stop1: "stops (e @ r)" "e @ r = [] \<or> hd (e @ r) \<noteq> 46"
    using fol v(5) by (auto simp: jexp_def stops_def is_digit_def)
  have stop2: "stops (f @ e @ r)" using stop1 v(4) by (auto simp: jfrac_def stops_def is_digit_def)
  let ?t = "if peek s = Some 45 then bump s else s"
  have t: "eats s m ?t \<and> same_frame s ?t \<and> rest ?t = i @ f @ e @ r"
  proof (cases "m = []")
    case True
    then have "peek s \<noteq> Some 45"
      using assms(1) v(1) jint_ne [OF v(3)] digit_range by (auto simp: peek_rest neq_Nil_conv)
    then show ?thesis using True assms(1) v(1) by simp
  next
    case False
    then have "m = [45]" using v(2) by simp
    then have p: "peek s = Some 45" using assms(1) v(1) by (simp add: peek_rest)
    then show ?thesis using \<open>m = [45]\<close> eats_bump [OF p] assms(1) v(1) by (simp add: rest_bump)
  qed
  then obtain s1 where s1: "number_int ?t = Inr s1" "eats ?t i s1" "same_frame ?t s1" "rest s1 = f @ e @ r"
    using number_int_complete [OF _ v(3) stop2] by blast
  then obtain s2 where s2: "number_frac s1 = Inr s2" "eats s1 f s2" "same_frame s1 s2" "rest s2 = e @ r"
    using number_frac_complete [OF _ v(4) stop1] by blast
  then obtain s3 where s3: "number_exp s2 = Inr s3" "eats s2 e s3" "same_frame s2 s3" "rest s3 = r"
    using number_exp_complete [OF _ v(5)] fol by blast
  have e: "eats s (m @ i @ f @ e) s3"
    using t eats_trans [of s m ?t "i @ f @ e" s3]
      eats_trans [OF s1(2) eats_trans [OF s2(2) s3(2)]] by blast
  moreover have "same_frame s s3"
    using t same_frame_trans [of s ?t s3] same_frame_trans [OF s1(3) same_frame_trans [OF s2(3) s3(3)]]
    by blast
  moreover have "sc_at s3 \<noteq> sc_at s" using e jint_ne [OF v(3)] by (simp add: eats_def)
  then have "number s = Inr s3" using s1(1) s2(1) s3(1) by (simp add: number_def)
  ultimately show ?thesis using v(1) s3(4) by auto
qed

section \<open>Strings\<close>

lemma get_rest: "get (sc_input s) (sc_at s + j) = (case drop j (rest s) of [] \<Rightarrow> None | c # _ \<Rightarrow> Some c)"
proof -
  have "drop j (rest s) = drop (sc_at s + j) (sc_input s)" by (simp add: rest_def add.commute)
  then show ?thesis
    using peek_rest [of "s\<lparr>sc_at := sc_at s + j\<rparr>"] by (simp add: peek_def rest_def)
qed

lemma hex_digits_list:
  "hex_digits inp at k acc =
     (if k \<le> length (drop at inp) then hexl (take k (drop at inp)) acc else None)"
proof (induction k arbitrary: at acc)
  case (Suc k)
  show ?case
  proof (cases "at < length inp")
    case True
    then have "drop at inp = inp ! at # drop (Suc at) inp" by (simp add: Cons_nth_drop_Suc)
    with True Suc show ?thesis by (auto simp: get_def split: option.split)
  next
    case False
    then show ?thesis by (simp add: get_def)
  qed
qed simp

lemma hex4_at_rest: "hex4_at s (sc_at s + j) = hex4 (take 4 (drop j (rest s)))"
proof -
  have "drop (sc_at s + j) (sc_input s) = drop j (rest s)" by (simp add: rest_def add.commute)
  then show ?thesis by (auto simp: hex4_at_def hex_digits_list hex4_def)
qed

lemma hex4_length: "hex4 hs = Some h \<Longrightarrow> length hs = 4"
  by (simp add: hex4_def split: if_splits)

lemma hexl_digits: "hexl cs acc = Some h \<Longrightarrow> c \<in> set cs \<Longrightarrow> to_digit16 c \<noteq> None"
  by (induction cs arbitrary: acc) (auto split: option.splits)

lemma hex4_no_quote: "hex4 hs = Some h \<Longrightarrow> 34 \<notin> set hs"
  using hexl_digits [of hs 0 h 34] by (auto simp: hex4_def to_digit16_def split: if_splits)

lemma starts_low_iff:
  "starts_low cs \<longleftrightarrow>
     (\<exists>r l. cs = 92 # 117 # r \<and> hex4 (take 4 r) = Some l \<and> low_surrogate l)"
proof
  assume "starts_low cs"
  then obtain ls l r where "cs = 92 # 117 # ls @ r" "hex4 ls = Some l" "low_surrogate l"
    by (auto simp: starts_low_def)
  then show "\<exists>r l. cs = 92 # 117 # r \<and> hex4 (take 4 r) = Some l \<and> low_surrogate l"
    using hex4_length [of ls l] by auto
next
  assume "\<exists>r l. cs = 92 # 117 # r \<and> hex4 (take 4 r) = Some l \<and> low_surrogate l"
  then show "starts_low cs" by (metis append_take_drop_id starts_low_def)
qed

lemma prefix_before: "cs @ x # r = ys @ t \<Longrightarrow> x \<notin> set ys \<Longrightarrow> \<exists>u. cs = ys @ u"
  by (induction ys arbitrary: cs) (auto simp: append_eq_Cons_conv)

lemma starts_low_quote: "starts_low (cs @ 34 # r) \<longleftrightarrow> starts_low cs"
proof
  assume "starts_low (cs @ 34 # r)"
  then obtain ls l t where eq: "cs @ 34 # r = (92 # 117 # ls) @ t" and ls: "hex4 ls = Some l"
    "low_surrogate l" by (auto simp: starts_low_def)
  have "34 \<notin> set (92 # 117 # ls)" using hex4_no_quote [OF ls(1)] by auto
  then have "\<exists>u. cs = (92 # 117 # ls) @ u" using prefix_before [OF eq] by blast
  then show "starts_low cs" using ls by (auto simp: starts_low_def)
next
  assume "starts_low cs"
  then obtain ls l t where "cs @ 34 # r = 92 # 117 # ls @ (t @ 34 # r)" "hex4 ls = Some l"
    "low_surrogate l" by (auto simp: starts_low_def)
  then show "starts_low (cs @ 34 # r)" unfolding starts_low_def by blast
qed

lemma paired_iff:
  "(peek s = Some 92 \<and> get (sc_input s) (sc_at s + 1) = Some 117
    \<and> (case hex4_at s (sc_at s + 2) of None \<Rightarrow> False | Some low \<Rightarrow> low_surrogate low))
   \<longleftrightarrow> starts_low (rest s)"
  unfolding starts_low_iff hex4_at_rest get_rest peek_rest
  by (auto simp: drop_Suc numeral_2_eq_2 neq_Nil_conv split: list.splits option.splits)

lemma eats_take: "length bs \<le> length (rest s) \<Longrightarrow> bs = take (length bs) (rest s) \<Longrightarrow>
   eats s bs ((bump ^^ length bs) s) \<and> same_frame s ((bump ^^ length bs) s)"
  using eats_funpow by (metis append_take_drop_id)

lemma escape_sequence_cases:
  assumes "hex4 (take 4 (rest s)) = Some h"
  obtains s1 where "s1 = (bump ^^ 4) s" "eats s (take 4 (rest s)) s1" "same_frame s s1"
    "escape_sequence s =
       (if high_surrogate h then if starts_low (rest s1) then Inr (4, (bump ^^ 6) s1) else Inr (3, s1)
        else Inr (utf8_len h, s1))"
proof -
  have len: "length (take 4 (rest s)) = 4" using hex4_length [OF assms] .
  have "eats s (take 4 (rest s)) ((bump ^^ 4) s)" "same_frame s ((bump ^^ 4) s)"
    using eats_take [of "take 4 (rest s)" s] len by auto
  moreover have "hex4_at s (sc_at s) = Some h" using hex4_at_rest [of s 0] assms by simp
  ultimately show ?thesis
    using that [of "(bump ^^ 4) s"] paired_iff [of "(bump ^^ 4) s"]
    by (simp add: escape_sequence_def Let_def utf8_len_def)
qed

lemma escape_pair:
  assumes "starts_low (rest s)"
  obtains ls l where "hex4 ls = Some l" "low_surrogate l" "eats s (92 # 117 # ls) ((bump ^^ 6) s)"
    "same_frame s ((bump ^^ 6) s)"
proof -
  obtain ls l r where r: "rest s = (92 # 117 # ls) @ r" and ls: "hex4 ls = Some l" "low_surrogate l"
    using assms by (auto simp: starts_low_def)
  have "length (92 # 117 # ls) = 6" using hex4_length [OF ls(1)] by simp
  then show ?thesis using eats_funpow [OF r] that [OF ls] by simp
qed

lemma escape_sound:
  assumes "escape_sequence s = Inr (k, t)" "jchars m cs" "rest t = cs @ 34 # r"
  shows "\<exists>es. eats s es t \<and> same_frame s t \<and> jchars (k + m) (92 # 117 # es @ cs)"
proof -
  obtain h where h: "hex4 (take 4 (rest s)) = Some h"
    using assms(1) hex4_at_rest [of s 0] by (auto simp: escape_sequence_def split: option.splits)
  obtain s1 where s1: "eats s (take 4 (rest s)) s1" "same_frame s s1"
    "escape_sequence s =
       (if high_surrogate h then if starts_low (rest s1) then Inr (4, (bump ^^ 6) s1) else Inr (3, s1)
        else Inr (utf8_len h, s1))"
    using escape_sequence_cases [OF h] by blast
  show ?thesis
  proof (cases "high_surrogate h \<and> starts_low (rest s1)")
    case True
    then have t: "k = 4" "t = (bump ^^ 6) s1" using assms(1) s1(3) by simp_all
    obtain ls l where ls: "hex4 ls = Some l" "low_surrogate l" "eats s1 (92 # 117 # ls) t"
      "same_frame s1 t" using escape_pair True t(2) by blast
    have "jchars (4 + m) (92 # 117 # take 4 (rest s) @ 92 # 117 # ls @ cs)"
      using h True ls assms(2) by (intro jchars.pair) auto
    then show ?thesis
      using eats_trans [OF s1(1) ls(3)] same_frame_trans [OF s1(2) ls(4)] t(1)
      by (intro exI [of _ "take 4 (rest s) @ 92 # 117 # ls"]) simp
  next
    case False
    then have t: "t = s1" "k = (if high_surrogate h then 3 else utf8_len h)"
      using assms(1) s1(3) by (auto split: if_splits)
    have "\<not> starts_low cs" if "high_surrogate h"
      using False that t(1) assms(3) starts_low_quote by simp
    then have "jchars (k + m) (92 # 117 # take 4 (rest s) @ cs)"
      using h t(2) assms(2) by (auto intro: jchars.lone jchars.unicode)
    then show ?thesis using s1 t(1) by blast
  qed
qed

lemma scan_string_loop_sound:
  "scan_string_loop s d = Inr (n, s') \<Longrightarrow>
   \<exists>cs m. n = d + m \<and> jchars m cs \<and> eats s (cs @ [34]) s' \<and> same_frame s s'"
proof (induction s d arbitrary: n rule: scan_string_loop.induct)
  case (1 s d)
  from 1(4) obtain c where c: "peek s = Some c"
    by (auto simp: scan_string_loop.simps [of s d] split: option.splits)
  have b: "eats s [c] (bump s)" by (rule eats_bump [OF c])
  consider (quote) "c = 34" | (esc) "c \<noteq> 34" "c = 92" | (plain) "c \<noteq> 34" "c \<noteq> 92" by blast
  then show ?case
  proof cases
    case quote
    then have "n = d" "s' = bump s" using 1(4) c by (simp_all add: scan_string_loop.simps [of s d])
    then show ?thesis using quote b jchars.nil by (auto intro!: exI [of _ "[]"] exI [of _ 0])
  next
    case plain
    then have "\<not> c < 32" "scan_string_loop (bump s) (d + 1) = Inr (n, s')"
      using 1(4) c by (auto simp: scan_string_loop.simps [of s d] split: if_splits)
    from 1(3) [OF c plain this] obtain cs m where m: "n = d + 1 + m" "jchars m cs"
      "eats (bump s) (cs @ [34]) s'" "same_frame (bump s) s'" by blast
    have "eats s ((c # cs) @ [34]) s'" using eats_trans [OF b m(3)] by simp
    moreover have "jchars (Suc m) (c # cs)" using plain \<open>\<not> c < 32\<close> m(2) by (intro jchars.plain)
    ultimately show ?thesis
      using m same_frame_trans [OF same_frame_bump m(4)] by (intro exI [of _ "c # cs"] exI [of _ "Suc m"]) simp
  next
    case esc
    obtain x where x: "peek (bump s) = Some x"
      using 1(4) c esc by (auto simp: scan_string_loop.simps [of s d] Let_def split: option.splits)
    have bx: "eats s [c, x] (bump (bump s))" using eats_trans [OF b eats_bump [OF x]] by simp
    have fx: "same_frame s (bump (bump s))" by (rule same_frame_trans [OF same_frame_bump same_frame_bump])
    show ?thesis
    proof (cases "simple_escape x")
      case True
      then have "scan_string_loop (bump (bump s)) (d + 1) = Inr (n, s')"
        using 1(4) c esc x by (simp add: scan_string_loop.simps [of s d] Let_def)
      from 1(1) [OF c esc refl x True this] obtain cs m where m: "n = d + 1 + m" "jchars m cs"
        "eats (bump (bump s)) (cs @ [34]) s'" "same_frame (bump (bump s)) s'" by blast
      have "eats s ((92 # x # cs) @ [34]) s'" using eats_trans [OF bx m(3)] esc by simp
      moreover have "jchars (Suc m) (92 # x # cs)" using True m(2) by (intro jchars.escape)
      ultimately show ?thesis
        using m same_frame_trans [OF fx m(4)]
        by (intro exI [of _ "92 # x # cs"] exI [of _ "Suc m"]) simp
    next
      case False
      then have u: "x = 117" using 1(4) c esc x
        by (auto simp: scan_string_loop.simps [of s d] Let_def split: if_splits)
      then obtain k t where t: "escape_sequence (bump (bump s)) = Inr (k, t)"
        "scan_string_loop t (d + k) = Inr (n, s')"
        using 1(4) c esc x False
        by (auto simp: scan_string_loop.simps [of s d] Let_def split: sum.splits)
      from 1(2) [OF c esc refl x False u t(1) refl t(2)] obtain cs m where m: "n = d + k + m"
        "jchars m cs" "eats t (cs @ [34]) s'" "same_frame t s'" by blast
      obtain es where es: "eats (bump (bump s)) es t" "same_frame (bump (bump s)) t"
        "jchars (k + m) (92 # 117 # es @ cs)"
        using escape_sound [OF t(1) m(2)] eats_rest [OF m(3)] by auto
      have "eats s ((92 # 117 # es @ cs) @ [34]) s'"
        using eats_trans [OF bx eats_trans [OF es(1) m(3)]] esc u by simp
      then show ?thesis
        using m es(3) same_frame_trans [OF fx same_frame_trans [OF es(2) m(4)]]
        by (intro exI [of _ "92 # 117 # es @ cs"] exI [of _ "k + m"]) simp
    qed
  qed
qed

lemma escape_rest:
  assumes "rest s = hs @ t" "hex4 hs = Some h"
  shows "hex4 (take 4 (rest s)) = Some h" "rest ((bump ^^ 4) s) = t"
proof -
  have len: "length hs = 4" using hex4_length [OF assms(2)] .
  then show "hex4 (take 4 (rest s)) = Some h" using assms by simp
  show "rest ((bump ^^ 4) s) = t" using eats_funpow [OF assms(1)] len assms(1) by (simp add: eats_def)
qed

lemma escape_single:
  assumes "rest s = hs @ t" "hex4 hs = Some h" "\<not> high_surrogate h"
  shows "escape_sequence s = Inr (utf8_len h, (bump ^^ 4) s)"
  using escape_sequence_cases [OF escape_rest(1) [OF assms(1,2)]] assms(3) by metis

lemma escape_double:
  assumes "rest s = hs @ 92 # 117 # ls @ t" "hex4 hs = Some h" "high_surrogate h"
    and "hex4 ls = Some l" "low_surrogate l"
  shows "escape_sequence s = Inr (4, (bump ^^ 10) s)"
proof -
  have "starts_low (rest ((bump ^^ 4) s))"
    using escape_rest(2) [OF assms(1,2)] assms(4,5) by (auto simp: starts_low_def)
  then have "escape_sequence s = Inr (4, (bump ^^ 6) ((bump ^^ 4) s))"
    using escape_sequence_cases [OF escape_rest(1) [OF assms(1,2)]] assms(3) by metis
  moreover have "(bump ^^ 6) ((bump ^^ 4) s) = (bump ^^ (6 + 4)) s" by (simp only: funpow_add o_apply)
  ultimately show ?thesis by simp
qed

lemma escape_lone:
  assumes "rest s = hs @ t" "hex4 hs = Some h" "high_surrogate h" "\<not> starts_low t"
  shows "escape_sequence s = Inr (3, (bump ^^ 4) s)"
  using escape_sequence_cases [OF escape_rest(1) [OF assms(1,2)]] escape_rest(2) [OF assms(1,2)] assms(3,4)
  by metis

text \<open>One escape and the rest of the string.\<close>

lemma unicode_step:
  assumes r: "rest s = 92 # 117 # hs @ cs @ 34 # r"
    and esc: "escape_sequence (bump (bump s)) = Inr (k, (bump ^^ m) (bump (bump s)))"
    and len: "length hs = m"
    and IH: "\<And>s d. rest s = cs @ 34 # r \<Longrightarrow>
      \<exists>s'. scan_string_loop s d = Inr (d + n, s') \<and> eats s (cs @ [34]) s' \<and> same_frame s s'"
  shows "\<exists>s'. scan_string_loop s d = Inr (d + (k + n), s') \<and> eats s ((92 # 117 # hs @ cs) @ [34]) s'
     \<and> same_frame s s'"
proof -
  let ?t = "(bump ^^ m) (bump (bump s))"
  have p: "peek s = Some 92" "peek (bump s) = Some 117"
    "rest (bump (bump s)) = hs @ cs @ 34 # r" using r by (simp_all add: peek_rest rest_bump)
  have t: "eats (bump (bump s)) hs ?t" "same_frame (bump (bump s)) ?t"
    using eats_funpow [OF p(3)] len by auto
  then have "rest ?t = cs @ 34 # r" using p(3) by (simp add: eats_def)
  from IH [OF this, of "d + k"] obtain s' where s': "scan_string_loop ?t (d + k) = Inr (d + k + n, s')"
    "eats ?t (cs @ [34]) s'" "same_frame ?t s'" by blast
  have "scan_string_loop s d = Inr (d + (k + n), s')"
    using p esc s'(1) by (simp add: scan_string_loop.simps [of s d] Let_def simple_escape_def add.assoc)
  moreover have "eats s ([92] @ [117] @ hs @ cs @ [34]) s'"
    by (rule eats_trans [OF eats_bump [OF p(1)] eats_trans [OF eats_bump [OF p(2)] eats_trans [OF t(1) s'(2)]]])
  moreover have "same_frame s s'"
    by (rule same_frame_trans [OF same_frame_bump
        same_frame_trans [OF same_frame_bump same_frame_trans [OF t(2) s'(3)]]])
  ultimately show ?thesis by auto
qed

lemma scan_string_loop_complete:
  "jchars n cs \<Longrightarrow> rest s = cs @ 34 # r \<Longrightarrow>
   \<exists>s'. scan_string_loop s d = Inr (d + n, s') \<and> eats s (cs @ [34]) s' \<and> same_frame s s'"
proof (induction arbitrary: s d rule: jchars.induct)
  case nil
  then have p: "peek s = Some 34" by (simp add: peek_rest)
  then show ?case using eats_bump [OF p] by (simp add: scan_string_loop.simps [of s d])
next
  case (plain c n cs)
  then have p: "peek s = Some c" "rest (bump s) = cs @ 34 # r" by (simp_all add: peek_rest rest_bump)
  from plain.IH [OF p(2), of "d + 1"] obtain s' where
    s': "scan_string_loop (bump s) (d + 1) = Inr (d + 1 + n, s')" "eats (bump s) (cs @ [34]) s'"
    "same_frame (bump s) s'" by blast
  then show ?case
    using p plain.hyps eats_trans [OF eats_bump [OF p(1)] s'(2)] same_frame_trans [OF same_frame_bump s'(3)]
    by (simp add: scan_string_loop.simps [of s d])
next
  case (escape c n cs)
  then have p: "peek s = Some 92" "peek (bump s) = Some c" "rest (bump (bump s)) = cs @ 34 # r"
    by (simp_all add: peek_rest rest_bump)
  from escape.IH [OF p(3), of "d + 1"] obtain s' where
    s': "scan_string_loop (bump (bump s)) (d + 1) = Inr (d + 1 + n, s')"
    "eats (bump (bump s)) (cs @ [34]) s'" "same_frame (bump (bump s)) s'" by blast
  then show ?case
    using p escape.hyps eats_trans [OF eats_bump [OF p(1)] eats_trans [OF eats_bump [OF p(2)] s'(2)]]
      same_frame_trans [OF same_frame_bump same_frame_trans [OF same_frame_bump s'(3)]]
    by (simp add: scan_string_loop.simps [of s d] Let_def)
next
  case (unicode hs h n cs)
  show ?case
  proof (rule unicode_step)
    show "rest s = 92 # 117 # hs @ cs @ 34 # r" using unicode.prems by simp
    show "escape_sequence (bump (bump s)) = Inr (utf8_len h, (bump ^^ 4) (bump (bump s)))"
      using unicode.prems unicode.hyps by (intro escape_single) (simp_all add: rest_bump)
  qed (use unicode hex4_length [of hs h] in auto)
next
  case (pair hs h ls l n cs)
  have esc: "escape_sequence (bump (bump s)) = Inr (4, (bump ^^ 10) (bump (bump s)))"
    using pair.prems pair.hyps by (intro escape_double) (simp_all add: rest_bump)
  have len: "length (hs @ 92 # 117 # ls) = 10"
    using pair.hyps hex4_length [of hs h] hex4_length [of ls l] by simp
  from unicode_step [OF _ esc len pair.IH, of r d] pair.prems show ?case by simp
next
  case (lone hs h cs n)
  show ?case
  proof (rule unicode_step)
    show "rest s = 92 # 117 # hs @ cs @ 34 # r" using lone.prems by simp
    show "escape_sequence (bump (bump s)) = Inr (3, (bump ^^ 4) (bump (bump s)))"
      using lone.prems lone.hyps
      by (intro escape_lone [of _ hs "cs @ 34 # r" h]) (simp_all add: rest_bump starts_low_quote)
  qed (use lone hex4_length [of hs h] in auto)
qed

end
