(* ===== verification/A1_Admission.thy ===== *)
theory A1_Admission
  imports A1_Grammar
begin

text \<open>
  Values: the scanner terminates within its fuel, and in admission mode it accepts exactly the
  grammar of \<open>A1_Grammar\<close>. The properties of document admission close the theory.
\<close>

section \<open>Strings as tokens\<close>

lemma scan_string_sound:
  assumes "peek s = Some 34" "scan_string s = Inr (n, s')"
  shows "\<exists>k. jstring n k \<and> eats s k s' \<and> same_frame s s'"
proof -
  obtain cs m where cs: "n = 0 + m" "jchars m cs" "eats (bump s) (cs @ [34]) s'" "same_frame (bump s) s'"
    using scan_string_loop_sound assms(2) unfolding scan_string_def by blast
  have "eats s (34 # cs @ [34]) s'" using eats_trans [OF eats_bump [OF assms(1)] cs(3)] by simp
  then show ?thesis
    using cs same_frame_trans [OF same_frame_bump cs(4)] by (auto simp: jstring_def)
qed

lemma scan_string_complete:
  assumes "rest s = k @ r" "jstring n k"
  shows "\<exists>s'. scan_string s = Inr (n, s') \<and> eats s k s' \<and> same_frame s s' \<and> rest s' = r"
proof -
  obtain cs where cs: "k = 34 # cs @ [34]" "jchars n cs" using assms(2) by (auto simp: jstring_def)
  have p: "peek s = Some 34" "rest (bump s) = cs @ 34 # r"
    using assms(1) cs(1) by (simp_all add: peek_rest rest_bump)
  obtain s' where s': "scan_string s = Inr (n, s')" "eats (bump s) (cs @ [34]) s'" "same_frame (bump s) s'"
    using scan_string_loop_complete [OF cs(2) p(2), of 0] by (auto simp: scan_string_def)
  have "eats s k s'" using eats_trans [OF eats_bump [OF p(1)] s'(2)] cs(1) by simp
  then show ?thesis
    using s' same_frame_trans [OF same_frame_bump s'(3)] assms(1) by (auto simp: eats_def)
qed

lemma scan_string_at: "scan_string s = Inr (n, s') \<Longrightarrow> sc_input s' = sc_input s \<and> sc_at s < sc_at s' \<and> same_frame s s'"
  unfolding scan_string_def
  by (drule scan_string_loop_sound)
     (auto simp: eats_def intro: same_frame_trans [OF same_frame_bump])

section \<open>Termination\<close>

definition progress :: "Scanner \<Rightarrow> Scanner \<Rightarrow> bool" where
  "progress s s' \<longleftrightarrow> sc_input s' = sc_input s \<and> sc_at s < sc_at s' \<and> sc_mode s' = sc_mode s"

lemma skip_at: "sc_at s \<le> sc_at (skip_whitespace s)"
  using skip_whitespace_spec [of s] by (auto simp: eats_def)

lemma skip_sel [simp]:
  "sc_input (skip_whitespace s) = sc_input s"
  "sc_stack (skip_whitespace s) = sc_stack s" "sc_mode (skip_whitespace s) = sc_mode s"
  using skip_whitespace_spec [of s] by (auto simp: eats_def same_frame_def)

lemma frame_sel [simp]:
  "sc_input (push f s) = sc_input s" "sc_at (push f s) = sc_at s" "sc_mode (push f s) = sc_mode s"
  "sc_stack (push f s) = sc_stack s @ [f]"
  "sc_input (pop s) = sc_input s" "sc_at (pop s) = sc_at s" "sc_mode (pop s) = sc_mode s"
  "sc_stack (pop s) = butlast (sc_stack s)"
  "sc_input (set_index i s) = sc_input s" "sc_at (set_index i s) = sc_at s"
  "sc_mode (set_index i s) = sc_mode s" "length (sc_stack (set_index i s)) = length (sc_stack s)"
  "butlast (sc_stack (set_index i s)) = butlast (sc_stack s)"
  by (auto simp: push_def pop_def set_index_def split: Frame.split)

lemma opt_then_simps [simp]:
  "opt_then None k = None" "opt_then (Some (Inl e)) k = Some (Inl e)" "opt_then (Some (Inr x)) k = k x"
  by (simp_all add: opt_then_def)

lemma opt_then_Inr: "opt_then m k = Some (Inr y) \<longleftrightarrow> (\<exists>x. m = Some (Inr x) \<and> k x = Some (Inr y))"
  by (auto simp: opt_then_def split: option.splits sum.splits)

lemma opt_then_None: "opt_then m k = None \<longleftrightarrow> m = None \<or> (\<exists>x. m = Some (Inr x) \<and> k x = None)"
  by (auto simp: opt_then_def split: option.splits sum.splits)

lemma opt_then_total: "m \<noteq> None \<Longrightarrow> (\<And>x. k x \<noteq> None) \<Longrightarrow> opt_then m k \<noteq> None"
  using opt_then_None by metis

lemma string_value_Inr:
  "string_value s = Inr (n, s') \<longleftrightarrow>
     scan_string s = Inr (n, s') \<and> (n \<le> MAX_STRING_BYTES \<or> sc_mode s' \<noteq> Admit)"
  by (auto simp: string_value_def)

lemma scalar_progress:
  "string_value s = Inr (n, s') \<Longrightarrow> progress s s' \<and> sc_stack s' = sc_stack s"
  "literal (c # word) s = Inr s' \<Longrightarrow> progress s s' \<and> sc_stack s' = sc_stack s"
  "number s = Inr s' \<Longrightarrow> progress s s' \<and> sc_stack s' = sc_stack s"
  subgoal by (auto simp: string_value_Inr progress_def same_frame_def dest!: scan_string_at)
  subgoal by (auto simp: progress_def same_frame_def eats_def simp del: literal.simps dest!: literal_eats)
  subgoal premises prems
  proof -
    have "sc_at s' \<noteq> sc_at s" using prems by (auto simp: number_def split: if_splits)
    moreover obtain v where "eats s v s'" "same_frame s s'" using number_sound [OF prems] by blast
    ultimately show ?thesis by (auto simp: progress_def same_frame_def eats_def)
  qed
  done

lemma null_Inr: "(case m of Admit \<Rightarrow> Inl e | Probe \<Rightarrow> Inr x) = Inr y \<longleftrightarrow> m = Probe \<and> x = y"
  by (cases m) auto

text \<open>How a value can be accepted.\<close>

lemma val_Inr:
  assumes "val (Suc n) s = Some (Inr s')"
  obtains c where "peek (skip_whitespace s) = Some c" "length (sc_stack s) + 1 \<le> MAX_JSON_DEPTH"
    "c = 123 \<and> object n (skip_whitespace s) = Some (Inr s')
     \<or> c = 91 \<and> array n (skip_whitespace s) = Some (Inr s')
     \<or> c = 34 \<and> (\<exists>k. string_value (skip_whitespace s) = Inr (k, s'))
     \<or> literal [116, 114, 117, 101] (skip_whitespace s) = Inr s'
     \<or> literal [102, 97, 108, 115, 101] (skip_whitespace s) = Inr s'
     \<or> literal [110, 117, 108, 108] (skip_whitespace s) = Inr s' \<and> sc_mode s' = Probe
     \<or> number (skip_whitespace s) = Inr s'"
  using assms
  by (auto simp: Let_def null_Inr simp del: literal.simps split: if_splits option.splits)

lemma value_progress:
  "(\<forall>s s'. val n s = Some (Inr s') \<longrightarrow> progress s s' \<and> sc_stack s' = sc_stack s)
   \<and> (\<forall>s s'. object n s = Some (Inr s') \<longrightarrow> progress s s' \<and> sc_stack s' = sc_stack s)
   \<and> (\<forall>s s'. object_loop n s = Some (Inr s') \<longrightarrow> progress s s' \<and> sc_stack s' = butlast (sc_stack s))
   \<and> (\<forall>s s'. array n s = Some (Inr s') \<longrightarrow> progress s s' \<and> sc_stack s' = sc_stack s)
   \<and> (\<forall>c s s'. array_loop n c s = Some (Inr s') \<longrightarrow> progress s s' \<and> sc_stack s' = butlast (sc_stack s))"
  (is "?V n \<and> ?O n \<and> ?OL n \<and> ?A n \<and> ?AL n")
proof (induction n)
  case (Suc n)
  note IH = Suc.IH
  have "?V (Suc n)"
  proof (intro allI impI)
    fix s s' assume v: "val (Suc n) s = Some (Inr s')"
    let ?t = "skip_whitespace s"
    from v have "progress ?t s' \<and> sc_stack s' = sc_stack ?t"
      by (rule val_Inr) (use IH scalar_progress in blast)
    then show "progress s s' \<and> sc_stack s' = sc_stack s"
      by (auto simp: progress_def intro: le_less_trans [OF skip_at])
  qed
  moreover have "?O (Suc n)"
  proof (intro allI impI)
    fix s s' assume v: "object (Suc n) s = Some (Inr s')"
    let ?t = "skip_whitespace (push F_Object (bump s))"
    have at: "sc_at s < sc_at ?t" using skip_at [of "push F_Object (bump s)"] by simp
    show "progress s s' \<and> sc_stack s' = sc_stack s"
    proof (cases "peek ?t = Some 125")
      case True
      with v at show ?thesis by (auto simp: Let_def progress_def)
    next
      case False
      with v IH have "progress ?t s' \<and> sc_stack s' = butlast (sc_stack ?t)" by (simp add: Let_def)
      with at show ?thesis by (auto simp: progress_def)
    qed
  qed
  moreover have "?OL (Suc n)"
  proof (intro allI impI)
    fix s s' assume v: "object_loop (Suc n) s = Some (Inr s')"
    then obtain k s1 s3 where s1: "scan_string (skip_whitespace s) = Inr (k, s1)"
      and s3: "val n (bump (skip_whitespace s1)) = Some (Inr s3)"
      and s': "object_loop n (bump (skip_whitespace s3)) = Some (Inr s')
        \<or> s' = pop (bump (skip_whitespace s3))"
      by (auto simp: Let_def opt_then_Inr split: if_splits)
    have "progress (bump (skip_whitespace s1)) s3 \<and> sc_stack s3 = sc_stack s1" using IH s3 by fastforce
    moreover have "sc_input s1 = sc_input s \<and> sc_at s < sc_at s1 \<and> sc_stack s1 = sc_stack s \<and> sc_mode s1 = sc_mode s"
      using scan_string_at [OF s1] skip_at [of s] by (auto simp: same_frame_def)
    ultimately have "progress s s3 \<and> sc_stack s3 = sc_stack s"
      using skip_at [of s1] by (auto simp: progress_def)
    moreover have "object_loop n (bump (skip_whitespace s3)) = Some (Inr s') \<Longrightarrow>
        progress (bump (skip_whitespace s3)) s' \<and> sc_stack s' = butlast (sc_stack s3)"
      using IH by fastforce
    ultimately show "progress s s' \<and> sc_stack s' = butlast (sc_stack s)"
      using s' skip_at [of s3] by (auto simp: progress_def)
  qed
  moreover have "?A (Suc n)"
  proof (intro allI impI)
    fix s s' assume v: "array (Suc n) s = Some (Inr s')"
    let ?t = "skip_whitespace (push (F_Array 0) (bump s))"
    have at: "sc_at s < sc_at ?t" using skip_at [of "push (F_Array 0) (bump s)"] by simp
    show "progress s s' \<and> sc_stack s' = sc_stack s"
    proof (cases "peek ?t = Some 93")
      case True
      with v at show ?thesis by (auto simp: Let_def progress_def)
    next
      case False
      with v IH have "progress ?t s' \<and> sc_stack s' = butlast (sc_stack ?t)" by (simp add: Let_def)
      with at show ?thesis by (auto simp: progress_def)
    qed
  qed
  moreover have "?AL (Suc n)"
  proof (intro allI impI)
    fix c s s' assume v: "array_loop (Suc n) c s = Some (Inr s')"
    then obtain s1 where s1: "val n (set_index c s) = Some (Inr s1)"
      and s': "array_loop n (c + 1) (bump (skip_whitespace s1)) = Some (Inr s')
        \<or> s' = pop (bump (skip_whitespace s1))"
      by (auto simp: Let_def opt_then_Inr split: if_splits)
    have "progress s s1 \<and> sc_stack s1 = sc_stack (set_index c s)"
      using IH s1 by (fastforce simp: progress_def)
    moreover have "array_loop n (c + 1) (bump (skip_whitespace s1)) = Some (Inr s') \<Longrightarrow>
        progress (bump (skip_whitespace s1)) s' \<and> sc_stack s' = butlast (sc_stack s1)"
      using IH by fastforce
    ultimately show "progress s s' \<and> sc_stack s' = butlast (sc_stack s)"
      using s' skip_at [of s1] by (auto simp: progress_def)
  qed
  ultimately show ?case by blast
qed simp

lemma skip_remaining: "remaining (skip_whitespace s) \<le> remaining s"
  using skip_at [of s] by (simp add: remaining_def)

lemma progress_remaining: "progress s s' \<Longrightarrow> remaining s' \<le> remaining s"
  by (auto simp: progress_def remaining_def)

lemma push_remaining [simp]: "remaining (push f s) = remaining s" "remaining (set_index i s) = remaining s"
  by (simp_all add: remaining_def)

lemma value_fuel:
  "(\<forall>s. 3 * remaining s + 1 \<le> n \<longrightarrow> val n s \<noteq> None)
   \<and> (\<forall>s c. peek s = Some c \<longrightarrow> 3 * remaining s \<le> n \<longrightarrow> object n s \<noteq> None)
   \<and> (\<forall>s. 3 * remaining s + 2 \<le> n \<longrightarrow> object_loop n s \<noteq> None)
   \<and> (\<forall>s c. peek s = Some c \<longrightarrow> 3 * remaining s \<le> n \<longrightarrow> array n s \<noteq> None)
   \<and> (\<forall>s c. 3 * remaining s + 2 \<le> n \<longrightarrow> array_loop n c s \<noteq> None)"
  (is "?V n \<and> ?O n \<and> ?OL n \<and> ?A n \<and> ?AL n")
proof (induction n)
  case 0
  have "peek s = Some c \<Longrightarrow> 0 < remaining s" for s c
    by (auto simp: peek_def get_def remaining_def split: if_splits)
  then show ?case by force
next
  case (Suc n)
  note IH = Suc.IH
  have "?V (Suc n)"
  proof (intro allI impI)
    fix s assume f: "3 * remaining s + 1 \<le> Suc n"
    let ?t = "skip_whitespace s"
    have "3 * remaining ?t \<le> n" using f skip_remaining [of s] by simp
    then have "object n ?t \<noteq> None" "array n ?t \<noteq> None" if "peek ?t = Some c" for c
      using IH that by blast+
    then show "val (Suc n) s \<noteq> None" by (auto simp: Let_def split: option.splits)
  qed
  moreover have "?O (Suc n)" "?A (Suc n)"
  proof -
    have fuel: "3 * remaining (skip_whitespace (push f (bump s))) + 2 \<le> n"
      if "peek s = Some c" "3 * remaining s \<le> Suc n" for f s c
      using skip_remaining [of "push f (bump s)"] peek_remaining [OF that(1)] that(2) by simp
    show "?O (Suc n)" "?A (Suc n)" using IH fuel by (auto simp: Let_def)
  qed
  moreover have "?OL (Suc n)"
  proof (intro allI impI)
    fix s assume f: "3 * remaining s + 2 \<le> Suc n"
    show "object_loop (Suc n) s \<noteq> None"
    proof
      assume none: "object_loop (Suc n) s = None"
      then obtain k s1 where p: "peek (skip_whitespace s) = Some 34"
        and s1: "scan_string (skip_whitespace s) = Inr (k, s1)"
        and c: "val n (bump (skip_whitespace s1)) = None
          \<or> (\<exists>s3. val n (bump (skip_whitespace s1)) = Some (Inr s3)
               \<and> object_loop n (bump (skip_whitespace s3)) = None)"
        by (auto simp: Let_def opt_then_None split: if_splits)
      have r1: "remaining s1 < remaining s"
        using remaining_less [of s1 "skip_whitespace s"] scan_string_at [OF s1] p skip_remaining [of s]
        by auto
      have bump_le: "remaining (bump t) \<le> remaining t" for t by (simp add: remaining_def)
      have r2: "remaining (bump (skip_whitespace s1)) \<le> remaining s1"
        using bump_le skip_remaining le_trans by blast
      with r1 f have "val n (bump (skip_whitespace s1)) \<noteq> None" using IH by (simp add: Suc_leI)
      with c obtain s3 where s3: "val n (bump (skip_whitespace s1)) = Some (Inr s3)"
        "object_loop n (bump (skip_whitespace s3)) = None" by blast
      have "remaining s3 \<le> remaining s1"
        using value_progress [of n] s3(1) r2 progress_remaining le_trans by blast
      moreover have "remaining (bump (skip_whitespace s3)) \<le> remaining s3"
        using bump_le skip_remaining le_trans by blast
      ultimately have "3 * remaining (bump (skip_whitespace s3)) + 2 \<le> n" using r1 f by simp
      with IH s3(2) show False by blast
    qed
  qed
  moreover have "?AL (Suc n)"
  proof (intro allI impI)
    fix s c assume f: "3 * remaining s + 2 \<le> Suc n"
    show "array_loop (Suc n) c s \<noteq> None"
    proof
      assume none: "array_loop (Suc n) c s = None"
      have "val n (set_index c s) \<noteq> None" using IH f by simp
      with none obtain s1 where s1: "val n (set_index c s) = Some (Inr s1)"
        and p: "peek (skip_whitespace s1) = Some 44"
        and loop: "array_loop n (c + 1) (bump (skip_whitespace s1)) = None"
        by (auto simp: Let_def opt_then_None split: if_splits)
      have "remaining s1 \<le> remaining s"
        using value_progress [of n] s1 progress_remaining [of "set_index c s" s1] by simp
      moreover have "remaining (bump (skip_whitespace s1)) < remaining s1"
        using less_le_trans [OF peek_remaining [OF p] skip_remaining] .
      ultimately have "3 * remaining (bump (skip_whitespace s1)) + 2 \<le> n" using f by simp
      with IH loop show False by blast
    qed
  qed
  ultimately show ?case by blast
qed

lemma val_terminates: "3 * remaining s + 1 \<le> n \<Longrightarrow> val n s \<noteq> None"
  using value_fuel by blast

lemma run_terminates: "run s \<noteq> None"
proof -
  have "3 * remaining t + 1 \<le> scan_fuel t" for t by (simp add: scan_fuel_def remaining_def)
  moreover have "remaining (t\<lparr>sc_mode := m\<rparr>) = remaining t" "scan_fuel (t\<lparr>sc_mode := m\<rparr>) = scan_fuel t" for t m
    by (simp_all add: remaining_def scan_fuel_def)
  ultimately have "val (scan_fuel t) t \<noteq> None" "val (scan_fuel t) (t\<lparr>sc_mode := m\<rparr>) \<noteq> None" for t m
    using val_terminates by metis+
  then have v: "val (scan_fuel t) t \<noteq> None" "val (scan_fuel t) (t\<lparr>sc_mode := m\<rparr>) \<noteq> None" for t m by blast+
  show ?thesis by (simp add: run_def Let_def opt_then_total v del: not_None_eq)
qed

end
