(* ===== verification/A1_Language.thy ===== *)
theory A1_Language
  imports A1_Admission
begin

text \<open>
  The scanner of \<^verbatim>\<open>scan.rs\<close> accepts exactly the grammar of \<open>A1_Grammar\<close>: soundness by induction on
  the fuel, completeness by induction on the derivation, then the properties of document admission.
\<close>

section \<open>Blanks and frames\<close>

lemma rest_frame [simp]:
  "rest (push f s) = rest s" "rest (pop s) = rest s" "rest (set_index i s) = rest s"
  by (simp_all add: rest_def)

lemma eats_frame [simp]:
  "eats (push f s) bs t = eats s bs t" "eats (set_index i s) bs t = eats s bs t"
  "eats s bs (pop t) = eats s bs t"
  by (simp_all add: eats_def)

lemma skip_idem [simp]: "skip_whitespace (skip_whitespace s) = skip_whitespace s"
proof -
  have "\<not> peek_is is_ws (skip_whitespace s)"
    using skip_whitespace_spec [of s] by (auto simp: peek_is_def peek_rest split: list.splits)
  then show ?thesis unfolding skip_whitespace_def by (subst bump_while.simps) simp
qed

lemma set_index_bump: "peek (set_index i s) = peek s" "bump (set_index i s) = set_index i (bump s)"
  by (auto simp: set_index_def peek_def bump_def split: Frame.split)

lemma set_index_bump_while: "bump_while P (set_index i s) = set_index i (bump_while P s)"
proof (induction P s rule: bump_while.induct)
  case (1 P s)
  then show ?case
    by (simp add: bump_while.simps [of P s] bump_while.simps [of P "set_index i s"] peek_is_def set_index_bump)
qed

lemma val_skip [simp]: "val n (skip_whitespace s) = val n s"
  by (cases n) (simp_all add: Let_def)

lemma object_loop_skip [simp]: "object_loop n (skip_whitespace s) = object_loop n s"
  by (cases n) (simp_all add: Let_def)

lemma array_loop_skip [simp]: "array_loop n c (skip_whitespace s) = array_loop n c s"
proof (cases n)
  case (Suc m)
  have "val m (set_index i (skip_whitespace s)) = val m (set_index i s)" for i
    using val_skip [of m "set_index i s"] by (simp add: skip_whitespace_def set_index_bump_while)
  with Suc show ?thesis by (simp add: Let_def path_def)
qed simp

lemma skip_token:
  assumes "peek (skip_whitespace s) = Some c"
  obtains w where "ws w" "eats s (w @ [c]) (bump (skip_whitespace s))"
  using skip_whitespace_spec [of s] eats_bump [OF assms] eats_trans by blast

lemma eats_skip:
  assumes "eats (skip_whitespace s) v t"
  obtains w where "ws w" "eats s (w @ v) t"
  using skip_whitespace_spec [of s] assms eats_trans by blast

section \<open>Soundness\<close>

text \<open>
  What each method consumed when it accepted, in admission mode. The grammar's depth is one more
  than the number of open containers.
\<close>

definition depth :: "Scanner \<Rightarrow> nat" where
  "depth s = length (sc_stack s) + 1"

definition sound_val :: "nat \<Rightarrow> bool" where
  "sound_val n \<longleftrightarrow> (\<forall>s s'. val n s = Some (Inr s') \<longrightarrow> sc_mode s = Admit \<longrightarrow>
     (\<exists>w v. ws w \<and> eats s (w @ v) s' \<and> jval (depth s) v))"

definition sound_object :: "nat \<Rightarrow> bool" where
  "sound_object n \<longleftrightarrow> (\<forall>s s'. object n s = Some (Inr s') \<longrightarrow> sc_mode s = Admit \<longrightarrow> peek s = Some 123 \<longrightarrow>
     depth s \<le> MAX_JSON_DEPTH \<longrightarrow> (\<exists>v. eats s v s' \<and> jval (depth s) v))"

definition sound_object_loop :: "nat \<Rightarrow> bool" where
  "sound_object_loop n \<longleftrightarrow> (\<forall>s s'. object_loop n s = Some (Inr s') \<longrightarrow> sc_mode s = Admit \<longrightarrow>
     (\<exists>ms. eats s (ms @ [125]) s' \<and> jmembers (depth s) ms))"

definition sound_array :: "nat \<Rightarrow> bool" where
  "sound_array n \<longleftrightarrow> (\<forall>s s'. array n s = Some (Inr s') \<longrightarrow> sc_mode s = Admit \<longrightarrow> peek s = Some 91 \<longrightarrow>
     depth s \<le> MAX_JSON_DEPTH \<longrightarrow> (\<exists>v. eats s v s' \<and> jval (depth s) v))"

definition sound_array_loop :: "nat \<Rightarrow> bool" where
  "sound_array_loop n \<longleftrightarrow> (\<forall>c s s'. array_loop n c s = Some (Inr s') \<longrightarrow> sc_mode s = Admit \<longrightarrow>
     (\<exists>k es. eats s (es @ [93]) s' \<and> jelems (depth s) k es \<and> c + k \<le> MAX_ARRAY_LEN))"

lemmas sound_defs = sound_val_def sound_object_def sound_object_loop_def sound_array_def sound_array_loop_def

lemma depth_sel [simp]:
  "depth (skip_whitespace s) = depth s" "depth (bump s) = depth s" "depth (push f s) = Suc (depth s)"
  "depth (set_index i s) = depth s"
  by (simp_all add: depth_def)

lemma val_keeps: "val n s = Some (Inr s') \<Longrightarrow> sc_mode s' = sc_mode s \<and> sc_stack s' = sc_stack s"
  using value_progress [of n] by (simp add: progress_def)

lemma jval_scalar:
  assumes "sc_mode s = Admit" "depth s \<le> MAX_JSON_DEPTH" "peek s = Some c"
    and "c = 34 \<and> (\<exists>k. string_value s = Inr (k, s')) \<or> literal [116, 114, 117, 101] s = Inr s'
      \<or> literal [102, 97, 108, 115, 101] s = Inr s' \<or> number s = Inr s'"
  shows "\<exists>v. eats s v s' \<and> jval (depth s) v"
  using assms(4)
proof (elim disjE conjE exE)
  fix k assume "c = 34" and v: "string_value s = Inr (k, s')"
  have "sc_mode s' = Admit" using scalar_progress(1) [OF v] assms(1) by (simp add: progress_def)
  then have "scan_string s = Inr (k, s')" "k \<le> MAX_STRING_BYTES"
    using v by (auto simp: string_value_Inr)
  then show ?thesis
    using scan_string_sound assms(2,3) \<open>c = 34\<close> by (metis jval_jmembers_jelems.str)
qed (use assms(2) literal_eats number_sound jval_jmembers_jelems.intros in metis)+

lemma sound_val_Suc: "sound_object n \<Longrightarrow> sound_array n \<Longrightarrow> sound_val (Suc n)"
proof (unfold sound_val_def, intro allI impI)
  fix s s'
  assume IH: "sound_object n" "sound_array n" and v: "val (Suc n) s = Some (Inr s')" and m: "sc_mode s = Admit"
  let ?t = "skip_whitespace s"
  have m': "sc_mode s' = Admit" using val_keeps [OF v] m by simp
  from v obtain u where "eats ?t u s'" "jval (depth ?t) u"
  proof (rule val_Inr)
    fix c
    assume p: "peek ?t = Some c" and d: "length (sc_stack s) + 1 \<le> MAX_JSON_DEPTH"
      and "c = 123 \<and> object n ?t = Some (Inr s')
       \<or> c = 91 \<and> array n ?t = Some (Inr s')
       \<or> c = 34 \<and> (\<exists>k. string_value ?t = Inr (k, s'))
       \<or> literal [116, 114, 117, 101] ?t = Inr s'
       \<or> literal [102, 97, 108, 115, 101] ?t = Inr s'
       \<or> literal [110, 117, 108, 108] ?t = Inr s' \<and> sc_mode s' = Probe
       \<or> number ?t = Inr s'"
    then consider "c = 123" "object n ?t = Some (Inr s')" | "c = 91" "array n ?t = Some (Inr s')"
      | "c = 34 \<and> (\<exists>k. string_value ?t = Inr (k, s')) \<or> literal [116, 114, 117, 101] ?t = Inr s'
      \<or> literal [102, 97, 108, 115, 101] ?t = Inr s' \<or> number ?t = Inr s'"
      using m' by fastforce
    moreover have d': "depth ?t \<le> MAX_JSON_DEPTH" "sc_mode ?t = Admit" using d m by (simp_all add: depth_def)
    ultimately have "\<exists>u. eats ?t u s' \<and> jval (depth ?t) u"
    proof cases
      case 1
      with IH(1) p d' show ?thesis unfolding sound_object_def by blast
    next
      case 2
      with IH(2) p d' show ?thesis unfolding sound_array_def by blast
    qed (rule jval_scalar [OF d'(2,1) p])
    with that show thesis by blast
  qed
  then show "\<exists>w v. ws w \<and> eats s (w @ v) s' \<and> jval (depth s) v" by (metis eats_skip depth_sel(1))
qed

lemma sound_object_Suc: "sound_object_loop n \<Longrightarrow> sound_object (Suc n)"
proof (unfold sound_object_def, intro allI impI)
  fix s s'
  assume IH: "sound_object_loop n" and v: "object (Suc n) s = Some (Inr s')" and m: "sc_mode s = Admit"
    and p: "peek s = Some 123" and d: "depth s \<le> MAX_JSON_DEPTH"
  let ?t = "push F_Object (bump s)"
  show "\<exists>v. eats s v s' \<and> jval (depth s) v"
  proof (cases "peek (skip_whitespace ?t) = Some 125")
    case True
    then have s': "s' = pop (bump (skip_whitespace ?t))" using v by (simp add: Let_def)
    obtain w where w: "ws w" "eats (bump s) (w @ [125]) s'"
      by (rule skip_token [OF True]) (simp add: s')
    show ?thesis
      using eats_trans [OF eats_bump [OF p] w(2)] jval_jmembers_jelems.obj0 [OF d w(1)] by auto
  next
    case False
    with v have "object_loop n ?t = Some (Inr s')" by (simp add: Let_def)
    with IH m obtain ms where ms: "eats (bump s) (ms @ [125]) s'" "jmembers (Suc (depth s)) ms"
      by (fastforce simp: sound_object_loop_def)
    show ?thesis
      using eats_trans [OF eats_bump [OF p] ms(1)] jval_jmembers_jelems.obj [OF d ms(2)] by auto
  qed
qed

lemma sound_array_Suc: "sound_array_loop n \<Longrightarrow> sound_array (Suc n)"
proof (unfold sound_array_def, intro allI impI)
  fix s s'
  assume IH: "sound_array_loop n" and v: "array (Suc n) s = Some (Inr s')" and m: "sc_mode s = Admit"
    and p: "peek s = Some 91" and d: "depth s \<le> MAX_JSON_DEPTH"
  let ?t = "push (F_Array 0) (bump s)"
  show "\<exists>v. eats s v s' \<and> jval (depth s) v"
  proof (cases "peek (skip_whitespace ?t) = Some 93")
    case True
    then have s': "s' = pop (bump (skip_whitespace ?t))" using v by (simp add: Let_def)
    obtain w where w: "ws w" "eats (bump s) (w @ [93]) s'"
      by (rule skip_token [OF True]) (simp add: s')
    show ?thesis
      using eats_trans [OF eats_bump [OF p] w(2)] jval_jmembers_jelems.arr0 [OF d w(1)] by auto
  next
    case False
    with v have "array_loop n 0 ?t = Some (Inr s')" by (simp add: Let_def)
    with IH m obtain k es where es: "eats (bump s) (es @ [93]) s'" "jelems (Suc (depth s)) k es"
      "k \<le> MAX_ARRAY_LEN"
      by (fastforce simp: sound_array_loop_def)
    show ?thesis
      using eats_trans [OF eats_bump [OF p] es(1)] jval_jmembers_jelems.arr [OF d es(2,3)] by auto
  qed
qed

lemma sound_object_loop_Suc: "sound_val n \<Longrightarrow> sound_object_loop n \<Longrightarrow> sound_object_loop (Suc n)"
proof (unfold sound_object_loop_def [of "Suc n"], intro allI impI)
  fix s s'
  assume IH: "sound_val n" "sound_object_loop n" and o: "object_loop (Suc n) s = Some (Inr s')"
    and m: "sc_mode s = Admit"
  obtain k s1 s3 where p: "peek (skip_whitespace s) = Some 34" "peek (skip_whitespace s1) = Some 58"
    and s1: "scan_string (skip_whitespace s) = Inr (k, s1)"
    and s3: "val n (bump (skip_whitespace s1)) = Some (Inr s3)"
    and s': "peek (skip_whitespace s3) = Some 44 \<and> object_loop n (bump (skip_whitespace s3)) = Some (Inr s')
      \<or> peek (skip_whitespace s3) = Some 125 \<and> s' = pop (bump (skip_whitespace s3))"
    using o by (auto simp: Let_def opt_then_Inr split: if_splits)
  obtain key where key: "jstring k key" "eats (skip_whitespace s) key s1" "same_frame (skip_whitespace s) s1"
    using scan_string_sound [OF p(1) s1] by blast
  then have f1: "sc_mode s1 = Admit" "depth s1 = depth s" using m by (simp_all add: same_frame_def depth_def)
  obtain w1 where w1: "ws w1" "eats s (w1 @ key) s1" by (rule eats_skip [OF key(2)])
  obtain w2 where w2: "ws w2" "eats s1 (w2 @ [58]) (bump (skip_whitespace s1))" by (rule skip_token [OF p(2)])
  obtain w3 v where v: "ws w3" "eats (bump (skip_whitespace s1)) (w3 @ v) s3" "jval (depth s) v"
    using IH(1) s3 f1 unfolding sound_val_def by fastforce
  have f3: "sc_mode s3 = Admit" "depth s3 = depth s" using val_keeps [OF s3] f1 by (simp_all add: depth_def)
  have e: "eats s ((w1 @ key) @ (w2 @ [58]) @ (w3 @ v)) s3"
    by (rule eats_trans [OF w1(2) eats_trans [OF w2(2) v(2)]])
  from s' show "\<exists>ms. eats s (ms @ [125]) s' \<and> jmembers (depth s) ms"
  proof (elim disjE conjE)
    assume q: "peek (skip_whitespace s3) = Some 44" and l: "object_loop n (bump (skip_whitespace s3)) = Some (Inr s')"
    obtain w4 where w4: "ws w4" "eats s3 (w4 @ [44]) (bump (skip_whitespace s3))" by (rule skip_token [OF q])
    obtain ms where ms: "eats (bump (skip_whitespace s3)) (ms @ [125]) s'" "jmembers (depth s) ms"
      using IH(2) l f3 unfolding sound_object_loop_def by fastforce
    have "jmembers (depth s) (w1 @ key @ w2 @ 58 # w3 @ v @ w4 @ 44 # ms)"
      by (intro jval_jmembers_jelems.members) (fact w1(1) key(1) w2(1) v(1,3) w4(1) ms(2))+
    moreover have "eats s ((w1 @ key @ w2 @ 58 # w3 @ v @ w4 @ 44 # ms) @ [125]) s'"
      using eats_trans [OF e eats_trans [OF w4(2) ms(1)]] by simp
    ultimately show ?thesis by blast
  next
    assume q: "peek (skip_whitespace s3) = Some 125" and l: "s' = pop (bump (skip_whitespace s3))"
    obtain w4 where w4: "ws w4" "eats s3 (w4 @ [125]) s'" by (rule skip_token [OF q]) (simp add: l)
    have "jmembers (depth s) (w1 @ key @ w2 @ 58 # w3 @ v @ w4)"
      by (intro jval_jmembers_jelems.member1) (fact w1(1) key(1) w2(1) v(1,3) w4(1))+
    moreover have "eats s ((w1 @ key @ w2 @ 58 # w3 @ v @ w4) @ [125]) s'"
      using eats_trans [OF e w4(2)] by simp
    ultimately show ?thesis by blast
  qed
qed

lemma sound_array_loop_Suc: "sound_val n \<Longrightarrow> sound_array_loop n \<Longrightarrow> sound_array_loop (Suc n)"
proof (unfold sound_array_loop_def [of "Suc n"], intro allI impI)
  fix c s s'
  assume IH: "sound_val n" "sound_array_loop n" and a: "array_loop (Suc n) c s = Some (Inr s')"
    and m: "sc_mode s = Admit"
  obtain s1 where b: "c + 1 \<le> MAX_ARRAY_LEN" and s1: "val n (set_index c s) = Some (Inr s1)"
    and s': "peek (skip_whitespace s1) = Some 44 \<and> array_loop n (c + 1) (bump (skip_whitespace s1)) = Some (Inr s')
      \<or> peek (skip_whitespace s1) = Some 93 \<and> s' = pop (bump (skip_whitespace s1))"
    using a m by (auto simp: Let_def opt_then_Inr split: if_splits)
  obtain w1 v where v: "ws w1" "eats s (w1 @ v) s1" "jval (depth s) v"
    using IH(1) s1 m unfolding sound_val_def by fastforce
  have f1: "sc_mode s1 = Admit" "depth s1 = depth s" using val_keeps [OF s1] m by (simp_all add: depth_def)
  from s' show "\<exists>k es. eats s (es @ [93]) s' \<and> jelems (depth s) k es \<and> c + k \<le> MAX_ARRAY_LEN"
  proof (elim disjE conjE)
    assume q: "peek (skip_whitespace s1) = Some 44"
      and l: "array_loop n (c + 1) (bump (skip_whitespace s1)) = Some (Inr s')"
    obtain w2 where w2: "ws w2" "eats s1 (w2 @ [44]) (bump (skip_whitespace s1))" by (rule skip_token [OF q])
    obtain k es where es: "eats (bump (skip_whitespace s1)) (es @ [93]) s'" "jelems (depth s) k es"
      "c + 1 + k \<le> MAX_ARRAY_LEN"
      using IH(2) l f1 unfolding sound_array_loop_def by fastforce
    have "jelems (depth s) (Suc k) (w1 @ v @ w2 @ 44 # es)"
      by (intro jval_jmembers_jelems.elems) (fact v(1,3) w2(1) es(2))+
    moreover have "eats s ((w1 @ v @ w2 @ 44 # es) @ [93]) s'"
      using eats_trans [OF v(2) eats_trans [OF w2(2) es(1)]] by simp
    moreover have "c + Suc k \<le> MAX_ARRAY_LEN" using es(3) by simp
    ultimately show ?thesis by blast
  next
    assume q: "peek (skip_whitespace s1) = Some 93" and l: "s' = pop (bump (skip_whitespace s1))"
    obtain w2 where w2: "ws w2" "eats s1 (w2 @ [93]) s'" by (rule skip_token [OF q]) (simp add: l)
    have "jelems (depth s) 1 (w1 @ v @ w2)" by (intro jval_jmembers_jelems.elem1) (fact v(1,3) w2(1))+
    moreover have "eats s ((w1 @ v @ w2) @ [93]) s'" using eats_trans [OF v(2) w2(2)] by simp
    ultimately show ?thesis using b by blast
  qed
qed

lemma sound_all:
  "sound_val n \<and> sound_object n \<and> sound_object_loop n \<and> sound_array n \<and> sound_array_loop n"
proof (induction n)
  case (Suc n)
  then show ?case
    by (blast intro: sound_val_Suc sound_object_Suc sound_object_loop_Suc sound_array_Suc sound_array_loop_Suc)
qed (simp add: sound_defs)

lemma val_sound:
  "val n s = Some (Inr s') \<Longrightarrow> sc_mode s = Admit \<Longrightarrow> \<exists>w v. ws w \<and> eats s (w @ v) s' \<and> jval (depth s) v"
  using sound_all [of n] unfolding sound_val_def by blast

section \<open>Completeness\<close>

text \<open>
  The premise that a call returns at all replaces the fuel: a call that returns gives its callees
  enough, and termination supplies it at the top.
\<close>

lemma jval_hd:
  assumes "jval d v"
  obtains c u where "v = c # u" "\<not> is_ws c" "c \<noteq> 93" "c \<noteq> 125"
proof -
  have num: "\<exists>c u. v = c # u \<and> (c = 45 \<or> is_digit c)" if "jnumber v"
    using that jint_ne by (fastforce simp: jnumber_def neq_Nil_conv)
  have "\<exists>c u. v = c # u \<and> (c \<in> {34, 116, 102, 123, 91, 45} \<or> is_digit c)"
    using assms by cases (auto simp: jstring_def dest: num)
  moreover have "\<not> is_ws c \<and> c \<noteq> 93 \<and> c \<noteq> 125" if "c \<in> {34, 116, 102, 123, 91, 45} \<or> is_digit c" for c
    using that by (auto simp: is_ws_def is_digit_def)
  ultimately show thesis using that by blast
qed

lemma follows_sep [simp]: "ws w \<Longrightarrow> c = 44 \<or> c = 93 \<or> c = 125 \<Longrightarrow> follows (w @ c # r)"
  by (cases w) (auto simp: follows_def ws_def)

lemma skip_to:
  assumes "rest s = w @ c # r" "ws w" "\<not> is_ws c"
  shows "peek (skip_whitespace s) = Some c" "eats s w (skip_whitespace s)" "rest (skip_whitespace s) = c # r"
  using skip_whitespace_eats [of s w "c # r"] assms by (simp_all add: peek_rest)

lemma eats_take_rest: "eats s bs s' \<Longrightarrow> rest s = bs @ r \<Longrightarrow> rest s' = r"
  by (simp add: eats_def)

lemma scalar_complete:
  assumes "rest s = v @ r" "follows r" "sc_mode s = Admit"
    and "(\<exists>n. jstring n v \<and> n \<le> MAX_STRING_BYTES) \<or> v = [116, 114, 117, 101]
      \<or> v = [102, 97, 108, 115, 101] \<or> jnumber v"
    and "depth s \<le> MAX_JSON_DEPTH" "skip_whitespace s = s"
  shows "\<exists>s'. val (Suc n) s = Some (Inr s') \<and> eats s v s'"
  using assms(4)
proof (elim disjE exE conjE)
  fix k assume k: "jstring k v" "k \<le> MAX_STRING_BYTES"
  obtain s' where "scan_string s = Inr (k, s')" "eats s v s'" "peek s = Some 34"
    using scan_string_complete [OF assms(1) k(1)] k(1) assms(1) by (auto simp: peek_rest jstring_def)
  then show ?thesis using k(2) assms(5,6) by (simp add: Let_def string_value_def depth_def)
next
  assume v: "v = [116, 114, 117, 101]"
  obtain s' where "literal v s = Inr s'" "eats s v s'" using literal_accepts [OF assms(1)] by blast
  with v assms(1,5,6) show ?thesis
    by (simp add: Let_def depth_def peek_rest del: literal.simps)
next
  assume v: "v = [102, 97, 108, 115, 101]"
  obtain s' where "literal v s = Inr s'" "eats s v s'" using literal_accepts [OF assms(1)] by blast
  with v assms(1,5,6) show ?thesis
    by (simp add: Let_def depth_def peek_rest del: literal.simps)
next
  assume v: "jnumber v"
  then obtain c u where "v = c # u" "c = 45 \<or> is_digit c"
    using jint_ne by (fastforce simp: jnumber_def neq_Nil_conv)
  moreover from this(2) have "c \<notin> {123, 91, 34, 116, 102, 110}" by (auto simp: is_digit_def)
  ultimately show ?thesis
    using number_complete [OF assms(1) v assms(2)] assms by (auto simp: Let_def depth_def peek_rest)
qed

definition complete_val :: "nat \<Rightarrow> bytes \<Rightarrow> bool" where
  "complete_val d v \<longleftrightarrow> (\<forall>n s w r. ws w \<longrightarrow> rest s = w @ v @ r \<longrightarrow> follows r \<longrightarrow> sc_mode s = Admit \<longrightarrow>
     depth s = d \<longrightarrow> val n s \<noteq> None \<longrightarrow> (\<exists>s'. val n s = Some (Inr s') \<and> eats s (w @ v) s'))"

definition complete_members :: "nat \<Rightarrow> bytes \<Rightarrow> bool" where
  "complete_members d ms \<longleftrightarrow> (\<forall>n s r. rest s = ms @ 125 # r \<longrightarrow> sc_mode s = Admit \<longrightarrow> depth s = d \<longrightarrow>
     object_loop n s \<noteq> None \<longrightarrow> (\<exists>s'. object_loop n s = Some (Inr s') \<and> eats s (ms @ [125]) s'))"

definition complete_elems :: "nat \<Rightarrow> nat \<Rightarrow> bytes \<Rightarrow> bool" where
  "complete_elems d k es \<longleftrightarrow> (\<forall>n c s r. rest s = es @ 93 # r \<longrightarrow> sc_mode s = Admit \<longrightarrow> depth s = d \<longrightarrow>
     c + k \<le> MAX_ARRAY_LEN \<longrightarrow> array_loop n c s \<noteq> None \<longrightarrow>
     (\<exists>s'. array_loop n c s = Some (Inr s') \<and> eats s (es @ [93]) s'))"

text \<open>Leading blanks are the scanner's business: it is enough to start at the value.\<close>

lemma complete_valI:
  assumes d: "d \<le> MAX_JSON_DEPTH" and hd: "v = c # u" "\<not> is_ws c"
    and step: "\<And>n s r. rest s = v @ r \<Longrightarrow> follows r \<Longrightarrow> sc_mode s = Admit \<Longrightarrow> depth s = d \<Longrightarrow>
      skip_whitespace s = s \<Longrightarrow> val (Suc n) s \<noteq> None \<Longrightarrow> \<exists>s'. val (Suc n) s = Some (Inr s') \<and> eats s v s'"
  shows "complete_val d v"
  unfolding complete_val_def
proof (intro allI impI)
  fix n s w r
  assume a: "ws w" "rest s = w @ v @ r" "follows r" "sc_mode s = Admit" "depth s = d" "val n s \<noteq> None"
  let ?t = "skip_whitespace s"
  have t: "eats s w ?t" "rest ?t = v @ r" using skip_to [of s w c "u @ r"] a hd by simp_all
  obtain m where n: "n = Suc m" using a(6) by (cases n) auto
  have "val (Suc m) ?t \<noteq> None" using a(6) unfolding n val_skip .
  with t(2) a(3-5) obtain s' where "val (Suc m) ?t = Some (Inr s')" "eats ?t v s'"
    using step [of ?t r m] by auto
  then show "\<exists>s'. val n s = Some (Inr s') \<and> eats s (w @ v) s'"
    using eats_trans [OF t(1)] unfolding n val_skip by blast
qed

lemma complete_scalar:
  assumes "d \<le> MAX_JSON_DEPTH" "(\<exists>n. jstring n v \<and> n \<le> MAX_STRING_BYTES) \<or> v = [116, 114, 117, 101]
      \<or> v = [102, 97, 108, 115, 101] \<or> jnumber v"
  shows "complete_val d v"
proof -
  have "jval d v" using assms by (auto intro: jval_jmembers_jelems.intros)
  then obtain c u where "v = c # u" "\<not> is_ws c" by (rule jval_hd)
  then show ?thesis using assms by (intro complete_valI [OF assms(1)]) (auto intro!: scalar_complete simp del: val.simps)
qed

text \<open>How the body of a container is read, once the opening bracket was peeked.\<close>

lemma object_open:
  assumes "rest s = 123 # b @ 125 # r" "sc_mode s = Admit" "depth s = d" "d \<le> MAX_JSON_DEPTH"
    and "skip_whitespace s = s" "val (Suc n) s \<noteq> None" and t: "t = push F_Object (bump s)"
  obtains m where "n = Suc m" "rest t = b @ 125 # r" "sc_mode t = Admit" "depth t = Suc d"
    "val (Suc n) s = (if peek (skip_whitespace t) = Some 125 then Some (Inr (pop (bump (skip_whitespace t))))
       else object_loop m t)" "\<And>s' bs. eats t bs s' \<Longrightarrow> eats s (123 # bs) s'"
proof -
  have p: "peek s = Some 123" using assms(1) by (simp add: peek_rest)
  then have v: "val (Suc n) s = object n s" using assms(3-5) by (simp add: Let_def depth_def)
  with assms(6) obtain m where m: "n = Suc m" by (cases n) auto
  have "eats s (123 # bs) s'" if "eats t bs s'" for s' bs
    using eats_trans [OF eats_bump [OF p], of bs s'] that t by simp
  moreover have "rest t = b @ 125 # r" using assms(1) t by (simp add: rest_bump)
  ultimately show thesis using that [OF m] assms(2,3) v m t by (simp add: Let_def)
qed

lemma array_open:
  assumes "rest s = 91 # b @ 93 # r" "sc_mode s = Admit" "depth s = d" "d \<le> MAX_JSON_DEPTH"
    and "skip_whitespace s = s" "val (Suc n) s \<noteq> None" and t: "t = push (F_Array 0) (bump s)"
  obtains m where "n = Suc m" "rest t = b @ 93 # r" "sc_mode t = Admit" "depth t = Suc d"
    "val (Suc n) s = (if peek (skip_whitespace t) = Some 93 then Some (Inr (pop (bump (skip_whitespace t))))
       else array_loop m 0 t)" "\<And>s' bs. eats t bs s' \<Longrightarrow> eats s (91 # bs) s'"
proof -
  have p: "peek s = Some 91" using assms(1) by (simp add: peek_rest)
  then have v: "val (Suc n) s = array n s" using assms(3-5) by (simp add: Let_def depth_def)
  with assms(6) obtain m where m: "n = Suc m" by (cases n) auto
  have "eats s (91 # bs) s'" if "eats t bs s'" for s' bs
    using eats_trans [OF eats_bump [OF p], of bs s'] that t by simp
  moreover have "rest t = b @ 93 # r" using assms(1) t by (simp add: rest_bump)
  ultimately show thesis using that [OF m] assms(2,3) v m t by (simp add: Let_def)
qed

lemma not_blank: "\<not> is_ws 123" "\<not> is_ws 91" "\<not> is_ws 125" "\<not> is_ws 93" "\<not> is_ws 44" "\<not> is_ws 58" "\<not> is_ws 34"
  by (simp_all add: is_ws_def)

lemma close_bracket:
  assumes "rest t = w @ c # r" "ws w" "\<not> is_ws c"
  shows "peek (skip_whitespace t) = Some c" "eats t (w @ [c]) (pop (bump (skip_whitespace t)))"
  using skip_to [OF assms] eats_trans [OF _ eats_bump] by simp_all

lemma complete_obj0: "d \<le> MAX_JSON_DEPTH \<Longrightarrow> ws w \<Longrightarrow> complete_val d (123 # w @ [125])"
proof (rule complete_valI [OF _ refl not_blank(1)], assumption)
  fix n s r
  assume d: "d \<le> MAX_JSON_DEPTH" and w: "ws w"
    and s: "rest s = (123 # w @ [125]) @ r" "sc_mode s = Admit" "depth s = d" "skip_whitespace s = s" "val (Suc n) s \<noteq> None"
  have r: "rest s = 123 # w @ 125 # r" using s(1) by simp
  show "\<exists>s'. val (Suc n) s = Some (Inr s') \<and> eats s (123 # w @ [125]) s'"
  proof (rule object_open [OF r s(2,3) d s(4,5) refl])
  qed (use close_bracket [OF _ w not_blank(3)] in \<open>metis (no_types, lifting)\<close>)
qed

lemma complete_arr0: "d \<le> MAX_JSON_DEPTH \<Longrightarrow> ws w \<Longrightarrow> complete_val d (91 # w @ [93])"
proof (rule complete_valI [OF _ refl not_blank(2)], assumption)
  fix n s r
  assume d: "d \<le> MAX_JSON_DEPTH" and w: "ws w"
    and s: "rest s = (91 # w @ [93]) @ r" "sc_mode s = Admit" "depth s = d" "skip_whitespace s = s" "val (Suc n) s \<noteq> None"
  have r: "rest s = 91 # w @ 93 # r" using s(1) by simp
  show "\<exists>s'. val (Suc n) s = Some (Inr s') \<and> eats s (91 # w @ [93]) s'"
  proof (rule array_open [OF r s(2,3) d s(4,5) refl])
  qed (use close_bracket [OF _ w not_blank(4)] in \<open>metis (no_types, lifting)\<close>)
qed

lemma jmembers_hd:
  assumes "jmembers d ms"
  obtains w u where "ms = w @ 34 # u" "ws w"
  using assms by cases (auto simp: jstring_def)

lemma jelems_hd:
  assumes "jelems d k es"
  obtains w c u where "es = w @ c # u" "ws w" "\<not> is_ws c" "c \<noteq> 93"
  using assms by cases (use jval_hd that in \<open>metis append_Cons\<close>)+

lemma complete_obj:
  assumes d: "d \<le> MAX_JSON_DEPTH" and ms: "jmembers (Suc d) ms" "complete_members (Suc d) ms"
  shows "complete_val d (123 # ms @ [125])"
proof (rule complete_valI [OF d refl not_blank(1)])
  fix n s r
  assume s: "rest s = (123 # ms @ [125]) @ r" "sc_mode s = Admit" "depth s = d" "skip_whitespace s = s" "val (Suc n) s \<noteq> None"
  obtain w u where u: "ms = w @ 34 # u" "ws w" by (rule jmembers_hd [OF ms(1)])
  have r: "rest s = 123 # ms @ 125 # r" using s(1) by simp
  define t where "t = push F_Object (bump s)"
  obtain m where m: "rest t = ms @ 125 # r" "sc_mode t = Admit" "depth t = Suc d"
    "val (Suc n) s = (if peek (skip_whitespace t) = Some 125 then Some (Inr (pop (bump (skip_whitespace t))))
       else object_loop m t)" "\<And>s' bs. eats t bs s' \<Longrightarrow> eats s (123 # bs) s'"
    by (rule object_open [OF r s(2,3) d s(4,5) t_def]) blast
  have "peek (skip_whitespace t) = Some 34" using skip_to(1) [OF _ u(2) not_blank(7)] m(1) u(1) by simp
  then have v: "val (Suc n) s = object_loop m t" using m(4) by simp
  then obtain s' where "object_loop m t = Some (Inr s')" "eats t (ms @ [125]) s'"
    using ms(2) m(1-3) s(5) unfolding complete_members_def by metis
  then show "\<exists>s'. val (Suc n) s = Some (Inr s') \<and> eats s (123 # ms @ [125]) s'" using v m(5) by metis
qed

lemma complete_arr:
  assumes d: "d \<le> MAX_JSON_DEPTH" and es: "jelems (Suc d) k es" "complete_elems (Suc d) k es" "k \<le> MAX_ARRAY_LEN"
  shows "complete_val d (91 # es @ [93])"
proof (rule complete_valI [OF d refl not_blank(2)])
  fix n s r
  assume s: "rest s = (91 # es @ [93]) @ r" "sc_mode s = Admit" "depth s = d" "skip_whitespace s = s" "val (Suc n) s \<noteq> None"
  obtain w c u where u: "es = w @ c # u" "ws w" "\<not> is_ws c" "c \<noteq> 93" by (rule jelems_hd [OF es(1)])
  have r: "rest s = 91 # es @ 93 # r" using s(1) by simp
  define t where "t = push (F_Array 0) (bump s)"
  obtain m where m: "rest t = es @ 93 # r" "sc_mode t = Admit" "depth t = Suc d"
    "val (Suc n) s = (if peek (skip_whitespace t) = Some 93 then Some (Inr (pop (bump (skip_whitespace t))))
       else array_loop m 0 t)" "\<And>s' bs. eats t bs s' \<Longrightarrow> eats s (91 # bs) s'"
    by (rule array_open [OF r s(2,3) d s(4,5) t_def]) blast
  have "peek (skip_whitespace t) = Some c" using skip_to(1) [OF _ u(2,3)] m(1) u(1) by simp
  then have v: "val (Suc n) s = array_loop m 0 t" using m(4) u(4) by simp
  have "0 + k \<le> MAX_ARRAY_LEN" using es(3) by simp
  then obtain s' where "array_loop m 0 t = Some (Inr s')" "eats t (es @ [93]) s'"
    using es(2) m(1-3) s(5) v unfolding complete_elems_def by metis
  then show "\<exists>s'. val (Suc n) s = Some (Inr s') \<and> eats s (91 # es @ [93]) s'" using v m(5) by metis
qed

text \<open>The first member of an object, up to what follows its value.\<close>

lemma member_step:
  assumes w: "ws w1" "ws w2" "ws w3" and k: "jstring n k" and v: "complete_val d v" and fol: "follows r"
    and s: "rest s = w1 @ k @ w2 @ 58 # w3 @ v @ r" "sc_mode s = Admit" "depth s = d" "object_loop f s \<noteq> None"
  obtains m t where "f = Suc m" "rest t = r" "sc_mode t = Admit" "depth t = d"
    "eats s (w1 @ k @ w2 @ 58 # w3 @ v) t"
    "object_loop f s =
       (if peek (skip_whitespace t) = Some 44 then object_loop m (bump (skip_whitespace t))
        else if peek (skip_whitespace t) = Some 125 then Some (Inr (pop (bump (skip_whitespace t))))
        else Some (Inl (syntax_err (skip_whitespace t))))"
proof -
  obtain m where f: "f = Suc m" using s(4) by (cases f) auto
  let ?a = "skip_whitespace s"
  obtain ku where ku: "k = 34 # ku" using k by (auto simp: jstring_def)
  have a: "peek ?a = Some 34" "eats s w1 ?a" "rest ?a = k @ w2 @ 58 # w3 @ v @ r"
    using skip_to [OF _ w(1) not_blank(7)] s(1) ku by simp_all
  obtain s1 where s1: "scan_string ?a = Inr (n, s1)" "eats ?a k s1" "same_frame ?a s1"
    "rest s1 = w2 @ 58 # w3 @ v @ r" using scan_string_complete [OF a(3) k] by blast
  let ?b = "skip_whitespace s1"
  have b: "peek ?b = Some 58" "eats s1 w2 ?b" "rest ?b = 58 # w3 @ v @ r" using skip_to [OF s1(4) w(2) not_blank(6)] .
  have rest_b: "rest (bump ?b) = w3 @ v @ r" using b(3) by (simp add: rest_bump)
  have fr: "sc_mode (bump ?b) = Admit" "depth (bump ?b) = d"
    using s1(3) s(2,3) by (simp_all add: same_frame_def depth_def)
  have "object_loop f s = opt_then (val m (bump ?b)) (\<lambda>s3.
      let s4 = skip_whitespace s3 in
      if peek s4 = Some 44 then object_loop m (bump s4)
      else if peek s4 = Some 125 then Some (Inr (pop (bump s4))) else Some (Inl (syntax_err s4)))"
    using f a(1) s1(1) b(1) by (simp add: Let_def)
  moreover from this s(4) have "val m (bump ?b) \<noteq> None" by (auto simp: opt_then_None)
  then obtain t where t: "val m (bump ?b) = Some (Inr t)" "eats (bump ?b) (w3 @ v) t"
    using v w(3) rest_b fol fr unfolding complete_val_def by metis
  moreover have "eats s (w1 @ k @ w2 @ [58] @ w3 @ v) t"
    by (rule eats_trans [OF a(2) eats_trans [OF s1(2) eats_trans [OF b(2)
        eats_trans [OF eats_bump [OF b(1)] t(2)]]]])
  ultimately show thesis
    using that [OF f, of t] val_keeps [OF t(1)] fr s(1) by (simp add: Let_def depth_def eats_def)
qed

lemma complete_member1:
  assumes "ws w1" "jstring n k" "ws w2" "ws w3" "complete_val d v" "ws w4"
  shows "complete_members d (w1 @ k @ w2 @ 58 # w3 @ v @ w4)"
  unfolding complete_members_def
proof (intro allI impI)
  fix f s r
  assume s: "rest s = (w1 @ k @ w2 @ 58 # w3 @ v @ w4) @ 125 # r" "sc_mode s = Admit" "depth s = d" "object_loop f s \<noteq> None"
  have r: "rest s = w1 @ k @ w2 @ 58 # w3 @ v @ (w4 @ 125 # r)" using s(1) by simp
  have fol: "follows (w4 @ 125 # r)" using assms(6) by simp
  show "\<exists>s'. object_loop f s = Some (Inr s') \<and> eats s ((w1 @ k @ w2 @ 58 # w3 @ v @ w4) @ [125]) s'"
  proof (rule member_step [OF assms(1,3,4,2,5) fol r s(2-4)])
    fix m t assume t: "rest t = w4 @ 125 # r" "eats s (w1 @ k @ w2 @ 58 # w3 @ v) t"
      "object_loop f s =
       (if peek (skip_whitespace t) = Some 44 then object_loop m (bump (skip_whitespace t))
        else if peek (skip_whitespace t) = Some 125 then Some (Inr (pop (bump (skip_whitespace t))))
        else Some (Inl (syntax_err (skip_whitespace t))))"
    note c = close_bracket [OF t(1) assms(6) not_blank(3)]
    show ?thesis using t(3) c(1) eats_trans [OF t(2) c(2)] by simp
  qed
qed

lemma complete_memberS:
  assumes "ws w1" "jstring n k" "ws w2" "ws w3" "complete_val d v" "ws w4" "complete_members d ms"
  shows "complete_members d (w1 @ k @ w2 @ 58 # w3 @ v @ w4 @ 44 # ms)"
  unfolding complete_members_def
proof (intro allI impI)
  fix f s r
  assume s: "rest s = (w1 @ k @ w2 @ 58 # w3 @ v @ w4 @ 44 # ms) @ 125 # r" "sc_mode s = Admit" "depth s = d" "object_loop f s \<noteq> None"
  have r: "rest s = w1 @ k @ w2 @ 58 # w3 @ v @ (w4 @ 44 # ms @ 125 # r)" using s(1) by simp
  have fol: "follows (w4 @ 44 # ms @ 125 # r)" using assms(6) by simp
  show "\<exists>s'. object_loop f s = Some (Inr s') \<and> eats s ((w1 @ k @ w2 @ 58 # w3 @ v @ w4 @ 44 # ms) @ [125]) s'"
  proof (rule member_step [OF assms(1,3,4,2,5) fol r s(2-4)])
    fix m t assume t: "rest t = w4 @ 44 # ms @ 125 # r" "sc_mode t = Admit" "depth t = d"
      "eats s (w1 @ k @ w2 @ 58 # w3 @ v) t"
      "object_loop f s =
       (if peek (skip_whitespace t) = Some 44 then object_loop m (bump (skip_whitespace t))
        else if peek (skip_whitespace t) = Some 125 then Some (Inr (pop (bump (skip_whitespace t))))
        else Some (Inl (syntax_err (skip_whitespace t))))"
    let ?u = "bump (skip_whitespace t)"
    note c = skip_to [OF t(1) assms(6) not_blank(5)]
    have loop: "object_loop f s = object_loop m ?u" using t(5) c(1) by simp
    have u: "rest ?u = ms @ 125 # r" "sc_mode ?u = Admit" "depth ?u = d" using c(3) t(2,3) by (simp_all add: rest_bump)
    then obtain s' where s': "object_loop m ?u = Some (Inr s')" "eats ?u (ms @ [125]) s'"
      using assms(7) loop s(4) unfolding complete_members_def by metis
    show ?thesis
      using eats_trans [OF t(4) eats_trans [OF c(2) eats_trans [OF eats_bump [OF c(1)] s'(2)]]] loop s'(1) by simp
  qed
qed

lemma elem_step:
  assumes w: "ws w1" and v: "complete_val d v" and fol: "follows r" and c: "c + 1 \<le> MAX_ARRAY_LEN"
    and s: "rest s = w1 @ v @ r" "sc_mode s = Admit" "depth s = d" "array_loop f c s \<noteq> None"
  obtains m t where "f = Suc m" "rest t = r" "sc_mode t = Admit" "depth t = d" "eats s (w1 @ v) t"
    "array_loop f c s =
       (if peek (skip_whitespace t) = Some 44 then array_loop m (Suc c) (bump (skip_whitespace t))
        else if peek (skip_whitespace t) = Some 93 then Some (Inr (pop (bump (skip_whitespace t))))
        else Some (Inl (syntax_err (skip_whitespace t))))"
proof -
  obtain m where f: "f = Suc m" using s(4) by (cases f) auto
  let ?b = "set_index c s"
  have "array_loop f c s = opt_then (val m ?b) (\<lambda>s1.
      let s2 = skip_whitespace s1 in
      if peek s2 = Some 44 then array_loop m (Suc c) (bump s2)
      else if peek s2 = Some 93 then Some (Inr (pop (bump s2))) else Some (Inl (syntax_err s2)))"
    using f c by (simp add: Let_def)
  moreover from this s(4) have "val m ?b \<noteq> None" by (auto simp: opt_then_None)
  moreover have "rest ?b = w1 @ v @ r" "sc_mode ?b = Admit" "depth ?b = d" using s by simp_all
  then obtain t where t: "val m ?b = Some (Inr t)" "eats ?b (w1 @ v) t"
    using v w fol calculation(2) unfolding complete_val_def by metis
  ultimately show thesis
    using that [OF f, of t] val_keeps [OF t(1)] s by (simp add: Let_def depth_def eats_def)
qed

lemma complete_elem1:
  assumes "ws w1" "complete_val d v" "ws w2"
  shows "complete_elems d 1 (w1 @ v @ w2)"
  unfolding complete_elems_def
proof (intro allI impI)
  fix f c s r
  assume s: "rest s = (w1 @ v @ w2) @ 93 # r" "sc_mode s = Admit" "depth s = d" and c: "c + 1 \<le> MAX_ARRAY_LEN"
    and l: "array_loop f c s \<noteq> None"
  have r: "rest s = w1 @ v @ (w2 @ 93 # r)" and fol: "follows (w2 @ 93 # r)" using s(1) assms(3) by simp_all
  show "\<exists>s'. array_loop f c s = Some (Inr s') \<and> eats s ((w1 @ v @ w2) @ [93]) s'"
  proof (rule elem_step [OF assms(1,2) fol c r s(2,3) l])
    fix m t assume t: "rest t = w2 @ 93 # r" "eats s (w1 @ v) t"
      "array_loop f c s =
       (if peek (skip_whitespace t) = Some 44 then array_loop m (Suc c) (bump (skip_whitespace t))
        else if peek (skip_whitespace t) = Some 93 then Some (Inr (pop (bump (skip_whitespace t))))
        else Some (Inl (syntax_err (skip_whitespace t))))"
    note c = close_bracket [OF t(1) assms(3) not_blank(4)]
    show ?thesis using t(3) c(1) eats_trans [OF t(2) c(2)] by simp
  qed
qed

lemma complete_elemS:
  assumes "ws w1" "complete_val d v" "ws w2" "complete_elems d k es"
  shows "complete_elems d (Suc k) (w1 @ v @ w2 @ 44 # es)"
  unfolding complete_elems_def
proof (intro allI impI)
  fix f c s r
  assume s: "rest s = (w1 @ v @ w2 @ 44 # es) @ 93 # r" "sc_mode s = Admit" "depth s = d"
    and c: "c + Suc k \<le> MAX_ARRAY_LEN" and l: "array_loop f c s \<noteq> None"
  have r: "rest s = w1 @ v @ (w2 @ 44 # es @ 93 # r)" and fol: "follows (w2 @ 44 # es @ 93 # r)"
    and c1: "c + 1 \<le> MAX_ARRAY_LEN" using s(1) assms(3) c by simp_all
  show "\<exists>s'. array_loop f c s = Some (Inr s') \<and> eats s ((w1 @ v @ w2 @ 44 # es) @ [93]) s'"
  proof (rule elem_step [OF assms(1,2) fol c1 r s(2,3) l])
    fix m t assume t: "rest t = w2 @ 44 # es @ 93 # r" "sc_mode t = Admit" "depth t = d" "eats s (w1 @ v) t"
      "array_loop f c s =
       (if peek (skip_whitespace t) = Some 44 then array_loop m (Suc c) (bump (skip_whitespace t))
        else if peek (skip_whitespace t) = Some 93 then Some (Inr (pop (bump (skip_whitespace t))))
        else Some (Inl (syntax_err (skip_whitespace t))))"
    let ?u = "bump (skip_whitespace t)"
    note q = skip_to [OF t(1) assms(3) not_blank(5)]
    have loop: "array_loop f c s = array_loop m (Suc c) ?u" using t(5) q(1) by simp
    have u: "rest ?u = es @ 93 # r" "sc_mode ?u = Admit" "depth ?u = d" using q(3) t(2,3) by (simp_all add: rest_bump)
    have "Suc c + k \<le> MAX_ARRAY_LEN" using c by simp
    then obtain s' where s': "array_loop m (Suc c) ?u = Some (Inr s')" "eats ?u (es @ [93]) s'"
      using assms(4) u loop l unfolding complete_elems_def by metis
    show ?thesis
      using eats_trans [OF t(4) eats_trans [OF q(2) eats_trans [OF eats_bump [OF q(1)] s'(2)]]] loop s'(1) by simp
  qed
qed

lemma complete_all:
  "jval d v \<Longrightarrow> complete_val d v"
  "jmembers d ms \<Longrightarrow> complete_members d ms"
  "jelems d k es \<Longrightarrow> complete_elems d k es"
proof (induction rule: jval_jmembers_jelems.inducts)
qed (blast intro: complete_scalar complete_obj0 complete_obj complete_arr0 complete_arr
    complete_member1 complete_memberS complete_elem1 complete_elemS)+

section \<open>Documents\<close>

lemma val_scan_fuel: "sc_at s \<le> sc_at t \<Longrightarrow> sc_input t = sc_input s \<Longrightarrow> val (scan_fuel s) t \<noteq> None"
  by (rule val_terminates) (simp add: scan_fuel_def remaining_def)

lemma rest_nil_iff: "rest s = [] \<longleftrightarrow> length (sc_input s) \<le> sc_at s"
  by (simp add: rest_def)

lemma skip_rest_nil: "rest (skip_whitespace s) = [] \<longleftrightarrow> ws (rest s)"
proof
  assume "rest (skip_whitespace s) = []"
  then show "ws (rest s)" using skip_whitespace_spec [of s] by (auto simp: eats_def)
next
  assume "ws (rest s)"
  then show "rest (skip_whitespace s) = []" using skip_whitespace_eats [of s "rest s" "[]"] by simp
qed

lemma run_object:
  assumes "peek (skip_whitespace s) = Some 123"
  shows "run s = Some (Inr ()) \<longleftrightarrow>
    (\<exists>s1. val (scan_fuel s) (skip_whitespace s) = Some (Inr s1) \<and> ws (rest s1))"
  using assms
  by (simp add: run_def Let_def opt_then_Inr scan_fuel_def flip: skip_rest_nil)
     (auto simp: rest_nil_iff not_less)

lemma run_other: "peek (skip_whitespace s) \<noteq> Some 123 \<Longrightarrow> run s \<noteq> Some (Inr ())"
  by (auto simp: run_def Let_def opt_then_Inr split: if_splits)

lemma run_Inr: "run s = Some (Inr u) \<longleftrightarrow> run s = Some (Inr ())"
  by (cases u) simp

lemma run_accepts:
  assumes s: "s = Scanner_new bs"
  shows "run s = Some (Inr ()) \<longleftrightarrow> jdocument bs"
proof
  have new: "rest s = bs" "sc_mode s = Admit" "depth s = 1"
    by (simp_all add: s Scanner_new_def rest_def depth_def)
  let ?t = "skip_whitespace s"
  { assume run: "run s = Some (Inr ())"
    then have p: "peek ?t = Some 123" using run_other by blast
    with run obtain s1 where s1: "val (scan_fuel s) ?t = Some (Inr s1)" "ws (rest s1)" using run_object by blast
    obtain w0 where w0: "ws w0" "eats s w0 ?t" using skip_whitespace_spec [of s] by blast
    obtain w v where v: "ws w" "eats ?t (w @ v) s1" "jval 1 v" using val_sound [OF s1(1)] new by auto
    obtain c u where c: "v = c # u" "\<not> is_ws c" by (rule jval_hd [OF v(3)])
    have "rest ?t = w @ v @ rest s1" using v(2) by (simp add: eats_def)
    with p c have "w = [] \<and> hd v = 123"
      using v(1) by (cases w) (auto simp: peek_rest ws_def is_ws_def)
    then have "bs = w0 @ v @ rest s1" "hd v = 123" using w0(2) v(2) new(1) by (auto simp: eats_def)
    then show "jdocument bs" unfolding jdocument_def using w0(1) s1(2) v(3) by blast }
  { assume "jdocument bs"
    then obtain w1 v w2 where v: "bs = w1 @ v @ w2" "ws w1" "ws w2" "jval 1 v" "hd v = 123"
      by (auto simp: jdocument_def)
    obtain u where u: "v = 123 # u" using v(5) jval_hd [OF v(4)] by (metis list.sel(1))
    have r: "rest s = w1 @ 123 # u @ w2" using new(1) v(1) u by simp
    note t = skip_to [OF r v(2) not_blank(1)]
    have "follows w2" using v(3) by (cases w2) (auto simp: follows_def ws_def)
    moreover have "rest ?t = [] @ v @ w2" "ws []" using t(3) u by (simp_all add: ws_def)
    moreover have "val (scan_fuel s) ?t \<noteq> None" by (rule val_scan_fuel) (simp_all add: skip_at)
    moreover have "sc_mode ?t = Admit" "depth ?t = 1" using new by simp_all
    ultimately obtain s1 where s1: "val (scan_fuel s) ?t = Some (Inr s1)" "eats ?t ([] @ v) s1"
      using complete_all(1) [OF v(4)] unfolding complete_val_def by metis
    have "rest s1 = w2" using s1(2) t(3) u by (simp add: eats_def)
    then show "run s = Some (Inr ())" using run_object [OF t(1)] s1(1) v(3) by blast }
qed

lemma admit_accepts:
  "admit_document bs mx = Some (Inr ()) \<longleftrightarrow>
     (of_nat (length bs) :: u64) \<le> mx \<and> utf8_valid bs \<and> \<not> starts_with_bom bs \<and> jdocument bs"
  using run_accepts [OF refl, of bs] by (auto simp: admit_document_def)

lemma admit_terminates: "admit_document bs mx \<noteq> None"
  using run_terminates by (simp add: admit_document_def)

section \<open>Properties\<close>

text \<open>
  C10. Structural admission of a document (\<^verbatim>\<open>json.rs\<close>, \<open>admit_document\<close>, over \<^verbatim>\<open>scan.rs\<close>) succeeds exactly
  on the documents that are within the byte ceiling, are UTF-8 without a byte-order mark, and are
  one JSON object of the declarative grammar: nesting at most 32, arrays of at most 4096 elements,
  string values of at most 65536 decoded bytes, no \<open>null\<close> anywhere, only blanks around it.
\<close>

theorem admission_is_grammar:
  "admit_document bs mx = Some (Inr ()) \<longleftrightarrow>
     (of_nat (length bs) :: u64) \<le> mx \<and> utf8_valid bs \<and> \<not> starts_with_bom bs \<and> jdocument bs"
  by (rule admit_accepts)

text \<open>
  C11. Every document gets an answer: the recursive scanner of \<^verbatim>\<open>scan.rs\<close> returns on every input, whatever
  its bytes, its mode and its starting position, and so do admission and the typed parser above it,
  for every deserializer and every cross-field check.
\<close>

theorem admission_returns:
  "run s \<noteq> None \<and> admit_document bs mx \<noteq> None \<and> parse_artifact mx from_bytes validate_wire bs \<noteq> None"
proof -
  have "parse_artifact mx from_bytes validate_wire bs \<noteq> None"
    unfolding parse_artifact_def using admit_terminates by (intro opt_then_total) auto
  then show ?thesis using run_terminates admit_terminates by blast
qed

text \<open>
  The typed parser yields an artifact exactly when the document is admissible, the wire type's
  deserializer reads that artifact from the same bytes and its cross-field rules accept it; nothing
  is parsed from a document that admission refused.
\<close>

lemma parse_artifact_gate:
  "parse_artifact mx from_bytes validate_wire bs = Some (Inr a) \<longleftrightarrow>
     (of_nat (length bs) :: u64) \<le> mx \<and> utf8_valid bs \<and> \<not> starts_with_bom bs \<and> jdocument bs
     \<and> from_bytes bs = Inr a \<and> validate_wire a = Inr ()"
proof -
  have "parse_artifact mx from_bytes validate_wire bs = Some (Inr a) \<longleftrightarrow>
      admit_document bs mx = Some (Inr ()) \<and> from_bytes bs = Inr a \<and> validate_wire a = Inr ()"
    by (auto simp: parse_artifact_def opt_then_Inr map_err_def split: sum.splits)
  then show ?thesis using admit_accepts by blast
qed

text \<open>A document that is admitted, one with a \<open>null\<close> and one that is not an object.\<close>

lemma admission_examples:
  "admit_document (map (of_nat \<circ> of_char) ''{ \"a\" : [1, -2.5e3, {}] }'') 100 = Some (Inr ())"
  "admit_document (map (of_nat \<circ> of_char) ''{\"a\":[0,null]}'') 100 = Some (Inl (ExplicitNull ''$.*[1]''))"
  "admit_document (map (of_nat \<circ> of_char) '' [1]'') 100 = Some (Inl NotAnObject)"
  by code_simp+

end
