(* ===== verification/Ledger_Model.thy ===== *)
theory Ledger_Model
  imports Run_Event
begin

text \<open>
  The ledger's data: \<^verbatim>\<open>crates/o7-ledger/src/models.rs\<close>, \<^verbatim>\<open>transitions.rs\<close>, the error type of \<^verbatim>\<open>lib.rs\<close>,
  \<^verbatim>\<open>idempotency.rs\<close>, and the tables of \<^verbatim>\<open>migrations.rs\<close> with the SQL statements \<^verbatim>\<open>sqlite.rs\<close> runs on them.

  A table is the list of its rows in insertion order, so the position of a row is its \<^verbatim>\<open>rowid\<close> (rows are
  never deleted). An \<^verbatim>\<open>INSERT\<close> checks the primary key, the \<^verbatim>\<open>UNIQUE\<close> and partial unique indexes, the
  \<^verbatim>\<open>CHECK\<close> and the foreign keys of the schema and fails with \<open>Sqlite\<close>. A status column holds \<open>as_str\<close> of a
  status (the schema's \<^verbatim>\<open>CHECK\<close>), so rows carry the status itself; \<open>parse\<close> inverts \<open>as_str\<close>. Payload
  columns carry the JSON value whose text they store. Where a query leaves the order of its rows open,
  the model takes insertion order. An \<^verbatim>\<open>i64\<close> is an integer, with its bounds
  written out where the code meets them. The display texts of errors are not modelled beyond the
  entity that was not found. Clock readings and fresh UUIDs are arguments of the operations.
\<close>

section \<open>Statuses\<close>

datatype ConversationStatus = CV_Open | CV_Closed

primrec ConversationStatus_as_str :: "ConversationStatus \<Rightarrow> string" where
  "ConversationStatus_as_str CV_Open = ''open''"
| "ConversationStatus_as_str CV_Closed = ''closed''"

definition ConversationStatus_parse :: "string \<Rightarrow> ConversationStatus option" where
  "ConversationStatus_parse s =
     (if s = ''open'' then Some CV_Open else if s = ''closed'' then Some CV_Closed else None)"

datatype RunStatus =
    RS_Queued | RS_Running | RS_Completed | RS_Failed | RS_Cancelled | RS_Interrupted | RS_Blocked | RS_Error

primrec RunStatus_as_str :: "RunStatus \<Rightarrow> string" where
  "RunStatus_as_str RS_Queued = ''queued''"
| "RunStatus_as_str RS_Running = ''running''"
| "RunStatus_as_str RS_Completed = ''completed''"
| "RunStatus_as_str RS_Failed = ''failed''"
| "RunStatus_as_str RS_Cancelled = ''cancelled''"
| "RunStatus_as_str RS_Interrupted = ''interrupted''"
| "RunStatus_as_str RS_Blocked = ''blocked''"
| "RunStatus_as_str RS_Error = ''error''"

definition RunStatus_parse :: "string \<Rightarrow> RunStatus option" where
  "RunStatus_parse s =
     (if s = ''queued'' then Some RS_Queued
      else if s = ''running'' then Some RS_Running
      else if s = ''completed'' then Some RS_Completed
      else if s = ''failed'' then Some RS_Failed
      else if s = ''cancelled'' then Some RS_Cancelled
      else if s = ''interrupted'' then Some RS_Interrupted
      else if s = ''blocked'' then Some RS_Blocked
      else if s = ''error'' then Some RS_Error
      else None)"

definition is_terminal :: "RunStatus \<Rightarrow> bool" where
  "is_terminal s \<longleftrightarrow> s \<in> {RS_Completed, RS_Failed, RS_Cancelled, RS_Blocked, RS_Error}"

datatype AttemptStatus =
    AS_Running | AS_Completed | AS_Failed | AS_Cancelled | AS_Interrupted | AS_Blocked | AS_Error

primrec AttemptStatus_as_str :: "AttemptStatus \<Rightarrow> string" where
  "AttemptStatus_as_str AS_Running = ''running''"
| "AttemptStatus_as_str AS_Completed = ''completed''"
| "AttemptStatus_as_str AS_Failed = ''failed''"
| "AttemptStatus_as_str AS_Cancelled = ''cancelled''"
| "AttemptStatus_as_str AS_Interrupted = ''interrupted''"
| "AttemptStatus_as_str AS_Blocked = ''blocked''"
| "AttemptStatus_as_str AS_Error = ''error''"

definition AttemptStatus_parse :: "string \<Rightarrow> AttemptStatus option" where
  "AttemptStatus_parse s =
     (if s = ''running'' then Some AS_Running
      else if s = ''completed'' then Some AS_Completed
      else if s = ''failed'' then Some AS_Failed
      else if s = ''cancelled'' then Some AS_Cancelled
      else if s = ''interrupted'' then Some AS_Interrupted
      else if s = ''blocked'' then Some AS_Blocked
      else if s = ''error'' then Some AS_Error
      else None)"

datatype EventType =
    ET_ConversationCreated | ET_RunCreated | ET_RunStarted | ET_RunCompleted | ET_RunFailed
  | ET_RunCancelled | ET_RunInterrupted | ET_RunBlocked | ET_RunErrored | ET_UserMessage | ET_SystemNote

primrec EventType_as_str :: "EventType \<Rightarrow> string" where
  "EventType_as_str ET_ConversationCreated = ''conversation.created''"
| "EventType_as_str ET_RunCreated = ''run.created''"
| "EventType_as_str ET_RunStarted = ''run.started''"
| "EventType_as_str ET_RunCompleted = ''run.completed''"
| "EventType_as_str ET_RunFailed = ''run.failed''"
| "EventType_as_str ET_RunCancelled = ''run.cancelled''"
| "EventType_as_str ET_RunInterrupted = ''run.interrupted''"
| "EventType_as_str ET_RunBlocked = ''run.blocked''"
| "EventType_as_str ET_RunErrored = ''run.errored''"
| "EventType_as_str ET_UserMessage = ''user.message''"
| "EventType_as_str ET_SystemNote = ''system.note''"

definition EventType_parse :: "string \<Rightarrow> EventType option" where
  "EventType_parse s =
     (if s = ''conversation.created'' then Some ET_ConversationCreated
      else if s = ''run.created'' then Some ET_RunCreated
      else if s = ''run.started'' then Some ET_RunStarted
      else if s = ''run.completed'' then Some ET_RunCompleted
      else if s = ''run.failed'' then Some ET_RunFailed
      else if s = ''run.cancelled'' then Some ET_RunCancelled
      else if s = ''run.interrupted'' then Some ET_RunInterrupted
      else if s = ''run.blocked'' then Some ET_RunBlocked
      else if s = ''run.errored'' then Some ET_RunErrored
      else if s = ''user.message'' then Some ET_UserMessage
      else if s = ''system.note'' then Some ET_SystemNote
      else None)"

datatype CommandStatus = CS_Accepted | CS_Started | CS_Completed | CS_Rejected

primrec CommandStatus_as_str :: "CommandStatus \<Rightarrow> string" where
  "CommandStatus_as_str CS_Accepted = ''accepted''"
| "CommandStatus_as_str CS_Started = ''started''"
| "CommandStatus_as_str CS_Completed = ''completed''"
| "CommandStatus_as_str CS_Rejected = ''rejected''"

definition CommandStatus_parse :: "string \<Rightarrow> CommandStatus option" where
  "CommandStatus_parse s =
     (if s = ''accepted'' then Some CS_Accepted
      else if s = ''started'' then Some CS_Started
      else if s = ''completed'' then Some CS_Completed
      else if s = ''rejected'' then Some CS_Rejected
      else None)"

text \<open>\<^verbatim>\<open>status IN ('accepted','started')\<close>\<close>

definition in_flight :: "CommandStatus \<Rightarrow> bool" where
  "in_flight s \<longleftrightarrow> s = CS_Accepted \<or> s = CS_Started"

section \<open>Rows and requests\<close>

type_synonym ConversationId = string
type_synonym LedgerRunId = string
type_synonym AttemptId = string
type_synonym LedgerEventId = string
type_synonym CommandId = string

datatype Json =
    JNull | JBool bool | JNum int | JStr string | JArr "Json list" | JObj "(string \<times> Json) list"

record Conversation =
  co_conversation_id :: ConversationId
  co_created_at :: int
  co_status :: ConversationStatus

record Run =
  ru_run_id :: LedgerRunId
  ru_conversation_id :: ConversationId
  ru_parent_run_id :: "LedgerRunId option"
  ru_agent :: string
  ru_role :: string
  ru_status :: RunStatus
  ru_created_at :: int
  ru_finished_at :: "int option"
  ru_provider_session_id :: "string option"

record RunAttempt =
  at_attempt_id :: AttemptId
  at_run_id :: LedgerRunId
  at_attempt_number :: int
  at_status :: AttemptStatus
  at_started_at :: int
  at_finished_at :: "int option"

record Command =
  cm_command_id :: CommandId
  cm_conversation_id :: ConversationId
  cm_parent_run_id :: LedgerRunId
  cm_command_text :: string
  cm_status :: CommandStatus
  cm_child_run_id :: "LedgerRunId option"
  cm_created_at :: int
  cm_updated_at :: int

record PersistedEvent =
  pe_event_id :: LedgerEventId
  pe_conversation_id :: ConversationId
  pe_run_id :: "LedgerRunId option"
  pe_attempt_id :: "AttemptId option"
  pe_sequence :: int
  pe_event_type :: string
  pe_schema_version :: int
  pe_created_at :: int
  pe_payload :: Json

record IdempotencyRecord =
  ir_scope :: string
  ir_key :: string
  ir_request_digest :: string
  ir_result_reference :: string
  ir_created_at :: int

record NewEvent =
  ne_event_id :: LedgerEventId
  ne_conversation_id :: ConversationId
  ne_run_id :: "LedgerRunId option"
  ne_attempt_id :: "AttemptId option"
  ne_event_type :: EventType
  ne_schema_version :: u32
  ne_payload :: Json

record NewRun =
  nr_conversation_id :: ConversationId
  nr_parent_run_id :: "LedgerRunId option"
  nr_agent :: string
  nr_role :: string

record NewCommand =
  nc_conversation_id :: ConversationId
  nc_parent_run_id :: LedgerRunId
  nc_command_text :: string

datatype RebindOutcome = Rebound Command | LostRace Command | RB_NotEligible Command | RB_NotFound

datatype RejectionOutcome = Rejected Command | RJ_NotEligible Command | RJ_NotFound

datatype CompletionOutcome = Completed Command | NotBound Command | CP_NotFound

record RecoveryState =
  rs_interrupted_runs :: "LedgerRunId list"
  rs_interrupted_attempts :: "AttemptId list"

record ListCursor =
  lc_created_at :: int
  lc_tiebreak :: int

record 'a Page =
  pg_items :: "'a list"
  pg_next_before :: "ListCursor option"

section \<open>Errors\<close>

datatype LedgerError =
    Sqlite
  | JsonError
  | IdempotencyConflict string string
  | ForbiddenTransition string string string
  | NotFound string
  | InvalidState
  | SchemaTooNew u32 u32
  | Integrity string
  | Join
  | LockPoisoned
  | StaleParent
  | CommandConflict
  | ContinuationNotPermitted

fun LedgerError_code :: "LedgerError \<Rightarrow> string" where
  "LedgerError_code Sqlite = ''SQLITE''"
| "LedgerError_code JsonError = ''JSON''"
| "LedgerError_code (IdempotencyConflict _ _) = ''IDEMPOTENCY_CONFLICT''"
| "LedgerError_code (ForbiddenTransition _ _ _) = ''FORBIDDEN_TRANSITION''"
| "LedgerError_code (NotFound _) = ''NOT_FOUND''"
| "LedgerError_code InvalidState = ''INVALID_STATE''"
| "LedgerError_code (SchemaTooNew _ _) = ''SCHEMA_TOO_NEW''"
| "LedgerError_code (Integrity _) = ''INTEGRITY''"
| "LedgerError_code Join = ''JOIN''"
| "LedgerError_code LockPoisoned = ''LOCK_POISONED''"
| "LedgerError_code StaleParent = ''STALE_PARENT''"
| "LedgerError_code CommandConflict = ''COMMAND_CONFLICT''"
| "LedgerError_code ContinuationNotPermitted = ''CONTINUATION_NOT_PERMITTED''"

section \<open>Transitions\<close>

definition run_transition_allowed :: "RunStatus \<Rightarrow> RunStatus \<Rightarrow> bool" where
  "run_transition_allowed from to \<longleftrightarrow>
     (from, to) \<in> {(RS_Queued, RS_Running), (RS_Running, RS_Completed), (RS_Running, RS_Failed),
       (RS_Running, RS_Cancelled), (RS_Running, RS_Interrupted), (RS_Running, RS_Blocked),
       (RS_Running, RS_Error)}"

definition validate_run_transition :: "RunStatus \<Rightarrow> RunStatus \<Rightarrow> (LedgerError, unit) result" where
  "validate_run_transition from to =
     (if run_transition_allowed from to then Inr ()
      else Inl (ForbiddenTransition ''run'' (RunStatus_as_str from) (RunStatus_as_str to)))"

definition attempt_transition_allowed :: "AttemptStatus \<Rightarrow> AttemptStatus \<Rightarrow> bool" where
  "attempt_transition_allowed from to \<longleftrightarrow>
     (from, to) \<in> {(AS_Running, AS_Completed), (AS_Running, AS_Failed), (AS_Running, AS_Cancelled),
       (AS_Running, AS_Interrupted), (AS_Running, AS_Blocked), (AS_Running, AS_Error)}"

definition validate_attempt_transition :: "AttemptStatus \<Rightarrow> AttemptStatus \<Rightarrow> (LedgerError, unit) result" where
  "validate_attempt_transition from to =
     (if attempt_transition_allowed from to then Inr ()
      else Inl (ForbiddenTransition ''attempt'' (AttemptStatus_as_str from) (AttemptStatus_as_str to)))"

fun terminal_attempt_status :: "RunStatus \<Rightarrow> AttemptStatus" where
  "terminal_attempt_status RS_Completed = AS_Completed"
| "terminal_attempt_status RS_Failed = AS_Failed"
| "terminal_attempt_status RS_Cancelled = AS_Cancelled"
| "terminal_attempt_status RS_Interrupted = AS_Interrupted"
| "terminal_attempt_status RS_Blocked = AS_Blocked"
| "terminal_attempt_status RS_Error = AS_Error"
| "terminal_attempt_status RS_Queued = AS_Completed"
| "terminal_attempt_status RS_Running = AS_Completed"

section \<open>Tables\<close>

record Ledger =
  db_conversation :: "Conversation list"
  db_run :: "Run list"
  db_run_attempt :: "RunAttempt list"
  db_event :: "PersistedEvent list"
  db_idempotency_record :: "IdempotencyRecord list"
  db_command :: "Command list"

definition empty_ledger :: Ledger where
  "empty_ledger =
     \<lparr>db_conversation = [], db_run = [], db_run_attempt = [], db_event = [],
      db_idempotency_record = [], db_command = []\<rparr>"

text \<open>The targets of the foreign keys.\<close>

definition has_conversation :: "Ledger \<Rightarrow> ConversationId \<Rightarrow> bool" where
  "has_conversation db c \<longleftrightarrow> (\<exists>x \<in> set (db_conversation db). co_conversation_id x = c)"

definition has_run_in :: "Run list \<Rightarrow> ConversationId \<Rightarrow> LedgerRunId \<Rightarrow> bool" where
  "has_run_in rs c r \<longleftrightarrow> (\<exists>x \<in> set rs. ru_conversation_id x = c \<and> ru_run_id x = r)"

definition has_run :: "Ledger \<Rightarrow> LedgerRunId \<Rightarrow> bool" where
  "has_run db r \<longleftrightarrow> (\<exists>x \<in> set (db_run db). ru_run_id x = r)"

definition has_attempt :: "Ledger \<Rightarrow> LedgerRunId \<Rightarrow> AttemptId \<Rightarrow> bool" where
  "has_attempt db r a \<longleftrightarrow> (\<exists>x \<in> set (db_run_attempt db). at_run_id x = r \<and> at_attempt_id x = a)"

definition insert_conversation :: "Conversation \<Rightarrow> Ledger \<Rightarrow> (LedgerError, Ledger) result" where
  "insert_conversation c db =
     (if \<exists>x \<in> set (db_conversation db). co_conversation_id x = co_conversation_id c then Inl Sqlite
      else Inr (db\<lparr>db_conversation := db_conversation db @ [c]\<rparr>))"

text \<open>A run may name itself as its parent: the key is checked after the row is in place.\<close>

definition insert_run :: "Run \<Rightarrow> Ledger \<Rightarrow> (LedgerError, Ledger) result" where
  "insert_run r db =
     (if (\<exists>x \<in> set (db_run db). ru_run_id x = ru_run_id r)
         \<or> \<not> has_conversation db (ru_conversation_id r)
         \<or> (case ru_parent_run_id r of None \<Rightarrow> False
            | Some p \<Rightarrow> \<not> has_run_in (db_run db @ [r]) (ru_conversation_id r) p)
      then Inl Sqlite
      else Inr (db\<lparr>db_run := db_run db @ [r]\<rparr>))"

definition insert_attempt :: "RunAttempt \<Rightarrow> Ledger \<Rightarrow> (LedgerError, Ledger) result" where
  "insert_attempt a db =
     (if (\<exists>x \<in> set (db_run_attempt db).
            at_attempt_id x = at_attempt_id a
            \<or> at_run_id x = at_run_id a \<and> at_attempt_number x = at_attempt_number a
            \<or> at_run_id x = at_run_id a \<and> at_status x = AS_Running \<and> at_status a = AS_Running)
         \<or> \<not> has_run db (at_run_id a)
      then Inl Sqlite
      else Inr (db\<lparr>db_run_attempt := db_run_attempt db @ [a]\<rparr>))"

definition insert_event :: "PersistedEvent \<Rightarrow> Ledger \<Rightarrow> (LedgerError, Ledger) result" where
  "insert_event e db =
     (if (\<exists>x \<in> set (db_event db).
            pe_event_id x = pe_event_id e
            \<or> pe_conversation_id x = pe_conversation_id e \<and> pe_sequence x = pe_sequence e)
         \<or> (pe_attempt_id e \<noteq> None \<and> pe_run_id e = None)
         \<or> \<not> has_conversation db (pe_conversation_id e)
         \<or> (case pe_run_id e of None \<Rightarrow> False
            | Some r \<Rightarrow> \<not> has_run_in (db_run db) (pe_conversation_id e) r
                \<or> (case pe_attempt_id e of None \<Rightarrow> False | Some a \<Rightarrow> \<not> has_attempt db r a))
      then Inl Sqlite
      else Inr (db\<lparr>db_event := db_event db @ [e]\<rparr>))"

definition insert_idempotency_record :: "IdempotencyRecord \<Rightarrow> Ledger \<Rightarrow> (LedgerError, Ledger) result" where
  "insert_idempotency_record i db =
     (if \<exists>x \<in> set (db_idempotency_record db). ir_scope x = ir_scope i \<and> ir_key x = ir_key i then Inl Sqlite
      else Inr (db\<lparr>db_idempotency_record := db_idempotency_record db @ [i]\<rparr>))"

definition insert_command :: "Command \<Rightarrow> Ledger \<Rightarrow> (LedgerError, Ledger) result" where
  "insert_command c db =
     (if (\<exists>x \<in> set (db_command db). cm_command_id x = cm_command_id c)
         \<or> \<not> has_conversation db (cm_conversation_id c)
         \<or> \<not> has_run_in (db_run db) (cm_conversation_id c) (cm_parent_run_id c)
      then Inl Sqlite
      else Inr (db\<lparr>db_command := db_command db @ [c]\<rparr>))"

text \<open>\<^verbatim>\<open>UPDATE t SET ... WHERE ...\<close>, and the number of rows it changed.\<close>

definition update_where :: "('a \<Rightarrow> bool) \<Rightarrow> ('a \<Rightarrow> 'a) \<Rightarrow> 'a list \<Rightarrow> 'a list" where
  "update_where P f rows = map (\<lambda>x. if P x then f x else x) rows"

definition changed_rows :: "('a \<Rightarrow> bool) \<Rightarrow> 'a list \<Rightarrow> nat" where
  "changed_rows P rows = length (filter P rows)"

definition update_runs :: "(Run \<Rightarrow> bool) \<Rightarrow> (Run \<Rightarrow> Run) \<Rightarrow> Ledger \<Rightarrow> Ledger" where
  "update_runs P f db = db\<lparr>db_run := update_where P f (db_run db)\<rparr>"

definition update_attempts :: "(RunAttempt \<Rightarrow> bool) \<Rightarrow> (RunAttempt \<Rightarrow> RunAttempt) \<Rightarrow> Ledger \<Rightarrow> Ledger" where
  "update_attempts P f db = db\<lparr>db_run_attempt := update_where P f (db_run_attempt db)\<rparr>"

definition update_commands :: "(Command \<Rightarrow> bool) \<Rightarrow> (Command \<Rightarrow> Command) \<Rightarrow> Ledger \<Rightarrow> Ledger" where
  "update_commands P f db = db\<lparr>db_command := update_where P f (db_command db)\<rparr>"

section \<open>Reading rows\<close>

definition load_conversation :: "Ledger \<Rightarrow> ConversationId \<Rightarrow> Conversation option" where
  "load_conversation db c = find (\<lambda>x. co_conversation_id x = c) (db_conversation db)"

definition load_run :: "Ledger \<Rightarrow> LedgerRunId \<Rightarrow> Run option" where
  "load_run db r = find (\<lambda>x. ru_run_id x = r) (db_run db)"

definition u32_max :: int where
  "u32_max = 4294967295"

definition load_attempt :: "Ledger \<Rightarrow> AttemptId \<Rightarrow> (LedgerError, RunAttempt option) result" where
  "load_attempt db a =
     (case find (\<lambda>x. at_attempt_id x = a) (db_run_attempt db) of
        None \<Rightarrow> Inr None
      | Some x \<Rightarrow>
          if at_attempt_number x < 0 \<or> u32_max < at_attempt_number x
          then Inl (Integrity ''negative attempt_number'') else Inr (Some x))"

definition load_command :: "Ledger \<Rightarrow> CommandId \<Rightarrow> Command option" where
  "load_command db c = find (\<lambda>x. cm_command_id x = c) (db_command db)"

definition persisted_event_from_raw :: "PersistedEvent \<Rightarrow> (LedgerError, PersistedEvent) result" where
  "persisted_event_from_raw x =
     (if pe_sequence x < 0 then Inl (Integrity ''negative sequence'')
      else if pe_schema_version x < 0 \<or> u32_max < pe_schema_version x
      then Inl (Integrity ''negative schema_version'')
      else Inr x)"

definition load_event :: "Ledger \<Rightarrow> LedgerEventId \<Rightarrow> (LedgerError, PersistedEvent option) result" where
  "load_event db e =
     (case find (\<lambda>x. pe_event_id x = e) (db_event db) of
        None \<Rightarrow> Inr None
      | Some x \<Rightarrow> and_then (persisted_event_from_raw x) (\<lambda>y. Inr (Some y)))"

section \<open>Idempotency\<close>

definition SCOPE_CREATE_CONVERSATION :: string where
  "SCOPE_CREATE_CONVERSATION = ''create-conversation''"

definition SCOPE_CREATE_RUN :: string where
  "SCOPE_CREATE_RUN = ''create-run''"

definition SCOPE_APPEND_USER_MESSAGE :: string where
  "SCOPE_APPEND_USER_MESSAGE = ''append-user-message''"

definition SCOPE_APPEND_SYSTEM_NOTE :: string where
  "SCOPE_APPEND_SYSTEM_NOTE = ''append-system-note''"

definition SCOPE_CREATE_RUN_WITH_ID :: string where
  "SCOPE_CREATE_RUN_WITH_ID = ''create-run-with-id''"

definition SCOPE_CREATE_COMMAND :: string where
  "SCOPE_CREATE_COMMAND = ''create-command''"

lemmas scope_defs = SCOPE_CREATE_CONVERSATION_def SCOPE_CREATE_RUN_def SCOPE_APPEND_USER_MESSAGE_def
  SCOPE_APPEND_SYSTEM_NOTE_def SCOPE_CREATE_RUN_WITH_ID_def SCOPE_CREATE_COMMAND_def

definition digest_bytes :: "(bytes \<Rightarrow> bytes) \<Rightarrow> bytes \<Rightarrow> string" where
  "digest_bytes sha bs = hex_lower (sha bs)"

datatype IdemOutcome = Fresh | Replayed string

definition idem_check :: "Ledger \<Rightarrow> string \<Rightarrow> string \<Rightarrow> string \<Rightarrow> (LedgerError, IdemOutcome) result" where
  "idem_check db scope key request_digest =
     (case find (\<lambda>x. ir_scope x = scope \<and> ir_key x = key) (db_idempotency_record db) of
        Some x \<Rightarrow>
          if ir_request_digest x = request_digest then Inr (Replayed (ir_result_reference x))
          else Inl (IdempotencyConflict scope key)
      | None \<Rightarrow> Inr Fresh)"

definition idem_record ::
  "string \<Rightarrow> string \<Rightarrow> string \<Rightarrow> string \<Rightarrow> int \<Rightarrow> Ledger \<Rightarrow> (LedgerError, Ledger) result" where
  "idem_record scope key request_digest result_reference created_at db =
     insert_idempotency_record
       \<lparr>ir_scope = scope, ir_key = key, ir_request_digest = request_digest,
        ir_result_reference = result_reference, ir_created_at = created_at\<rparr> db"

section \<open>Vocabulary lemmas\<close>

lemma status_round_trip:
  "ConversationStatus_parse (ConversationStatus_as_str v) = Some v"
  "RunStatus_parse (RunStatus_as_str s) = Some s"
  "AttemptStatus_parse (AttemptStatus_as_str a) = Some a"
  "EventType_parse (EventType_as_str e) = Some e"
  "CommandStatus_parse (CommandStatus_as_str c) = Some c"
  subgoal by (cases v) (simp_all add: ConversationStatus_parse_def)
  subgoal by (cases s) (simp_all add: RunStatus_parse_def)
  subgoal by (cases a) (simp_all add: AttemptStatus_parse_def)
  subgoal by (cases e) (simp_all add: EventType_parse_def)
  subgoal by (cases c) (simp_all add: CommandStatus_parse_def)
  done

lemma EventType_as_str_inj [simp]: "EventType_as_str a = EventType_as_str b \<longleftrightarrow> a = b"
  by (metis option.inject status_round_trip(4))

lemma terminal_no_exit: "is_terminal s \<Longrightarrow> \<not> run_transition_allowed s t"
  by (auto simp: is_terminal_def run_transition_allowed_def)

lemma terminal_attempt_not_running: "terminal_attempt_status t \<noteq> AS_Running"
  by (cases t) simp_all

lemma set_update_where: "set (update_where P f rows) = {if P x then f x else x | x. x \<in> set rows}"
  by (auto simp: update_where_def)

lemma map_update_where: "(\<And>x. g (f x) = g x) \<Longrightarrow> map g (update_where P f rows) = map g rows"
  by (simp add: update_where_def)

lemma length_update_where [simp]: "length (update_where P f rows) = length rows"
  by (simp add: update_where_def)

lemma update_where_append [simp]:
  "update_where P f (xs @ ys) = update_where P f xs @ update_where P f ys"
  by (simp add: update_where_def)

end
