(* ===== verification/Ledger_Ops.thy ===== *)
theory Ledger_Ops
  imports Ledger_Model
begin

text \<open>
  The writing operations of \<^verbatim>\<open>crates/o7-ledger/src/sqlite.rs\<close> on conversations, runs, attempts and events.
  Each definition is the closure the source hands to \<open>with_tx\<close>, from a ledger to a result with the new
  ledger; \<open>with_tx\<close> commits it or, on an error, rolls back. \<open>now\<close> is what \<^verbatim>\<open>now_millis()\<close> reads and the
  identifiers that \<^verbatim>\<open>generate()\<close> mints are arguments; SHA-256 (\<open>sha\<close>) and \<^verbatim>\<open>serde_json::to_vec\<close> (\<open>to_vec\<close>) are
  parameters.
\<close>

section \<open>Transactions\<close>

type_synonym 'a tx = "Ledger \<Rightarrow> (LedgerError, 'a \<times> Ledger) result"

definition with_tx :: "'a tx \<Rightarrow> Ledger \<Rightarrow> (LedgerError, 'a) result \<times> Ledger" where
  "with_tx work db = (case work db of Inl e \<Rightarrow> (Inl e, db) | Inr (x, db') \<Rightarrow> (Inr x, db'))"

definition i64_max :: int where
  "i64_max = 9223372036854775807"

text \<open>\<^verbatim>\<open>COALESCE(MAX(x), 0)\<close>\<close>

definition coalesce_max :: "int list \<Rightarrow> int" where
  "coalesce_max xs = (if xs = [] then 0 else Max (set xs))"

definition run_not_found :: "LedgerRunId \<Rightarrow> LedgerError" where
  "run_not_found r = NotFound (''run '' @ r)"

section \<open>Events\<close>

definition EVENT_SCHEMA_VERSION :: u32 where
  "EVENT_SCHEMA_VERSION = 1"

definition emit_event :: "NewEvent \<Rightarrow> int \<Rightarrow> PersistedEvent tx" where
  "emit_event event created_at db =
     (let mx = coalesce_max (map pe_sequence
            (filter (\<lambda>x. pe_conversation_id x = ne_conversation_id event) (db_event db))) in
      if mx + 1 > i64_max then Inl (Integrity ''sequence overflow'')
      else
        let next = mx + 1;
            row = \<lparr>pe_event_id = ne_event_id event, pe_conversation_id = ne_conversation_id event,
                   pe_run_id = ne_run_id event, pe_attempt_id = ne_attempt_id event,
                   pe_sequence = next, pe_event_type = EventType_as_str (ne_event_type event),
                   pe_schema_version = uint (ne_schema_version event), pe_created_at = created_at,
                   pe_payload = ne_payload event\<rparr> in
        and_then (insert_event row db) (\<lambda>db1.
          if next < 0 then Inl (Integrity ''negative sequence'') else Inr (row, db1)))"

definition append_event :: "NewEvent \<Rightarrow> int \<Rightarrow> PersistedEvent tx" where
  "append_event event now db = emit_event event now db"

text \<open>The event a lifecycle method emits about a run.\<close>

definition lifecycle_event ::
  "LedgerEventId \<Rightarrow> ConversationId \<Rightarrow> LedgerRunId option \<Rightarrow> EventType \<Rightarrow> Json \<Rightarrow> NewEvent" where
  "lifecycle_event eid conv run ty payload =
     \<lparr>ne_event_id = eid, ne_conversation_id = conv, ne_run_id = run, ne_attempt_id = None,
      ne_event_type = ty, ne_schema_version = EVENT_SCHEMA_VERSION, ne_payload = payload\<rparr>"

section \<open>Idempotent requests\<close>

text \<open>\<^verbatim>\<open>if let Some(idem) = ... { if let Replayed(reference) = check(..)? ... }\<close>\<close>

definition replayed :: "string \<Rightarrow> string option \<Rightarrow> string \<Rightarrow> Ledger \<Rightarrow> (LedgerError, string option) result" where
  "replayed scope idem request_digest db =
     (case idem of
        None \<Rightarrow> Inr None
      | Some key \<Rightarrow>
          and_then (idem_check db scope key request_digest) (\<lambda>o'.
            case o' of Fresh \<Rightarrow> Inr None | Replayed reference \<Rightarrow> Inr (Some reference)))"

definition record_if ::
  "string \<Rightarrow> string option \<Rightarrow> string \<Rightarrow> string \<Rightarrow> int \<Rightarrow> Ledger \<Rightarrow> (LedgerError, Ledger) result" where
  "record_if scope idem request_digest reference now db =
     (case idem of
        None \<Rightarrow> Inr db
      | Some key \<Rightarrow> idem_record scope key request_digest reference now db)"

section \<open>Conversations and runs\<close>

definition create_conversation_digest :: "(bytes \<Rightarrow> bytes) \<Rightarrow> string" where
  "create_conversation_digest sha = digest_bytes sha (as_bytes ''create-conversation:v1'')"

definition create_conversation ::
  "(bytes \<Rightarrow> bytes) \<Rightarrow> string option \<Rightarrow> int \<Rightarrow> ConversationId \<Rightarrow> LedgerEventId \<Rightarrow> Conversation tx" where
  "create_conversation sha idempotency now cid eid db =
     (let request_digest = create_conversation_digest sha in
      and_then (replayed SCOPE_CREATE_CONVERSATION idempotency request_digest db) (\<lambda>r.
        case r of
          Some reference \<Rightarrow>
            and_then (ok_or (load_conversation db reference) (NotFound (''conversation '' @ reference)))
              (\<lambda>c. Inr (c, db))
        | None \<Rightarrow>
            let conversation = \<lparr>co_conversation_id = cid, co_created_at = now, co_status = CV_Open\<rparr> in
            and_then (insert_conversation conversation db) (\<lambda>db1.
            and_then (emit_event (lifecycle_event eid cid None ET_ConversationCreated (JObj [])) now db1)
              (\<lambda>(_, db2).
            and_then (record_if SCOPE_CREATE_CONVERSATION idempotency request_digest cid now db2) (\<lambda>db3.
            Inr (conversation, db3))))))"

definition create_run_inner ::
  "NewRun \<Rightarrow> LedgerRunId option \<Rightarrow> string \<Rightarrow> string option \<Rightarrow> string \<Rightarrow> int \<Rightarrow> LedgerRunId \<Rightarrow> LedgerEventId
     \<Rightarrow> Run tx" where
  "create_run_inner request run_id scope idempotency request_digest now rid eid db =
     and_then (replayed scope idempotency request_digest db) (\<lambda>r.
       case r of
         Some reference \<Rightarrow>
           and_then (ok_or (load_run db reference) (run_not_found reference)) (\<lambda>x. Inr (x, db))
       | None \<Rightarrow>
           let run = \<lparr>ru_run_id = (case run_id of Some x \<Rightarrow> x | None \<Rightarrow> rid),
                ru_conversation_id = nr_conversation_id request, ru_parent_run_id = nr_parent_run_id request,
                ru_agent = nr_agent request, ru_role = nr_role request, ru_status = RS_Queued,
                ru_created_at = now, ru_finished_at = None, ru_provider_session_id = None\<rparr> in
           and_then (insert_run run db) (\<lambda>db1.
           and_then (emit_event
               (lifecycle_event eid (ru_conversation_id run) (Some (ru_run_id run)) ET_RunCreated
                 (JObj [(''agent'', JStr (ru_agent run)), (''role'', JStr (ru_role run))])) now db1)
             (\<lambda>(_, db2).
           and_then (record_if scope idempotency request_digest (ru_run_id run) now db2) (\<lambda>db3.
           Inr (run, db3)))))"

definition opt_json :: "string option \<Rightarrow> Json" where
  "opt_json x = (case x of None \<Rightarrow> JNull | Some s \<Rightarrow> JStr s)"

definition create_run_digest :: "(bytes \<Rightarrow> bytes) \<Rightarrow> (Json \<Rightarrow> bytes) \<Rightarrow> NewRun \<Rightarrow> string" where
  "create_run_digest sha to_vec request =
     digest_bytes sha (to_vec (JObj
       [(''conversation_id'', JStr (nr_conversation_id request)),
        (''parent_run_id'', opt_json (nr_parent_run_id request)),
        (''agent'', JStr (nr_agent request)), (''role'', JStr (nr_role request))]))"

definition create_run ::
  "(bytes \<Rightarrow> bytes) \<Rightarrow> (Json \<Rightarrow> bytes) \<Rightarrow> NewRun \<Rightarrow> string option \<Rightarrow> int \<Rightarrow> LedgerRunId \<Rightarrow> LedgerEventId
     \<Rightarrow> Run tx" where
  "create_run sha to_vec request idempotency now rid eid =
     create_run_inner request None SCOPE_CREATE_RUN idempotency (create_run_digest sha to_vec request)
       now rid eid"

definition create_run_with_id_digest ::
  "(bytes \<Rightarrow> bytes) \<Rightarrow> (Json \<Rightarrow> bytes) \<Rightarrow> NewRun \<Rightarrow> LedgerRunId \<Rightarrow> string" where
  "create_run_with_id_digest sha to_vec request run_id =
     digest_bytes sha (to_vec (JObj
       [(''conversation_id'', JStr (nr_conversation_id request)),
        (''parent_run_id'', opt_json (nr_parent_run_id request)),
        (''agent'', JStr (nr_agent request)), (''role'', JStr (nr_role request)),
        (''run_id'', JStr run_id)]))"

definition create_run_with_id ::
  "(bytes \<Rightarrow> bytes) \<Rightarrow> (Json \<Rightarrow> bytes) \<Rightarrow> NewRun \<Rightarrow> LedgerRunId \<Rightarrow> string \<Rightarrow> int \<Rightarrow> LedgerRunId
     \<Rightarrow> LedgerEventId \<Rightarrow> Run tx" where
  "create_run_with_id sha to_vec request run_id key now rid eid =
     create_run_inner request (Some run_id) SCOPE_CREATE_RUN_WITH_ID (Some key)
       (create_run_with_id_digest sha to_vec request run_id) now rid eid"

text \<open>\<^verbatim>\<open>UPDATE run_attempt SET status = .., finished_at = .. WHERE run_id = .. AND status = 'running'\<close>\<close>

definition close_attempts :: "LedgerRunId \<Rightarrow> AttemptStatus \<Rightarrow> int \<Rightarrow> Ledger \<Rightarrow> Ledger" where
  "close_attempts rid status now =
     update_attempts (\<lambda>x. at_run_id x = rid \<and> at_status x = AS_Running)
       (\<lambda>x. x\<lparr>at_status := status, at_finished_at := Some now\<rparr>)"

definition set_run_status ::
  "LedgerRunId \<Rightarrow> RunStatus \<Rightarrow> EventType \<Rightarrow> int \<Rightarrow> LedgerEventId \<Rightarrow> Run tx" where
  "set_run_status rid target event_type now eid db =
     and_then (ok_or (load_run db rid) (run_not_found rid)) (\<lambda>current.
     and_then (validate_run_transition (ru_status current) target) (\<lambda>_.
     let finished_at = (if is_terminal target then Some now else None);
         db1 = update_runs (\<lambda>x. ru_run_id x = rid)
                 (\<lambda>x. x\<lparr>ru_status := target, ru_finished_at := finished_at\<rparr>) db;
         db2 = (if is_terminal target \<or> target = RS_Interrupted
                then close_attempts rid (terminal_attempt_status target) now db1 else db1) in
     and_then (emit_event
         (lifecycle_event eid (ru_conversation_id current) (Some rid) event_type (JObj [])) now db2)
       (\<lambda>(_, db3).
     and_then (ok_or (load_run db3 rid) (run_not_found rid)) (\<lambda>run. Inr (run, db3)))))"

definition start_run :: "LedgerRunId \<Rightarrow> int \<Rightarrow> LedgerEventId \<Rightarrow> Run tx" where
  "start_run rid = set_run_status rid RS_Running ET_RunStarted"

definition complete_run :: "LedgerRunId \<Rightarrow> int \<Rightarrow> LedgerEventId \<Rightarrow> Run tx" where
  "complete_run rid = set_run_status rid RS_Completed ET_RunCompleted"

definition fail_run :: "LedgerRunId \<Rightarrow> int \<Rightarrow> LedgerEventId \<Rightarrow> Run tx" where
  "fail_run rid = set_run_status rid RS_Failed ET_RunFailed"

definition cancel_run :: "LedgerRunId \<Rightarrow> int \<Rightarrow> LedgerEventId \<Rightarrow> Run tx" where
  "cancel_run rid = set_run_status rid RS_Cancelled ET_RunCancelled"

definition interrupt_run :: "LedgerRunId \<Rightarrow> int \<Rightarrow> LedgerEventId \<Rightarrow> Run tx" where
  "interrupt_run rid = set_run_status rid RS_Interrupted ET_RunInterrupted"

definition block_run :: "LedgerRunId \<Rightarrow> int \<Rightarrow> LedgerEventId \<Rightarrow> Run tx" where
  "block_run rid = set_run_status rid RS_Blocked ET_RunBlocked"

definition error_run :: "LedgerRunId \<Rightarrow> int \<Rightarrow> LedgerEventId \<Rightarrow> Run tx" where
  "error_run rid = set_run_status rid RS_Error ET_RunErrored"

definition set_run_provider_session :: "LedgerRunId \<Rightarrow> string \<Rightarrow> Run tx" where
  "set_run_provider_session rid session_id db =
     and_then (ok_or (load_run db rid) (run_not_found rid)) (\<lambda>_.
     let db1 = update_runs (\<lambda>x. ru_run_id x = rid) (\<lambda>x. x\<lparr>ru_provider_session_id := Some session_id\<rparr>) db in
     and_then (ok_or (load_run db1 rid) (run_not_found rid)) (\<lambda>run. Inr (run, db1)))"

section \<open>Attempts\<close>

definition attempts_of :: "Ledger \<Rightarrow> LedgerRunId \<Rightarrow> RunAttempt list" where
  "attempts_of db rid = filter (\<lambda>x. at_run_id x = rid) (db_run_attempt db)"

definition next_attempt_number :: "Ledger \<Rightarrow> LedgerRunId \<Rightarrow> int" where
  "next_attempt_number db rid = coalesce_max (map at_attempt_number (attempts_of db rid)) + 1"

text \<open>The insertion both \<open>create_attempt\<close> and \<open>resume_interrupted_run\<close> end with.\<close>

definition new_attempt :: "LedgerRunId \<Rightarrow> int \<Rightarrow> AttemptId \<Rightarrow> RunAttempt tx" where
  "new_attempt rid now aid db =
     (let next_number = next_attempt_number db rid in
      if next_number < 0 \<or> u32_max < next_number then Inl (Integrity ''attempt_number overflow'')
      else
        let attempt = \<lparr>at_attempt_id = aid, at_run_id = rid, at_attempt_number = next_number,
              at_status = AS_Running, at_started_at = now, at_finished_at = None\<rparr> in
        and_then (insert_attempt attempt db) (\<lambda>db1. Inr (attempt, db1)))"

definition create_attempt :: "LedgerRunId \<Rightarrow> int \<Rightarrow> AttemptId \<Rightarrow> RunAttempt tx" where
  "create_attempt rid now aid db =
     and_then (ok_or (load_run db rid) (run_not_found rid)) (\<lambda>run.
     if ru_status run \<noteq> RS_Running then Inl InvalidState
     else if length (filter (\<lambda>x. at_status x = AS_Running) (attempts_of db rid)) > 0 then Inl InvalidState
     else new_attempt rid now aid db)"

definition attempt_not_found :: "AttemptId \<Rightarrow> LedgerError" where
  "attempt_not_found a = NotFound (''attempt '' @ a)"

definition require_attempt :: "AttemptId \<Rightarrow> Ledger \<Rightarrow> (LedgerError, RunAttempt) result" where
  "require_attempt aid db =
     and_then (load_attempt db aid) (\<lambda>x. ok_or x (attempt_not_found aid))"

definition set_attempt_status :: "AttemptId \<Rightarrow> AttemptStatus \<Rightarrow> int \<Rightarrow> RunAttempt tx" where
  "set_attempt_status aid target now db =
     and_then (require_attempt aid db) (\<lambda>current.
     and_then (validate_attempt_transition (at_status current) target) (\<lambda>_.
     let finished_at = (if target = AS_Running then None else Some now);
         db1 = update_attempts (\<lambda>x. at_attempt_id x = aid)
                 (\<lambda>x. x\<lparr>at_status := target, at_finished_at := finished_at\<rparr>) db in
     and_then (require_attempt aid db1) (\<lambda>attempt. Inr (attempt, db1))))"

definition resume_interrupted_run ::
  "LedgerRunId \<Rightarrow> int \<Rightarrow> LedgerEventId \<Rightarrow> AttemptId \<Rightarrow> RunAttempt tx" where
  "resume_interrupted_run rid now eid aid db =
     and_then (ok_or (load_run db rid) (run_not_found rid)) (\<lambda>current.
     if ru_status current \<noteq> RS_Interrupted then Inl InvalidState
     else
       let db1 = close_attempts rid AS_Interrupted now db;
           db2 = update_runs (\<lambda>x. ru_run_id x = rid)
                   (\<lambda>x. x\<lparr>ru_status := RS_Running, ru_finished_at := None\<rparr>) db1 in
       and_then (emit_event
           (lifecycle_event eid (ru_conversation_id current) (Some rid) ET_RunStarted
             (JObj [(''resumed'', JBool True)])) now db2)
         (\<lambda>(_, db3). new_attempt rid now aid db3))"

text \<open>\<^verbatim>\<open>ORDER BY attempt_number DESC LIMIT 1\<close>\<close>

fun latest_by_number :: "RunAttempt list \<Rightarrow> RunAttempt option" where
  "latest_by_number [] = None"
| "latest_by_number (x # xs) =
     (case latest_by_number xs of
        None \<Rightarrow> Some x
      | Some y \<Rightarrow> if at_attempt_number x < at_attempt_number y then Some y else Some x)"

fun repair_event_type :: "RunStatus \<Rightarrow> EventType option" where
  "repair_event_type RS_Completed = Some ET_RunCompleted"
| "repair_event_type RS_Failed = Some ET_RunFailed"
| "repair_event_type RS_Blocked = Some ET_RunBlocked"
| "repair_event_type RS_Error = Some ET_RunErrored"
| "repair_event_type _ = None"

definition repair_interrupted_run_to_terminal ::
  "LedgerRunId \<Rightarrow> RunStatus \<Rightarrow> int \<Rightarrow> LedgerEventId \<Rightarrow> Run tx" where
  "repair_interrupted_run_to_terminal rid target now eid db =
     and_then (ok_or (repair_event_type target) InvalidState) (\<lambda>event_type.
     and_then (ok_or (load_run db rid) (run_not_found rid)) (\<lambda>current.
     if ru_status current \<noteq> RS_Interrupted then Inl InvalidState
     else
       let db1 = update_runs (\<lambda>x. ru_run_id x = rid)
                   (\<lambda>x. x\<lparr>ru_status := target, ru_finished_at := Some now\<rparr>) db;
           last = latest_by_number (filter (\<lambda>x. at_status x = AS_Interrupted) (attempts_of db1 rid));
           db2 = update_attempts (\<lambda>x. map_option at_attempt_id last = Some (at_attempt_id x))
                   (\<lambda>x. x\<lparr>at_status := terminal_attempt_status target, at_finished_at := Some now\<rparr>) db1 in
       and_then (emit_event
           (lifecycle_event eid (ru_conversation_id current) (Some rid) event_type
             (JObj [(''repaired_from'', JStr ''interrupted'')])) now db2)
         (\<lambda>(_, db3).
       and_then (ok_or (load_run db3 rid) (run_not_found rid)) (\<lambda>run. Inr (run, db3)))))"

section \<open>Messages and notes\<close>

definition require_event :: "LedgerEventId \<Rightarrow> Ledger \<Rightarrow> (LedgerError, PersistedEvent) result" where
  "require_event eid db =
     and_then (load_event db eid) (\<lambda>x. ok_or x (NotFound (''event '' @ eid)))"

definition append_user_message_digest ::
  "(bytes \<Rightarrow> bytes) \<Rightarrow> (Json \<Rightarrow> bytes) \<Rightarrow> ConversationId \<Rightarrow> Json \<Rightarrow> LedgerRunId option \<Rightarrow> string" where
  "append_user_message_digest sha to_vec conv payload rid =
     digest_bytes sha (to_vec (JObj
       [(''conversation_id'', JStr conv), (''run_id'', opt_json rid), (''payload'', payload)]))"

definition append_user_message ::
  "(bytes \<Rightarrow> bytes) \<Rightarrow> (Json \<Rightarrow> bytes) \<Rightarrow> ConversationId \<Rightarrow> Json \<Rightarrow> LedgerRunId option \<Rightarrow> string option \<Rightarrow> int
     \<Rightarrow> LedgerEventId \<Rightarrow> PersistedEvent tx" where
  "append_user_message sha to_vec conv payload rid idempotency now eid db =
     (let request_digest = append_user_message_digest sha to_vec conv payload rid in
      and_then (replayed SCOPE_APPEND_USER_MESSAGE idempotency request_digest db) (\<lambda>r.
        case r of
          Some reference \<Rightarrow> and_then (require_event reference db) (\<lambda>e. Inr (e, db))
        | None \<Rightarrow>
            and_then (emit_event (lifecycle_event eid conv rid ET_UserMessage payload) now db)
              (\<lambda>(event, db1).
            and_then (record_if SCOPE_APPEND_USER_MESSAGE idempotency request_digest (pe_event_id event) now db1)
              (\<lambda>db2. Inr (event, db2)))))"

definition append_system_note_digest ::
  "(bytes \<Rightarrow> bytes) \<Rightarrow> (Json \<Rightarrow> bytes) \<Rightarrow> ConversationId \<Rightarrow> LedgerRunId option \<Rightarrow> AttemptId option \<Rightarrow> Json
     \<Rightarrow> string" where
  "append_system_note_digest sha to_vec conv rid aid payload =
     digest_bytes sha (to_vec (JObj
       [(''conversation_id'', JStr conv), (''run_id'', opt_json rid), (''attempt_id'', opt_json aid),
        (''payload'', payload)]))"

definition append_system_note ::
  "(bytes \<Rightarrow> bytes) \<Rightarrow> (Json \<Rightarrow> bytes) \<Rightarrow> ConversationId \<Rightarrow> LedgerRunId option \<Rightarrow> AttemptId option \<Rightarrow> Json
     \<Rightarrow> string \<Rightarrow> int \<Rightarrow> LedgerEventId \<Rightarrow> PersistedEvent tx" where
  "append_system_note sha to_vec conv rid aid payload key now eid db =
     (let request_digest = append_system_note_digest sha to_vec conv rid aid payload in
      and_then (replayed SCOPE_APPEND_SYSTEM_NOTE (Some key) request_digest db) (\<lambda>r.
        case r of
          Some reference \<Rightarrow> and_then (require_event reference db) (\<lambda>e. Inr (e, db))
        | None \<Rightarrow>
            and_then (emit_event
                ((lifecycle_event eid conv rid ET_SystemNote payload)\<lparr>ne_attempt_id := aid\<rparr>) now db)
              (\<lambda>(event, db1).
            and_then (record_if SCOPE_APPEND_SYSTEM_NOTE (Some key) request_digest (pe_event_id event) now db1)
              (\<lambda>db2. Inr (event, db2)))))"

section \<open>Recovery\<close>

definition recover_scan :: "Ledger \<Rightarrow> RecoveryState" where
  "recover_scan db =
     \<lparr>rs_interrupted_runs = map ru_run_id (filter (\<lambda>x. ru_status x = RS_Running) (db_run db)),
      rs_interrupted_attempts =
        map at_attempt_id (filter (\<lambda>x. at_status x = AS_Running) (db_run_attempt db))\<rparr>"

text \<open>
  The body of the two loops of \<open>mark_interrupted\<close>. Every iteration reads the clock and mints an
  event identifier: an element carries both.
\<close>

definition interrupt_one :: "Ledger \<Rightarrow> LedgerRunId \<times> int \<times> LedgerEventId \<Rightarrow> (LedgerError, Ledger) result" where
  "interrupt_one db = (\<lambda>(rid, now, eid).
     and_then (ok_or (load_run db rid) (run_not_found rid)) (\<lambda>current.
     and_then (validate_run_transition (ru_status current) RS_Interrupted) (\<lambda>_.
     let db1 = update_runs (\<lambda>x. ru_run_id x = rid) (\<lambda>x. x\<lparr>ru_status := RS_Interrupted\<rparr>) db;
         db2 = close_attempts rid AS_Interrupted now db1 in
     and_then (emit_event
         (lifecycle_event eid (ru_conversation_id current) (Some rid) ET_RunInterrupted
           (JObj [(''reason'', JStr ''recovery'')])) now db2)
       (\<lambda>(_, db3). Inr db3))))"

definition interrupt_attempt :: "Ledger \<Rightarrow> AttemptId \<times> int \<Rightarrow> (LedgerError, Ledger) result" where
  "interrupt_attempt db = (\<lambda>(aid, now).
     and_then (require_attempt aid db) (\<lambda>current.
     if at_status current = AS_Running then
       Inr (update_attempts (\<lambda>x. at_attempt_id x = aid \<and> at_status x = AS_Running)
              (\<lambda>x. x\<lparr>at_status := AS_Interrupted, at_finished_at := Some now\<rparr>) db)
     else Inr db))"

definition mark_interrupted ::
  "(LedgerRunId \<times> int \<times> LedgerEventId) list \<Rightarrow> (AttemptId \<times> int) list \<Rightarrow> unit tx" where
  "mark_interrupted interrupted_runs interrupted_attempts db =
     and_then (try_fold interrupt_one db interrupted_runs) (\<lambda>db1.
     and_then (try_fold interrupt_attempt db1 interrupted_attempts) (\<lambda>db2. Inr ((), db2)))"

end
