(* ===== verification/Ledger_Commands.thy ===== *)
theory Ledger_Commands
  imports Ledger_Ops
begin

text \<open>
  The durable commands of \<^verbatim>\<open>crates/o7-ledger/src/sqlite.rs\<close>: acceptance, binding to a child run, redrive,
  completion, rejection and reconciliation. The vocabulary is that of \<open>Ledger_Ops\<close>; all operations of
  the ledger together form \<open>Op\<close>, and \<open>exec\<close> runs one in its transaction.
\<close>

section \<open>Acceptance\<close>

text \<open>
  \<open>char::is_control\<close> on UTF-8 bytes: the codes below 32, the code 127, and U+0080 to U+009F,
  which are encoded as the byte C2 followed by 80 to 9F.
\<close>

fun control_codes :: "nat list \<Rightarrow> bool" where
  "control_codes [] \<longleftrightarrow> False"
| "control_codes (c # cs) \<longleftrightarrow>
     c < 32 \<or> c = 127 \<or> (c = 194 \<and> (case cs of [] \<Rightarrow> False | d # _ \<Rightarrow> 128 \<le> d \<and> d \<le> 159)) \<or> control_codes cs"

definition has_control :: "string \<Rightarrow> bool" where
  "has_control s \<longleftrightarrow> control_codes (map of_char s)"

definition session_valid :: "string \<Rightarrow> bool" where
  "session_valid session \<longleftrightarrow> session \<noteq> [] \<and> \<not> has_control session"

text \<open>\<^verbatim>\<open>ORDER BY created_at DESC, rowid DESC LIMIT 1\<close>\<close>

fun newest_run :: "Run list \<Rightarrow> Run option" where
  "newest_run [] = None"
| "newest_run (x # xs) =
     (case newest_run xs of
        None \<Rightarrow> Some x
      | Some y \<Rightarrow> if ru_created_at x \<le> ru_created_at y then Some y else Some x)"

definition conversation_runs :: "Ledger \<Rightarrow> ConversationId \<Rightarrow> Run list" where
  "conversation_runs db c = filter (\<lambda>x. ru_conversation_id x = c) (db_run db)"

definition in_flight_commands :: "Ledger \<Rightarrow> ConversationId \<Rightarrow> Command list" where
  "in_flight_commands db c =
     filter (\<lambda>x. cm_conversation_id x = c \<and> in_flight (cm_status x)) (db_command db)"

definition command_not_found :: "CommandId \<Rightarrow> LedgerError" where
  "command_not_found c = NotFound (''command '' @ c)"

definition create_command_digest :: "(bytes \<Rightarrow> bytes) \<Rightarrow> (Json \<Rightarrow> bytes) \<Rightarrow> NewCommand \<Rightarrow> string" where
  "create_command_digest sha to_vec request =
     digest_bytes sha (to_vec (JObj
       [(''conversation_id'', JStr (nc_conversation_id request)),
        (''parent_run_id'', JStr (nc_parent_run_id request)),
        (''command_text'', JStr (nc_command_text request))]))"

text \<open>The checks a fresh command passes, in the order of the source.\<close>

definition check_acceptance :: "NewCommand \<Rightarrow> Ledger \<Rightarrow> (LedgerError, unit) result" where
  "check_acceptance request db =
     and_then (ok_or (load_conversation db (nc_conversation_id request))
         (NotFound (''conversation '' @ nc_conversation_id request))) (\<lambda>_.
     and_then (ok_or (load_run db (nc_parent_run_id request)) (run_not_found (nc_parent_run_id request))) (\<lambda>parent.
     if ru_conversation_id parent \<noteq> nc_conversation_id request then
       Inl (NotFound (''run '' @ nc_parent_run_id request @ '' does not belong to conversation ''
              @ nc_conversation_id request))
     else if \<not> is_terminal (ru_status parent) then Inl ContinuationNotPermitted
     else
       and_then (ok_or (newest_run (conversation_runs db (nc_conversation_id request))) Sqlite) (\<lambda>latest.
       if ru_run_id latest \<noteq> nc_parent_run_id request then Inl StaleParent
       else if length (in_flight_commands db (nc_conversation_id request)) > 0 then Inl CommandConflict
       else (case ru_provider_session_id parent of
               None \<Rightarrow> Inl ContinuationNotPermitted
             | Some session \<Rightarrow>
                 if \<not> session_valid session then Inl ContinuationNotPermitted else Inr ()))))"

definition create_command ::
  "(bytes \<Rightarrow> bytes) \<Rightarrow> (Json \<Rightarrow> bytes) \<Rightarrow> NewCommand \<Rightarrow> string \<Rightarrow> int \<Rightarrow> CommandId \<Rightarrow> Command tx" where
  "create_command sha to_vec request key now cmid db =
     (let request_digest = create_command_digest sha to_vec request in
      and_then (replayed SCOPE_CREATE_COMMAND (Some key) request_digest db) (\<lambda>r.
        case r of
          Some reference \<Rightarrow>
            and_then (ok_or (load_command db reference) (command_not_found reference)) (\<lambda>c. Inr (c, db))
        | None \<Rightarrow>
            and_then (check_acceptance request db) (\<lambda>_.
            let command = \<lparr>cm_command_id = cmid, cm_conversation_id = nc_conversation_id request,
                  cm_parent_run_id = nc_parent_run_id request, cm_command_text = nc_command_text request,
                  cm_status = CS_Accepted, cm_child_run_id = None, cm_created_at = now,
                  cm_updated_at = now\<rparr> in
            and_then (insert_command command db) (\<lambda>db1.
            and_then (record_if SCOPE_CREATE_COMMAND (Some key) request_digest cmid now db1) (\<lambda>db2.
            Inr (command, db2))))))"

definition command_idempotency_key_seen :: "string \<Rightarrow> Ledger \<Rightarrow> bool" where
  "command_idempotency_key_seen key db \<longleftrightarrow>
     (\<exists>x \<in> set (db_idempotency_record db). ir_scope x = SCOPE_CREATE_COMMAND \<and> ir_key x = key)"

section \<open>Binding and redrive\<close>

definition bind_command_child_run :: "CommandId \<Rightarrow> LedgerRunId \<Rightarrow> int \<Rightarrow> Command tx" where
  "bind_command_child_run cmid rid now db =
     and_then (ok_or (load_command db cmid) (command_not_found cmid)) (\<lambda>_.
     let db1 = update_commands (\<lambda>x. cm_command_id x = cmid \<and> cm_child_run_id x = None)
           (\<lambda>x. x\<lparr>cm_child_run_id := Some rid, cm_status := CS_Started, cm_updated_at := now\<rparr>) db in
     and_then (ok_or (load_command db1 cmid) (command_not_found cmid)) (\<lambda>c. Inr (c, db1)))"

definition set_command_status :: "CommandId \<Rightarrow> CommandStatus \<Rightarrow> int \<Rightarrow> Command tx" where
  "set_command_status cmid status now db =
     and_then (ok_or (load_command db cmid) (command_not_found cmid)) (\<lambda>_.
     let db1 = update_commands (\<lambda>x. cm_command_id x = cmid)
           (\<lambda>x. x\<lparr>cm_status := status, cm_updated_at := now\<rparr>) db in
     and_then (ok_or (load_command db1 cmid) (command_not_found cmid)) (\<lambda>c. Inr (c, db1)))"

definition mark_command_completed :: "CommandId \<Rightarrow> int \<Rightarrow> Command tx" where
  "mark_command_completed cmid = set_command_status cmid CS_Completed"

definition mark_command_rejected :: "CommandId \<Rightarrow> int \<Rightarrow> Command tx" where
  "mark_command_rejected cmid = set_command_status cmid CS_Rejected"

text \<open>\<^verbatim>\<open>now_millis().max(expected_updated_at.saturating_add(1))\<close>\<close>

definition bumped_now :: "int \<Rightarrow> int \<Rightarrow> int" where
  "bumped_now now expected = max now (min i64_max (expected + 1))"

definition claim_stale_command_for_redrive :: "CommandId \<Rightarrow> int \<Rightarrow> int \<Rightarrow> bool tx" where
  "claim_stale_command_for_redrive cmid expected_updated_at now db =
     (let P = (\<lambda>x. cm_command_id x = cmid \<and> cm_updated_at x = expected_updated_at \<and> in_flight (cm_status x));
          changed = changed_rows P (db_command db);
          db1 = update_commands P (\<lambda>x. x\<lparr>cm_updated_at := bumped_now now expected_updated_at\<rparr>) db in
      Inr (changed = 1, db1))"

definition rebind_command_child_run :: "CommandId \<Rightarrow> LedgerRunId \<Rightarrow> int \<Rightarrow> Command tx" where
  "rebind_command_child_run cmid new_run_id now db =
     and_then (ok_or (load_command db cmid) (command_not_found cmid)) (\<lambda>_.
     let db1 = update_commands (\<lambda>x. cm_command_id x = cmid)
           (\<lambda>x. x\<lparr>cm_child_run_id := Some new_run_id, cm_updated_at := now\<rparr>) db in
     and_then (ok_or (load_command db1 cmid) (command_not_found cmid)) (\<lambda>c. Inr (c, db1)))"

definition vanished :: "CommandId \<Rightarrow> LedgerError" where
  "vanished cmid = Integrity (''command '' @ cmid @ '' vanished'')"

definition rebind_command_child_run_if_current ::
  "CommandId \<Rightarrow> LedgerRunId \<Rightarrow> int \<Rightarrow> LedgerRunId \<Rightarrow> int \<Rightarrow> RebindOutcome tx" where
  "rebind_command_child_run_if_current cmid expected_old_run_id expected_updated_at fresh_run_id now db =
     (case load_command db cmid of
        None \<Rightarrow> Inr (RB_NotFound, db)
      | Some current \<Rightarrow>
          if \<not> in_flight (cm_status current) then Inr (RB_NotEligible current, db)
          else if cm_child_run_id current \<noteq> Some expected_old_run_id
                  \<or> cm_updated_at current \<noteq> expected_updated_at
          then Inr (LostRace current, db)
          else
            let P = (\<lambda>x. cm_command_id x = cmid \<and> in_flight (cm_status x)
                       \<and> cm_child_run_id x = Some expected_old_run_id
                       \<and> cm_updated_at x = expected_updated_at);
                changed = changed_rows P (db_command db);
                db1 = update_commands P
                  (\<lambda>x. x\<lparr>cm_child_run_id := Some fresh_run_id,
                         cm_updated_at := bumped_now now expected_updated_at\<rparr>) db in
            and_then (ok_or (load_command db1 cmid) (vanished cmid)) (\<lambda>c.
              Inr (if changed \<noteq> 1 then LostRace c else Rebound c, db1)))"

section \<open>Completion and rejection\<close>

definition bound_to :: "LedgerRunId \<Rightarrow> Command \<Rightarrow> bool" where
  "bound_to rid c \<longleftrightarrow> in_flight (cm_status c) \<and> cm_child_run_id c = Some rid"

text \<open>The conditional \<^verbatim>\<open>UPDATE\<close> to \<open>completed\<close> and the re-read both completions end with.\<close>

definition complete_bound :: "CommandId \<Rightarrow> LedgerRunId \<Rightarrow> int \<Rightarrow> CompletionOutcome tx" where
  "complete_bound cmid rid now db =
     (let P = (\<lambda>x. cm_command_id x = cmid \<and> bound_to rid x);
          changed = changed_rows P (db_command db);
          db1 = update_commands P (\<lambda>x. x\<lparr>cm_status := CS_Completed, cm_updated_at := now\<rparr>) db in
      and_then (ok_or (load_command db1 cmid) (vanished cmid)) (\<lambda>c.
        Inr (if changed \<noteq> 1 then NotBound c else Completed c, db1)))"

definition mark_command_completed_if_bound :: "CommandId \<Rightarrow> LedgerRunId \<Rightarrow> int \<Rightarrow> CompletionOutcome tx" where
  "mark_command_completed_if_bound cmid rid now db =
     (case load_command db cmid of
        None \<Rightarrow> Inr (CP_NotFound, db)
      | Some current \<Rightarrow>
          if \<not> bound_to rid current then Inr (NotBound current, db)
          else complete_bound cmid rid now db)"

definition mark_command_completed_if_bound_and_terminal ::
  "CommandId \<Rightarrow> LedgerRunId \<Rightarrow> int \<Rightarrow> CompletionOutcome tx" where
  "mark_command_completed_if_bound_and_terminal cmid rid now db =
     (case load_command db cmid of
        None \<Rightarrow> Inr (CP_NotFound, db)
      | Some current \<Rightarrow>
          if \<not> bound_to rid current then Inr (NotBound current, db)
          else (case load_run db rid of
                  None \<Rightarrow> Inr (NotBound current, db)
                | Some child \<Rightarrow>
                    if is_terminal (ru_status child)
                       \<and> ru_conversation_id child = cm_conversation_id current
                       \<and> ru_parent_run_id child = Some (cm_parent_run_id current)
                    then complete_bound cmid rid now db
                    else Inr (NotBound current, db)))"

definition mark_command_rejected_if_unattached_and_bound ::
  "CommandId \<Rightarrow> LedgerRunId \<Rightarrow> int \<Rightarrow> RejectionOutcome tx" where
  "mark_command_rejected_if_unattached_and_bound cmid rid now db =
     (case load_command db cmid of
        None \<Rightarrow> Inr (RJ_NotFound, db)
      | Some current \<Rightarrow>
          if \<not> bound_to rid current then Inr (RJ_NotEligible current, db)
          else
            let P = (\<lambda>x. cm_command_id x = cmid \<and> bound_to rid x \<and> \<not> has_run db rid);
                changed = changed_rows P (db_command db);
                db1 = update_commands P (\<lambda>x. x\<lparr>cm_status := CS_Rejected, cm_updated_at := now\<rparr>) db in
            and_then (ok_or (load_command db1 cmid) (vanished cmid)) (\<lambda>c.
              Inr (if changed \<noteq> 1 then RJ_NotEligible c else Rejected c, db1)))"

text \<open>\<^verbatim>\<open>JOIN run r ON r.run_id = c.child_run_id\<close>: the child run of a command, if it is in the ledger.\<close>

definition child_run :: "Ledger \<Rightarrow> Command \<Rightarrow> Run option" where
  "child_run db c = (case cm_child_run_id c of None \<Rightarrow> None | Some r \<Rightarrow> load_run db r)"

definition reconcilable :: "Ledger \<Rightarrow> Command \<Rightarrow> bool" where
  "reconcilable db c \<longleftrightarrow> in_flight (cm_status c)
     \<and> (case child_run db c of None \<Rightarrow> False | Some r \<Rightarrow> is_terminal (ru_status r))"

definition reconcile_one :: "int \<Rightarrow> Command list \<times> Ledger \<Rightarrow> CommandId \<Rightarrow> (LedgerError, Command list \<times> Ledger) result" where
  "reconcile_one now s cmid =
     (let (repaired, db) = s;
          db1 = update_commands (\<lambda>x. cm_command_id x = cmid)
            (\<lambda>x. x\<lparr>cm_status := CS_Completed, cm_updated_at := now\<rparr>) db in
      and_then (ok_or (load_command db1 cmid) (vanished cmid)) (\<lambda>c. Inr (repaired @ [c], db1)))"

definition reconcile_completed_commands :: "int \<Rightarrow> Command list tx" where
  "reconcile_completed_commands now db =
     try_fold (reconcile_one now) ([], db) (map cm_command_id (filter (reconcilable db) (db_command db)))"

section \<open>Reading commands\<close>

fun newest_command :: "Command list \<Rightarrow> Command option" where
  "newest_command [] = None"
| "newest_command (x # xs) =
     (case newest_command xs of
        None \<Rightarrow> Some x
      | Some y \<Rightarrow> if cm_created_at x < cm_created_at y then Some y else Some x)"

definition active_command_for_conversation :: "ConversationId \<Rightarrow> Ledger \<Rightarrow> Command option" where
  "active_command_for_conversation c db =
     (case newest_command (in_flight_commands db c) of
        None \<Rightarrow> None
      | Some x \<Rightarrow> load_command db (cm_command_id x))"

definition stuck :: "Ledger \<Rightarrow> Command \<Rightarrow> bool" where
  "stuck db c \<longleftrightarrow> in_flight (cm_status c)
     \<and> (case child_run db c of None \<Rightarrow> True | Some r \<Rightarrow> ru_status r = RS_Interrupted)"

definition stuck_commands :: "Ledger \<Rightarrow> (LedgerError, Command list) result" where
  "stuck_commands db =
     try_fold (\<lambda>found cmid. and_then (ok_or (load_command db cmid) (vanished cmid)) (\<lambda>c. Inr (found @ [c]))) []
       (map cm_command_id (sort_key cm_created_at (filter (stuck db) (db_command db))))"

section \<open>Operations as values\<close>

text \<open>
  One constructor per public writing method of \<open>SqliteLedger\<close>, with its arguments, the clock readings
  and the fresh identifiers it uses.
\<close>

datatype Op =
    CreateConversation "string option" int ConversationId LedgerEventId
  | CreateRun NewRun "string option" int LedgerRunId LedgerEventId
  | CreateRunWithId NewRun LedgerRunId string int LedgerRunId LedgerEventId
  | StartRun LedgerRunId int LedgerEventId
  | CompleteRun LedgerRunId int LedgerEventId
  | FailRun LedgerRunId int LedgerEventId
  | CancelRun LedgerRunId int LedgerEventId
  | InterruptRun LedgerRunId int LedgerEventId
  | BlockRun LedgerRunId int LedgerEventId
  | ErrorRun LedgerRunId int LedgerEventId
  | SetProviderSession LedgerRunId string
  | CreateAttempt LedgerRunId int AttemptId
  | SetAttemptStatus AttemptId AttemptStatus int
  | ResumeInterrupted LedgerRunId int LedgerEventId AttemptId
  | RepairInterrupted LedgerRunId RunStatus int LedgerEventId
  | CreateCommand NewCommand string int CommandId
  | BindCommand CommandId LedgerRunId int
  | MarkCompleted CommandId int
  | MarkRejected CommandId int
  | ClaimStale CommandId int int
  | Rebind CommandId LedgerRunId int
  | RebindIfCurrent CommandId LedgerRunId int LedgerRunId int
  | CompletedIfBound CommandId LedgerRunId int
  | CompletedIfTerminal CommandId LedgerRunId int
  | RejectedIfUnattached CommandId LedgerRunId int
  | Reconcile int
  | AppendUserMessage ConversationId Json "LedgerRunId option" "string option" int LedgerEventId
  | AppendSystemNote ConversationId "LedgerRunId option" "AttemptId option" Json string int LedgerEventId
  | MarkInterrupted "(LedgerRunId \<times> int \<times> LedgerEventId) list" "(AttemptId \<times> int) list"
  | AppendEvent NewEvent int

definition forget :: "(LedgerError, 'a \<times> Ledger) result \<Rightarrow> (LedgerError, Ledger) result" where
  "forget m = and_then m (\<lambda>(_, db). Inr db)"

fun op_tx :: "(bytes \<Rightarrow> bytes) \<Rightarrow> (Json \<Rightarrow> bytes) \<Rightarrow> Op \<Rightarrow> Ledger \<Rightarrow> (LedgerError, Ledger) result" where
  "op_tx sha to_vec (CreateConversation idem now cid eid) db = forget (create_conversation sha idem now cid eid db)"
| "op_tx sha to_vec (CreateRun req idem now rid eid) db = forget (create_run sha to_vec req idem now rid eid db)"
| "op_tx sha to_vec (CreateRunWithId req run_id key now rid eid) db =
     forget (create_run_with_id sha to_vec req run_id key now rid eid db)"
| "op_tx sha to_vec (StartRun rid now eid) db = forget (start_run rid now eid db)"
| "op_tx sha to_vec (CompleteRun rid now eid) db = forget (complete_run rid now eid db)"
| "op_tx sha to_vec (FailRun rid now eid) db = forget (fail_run rid now eid db)"
| "op_tx sha to_vec (CancelRun rid now eid) db = forget (cancel_run rid now eid db)"
| "op_tx sha to_vec (InterruptRun rid now eid) db = forget (interrupt_run rid now eid db)"
| "op_tx sha to_vec (BlockRun rid now eid) db = forget (block_run rid now eid db)"
| "op_tx sha to_vec (ErrorRun rid now eid) db = forget (error_run rid now eid db)"
| "op_tx sha to_vec (SetProviderSession rid session) db = forget (set_run_provider_session rid session db)"
| "op_tx sha to_vec (CreateAttempt rid now aid) db = forget (create_attempt rid now aid db)"
| "op_tx sha to_vec (SetAttemptStatus aid target now) db = forget (set_attempt_status aid target now db)"
| "op_tx sha to_vec (ResumeInterrupted rid now eid aid) db = forget (resume_interrupted_run rid now eid aid db)"
| "op_tx sha to_vec (RepairInterrupted rid target now eid) db =
     forget (repair_interrupted_run_to_terminal rid target now eid db)"
| "op_tx sha to_vec (CreateCommand req key now cmid) db = forget (create_command sha to_vec req key now cmid db)"
| "op_tx sha to_vec (BindCommand cmid rid now) db = forget (bind_command_child_run cmid rid now db)"
| "op_tx sha to_vec (MarkCompleted cmid now) db = forget (mark_command_completed cmid now db)"
| "op_tx sha to_vec (MarkRejected cmid now) db = forget (mark_command_rejected cmid now db)"
| "op_tx sha to_vec (ClaimStale cmid expected now) db = forget (claim_stale_command_for_redrive cmid expected now db)"
| "op_tx sha to_vec (Rebind cmid rid now) db = forget (rebind_command_child_run cmid rid now db)"
| "op_tx sha to_vec (RebindIfCurrent cmid old expected fresh now) db =
     forget (rebind_command_child_run_if_current cmid old expected fresh now db)"
| "op_tx sha to_vec (CompletedIfBound cmid rid now) db = forget (mark_command_completed_if_bound cmid rid now db)"
| "op_tx sha to_vec (CompletedIfTerminal cmid rid now) db =
     forget (mark_command_completed_if_bound_and_terminal cmid rid now db)"
| "op_tx sha to_vec (RejectedIfUnattached cmid rid now) db =
     forget (mark_command_rejected_if_unattached_and_bound cmid rid now db)"
| "op_tx sha to_vec (Reconcile now) db = forget (reconcile_completed_commands now db)"
| "op_tx sha to_vec (AppendUserMessage conv payload rid idem now eid) db =
     forget (append_user_message sha to_vec conv payload rid idem now eid db)"
| "op_tx sha to_vec (AppendSystemNote conv rid aid payload key now eid) db =
     forget (append_system_note sha to_vec conv rid aid payload key now eid db)"
| "op_tx sha to_vec (MarkInterrupted runs attempts) db = forget (mark_interrupted runs attempts db)"
| "op_tx sha to_vec (AppendEvent event now) db = forget (append_event event now db)"

definition exec :: "(bytes \<Rightarrow> bytes) \<Rightarrow> (Json \<Rightarrow> bytes) \<Rightarrow> Op \<Rightarrow> Ledger \<Rightarrow> Ledger" where
  "exec sha to_vec op db =
     snd (with_tx (\<lambda>db. and_then (op_tx sha to_vec op db) (\<lambda>db'. Inr ((), db'))) db)"

text \<open>A history: the operations that were called, one after the other, each in its own transaction.\<close>

definition history :: "(bytes \<Rightarrow> bytes) \<Rightarrow> (Json \<Rightarrow> bytes) \<Rightarrow> Op list \<Rightarrow> Ledger" where
  "history sha to_vec ops = foldl (\<lambda>db op. exec sha to_vec op db) empty_ledger ops"

lemma exec_cases:
  "exec sha to_vec op db = (case op_tx sha to_vec op db of Inl _ \<Rightarrow> db | Inr db' \<Rightarrow> db')"
  by (simp add: exec_def with_tx_def and_then_def split: sum.splits)

lemma history_Nil [simp]: "history sha to_vec [] = empty_ledger"
  by (simp add: history_def)

lemma history_snoc [simp]: "history sha to_vec (ops @ [op]) = exec sha to_vec op (history sha to_vec ops)"
  by (simp add: history_def)

lemma forget_Inr: "forget m = Inr db \<longleftrightarrow> (\<exists>x. m = Inr (x, db))"
  by (auto simp: forget_def)

end
