(* ===== verification/Ledger_Shape.thy ===== *)
theory Ledger_Shape
  imports Ledger_Commands
begin

text \<open>
  The well-formedness of the ledger's tables. \<open>Shape\<close> keeps of a ledger what identifies rows and
  links them; \<open>shape_ok\<close> says that keys are unique, references resolve, the event sequence of every
  conversation and the attempt numbers of every run are \<open>1, 2, 3, ...\<close>, and every idempotency
  record names an existing result. \<open>status_ok\<close> relates statuses to finishing times and attempts to
  their runs. Together they are the invariant \<open>ledger_ok\<close>.
\<close>

section \<open>The invariant\<close>

record Shape =
  sh_conversations :: "ConversationId list"
  sh_runs :: "(LedgerRunId \<times> ConversationId \<times> LedgerRunId option) list"
  sh_attempts :: "(AttemptId \<times> LedgerRunId \<times> int) list"
  sh_events :: "PersistedEvent list"
  sh_idem :: "IdempotencyRecord list"
  sh_commands :: "(CommandId \<times> ConversationId \<times> LedgerRunId) list"

definition run_key :: "Run \<Rightarrow> LedgerRunId \<times> ConversationId \<times> LedgerRunId option" where
  "run_key r = (ru_run_id r, ru_conversation_id r, ru_parent_run_id r)"

definition attempt_key :: "RunAttempt \<Rightarrow> AttemptId \<times> LedgerRunId \<times> int" where
  "attempt_key a = (at_attempt_id a, at_run_id a, at_attempt_number a)"

definition command_key :: "Command \<Rightarrow> CommandId \<times> ConversationId \<times> LedgerRunId" where
  "command_key c = (cm_command_id c, cm_conversation_id c, cm_parent_run_id c)"

definition shape :: "Ledger \<Rightarrow> Shape" where
  "shape db =
     \<lparr>sh_conversations = map co_conversation_id (db_conversation db), sh_runs = map run_key (db_run db),
      sh_attempts = map attempt_key (db_run_attempt db), sh_events = db_event db,
      sh_idem = db_idempotency_record db, sh_commands = map command_key (db_command db)\<rparr>"

definition known_run :: "Shape \<Rightarrow> LedgerRunId \<Rightarrow> ConversationId \<Rightarrow> bool" where
  "known_run h r c \<longleftrightarrow> (\<exists>p. (r, c, p) \<in> set (sh_runs h))"

definition keys_ok :: "Shape \<Rightarrow> bool" where
  "keys_ok h \<longleftrightarrow> distinct (sh_conversations h) \<and> distinct (map fst (sh_runs h))
     \<and> distinct (map fst (sh_attempts h)) \<and> distinct (map pe_event_id (sh_events h))
     \<and> distinct (map (\<lambda>i. (ir_scope i, ir_key i)) (sh_idem h)) \<and> distinct (map fst (sh_commands h))"

text \<open>What a row refers to.\<close>

fun run_row_ok :: "Shape \<Rightarrow> LedgerRunId \<times> ConversationId \<times> LedgerRunId option \<Rightarrow> bool" where
  "run_row_ok h (r, c, p) \<longleftrightarrow>
     c \<in> set (sh_conversations h) \<and> (\<forall>q. p = Some q \<longrightarrow> known_run h q c)"

fun attempt_row_ok :: "Shape \<Rightarrow> AttemptId \<times> LedgerRunId \<times> int \<Rightarrow> bool" where
  "attempt_row_ok h (a, r, n) \<longleftrightarrow> r \<in> fst ` set (sh_runs h) \<and> 1 \<le> n \<and> n \<le> u32_max"

definition event_row_ok :: "Shape \<Rightarrow> PersistedEvent \<Rightarrow> bool" where
  "event_row_ok h e \<longleftrightarrow>
     pe_conversation_id e \<in> set (sh_conversations h)
     \<and> (\<forall>r. pe_run_id e = Some r \<longrightarrow> known_run h r (pe_conversation_id e))
     \<and> (\<forall>a. pe_attempt_id e = Some a \<longrightarrow>
          (\<exists>r n. pe_run_id e = Some r \<and> (a, r, n) \<in> set (sh_attempts h)))
     \<and> 1 \<le> pe_sequence e \<and> 0 \<le> pe_schema_version e \<and> pe_schema_version e \<le> u32_max"

fun command_row_ok :: "Shape \<Rightarrow> CommandId \<times> ConversationId \<times> LedgerRunId \<Rightarrow> bool" where
  "command_row_ok h (m, c, p) \<longleftrightarrow> c \<in> set (sh_conversations h) \<and> known_run h p c"

definition events_in :: "ConversationId \<Rightarrow> PersistedEvent list \<Rightarrow> PersistedEvent list" where
  "events_in c es = filter (\<lambda>x. pe_conversation_id x = c) es"

definition sequences_ok :: "PersistedEvent list \<Rightarrow> bool" where
  "sequences_ok es \<longleftrightarrow> (\<forall>c. map pe_sequence (events_in c es) = [1..int (length (events_in c es))])"

definition numbers_of :: "LedgerRunId \<Rightarrow> (AttemptId \<times> LedgerRunId \<times> int) list \<Rightarrow> int list" where
  "numbers_of r as = map (\<lambda>(a, r', n). n) (filter (\<lambda>(a, r', n). r' = r) as)"

definition numbers_ok :: "(AttemptId \<times> LedgerRunId \<times> int) list \<Rightarrow> bool" where
  "numbers_ok as \<longleftrightarrow> (\<forall>r. numbers_of r as = [1..int (length (numbers_of r as))])"

text \<open>Where a result reference of a scope points to.\<close>

definition result_exists :: "Shape \<Rightarrow> string \<Rightarrow> string \<Rightarrow> bool" where
  "result_exists h scope reference \<longleftrightarrow>
     (scope = SCOPE_CREATE_CONVERSATION \<and> reference \<in> set (sh_conversations h)
      \<or> scope \<in> {SCOPE_CREATE_RUN, SCOPE_CREATE_RUN_WITH_ID} \<and> reference \<in> fst ` set (sh_runs h)
      \<or> scope \<in> {SCOPE_APPEND_USER_MESSAGE, SCOPE_APPEND_SYSTEM_NOTE}
        \<and> reference \<in> pe_event_id ` set (sh_events h)
      \<or> scope = SCOPE_CREATE_COMMAND \<and> reference \<in> fst ` set (sh_commands h))"

definition idem_row_ok :: "Shape \<Rightarrow> IdempotencyRecord \<Rightarrow> bool" where
  "idem_row_ok h i \<longleftrightarrow> result_exists h (ir_scope i) (ir_result_reference i)"

definition refs_ok :: "Shape \<Rightarrow> bool" where
  "refs_ok h \<longleftrightarrow> list_all (run_row_ok h) (sh_runs h) \<and> list_all (attempt_row_ok h) (sh_attempts h)
     \<and> list_all (event_row_ok h) (sh_events h) \<and> list_all (command_row_ok h) (sh_commands h)
     \<and> list_all (idem_row_ok h) (sh_idem h)"

definition shape_ok :: "Shape \<Rightarrow> bool" where
  "shape_ok h \<longleftrightarrow>
     keys_ok h \<and> refs_ok h \<and> sequences_ok (sh_events h) \<and> numbers_ok (sh_attempts h)"

definition finished_ok :: "Ledger \<Rightarrow> bool" where
  "finished_ok db \<longleftrightarrow>
     (\<forall>r \<in> set (db_run db). ru_finished_at r \<noteq> None \<longleftrightarrow> is_terminal (ru_status r))
     \<and> (\<forall>a \<in> set (db_run_attempt db). at_finished_at a = None \<longleftrightarrow> at_status a = AS_Running)"

definition run_running :: "Ledger \<Rightarrow> LedgerRunId \<Rightarrow> bool" where
  "run_running db r \<longleftrightarrow> (\<exists>x \<in> set (db_run db). ru_run_id x = r \<and> ru_status x = RS_Running)"

definition running_ok :: "Ledger \<Rightarrow> bool" where
  "running_ok db \<longleftrightarrow>
     (\<forall>a \<in> set (db_run_attempt db). at_status a = AS_Running \<longrightarrow> run_running db (at_run_id a))
     \<and> (\<forall>r. length (filter (\<lambda>a. at_status a = AS_Running) (attempts_of db r)) \<le> 1)"

definition ledger_ok :: "Ledger \<Rightarrow> bool" where
  "ledger_ok db \<longleftrightarrow> shape_ok (shape db) \<and> finished_ok db \<and> running_ok db"

section \<open>Counting from one\<close>

lemma upto_snoc: "0 \<le> n \<Longrightarrow> [1..n + 1] = [1..n] @ [n + 1]"
  by (simp add: upto_rec2)

lemma coalesce_max_upto: "0 \<le> n \<Longrightarrow> coalesce_max [1..n] = n"
  by (auto simp: coalesce_max_def intro!: Max_eqI)

lemma shape_sel [simp]:
  "sh_conversations (shape db) = map co_conversation_id (db_conversation db)"
  "sh_runs (shape db) = map run_key (db_run db)"
  "sh_attempts (shape db) = map attempt_key (db_run_attempt db)"
  "sh_events (shape db) = db_event db" "sh_idem (shape db) = db_idempotency_record db"
  "sh_commands (shape db) = map command_key (db_command db)"
  by (simp_all add: shape_def)

lemma fst_keys [simp]:
  "fst (run_key r) = ru_run_id r" "fst (attempt_key a) = at_attempt_id a" "fst (command_key c) = cm_command_id c"
  by (simp_all add: run_key_def attempt_key_def command_key_def)

lemma map_fst_keys [simp]:
  "map (fst \<circ> run_key) rs = map ru_run_id rs" "map (fst \<circ> attempt_key) as = map at_attempt_id as"
  "map (fst \<circ> command_key) cs = map cm_command_id cs"
  by simp_all

lemma numbers_of_shape: "numbers_of r (map attempt_key as) = map at_attempt_number (filter (\<lambda>x. at_run_id x = r) as)"
  by (induction as) (simp_all add: numbers_of_def attempt_key_def)

lemma known_run_shape:
  "known_run (shape db) r c \<longleftrightarrow> (\<exists>x \<in> set (db_run db). ru_run_id x = r \<and> ru_conversation_id x = c)"
  by (auto simp: known_run_def run_key_def image_iff)

lemma next_sequence:
  "sequences_ok (db_event db) \<Longrightarrow>
   coalesce_max (map pe_sequence (filter (\<lambda>x. pe_conversation_id x = c) (db_event db))) =
     int (length (events_in c (db_event db)))"
  unfolding sequences_ok_def events_in_def [symmetric] by (simp add: coalesce_max_upto)

lemma next_number:
  "numbers_ok (map attempt_key (db_run_attempt db)) \<Longrightarrow> next_attempt_number db r = int (length (attempts_of db r)) + 1"
  unfolding numbers_ok_def numbers_of_shape attempts_of_def [symmetric] next_attempt_number_def
  by (simp add: coalesce_max_upto)

section \<open>Statements keep the shape\<close>

lemma empty_ok: "ledger_ok empty_ledger"
  by (simp add: ledger_ok_def shape_ok_def keys_ok_def refs_ok_def sequences_ok_def numbers_ok_def
      empty_ledger_def events_in_def numbers_of_def finished_ok_def running_ok_def attempts_of_def)

text \<open>A ledger that only grew still satisfies the references of its old rows.\<close>

definition grown :: "Shape \<Rightarrow> Shape \<Rightarrow> bool" where
  "grown h h' \<longleftrightarrow> set (sh_conversations h) \<subseteq> set (sh_conversations h') \<and> set (sh_runs h) \<subseteq> set (sh_runs h')
     \<and> set (sh_attempts h) \<subseteq> set (sh_attempts h') \<and> set (sh_events h) \<subseteq> set (sh_events h')
     \<and> set (sh_commands h) \<subseteq> set (sh_commands h')"

lemma known_run_grown: "grown h h' \<Longrightarrow> known_run h r c \<Longrightarrow> known_run h' r c"
  by (auto simp: grown_def known_run_def)

lemma result_exists_grown: "grown h h' \<Longrightarrow> result_exists h s r \<Longrightarrow> result_exists h' s r"
  unfolding result_exists_def grown_def by blast

lemma rows_grown:
  assumes "grown h h'"
  shows "list_all (run_row_ok h) rs \<Longrightarrow> list_all (run_row_ok h') rs"
    and "list_all (attempt_row_ok h) as \<Longrightarrow> list_all (attempt_row_ok h') as"
    and "list_all (event_row_ok h) es \<Longrightarrow> list_all (event_row_ok h') es"
    and "list_all (command_row_ok h) cs \<Longrightarrow> list_all (command_row_ok h') cs"
    and "list_all (idem_row_ok h) is \<Longrightarrow> list_all (idem_row_ok h') is"
proof -
  have "run_row_ok h x \<Longrightarrow> run_row_ok h' x" for x
    using assms known_run_grown by (cases x) (auto simp: grown_def)
  then show "list_all (run_row_ok h) rs \<Longrightarrow> list_all (run_row_ok h') rs" by (simp add: list_all_iff)
  have "attempt_row_ok h x \<Longrightarrow> attempt_row_ok h' x" for x
    using assms by (cases x) (auto simp: grown_def)
  then show "list_all (attempt_row_ok h) as \<Longrightarrow> list_all (attempt_row_ok h') as" by (simp add: list_all_iff)
  have "event_row_ok h x \<Longrightarrow> event_row_ok h' x" for x
    using assms known_run_grown unfolding event_row_ok_def grown_def by blast
  then show "list_all (event_row_ok h) es \<Longrightarrow> list_all (event_row_ok h') es" by (simp add: list_all_iff)
  have "command_row_ok h x \<Longrightarrow> command_row_ok h' x" for x
    using assms known_run_grown by (cases x) (auto simp: grown_def)
  then show "list_all (command_row_ok h) cs \<Longrightarrow> list_all (command_row_ok h') cs" by (simp add: list_all_iff)
  show "list_all (idem_row_ok h) is \<Longrightarrow> list_all (idem_row_ok h') is"
    using result_exists_grown [OF assms] by (simp add: list_all_iff idem_row_ok_def)
qed

lemma has_conversation_iff: "has_conversation db c \<longleftrightarrow> c \<in> co_conversation_id ` set (db_conversation db)"
  by (auto simp: has_conversation_def image_iff)

lemma has_run_iff: "has_run db r \<longleftrightarrow> r \<in> ru_run_id ` set (db_run db)"
  by (auto simp: has_run_def image_iff)

lemma insert_conversation_shape:
  assumes "insert_conversation c db = Inr db'" "shape_ok (shape db)"
  shows "shape_ok (shape db')"
proof -
  have db': "db' = db\<lparr>db_conversation := db_conversation db @ [c]\<rparr>"
    and new: "co_conversation_id c \<notin> co_conversation_id ` set (db_conversation db)"
    using assms(1) by (auto simp: insert_conversation_def split: if_splits)
  have g: "grown (shape db) (shape db')" by (auto simp: grown_def db')
  show ?thesis
    using assms(2) new rows_grown [OF g] by (simp add: shape_ok_def keys_ok_def refs_ok_def db')
qed

lemma insert_run_shape:
  assumes "insert_run r db = Inr db'" "shape_ok (shape db)"
  shows "shape_ok (shape db')"
proof -
  have db': "db' = db\<lparr>db_run := db_run db @ [r]\<rparr>"
    and new: "ru_run_id r \<notin> ru_run_id ` set (db_run db)"
    and refs: "has_conversation db (ru_conversation_id r)"
      "\<And>p. ru_parent_run_id r = Some p \<Longrightarrow> has_run_in (db_run db @ [r]) (ru_conversation_id r) p"
    using assms(1) by (auto simp: insert_run_def split: if_splits option.splits)
  have g: "grown (shape db) (shape db')" by (auto simp: grown_def db')
  have "run_row_ok (shape db') (run_key r)"
    using refs by (auto simp: run_key_def has_conversation_iff has_run_in_def known_run_shape db')
  then show ?thesis
    using assms(2) new rows_grown [OF g] by (simp add: shape_ok_def keys_ok_def refs_ok_def db')
qed

lemma insert_command_shape:
  assumes "insert_command c db = Inr db'" "shape_ok (shape db)"
  shows "shape_ok (shape db')"
proof -
  have db': "db' = db\<lparr>db_command := db_command db @ [c]\<rparr>"
    and new: "cm_command_id c \<notin> cm_command_id ` set (db_command db)"
    and refs: "has_conversation db (cm_conversation_id c)"
      "has_run_in (db_run db) (cm_conversation_id c) (cm_parent_run_id c)"
    using assms(1) by (auto simp: insert_command_def split: if_splits)
  have g: "grown (shape db) (shape db')" by (auto simp: grown_def db')
  have "command_row_ok (shape db') (command_key c)"
    using refs by (auto simp: command_key_def has_conversation_iff has_run_in_def known_run_shape db')
  then show ?thesis
    using assms(2) new rows_grown [OF g] by (simp add: shape_ok_def keys_ok_def refs_ok_def db')
qed

lemma insert_idem_shape:
  assumes "insert_idempotency_record i db = Inr db'" "shape_ok (shape db)"
    and "result_exists (shape db) (ir_scope i) (ir_result_reference i)"
  shows "shape_ok (shape db')"
proof -
  have db': "db' = db\<lparr>db_idempotency_record := db_idempotency_record db @ [i]\<rparr>"
    and new: "\<forall>x \<in> set (db_idempotency_record db). (ir_scope x, ir_key x) \<noteq> (ir_scope i, ir_key i)"
    using assms(1) by (auto simp: insert_idempotency_record_def split: if_splits)
  have g: "grown (shape db) (shape db')" by (auto simp: grown_def db')
  have "idem_row_ok (shape db') i" using result_exists_grown [OF g assms(3)] by (simp add: idem_row_ok_def)
  then show ?thesis
    using assms(2) new rows_grown [OF g] by (auto simp: shape_ok_def keys_ok_def refs_ok_def db')
qed

lemma new_attempt_effect:
  assumes "new_attempt rid now aid db = Inr (a, db')"
  shows "db' = db\<lparr>db_run_attempt := db_run_attempt db @ [a]\<rparr>" "at_status a = AS_Running"
    "at_finished_at a = None" "at_run_id a = rid" "at_attempt_number a = next_attempt_number db rid"
    "at_attempt_id a = aid" "aid \<notin> at_attempt_id ` set (db_run_attempt db)" "has_run db rid"
    "at_attempt_number a \<le> u32_max" "filter (\<lambda>x. at_status x = AS_Running) (attempts_of db rid) = []"
  using assms by (auto simp: new_attempt_def insert_attempt_def Let_def attempts_of_def filter_empty_conv split: if_splits)

lemma new_attempt_shape:
  assumes "new_attempt rid now aid db = Inr (a, db')" "shape_ok (shape db)"
  shows "shape_ok (shape db')"
proof -
  note e = new_attempt_effect [OF assms(1)]
  have g: "grown (shape db) (shape db')" by (auto simp: grown_def e(1))
  have num: "numbers_ok (map attempt_key (db_run_attempt db))" using assms(2) by (simp add: shape_ok_def)
  have n: "at_attempt_number a = int (length (attempts_of db rid)) + 1" using e(5) next_number [OF num] by simp
  have "attempt_row_ok (shape db') (attempt_key a)"
    using e n by (simp add: attempt_key_def has_run_iff image_image)
  moreover have "numbers_ok (map attempt_key (db_run_attempt db) @ [attempt_key a])"
    unfolding numbers_ok_def
  proof
    fix r
    have old: "numbers_of r (map attempt_key (db_run_attempt db)) =
        [1..int (length (numbers_of r (map attempt_key (db_run_attempt db))))]"
      using num unfolding numbers_ok_def by blast
    have len: "length (numbers_of rid (map attempt_key (db_run_attempt db))) = length (attempts_of db rid)"
      by (simp add: numbers_of_shape attempts_of_def)
    have app: "numbers_of r (map attempt_key (db_run_attempt db) @ [attempt_key a]) =
        numbers_of r (map attempt_key (db_run_attempt db)) @ (if r = rid then [at_attempt_number a] else [])"
      using e(4) by (simp add: numbers_of_def attempt_key_def)
    show "numbers_of r (map attempt_key (db_run_attempt db) @ [attempt_key a]) =
        [1..int (length (numbers_of r (map attempt_key (db_run_attempt db) @ [attempt_key a])))]"
    proof (cases "r = rid")
      case True
      have "[1..int (length (attempts_of db rid)) + 1] = [1..int (length (attempts_of db rid))] @ [at_attempt_number a]"
        unfolding n by (rule upto_snoc) simp
      with app old len True show ?thesis by (simp add: add.commute)
    next
      case False
      with app old show ?thesis by simp
    qed
  qed
  ultimately show ?thesis
    using assms(2) e rows_grown [OF g] by (simp add: shape_ok_def keys_ok_def refs_ok_def)
qed

lemma emit_event_effect:
  assumes "emit_event ev now db = Inr (e, db')"
  shows "db' = db\<lparr>db_event := db_event db @ [e]\<rparr>" "pe_event_id e = ne_event_id ev"
    "pe_conversation_id e = ne_conversation_id ev" "pe_run_id e = ne_run_id ev"
    "pe_attempt_id e = ne_attempt_id ev" "pe_event_type e = EventType_as_str (ne_event_type ev)"
    "pe_payload e = ne_payload ev" "pe_created_at e = now"
    "pe_sequence e = coalesce_max (map pe_sequence
        (filter (\<lambda>x. pe_conversation_id x = ne_conversation_id ev) (db_event db))) + 1"
    "pe_schema_version e = uint (ne_schema_version ev)" "insert_event e db = Inr db'"
  using assms by (auto simp: emit_event_def insert_event_def Let_def split: if_splits)

lemma insert_event_refs:
  assumes "insert_event e db = Inr db'"
  shows "pe_event_id e \<notin> pe_event_id ` set (db_event db)" "has_conversation db (pe_conversation_id e)"
    "pe_run_id e = Some r \<Longrightarrow> has_run_in (db_run db) (pe_conversation_id e) r"
    "pe_attempt_id e = Some a \<Longrightarrow> \<exists>r. pe_run_id e = Some r \<and> has_attempt db r a"
  using assms by (auto simp: insert_event_def split: if_splits option.splits)

lemma emit_event_shape:
  assumes "emit_event ev now db = Inr (e, db')" "shape_ok (shape db)"
  shows "shape_ok (shape db')"
proof -
  note f = emit_event_effect [OF assms(1)]
  note refs = insert_event_refs [OF f(11)]
  have g: "grown (shape db) (shape db')" by (auto simp: grown_def f(1))
  have seq: "sequences_ok (db_event db)" using assms(2) by (simp add: shape_ok_def)
  have n: "pe_sequence e = int (length (events_in (pe_conversation_id e) (db_event db))) + 1"
    using f(3,9) next_sequence [OF seq] by simp
  have "uint (ne_schema_version ev) \<le> u32_max"
    using uint_bounded [of "ne_schema_version ev"] by (simp add: u32_max_def)
  then have "event_row_ok (shape db') e"
    using refs f(10) n
    by (fastforce simp: event_row_ok_def f(1) has_conversation_iff has_run_in_def has_attempt_def known_run_shape
        attempt_key_def image_iff)
  moreover have "sequences_ok (db_event db @ [e])"
    unfolding sequences_ok_def
  proof
    fix c
    have old: "map pe_sequence (events_in c (db_event db)) = [1..int (length (events_in c (db_event db)))]"
      using seq unfolding sequences_ok_def by blast
    show "map pe_sequence (events_in c (db_event db @ [e])) = [1..int (length (events_in c (db_event db @ [e])))]"
    proof (cases "c = pe_conversation_id e")
      case True
      have "[1..int (length (events_in c (db_event db))) + 1] =
          [1..int (length (events_in c (db_event db)))] @ [pe_sequence e]"
        unfolding n True by (rule upto_snoc) simp
      moreover have "events_in c (db_event db @ [e]) = events_in c (db_event db) @ [e]"
        using True by (simp add: events_in_def)
      ultimately show ?thesis using old by (simp add: add.commute)
    next
      case False
      then have "events_in c (db_event db @ [e]) = events_in c (db_event db)" by (simp add: events_in_def)
      with old show ?thesis by simp
    qed
  qed
  ultimately show ?thesis
    using assms(2) f(1) refs(1) rows_grown [OF g] by (simp add: shape_ok_def keys_ok_def refs_ok_def)
qed

text \<open>Updates that leave the identifying columns alone keep the shape.\<close>

lemma shape_update_runs: "(\<And>x. run_key (f x) = run_key x) \<Longrightarrow> shape (update_runs P f db) = shape db"
  by (simp add: shape_def update_runs_def map_update_where)

lemma shape_update_attempts: "(\<And>x. attempt_key (f x) = attempt_key x) \<Longrightarrow> shape (update_attempts P f db) = shape db"
  by (simp add: shape_def update_attempts_def map_update_where)

lemma shape_update_commands: "(\<And>x. command_key (f x) = command_key x) \<Longrightarrow> shape (update_commands P f db) = shape db"
  by (simp add: shape_def update_commands_def map_update_where)

lemma shape_close_attempts [simp]: "shape (close_attempts rid st now db) = shape db"
  by (simp add: close_attempts_def shape_update_attempts attempt_key_def)

end
