(* ===== verification/Ledger_Step.thy ===== *)
theory Ledger_Step
  imports Ledger_Shape
begin

text \<open>
  The ledger as a transition system: \<open>ledger_step\<close> lists, with guard and effect, what can happen to
  the tables; every operation of \<^verbatim>\<open>sqlite.rs\<close> that commits is a sequence of such steps
  (\<open>op_refines_steps\<close>), and every step keeps \<open>ledger_ok\<close>. The locale \<open>stable\<close> lifts what a step keeps
  to histories of operations. Two kinds of steps carry a label of their own: an event appended by
  a caller under a type of its choosing, and the binding of a command that is no longer in flight.
\<close>

section \<open>Steps\<close>

datatype StepLabel = Ordinary | Raw EventType | Revive

definition move_ok :: "RunStatus \<Rightarrow> RunStatus \<Rightarrow> bool" where
  "move_ok s t \<longleftrightarrow> run_transition_allowed s t
     \<or> s = RS_Interrupted \<and> t \<in> {RS_Running, RS_Completed, RS_Failed, RS_Blocked, RS_Error}"

fun status_event :: "RunStatus \<Rightarrow> EventType" where
  "status_event RS_Queued = ET_RunCreated"
| "status_event RS_Running = ET_RunStarted"
| "status_event RS_Completed = ET_RunCompleted"
| "status_event RS_Failed = ET_RunFailed"
| "status_event RS_Cancelled = ET_RunCancelled"
| "status_event RS_Interrupted = ET_RunInterrupted"
| "status_event RS_Blocked = ET_RunBlocked"
| "status_event RS_Error = ET_RunErrored"

definition move_run :: "LedgerRunId \<Rightarrow> RunStatus \<Rightarrow> int option \<Rightarrow> Ledger \<Rightarrow> Ledger" where
  "move_run rid target fin =
     update_runs (\<lambda>x. ru_run_id x = rid) (\<lambda>x. x\<lparr>ru_status := target, ru_finished_at := fin\<rparr>)"

definition finish_attempts :: "(RunAttempt \<Rightarrow> bool) \<Rightarrow> AttemptStatus \<Rightarrow> int \<Rightarrow> Ledger \<Rightarrow> Ledger" where
  "finish_attempts Q st now = update_attempts Q (\<lambda>a. a\<lparr>at_status := st, at_finished_at := Some now\<rparr>)"

inductive ledger_step :: "StepLabel \<Rightarrow> Ledger \<Rightarrow> Ledger \<Rightarrow> bool" where
  conversation_created:
    "insert_conversation c db = Inr db1 \<Longrightarrow>
     emit_event (lifecycle_event eid (co_conversation_id c) None ET_ConversationCreated p) now db1 = Inr (e, db2) \<Longrightarrow>
     ledger_step Ordinary db db2"
| run_created:
    "insert_run r db = Inr db1 \<Longrightarrow> ru_status r = RS_Queued \<Longrightarrow> ru_finished_at r = None \<Longrightarrow>
     emit_event (lifecycle_event eid (ru_conversation_id r) (Some (ru_run_id r)) ET_RunCreated p) now db1 = Inr (e, db2) \<Longrightarrow>
     ledger_step Ordinary db db2"
| run_moved:
    "load_run db rid = Some cur \<Longrightarrow> move_ok (ru_status cur) target \<Longrightarrow> fin \<noteq> None \<longleftrightarrow> is_terminal target \<Longrightarrow>
     st \<noteq> AS_Running \<Longrightarrow> (\<forall>a \<in> set (db_run_attempt db). Q a \<longrightarrow> at_run_id a = rid) \<Longrightarrow>
     (\<forall>a \<in> set (db_run_attempt db). at_run_id a = rid \<and> at_status a = AS_Running \<longrightarrow> Q a) \<Longrightarrow>
     emit_event (lifecycle_event eid (ru_conversation_id cur) (Some rid) (status_event target) p) now
       (finish_attempts Q st now' (move_run rid target fin db)) = Inr (e, db') \<Longrightarrow>
     ledger_step Ordinary db db'"
| attempt_opened:
    "load_run db rid = Some cur \<Longrightarrow> ru_status cur = RS_Running \<Longrightarrow> new_attempt rid now aid db = Inr (a, db') \<Longrightarrow>
     ledger_step Ordinary db db'"
| attempts_closed:
    "st \<noteq> AS_Running \<Longrightarrow> ledger_step Ordinary db (finish_attempts Q st now db)"
| session_set:
    "ledger_step Ordinary db (update_runs (\<lambda>x. ru_run_id x = rid) (\<lambda>x. x\<lparr>ru_provider_session_id := sess\<rparr>) db)"
| note_logged:
    "emit_event ev now db = Inr (e, db') \<Longrightarrow> ne_event_type ev \<in> {ET_UserMessage, ET_SystemNote} \<Longrightarrow>
     ledger_step Ordinary db db'"
| raw_logged:
    "emit_event ev now db = Inr (e, db') \<Longrightarrow> ledger_step (Raw (ne_event_type ev)) db db'"
| result_recorded:
    "insert_idempotency_record i db = Inr db' \<Longrightarrow>
     result_exists (shape db) (ir_scope i) (ir_result_reference i) \<Longrightarrow> ledger_step Ordinary db db'"
| command_accepted:
    "insert_command c db = Inr db' \<Longrightarrow> cm_status c = CS_Accepted \<Longrightarrow>
     in_flight_commands db (cm_conversation_id c) = [] \<Longrightarrow> ledger_step Ordinary db db'"
| command_updated:
    "(\<And>x. command_key (f x) = command_key x) \<Longrightarrow>
     (\<And>x. x \<in> set (db_command db) \<Longrightarrow> P x \<Longrightarrow> in_flight (cm_status (f x)) \<Longrightarrow> in_flight (cm_status x)) \<Longrightarrow>
     ledger_step Ordinary db (update_commands P f db)"
| command_revived:
    "(\<And>x. command_key (f x) = command_key x) \<Longrightarrow> ledger_step Revive db (update_commands P f db)"

inductive_cases ledger_stepE: "ledger_step l db db'"

definition steps :: "StepLabel set \<Rightarrow> Ledger \<Rightarrow> Ledger \<Rightarrow> bool" where
  "steps L = (\<lambda>db db'. \<exists>l \<in> L. ledger_step l db db')\<^sup>*\<^sup>*"

lemma steps_refl [simp, intro]: "steps L db db"
  by (simp add: steps_def)

lemma steps_trans: "steps L a b \<Longrightarrow> steps L b c \<Longrightarrow> steps L a c"
  unfolding steps_def by (rule rtranclp_trans)

lemma step_steps: "ledger_step l a b \<Longrightarrow> l \<in> L \<Longrightarrow> steps L a b"
  unfolding steps_def by blast

lemma steps_mono: "steps L a b \<Longrightarrow> L \<subseteq> K \<Longrightarrow> steps K a b"
  unfolding steps_def by (rule rtranclp_mono [THEN predicate2D, rotated]) auto

section \<open>Reading back\<close>

lemma find_key:
  assumes "distinct (map k xs)" "find (\<lambda>x. k x = v) xs = Some y"
  shows "y \<in> set xs" "k y = v" "\<And>z. z \<in> set xs \<Longrightarrow> k z = v \<Longrightarrow> z = y"
proof -
  show y: "y \<in> set xs" "k y = v" using assms(2) by (auto simp: find_Some_iff in_set_conv_nth)
  show "z = y" if "z \<in> set xs" "k z = v" for z
    using assms(1) y that by (auto simp: distinct_map inj_on_def)
qed

lemma find_key_exists: "v \<in> k ` set xs \<Longrightarrow> \<exists>y. find (\<lambda>x. k x = v) xs = Some y"
  by (induction xs) auto

lemma ledger_keys:
  assumes "ledger_ok db"
  shows "distinct (map co_conversation_id (db_conversation db))" "distinct (map ru_run_id (db_run db))"
    "distinct (map at_attempt_id (db_run_attempt db))" "distinct (map pe_event_id (db_event db))"
    "distinct (map (\<lambda>i. (ir_scope i, ir_key i)) (db_idempotency_record db))"
    "distinct (map cm_command_id (db_command db))"
  using assms by (simp_all add: ledger_ok_def shape_ok_def keys_ok_def)

lemma load_run_key:
  assumes "ledger_ok db" "load_run db rid = Some cur"
  shows "cur \<in> set (db_run db)" "ru_run_id cur = rid" "\<And>z. z \<in> set (db_run db) \<Longrightarrow> ru_run_id z = rid \<Longrightarrow> z = cur"
proof -
  note f = find_key [OF ledger_keys(2) [OF assms(1)] assms(2) [unfolded load_run_def]]
  show "cur \<in> set (db_run db)" "ru_run_id cur = rid" by (rule f)+
  show "z = cur" if "z \<in> set (db_run db)" "ru_run_id z = rid" for z using that by (rule f(3))
qed

lemma run_running_iff: "run_running db r \<longleftrightarrow> (r, RS_Running) \<in> set (map (\<lambda>x. (ru_run_id x, ru_status x)) (db_run db))"
  by (auto simp: run_running_def)

lemma running_attempt_run:
  "ledger_ok db \<Longrightarrow> a \<in> set (db_run_attempt db) \<Longrightarrow> at_status a = AS_Running \<Longrightarrow> run_running db (at_run_id a)"
  by (simp add: ledger_ok_def running_ok_def)

lemma not_running_no_attempt:
  assumes "ledger_ok db" "load_run db rid = Some cur" "ru_status cur \<noteq> RS_Running"
    and "a \<in> set (db_run_attempt db)" "at_run_id a = rid"
  shows "at_status a \<noteq> AS_Running"
proof
  assume "at_status a = AS_Running"
  then obtain x where "x \<in> set (db_run db)" "ru_run_id x = rid" "ru_status x = RS_Running"
    using running_attempt_run [OF assms(1,4)] assms(5) by (auto simp: run_running_def)
  then show False using load_run_key(3) [OF assms(1,2)] assms(3) by metis
qed

section \<open>Steps keep the invariant\<close>

lemma move_run_sel [simp]:
  "db_run_attempt (move_run rid t fin db) = db_run_attempt db" "db_event (move_run rid t fin db) = db_event db"
  "db_command (move_run rid t fin db) = db_command db" "db_conversation (move_run rid t fin db) = db_conversation db"
  "db_idempotency_record (move_run rid t fin db) = db_idempotency_record db"
  "db_run (move_run rid t fin db) =
     update_where (\<lambda>x. ru_run_id x = rid) (\<lambda>x. x\<lparr>ru_status := t, ru_finished_at := fin\<rparr>) (db_run db)"
  by (simp_all add: move_run_def update_runs_def)

lemma finish_attempts_sel [simp]:
  "db_run (finish_attempts Q st now db) = db_run db" "db_event (finish_attempts Q st now db) = db_event db"
  "db_command (finish_attempts Q st now db) = db_command db"
  "db_conversation (finish_attempts Q st now db) = db_conversation db"
  "db_idempotency_record (finish_attempts Q st now db) = db_idempotency_record db"
  "db_run_attempt (finish_attempts Q st now db) =
     update_where Q (\<lambda>a. a\<lparr>at_status := st, at_finished_at := Some now\<rparr>) (db_run_attempt db)"
  by (simp_all add: finish_attempts_def update_attempts_def)

lemma move_shape [simp]: "shape (move_run rid t fin db) = shape db" "shape (finish_attempts Q st now db) = shape db"
  by (simp_all add: move_run_def finish_attempts_def shape_update_runs shape_update_attempts run_key_def attempt_key_def)

text \<open>Statuses do not depend on the event log, on commands or on idempotency records.\<close>

lemma status_cong:
  "db_run db' = db_run db \<Longrightarrow> db_run_attempt db' = db_run_attempt db \<Longrightarrow>
   finished_ok db' = finished_ok db \<and> running_ok db' = running_ok db"
  by (simp add: finished_ok_def running_ok_def run_running_def attempts_of_def)

lemma running_filter_finish:
  assumes "st \<noteq> AS_Running"
  shows "filter (\<lambda>a. at_status a = AS_Running) (filter (\<lambda>a. at_run_id a = r) (update_where Q (\<lambda>a. a\<lparr>at_status := st, at_finished_at := Some now\<rparr>) as)) =
     filter (\<lambda>a. at_status a = AS_Running \<and> \<not> Q a) (filter (\<lambda>a. at_run_id a = r) as)"
  using assms by (induction as) (auto simp: update_where_def)

lemma length_filter_weaken: "(\<And>x. P x \<Longrightarrow> R x) \<Longrightarrow> length (filter P xs) \<le> length (filter R xs)"
  by (induction xs) auto

lemma finish_attempts_status:
  assumes "st \<noteq> AS_Running" "ledger_ok db"
  shows "finished_ok (finish_attempts Q st now db) \<and> running_ok (finish_attempts Q st now db)"
proof
  show "finished_ok (finish_attempts Q st now db)"
    using assms by (auto simp: ledger_ok_def finished_ok_def set_update_where)
  have "length (filter (\<lambda>a. at_status a = AS_Running) (attempts_of (finish_attempts Q st now db) r)) \<le> 1" for r
  proof -
    have "length (filter (\<lambda>a. at_status a = AS_Running \<and> \<not> Q a) (attempts_of db r)) \<le>
        length (filter (\<lambda>a. at_status a = AS_Running) (attempts_of db r))"
      by (rule length_filter_weaken) simp
    also have "\<dots> \<le> 1" using assms(2) by (simp add: ledger_ok_def running_ok_def)
    finally show ?thesis unfolding attempts_of_def finish_attempts_sel running_filter_finish [OF assms(1)] .
  qed
  moreover have "run_running (finish_attempts Q st now db) r = run_running db r" for r by (simp add: run_running_def)
  ultimately show "running_ok (finish_attempts Q st now db)"
    using assms by (auto simp: running_ok_def ledger_ok_def set_update_where)
qed

lemma moved_status:
  assumes ok: "ledger_ok db" and cur: "load_run db rid = Some cur"
    and fin: "fin \<noteq> None \<longleftrightarrow> is_terminal target" and st: "st \<noteq> AS_Running"
    and Q: "\<forall>a \<in> set (db_run_attempt db). at_run_id a = rid \<and> at_status a = AS_Running \<longrightarrow> Q a"
  shows "finished_ok (finish_attempts Q st now (move_run rid target fin db))
    \<and> running_ok (finish_attempts Q st now (move_run rid target fin db))"
proof -
  let ?db = "finish_attempts Q st now db"
  let ?db' = "finish_attempts Q st now (move_run rid target fin db)"
  have s: "finished_ok ?db" "running_ok ?db" using finish_attempts_status [OF st ok] by simp_all
  have runs: "set (db_run ?db') = {if ru_run_id x = rid then x\<lparr>ru_status := target, ru_finished_at := fin\<rparr> else x | x. x \<in> set (db_run db)}"
    by (simp add: set_update_where)
  have "finished_ok ?db'" using s(1) fin by (auto simp: finished_ok_def set_update_where)
  moreover have "run_running ?db' r" if "run_running db r" "r \<noteq> rid" for r
    using that unfolding run_running_def runs by fastforce
  then have "run_running ?db' (at_run_id a)"
    if "a \<in> set (db_run_attempt ?db')" "at_status a = AS_Running" for a
  proof -
    note prems = that
    obtain y where y: "y \<in> set (db_run_attempt db)"
      "a = (if Q y then y\<lparr>at_status := st, at_finished_at := Some now\<rparr> else y)"
      using prems(1) unfolding finish_attempts_sel move_run_sel set_update_where by blast
    then have a: "a \<in> set (db_run_attempt db)" "\<not> Q a" using that(2) st by (auto split: if_splits)
    with Q that(2) have "at_run_id a \<noteq> rid" by blast
    with \<open>\<And>r. run_running db r \<Longrightarrow> r \<noteq> rid \<Longrightarrow> run_running ?db' r\<close> show ?thesis
      using running_attempt_run [OF ok a(1) that(2)] by blast
  qed
  then have "running_ok ?db'" using s(2) by (simp add: running_ok_def attempts_of_def)
  ultimately show ?thesis by blast
qed

lemma new_attempt_status:
  assumes ok: "ledger_ok db" and cur: "load_run db rid = Some cur" "ru_status cur = RS_Running"
    and a: "new_attempt rid now aid db = Inr (a, db')"
  shows "finished_ok db' \<and> running_ok db'"
proof -
  note e = new_attempt_effect [OF a]
  have run: "run_running db rid" using load_run_key(1,2) [OF ok cur(1)] cur(2) unfolding run_running_def by blast
  have att: "attempts_of db' r = attempts_of db r @ (if r = rid then [a] else [])" for r
    using e(1,4) by (simp add: attempts_of_def)
  have "length (filter (\<lambda>x. at_status x = AS_Running) (attempts_of db' r)) \<le> 1" for r
  proof (cases "r = rid")
    case True
    then show ?thesis using e(2,10) by (simp add: att)
  next
    case False
    then show ?thesis using ok by (simp add: att ledger_ok_def running_ok_def)
  qed
  then show ?thesis
    using ok e run by (auto simp: ledger_ok_def finished_ok_def running_ok_def run_running_def)
qed

lemma load_run_known: "load_run db rid = Some cur \<Longrightarrow> has_run db rid"
  by (auto simp: load_run_def has_run_def find_Some_iff intro: nth_mem)

lemma emit_event_ok:
  assumes "emit_event ev now db = Inr (e, db')" "shape_ok (shape db)" "finished_ok db \<and> running_ok db"
  shows "ledger_ok db'"
  using emit_event_shape [OF assms(1,2)] status_cong [of db' db] assms(3) emit_event_effect(1) [OF assms(1)]
  by (simp add: ledger_ok_def)

lemma run_attempts_exist:
  assumes "ledger_ok db" "a \<in> set (db_run_attempt db)"
  shows "has_run db (at_run_id a)"
  using assms by (auto simp: ledger_ok_def shape_ok_def refs_ok_def list_all_iff attempt_key_def has_run_iff image_image)

lemma insert_run_status:
  assumes "insert_run r db = Inr db'" "ledger_ok db" "ru_status r = RS_Queued" "ru_finished_at r = None"
  shows "finished_ok db' \<and> running_ok db'"
proof -
  have db': "db' = db\<lparr>db_run := db_run db @ [r]\<rparr>"
    using assms(1) by (auto simp: insert_run_def split: if_splits)
  then show ?thesis
    using assms by (auto simp: ledger_ok_def finished_ok_def running_ok_def run_running_def attempts_of_def is_terminal_def)
qed

theorem step_keeps_ok:
  assumes "ledger_step l db db'" "ledger_ok db"
  shows "ledger_ok db'"
  using assms(1)
proof cases
  case (conversation_created c db1 eid p now e)
  have "finished_ok db1 \<and> running_ok db1"
    using assms(2) status_cong [of db1 db] conversation_created(2)
    by (auto simp: ledger_ok_def insert_conversation_def split: if_splits)
  then show ?thesis
    using conversation_created insert_conversation_shape emit_event_ok assms(2) by (metis ledger_ok_def)
next
  case (run_created r db1 eid p now e)
  show ?thesis
    using run_created insert_run_shape emit_event_ok insert_run_status assms(2) by (metis ledger_ok_def)
next
  case (run_moved rid cur target fin st Q eid p now now' e)
  then show ?thesis
    using emit_event_ok moved_status [OF assms(2) run_moved(2,4,5,7)] assms(2) by (simp add: ledger_ok_def)
next
  case (attempt_opened rid cur now aid a)
  then show ?thesis
    using new_attempt_shape new_attempt_status [OF assms(2)] assms(2) by (metis ledger_ok_def)
next
  case (attempts_closed st Q now)
  then show ?thesis using finish_attempts_status assms(2) by (simp add: ledger_ok_def)
next
  case (session_set rid sess)
  let ?f = "\<lambda>x. x\<lparr>ru_provider_session_id := sess\<rparr>"
  have sh: "shape db' = shape db" unfolding session_set by (rule shape_update_runs) (simp add: run_key_def)
  have "run_running db' r = run_running db r" for r
    unfolding session_set run_running_iff update_runs_def by (simp add: map_update_where del: set_map)
  moreover have "finished_ok db'"
    using assms(2) by (auto simp: session_set ledger_ok_def finished_ok_def update_runs_def set_update_where)
  ultimately show ?thesis
    using assms(2) sh by (simp add: session_set ledger_ok_def running_ok_def update_runs_def attempts_of_def)
next
  case (note_logged ev now e)
  then show ?thesis using emit_event_ok assms(2) by (simp add: ledger_ok_def)
next
  case (raw_logged ev now e)
  then show ?thesis using emit_event_ok assms(2) by (simp add: ledger_ok_def)
next
  case (result_recorded i)
  then show ?thesis
    using insert_idem_shape [OF result_recorded(2) _ result_recorded(3)] status_cong [of db' db] assms(2)
    by (auto simp: ledger_ok_def insert_idempotency_record_def split: if_splits)
next
  case (command_accepted c)
  then show ?thesis
    using insert_command_shape [OF command_accepted(2)] status_cong [of db' db] assms(2)
    by (auto simp: ledger_ok_def insert_command_def split: if_splits)
next
  case (command_updated f P)
  then show ?thesis
    using shape_update_commands [of f P db] status_cong [of db' db] assms(2)
    by (simp add: ledger_ok_def update_commands_def)
next
  case (command_revived f P)
  then show ?thesis
    using shape_update_commands [of f P db] status_cong [of db' db] assms(2)
    by (simp add: ledger_ok_def update_commands_def)
qed

lemma steps_keep_ok: "steps L db db' \<Longrightarrow> ledger_ok db \<Longrightarrow> ledger_ok db'"
  unfolding steps_def by (induction rule: rtranclp_induct) (auto intro: step_keeps_ok)

end
