(* ===== verification/Ledger_Refine.thy ===== *)
theory Ledger_Refine
  imports Ledger_Step
begin

text \<open>
  Every operation of the ledger that commits is a sequence of steps of \<open>Ledger_Step\<close>, and what a step
  keeps, a history of operations keeps: the locale \<open>stable\<close>.
\<close>

section \<open>Operations are sequences of steps\<close>

lemma finish_none [simp]: "finish_attempts (\<lambda>_. False) st now db = db"
  by (simp add: finish_attempts_def update_attempts_def update_where_def)

lemma close_attempts_finish:
  "close_attempts rid st now = finish_attempts (\<lambda>x. at_run_id x = rid \<and> at_status x = AS_Running) st now"
  by (simp add: close_attempts_def finish_attempts_def)

lemma move_run_finish:
  "move_run rid t fin (finish_attempts Q st now db) = finish_attempts Q st now (move_run rid t fin db)"
  by (simp add: move_run_def update_runs_def finish_attempts_def update_attempts_def)

lemma record_if_steps:
  assumes "record_if scope idem d ref now db = Inr db'" "result_exists (shape db) scope ref"
  shows "steps {Ordinary} db db'"
proof (cases idem)
  case None
  then show ?thesis using assms(1) by (simp add: record_if_def)
next
  case (Some key)
  then have "insert_idempotency_record \<lparr>ir_scope = scope, ir_key = key, ir_request_digest = d,
        ir_result_reference = ref, ir_created_at = now\<rparr> db = Inr db'"
    using assms(1) by (simp add: record_if_def idem_record_def)
  from step_steps [OF result_recorded [OF this]] assms(2) show ?thesis by simp
qed

lemma create_conversation_steps:
  assumes "create_conversation sha idem now cid eid db = Inr (x, db')"
  shows "steps {Ordinary} db db'"
proof -
  consider "db' = db" | (fresh) db1 e db2 where
    "insert_conversation \<lparr>co_conversation_id = cid, co_created_at = now, co_status = CV_Open\<rparr> db = Inr db1"
    "emit_event (lifecycle_event eid cid None ET_ConversationCreated (JObj [])) now db1 = Inr (e, db2)"
    "record_if SCOPE_CREATE_CONVERSATION idem (create_conversation_digest sha) cid now db2 = Inr db'"
    using assms by (auto simp: create_conversation_def Let_def split: option.splits)
  then show ?thesis
  proof cases
    case fresh
    have "steps {Ordinary} db db2" using step_steps [OF conversation_created [OF fresh(1)]] fresh(2) by simp
    moreover have "cid \<in> set (sh_conversations (shape db2))"
      using fresh(1) emit_event_effect(1) [OF fresh(2)] by (auto simp: insert_conversation_def split: if_splits)
    then have "steps {Ordinary} db2 db'" by (intro record_if_steps [OF fresh(3)]) (simp add: result_exists_def)
    ultimately show ?thesis by (rule steps_trans)
  qed simp
qed

lemma create_run_inner_steps:
  assumes "create_run_inner req run_id scope idem d now rid eid db = Inr (x, db')"
    and "scope \<in> {SCOPE_CREATE_RUN, SCOPE_CREATE_RUN_WITH_ID}"
  shows "steps {Ordinary} db db'"
proof -
  consider "db' = db" | (fresh) r p db1 e db2 where "insert_run r db = Inr db1" "ru_status r = RS_Queued"
    "ru_finished_at r = None"
    "emit_event (lifecycle_event eid (ru_conversation_id r) (Some (ru_run_id r)) ET_RunCreated p) now db1 = Inr (e, db2)"
    "record_if scope idem d (ru_run_id r) now db2 = Inr db'"
    using assms(1) by (fastforce simp: create_run_inner_def Let_def split: option.splits)
  then show ?thesis
  proof cases
    case fresh
    have "steps {Ordinary} db db2" using step_steps [OF run_created [OF fresh(1-4)]] by simp
    moreover have "ru_run_id r \<in> ru_run_id ` set (db_run db2)"
      using fresh(1) emit_event_effect(1) [OF fresh(4)] by (auto simp: insert_run_def split: if_splits)
    then have "steps {Ordinary} db2 db'" using assms(2)
      by (intro record_if_steps [OF fresh(5)]) (auto simp: result_exists_def image_image)
    ultimately show ?thesis by (rule steps_trans)
  qed simp
qed

lemma set_run_status_steps:
  assumes op: "set_run_status rid target (status_event target) now eid db = Inr (x, db')" and ok: "ledger_ok db"
  shows "steps {Ordinary} db db'"
proof -
  let ?fin = "if is_terminal target then Some now else None"
  let ?leave = "is_terminal target \<or> target = RS_Interrupted"
  let ?Q = "\<lambda>x. ?leave \<and> at_run_id x = rid \<and> at_status x = AS_Running"
  obtain cur e where cur: "load_run db rid = Some cur" and v: "run_transition_allowed (ru_status cur) target"
    and em: "emit_event (lifecycle_event eid (ru_conversation_id cur) (Some rid) (status_event target) (JObj [])) now
        (finish_attempts ?Q (terminal_attempt_status target) now (move_run rid target ?fin db)) = Inr (e, db')"
    using op
    by (auto simp: set_run_status_def validate_run_transition_def Let_def close_attempts_finish move_run_def
        split: if_splits)
  have "at_run_id a = rid \<and> at_status a = AS_Running \<longrightarrow> ?Q a" if "a \<in> set (db_run_attempt db)" for a
  proof (cases ?leave)
    case False
    then have "ru_status cur \<noteq> RS_Running"
      using v by (auto simp: run_transition_allowed_def is_terminal_def)
    then show ?thesis using not_running_no_attempt [OF ok cur _ that] by blast
  qed simp
  then show ?thesis
    using em v by (intro step_steps [OF run_moved [OF cur, where st = "terminal_attempt_status target"]])
      (auto simp: move_ok_def terminal_attempt_not_running)
qed

lemma interrupt_move:
  assumes "ledger_ok db" "load_run db rid = Some cur" "ru_status cur = RS_Running"
  shows "update_runs (\<lambda>x. ru_run_id x = rid) (\<lambda>x. x\<lparr>ru_status := RS_Interrupted\<rparr>) db = move_run rid RS_Interrupted None db"
proof -
  have "ru_finished_at x = None" if "x \<in> set (db_run db)" "ru_run_id x = rid" for x
    using load_run_key(3) [OF assms(1,2) that] assms that(1)
    by (auto simp: ledger_ok_def finished_ok_def is_terminal_def)
  then show ?thesis
    unfolding move_run_def update_runs_def update_where_def
    by (intro arg_cong [of _ _ "\<lambda>rs. db\<lparr>db_run := rs\<rparr>"] map_cong) auto
qed

lemma interrupt_one_steps:
  assumes op: "interrupt_one db (rid, now, eid) = Inr db'" and ok: "ledger_ok db"
  shows "steps {Ordinary} db db'"
proof -
  obtain cur e where cur: "load_run db rid = Some cur" and v: "ru_status cur = RS_Running"
    and em: "emit_event (lifecycle_event eid (ru_conversation_id cur) (Some rid) ET_RunInterrupted
        (JObj [(''reason'', JStr ''recovery'')])) now
        (close_attempts rid AS_Interrupted now
          (update_runs (\<lambda>x. ru_run_id x = rid) (\<lambda>x. x\<lparr>ru_status := RS_Interrupted\<rparr>) db)) = Inr (e, db')"
    using op
    by (auto simp: interrupt_one_def validate_run_transition_def run_transition_allowed_def Let_def split: if_splits)
  show ?thesis
    using em v unfolding interrupt_move [OF ok cur v] close_attempts_finish
    by (intro step_steps [OF run_moved [OF cur, where target = RS_Interrupted and st = AS_Interrupted]])
      (auto simp: move_ok_def run_transition_allowed_def is_terminal_def)
qed

lemma resume_steps:
  assumes op: "resume_interrupted_run rid now eid aid db = Inr (x, db')" and ok: "ledger_ok db"
  shows "steps {Ordinary} db db'"
proof -
  let ?Q = "\<lambda>x. at_run_id x = rid \<and> at_status x = AS_Running"
  obtain cur e db3 where cur: "load_run db rid = Some cur" and s: "ru_status cur = RS_Interrupted"
    and em: "emit_event (lifecycle_event eid (ru_conversation_id cur) (Some rid) ET_RunStarted
        (JObj [(''resumed'', JBool True)])) now
        (finish_attempts ?Q AS_Interrupted now (move_run rid RS_Running None db)) = Inr (e, db3)"
    and att: "new_attempt rid now aid db3 = Inr (x, db')"
    using op
    by (auto simp: resume_interrupted_run_def Let_def close_attempts_finish move_run_finish
        simp flip: move_run_def split: if_splits)
  have s1: "steps {Ordinary} db db3"
    using em s
    by (intro step_steps [OF run_moved [OF cur, where target = RS_Running and st = AS_Interrupted]])
      (auto simp: move_ok_def is_terminal_def)
  have "rid \<in> ru_run_id ` set (db_run db3)"
    using load_run_known [OF cur] emit_event_effect(1) [OF em]
    by (auto simp: has_run_def set_update_where image_iff) fastforce?
  then obtain cur' where cur': "load_run db3 rid = Some cur'"
    unfolding load_run_def using find_key_exists by metis
  have ok3: "ledger_ok db3" using steps_keep_ok [OF s1 ok] .
  have "cur' \<in> set (update_where (\<lambda>x. ru_run_id x = rid) (\<lambda>x. x\<lparr>ru_status := RS_Running, ru_finished_at := None\<rparr>) (db_run db))"
    using load_run_key(1) [OF ok3 cur'] emit_event_effect(1) [OF em] by simp
  then obtain y where y: "cur' = (if ru_run_id y = rid then y\<lparr>ru_status := RS_Running, ru_finished_at := None\<rparr> else y)"
    unfolding set_update_where by blast
  have "ru_run_id y = rid" using load_run_key(2) [OF ok3 cur'] y by (metis (full_types))
  with y have "ru_status cur' = RS_Running" by simp
  then have "steps {Ordinary} db3 db'" using att by (intro step_steps [OF attempt_opened [OF cur']]) auto
  with s1 show ?thesis by (rule steps_trans)
qed

lemma latest_by_number_in: "latest_by_number as = Some a \<Longrightarrow> a \<in> set as"
  by (induction as arbitrary: a) (auto split: option.splits if_splits)

lemma repair_steps:
  assumes op: "repair_interrupted_run_to_terminal rid target now eid db = Inr (x, db')" and ok: "ledger_ok db"
  shows "steps {Ordinary} db db'"
proof -
  let ?last = "latest_by_number (filter (\<lambda>x. at_status x = AS_Interrupted) (attempts_of db rid))"
  let ?Q = "\<lambda>x. map_option at_attempt_id ?last = Some (at_attempt_id x)"
  have att: "attempts_of (move_run rid target (Some now) db) rid = attempts_of db rid" by (simp add: attempts_of_def)
  obtain cur e ty where cur: "load_run db rid = Some cur" and s: "ru_status cur = RS_Interrupted"
    and ty: "repair_event_type target = Some ty"
    and em: "emit_event (lifecycle_event eid (ru_conversation_id cur) (Some rid) ty
        (JObj [(''repaired_from'', JStr ''interrupted'')])) now
        (finish_attempts ?Q (terminal_attempt_status target) now (move_run rid target (Some now) db)) = Inr (e, db')"
    using op
    by (auto simp: repair_interrupted_run_to_terminal_def Let_def att simp flip: move_run_def finish_attempts_def
        split: if_splits)
  have t: "target \<in> {RS_Completed, RS_Failed, RS_Blocked, RS_Error} \<and> ty = status_event target"
    using ty by (cases target) auto
  have own: "\<forall>a \<in> set (db_run_attempt db). ?Q a \<longrightarrow> at_run_id a = rid"
  proof (intro ballI impI)
    fix a assume a: "a \<in> set (db_run_attempt db)" "?Q a"
    then obtain l where l: "?last = Some l" "at_attempt_id l = at_attempt_id a" by auto
    have "l \<in> set (db_run_attempt db)" "at_run_id l = rid"
      using latest_by_number_in [OF l(1)] by (auto simp: attempts_of_def)
    then show "at_run_id a = rid"
      using ledger_keys(3) [OF ok] a(1) l(2) by (metis distinct_map inj_on_def)
  qed
  have none: "\<forall>a \<in> set (db_run_attempt db). at_run_id a = rid \<and> at_status a = AS_Running \<longrightarrow> ?Q a"
    using not_running_no_attempt [OF ok cur] s by auto
  have "move_ok (ru_status cur) target" "Some now \<noteq> None \<longleftrightarrow> is_terminal target"
    using s t by (auto simp: move_ok_def is_terminal_def)
  from step_steps [OF run_moved [OF cur this terminal_attempt_not_running own none]] em t
  show ?thesis by simp
qed

lemma create_attempt_steps:
  assumes "create_attempt rid now aid db = Inr (x, db')"
  shows "steps {Ordinary} db db'"
proof -
  obtain cur where "load_run db rid = Some cur" "ru_status cur = RS_Running" "new_attempt rid now aid db = Inr (x, db')"
    using assms by (auto simp: create_attempt_def split: if_splits)
  from step_steps [OF attempt_opened [OF this]] show ?thesis by simp
qed

lemma attempts_closed_steps: "st \<noteq> AS_Running \<Longrightarrow> steps {Ordinary} db (finish_attempts Q st now db)"
  by (rule step_steps [OF attempts_closed]) simp_all

lemma set_attempt_status_steps:
  assumes "set_attempt_status aid target now db = Inr (x, db')"
  shows "steps {Ordinary} db db'"
proof -
  have "target \<noteq> AS_Running" "db' = finish_attempts (\<lambda>x. at_attempt_id x = aid) target now db"
    using assms
    by (auto simp: set_attempt_status_def validate_attempt_transition_def attempt_transition_allowed_def Let_def
        finish_attempts_def split: if_splits)
  then show ?thesis using attempts_closed_steps by simp
qed

lemma interrupt_attempt_steps:
  assumes "interrupt_attempt db (aid, now) = Inr db'"
  shows "steps {Ordinary} db db'"
proof -
  consider "db' = db"
    | "db' = finish_attempts (\<lambda>x. at_attempt_id x = aid \<and> at_status x = AS_Running) AS_Interrupted now db"
    using assms by (auto simp: interrupt_attempt_def finish_attempts_def split: if_splits)
  then show ?thesis by cases (auto intro: attempts_closed_steps)
qed

lemma try_fold_steps:
  assumes "\<And>db x db'. f db x = Inr db' \<Longrightarrow> ledger_ok db \<Longrightarrow> steps L db db'"
  shows "try_fold f db xs = Inr db' \<Longrightarrow> ledger_ok db \<Longrightarrow> steps L db db'"
proof (induction xs arbitrary: db)
  case (Cons x xs)
  then obtain db1 where db1: "f db x = Inr db1" "try_fold f db1 xs = Inr db'" by auto
  have "steps L db db1" using assms db1(1) Cons.prems(2) .
  then show ?case using Cons.IH [OF db1(2)] steps_keep_ok Cons.prems(2) steps_trans by blast
qed simp

lemma mark_interrupted_steps:
  assumes "mark_interrupted runs atts db = Inr (x, db')" "ledger_ok db"
  shows "steps {Ordinary} db db'"
proof -
  obtain db1 where db1: "try_fold interrupt_one db runs = Inr db1" "try_fold interrupt_attempt db1 atts = Inr db'"
    using assms(1) by (auto simp: mark_interrupted_def)
  have s1: "steps {Ordinary} db db1"
    by (rule try_fold_steps [OF _ db1(1) assms(2)]) (metis interrupt_one_steps prod_cases3)
  have "steps {Ordinary} db1 db'"
    by (rule try_fold_steps [OF _ db1(2) steps_keep_ok [OF s1 assms(2)]]) (metis interrupt_attempt_steps surj_pair)
  with s1 show ?thesis by (rule steps_trans)
qed

lemma note_steps:
  assumes "emit_event ev now db = Inr (e, db1)" "ne_event_type ev \<in> {ET_UserMessage, ET_SystemNote}"
    and "record_if scope idem d (pe_event_id e) now db1 = Inr db'"
    and "scope \<in> {SCOPE_APPEND_USER_MESSAGE, SCOPE_APPEND_SYSTEM_NOTE}"
  shows "steps {Ordinary} db db'"
proof -
  have "steps {Ordinary} db db1" using step_steps [OF note_logged [OF assms(1,2)]] by simp
  moreover have "steps {Ordinary} db1 db'"
    using assms(4) emit_event_effect(1) [OF assms(1)]
    by (intro record_if_steps [OF assms(3)]) (auto simp: result_exists_def)
  ultimately show ?thesis by (rule steps_trans)
qed

lemma append_user_message_steps:
  assumes "append_user_message sha to_vec conv payload rid idem now eid db = Inr (x, db')"
  shows "steps {Ordinary} db db'"
proof -
  consider "db' = db" | (fresh) e db1 where
    "emit_event (lifecycle_event eid conv rid ET_UserMessage payload) now db = Inr (e, db1)"
    "record_if SCOPE_APPEND_USER_MESSAGE idem (append_user_message_digest sha to_vec conv payload rid) (pe_event_id e) now db1 = Inr db'"
    using assms by (auto simp: append_user_message_def Let_def split: option.splits)
  then show ?thesis by cases (auto intro: note_steps simp: lifecycle_event_def)
qed

lemma append_system_note_steps:
  assumes "append_system_note sha to_vec conv rid aid payload key now eid db = Inr (x, db')"
  shows "steps {Ordinary} db db'"
proof -
  consider "db' = db" | (fresh) e db1 where
    "emit_event ((lifecycle_event eid conv rid ET_SystemNote payload)\<lparr>ne_attempt_id := aid\<rparr>) now db = Inr (e, db1)"
    "record_if SCOPE_APPEND_SYSTEM_NOTE (Some key) (append_system_note_digest sha to_vec conv rid aid payload) (pe_event_id e) now db1 = Inr db'"
    using assms by (auto simp: append_system_note_def Let_def split: option.splits)
  then show ?thesis by cases (auto intro: note_steps simp: lifecycle_event_def)
qed

section \<open>Commands\<close>

lemma command_update_steps:
  assumes "\<And>x. command_key (f x) = command_key x"
    and "\<And>x. x \<in> set (db_command db) \<Longrightarrow> P x \<Longrightarrow> in_flight (cm_status (f x)) \<Longrightarrow> in_flight (cm_status x)"
  shows "steps {Ordinary} db (update_commands P f db)"
  using step_steps [OF command_updated [of f db P, OF assms]] by simp

lemma create_command_steps:
  assumes "create_command sha to_vec req key now cmid db = Inr (x, db')"
  shows "steps {Ordinary} db db'"
proof -
  consider "db' = db" | (fresh) c db1 where "check_acceptance req db = Inr ()" "insert_command c db = Inr db1"
    "cm_status c = CS_Accepted" "cm_conversation_id c = nc_conversation_id req" "cm_command_id c = cmid"
    "record_if SCOPE_CREATE_COMMAND (Some key) (create_command_digest sha to_vec req) cmid now db1 = Inr db'"
    using assms by (fastforce simp: create_command_def Let_def split: option.splits)
  then show ?thesis
  proof cases
    case fresh
    have "in_flight_commands db (cm_conversation_id c) = []"
      using fresh(1,4) by (auto simp: check_acceptance_def split: if_splits option.splits)
    then have "steps {Ordinary} db db1" using step_steps [OF command_accepted [OF fresh(2,3)]] by simp
    moreover have "cmid \<in> cm_command_id ` set (db_command db1)"
      using fresh(2,5) by (auto simp: insert_command_def split: if_splits)
    then have "steps {Ordinary} db1 db'"
      by (intro record_if_steps [OF fresh(6)]) (auto simp: result_exists_def image_image)
    ultimately show ?thesis by (rule steps_trans)
  qed simp
qed

lemma ordinary_command_steps:
  "set_command_status cmid st now db = Inr (c, db') \<Longrightarrow> \<not> in_flight st \<Longrightarrow> steps {Ordinary} db db'"
  "claim_stale_command_for_redrive cmid expected now db = Inr (b, db') \<Longrightarrow> steps {Ordinary} db db'"
  "rebind_command_child_run cmid rid now db = Inr (c, db') \<Longrightarrow> steps {Ordinary} db db'"
  "complete_bound cmid rid now db = Inr (o1, db') \<Longrightarrow> steps {Ordinary} db db'"
  by (auto simp: set_command_status_def claim_stale_command_for_redrive_def rebind_command_child_run_def
      complete_bound_def Let_def command_key_def in_flight_def split: if_splits
      intro!: command_update_steps)

lemma rebind_if_current_steps:
  "rebind_command_child_run_if_current cmid old expected fresh now db = Inr (o1, db') \<Longrightarrow> steps {Ordinary} db db'"
  by (auto simp: rebind_command_child_run_if_current_def Let_def command_key_def
      split: if_splits option.splits intro!: command_update_steps)

lemma rejected_if_unattached_steps:
  "mark_command_rejected_if_unattached_and_bound cmid rid now db = Inr (o1, db') \<Longrightarrow> steps {Ordinary} db db'"
  by (auto simp: mark_command_rejected_if_unattached_and_bound_def Let_def command_key_def in_flight_def
      split: if_splits option.splits intro!: command_update_steps)

lemma completed_if_bound_steps:
  "mark_command_completed_if_bound cmid rid now db = Inr (o1, db') \<Longrightarrow> steps {Ordinary} db db'"
  "mark_command_completed_if_bound_and_terminal cmid rid now db = Inr (o2, db') \<Longrightarrow> steps {Ordinary} db db'"
  by (auto simp: mark_command_completed_if_bound_def mark_command_completed_if_bound_and_terminal_def
      split: if_splits option.splits intro: ordinary_command_steps(4))

lemma reconcile_one_steps:
  assumes "reconcile_one now s cmid = Inr s'"
  shows "steps {Ordinary} (snd s) (snd s')"
proof -
  have "snd s' = update_commands (\<lambda>x. cm_command_id x = cmid)
      (\<lambda>x. x\<lparr>cm_status := CS_Completed, cm_updated_at := now\<rparr>) (snd s)"
    using assms by (auto simp: reconcile_one_def Let_def split: prod.splits)
  then show ?thesis by (auto simp: command_key_def in_flight_def intro!: command_update_steps)
qed

lemma reconcile_steps: "reconcile_completed_commands now db = Inr (cs, db') \<Longrightarrow> steps {Ordinary} db db'"
proof -
  have "try_fold (reconcile_one now) s ids = Inr s' \<Longrightarrow> steps {Ordinary} (snd s) (snd s')" for s s' ids
  proof (induction ids arbitrary: s)
    case (Cons i ids)
    then obtain s1 where "reconcile_one now s i = Inr s1" "try_fold (reconcile_one now) s1 ids = Inr s'"
      by (auto split: sum.splits)
    then show ?case using steps_trans [OF reconcile_one_steps Cons.IH] by blast
  qed simp
  from this [of "([], db)" _ "(cs, db')"] show "reconcile_completed_commands now db = Inr (cs, db') \<Longrightarrow> ?thesis"
    by (simp add: reconcile_completed_commands_def)
qed

section \<open>All operations\<close>

text \<open>The labels of the steps an operation takes.\<close>

fun op_label :: "Op \<Rightarrow> Ledger \<Rightarrow> StepLabel" where
  "op_label (AppendEvent ev now) db = Raw (ne_event_type ev)"
| "op_label (BindCommand cmid rid now) db =
     (case load_command db cmid of
        None \<Rightarrow> Ordinary
      | Some c \<Rightarrow> if in_flight (cm_status c) then Ordinary else Revive)"
| "op_label _ db = Ordinary"

lemma bind_steps:
  assumes "bind_command_child_run cmid rid now db = Inr (c, db')" "ledger_ok db"
  shows "steps {op_label (BindCommand cmid rid now) db} db db'"
proof -
  let ?P = "\<lambda>x. cm_command_id x = cmid \<and> cm_child_run_id x = None"
  let ?f = "\<lambda>x. x\<lparr>cm_child_run_id := Some rid, cm_status := CS_Started, cm_updated_at := now\<rparr>"
  obtain c0 where c0: "load_command db cmid = Some c0" and db': "db' = update_commands ?P ?f db"
    using assms(1) by (auto simp: bind_command_child_run_def Let_def)
  have key: "command_key (?f x) = command_key x" for x by (simp add: command_key_def)
  show ?thesis
  proof (cases "in_flight (cm_status c0)")
    case True
    have "x = c0" if "x \<in> set (db_command db)" "?P x" for x
      using find_key(3) [OF ledger_keys(6) [OF assms(2)] c0 [unfolded load_command_def]] that by blast
    with True have "steps {Ordinary} db (update_commands ?P ?f db)"
      by (intro command_update_steps key) blast
    with True c0 show ?thesis by (simp add: db')
  next
    case False
    with step_steps [OF command_revived [of ?f, OF key]] c0 show ?thesis by (simp add: db')
  qed
qed

theorem op_refines_steps:
  assumes "op_tx sha to_vec op db = Inr db'" "ledger_ok db"
  shows "steps {op_label op db} db db'"
proof -
  note lemmas_ = create_conversation_steps create_run_inner_steps set_run_status_steps create_attempt_steps
    set_attempt_status_steps resume_steps repair_steps create_command_steps ordinary_command_steps
    rebind_if_current_steps completed_if_bound_steps rejected_if_unattached_steps reconcile_steps
    append_user_message_steps append_system_note_steps mark_interrupted_steps
  show ?thesis
  proof (cases op)
    case (BindCommand cmid rid now)
    with assms bind_steps show ?thesis by (auto simp: forget_Inr simp del: op_label.simps)
  next
    case (AppendEvent ev now)
    then obtain e where "emit_event ev now db = Inr (e, db')" using assms(1) by (auto simp: forget_Inr append_event_def)
    with AppendEvent show ?thesis using step_steps [OF raw_logged] by simp
  next
    case (SetProviderSession rid sess)
    then have "db' = update_runs (\<lambda>x. ru_run_id x = rid) (\<lambda>x. x\<lparr>ru_provider_session_id := Some sess\<rparr>) db"
      using assms(1) by (auto simp: forget_Inr set_run_provider_session_def Let_def)
    with SetProviderSession show ?thesis using step_steps [OF session_set] by simp
  next
    case (StartRun rid now eid)
    with assms set_run_status_steps [of rid RS_Running] show ?thesis by (auto simp: forget_Inr start_run_def)
  next
    case (CompleteRun rid now eid)
    with assms set_run_status_steps [of rid RS_Completed] show ?thesis by (auto simp: forget_Inr complete_run_def)
  next
    case (FailRun rid now eid)
    with assms set_run_status_steps [of rid RS_Failed] show ?thesis by (auto simp: forget_Inr fail_run_def)
  next
    case (CancelRun rid now eid)
    with assms set_run_status_steps [of rid RS_Cancelled] show ?thesis by (auto simp: forget_Inr cancel_run_def)
  next
    case (InterruptRun rid now eid)
    with assms set_run_status_steps [of rid RS_Interrupted] show ?thesis by (auto simp: forget_Inr interrupt_run_def)
  next
    case (BlockRun rid now eid)
    with assms set_run_status_steps [of rid RS_Blocked] show ?thesis by (auto simp: forget_Inr block_run_def)
  next
    case (ErrorRun rid now eid)
    with assms set_run_status_steps [of rid RS_Error] show ?thesis by (auto simp: forget_Inr error_run_def)
  qed (use assms in \<open>auto simp: forget_Inr create_run_def create_run_with_id_def mark_command_completed_def
      mark_command_rejected_def in_flight_def intro: lemmas_\<close>)
qed

end
