(* ===== verification/Ledger_History.thy ===== *)
theory Ledger_History
  imports Ledger_Refine "HOL-Library.Sublist"
begin

text \<open>
  What histories of ledger operations keep. The contract of a relation that every step respects is
  the locale \<open>step_order\<close>; a predicate that every step keeps gives such a relation (\<open>stable\<close>). Both
  are lifted from steps to operations and histories once, and interpreted on: growth of the tables
  and finality of terminal runs (\<open>later\<close>), the status of a run as the projection of the event log
  (\<open>projected\<close>), and the single command in flight of a conversation (\<open>single_flight\<close>).
\<close>

section \<open>From steps to histories\<close>

text \<open>The operations of a list take only steps labelled in \<open>L\<close>, each in the state it meets.\<close>

fun permitted :: "(bytes \<Rightarrow> bytes) \<Rightarrow> (Json \<Rightarrow> bytes) \<Rightarrow> StepLabel set \<Rightarrow> Ledger \<Rightarrow> Op list \<Rightarrow> bool" where
  "permitted sha to_vec L db [] \<longleftrightarrow> True"
| "permitted sha to_vec L db (op # ops) \<longleftrightarrow>
     op_label op db \<in> L \<and> permitted sha to_vec L (exec sha to_vec op db) ops"

definition execs :: "(bytes \<Rightarrow> bytes) \<Rightarrow> (Json \<Rightarrow> bytes) \<Rightarrow> Op list \<Rightarrow> Ledger \<Rightarrow> Ledger" where
  "execs sha to_vec ops db = foldl (\<lambda>db op. exec sha to_vec op db) db ops"

lemma execs_simps [simp]:
  "execs sha to_vec [] db = db"
  "execs sha to_vec (op # ops) db = execs sha to_vec ops (exec sha to_vec op db)"
  by (simp_all add: execs_def)

lemma history_execs: "history sha to_vec ops = execs sha to_vec ops empty_ledger"
  by (simp add: history_def execs_def)

lemma history_append: "history sha to_vec (ops @ ops') = execs sha to_vec ops' (history sha to_vec ops)"
  by (simp add: history_def execs_def)

lemma exec_steps:
  assumes "ledger_ok db" "op_label op db \<in> L"
  shows "steps L db (exec sha to_vec op db)"
proof (cases "op_tx sha to_vec op db")
  case (Inl e)
  then show ?thesis by (simp add: exec_cases)
next
  case (Inr db')
  with op_refines_steps [OF Inr assms(1)] assms(2) show ?thesis
    by (auto simp: exec_cases intro: steps_mono)
qed

lemma execs_steps:
  assumes "ledger_ok db" "permitted sha to_vec L db ops"
  shows "steps L db (execs sha to_vec ops db)"
  using assms
proof (induction ops arbitrary: db)
  case (Cons op ops)
  then have s: "steps L db (exec sha to_vec op db)" by (intro exec_steps) simp_all
  with Cons steps_keep_ok show ?case by (auto intro: steps_trans)
qed simp

lemma permitted_UNIV [simp]: "permitted sha to_vec UNIV db ops"
  by (induction ops arbitrary: db) simp_all

lemma execs_ok: "ledger_ok db \<Longrightarrow> ledger_ok (execs sha to_vec ops db)"
  using steps_keep_ok execs_steps permitted_UNIV by blast

lemma history_ok: "ledger_ok (history sha to_vec ops)"
  unfolding history_execs by (rule execs_ok [OF empty_ok])

locale step_order =
  fixes L :: "StepLabel set" and R :: "Ledger \<Rightarrow> Ledger \<Rightarrow> bool"
  assumes same: "R db db"
    and compose: "R a b \<Longrightarrow> R b c \<Longrightarrow> R a c"
    and taken: "ledger_ok db \<Longrightarrow> ledger_step l db db' \<Longrightarrow> l \<in> L \<Longrightarrow> R db db'"
begin

lemma over_steps: "steps L db db' \<Longrightarrow> ledger_ok db \<Longrightarrow> R db db'"
  unfolding steps_def
proof (induction rule: rtranclp_induct)
  case (step b c)
  then have "ledger_ok b" using steps_keep_ok [of L db b] by (simp add: steps_def)
  then show ?case using step compose taken by blast
qed (rule same)

lemma over_execs: "ledger_ok db \<Longrightarrow> permitted sha to_vec L db ops \<Longrightarrow> R db (execs sha to_vec ops db)"
  using over_steps execs_steps by blast

end

locale stable =
  fixes L :: "StepLabel set" and I :: "Ledger \<Rightarrow> bool"
  assumes initial: "I empty_ledger"
    and kept: "ledger_ok db \<Longrightarrow> ledger_step l db db' \<Longrightarrow> l \<in> L \<Longrightarrow> I db \<Longrightarrow> I db'"

sublocale stable \<subseteq> implied: step_order L "\<lambda>db db'. I db \<longrightarrow> I db'"
  by unfold_locales (auto intro: kept)

context stable
begin

lemma in_history: "permitted sha to_vec L empty_ledger ops \<Longrightarrow> I (history sha to_vec ops)"
  using implied.over_execs [OF empty_ok] initial by (simp add: history_execs)

end

section \<open>Tables that only grow\<close>

text \<open>The rows of \<open>xs\<close> are still there in \<open>ys\<close>, in order, each related by \<open>R\<close> to what it was.\<close>

definition keeps :: "('a \<Rightarrow> 'a \<Rightarrow> bool) \<Rightarrow> 'a list \<Rightarrow> 'a list \<Rightarrow> bool" where
  "keeps R xs ys \<longleftrightarrow> list_all2 R xs (take (length xs) ys)"

lemma keeps_nth: "keeps R xs ys \<longleftrightarrow> length xs \<le> length ys \<and> (\<forall>i < length xs. R (xs ! i) (ys ! i))"
  by (auto simp: keeps_def list_all2_conv_all_nth)

lemma keeps_append: "(\<And>x. R x x) \<Longrightarrow> keeps R xs (xs @ ys)"
  by (auto simp: keeps_nth nth_append)

lemma keeps_refl: "(\<And>x. R x x) \<Longrightarrow> keeps R xs xs"
  by (simp add: keeps_nth)

lemma keeps_trans: "(\<And>x y z. R x y \<Longrightarrow> R y z \<Longrightarrow> R x z) \<Longrightarrow> keeps R xs ys \<Longrightarrow> keeps R ys zs \<Longrightarrow> keeps R xs zs"
  unfolding keeps_nth by (metis order.strict_trans2 order.trans)

lemma keeps_update: "(\<And>x. R x x) \<Longrightarrow> (\<And>x. x \<in> set xs \<Longrightarrow> P x \<Longrightarrow> R x (f x)) \<Longrightarrow> keeps R xs (update_where P f xs)"
  by (auto simp: keeps_nth update_where_def)

lemma keeps_in: "keeps R xs ys \<Longrightarrow> x \<in> set xs \<Longrightarrow> \<exists>y \<in> set ys. R x y"
  unfolding keeps_nth by (metis in_set_conv_nth order.strict_trans2)

lemma keeps_eq: "keeps (=) xs ys \<longleftrightarrow> prefix xs ys"
  by (metis keeps_def list.rel_eq prefix_def take_is_prefix append_eq_conv_conj)

definition run_later :: "Run \<Rightarrow> Run \<Rightarrow> bool" where
  "run_later r r' \<longleftrightarrow> run_key r' = run_key r \<and> ru_agent r' = ru_agent r \<and> ru_role r' = ru_role r
     \<and> ru_created_at r' = ru_created_at r \<and> move_ok\<^sup>*\<^sup>* (ru_status r) (ru_status r')
     \<and> (is_terminal (ru_status r) \<longrightarrow> ru_finished_at r' = ru_finished_at r)"

definition attempt_later :: "RunAttempt \<Rightarrow> RunAttempt \<Rightarrow> bool" where
  "attempt_later a a' \<longleftrightarrow> attempt_key a' = attempt_key a
     \<and> (at_status a \<noteq> AS_Running \<longrightarrow> at_status a' \<noteq> AS_Running)"

definition command_later :: "Command \<Rightarrow> Command \<Rightarrow> bool" where
  "command_later c c' \<longleftrightarrow> command_key c' = command_key c"

definition later :: "Ledger \<Rightarrow> Ledger \<Rightarrow> bool" where
  "later a b \<longleftrightarrow> prefix (db_event a) (db_event b)
     \<and> prefix (db_idempotency_record a) (db_idempotency_record b) \<and> prefix (db_conversation a) (db_conversation b)
     \<and> keeps run_later (db_run a) (db_run b) \<and> keeps attempt_later (db_run_attempt a) (db_run_attempt b)
     \<and> keeps command_later (db_command a) (db_command b)"

lemma terminal_stays: "move_ok\<^sup>*\<^sup>* s t \<Longrightarrow> is_terminal s \<Longrightarrow> t = s"
proof (induction rule: rtranclp_induct)
  case (step t u)
  then have "move_ok s u" by simp
  with step.prems show ?case by (auto simp: move_ok_def is_terminal_def run_transition_allowed_def)
qed simp

lemma row_later_refl [simp]: "run_later r r" "attempt_later a a" "command_later c c"
  by (simp_all add: run_later_def attempt_later_def command_later_def)

lemma row_later_trans:
  "run_later r r' \<Longrightarrow> run_later r' r'' \<Longrightarrow> run_later r r''"
  "attempt_later a a' \<Longrightarrow> attempt_later a' a'' \<Longrightarrow> attempt_later a a''"
  "command_later c c' \<Longrightarrow> command_later c' c'' \<Longrightarrow> command_later c c''"
  using terminal_stays [of "ru_status r" "ru_status r'"]
  by (auto simp: run_later_def attempt_later_def command_later_def dest: rtranclp_trans)

lemmas keeps_rows = keeps_refl [where R = run_later] keeps_refl [where R = attempt_later]
  keeps_refl [where R = command_later] keeps_append [where R = run_later] keeps_append [where R = attempt_later]
  keeps_append [where R = command_later]

lemma emit_later: "emit_event ev now db = Inr (e, db') \<Longrightarrow> later db db'"
  by (drule emit_event_effect(1)) (simp add: later_def keeps_rows)

lemma later_refl: "later a a"
  by (simp add: later_def keeps_rows)

lemma later_trans: "later a b \<Longrightarrow> later b c \<Longrightarrow> later a c"
  unfolding later_def
  by (auto intro: prefix_order.trans keeps_trans [OF row_later_trans(1)] keeps_trans [OF row_later_trans(2)]
      keeps_trans [OF row_later_trans(3)])

lemma move_later:
  assumes "ledger_ok db" "load_run db rid = Some cur" "move_ok (ru_status cur) target" "st \<noteq> AS_Running"
  shows "later db (finish_attempts Q st now (move_run rid target fin db))"
proof -
  have "run_later x (x\<lparr>ru_status := target, ru_finished_at := fin\<rparr>)" if "x \<in> set (db_run db)" "ru_run_id x = rid" for x
  proof -
    have "x = cur" using load_run_key(3) [OF assms(1,2) that] .
    moreover have "\<not> is_terminal (ru_status cur)"
      using assms(3) terminal_no_exit by (auto simp: move_ok_def is_terminal_def)
    ultimately show ?thesis using assms(3) by (simp add: run_later_def run_key_def r_into_rtranclp)
  qed
  then show ?thesis
    using assms(4) by (simp add: later_def keeps_rows keeps_update attempt_later_def attempt_key_def)
qed

lemma step_later:
  assumes "ledger_ok db" "ledger_step l db db'"
  shows "later db db'"
  using assms(2)
proof cases
  case (conversation_created c db1 eid p now e)
  then have "later db db1" by (auto simp: later_def insert_conversation_def keeps_rows split: if_splits)
  then show ?thesis using emit_later [OF conversation_created(3)] by (rule later_trans)
next
  case (run_created r db1 eid p now e)
  then have "later db db1" by (auto simp: later_def insert_run_def keeps_rows split: if_splits)
  then show ?thesis using emit_later [OF run_created(5)] by (rule later_trans)
next
  case (run_moved rid cur target fin st Q eid p now now' e)
  then show ?thesis using later_trans [OF move_later [OF assms(1)] emit_later] by blast
next
  case (attempt_opened rid cur now aid a)
  then show ?thesis by (auto simp: later_def keeps_rows dest: new_attempt_effect(1))
next
  case (attempts_closed st Q now)
  then show ?thesis by (simp add: later_def keeps_rows keeps_update attempt_later_def attempt_key_def)
next
  case (session_set rid sess)
  then show ?thesis
    by (auto simp: later_def keeps_rows update_runs_def run_later_def run_key_def intro!: keeps_update)
next
  case (result_recorded i)
  then show ?thesis by (auto simp: later_def keeps_rows insert_idempotency_record_def split: if_splits)
next
  case (command_accepted c)
  then show ?thesis by (auto simp: later_def keeps_rows insert_command_def split: if_splits)
next
  case (command_updated f P)
  then show ?thesis by (auto simp: later_def keeps_rows update_commands_def command_later_def intro!: keeps_update)
next
  case (command_revived f P)
  then show ?thesis by (auto simp: later_def keeps_rows update_commands_def command_later_def intro!: keeps_update)
qed (auto intro: emit_later)

interpretation growth: step_order UNIV later
  by unfold_locales (auto intro: later_refl later_trans step_later)

section \<open>The status of a run is the projection of the log\<close>

fun event_status :: "EventType \<Rightarrow> RunStatus option" where
  "event_status ET_RunCreated = Some RS_Queued"
| "event_status ET_RunStarted = Some RS_Running"
| "event_status ET_RunCompleted = Some RS_Completed"
| "event_status ET_RunFailed = Some RS_Failed"
| "event_status ET_RunCancelled = Some RS_Cancelled"
| "event_status ET_RunInterrupted = Some RS_Interrupted"
| "event_status ET_RunBlocked = Some RS_Blocked"
| "event_status ET_RunErrored = Some RS_Error"
| "event_status _ = None"

text \<open>What the log says of a run: the status its last lifecycle event announces.\<close>

definition project_event :: "LedgerRunId \<Rightarrow> RunStatus option \<Rightarrow> PersistedEvent \<Rightarrow> RunStatus option" where
  "project_event rid s e =
     (if pe_run_id e = Some rid then
        (case EventType_parse (pe_event_type e) of
           None \<Rightarrow> s
         | Some ty \<Rightarrow> (case event_status ty of None \<Rightarrow> s | Some t \<Rightarrow> Some t))
      else s)"

definition logged_status :: "LedgerRunId \<Rightarrow> PersistedEvent list \<Rightarrow> RunStatus option" where
  "logged_status rid es = foldl (project_event rid) None es"

definition projected :: "Ledger \<Rightarrow> bool" where
  "projected db \<longleftrightarrow> (\<forall>rid. logged_status rid (db_event db) = map_option ru_status (load_run db rid))"

definition plain_labels :: "StepLabel set" where
  "plain_labels = {Ordinary, Revive} \<union> Raw ` {ty. event_status ty = None}"

lemma event_status_of [simp]: "event_status (status_event s) = Some s"
  by (cases s) simp_all

lemma logged_snoc [simp]: "logged_status rid (es @ [e]) = project_event rid (logged_status rid es) e"
  by (simp add: logged_status_def)

lemma load_run_append:
  "ru_run_id r \<notin> ru_run_id ` set (db_run db) \<Longrightarrow>
   load_run (db\<lparr>db_run := db_run db @ [r]\<rparr>) rid = (if rid = ru_run_id r then Some r else load_run db rid)"
proof -
  assume new: "ru_run_id r \<notin> ru_run_id ` set (db_run db)"
  have "find P (xs @ [r]) = (case find P xs of None \<Rightarrow> if P r then Some r else None | Some y \<Rightarrow> Some y)" for P xs
    by (induction xs) auto
  moreover have "find (\<lambda>x. ru_run_id x = ru_run_id r) (db_run db) = None" 
    using new unfolding find_None_iff image_iff by metis
  ultimately show ?thesis by (simp add: load_run_def split: option.split)
qed

lemma find_update:
  "(\<And>x. k (f x) = k x) \<Longrightarrow>
   find (\<lambda>x. k x = v) (update_where P f xs) = map_option (\<lambda>x. if P x then f x else x) (find (\<lambda>x. k x = v) xs)"
  by (induction xs) (simp_all add: update_where_def)

lemma load_run_update:
  "(\<And>x. ru_run_id (f x) = ru_run_id x) \<Longrightarrow>
   load_run (update_runs P f db) rid = map_option (\<lambda>x. if P x then f x else x) (load_run db rid)"
  by (simp add: load_run_def update_runs_def find_update)

lemma load_run_cong: "db_run db' = db_run db \<Longrightarrow> load_run db' rid = load_run db rid"
  by (simp add: load_run_def)

lemma project_emitted:
  assumes "emit_event ev now db = Inr (e, db')"
  shows "logged_status rid (db_event db') =
    (if ne_run_id ev = Some rid \<and> event_status (ne_event_type ev) \<noteq> None
     then event_status (ne_event_type ev) else logged_status rid (db_event db))"
  using emit_event_effect [OF assms]
  by (auto simp: project_event_def status_round_trip split: option.splits)

lemma emitted_runs: "emit_event ev now db = Inr (e, db') \<Longrightarrow> load_run db' rid = load_run db rid"
  by (drule emit_event_effect(1)) (simp add: load_run_def)

lemma quiet_event_projected:
  assumes "emit_event ev now db = Inr (e, db')" "event_status (ne_event_type ev) = None" "projected db"
  shows "projected db'"
  using assms by (simp add: projected_def project_emitted [OF assms(1)] emitted_runs [OF assms(1)])

lemma projected_cong:
  "db_event db' = db_event db \<Longrightarrow> (\<And>rid. map_option ru_status (load_run db' rid) = map_option ru_status (load_run db rid))
   \<Longrightarrow> projected db \<Longrightarrow> projected db'"
  by (simp add: projected_def)

lemma step_projected:
  assumes ok: "ledger_ok db" and s: "ledger_step l db db'" and l: "l \<in> plain_labels" and p: "projected db"
  shows "projected db'"
  using s
proof cases
  case (conversation_created c db1 eid q now e)
  have "db_event db1 = db_event db" "db_run db1 = db_run db"
    using conversation_created(2) by (auto simp: insert_conversation_def split: if_splits)
  then have "projected db1" using p by (simp add: projected_def load_run_def)
  then show ?thesis by (rule quiet_event_projected [OF conversation_created(3), rotated]) (simp add: lifecycle_event_def)
next
  case (run_created r db1 eid q now e)
  have new: "ru_run_id r \<notin> ru_run_id ` set (db_run db)" and db1: "db1 = db\<lparr>db_run := db_run db @ [r]\<rparr>"
    using run_created(2) by (auto simp: insert_run_def split: if_splits)
  show ?thesis
    unfolding projected_def project_emitted [OF run_created(5)] emitted_runs [OF run_created(5)]
    using p run_created(3) by (simp add: db1 load_run_append [OF new] lifecycle_event_def projected_def)
next
  case (run_moved rid cur target fin st Q eid q now now' e)
  have "load_run (finish_attempts Q st now' (move_run rid target fin db)) r =
      map_option (\<lambda>x. if ru_run_id x = rid then x\<lparr>ru_status := target, ru_finished_at := fin\<rparr> else x) (load_run db r)" for r
    by (simp add: load_run_cong [OF finish_attempts_sel(1)] move_run_def load_run_update)
  moreover have "ru_run_id x = r" if "load_run db r = Some x" for r x using load_run_key(2) [OF ok that] .
  ultimately show ?thesis
    unfolding projected_def project_emitted [OF run_moved(8)] emitted_runs [OF run_moved(8)]
    using p run_moved(2) by (auto simp: lifecycle_event_def projected_def option.map_comp comp_def split: option.splits
      intro!: option.map_cong0 dest!: spec)
next
  case (attempt_opened rid cur now aid a)
  then show ?thesis using new_attempt_effect(1) [OF attempt_opened(4)] p by (simp add: projected_def load_run_def)
next
  case (attempts_closed st Q now)
  then show ?thesis using p by (simp add: projected_def load_run_def)
next
  case (session_set rid sess)
  have "map_option ru_status (load_run db' r) = map_option ru_status (load_run db r)" for r
    unfolding session_set by (simp add: load_run_update option.map_comp comp_def if_distrib cong: if_cong)
  then show ?thesis by (intro projected_cong [OF _ _ p]) (simp_all add: session_set update_runs_def)
next
  case (note_logged ev now e)
  then show ?thesis by (intro quiet_event_projected [OF note_logged(2) _ p]) auto
next
  case (raw_logged ev now e)
  then show ?thesis using l by (intro quiet_event_projected [OF raw_logged(2) _ p]) (auto simp: plain_labels_def)
next
  case (result_recorded i)
  then show ?thesis using p by (auto simp: projected_def load_run_def insert_idempotency_record_def split: if_splits)
next
  case (command_accepted c)
  then show ?thesis using p by (auto simp: projected_def load_run_def insert_command_def split: if_splits)
qed (use p in \<open>simp_all add: projected_def load_run_def update_commands_def\<close>)

interpretation projection: stable plain_labels projected
proof unfold_locales
  show "projected empty_ledger" by (simp add: projected_def logged_status_def load_run_def empty_ledger_def)
qed (rule step_projected)

section \<open>One command in flight\<close>

definition single_flight :: "Ledger \<Rightarrow> bool" where
  "single_flight db \<longleftrightarrow> (\<forall>c. length (in_flight_commands db c) \<le> 1)"

definition guarded_labels :: "StepLabel set" where
  "guarded_labels = - {Revive}"

lemma flight_update:
  assumes "\<And>x. command_key (f x) = command_key x"
    and "\<And>x. x \<in> set cs \<Longrightarrow> P x \<Longrightarrow> in_flight (cm_status (f x)) \<Longrightarrow> in_flight (cm_status x)"
  shows "length (filter (\<lambda>x. cm_conversation_id x = c \<and> in_flight (cm_status x)) (update_where P f cs)) \<le>
    length (filter (\<lambda>x. cm_conversation_id x = c \<and> in_flight (cm_status x)) cs)"
  using assms(2)
proof (induction cs)
  case (Cons x cs)
  have "cm_conversation_id (f x) = cm_conversation_id x" using assms(1) [of x] by (simp add: command_key_def)
  with Cons show ?case by (simp add: update_where_def le_SucI)
qed (simp add: update_where_def)

lemma step_single_flight:
  assumes ok: "ledger_ok db" and s: "ledger_step l db db'" and l: "l \<in> guarded_labels" and p: "single_flight db"
  shows "single_flight db'"
proof -
  have same: ?thesis if "db_command db' = db_command db"
    using p that by (simp add: single_flight_def in_flight_commands_def)
  have emit: "db_command d' = db_command d" if "emit_event ev now d = Inr (e, d')" for ev now d e d'
    using emit_event_effect(1) [OF that] by simp
  show ?thesis
    using s
  proof cases
    case (command_accepted c)
    have db': "db_command db' = db_command db @ [c]"
      using command_accepted(2) by (auto simp: insert_command_def split: if_splits)
    show ?thesis
      unfolding single_flight_def
    proof
      fix d
      show "length (in_flight_commands db' d) \<le> 1"
        using p command_accepted(4)
        by (cases "d = cm_conversation_id c") (simp_all add: single_flight_def in_flight_commands_def db')
    qed
  next
    case (command_updated f P)
    show ?thesis
      unfolding single_flight_def command_updated(2)
    proof
      fix d
      have "length (in_flight_commands (update_commands P f db) d) \<le> length (in_flight_commands db d)"
        unfolding in_flight_commands_def update_commands_def
        using flight_update [of f "db_command db" P d] command_updated(3,4) by simp
      with p show "length (in_flight_commands (update_commands P f db) d) \<le> 1"
        unfolding single_flight_def by (meson order.trans)
    qed
  next
    case (command_revived f P)
    then show ?thesis using l by (simp add: guarded_labels_def)
  next
    case (attempts_closed st Q now)
    then show ?thesis by (intro same) simp
  next
    case (session_set rid sess)
    then show ?thesis by (intro same) (simp add: update_runs_def)
  qed (auto simp: insert_conversation_def insert_run_def insert_idempotency_record_def
      new_attempt_def insert_attempt_def Let_def dest!: emit split: if_splits intro!: same)
qed

interpretation flight: stable guarded_labels single_flight
proof unfold_locales
  show "single_flight empty_ledger" by (simp add: single_flight_def in_flight_commands_def empty_ledger_def)
qed (rule step_single_flight)

end
