(* ===== verification/Ledger_Requests.thy ===== *)
theory Ledger_Requests
  imports Ledger_History
begin

text \<open>
  Requests under an idempotency key. The six writing methods that take a key share one contract, the
  locale \<open>idempotent_request\<close>: look the key up, answer a recorded request by loading its result,
  refuse a recorded key with another digest, otherwise work and record. Proved once from the
  contract: a repeated request, whatever was done in between, changes nothing and returns the entity
  of the first, and the key cannot be reused for a different request.
\<close>

section \<open>The contract\<close>

locale idempotent_request =
  fixes scope :: string and digest :: "'r \<Rightarrow> string" and call :: "'r \<Rightarrow> string \<Rightarrow> 'n \<Rightarrow> 'a tx"
    and fetch :: "Ledger \<Rightarrow> string \<Rightarrow> (LedgerError, 'a) result" and ident :: "'a \<Rightarrow> string"
  assumes on_replay: "replayed scope (Some key) (digest r) db = Inr (Some ref) \<Longrightarrow>
      call r key n db = and_then (fetch db ref) (\<lambda>x. Inr (x, db))"
    and on_conflict: "replayed scope (Some key) (digest r) db = Inl e \<Longrightarrow> call r key n db = Inl e"
    and on_fresh: "replayed scope (Some key) (digest r) db = Inr None \<Longrightarrow> call r key n db = Inr (x, db') \<Longrightarrow>
      \<exists>now. \<lparr>ir_scope = scope, ir_key = key, ir_request_digest = digest r, ir_result_reference = ident x,
             ir_created_at = now\<rparr> \<in> set (db_idempotency_record db')"
    and resolves: "ledger_ok db \<Longrightarrow> result_exists (shape db) scope ref \<Longrightarrow> \<exists>x. fetch db ref = Inr x \<and> ident x = ref"
begin

definition recorded :: "Ledger \<Rightarrow> string \<Rightarrow> string \<Rightarrow> string \<Rightarrow> bool" where
  "recorded db key d ref \<longleftrightarrow> (\<exists>i \<in> set (db_idempotency_record db).
     ir_scope i = scope \<and> ir_key i = key \<and> ir_request_digest i = d \<and> ir_result_reference i = ref)"

lemma recorded_later: "recorded db key d ref \<Longrightarrow> later db db' \<Longrightarrow> recorded db' key d ref"
  by (auto simp: recorded_def later_def prefix_def)

lemma recorded_exists: "recorded db key d ref \<Longrightarrow> ledger_ok db \<Longrightarrow> result_exists (shape db) scope ref"
  by (auto simp: recorded_def ledger_ok_def shape_ok_def refs_ok_def list_all_iff idem_row_ok_def)

lemma recorded_found:
  assumes "recorded db key d ref" "ledger_ok db"
  shows "replayed scope (Some key) d' db =
    (if d' = d then Inr (Some ref) else Inl (IdempotencyConflict scope key))"
proof -
  obtain i where i: "i \<in> set (db_idempotency_record db)" "(ir_scope i, ir_key i) = (scope, key)"
    "ir_request_digest i = d" "ir_result_reference i = ref"
    using assms(1) by (auto simp: recorded_def)
  let ?k = "\<lambda>x. (ir_scope x, ir_key x)"
  obtain j where j: "find (\<lambda>x. ?k x = (scope, key)) (db_idempotency_record db) = Some j"
    using find_key_exists [of "(scope, key)" ?k "db_idempotency_record db"] i(1,2) by force
  have "i = j" using find_key(3) [OF ledger_keys(5) [OF assms(2)] j i(1,2)] .
  with i j show ?thesis by (simp add: replayed_def idem_check_def)
qed

lemma call_records:
  assumes "call r key n db = Inr (x, db')" "ledger_ok db"
  shows "recorded db' key (digest r) (ident x)"
proof (cases "replayed scope (Some key) (digest r) db")
  case (Inl e)
  with on_conflict assms(1) show ?thesis by simp
next
  case (Inr o')
  show ?thesis
  proof (cases o')
    case None
    with Inr have "replayed scope (Some key) (digest r) db = Inr None" by simp
    then obtain now where "\<lparr>ir_scope = scope, ir_key = key, ir_request_digest = digest r,
        ir_result_reference = ident x, ir_created_at = now\<rparr> \<in> set (db_idempotency_record db')"
      using on_fresh assms(1) by blast
    then show ?thesis unfolding recorded_def by (rule bexI [rotated]) simp
  next
    case (Some ref)
    with Inr have rep: "replayed scope (Some key) (digest r) db = Inr (Some ref)" by simp
    then have rec: "recorded db key (digest r) ref"
      by (auto simp: replayed_def idem_check_def recorded_def find_Some_iff split: option.splits if_splits)
    with resolves [OF assms(2)] recorded_exists assms(2) obtain y where "fetch db ref = Inr y" "ident y = ref" by blast
    with on_replay [OF rep] assms(1) rec show ?thesis by auto
  qed
qed

theorem repeated:
  assumes "call r key n db = Inr (x, db1)" "ledger_ok db" "later db1 db2" "ledger_ok db2"
  shows "\<exists>y. call r key m db2 = Inr (y, db2) \<and> ident y = ident x"
proof -
  have rec: "recorded db2 key (digest r) (ident x)" using call_records [OF assms(1,2)] recorded_later assms(3) by blast
  obtain y where "fetch db2 (ident x) = Inr y" "ident y = ident x"
    using resolves [OF assms(4)] recorded_exists [OF rec assms(4)] by blast
  moreover have "replayed scope (Some key) (digest r) db2 = Inr (Some (ident x))"
    using recorded_found [OF rec assms(4)] by simp
  ultimately show ?thesis using on_replay by simp
qed

theorem reused:
  assumes "call r key n db = Inr (x, db1)" "ledger_ok db" "later db1 db2" "ledger_ok db2" "digest r' \<noteq> digest r"
  shows "call r' key m db2 = Inl (IdempotencyConflict scope key)"
proof -
  have "recorded db2 key (digest r) (ident x)" using call_records [OF assms(1,2)] recorded_later assms(3) by blast
  from recorded_found [OF this assms(4), of "digest r'"] assms(5) show ?thesis using on_conflict by simp
qed

end

section \<open>The operations that keep it\<close>

lemma record_if_Some:
  assumes "record_if scope (Some key) d ref now db = Inr db'"
  shows "\<exists>at. \<lparr>ir_scope = scope, ir_key = key, ir_request_digest = d, ir_result_reference = ref, ir_created_at = at\<rparr>
    \<in> set (db_idempotency_record db')"
  using assms by (auto simp: record_if_def idem_record_def insert_idempotency_record_def split: if_splits)

lemma find_by_key: "v \<in> k ` set xs \<Longrightarrow> \<exists>y. find (\<lambda>x. k x = v) xs = Some y \<and> k y = v"
  using find_key_exists [of v k xs] by (auto simp: find_Some_iff)

lemma conversation_resolves:
  "result_exists (shape db) SCOPE_CREATE_CONVERSATION ref \<Longrightarrow>
   \<exists>x. ok_or (load_conversation db ref) (NotFound (''conversation '' @ ref)) = Inr x \<and> co_conversation_id x = ref"
  using find_by_key [of ref co_conversation_id "db_conversation db"]
  by (auto simp: result_exists_def scope_defs load_conversation_def)

lemma run_resolves:
  "result_exists (shape db) scope ref \<Longrightarrow> scope \<in> {SCOPE_CREATE_RUN, SCOPE_CREATE_RUN_WITH_ID} \<Longrightarrow>
   \<exists>x. ok_or (load_run db ref) (run_not_found ref) = Inr x \<and> ru_run_id x = ref"
  using find_by_key [of ref ru_run_id "db_run db"]
  by (auto simp: result_exists_def scope_defs load_run_def image_image)

lemma command_resolves:
  "result_exists (shape db) SCOPE_CREATE_COMMAND ref \<Longrightarrow>
   \<exists>x. ok_or (load_command db ref) (command_not_found ref) = Inr x \<and> cm_command_id x = ref"
  using find_by_key [of ref cm_command_id "db_command db"]
  by (auto simp: result_exists_def scope_defs load_command_def image_image)

lemma event_resolves:
  assumes "ledger_ok db" "result_exists (shape db) scope ref"
    "scope \<in> {SCOPE_APPEND_USER_MESSAGE, SCOPE_APPEND_SYSTEM_NOTE}"
  shows "\<exists>x. require_event ref db = Inr x \<and> pe_event_id x = ref"
proof -
  obtain e where e: "find (\<lambda>x. pe_event_id x = ref) (db_event db) = Some e" "pe_event_id e = ref"
    using find_by_key [of ref pe_event_id "db_event db"] assms(2,3)
    by (auto simp: result_exists_def scope_defs)
  then have "e \<in> set (db_event db)" by (auto simp: find_Some_iff in_set_conv_nth)
  with assms(1) have "event_row_ok (shape db) e"
    by (simp add: ledger_ok_def shape_ok_def refs_ok_def list_all_iff)
  with e show ?thesis
    by (auto simp: require_event_def load_event_def persisted_event_from_raw_def event_row_ok_def)
qed

text \<open>A fresh value is a clock reading with the identifiers the call mints.\<close>

interpretation conversation_request: idempotent_request SCOPE_CREATE_CONVERSATION
  "\<lambda>_ :: unit. create_conversation_digest sha" "\<lambda>_ key (now, cid, eid). create_conversation sha (Some key) now cid eid"
  "\<lambda>db ref. ok_or (load_conversation db ref) (NotFound (''conversation '' @ ref))" co_conversation_id
  for sha
  by unfold_locales
    (auto simp: create_conversation_def Let_def dest: conversation_resolves record_if_Some split: prod.splits)

interpretation run_request: idempotent_request SCOPE_CREATE_RUN
  "create_run_digest sha to_vec" "\<lambda>r key (now, rid, eid). create_run sha to_vec r (Some key) now rid eid"
  "\<lambda>db ref. ok_or (load_run db ref) (run_not_found ref)" ru_run_id
  for sha to_vec
  by unfold_locales
    (auto simp: create_run_def create_run_inner_def Let_def dest: run_resolves record_if_Some split: prod.splits)

interpretation run_id_request: idempotent_request SCOPE_CREATE_RUN_WITH_ID
  "\<lambda>(r, run_id). create_run_with_id_digest sha to_vec r run_id"
  "\<lambda>(r, run_id) key (now, rid, eid). create_run_with_id sha to_vec r run_id key now rid eid"
  "\<lambda>db ref. ok_or (load_run db ref) (run_not_found ref)" ru_run_id
  for sha to_vec
  by unfold_locales
    (auto simp: create_run_with_id_def create_run_inner_def Let_def dest: run_resolves record_if_Some split: prod.splits)

interpretation message_request: idempotent_request SCOPE_APPEND_USER_MESSAGE
  "\<lambda>(conv, payload, rid). append_user_message_digest sha to_vec conv payload rid"
  "\<lambda>(conv, payload, rid) key (now, eid). append_user_message sha to_vec conv payload rid (Some key) now eid"
  "\<lambda>db ref. require_event ref db" pe_event_id
  for sha to_vec
  by unfold_locales
    (auto simp: append_user_message_def Let_def dest: event_resolves record_if_Some split: prod.splits)

interpretation note_request: idempotent_request SCOPE_APPEND_SYSTEM_NOTE
  "\<lambda>(conv, rid, aid, payload). append_system_note_digest sha to_vec conv rid aid payload"
  "\<lambda>(conv, rid, aid, payload) key (now, eid). append_system_note sha to_vec conv rid aid payload key now eid"
  "\<lambda>db ref. require_event ref db" pe_event_id
  for sha to_vec
  by unfold_locales
    (auto simp: append_system_note_def Let_def dest: event_resolves record_if_Some split: prod.splits)

interpretation command_request: idempotent_request SCOPE_CREATE_COMMAND
  "create_command_digest sha to_vec" "\<lambda>r key (now, cmid). create_command sha to_vec r key now cmid"
  "\<lambda>db ref. ok_or (load_command db ref) (command_not_found ref)" cm_command_id
  for sha to_vec
  by unfold_locales
    (auto simp: create_command_def Let_def dest: command_resolves record_if_Some split: prod.splits)

end
