(* ===== verification/Ledger_Queries.thy ===== *)
theory Ledger_Queries
  imports Ledger_History "HOL-Library.Product_Lexorder" "HOL-Library.Multiset"
begin

text \<open>
  The reading methods of \<^verbatim>\<open>crates/o7-ledger/src/sqlite.rs\<close>: attempts of a run, the newest-first listings
  of conversations and runs with their cursor, and windows of the event log. The locale \<open>keyset\<close>
  is the contract of a keyset-paginated listing; it shows that the documented way to read a listing
  (call again with \<open>next_before\<close> until a page is empty) ends and returns every row exactly once.
\<close>

section \<open>Attempts\<close>

definition attempt_by_id :: "AttemptId option \<Rightarrow> Ledger \<Rightarrow> (LedgerError, RunAttempt option) result" where
  "attempt_by_id found db = (case found of None \<Rightarrow> Inr None | Some aid \<Rightarrow> load_attempt db aid)"

definition running_attempt :: "LedgerRunId \<Rightarrow> Ledger \<Rightarrow> (LedgerError, RunAttempt option) result" where
  "running_attempt rid db =
     attempt_by_id (map_option at_attempt_id
       (find (\<lambda>x. at_run_id x = rid \<and> at_status x = AS_Running) (db_run_attempt db))) db"

definition latest_attempt :: "LedgerRunId \<Rightarrow> Ledger \<Rightarrow> (LedgerError, RunAttempt option) result" where
  "latest_attempt rid db =
     attempt_by_id (map_option at_attempt_id (latest_by_number (attempts_of db rid))) db"

section \<open>Listings\<close>

definition MAX_READ_LIMIT :: nat where
  "MAX_READ_LIMIT = 1000"

definition MAX_LIST_LIMIT :: nat where
  "MAX_LIST_LIMIT = 200"

text \<open>\<^verbatim>\<open>created_at < ?1 OR (created_at = ?1 AND rowid < ?2)\<close>, vacuous without a cursor.\<close>

fun before_cursor :: "ListCursor option \<Rightarrow> int \<times> int \<Rightarrow> bool" where
  "before_cursor None (t, n) \<longleftrightarrow> True"
| "before_cursor (Some c) (t, n) \<longleftrightarrow> t < lc_created_at c \<or> t = lc_created_at c \<and> n < lc_tiebreak c"

text \<open>The rows of a table with their \<^verbatim>\<open>(created_at, rowid)\<close>, in \<^verbatim>\<open>ORDER BY created_at DESC, rowid DESC\<close>.\<close>

definition keyed_rows :: "('a \<Rightarrow> int) \<Rightarrow> 'a list \<Rightarrow> ((int \<times> int) \<times> 'a) list" where
  "keyed_rows created rows = map (\<lambda>(n, x). ((created x, n), x)) (zip [1..int (length rows)] rows)"

definition newest_first :: "((int \<times> int) \<times> 'a) list \<Rightarrow> ((int \<times> int) \<times> 'a) list" where
  "newest_first xs = rev (sort_key fst xs)"

definition cursor_of :: "int \<times> int \<Rightarrow> ListCursor" where
  "cursor_of k = \<lparr>lc_created_at = fst k, lc_tiebreak = snd k\<rparr>"

definition page_of :: "((int \<times> int) \<times> 'a) list \<Rightarrow> 'a Page" where
  "page_of rows =
     \<lparr>pg_items = map snd rows, pg_next_before = (if rows = [] then None else Some (cursor_of (fst (last rows))))\<rparr>"

definition list_conversations :: "ListCursor option \<Rightarrow> nat \<Rightarrow> Ledger \<Rightarrow> Conversation Page" where
  "list_conversations before limit db =
     (let capped = min limit MAX_LIST_LIMIT in
      page_of (take capped (newest_first (filter (\<lambda>r. before_cursor before (fst r))
        (keyed_rows co_created_at (db_conversation db))))))"

definition run_matches :: "ConversationId option \<Rightarrow> RunStatus list option \<Rightarrow> Run \<Rightarrow> bool" where
  "run_matches conv statuses r \<longleftrightarrow>
     (case conv of None \<Rightarrow> True | Some c \<Rightarrow> ru_conversation_id r = c)
     \<and> (case statuses of None \<Rightarrow> True | Some ss \<Rightarrow> ru_status r \<in> set ss)"

definition list_runs ::
  "ConversationId option \<Rightarrow> RunStatus list option \<Rightarrow> ListCursor option \<Rightarrow> nat \<Rightarrow> Ledger \<Rightarrow> Run Page" where
  "list_runs conv statuses before limit db =
     (let capped = min limit MAX_LIST_LIMIT in
      page_of (take capped (newest_first (filter (\<lambda>r. run_matches conv statuses (snd r) \<and> before_cursor before (fst r))
        (keyed_rows ru_created_at (db_run db))))))"

text \<open>The reader of a listing, in the documented manner: until a page is empty. \<open>None\<close> is a reader out of fuel.\<close>

fun drain :: "nat \<Rightarrow> (ListCursor option \<Rightarrow> 'a Page) \<Rightarrow> ListCursor option \<Rightarrow> 'a list option" where
  "drain 0 page before = None"
| "drain (Suc fuel) page before =
     (case pg_next_before (page before) of
        None \<Rightarrow> Some []
      | Some c \<Rightarrow> map_option ((@) (pg_items (page before))) (drain fuel page (Some c)))"

section \<open>Events\<close>

definition read_events ::
  "ConversationId \<Rightarrow> nat option \<Rightarrow> nat \<Rightarrow> Ledger \<Rightarrow> (LedgerError, PersistedEvent list) result" where
  "read_events conv after_sequence limit db =
     (let capped = min limit MAX_READ_LIMIT;
          after = min (int (case after_sequence of None \<Rightarrow> 0 | Some n \<Rightarrow> n)) i64_max;
          rows = take capped (sort_key pe_sequence
            (filter (\<lambda>e. pe_conversation_id e = conv \<and> pe_sequence e > after) (db_event db))) in
      try_fold (\<lambda>out row. and_then (persisted_event_from_raw row) (\<lambda>e. Inr (out @ [e]))) [] rows)"

section \<open>Draining a listing\<close>

locale keyset =
  fixes rows :: "((int \<times> int) \<times> 'a) list" and cap :: nat and page :: "ListCursor option \<Rightarrow> 'a Page"
  assumes ordered: "sorted_wrt (\<lambda>x y. fst y < fst x) rows"
    and page: "page before = page_of (take cap (filter (\<lambda>r. before_cursor before (fst r)) rows))"
begin

lemma before_cursor_of [simp]: "before_cursor (Some (cursor_of k)) k' \<longleftrightarrow> k' < k"
  by (cases k; cases k') (auto simp: cursor_of_def)

lemma before_none [simp]: "before_cursor None k"
  by (cases k) simp

lemma cut_after:
  "sorted_wrt (\<lambda>x y. fst y < fst x) (xs @ y # ys) \<Longrightarrow>
   filter (\<lambda>r. before_cursor (Some (cursor_of (fst y))) (fst r)) (xs @ y # ys) = ys"
  by (auto simp: sorted_wrt_append filter_empty_conv filter_id_conv)

lemma drain_rest:
  assumes "0 < cap" "filter (\<lambda>r. before_cursor before (fst r)) rows = rest" "rows = front @ rest" "length rest < fuel"
  shows "drain fuel page before = Some (map snd rest)"
  using assms
proof (induction fuel arbitrary: before front rest)
  case (Suc fuel)
  show ?case
  proof (cases rest)
    case Nil
    with Suc.prems show ?thesis by (simp add: page page_of_def)
  next
    case (Cons r rs)
    let ?here = "take cap rest"
    have ne: "?here \<noteq> []" using Cons Suc.prems(1) by simp
    then have here: "?here = butlast ?here @ [last ?here]" by simp
    let ?c = "cursor_of (fst (last ?here))"
    have split: "rows = (front @ butlast ?here) @ last ?here # drop cap rest"
      using Suc.prems(3) here append_take_drop_id [of cap rest] by (metis append.assoc append_Cons append_Nil)
    have "drain fuel page (Some ?c) = Some (map snd (drop cap rest))"
    proof (rule Suc.IH)
      show "filter (\<lambda>r. before_cursor (Some ?c) (fst r)) rows = drop cap rest"
        using cut_after [of "front @ butlast ?here" "last ?here" "drop cap rest"] ordered split by simp
      show "rows = (front @ ?here) @ drop cap rest" using Suc.prems(3) by simp
      show "length (drop cap rest) < fuel" using Suc.prems(1,4) Cons by simp
    qed (use Suc.prems in simp)
    moreover have "page before = page_of ?here" using Suc.prems(2) by (simp add: page)
    ultimately show ?thesis
      using ne append_take_drop_id [of cap rest] by (simp add: page_of_def flip: map_append)
  qed
qed simp

theorem drained: "0 < cap \<Longrightarrow> length rows < fuel \<Longrightarrow> drain fuel page None = Some (map snd rows)"
  using drain_rest [of None rows "[]" fuel] by (simp add: filter_id_conv)

end

lemma newest_first_filter: "newest_first (filter P xs) = filter P (newest_first xs)"
  unfolding newest_first_def filter_sort [symmetric] rev_filter ..

lemma keyed_distinct: "distinct (map fst (keyed_rows created rows))"
proof -
  have "distinct (map snd (map fst (keyed_rows created rows)))"
    by (simp add: keyed_rows_def comp_def case_prod_unfold flip: map_map)
      (simp add: comp_def)
  then show ?thesis by (simp only: distinct_map)
qed

lemma newest_first_ordered: "sorted_wrt (\<lambda>x y. fst y < fst x) (newest_first (filter P (keyed_rows created rows)))"
proof -
  let ?xs = "filter P (keyed_rows created rows)"
  have "distinct (map fst ?xs)" using keyed_distinct by (rule distinct_map_filter)
  then have "distinct (map fst (sort_key fst ?xs))"
    by (metis distinct_sort mset_map mset_sort distinct_count_atmost_1 mset_eq_imp_distinct_iff)
  moreover have "sorted (map fst (sort_key fst ?xs))" by simp
  ultimately have "sorted_wrt (<) (map fst (sort_key fst ?xs))" by (simp add: strict_sorted_iff)
  then show ?thesis by (simp add: newest_first_def sorted_wrt_rev sorted_wrt_map)
qed

lemma mset_newest_first: "mset (map snd (newest_first xs)) = mset (map snd xs)"
  by (simp add: newest_first_def rev_map)

lemma keyed_rows_snd: "map snd (filter (\<lambda>r. P (snd r)) (keyed_rows created rows)) = filter P rows"
proof -
  have "map snd (filter (\<lambda>r. P (snd r)) xs) = filter P (map snd xs)" for xs :: "((int \<times> int) \<times> 'a) list"
    by (simp add: filter_map comp_def)
  moreover have "map snd (keyed_rows created rows) = rows"
    by (simp add: keyed_rows_def comp_def case_prod_unfold)
  ultimately show ?thesis by simp
qed

interpretation conversation_list: keyset "newest_first (keyed_rows co_created_at (db_conversation db))"
  "min limit MAX_LIST_LIMIT" "\<lambda>before. list_conversations before limit db"
  for db limit
proof unfold_locales
  show "sorted_wrt (\<lambda>x y. fst y < fst x) (newest_first (keyed_rows co_created_at (db_conversation db)))"
    using newest_first_ordered [where P = "\<lambda>_. True"] by simp
qed (simp add: list_conversations_def Let_def newest_first_filter)

interpretation run_list: keyset
  "newest_first (filter (\<lambda>r. run_matches conv statuses (snd r)) (keyed_rows ru_created_at (db_run db)))"
  "min limit MAX_LIST_LIMIT" "\<lambda>before. list_runs conv statuses before limit db"
  for db limit conv statuses
proof unfold_locales
  show "list_runs conv statuses before limit db =
      page_of (take (min limit MAX_LIST_LIMIT) (filter (\<lambda>r. before_cursor before (fst r))
        (newest_first (filter (\<lambda>r. run_matches conv statuses (snd r)) (keyed_rows ru_created_at (db_run db))))))" for before
    by (simp add: list_runs_def Let_def newest_first_filter conj_commute)
qed (rule newest_first_ordered)

section \<open>The event log in windows\<close>

definition sequences_bounded :: "Ledger \<Rightarrow> bool" where
  "sequences_bounded db \<longleftrightarrow> (\<forall>e \<in> set (db_event db). pe_sequence e \<le> i64_max)"

lemma emit_bounded: "emit_event ev now db = Inr (e, db') \<Longrightarrow> sequences_bounded db \<Longrightarrow> sequences_bounded db'"
  by (auto simp: emit_event_def insert_event_def Let_def sequences_bounded_def split: if_splits)

lemma bounded_cong: "db_event db' = db_event db \<Longrightarrow> sequences_bounded db \<Longrightarrow> sequences_bounded db'"
  by (simp add: sequences_bounded_def)

lemma step_bounded:
  assumes "ledger_step l db db'" "sequences_bounded db"
  shows "sequences_bounded db'"
  using assms(1)
proof cases
  case (conversation_created c db1 eid q now e)
  then show ?thesis
    using emit_bounded [OF conversation_created(3)] assms(2)
    by (auto simp: insert_conversation_def sequences_bounded_def split: if_splits)
next
  case (run_created r db1 eid q now e)
  then show ?thesis
    using emit_bounded [OF run_created(5)] assms(2)
    by (auto simp: insert_run_def sequences_bounded_def split: if_splits)
next
  case (run_moved rid cur target fin st Q eid q now now' e)
  then show ?thesis using emit_bounded [OF run_moved(8)] assms(2) by (simp add: sequences_bounded_def)
next
  case (attempt_opened rid cur now aid a)
  then show ?thesis using new_attempt_effect(1) [OF attempt_opened(4)] assms(2) by (simp add: sequences_bounded_def)
qed (use assms(2) emit_bounded in \<open>auto simp: update_runs_def update_commands_def insert_idempotency_record_def
    insert_command_def sequences_bounded_def split: if_splits\<close>)

interpretation sequence_bound: stable UNIV sequences_bounded
proof unfold_locales
  show "sequences_bounded empty_ledger" by (simp add: sequences_bounded_def empty_ledger_def)
qed (rule step_bounded)

lemma try_fold_collect:
  "(\<And>x. x \<in> set xs \<Longrightarrow> f x = Inr x) \<Longrightarrow>
   try_fold (\<lambda>out row. and_then (f row) (\<lambda>e. Inr (out @ [e]))) acc xs = Inr (acc @ xs)"
  by (induction xs arbitrary: acc) simp_all

lemma filter_above_upto:
  "map g xs = [1..int (length xs)] \<Longrightarrow> 0 \<le> n \<Longrightarrow> filter (\<lambda>x. g x > n) xs = drop (nat n) xs"
proof (induction xs rule: rev_induct)
  case (snoc x xs)
  have "[1..int (length xs) + 1] = [1..int (length xs)] @ [int (length xs) + 1]" by (rule upto_snoc) simp
  with snoc.prems(1) have "map g xs = [1..int (length xs)]" "g x = int (length xs) + 1"
    by (simp_all add: add.commute)
  with snoc show ?case by (auto simp: nat_le_iff)
qed simp

lemma read_events_window:
  assumes "ledger_ok db" "sequences_bounded db"
  shows "read_events conv after limit db =
    Inr (take (min limit MAX_READ_LIMIT)
      (drop (case after of None \<Rightarrow> 0 | Some n \<Rightarrow> n) (events_in conv (db_event db))))"
proof -
  define es where "es = events_in conv (db_event db)"
  define n where "n = (case after of None \<Rightarrow> 0 | Some n \<Rightarrow> n)"
  have seq: "map pe_sequence es = [1..int (length es)]"
    using assms(1) by (simp add: ledger_ok_def shape_ok_def sequences_ok_def es_def)
  have below: "int (length es) \<le> i64_max"
  proof (cases "es = []")
    case False
    then have "pe_sequence (last es) = int (length es)"
      using arg_cong [OF seq, of "\<lambda>l. l ! (length es - 1)"] by (simp add: last_conv_nth of_nat_diff nth_upto Suc_leI)
    moreover have "last es \<in> set (db_event db)" using False last_in_set [of es] by (simp add: es_def events_in_def)
    ultimately show ?thesis using assms(2) by (metis sequences_bounded_def)
  qed (simp add: i64_max_def)
  have "filter (\<lambda>e. pe_conversation_id e = conv \<and> pe_sequence e > min (int n) i64_max) (db_event db) =
      filter (\<lambda>e. pe_sequence e > min (int n) i64_max) es"
    by (simp add: es_def events_in_def conj_commute)
  also have "\<dots> = drop (nat (min (int n) i64_max)) es" by (rule filter_above_upto [OF seq]) (simp add: i64_max_def)
  also have "\<dots> = drop n es" using below by (cases "int n \<le> i64_max") (auto simp: min_def)
  finally have rows: "filter (\<lambda>e. pe_conversation_id e = conv \<and> pe_sequence e > min (int n) i64_max) (db_event db) = drop n es" .
  have "sorted (map pe_sequence (drop n es))" by (simp add: seq flip: drop_map)
  then have sort: "sort_key pe_sequence (drop n es) = drop n es" by (rule sort_key_id_if_sorted)
  have "persisted_event_from_raw e = Inr e" if "e \<in> set (take m (drop n es))" for e m
  proof -
    have "e \<in> set (db_event db)"
      using that by (auto simp: es_def events_in_def dest!: in_set_takeD in_set_dropD)
    then have "event_row_ok (shape db) e"
      using assms(1) by (simp add: ledger_ok_def shape_ok_def refs_ok_def list_all_iff)
    then show ?thesis by (simp add: persisted_event_from_raw_def event_row_ok_def)
  qed
  then show ?thesis
    unfolding read_events_def Let_def n_def [symmetric] es_def [symmetric] rows sort
    using try_fold_collect [of _ persisted_event_from_raw "[]"] by simp
qed

section \<open>The latest attempt\<close>

lemma latest_is_last:
  "sorted_wrt (<) (map at_attempt_number as) \<Longrightarrow> latest_by_number as = (if as = [] then None else Some (last as))"
  by (induction as) auto

end
