(* ===== verification/Ledger_Recovery.thy ===== *)
theory Ledger_Recovery
  imports Ledger_History
begin

text \<open>
  Recovery after a crash and the reconciliation of commands: the loops of \<open>mark_interrupted\<close> and
  \<open>reconcile_completed_commands\<close> run to the end on every well-formed ledger, and do what one bulk
  update would do. The acceptance of a command and the claim of a stale one are characterised here too.
\<close>

section \<open>Emitting succeeds\<close>

lemma sequence_below: "sequences_ok es \<Longrightarrow> e \<in> set es \<Longrightarrow> pe_sequence e \<le> int (length (events_in (pe_conversation_id e) es))"
proof -
  assume a: "sequences_ok es" "e \<in> set es"
  let ?c = "pe_conversation_id e"
  have "pe_sequence e \<in> set (map pe_sequence (events_in ?c es))" using a(2) by (auto simp: events_in_def)
  then show ?thesis using a(1) unfolding sequences_ok_def by (metis atLeastAtMost_iff set_upto)
qed

lemma emit_succeeds:
  assumes ok: "shape_ok (shape db)" and run: "known_run (shape db) rid conv"
    and fresh: "eid \<notin> pe_event_id ` set (db_event db)" and room: "int (length (db_event db)) < i64_max"
  shows "\<exists>e db'. emit_event (lifecycle_event eid conv (Some rid) ty p) now db = Inr (e, db')"
proof -
  have seq: "sequences_ok (db_event db)" using ok by (simp add: shape_ok_def)
  let ?n = "int (length (events_in conv (db_event db)))"
  have n: "coalesce_max (map pe_sequence (filter (\<lambda>x. pe_conversation_id x = conv) (db_event db))) = ?n"
    by (rule next_sequence [OF seq])
  have "length (events_in conv (db_event db)) \<le> length (db_event db)" by (simp add: events_in_def)
  with room have "?n < i64_max" by linarith
  moreover have "has_conversation db conv"
  proof -
    obtain p where "(rid, conv, p) \<in> set (sh_runs (shape db))" using run by (auto simp: known_run_def)
    then have "run_row_ok (shape db) (rid, conv, p)" using ok unfolding shape_ok_def refs_ok_def list_all_iff by blast
    then show ?thesis by (simp add: has_conversation_iff)
  qed
  moreover have "has_run_in (db_run db) conv rid" using run by (auto simp: known_run_shape has_run_in_def)
  moreover have "\<forall>x \<in> set (db_event db). pe_event_id x \<noteq> eid \<and> \<not> (pe_conversation_id x = conv \<and> pe_sequence x = ?n + 1)"
    using fresh sequence_below [OF seq] by (metis add_le_same_cancel1 image_eqI not_one_le_zero)
  ultimately show ?thesis
    by (auto simp: emit_event_def lifecycle_event_def Let_def n insert_event_def)
qed

section \<open>Interrupting what was running\<close>

lemma interrupt_one_succeeds:
  assumes ok: "ledger_ok db" and cur: "load_run db rid = Some cur" "ru_status cur = RS_Running"
    and fresh: "eid \<notin> pe_event_id ` set (db_event db)" and room: "int (length (db_event db)) < i64_max"
  shows "\<exists>db' e. interrupt_one db (rid, now, eid) = Inr db' \<and> db_event db' = db_event db @ [e] \<and> pe_event_id e = eid
    \<and> db_run db' = update_where (\<lambda>x. ru_run_id x = rid) (\<lambda>x. x\<lparr>ru_status := RS_Interrupted\<rparr>) (db_run db)"
proof -
  let ?db2 = "close_attempts rid AS_Interrupted now
    (update_runs (\<lambda>x. ru_run_id x = rid) (\<lambda>x. x\<lparr>ru_status := RS_Interrupted\<rparr>) db)"
  have shape: "shape ?db2 = shape db" by (simp add: shape_update_runs run_key_def)
  have ev: "db_event ?db2 = db_event db" by (simp add: close_attempts_def update_attempts_def update_runs_def)
  have "known_run (shape db) rid (ru_conversation_id cur)"
    using load_run_key(1,2) [OF ok cur(1)] by (auto simp: known_run_shape)
  then obtain e db' where e: "emit_event (lifecycle_event eid (ru_conversation_id cur) (Some rid) ET_RunInterrupted
      (JObj [(''reason'', JStr ''recovery'')])) now ?db2 = Inr (e, db')"
    using emit_succeeds [of ?db2 rid "ru_conversation_id cur" eid ET_RunInterrupted _ now] ok fresh room
    unfolding shape ev ledger_ok_def by blast
  then have "interrupt_one db (rid, now, eid) = Inr db'"
    using cur by (simp add: interrupt_one_def validate_run_transition_def run_transition_allowed_def Let_def)
  moreover have "db_run ?db2 = update_where (\<lambda>x. ru_run_id x = rid) (\<lambda>x. x\<lparr>ru_status := RS_Interrupted\<rparr>) (db_run db)"
    by (simp add: close_attempts_def update_attempts_def update_runs_def)
  ultimately show ?thesis using emit_event_effect(1,2) [OF e] ev by (auto simp: lifecycle_event_def)
qed

definition interrupt_rows :: "LedgerRunId set \<Rightarrow> Run list \<Rightarrow> Run list" where
  "interrupt_rows ids = update_where (\<lambda>x. ru_run_id x \<in> ids) (\<lambda>x. x\<lparr>ru_status := RS_Interrupted\<rparr>)"

lemma interrupt_rows_Un: "interrupt_rows B (interrupt_rows A rs) = interrupt_rows (A \<union> B) rs"
  by (simp add: interrupt_rows_def update_where_def)

lemma load_interrupted:
  "db_run db' = interrupt_rows A (db_run db) \<Longrightarrow> rid \<notin> A \<Longrightarrow> load_run db rid = Some cur \<Longrightarrow> load_run db' rid = Some cur"
  by (auto simp: load_run_def interrupt_rows_def find_update find_Some_iff)

lemma interrupt_runs_succeed:
  assumes "ledger_ok db" "distinct (map fst runs)" "distinct (map (snd \<circ> snd) runs)"
    and "\<forall>x \<in> set runs. \<exists>cur. load_run db (fst x) = Some cur \<and> ru_status cur = RS_Running"
    and "\<forall>x \<in> set runs. snd (snd x) \<notin> pe_event_id ` set (db_event db)"
    and "int (length (db_event db) + length runs) < i64_max"
  shows "\<exists>db'. try_fold interrupt_one db runs = Inr db' \<and> db_run db' = interrupt_rows (fst ` set runs) (db_run db)"
  using assms
proof (induction runs arbitrary: db)
  case Nil
  then show ?case by (simp add: interrupt_rows_def update_where_def)
next
  case (Cons x runs)
  obtain rid now eid where x: "x = (rid, now, eid)" by (cases x)
  obtain cur where cur: "load_run db rid = Some cur" "ru_status cur = RS_Running" using Cons.prems(4) x by auto
  obtain db1 e where one: "interrupt_one db (rid, now, eid) = Inr db1" "db_event db1 = db_event db @ [e]" "pe_event_id e = eid"
    and runs1: "db_run db1 = interrupt_rows {rid} (db_run db)"
    using interrupt_one_succeeds [OF Cons.prems(1) cur, of eid now] Cons.prems(5,6) x by (auto simp: interrupt_rows_def)
  have ok1: "ledger_ok db1" using steps_keep_ok [OF interrupt_one_steps [OF one(1)]] Cons.prems(1) by blast
  have "\<exists>cur. load_run db1 (fst y) = Some cur \<and> ru_status cur = RS_Running" if "y \<in> set runs" for y
    using Cons.prems(2,4) that x load_interrupted [OF runs1, of "fst y"] by (metis fst_conv image_eqI list.set_intros(2)
      distinct.simps(2) list.simps(9) set_map singletonD)
  moreover have "\<forall>y \<in> set runs. snd (snd y) \<notin> pe_event_id ` set (db_event db1)"
    using Cons.prems(3,5) x one(2,3) by (auto simp: image_iff)
  ultimately obtain db' where "try_fold interrupt_one db1 runs = Inr db'" "db_run db' = interrupt_rows (fst ` set runs) (db_run db1)"
    using Cons.IH [OF ok1] Cons.prems(2,3,6) one(2) by auto
  then show ?case using one(1) x by (auto simp: runs1 interrupt_rows_Un)
qed

lemma interrupt_attempts_idle:
  assumes "\<And>x. x \<in> set attempts \<Longrightarrow> \<exists>a. require_attempt (fst x) db = Inr a \<and> at_status a \<noteq> AS_Running"
  shows "try_fold interrupt_attempt db attempts = Inr db"
  using assms
proof (induction attempts)
  case (Cons x attempts)
  then obtain a where "require_attempt (fst x) db = Inr a" "at_status a \<noteq> AS_Running" by fastforce
  with Cons show ?case by (cases x) (simp add: interrupt_attempt_def)
qed simp

lemma require_attempt_in:
  assumes "ledger_ok db" "aid \<in> at_attempt_id ` set (db_run_attempt db)"
  shows "\<exists>a \<in> set (db_run_attempt db). require_attempt aid db = Inr a"
proof -
  obtain a where a: "find (\<lambda>x. at_attempt_id x = aid) (db_run_attempt db) = Some a"
    using find_key_exists [OF assms(2)] by blast
  then have mem: "a \<in> set (db_run_attempt db)" by (auto simp: find_Some_iff in_set_conv_nth)
  then have "attempt_row_ok (shape db) (attempt_key a)"
    using assms(1) by (simp add: ledger_ok_def shape_ok_def refs_ok_def list_all_iff)
  then have "require_attempt aid db = Inr a"
    using a by (auto simp: require_attempt_def load_attempt_def attempt_key_def)
  with mem show ?thesis by blast
qed

lemma later_attempts: "later db db' \<Longrightarrow> at_attempt_id ` set (db_run_attempt db) \<subseteq> at_attempt_id ` set (db_run_attempt db')"
proof
  fix aid assume "later db db'" and "aid \<in> at_attempt_id ` set (db_run_attempt db)"
  then obtain a b where "at_attempt_id a = aid" "b \<in> set (db_run_attempt db')" "attempt_later a b"
    unfolding later_def using keeps_in [of attempt_later] by blast
  moreover from this(3) have "at_attempt_id b = at_attempt_id a" by (simp add: attempt_later_def attempt_key_def)
  ultimately show "aid \<in> at_attempt_id ` set (db_run_attempt db')" by (metis image_eqI)
qed

theorem recovery_succeeds:
  assumes ok: "ledger_ok db" and runs: "map fst runs = rs_interrupted_runs (recover_scan db)"
    and atts: "map fst attempts = rs_interrupted_attempts (recover_scan db)"
    and eids: "distinct (map (snd \<circ> snd) runs)" "\<forall>x \<in> set runs. snd (snd x) \<notin> pe_event_id ` set (db_event db)"
    and room: "int (length (db_event db) + length runs) < i64_max"
  shows "\<exists>db'. mark_interrupted runs attempts db = Inr ((), db')
    \<and> db_run db' = update_where (\<lambda>x. ru_status x = RS_Running) (\<lambda>x. x\<lparr>ru_status := RS_Interrupted\<rparr>) (db_run db)
    \<and> recover_scan db' = \<lparr>rs_interrupted_runs = [], rs_interrupted_attempts = []\<rparr>"
proof -
  let ?run = "\<lambda>x. ru_status x = RS_Running"
  have ids: "map fst runs = map ru_run_id (filter ?run (db_run db))" using runs by (simp add: recover_scan_def)
  have "distinct (map fst runs)" unfolding ids by (rule distinct_map_filter [OF ledger_keys(2) [OF ok]])
  moreover have "\<exists>cur. load_run db (fst y) = Some cur \<and> ru_status cur = RS_Running" if "y \<in> set runs" for y
  proof -
    have "fst y \<in> set (map ru_run_id (filter ?run (db_run db)))" unfolding ids [symmetric] using that by simp
    then obtain r where r: "r \<in> set (db_run db)" "ru_status r = RS_Running" "ru_run_id r = fst y" by auto
    then obtain cur where "load_run db (fst y) = Some cur" using find_key_exists [of "fst y" ru_run_id] by (force simp: load_run_def)
    with load_run_key(3) [OF ok this r(1,3)] r(2) show ?thesis by blast
  qed
  ultimately obtain db' where fold: "try_fold interrupt_one db runs = Inr db'" "db_run db' = interrupt_rows (fst ` set runs) (db_run db)"
    using interrupt_runs_succeed [OF ok _ eids(1) _ eids(2) room] by blast
  have "ru_run_id x \<in> fst ` set runs \<longleftrightarrow> ru_status x = RS_Running" if "x \<in> set (db_run db)" for x
  proof -
    have "fst ` set runs = set (map ru_run_id (filter ?run (db_run db)))" unfolding ids [symmetric] by simp
    then show ?thesis using that ledger_keys(2) [OF ok] by (auto simp: distinct_map inj_on_def)
  qed
  then have moved: "db_run db' = update_where ?run (\<lambda>x. x\<lparr>ru_status := RS_Interrupted\<rparr>) (db_run db)"
    unfolding fold(2) interrupt_rows_def update_where_def by (intro map_cong) auto
  have s: "steps {Ordinary} db db'"
  proof (rule try_fold_steps [OF _ fold(1) ok])
    show "steps {Ordinary} a b" if "interrupt_one a x = Inr b" "ledger_ok a" for a x b
      using that interrupt_one_steps by (cases x) blast
  qed
  have ok': "ledger_ok db'" using steps_keep_ok [OF s ok] .
  have none: "\<not> run_running db' r" for r by (auto simp: run_running_def moved set_update_where)
  then have idle: "at_status a \<noteq> AS_Running" if "a \<in> set (db_run_attempt db')" for a
    using running_attempt_run [OF ok' that] by blast
  have "try_fold interrupt_attempt db' attempts = Inr db'"
  proof (rule interrupt_attempts_idle)
    fix x assume "x \<in> set attempts"
    then have "fst x \<in> set (map fst attempts)" by simp
    then have "fst x \<in> at_attempt_id ` set (db_run_attempt db)" unfolding atts by (auto simp: recover_scan_def)
    then have "fst x \<in> at_attempt_id ` set (db_run_attempt db')"
      using later_attempts growth.over_steps [OF steps_mono [OF s] ok] by blast
    then show "\<exists>a. require_attempt (fst x) db' = Inr a \<and> at_status a \<noteq> AS_Running"
      using require_attempt_in [OF ok'] idle by blast
  qed
  then have "mark_interrupted runs attempts db = Inr ((), db')" using fold(1) by (simp add: mark_interrupted_def)
  moreover have "recover_scan db' = \<lparr>rs_interrupted_runs = [], rs_interrupted_attempts = []\<rparr>"
    using idle none by (simp add: recover_scan_def filter_empty_conv run_running_def)
  ultimately show ?thesis using moved by blast
qed

section \<open>Reconciliation\<close>

definition completed_at :: "int \<Rightarrow> Command \<Rightarrow> Command" where
  "completed_at now c = c\<lparr>cm_status := CS_Completed, cm_updated_at := now\<rparr>"

lemma load_command_update:
  "(\<And>x. cm_command_id (f x) = cm_command_id x) \<Longrightarrow>
   load_command (update_commands P f db) cmid = map_option (\<lambda>x. if P x then f x else x) (load_command db cmid)"
  by (simp add: load_command_def update_commands_def find_update)

lemma load_command_in:
  assumes "distinct (map cm_command_id (db_command db))" "c \<in> set (db_command db)"
  shows "load_command db (cm_command_id c) = Some c"
proof -
  obtain d where d: "load_command db (cm_command_id c) = Some d"
    using find_key_exists [of "cm_command_id c" cm_command_id "db_command db"] assms(2) by (auto simp: load_command_def)
  from find_key(3) [OF assms(1) d [unfolded load_command_def] assms(2)] d show ?thesis by simp
qed

lemma reconcile_fold:
  assumes "distinct (map cm_command_id (db_command db))" "set cs \<subseteq> set (db_command db)" "distinct (map cm_command_id cs)"
  shows "try_fold (reconcile_one now) (acc, db) (map cm_command_id cs) =
    Inr (acc @ map (completed_at now) cs,
         update_commands (\<lambda>x. cm_command_id x \<in> cm_command_id ` set cs) (completed_at now) db)"
  using assms
proof (induction cs arbitrary: acc db)
  case Nil
  then show ?case by (simp add: update_commands_def update_where_def)
next
  case (Cons c cs)
  let ?db1 = "update_commands (\<lambda>x. cm_command_id x = cm_command_id c) (completed_at now) db"
  have upd: "completed_at now = (\<lambda>x. x\<lparr>cm_status := CS_Completed, cm_updated_at := now\<rparr>)"
    by (rule ext) (simp add: completed_at_def)
  have id: "cm_command_id (completed_at now x) = cm_command_id x" for x by (simp add: completed_at_def)
  have "load_command ?db1 (cm_command_id c) = Some (completed_at now c)"
    using load_command_in [OF Cons.prems(1), of c] Cons.prems(2) by (simp add: load_command_update id)
  then have one: "reconcile_one now (acc, db) (cm_command_id c) = Inr (acc @ [completed_at now c], ?db1)"
    by (simp add: reconcile_one_def Let_def upd)
  have keys: "map cm_command_id (db_command ?db1) = map cm_command_id (db_command db)"
    by (simp add: update_commands_def map_update_where id)
  have "x \<in> set (db_command ?db1)" if "x \<in> set cs" for x
  proof -
    have "cm_command_id x \<in> cm_command_id ` set cs" "cm_command_id c \<notin> cm_command_id ` set cs"
      using that Cons.prems(3) by simp_all
    then have "cm_command_id x \<noteq> cm_command_id c" by metis
    moreover have "x \<in> set (db_command db)" using that Cons.prems(2) by auto
    ultimately show ?thesis by (auto simp: update_commands_def set_update_where intro!: exI [of _ x])
  qed
  then have "set cs \<subseteq> set (db_command ?db1)" by blast
  then have rest: "try_fold (reconcile_one now) (acc @ [completed_at now c], ?db1) (map cm_command_id cs) =
      Inr ((acc @ [completed_at now c]) @ map (completed_at now) cs,
           update_commands (\<lambda>x. cm_command_id x \<in> cm_command_id ` set cs) (completed_at now) ?db1)"
    using Cons.IH [of ?db1] Cons.prems(1,3) keys by simp
  have "update_commands (\<lambda>x. cm_command_id x \<in> cm_command_id ` set cs) (completed_at now) ?db1 =
      update_commands (\<lambda>x. cm_command_id x \<in> cm_command_id ` set (c # cs)) (completed_at now) db"
    by (auto simp: update_commands_def update_where_def completed_at_def)
  with rest one show ?case by simp
qed

theorem reconcile_bulk:
  assumes "ledger_ok db"
  shows "reconcile_completed_commands now db =
    Inr (map (completed_at now) (filter (reconcilable db) (db_command db)),
         update_commands (reconcilable db) (completed_at now) db)"
proof -
  let ?cs = "filter (reconcilable db) (db_command db)"
  note keys = ledger_keys(6) [OF assms]
  have "cm_command_id x \<in> cm_command_id ` set ?cs \<longleftrightarrow> reconcilable db x" if "x \<in> set (db_command db)" for x
  proof
    assume "cm_command_id x \<in> cm_command_id ` set ?cs"
    then obtain y where "y \<in> set ?cs" "cm_command_id x = cm_command_id y" by blast
    then show "reconcilable db x" using that keys inj_onD [of cm_command_id "set (db_command db)" x y] by (simp add: distinct_map)
  qed (use that in simp)
  then have "update_commands (\<lambda>x. cm_command_id x \<in> cm_command_id ` set ?cs) (completed_at now) db =
      update_commands (reconcilable db) (completed_at now) db"
    unfolding update_commands_def update_where_def by (intro arg_cong [of _ _ "\<lambda>cs. db\<lparr>db_command := cs\<rparr>"] map_cong) auto
  with reconcile_fold [OF keys, of ?cs now "[]"] distinct_map_filter [OF keys] show ?thesis
    by (simp add: reconcile_completed_commands_def)
qed

section \<open>Acceptance\<close>

lemma sort_key_empty [simp]: "sort_key f xs = [] \<longleftrightarrow> xs = []"
  by (metis length_0_conv length_sort)

lemma newest_run_sort:
  "newest_run rs = (if rs = [] then None else Some (last (sort_key ru_created_at rs)))"
proof (induction rs)
  case (Cons r rs)
  have last: "last (insort_key ru_created_at r xs) =
      (if xs = [] \<or> ru_created_at (last xs) < ru_created_at r then r else last xs)"
    if "sorted (map ru_created_at xs)" for xs
    using that
  proof (induction xs)
    case (Cons x xs)
    then show ?case by (cases xs) (auto simp: not_le)
  qed simp
  show ?case using Cons last [of "sort_key ru_created_at rs"]
    by (auto simp: not_less)
qed simp

definition acceptable :: "NewCommand \<Rightarrow> Ledger \<Rightarrow> bool" where
  "acceptable request db \<longleftrightarrow>
     (let runs = sort_key ru_created_at (conversation_runs db (nc_conversation_id request)) in
      runs \<noteq> [] \<and> ru_run_id (last runs) = nc_parent_run_id request \<and> is_terminal (ru_status (last runs))
      \<and> (case ru_provider_session_id (last runs) of None \<Rightarrow> False | Some s \<Rightarrow> session_valid s)
      \<and> (\<forall>c \<in> set (db_command db). cm_conversation_id c = nc_conversation_id request \<longrightarrow> \<not> in_flight (cm_status c)))"

lemma in_flight_none:
  "in_flight_commands db conv = [] \<longleftrightarrow>
   (\<forall>c \<in> set (db_command db). cm_conversation_id c = conv \<longrightarrow> \<not> in_flight (cm_status c))"
  by (simp add: in_flight_commands_def filter_empty_conv)

lemma load_run_in: "ledger_ok db \<Longrightarrow> r \<in> set (db_run db) \<Longrightarrow> load_run db (ru_run_id r) = Some r"
proof -
  assume a: "ledger_ok db" "r \<in> set (db_run db)"
  obtain d where d: "load_run db (ru_run_id r) = Some d"
    using find_key_exists [of "ru_run_id r" ru_run_id "db_run db"] a(2) by (auto simp: load_run_def)
  from load_run_key(3) [OF a(1) d a(2)] d show ?thesis by simp
qed

lemma run_conversation_loaded:
  assumes "ledger_ok db" "r \<in> set (db_run db)"
  shows "\<exists>c. load_conversation db (ru_conversation_id r) = Some c"
proof -
  have "run_row_ok (shape db) (run_key r)"
    using assms by (simp add: ledger_ok_def shape_ok_def refs_ok_def list_all_iff)
  then have "ru_conversation_id r \<in> co_conversation_id ` set (db_conversation db)" by (simp add: run_key_def)
  then show ?thesis unfolding load_conversation_def by (rule find_key_exists)
qed

theorem acceptance:
  assumes ok: "ledger_ok db"
  shows "check_acceptance request db = Inr () \<longleftrightarrow> acceptable request db"
proof -
  define conv where "conv = nc_conversation_id request"
  define runs where "runs = conversation_runs db conv"
  let ?last = "last (sort_key ru_created_at runs)"
  show ?thesis
  proof (cases "runs = []")
    case True
    have "check_acceptance request db \<noteq> Inr ()"
      using True newest_run_sort [of runs] by (auto simp: check_acceptance_def runs_def conv_def split: if_splits)
    with True show ?thesis by (simp add: acceptable_def Let_def runs_def conv_def)
  next
    case False
    then have "?last \<in> set runs" by (metis last_in_set set_sort sort_key_empty)
    then have l: "?last \<in> set (db_run db)" "ru_conversation_id ?last = conv"
      by (simp_all add: runs_def conversation_runs_def)
    obtain c where c: "load_conversation db conv = Some c" using run_conversation_loaded [OF ok l(1)] l(2) by auto
    have new: "newest_run runs = Some ?last" using False by (simp add: newest_run_sort)
    have load: "load_run db (ru_run_id ?last) = Some ?last" by (rule load_run_in [OF ok l(1)])
    have "check_acceptance request db = Inr () \<longleftrightarrow>
        ru_run_id ?last = nc_parent_run_id request \<and> is_terminal (ru_status ?last)
        \<and> (\<exists>s. ru_provider_session_id ?last = Some s \<and> session_valid s) \<and> in_flight_commands db conv = []"
    proof (cases "ru_run_id ?last = nc_parent_run_id request")
      case True
      then show ?thesis
        using load l(2) c new
        by (auto simp: check_acceptance_def runs_def conv_def split: option.splits if_splits)
    next
      case False
      with c new show ?thesis
        by (auto simp: check_acceptance_def runs_def conv_def split: if_splits)
    qed
    with False show ?thesis by (auto simp: acceptable_def Let_def in_flight_none runs_def conv_def split: option.splits)
  qed
qed

section \<open>Claims on a stale command\<close>

lemma bumped_above: "expected < i64_max \<Longrightarrow> expected < bumped_now now expected"
  by (auto simp: bumped_now_def)

lemma rebound_effect:
  assumes "rebind_command_child_run_if_current cmid old expected fresh now db = Inr (Rebound c, db1)" "ledger_ok db"
  shows "load_command db1 cmid = Some c" "cm_updated_at c = bumped_now now expected" "cm_child_run_id c = Some fresh"
proof -
  let ?P = "\<lambda>x. cm_command_id x = cmid \<and> in_flight (cm_status x) \<and> cm_child_run_id x = Some old
    \<and> cm_updated_at x = expected"
  let ?f = "\<lambda>x. x\<lparr>cm_child_run_id := Some fresh, cm_updated_at := bumped_now now expected\<rparr>"
  obtain cur where cur: "load_command db cmid = Some cur" "in_flight (cm_status cur)" "cm_child_run_id cur = Some old"
    "cm_updated_at cur = expected" and db1: "db1 = update_commands ?P ?f db" and c: "load_command db1 cmid = Some c"
    using assms(1)
    by (auto simp: rebind_command_child_run_if_current_def Let_def split: option.splits if_splits)
  have "cm_command_id cur = cmid" using cur(1) by (auto simp: load_command_def find_Some_iff)
  then have "c = ?f cur" using c cur by (simp add: db1 load_command_update)
  with c show "load_command db1 cmid = Some c" "cm_updated_at c = bumped_now now expected" "cm_child_run_id c = Some fresh"
    by simp_all
qed

lemma claim_effect:
  assumes "claim_stale_command_for_redrive cmid expected now db = Inr (True, db1)" "ledger_ok db"
  shows "\<exists>c. load_command db1 cmid = Some c \<and> cm_updated_at c = bumped_now now expected"
proof -
  let ?P = "\<lambda>x. cm_command_id x = cmid \<and> cm_updated_at x = expected \<and> in_flight (cm_status x)"
  let ?f = "\<lambda>x. x\<lparr>cm_updated_at := bumped_now now expected\<rparr>"
  have one: "changed_rows ?P (db_command db) = 1" and db1: "db1 = update_commands ?P ?f db"
    using assms(1) by (simp_all add: claim_stale_command_for_redrive_def Let_def)
  obtain x where x: "x \<in> set (db_command db)" "?P x"
    using one by (metis (mono_tags, lifting) changed_rows_def filter_empty_conv list.size(3) zero_neq_one)
  then have "load_command db cmid = Some x" using load_command_in [OF ledger_keys(6) [OF assms(2)]] by blast
  then have "load_command db1 cmid = Some (?f x)" using x(2) by (simp add: db1 load_command_update)
  then show ?thesis by simp
qed

end
