(* ===== verification/Ledger_Properties.thy ===== *)
theory Ledger_Properties
  imports Ledger_Requests Ledger_Queries Ledger_Recovery
begin

text \<open>
  The correctness of the ledger, stated over every history of its operations, and the concrete
  histories at which the statements are exercised. Each statement rests on the interpretations of
  the locales in \<open>Ledger_History\<close>, \<open>Ledger_Requests\<close> and \<open>Ledger_Queries\<close> and on the lemmas of
  \<open>Ledger_Recovery\<close>.
\<close>

section \<open>Auxiliary facts\<close>




lemma committed_ok: "ledger_ok db \<Longrightarrow> op_tx sha to_vec op db = Inr db' \<Longrightarrow> ledger_ok db'"
  using op_refines_steps steps_keep_ok by blast


lemma later_history: "later (history sha to_vec ops) (history sha to_vec (ops @ ops'))"
  unfolding history_append by (rule growth.over_execs [OF history_ok]) simp

lemma key_unseen:
  "\<not> command_idempotency_key_seen key db \<Longrightarrow> replayed SCOPE_CREATE_COMMAND (Some key) d db = Inr None"
  by (auto simp: command_idempotency_key_seen_def replayed_def idem_check_def find_Some_iff split: option.splits)

lemma acceptable_parent:
  assumes "acceptable request db"
  shows "has_run_in (db_run db) (nc_conversation_id request) (nc_parent_run_id request)"
proof -
  let ?runs = "conversation_runs db (nc_conversation_id request)"
  have "?runs \<noteq> []" and id: "ru_run_id (last (sort_key ru_created_at ?runs)) = nc_parent_run_id request"
    using assms by (auto simp: acceptable_def Let_def)
  then have "last (sort_key ru_created_at ?runs) \<in> set ?runs" by (metis last_in_set set_sort sort_key_empty)
  with id show ?thesis by (auto simp: has_run_in_def conversation_runs_def)
qed

lemma run_conversation: "ledger_ok db \<Longrightarrow> has_run_in (db_run db) c r \<Longrightarrow> has_conversation db c"
  using run_conversation_loaded
  by (fastforce simp: has_run_in_def has_conversation_def load_conversation_def find_Some_iff)

lemma create_command_fresh:
  assumes ok: "ledger_ok db" and key: "\<not> command_idempotency_key_seen key db"
    and id: "load_command db cmid = None"
  shows "(\<exists>c db'. create_command sha to_vec req key now cmid db = Inr (c, db')) \<longleftrightarrow> acceptable req db"
proof (cases "acceptable req db")
  case True
  then have "check_acceptance req db = Inr ()" using acceptance [OF ok] by simp
  moreover have "has_run_in (db_run db) (nc_conversation_id req) (nc_parent_run_id req)" by (rule acceptable_parent [OF True])
  moreover from run_conversation [OF ok this] have "has_conversation db (nc_conversation_id req)" .
  moreover have "\<forall>x \<in> set (db_command db). cm_command_id x \<noteq> cmid"
    using id by (auto simp: load_command_def find_None_iff)
  ultimately show ?thesis
    using True key
    by (auto simp: create_command_def Let_def key_unseen [OF key] insert_command_def record_if_def idem_record_def
        insert_idempotency_record_def command_idempotency_key_seen_def)
next
  case False
  then have "check_acceptance req db \<noteq> Inr ()" using acceptance [OF ok] by simp
  then obtain e where "check_acceptance req db = Inl e" by (cases "check_acceptance req db") auto
  with False show ?thesis by (simp add: create_command_def Let_def key_unseen [OF key])
qed

lemma update_none: "(\<And>x. x \<in> set (db_command db) \<Longrightarrow> \<not> P x) \<Longrightarrow> update_commands P f db = db \<and> changed_rows P (db_command db) = 0"
proof
  assume none: "\<And>x. x \<in> set (db_command db) \<Longrightarrow> \<not> P x"
  have "map (\<lambda>x. if P x then f x else x) (db_command db) = db_command db" by (rule map_idI) (simp add: none)
  then show "update_commands P f db = db" by (simp add: update_commands_def update_where_def)
qed (simp add: changed_rows_def filter_empty_conv)

text \<open>Once the token of a command has moved on, a claim with the old token changes nothing.\<close>

lemma stale_token:
  assumes ok: "ledger_ok db" and c: "load_command db cmid = Some c" "cm_updated_at c \<noteq> expected"
  shows "claim_stale_command_for_redrive cmid expected now db = Inr (False, db)"
    and "\<exists>o'. rebind_command_child_run_if_current cmid old expected fresh now db = Inr (o', db) \<and> (\<forall>d. o' \<noteq> Rebound d)"
proof -
  have "\<not> (cm_command_id x = cmid \<and> cm_updated_at x = expected \<and> in_flight (cm_status x))" if "x \<in> set (db_command db)" for x
    using find_key(3) [OF ledger_keys(6) [OF ok] c(1) [unfolded load_command_def] that] c(2) by blast
  then show "claim_stale_command_for_redrive cmid expected now db = Inr (False, db)"
    using update_none [of db "\<lambda>x. cm_command_id x = cmid \<and> cm_updated_at x = expected \<and> in_flight (cm_status x)"]
    by (simp add: claim_stale_command_for_redrive_def Let_def)
  show "\<exists>o'. rebind_command_child_run_if_current cmid old expected fresh now db = Inr (o', db) \<and> (\<forall>d. o' \<noteq> Rebound d)"
    using c by (simp add: rebind_command_child_run_if_current_def)
qed

lemma winner_ok:
  "ledger_ok db \<Longrightarrow> rebind_command_child_run_if_current cmid old expected fresh now db = Inr (o', db1) \<Longrightarrow> ledger_ok db1"
  "ledger_ok db \<Longrightarrow> claim_stale_command_for_redrive cmid expected now db = Inr (b, db1) \<Longrightarrow> ledger_ok db1"
  using committed_ok [of db _ _ "RebindIfCurrent cmid old expected fresh now" db1]
    committed_ok [of db _ _ "ClaimStale cmid expected now" db1]
  by (simp_all add: forget_def)

lemma none_reconcilable:
  assumes "db' = update_commands (reconcilable db) (completed_at now) db" "c \<in> set (db_command db')"
  shows "\<not> reconcilable db' c"
proof -
  have runs: "child_run db' x = child_run db x" for x
    by (simp add: assms(1) child_run_def load_run_def update_commands_def split: option.split)
  obtain d where "d \<in> set (db_command db)" "c = (if reconcilable db d then completed_at now d else d)"
    using assms(2) unfolding assms(1) update_commands_def by (auto simp: set_update_where)
  then show ?thesis
    by (cases "reconcilable db d") (simp_all add: reconcilable_def runs completed_at_def in_flight_def)
qed

section \<open>Sample histories\<close>

definition no_sha :: "bytes \<Rightarrow> bytes" where
  "no_sha _ = []"

definition no_json :: "Json \<Rightarrow> bytes" where
  "no_json _ = []"

definition sample_run :: NewRun where
  "sample_run = \<lparr>nr_conversation_id = ''c'', nr_parent_run_id = None, nr_agent = ''a'', nr_role = ''w''\<rparr>"

definition sample_command :: NewCommand where
  "sample_command = \<lparr>nc_conversation_id = ''c'', nc_parent_run_id = ''r'', nc_command_text = ''go''\<rparr>"

definition started_ops :: "Op list" where
  "started_ops =
     [CreateConversation None 1 ''c'' ''e1'', CreateRun sample_run None 2 ''r'' ''e2'',
      StartRun ''r'' 3 ''e3'', CreateAttempt ''r'' 3 ''t'', SetProviderSession ''r'' ''s'']"

definition sample_ops :: "Op list" where
  "sample_ops = started_ops @ [CompleteRun ''r'' 4 ''e4'']"

definition bound_ops :: "Op list" where
  "bound_ops = sample_ops @ [CreateCommand sample_command ''k'' 5 ''m'', BindCommand ''m'' ''r'' 6]"

section \<open>Invariants of histories\<close>

text \<open>
  C12. Every history of ledger operations, in any order and with any arguments, leaves a well-formed
  ledger: keys are unique, every reference resolves, the events of a conversation are numbered
  1, 2, 3, ... without a gap and so are the attempts of a run, a run has a finishing time exactly when
  its status is terminal, at most one attempt of a run is running and only while the run is.
\<close>

theorem ledger_invariant: "ledger_ok (history sha to_vec ops)"
  by (rule history_ok)

text \<open>
  C13. What is in the ledger stays: whatever operations follow, the event log is only extended, and
  every run keeps its row, its status moves only along allowed transitions, and a terminal run keeps
  status and finishing time forever.
\<close>

theorem ledger_history_final:
  "prefix (db_event (history sha to_vec ops)) (db_event (history sha to_vec (ops @ ops')))
   \<and> (\<forall>r \<in> set (db_run (history sha to_vec ops)). \<exists>r' \<in> set (db_run (history sha to_vec (ops @ ops'))).
        ru_run_id r' = ru_run_id r \<and> ru_conversation_id r' = ru_conversation_id r
        \<and> move_ok\<^sup>*\<^sup>* (ru_status r) (ru_status r')
        \<and> (is_terminal (ru_status r) \<longrightarrow> ru_status r' = ru_status r \<and> ru_finished_at r' = ru_finished_at r))"
proof -
  have "\<exists>r' \<in> set (db_run (history sha to_vec (ops @ ops'))). run_later r r'"
    if "r \<in> set (db_run (history sha to_vec ops))" for r
    using keeps_in that later_history unfolding later_def by metis
  with later_history show ?thesis
    unfolding later_def run_later_def run_key_def using terminal_stays by blast
qed

theorem ledger_history_final_witness:
  "\<exists>r \<in> set (db_run (history no_sha no_json (sample_ops @ [FailRun ''r'' 9 ''e9'']))).
     ru_run_id r = ''r'' \<and> ru_status r = RS_Completed \<and> ru_finished_at r = Some 4"
proof -
  have "\<exists>r \<in> set (db_run (history no_sha no_json sample_ops)).
      ru_run_id r = ''r'' \<and> ru_status r = RS_Completed \<and> ru_finished_at r = Some 4" by code_simp
  moreover have "is_terminal RS_Completed" by (simp add: is_terminal_def)
  ultimately show ?thesis
    using ledger_history_final [of no_sha no_json sample_ops "[FailRun ''r'' 9 ''e9'']"] by metis
qed



text \<open>
  C15. A conversation has at most one command in flight, in every history in which
  \<open>bind_command_child_run\<close> is only called on commands that are in flight.
\<close>

theorem single_command_in_flight:
  assumes "permitted sha to_vec guarded_labels empty_ledger ops"
  shows "length (in_flight_commands (history sha to_vec ops) c) \<le> 1"
  using flight.in_history [OF assms] by (simp add: single_flight_def)

theorem single_command_in_flight_witness:
  "length (in_flight_commands (history no_sha no_json bound_ops) ''c'') \<le> 1"
  by (rule single_command_in_flight) code_simp


section \<open>Commands\<close>



text \<open>
  A command under a new key and a new identifier is accepted exactly when its conversation has
  runs, the named parent is the newest of them (by creation time, then insertion), that run is
  terminal and has a valid provider session, and no command of the conversation is in flight.
\<close>

lemma command_accepted_iff:
  assumes "\<not> command_idempotency_key_seen key (history sha to_vec ops)"
    and "load_command (history sha to_vec ops) cmid = None"
  shows "(\<exists>c db'. create_command sha to_vec req key now cmid (history sha to_vec ops) = Inr (c, db'))
    \<longleftrightarrow> acceptable req (history sha to_vec ops)"
  by (rule create_command_fresh [OF history_ok assms])

text \<open>
  A stale command is redriven once: of the callers that hold the same token (its \<open>updated_at\<close>,
  below the largest \<^verbatim>\<open>i64\<close>), after one claimed or rebound it every other claim and rebind with that token
  changes nothing and is told so, whatever the clocks read.
\<close>

lemma redrive_one_winner:
  assumes "expected < i64_max"
    and "rebind_command_child_run_if_current cmid old expected fresh now (history sha to_vec ops) = Inr (Rebound c, db)
      \<or> claim_stale_command_for_redrive cmid expected now (history sha to_vec ops) = Inr (True, db)"
  shows "claim_stale_command_for_redrive cmid expected now' db = Inr (False, db)
    \<and> (\<exists>o'. rebind_command_child_run_if_current cmid old' expected fresh' now' db = Inr (o', db) \<and> (\<forall>d. o' \<noteq> Rebound d))"
proof -
  have ok: "ledger_ok db" using assms(2) winner_ok [OF history_ok] by blast
  obtain d where "load_command db cmid = Some d" "cm_updated_at d = bumped_now now expected"
    using assms(2) rebound_effect(1,2) [OF _ history_ok] claim_effect [OF _ history_ok] by metis
  moreover from this bumped_above [OF assms(1), of now] have "cm_updated_at d \<noteq> expected" by simp
  ultimately show ?thesis using stale_token [OF ok] by blast
qed

text \<open>
  Reconciliation completes exactly the commands in flight whose child run is terminal: its loop
  never fails and is one bulk update, it returns the updated commands, and
  afterwards nothing is left to reconcile.
\<close>

lemma reconcile_is_bulk_update:
  "\<exists>db'. reconcile_completed_commands now (history sha to_vec ops) =
      Inr (map (completed_at now) (filter (reconcilable (history sha to_vec ops)) (db_command (history sha to_vec ops))), db')
    \<and> db' = update_commands (reconcilable (history sha to_vec ops)) (completed_at now) (history sha to_vec ops)
    \<and> filter (reconcilable db') (db_command db') = []"
  using reconcile_bulk [OF history_ok] none_reconcilable [OF refl] by (simp add: filter_empty_conv)

section \<open>Recovery\<close>

text \<open>
  C18. Recovery runs to the end: marking what the scan found, with fresh event identifiers and room in
  the sequence numbers, succeeds, moves exactly the running runs to interrupted, and a second scan
  finds nothing.
\<close>

theorem recovery_complete:
  assumes "map fst runs = rs_interrupted_runs (recover_scan (history sha to_vec ops))"
    and "map fst attempts = rs_interrupted_attempts (recover_scan (history sha to_vec ops))"
    and "distinct (map (snd \<circ> snd) runs)"
    and "\<forall>x \<in> set runs. snd (snd x) \<notin> pe_event_id ` set (db_event (history sha to_vec ops))"
    and "int (length (db_event (history sha to_vec ops)) + length runs) < i64_max"
  shows "\<exists>db'. mark_interrupted runs attempts (history sha to_vec ops) = Inr ((), db')
    \<and> db_run db' = update_where (\<lambda>x. ru_status x = RS_Running) (\<lambda>x. x\<lparr>ru_status := RS_Interrupted\<rparr>)
        (db_run (history sha to_vec ops))
    \<and> recover_scan db' = \<lparr>rs_interrupted_runs = [], rs_interrupted_attempts = []\<rparr>"
  by (rule recovery_succeeds [OF history_ok assms])

theorem recovery_complete_witness:
  "\<exists>db'. mark_interrupted [(''r'', 9, ''e9'')] [(''t'', 9)] (history no_sha no_json started_ops) = Inr ((), db')
    \<and> rs_interrupted_runs (recover_scan db') = []"
proof -
  have "map fst [(''r'', 9::int, ''e9'')] = rs_interrupted_runs (recover_scan (history no_sha no_json started_ops))" by code_simp
  moreover have "map fst [(''t'', 9::int)] = rs_interrupted_attempts (recover_scan (history no_sha no_json started_ops))" by code_simp
  moreover have "''e9'' \<notin> pe_event_id ` set (db_event (history no_sha no_json started_ops))" by code_simp
  moreover have "int (length (db_event (history no_sha no_json started_ops)) + 1) < i64_max" by code_simp
  ultimately show ?thesis
    using recovery_complete [of "[(''r'', 9, ''e9'')]" no_sha no_json started_ops "[(''t'', 9)]"] by fastforce
qed

section \<open>Reading\<close>

text \<open>
  C19. Reading a listing page by page, in the documented manner and with any positive page size, ends
  after at most one call per row and one, and returns every matching run exactly once, newest first.
\<close>

theorem run_listing_complete:
  assumes "0 < limit"
  shows "\<exists>rs. drain (length (db_run db) + 1) (\<lambda>before. list_runs conv statuses before limit db) None = Some rs
    \<and> mset rs = mset (filter (run_matches conv statuses) (db_run db))
    \<and> sorted_wrt (\<lambda>x y. ru_created_at y \<le> ru_created_at x) rs"
proof -
  let ?rows = "filter (\<lambda>r. run_matches conv statuses (snd r)) (keyed_rows ru_created_at (db_run db))"
  let ?all = "newest_first ?rows"
  have len: "length ?all \<le> length (db_run db)"
    using length_filter_le [of _ "keyed_rows ru_created_at (db_run db)"] by (simp add: newest_first_def keyed_rows_def)
  have "drain (length (db_run db) + 1) (\<lambda>before. list_runs conv statuses before limit db) None = Some (map snd ?all)"
    by (rule run_list.drained) (use assms len in \<open>simp_all add: MAX_LIST_LIMIT_def\<close>)
  moreover have "mset (map snd ?all) = mset (filter (run_matches conv statuses) (db_run db))"
    by (simp only: mset_newest_first keyed_rows_snd)
  moreover have "sorted_wrt (\<lambda>x y. ru_created_at y \<le> ru_created_at x) (map snd ?all)"
    unfolding sorted_wrt_map
  proof (rule sorted_wrt_mono_rel [OF _ newest_first_ordered])
    fix x y
    assume "x \<in> set ?all" "y \<in> set ?all" "fst y < fst x"
    then show "ru_created_at (snd y) \<le> ru_created_at (snd x)"
      by (auto simp: newest_first_def keyed_rows_def less_prod_def)
  qed
  ultimately show ?thesis by blast
qed

theorem run_listing_complete_witness:
  "\<exists>rs. drain 2 (\<lambda>before. list_runs None None before 1 (history no_sha no_json sample_ops)) None = Some rs \<and> length rs = 1"
proof -
  have "length (db_run (history no_sha no_json sample_ops)) + 1 = 2" by code_simp
  moreover have "length (filter (run_matches None None) (db_run (history no_sha no_json sample_ops))) = 1" by code_simp
  ultimately show ?thesis
    using run_listing_complete [of 1 "history no_sha no_json sample_ops" None None] by (metis size_mset zero_less_one)
qed

text \<open>
  Reading events after sequence \<open>n\<close> returns the next events of the conversation, in order, from
  the (n+1)-st on and at most the capped limit of them, also when \<open>n\<close> exceeds the range of \<^verbatim>\<open>i64\<close>.
\<close>

lemma read_events_is_window:
  "read_events conv after limit (history sha to_vec ops) =
     Inr (take (min limit 1000) (drop (case after of None \<Rightarrow> 0 | Some n \<Rightarrow> n)
       (events_in conv (db_event (history sha to_vec ops)))))"
  using read_events_window [OF history_ok sequence_bound.in_history] by (simp add: MAX_READ_LIMIT_def)

end
