(* ===== verification/Sandbox_Ids.thy ===== *)
theory Sandbox_Ids
  imports Rust_Std
begin

text \<open>
  The validated identifiers of the sandbox wire contract
  (\<^verbatim>\<open>crates/o7-sandbox-protocol/src/ids.rs\<close>) and the big-endian length-prefixed framing that
  its digests and its frames share (\<^verbatim>\<open>push_len\<close>, \<^verbatim>\<open>push_bytes\<close>, \<^verbatim>\<open>push_field\<close> of
  \<^verbatim>\<open>policy.rs\<close> and \<^verbatim>\<open>request.rs\<close>). A \<^verbatim>\<open>push_x(buf, v)\<close> appends to a buffer; here
  \<open>push_x v\<close> is what it appends. The SHA-256 of the \<^verbatim>\<open>sha2\<close> package is the parameter \<open>sha\<close>.

  The lemmas show that the framing is a prefix code, that the hexadecimal rendering is
  injective, and that the identifiers a trusted constructor builds are the ones the parser of
  untrusted input accepts.
\<close>

section \<open>Definitions\<close>

definition SCHEMA_VERSION :: u32 where
  "SCHEMA_VERSION = 1"

text \<open>\<^verbatim>\<open>to_be_bytes\<close> of a \<open>k\<close>-byte integer and \<^verbatim>\<open>from_be_bytes\<close>.\<close>

definition be_bytes :: "nat \<Rightarrow> nat \<Rightarrow> bytes" where
  "be_bytes k n = rev (le_bytes k n)"

definition be_value :: "bytes \<Rightarrow> nat" where
  "be_value bs = foldl (\<lambda>a b. 256 * a + unat b) 0 bs"

definition push_len :: "nat \<Rightarrow> bytes" where
  "push_len n = be_bytes 8 (unat (of_nat n :: u64))"

definition push_bytes :: "bytes \<Rightarrow> bytes" where
  "push_bytes bs = push_len (length bs) @ bs"

definition push_field :: "bytes \<Rightarrow> string \<Rightarrow> bytes" where
  "push_field tag v = push_bytes tag @ push_bytes (as_bytes v)"

datatype SandboxIdError = Digest string | Nonce string | Backend

definition is_lower_hex :: "string \<Rightarrow> bool" where
  "is_lower_hex s =
     list_all (\<lambda>c. let n = (of_char c :: nat) in (48 \<le> n \<and> n \<le> 57) \<or> (97 \<le> n \<and> n \<le> 102)) s"

text \<open>\<^verbatim>\<open>char::from_digit(d, 16)\<close>, and the fallback the source gives it.\<close>

definition from_digit16 :: "nat \<Rightarrow> char option" where
  "from_digit16 d =
     (if d < 10 then Some (char_of (48 + d)) else if d < 16 then Some (char_of (87 + d)) else None)"

definition hex_digit :: "nat \<Rightarrow> char" where
  "hex_digit d = (case from_digit16 d of Some c \<Rightarrow> c | None \<Rightarrow> CHR ''0'')"

definition to_lower_hex :: "bytes \<Rightarrow> string" where
  "to_lower_hex bs =
     concat (map (\<lambda>b. [hex_digit (unat (drop_bit 4 b)), hex_digit (unat (take_bit 4 b))]) bs)"

datatype SandboxDigest = SandboxDigest (digest_str: string)

definition digest_of_bytes :: "(bytes \<Rightarrow> bytes) \<Rightarrow> bytes \<Rightarrow> SandboxDigest" where
  "digest_of_bytes sha bs = SandboxDigest (to_lower_hex (sha bs))"

definition digest_parse :: "string \<Rightarrow> (SandboxIdError, SandboxDigest) result" where
  "digest_parse v =
     (if length v = 64 \<and> is_lower_hex v then Inr (SandboxDigest v) else Inl (Digest v))"

datatype LaunchNonce = LaunchNonce (nonce_str: string)

definition nonce_parse :: "string \<Rightarrow> (SandboxIdError, LaunchNonce) result" where
  "nonce_parse v =
     (if length v = 32 \<and> is_lower_hex v then Inr (LaunchNonce v) else Inl (Nonce v))"

text \<open>The argument is a \<^verbatim>\<open>[u8; 16]\<close>.\<close>

definition nonce_from_bytes :: "bytes \<Rightarrow> LaunchNonce" where
  "nonce_from_bytes bs = LaunchNonce (to_lower_hex bs)"

record BackendIdentity =
  be_name :: string
  be_version :: string

definition backend_new :: "string \<Rightarrow> string \<Rightarrow> (SandboxIdError, BackendIdentity) result" where
  "backend_new name version =
     (if trim_is_empty name \<or> trim_is_empty version then Inl Backend
      else Inr \<lparr>be_name = name, be_version = version\<rparr>)"

section \<open>Big-endian integers\<close>

lemma length_be_bytes [simp]: "length (be_bytes k n) = k"
  by (simp add: be_bytes_def)

lemma be_value_snoc [simp]: "be_value (bs @ [b]) = 256 * be_value bs + unat b"
  by (simp add: be_value_def)

lemma be_value_Nil [simp]: "be_value [] = 0"
  by (simp add: be_value_def)

lemma be_bytes_Suc: "be_bytes (Suc k) n = be_bytes k (n div 256) @ [of_nat (n mod 256)]"
  by (simp add: be_bytes_def)

lemma be_value_be_bytes: "n < 256 ^ k \<Longrightarrow> be_value (be_bytes k n) = n"
proof (induction k arbitrary: n)
  case 0
  then show ?case by (simp add: be_bytes_def)
next
  case (Suc k)
  have "n div 256 < 256 ^ k" using Suc.prems by (simp add: less_mult_imp_div_less mult.commute)
  with Suc.IH have "be_value (be_bytes k (n div 256)) = n div 256" by blast
  moreover have "unat (of_nat (n mod 256) :: byte) = n mod 256" by (simp add: unat_of_nat)
  ultimately show ?case by (simp add: be_bytes_Suc)
qed

lemma be_bytes_be_value: "be_bytes (length bs) (be_value bs) = bs"
proof (induction bs rule: rev_induct)
  case (snoc b bs)
  have "unat b < 256" using unsigned_less [of b] by simp
  then have "(256 * be_value bs + unat b) div 256 = be_value bs"
    and "(256 * be_value bs + unat b) mod 256 = unat b" by simp_all
  with snoc show ?case by (simp add: be_bytes_Suc)
qed (simp add: be_bytes_def)

lemma be_bytes_inj: "n < 256 ^ k \<Longrightarrow> m < 256 ^ k \<Longrightarrow> be_bytes k n = be_bytes k m \<longleftrightarrow> n = m"
  using be_value_be_bytes [of n k] be_value_be_bytes [of m k] by metis

section \<open>The framing is a prefix code\<close>

lemma length_push_len [simp]: "length (push_len n) = 8"
  by (simp add: push_len_def)

lemma length_push_bytes [simp]: "length (push_bytes bs) = 8 + length bs"
  by (simp add: push_bytes_def)

lemma push_len_inj:
  assumes "n < max_preimage" "m < max_preimage"
  shows "push_len n = push_len m \<longleftrightarrow> n = m"
proof -
  have "unat (of_nat n :: u64) = n" "unat (of_nat m :: u64) = m"
    using assms by (simp_all add: unat_of_nat)
  with assms show ?thesis by (simp add: push_len_def be_bytes_inj)
qed

lemma push_len_peel:
  assumes "n < max_preimage" "m < max_preimage"
  shows "push_len n @ r = push_len m @ s \<longleftrightarrow> n = m \<and> r = s"
  using push_len_inj [OF assms] by auto

lemma length_bound_of_eq: "xs = ys \<Longrightarrow> length xs < k \<Longrightarrow> length ys < (k :: nat)"
  by simp

interpretation push_code: prefix_code push_bytes
proof
  fix x y r s :: bytes
  assume len: "length (push_bytes x @ r) < max_preimage" and eq: "push_bytes x @ r = push_bytes y @ s"
  have "length (push_bytes y @ s) < max_preimage" using len eq by simp
  then have y: "length y < max_preimage" and x: "length x < max_preimage" using len by simp_all
  have "push_len (length x) @ x @ r = push_len (length y) @ y @ s"
    using eq by (simp add: push_bytes_def)
  then have "length x = length y \<and> x @ r = y @ s" unfolding push_len_peel [OF x y] .
  then show "x = y \<and> r = s" by auto
next
  show "push_bytes x \<noteq> []" for x by (simp flip: length_0_conv)
qed

text \<open>A counted sequence: its number of elements, then each of them.\<close>

definition push_seq :: "('a \<Rightarrow> bytes) \<Rightarrow> 'a list \<Rightarrow> bytes" where
  "push_seq enc xs = push_len (length xs) @ concat (map enc xs)"

lemma push_seq_peel:
  assumes code: "prefix_code enc" and len: "length (push_seq enc xs @ r) < max_preimage"
  shows "push_seq enc xs @ r = push_seq enc ys @ s \<longleftrightarrow> xs = ys \<and> r = s"
proof
  assume eq: "push_seq enc xs @ r = push_seq enc ys @ s"
  have "length (push_seq enc ys @ s) < max_preimage" using len eq by simp
  then have ys: "length ys < max_preimage"
    using prefix_code.length_concat [OF code, of ys] by (simp add: push_seq_def)
  have xs: "length xs < max_preimage" and cat: "length (concat (map enc xs)) + length r < max_preimage"
    using len prefix_code.length_concat [OF code, of xs] by (simp_all add: push_seq_def)
  from eq have "length xs = length ys" "concat (map enc xs) @ r = concat (map enc ys) @ s"
    by (simp_all add: push_seq_def push_len_peel [OF xs ys])
  then show "xs = ys \<and> r = s" using prefix_code.peel_concat [OF code _ cat] by blast
qed simp

lemma push_pair_code: "prefix_code (\<lambda>(a, b). push_bytes a @ push_bytes b)"
proof
  fix x y :: "bytes \<times> bytes" and r s
  obtain a b c d where xy: "x = (a, b)" "y = (c, d)" by (cases x, cases y)
  assume len: "length ((case x of (a, b) \<Rightarrow> push_bytes a @ push_bytes b) @ r) < max_preimage"
    and eq: "(case x of (a, b) \<Rightarrow> push_bytes a @ push_bytes b) @ r
             = (case y of (a, b) \<Rightarrow> push_bytes a @ push_bytes b) @ s"
  have one: "a = c \<and> push_bytes b @ r = push_bytes d @ s"
    by (rule push_code.enc_peel [of a _ c]) (use len eq in \<open>simp_all add: xy del: length_append\<close>)
  have "b = d \<and> r = s"
    by (rule push_code.enc_peel [OF _ conjunct2 [OF one]]) (use len in \<open>simp add: xy\<close>)
  with one show "x = y \<and> r = s" by (simp add: xy)
next
  show "(case x of (a, b) \<Rightarrow> push_bytes a @ push_bytes b) \<noteq> []" for x
    by (simp add: push_code.enc_ne split: prod.splits)
qed

section \<open>Identifiers\<close>

lemma of_char_char_of [simp]: "n < 256 \<Longrightarrow> (of_char (char_of n) :: nat) = n"
  by simp

lemma hex_digit_code: "d < 16 \<Longrightarrow> (of_char (hex_digit d) :: nat) = (if d < 10 then 48 + d else 87 + d)"
  by (simp add: hex_digit_def from_digit16_def)

lemma hex_digit_inj: "d < 16 \<Longrightarrow> e < 16 \<Longrightarrow> hex_digit d = hex_digit e \<longleftrightarrow> d = e"
proof
  assume d: "d < 16" and e: "e < 16" and eq: "hex_digit d = hex_digit e"
  have "(of_char (hex_digit d) :: nat) = of_char (hex_digit e)" by (simp only: eq)
  then show "d = e" unfolding hex_digit_code [OF d] hex_digit_code [OF e]
    using d e by presburger
qed (simp only:)

lemma nibble_values:
  "unat (drop_bit 4 b) = unat (b :: byte) div 16" "unat (take_bit 4 b) = unat b mod 16"
proof -
  have "unat b < 2 ^ LENGTH(8)" by (rule unsigned_less)
  then have "take_bit 8 (unat b) = unat b" by (simp add: take_bit_nat_eq_self)
  then have "unat (drop_bit 4 b) = drop_bit 4 (unat b)" by (simp add: unsigned_drop_bit_eq)
  then show "unat (drop_bit 4 b) = unat b div 16" by (simp only: drop_bit_eq_div) simp
  have "unat (take_bit 4 b) = take_bit 4 (unat b)" by (simp only: unsigned_take_bit_eq)
  then show "unat (take_bit 4 b) = unat b mod 16" by (simp only: take_bit_eq_mod) simp
qed

lemma nibble_bounds [simp]: "unat (b :: byte) div 16 < 16" "unat (b :: byte) mod 16 < 16"
proof -
  have "unat b < 2 ^ LENGTH(8)" by (rule unsigned_less)
  then show "unat b div 16 < 16" by simp
qed simp

lemma to_lower_hex_simps [simp]:
  "to_lower_hex [] = []"
  "to_lower_hex (b # bs) = hex_digit (unat b div 16) # hex_digit (unat b mod 16) # to_lower_hex bs"
  by (simp_all add: to_lower_hex_def nibble_values)

lemma length_to_lower_hex [simp]: "length (to_lower_hex bs) = 2 * length bs"
  by (induction bs) simp_all

lemma to_lower_hex_lower: "is_lower_hex (to_lower_hex bs)"
proof (induction bs)
  case (Cons b bs)
  have "unat b div 16 \<le> 15" "unat b mod 16 \<le> 15"
    using nibble_bounds [of b] by linarith+
  with Cons show ?case
    by (simp add: is_lower_hex_def Let_def hex_digit_code)
qed (simp add: is_lower_hex_def)

lemma to_lower_hex_inj: "to_lower_hex as = to_lower_hex bs \<longleftrightarrow> as = bs"
proof
  assume "to_lower_hex as = to_lower_hex bs"
  then show "as = bs"
  proof (induction as arbitrary: bs)
    case Nil
    then show ?case by (cases bs) simp_all
  next
    case (Cons a as)
    then obtain b bs' where bs: "bs = b # bs'" by (cases bs) auto
    with Cons.prems have d: "unat a div 16 = unat b div 16" "unat a mod 16 = unat b mod 16"
      by (simp_all add: hex_digit_inj)
    then have "unat a = unat b" by (metis div_mult_mod_eq)
    then show ?case using Cons bs by (simp add: word_unat_eq_iff)
  qed
qed simp

text \<open>The invariants of the newtypes: what a value built by any constructor satisfies.\<close>

definition digest_ok :: "SandboxDigest \<Rightarrow> bool" where
  "digest_ok d \<longleftrightarrow> digest_parse (digest_str d) = Inr d"

definition nonce_ok :: "LaunchNonce \<Rightarrow> bool" where
  "nonce_ok n \<longleftrightarrow> nonce_parse (nonce_str n) = Inr n"

definition backend_ok :: "BackendIdentity \<Rightarrow> bool" where
  "backend_ok b \<longleftrightarrow> backend_new (be_name b) (be_version b) = Inr b"

lemma digest_parse_ok: "digest_parse v = Inr d \<Longrightarrow> digest_ok d \<and> digest_str d = v"
  by (auto simp: digest_ok_def digest_parse_def split: if_splits)

lemma nonce_parse_ok: "nonce_parse v = Inr n \<Longrightarrow> nonce_ok n \<and> nonce_str n = v"
  by (auto simp: nonce_ok_def nonce_parse_def split: if_splits)

lemma backend_new_ok:
  "backend_new a v = Inr b \<Longrightarrow> backend_ok b \<and> be_name b = a \<and> be_version b = v"
  by (auto simp: backend_ok_def backend_new_def split: if_splits)

lemma digest_of_bytes_ok: "length (sha bs) = 32 \<Longrightarrow> digest_ok (digest_of_bytes sha bs)"
  by (simp add: digest_ok_def digest_of_bytes_def digest_parse_def to_lower_hex_lower)

lemma nonce_from_bytes_ok: "length bs = 16 \<Longrightarrow> nonce_ok (nonce_from_bytes bs)"
  by (simp add: nonce_ok_def nonce_from_bytes_def nonce_parse_def to_lower_hex_lower)

lemma digest_of_bytes_inj: "digest_of_bytes sha a = digest_of_bytes sha b \<longleftrightarrow> sha a = sha b"
  by (simp add: digest_of_bytes_def to_lower_hex_inj)

end
