(* ===== verification/Sandbox_Policy.thy ===== *)
theory Sandbox_Policy
  imports Sandbox_Ids "HOL-Library.Multiset" "HOL-Library.Sublist"
begin

text \<open>
  The confinement request: \<^verbatim>\<open>crates/o7-sandbox-protocol/src/policy.rs\<close>. A
  \<^verbatim>\<open>PathBuf\<close> or \<^verbatim>\<open>OsString\<close> is its byte sequence, a \<^typ>\<open>string\<close>; paths compare by
  their components, as \<^verbatim>\<open>std::path\<close> has it. A \<^verbatim>\<open>BTreeSet\<close> of seen names is the set of
  their encoded bytes.

  The lemmas give the exact set of policies \<open>policy_validate\<close> accepts, show that \<open>permits_exec\<close> decides
  lexical containment, and that the canonical bytes of a valid policy are those of no policy
  with another worktree, other allowances, another environment or another deadline.
\<close>

section \<open>Durations\<close>

text \<open>\<^verbatim>\<open>std::time::Duration\<close>: whole seconds and nanoseconds below one second.\<close>

record Duration =
  dur_secs :: u64
  dur_nanos :: u32

definition dur_ok :: "Duration \<Rightarrow> bool" where
  "dur_ok d \<longleftrightarrow> unat (dur_nanos d) < 1000000000"

definition from_secs :: "u64 \<Rightarrow> Duration" where
  "from_secs n = \<lparr>dur_secs = n, dur_nanos = 0\<rparr>"

definition from_millis :: "u64 \<Rightarrow> Duration" where
  "from_millis n = \<lparr>dur_secs = n div 1000, dur_nanos = of_nat (unat (n mod 1000) * 1000000)\<rparr>"

text \<open>The derived order, seconds first.\<close>

definition dur_less :: "Duration \<Rightarrow> Duration \<Rightarrow> bool" where
  "dur_less a b \<longleftrightarrow>
     dur_secs a < dur_secs b \<or> (dur_secs a = dur_secs b \<and> dur_nanos a < dur_nanos b)"

text \<open>\<^verbatim>\<open>as_nanos\<close> and \<^verbatim>\<open>as_millis\<close> are \<^verbatim>\<open>u128\<close>s that cannot overflow.\<close>

definition as_nanos :: "Duration \<Rightarrow> nat" where
  "as_nanos d = unat (dur_secs d) * 1000000000 + unat (dur_nanos d)"

definition as_millis :: "Duration \<Rightarrow> nat" where
  "as_millis d = unat (dur_secs d) * 1000 + unat (dur_nanos d) div 1000000"

section \<open>Paths\<close>

text \<open>\<^verbatim>\<open>Path::is_absolute\<close> on Unix, \<^verbatim>\<open>==\<close> on paths, and \<^verbatim>\<open>Path::starts_with\<close>.\<close>

definition is_absolute :: "string \<Rightarrow> bool" where
  "is_absolute p \<longleftrightarrow> p \<noteq> [] \<and> hd p = CHR ''/''"

definition path_eq :: "string \<Rightarrow> string \<Rightarrow> bool" where
  "path_eq a b \<longleftrightarrow> path_components a = path_components b"

definition path_starts_with :: "string \<Rightarrow> string \<Rightarrow> bool" where
  "path_starts_with p base \<longleftrightarrow> prefix (path_components base) (path_components p)"

section \<open>The policy\<close>

datatype SandboxDimension = Filesystem | Network | Env | ProcessTree | Timeout

definition DIMENSIONS :: "SandboxDimension list" where
  "DIMENSIONS = [Filesystem, Network, Env, ProcessTree, Timeout]"

datatype Enforcement = Enforced | Partial | NotEnforced

datatype NetworkPolicy = DenyAll

definition MIN_TIMEOUT :: Duration where
  "MIN_TIMEOUT = from_millis 1"

definition MAX_TIMEOUT :: Duration where
  "MAX_TIMEOUT = from_secs (24 * 60 * 60)"

record SandboxPolicy =
  sp_worktree :: string
  sp_allow_exec :: "string list"
  sp_network :: NetworkPolicy
  sp_env_allowlist :: "string list"
  sp_timeout :: Duration

datatype SandboxPolicyError =
    RelativeWorktree string
  | RelativeExecAllowance string
  | NoExecAllowance
  | DuplicateExecAllowance string
  | DuplicateEnvName string
  | TimeoutTooSmall Duration
  | TimeoutTooLarge Duration
  | TimeoutNotWholeMilliseconds Duration

text \<open>The bodies of the two loops of \<open>policy_validate\<close>.\<close>

definition check_exec :: "bytes set \<Rightarrow> string \<Rightarrow> (SandboxPolicyError, bytes set) result" where
  "check_exec seen path =
     (if \<not> is_absolute path then Inl (RelativeExecAllowance path)
      else if as_bytes path \<in> seen then Inl (DuplicateExecAllowance path)
      else Inr (insert (as_bytes path) seen))"

definition check_env :: "bytes set \<Rightarrow> string \<Rightarrow> (SandboxPolicyError, bytes set) result" where
  "check_env seen name =
     (if as_bytes name \<in> seen then Inl (DuplicateEnvName name)
      else Inr (insert (as_bytes name) seen))"

definition policy_validate :: "SandboxPolicy \<Rightarrow> (SandboxPolicyError, unit) result" where
  "policy_validate p =
     (if \<not> is_absolute (sp_worktree p) then Inl (RelativeWorktree (sp_worktree p))
      else if sp_allow_exec p = [] then Inl NoExecAllowance
      else and_then (try_fold check_exec {} (sp_allow_exec p)) (\<lambda>_.
           and_then (try_fold check_env {} (sp_env_allowlist p)) (\<lambda>_.
             if dur_less (sp_timeout p) MIN_TIMEOUT then Inl (TimeoutTooSmall (sp_timeout p))
             else if dur_less MAX_TIMEOUT (sp_timeout p) then Inl (TimeoutTooLarge (sp_timeout p))
             else if unat (dur_nanos (sp_timeout p)) mod 1000000 \<noteq> 0
             then Inl (TimeoutNotWholeMilliseconds (sp_timeout p))
             else Inr ())))"

definition is_dot :: "PathComponent \<Rightarrow> bool" where
  "is_dot c \<longleftrightarrow> c = ParentDir \<or> c = CurDir"

definition permits_exec :: "SandboxPolicy \<Rightarrow> string \<Rightarrow> bool" where
  "permits_exec p target =
     (if list_ex is_dot (path_components target) then False
      else list_ex (\<lambda>allowed. path_eq target allowed \<or> path_starts_with target allowed)
             (sp_allow_exec p))"

definition network_byte :: "NetworkPolicy \<Rightarrow> byte" where
  "network_byte n = (case n of DenyAll \<Rightarrow> 1)"

definition policy_magic :: bytes where
  "policy_magic = as_bytes ''o7-sandbox-policy'' @ [0] @ as_bytes ''v1'' @ [0]"

definition canonical_bytes :: "SandboxPolicy \<Rightarrow> bytes" where
  "canonical_bytes p =
     policy_magic
     @ push_field (as_bytes ''worktree'') (sp_worktree p)
     @ [network_byte (sp_network p)]
     @ push_len (length (sp_allow_exec p))
     @ concat (map push_bytes (sort (map as_bytes (sp_allow_exec p))))
     @ push_len (length (sp_env_allowlist p))
     @ concat (map push_bytes (sort (map as_bytes (sp_env_allowlist p))))
     @ be_bytes 16 (as_nanos (sp_timeout p))"

definition policy_digest :: "(bytes \<Rightarrow> bytes) \<Rightarrow> SandboxPolicy \<Rightarrow> SandboxDigest" where
  "policy_digest sha p = digest_of_bytes sha (canonical_bytes p)"

section \<open>What \<open>policy_validate\<close> accepts\<close>

text \<open>The loop with a set of seen keys: every element passes and no key occurs twice.\<close>

lemma try_fold_seen:
  assumes step: "\<And>seen x. f seen x =
      (if \<not> good x then Inl (bad x) else if key x \<in> seen then Inl (dup x) else Inr (insert (key x) seen))"
  shows "try_fold f seen xs = Inr t \<longleftrightarrow>
           (\<forall>x \<in> set xs. good x \<and> key x \<notin> seen) \<and> distinct (map key xs) \<and> t = key ` set xs \<union> seen"
proof (induction xs arbitrary: seen)
  case Nil
  then show ?case by auto
next
  case (Cons x xs)
  have unfold: "try_fold f seen (x # xs) = Inr t \<longleftrightarrow>
        good x \<and> key x \<notin> seen \<and> try_fold f (insert (key x) seen) xs = Inr t"
    by (simp only: try_fold.simps step) simp
  have union: "key ` set xs \<union> insert (key x) seen = key ` set (x # xs) \<union> seen" by simp
  show ?case unfolding unfold Cons.IH union by auto (metis image_eqI)
qed

lemmas check_exec_loop = try_fold_seen [of check_exec is_absolute RelativeExecAllowance as_bytes
    DuplicateExecAllowance, OF check_exec_def]

lemma check_env_loop:
  "try_fold check_env seen xs = Inr t \<longleftrightarrow>
     (\<forall>x \<in> set xs. as_bytes x \<notin> seen) \<and> distinct (map as_bytes xs) \<and> t = as_bytes ` set xs \<union> seen"
  using try_fold_seen [of check_env "\<lambda>_. True" DuplicateEnvName as_bytes DuplicateEnvName seen xs t]
  by (simp add: check_env_def)

lemma distinct_map_as_bytes [simp]: "distinct (map as_bytes xs) \<longleftrightarrow> distinct xs"
  by (simp add: distinct_map inj_on_def)

text \<open>A deadline between one millisecond and a day, of whole milliseconds.\<close>

definition timeout_ok :: "Duration \<Rightarrow> bool" where
  "timeout_ok d \<longleftrightarrow>
     \<not> dur_less d MIN_TIMEOUT \<and> \<not> dur_less MAX_TIMEOUT d \<and> unat (dur_nanos d) mod 1000000 = 0"

lemma validate_iff:
  "policy_validate p = Inr () \<longleftrightarrow>
     is_absolute (sp_worktree p) \<and> sp_allow_exec p \<noteq> [] \<and> (\<forall>a \<in> set (sp_allow_exec p). is_absolute a)
     \<and> distinct (sp_allow_exec p) \<and> distinct (sp_env_allowlist p) \<and> timeout_ok (sp_timeout p)"
  by (auto simp: policy_validate_def check_exec_loop check_env_loop timeout_ok_def)

lemma digit_less:
  fixes n m s t k :: nat
  assumes "n < k" "m < k"
  shows "s * k + n < t * k + m \<longleftrightarrow> s < t \<or> (s = t \<and> n < m)"
proof (rule linorder_cases [of s t])
  assume "s < t"
  then have "s * k + k \<le> t * k" by (metis Suc_leI mult_Suc add.commute mult_le_mono1)
  with \<open>s < t\<close> assms show ?thesis by simp
next
  assume "t < s"
  then have "t * k + k \<le> s * k" by (metis Suc_leI mult_Suc add.commute mult_le_mono1)
  with \<open>t < s\<close> assms show ?thesis by simp
qed simp

lemma digit_eq:
  fixes n m s t k :: nat
  assumes "n < k" "m < k"
  shows "s * k + n = t * k + m \<longleftrightarrow> s = t \<and> n = m"
  using digit_less [OF assms, of s t] digit_less [OF assms(2,1), of t s] by linarith

lemma dur_less_nanos: "dur_ok a \<Longrightarrow> dur_ok b \<Longrightarrow> dur_less a b \<longleftrightarrow> as_nanos a < as_nanos b"
  unfolding dur_less_def dur_ok_def as_nanos_def word_less_nat_alt word_unat_eq_iff
  by (simp only: digit_less)

lemma as_nanos_mod: "as_nanos d mod 1000000 = unat (dur_nanos d) mod 1000000"
proof -
  have "as_nanos d = unat (dur_nanos d) + unat (dur_secs d) * 1000 * 1000000"
    by (simp only: as_nanos_def)
  then show ?thesis by (simp only: mod_mult_self1)
qed

lemma timeout_ok_nanos:
  assumes "dur_ok d"
  shows "timeout_ok d \<longleftrightarrow> 1000000 \<le> as_nanos d \<and> as_nanos d \<le> 86400000000000 \<and> as_nanos d mod 1000000 = 0"
proof -
  have "dur_ok MIN_TIMEOUT" "dur_ok MAX_TIMEOUT" "as_nanos MIN_TIMEOUT = 1000000"
    "as_nanos MAX_TIMEOUT = 86400000000000"
    by (simp_all add: dur_ok_def MIN_TIMEOUT_def MAX_TIMEOUT_def from_millis_def from_secs_def as_nanos_def)
  then show ?thesis
    by (simp only: timeout_ok_def dur_less_nanos assms not_less as_nanos_mod)
qed

text \<open>A deadline of whole milliseconds is recovered from its milliseconds.\<close>

lemma as_millis_exact:
  assumes "unat (dur_nanos d) mod 1000000 = 0"
  shows "as_nanos d = as_millis d * 1000000"
proof -
  have "unat (dur_nanos d) = unat (dur_nanos d) div 1000000 * 1000000"
    using assms by (metis add.right_neutral div_mult_mod_eq)
  then show ?thesis unfolding as_nanos_def as_millis_def by (simp add: distrib_right)
qed

lemma as_nanos_inj: "dur_ok a \<Longrightarrow> dur_ok b \<Longrightarrow> as_nanos a = as_nanos b \<longleftrightarrow> a = b"
  unfolding dur_ok_def as_nanos_def by (auto simp only: digit_eq word_unat_eq_iff)
    (simp add: Duration.equality word_unat_eq_iff)

lemma as_nanos_bound: "as_nanos d < 256 ^ 16"
proof -
  have "unat (dur_secs d) < 2 ^ LENGTH(64)" "unat (dur_nanos d) < 2 ^ LENGTH(32)"
    by (rule unsigned_less)+
  then show ?thesis unfolding as_nanos_def by simp
qed

section \<open>What \<open>permits_exec\<close> decides\<close>

text \<open>Where a path of normal components leads from the root.\<close>

definition plain :: "string \<Rightarrow> bool" where
  "plain p \<longleftrightarrow> \<not> list_ex is_dot (path_components p)"

definition named_place :: "string \<Rightarrow> string list" where
  "named_place p = walk [] (path_components p)"

lemma walk_normals: "walk dir (map Normal ns) = dir @ ns"
  by (induction ns arbitrary: dir) simp_all

lemma parse_component_no_root: "RootDir \<notin> set (concat (map parse_component segs))"
  by (auto simp: parse_component_def split: if_splits)

lemma absolute_components:
  "is_absolute p \<longleftrightarrow> (\<exists>cs. path_components p = RootDir # cs)"
proof
  assume "\<exists>cs. path_components p = RootDir # cs"
  then have "RootDir \<in> set (path_components p)" by auto
  then show "is_absolute p"
    using parse_component_no_root [of "split_on (CHR ''/'') p"]
    by (auto simp: path_components_def is_absolute_def Let_def split: if_splits)
qed (simp add: is_absolute_def path_components_def Let_def)

lemma plain_components:
  assumes "is_absolute p" and "plain p"
  shows "path_components p = RootDir # map Normal (named_place p)"
proof -
  let ?cs = "concat (map parse_component (split_on (CHR ''/'') p))"
  have cs: "path_components p = RootDir # ?cs"
    using assms(1) by (simp add: is_absolute_def path_components_def Let_def)
  have "\<exists>s. c = Normal s" if "c \<in> set ?cs" for c
  proof -
    have "c \<noteq> RootDir" using that parse_component_no_root by blast
    moreover have "\<not> is_dot c" using that assms(2) cs by (auto simp: plain_def list_ex_iff)
    ultimately show ?thesis by (cases c) (auto simp: is_dot_def)
  qed
  then have "\<exists>ns. ?cs = map Normal ns" by (metis ex_map_conv)
  then obtain ns where "?cs = map Normal ns" ..
  then show ?thesis by (simp add: cs named_place_def walk_normals)
qed

lemma prefix_map_Normal: "prefix (map Normal xs) (map Normal ys) \<longleftrightarrow> prefix xs ys"
  by (auto simp: prefix_def map_eq_append_conv inj_map_eq_map inj_def)

lemma permits_exec_places:
  assumes abs: "\<forall>a \<in> set (sp_allow_exec p). is_absolute a"
  shows "permits_exec p t \<longleftrightarrow>
           plain t \<and> is_absolute t \<and> (\<exists>a \<in> set (sp_allow_exec p). plain a \<and> prefix (named_place a) (named_place t))"
proof -
  have "path_eq t a \<or> path_starts_with t a \<longleftrightarrow> is_absolute t \<and> plain a \<and> prefix (named_place a) (named_place t)"
    if t: "plain t" and a: "a \<in> set (sp_allow_exec p)" for a
  proof
    assume "path_eq t a \<or> path_starts_with t a"
    then have pre: "prefix (path_components a) (path_components t)"
      by (auto simp: path_eq_def path_starts_with_def)
    obtain cs where cs: "path_components a = RootDir # cs"
      using abs a absolute_components by blast
    with pre have at: "is_absolute t" unfolding absolute_components by (auto simp: prefix_def)
    have pa: "plain a" using pre t by (auto simp: plain_def prefix_def)
    have "prefix (map Normal (named_place a)) (map Normal (named_place t))"
      using pre plain_components [OF _ pa] plain_components [OF at t] abs a by simp
    with at pa show "is_absolute t \<and> plain a \<and> prefix (named_place a) (named_place t)"
      by (simp add: prefix_map_Normal)
  next
    assume "is_absolute t \<and> plain a \<and> prefix (named_place a) (named_place t)"
    then show "path_eq t a \<or> path_starts_with t a"
      using plain_components [of t] plain_components [of a] t abs a
      by (simp add: path_starts_with_def prefix_map_Normal)
  qed
  then show ?thesis by (auto simp: permits_exec_def plain_def list_ex_iff)
qed

section \<open>What the canonical bytes determine\<close>

definition same_confinement :: "SandboxPolicy \<Rightarrow> SandboxPolicy \<Rightarrow> bool" where
  "same_confinement p q \<longleftrightarrow>
     sp_worktree p = sp_worktree q \<and> set (sp_allow_exec p) = set (sp_allow_exec q)
     \<and> sp_network p = sp_network q \<and> set (sp_env_allowlist p) = set (sp_env_allowlist q)
     \<and> sp_timeout p = sp_timeout q"

lemma sort_as_bytes_eq:
  "sort (map as_bytes xs) = sort (map as_bytes ys) \<longleftrightarrow> mset xs = mset ys"
proof
  assume "sort (map as_bytes xs) = sort (map as_bytes ys)"
  then have "mset (sort (map as_bytes xs)) = mset (sort (map as_bytes ys))" by simp
  then have "image_mset as_bytes (mset xs) = image_mset as_bytes (mset ys)" by simp
  moreover have "inj (image_mset as_bytes)" by (rule multiset.inj_map) (simp add: inj_def)
  ultimately show "mset xs = mset ys" by (rule injD [rotated])
next
  assume "mset xs = mset ys"
  then have "mset (map as_bytes xs) = mset (map as_bytes ys)" by simp
  then show "sort (map as_bytes xs) = sort (map as_bytes ys)"
    by (metis properties_for_sort sorted_sort mset_sort)
qed

lemma canonical_bytes_seq:
  "canonical_bytes p =
     policy_magic @ push_bytes (as_bytes ''worktree'') @ push_bytes (as_bytes (sp_worktree p))
     @ [network_byte (sp_network p)]
     @ push_seq push_bytes (sort (map as_bytes (sp_allow_exec p)))
     @ push_seq push_bytes (sort (map as_bytes (sp_env_allowlist p)))
     @ be_bytes 16 (as_nanos (sp_timeout p))"
  by (simp add: canonical_bytes_def push_field_def push_seq_def)

lemma canonical_bytes_iff:
  assumes len: "length (canonical_bytes p) < max_preimage"
  shows "canonical_bytes p = canonical_bytes q \<longleftrightarrow>
           sp_worktree p = sp_worktree q \<and> mset (sp_allow_exec p) = mset (sp_allow_exec q)
           \<and> mset (sp_env_allowlist p) = mset (sp_env_allowlist q)
           \<and> as_nanos (sp_timeout p) = as_nanos (sp_timeout q)"
proof -
  note peel = push_seq_peel [OF push_code.prefix_code_axioms]
  have net: "network_byte (sp_network p) = network_byte (sp_network q)"
    by (cases "sp_network p"; cases "sp_network q") simp
  let ?X = "push_seq push_bytes (sort (map as_bytes (sp_allow_exec p)))"
    and ?E = "push_seq push_bytes (sort (map as_bytes (sp_env_allowlist p)))"
    and ?T = "be_bytes 16 (as_nanos (sp_timeout p))"
  have l3: "length (?E @ ?T) < max_preimage" and l2: "length (?X @ ?E @ ?T) < max_preimage"
    and l1: "length (push_bytes (as_bytes (sp_worktree p))) + length (network_byte (sp_network p) # ?X @ ?E @ ?T)
             < max_preimage"
    using len unfolding canonical_bytes_seq by simp_all
  show ?thesis
    unfolding canonical_bytes_seq
    by (simp only: same_append_eq append_Cons append_Nil push_code.peel_iff [OF l1 [unfolded net]] as_bytes_inj
        list.inject net peel [OF l2] peel [OF l3] sort_as_bytes_eq
        be_bytes_inj [OF as_nanos_bound as_nanos_bound] simp_thms conj_assoc)
qed

lemma canonical_bytes_valid:
  assumes "policy_validate p = Inr ()" "policy_validate q = Inr ()"
    and "dur_ok (sp_timeout p)" "dur_ok (sp_timeout q)"
    and "length (canonical_bytes p) < max_preimage"
  shows "canonical_bytes p = canonical_bytes q \<longleftrightarrow> same_confinement p q"
proof -
  have "distinct (sp_allow_exec p)" "distinct (sp_allow_exec q)"
    "distinct (sp_env_allowlist p)" "distinct (sp_env_allowlist q)"
    using assms(1,2) by (simp_all add: validate_iff)
  then have "mset (sp_allow_exec p) = mset (sp_allow_exec q) \<longleftrightarrow> set (sp_allow_exec p) = set (sp_allow_exec q)"
    and "mset (sp_env_allowlist p) = mset (sp_env_allowlist q)
         \<longleftrightarrow> set (sp_env_allowlist p) = set (sp_env_allowlist q)"
    by (simp_all add: set_eq_iff_mset_eq_distinct)
  moreover have "sp_network p = sp_network q"
    by (cases "sp_network p"; cases "sp_network q") simp
  ultimately show ?thesis
    by (simp add: canonical_bytes_iff [OF assms(5)] same_confinement_def as_nanos_inj assms(3,4))
qed

end
