(* ===== verification/Sandbox_Wire.thy ===== *)
theory Sandbox_Wire
  imports Sandbox_Policy "HOL-Library.Product_Lexorder"
begin

text \<open>
  What crosses the boundary between the worker and the sandbox backend: the enforcement report
  (\<^verbatim>\<open>crates/o7-sandbox-protocol/src/report.rs\<close>), the frame that carries it
  (\<^verbatim>\<open>frame.rs\<close>) and the launch request with its own frame (\<^verbatim>\<open>request.rs\<close>).

  JSON is the \<^verbatim>\<open>serde_json\<close> package, a parameter: \<open>to_vec\<close> renders a value,
  \<open>from_slice\<close> recognises an object with exactly the declared fields (the derived
  \<^verbatim>\<open>Deserialize\<close> with \<^verbatim>\<open>deny_unknown_fields\<close>) and returns its \<^emph>\<open>raw\<close> fields, and
  \<open>why\<close> is the text of the error it reports for a body. The crate's own half of
  deserialization, the validation of every digest, nonce and identity, is modelled:
  \<open>report_of_raw\<close> and \<open>request_of_raw\<close>.

  A locale states what the two frames have in common, and both decoders interpret it.
\<close>

section \<open>The report\<close>

record ('a, 'raw) serde =
  to_vec :: "'a \<Rightarrow> (string, bytes) result"
  from_slice :: "bytes \<Rightarrow> 'raw option"
  why :: "bytes \<Rightarrow> string"

record SandboxReport =
  sr_schema_version :: u32
  sr_backend :: BackendIdentity
  sr_backend_digest :: SandboxDigest
  sr_policy_digest :: SandboxDigest
  sr_launch_nonce :: LaunchNonce
  sr_launch_spec_digest :: SandboxDigest
  sr_filesystem :: Enforcement
  sr_network :: Enforcement
  sr_env :: Enforcement
  sr_process_tree :: Enforcement
  sr_timeout :: Enforcement

text \<open>The same object before its leaves are validated.\<close>

record RawReport =
  rr_schema_version :: u32
  rr_backend_name :: string
  rr_backend_version :: string
  rr_backend_digest :: string
  rr_policy_digest :: string
  rr_launch_nonce :: string
  rr_launch_spec_digest :: string
  rr_filesystem :: Enforcement
  rr_network :: Enforcement
  rr_env :: Enforcement
  rr_process_tree :: Enforcement
  rr_timeout :: Enforcement

definition dimension :: "SandboxReport \<Rightarrow> SandboxDimension \<Rightarrow> Enforcement" where
  "dimension r d =
     (case d of
        Filesystem \<Rightarrow> sr_filesystem r
      | Network \<Rightarrow> sr_network r
      | Env \<Rightarrow> sr_env r
      | ProcessTree \<Rightarrow> sr_process_tree r
      | Timeout \<Rightarrow> sr_timeout r)"

definition is_fully_enforced :: "SandboxReport \<Rightarrow> bool" where
  "is_fully_enforced r \<longleftrightarrow>
     True \<and> sr_filesystem r = Enforced \<and> sr_network r = Enforced \<and> sr_env r = Enforced
     \<and> sr_process_tree r = Enforced \<and> sr_timeout r = Enforced"

definition is_none_enforced :: "SandboxReport \<Rightarrow> bool" where
  "is_none_enforced r \<longleftrightarrow>
     True \<and> sr_filesystem r = NotEnforced \<and> sr_network r = NotEnforced \<and> sr_env r = NotEnforced
     \<and> sr_process_tree r = NotEnforced \<and> sr_timeout r = NotEnforced"

datatype ReportError = Malformed string | ReportUnsupportedVersion u32

definition report_of_raw :: "RawReport \<Rightarrow> (SandboxIdError, SandboxReport) result" where
  "report_of_raw w =
     and_then (backend_new (rr_backend_name w) (rr_backend_version w)) (\<lambda>b.
     and_then (digest_parse (rr_backend_digest w)) (\<lambda>bd.
     and_then (digest_parse (rr_policy_digest w)) (\<lambda>pd.
     and_then (nonce_parse (rr_launch_nonce w)) (\<lambda>n.
     and_then (digest_parse (rr_launch_spec_digest w)) (\<lambda>ld.
       Inr \<lparr>sr_schema_version = rr_schema_version w, sr_backend = b, sr_backend_digest = bd,
            sr_policy_digest = pd, sr_launch_nonce = n, sr_launch_spec_digest = ld,
            sr_filesystem = rr_filesystem w, sr_network = rr_network w, sr_env = rr_env w,
            sr_process_tree = rr_process_tree w, sr_timeout = rr_timeout w\<rparr>)))))"

text \<open>\<^verbatim>\<open>serde_json::from_slice::<SandboxReport>\<close>: the shape, then the leaves; \<open>None\<close> is an error.\<close>

definition report_from_slice :: "(SandboxReport, RawReport) serde \<Rightarrow> bytes \<Rightarrow> SandboxReport option" where
  "report_from_slice S bs =
     (case from_slice S bs of
        None \<Rightarrow> None
      | Some w \<Rightarrow> (case report_of_raw w of Inl _ \<Rightarrow> None | Inr r \<Rightarrow> Some r))"

definition report_parse :: "(SandboxReport, RawReport) serde \<Rightarrow> bytes \<Rightarrow> (ReportError, SandboxReport) result" where
  "report_parse S bs =
     and_then (ok_or (report_from_slice S bs) (Malformed (why S bs))) (\<lambda>r.
       if sr_schema_version r \<noteq> SCHEMA_VERSION
       then Inl (ReportUnsupportedVersion (sr_schema_version r))
       else Inr r)"

section \<open>The report frame\<close>

definition MAX_REPORT_BYTES :: nat where
  "MAX_REPORT_BYTES = 64 * 1024"

definition LEN_PREFIX :: nat where
  "LEN_PREFIX = 4"

datatype FrameError = Truncated nat nat | TooLarge nat | Trailing nat | Body ReportError

text \<open>The first \<open>n\<close> bytes of a slice, and a range of it: \<^verbatim>\<open>get\<close> is \<open>None\<close> out of range.\<close>

definition get_to :: "bytes \<Rightarrow> nat \<Rightarrow> bytes option" where
  "get_to bs n = (if n \<le> length bs then Some (take n bs) else None)"

definition get_range :: "bytes \<Rightarrow> nat \<Rightarrow> nat \<Rightarrow> bytes option" where
  "get_range bs i j = (if i \<le> j \<and> j \<le> length bs then Some (take (j - i) (drop i bs)) else None)"

text \<open>\<^verbatim>\<open>(body.len() as u32).to_be_bytes()\<close>.\<close>

definition len_prefix :: "bytes \<Rightarrow> bytes" where
  "len_prefix body = be_bytes 4 (unat (of_nat (length body) :: u32))"

definition encode_report :: "(SandboxReport, RawReport) serde \<Rightarrow> SandboxReport \<Rightarrow> (FrameError, bytes) result" where
  "encode_report S r =
     and_then (map_err (\<lambda>e. Body (Malformed e)) (to_vec S r)) (\<lambda>body.
       if length body > MAX_REPORT_BYTES then Inl (TooLarge (length body))
       else Inr (len_prefix body @ body))"

definition decode_report :: "(SandboxReport, RawReport) serde \<Rightarrow> bytes \<Rightarrow> (FrameError, SandboxReport) result" where
  "decode_report S bs =
     (case get_to bs LEN_PREFIX of
        None \<Rightarrow> Inl (Truncated (length bs) LEN_PREFIX)
      | Some pre \<Rightarrow>
          (let len = be_value pre in
             if len > MAX_REPORT_BYTES then Inl (TooLarge len)
             else let need = LEN_PREFIX + len in
               (case get_range bs LEN_PREFIX need of
                  None \<Rightarrow> Inl (Truncated (length bs) need)
                | Some body \<Rightarrow>
                    if length bs > need then Inl (Trailing (length bs - need))
                    else map_err Body (report_parse S body))))"

section \<open>The launch request\<close>

datatype StdinKind = StdinNull

record EnvEntry =
  env_name :: bytes
  env_value :: bytes

record LaunchRequest =
  lr_schema_version :: u32
  lr_target_digest :: SandboxDigest
  lr_argv :: "bytes list"
  lr_cwd :: bytes
  lr_env :: "EnvEntry list"
  lr_stdin :: StdinKind
  lr_launch_nonce :: LaunchNonce

record RawRequest =
  rq_schema_version :: u32
  rq_target_digest :: string
  rq_argv :: "bytes list"
  rq_cwd :: bytes
  rq_env :: "EnvEntry list"
  rq_stdin :: StdinKind
  rq_launch_nonce :: string

definition spec_magic :: bytes where
  "spec_magic = as_bytes ''o7-launch-spec'' @ [0] @ as_bytes ''v1'' @ [0]"

definition stdin_byte :: "StdinKind \<Rightarrow> byte" where
  "stdin_byte k = (case k of StdinNull \<Rightarrow> 0)"

definition env_pairs :: "LaunchRequest \<Rightarrow> (bytes \<times> bytes) list" where
  "env_pairs q = map (\<lambda>e. (env_name e, env_value e)) (lr_env q)"

text \<open>
  The preimage of \<open>spec_digest\<close>. \<^verbatim>\<open>env.sort()\<close> compares pairs of slices by name, then by
  value: the lexicographic order of pairs.
\<close>

definition spec_bytes :: "LaunchRequest \<Rightarrow> bytes" where
  "spec_bytes q =
     spec_magic
     @ be_bytes 4 (unat (lr_schema_version q))
     @ push_bytes (as_bytes (digest_str (lr_target_digest q)))
     @ push_len (length (lr_argv q)) @ concat (map push_bytes (lr_argv q))
     @ push_bytes (lr_cwd q)
     @ push_len (length (env_pairs q))
     @ concat (map (\<lambda>(n, v). push_bytes n @ push_bytes v) (sort (env_pairs q)))
     @ [stdin_byte (lr_stdin q)]
     @ push_bytes (as_bytes (nonce_str (lr_launch_nonce q)))"

definition spec_digest :: "(bytes \<Rightarrow> bytes) \<Rightarrow> LaunchRequest \<Rightarrow> SandboxDigest" where
  "spec_digest sha q = digest_of_bytes sha (spec_bytes q)"

definition MAX_REQUEST_BYTES :: nat where
  "MAX_REQUEST_BYTES = 1024 * 1024"

datatype RequestFrameError =
    ReqTruncated nat nat
  | ReqTooLarge nat
  | ReqTrailing nat
  | ReqBody string
  | ReqDuplicateEnvName bytes
  | ReqUnsupportedVersion u32

definition encode_request ::
  "(LaunchRequest, RawRequest) serde \<Rightarrow> LaunchRequest \<Rightarrow> (RequestFrameError, bytes) result" where
  "encode_request S q =
     and_then (map_err ReqBody (to_vec S q)) (\<lambda>body.
       if length body > MAX_REQUEST_BYTES then Inl (ReqTooLarge (length body))
       else Inr (len_prefix body @ body))"

definition request_of_raw :: "RawRequest \<Rightarrow> (SandboxIdError, LaunchRequest) result" where
  "request_of_raw w =
     and_then (digest_parse (rq_target_digest w)) (\<lambda>td.
     and_then (nonce_parse (rq_launch_nonce w)) (\<lambda>n.
       Inr \<lparr>lr_schema_version = rq_schema_version w, lr_target_digest = td, lr_argv = rq_argv w,
            lr_cwd = rq_cwd w, lr_env = rq_env w, lr_stdin = rq_stdin w, lr_launch_nonce = n\<rparr>))"

definition request_from_slice :: "(LaunchRequest, RawRequest) serde \<Rightarrow> bytes \<Rightarrow> LaunchRequest option" where
  "request_from_slice S bs =
     (case from_slice S bs of
        None \<Rightarrow> None
      | Some w \<Rightarrow> (case request_of_raw w of Inl _ \<Rightarrow> None | Inr q \<Rightarrow> Some q))"

definition check_env_entry :: "bytes set \<Rightarrow> EnvEntry \<Rightarrow> (RequestFrameError, bytes set) result" where
  "check_env_entry seen e =
     (if env_name e \<in> seen then Inl (ReqDuplicateEnvName (env_name e))
      else Inr (insert (env_name e) seen))"

text \<open>What \<^verbatim>\<open>decode\<close> does with the body of a frame.\<close>

definition request_parse ::
  "(LaunchRequest, RawRequest) serde \<Rightarrow> bytes \<Rightarrow> (RequestFrameError, LaunchRequest) result" where
  "request_parse S body =
     and_then (ok_or (request_from_slice S body) (ReqBody (why S body))) (\<lambda>q.
       if lr_schema_version q \<noteq> SCHEMA_VERSION
       then Inl (ReqUnsupportedVersion (lr_schema_version q))
       else and_then (try_fold check_env_entry {} (lr_env q)) (\<lambda>_. Inr q))"

definition decode_request ::
  "(LaunchRequest, RawRequest) serde \<Rightarrow> bytes \<Rightarrow> (RequestFrameError, LaunchRequest) result" where
  "decode_request S bs =
     (case get_to bs LEN_PREFIX of
        None \<Rightarrow> Inl (ReqTruncated (length bs) LEN_PREFIX)
      | Some pre \<Rightarrow>
          (let len = be_value pre in
             if len > MAX_REQUEST_BYTES then Inl (ReqTooLarge len)
             else let need = LEN_PREFIX + len in
               (case get_range bs LEN_PREFIX need of
                  None \<Rightarrow> Inl (ReqTruncated (length bs) need)
                | Some body \<Rightarrow>
                    if length bs > need then Inl (ReqTrailing (length bs - need))
                    else request_parse S body)))"

section \<open>Bounded frames\<close>

lemma u32_bytes: "unat (w :: u32) < 256 ^ 4"
proof -
  have "unat w < 2 ^ LENGTH(32)" by (rule unsigned_less)
  then show ?thesis by simp
qed

text \<open>
  The contract of a frame decoder: four bytes of big-endian length, a ceiling on it, exactly that
  many bytes and nothing after them, and the body handed to a parser. Everything the two
  decoders have in common follows from it.
\<close>

locale bounded_frame =
  fixes dec :: "bytes \<Rightarrow> ('e, 'a) result"
    and body_parse :: "bytes \<Rightarrow> ('e, 'a) result"
    and ceiling :: nat
    and truncated :: "nat \<Rightarrow> nat \<Rightarrow> 'e" and too_large :: "nat \<Rightarrow> 'e" and trailing :: "nat \<Rightarrow> 'e"
  assumes ceiling_u32: "ceiling < 4294967296"
    and short: "length bs < 4 \<Longrightarrow> dec bs = Inl (truncated (length bs) 4)"
    and large: "4 \<le> length bs \<Longrightarrow> ceiling < be_value (take 4 bs) \<Longrightarrow>
                dec bs = Inl (too_large (be_value (take 4 bs)))"
    and cut: "4 \<le> length bs \<Longrightarrow> be_value (take 4 bs) \<le> ceiling \<Longrightarrow>
              length bs < 4 + be_value (take 4 bs) \<Longrightarrow>
              dec bs = Inl (truncated (length bs) (4 + be_value (take 4 bs)))"
    and extra: "4 \<le> length bs \<Longrightarrow> be_value (take 4 bs) \<le> ceiling \<Longrightarrow>
              4 + be_value (take 4 bs) < length bs \<Longrightarrow>
              dec bs = Inl (trailing (length bs - (4 + be_value (take 4 bs))))"
    and whole: "be_value (take 4 bs) \<le> ceiling \<Longrightarrow> length bs = 4 + be_value (take 4 bs) \<Longrightarrow>
                dec bs = body_parse (drop 4 bs)"
begin

lemma frame_of: "length body \<le> ceiling \<Longrightarrow> dec (len_prefix body @ body) = body_parse body"
proof -
  assume le: "length body \<le> ceiling"
  then have lt: "length body < 256 ^ 4" using ceiling_u32 by simp
  then have "unat (of_nat (length body) :: u32) = length body" by (simp add: unat_of_nat)
  then have "be_value (take 4 (len_prefix body @ body)) = length body"
    using lt by (simp add: len_prefix_def be_value_be_bytes)
  then show ?thesis using whole [of "len_prefix body @ body"] le by (simp add: len_prefix_def)
qed

lemma accepted_iff:
  "dec bs = Inr x \<longleftrightarrow>
     (\<exists>body. bs = len_prefix body @ body \<and> length body \<le> ceiling \<and> body_parse body = Inr x)"
proof
  assume ok: "dec bs = Inr x"
  let ?len = "be_value (take 4 bs)" and ?body = "drop 4 bs"
  have ge: "4 \<le> length bs" using ok short [of bs] by (cases "length bs < 4") simp_all
  have le: "?len \<le> ceiling" using ok large [OF ge] by (cases "ceiling < ?len") simp_all
  have eq: "length bs = 4 + ?len"
    using ok cut [OF ge le] extra [OF ge le] by (cases "length bs" "4 + ?len" rule: linorder_cases) simp_all
  have "unat (of_nat (length ?body) :: u32) = ?len" using eq le ceiling_u32 by (simp add: unat_of_nat)
  then have "len_prefix ?body = take 4 bs"
    using be_bytes_be_value [of "take 4 bs"] ge by (simp add: len_prefix_def)
  then have "bs = len_prefix ?body @ ?body" by simp
  moreover have "length ?body \<le> ceiling" using eq le by simp
  ultimately show "\<exists>body. bs = len_prefix body @ body \<and> length body \<le> ceiling \<and> body_parse body = Inr x"
    using whole [OF le eq] ok by metis
qed (auto simp: frame_of)

text \<open>No accepted frame extends another: the end of a message is where its prefix says.\<close>

lemma self_delimiting: "dec bs = Inr x \<Longrightarrow> dec (bs @ r) = Inr y \<Longrightarrow> r = []"
proof -
  assume one: "dec bs = Inr x" and two: "dec (bs @ r) = Inr y"
  obtain a where a: "bs = len_prefix a @ a" "length a \<le> ceiling" using one accepted_iff by blast
  obtain b where b: "bs @ r = len_prefix b @ b" "length b \<le> ceiling" using two accepted_iff by blast
  have "len_prefix a = len_prefix b" using a(1) b(1) by (simp add: len_prefix_def)
  then have "unat (of_nat (length a) :: u32) = unat (of_nat (length b) :: u32)"
    unfolding len_prefix_def be_bytes_inj [OF u32_bytes u32_bytes] .
  then have "length a = length b" using a(2) b(2) ceiling_u32 by (simp add: unat_of_nat)
  then have "length (bs @ r) = length bs" using a(1) b(1) by (simp add: len_prefix_def)
  then show "r = []" by simp
qed

end

lemmas frame_cases = LEN_PREFIX_def get_to_def get_range_def Let_def

interpretation report_frame: bounded_frame "decode_report S" "\<lambda>b. map_err Body (report_parse S b)"
    MAX_REPORT_BYTES Truncated TooLarge Trailing
  by unfold_locales (auto simp: decode_report_def frame_cases MAX_REPORT_BYTES_def)

interpretation request_frame: bounded_frame "decode_request S" "request_parse S"
    MAX_REQUEST_BYTES ReqTruncated ReqTooLarge ReqTrailing
  by unfold_locales (auto simp: decode_request_def frame_cases MAX_REQUEST_BYTES_def)

section \<open>What an accepted report is\<close>

definition report_ok :: "SandboxReport \<Rightarrow> bool" where
  "report_ok r \<longleftrightarrow>
     backend_ok (sr_backend r) \<and> digest_ok (sr_backend_digest r) \<and> digest_ok (sr_policy_digest r)
     \<and> nonce_ok (sr_launch_nonce r) \<and> digest_ok (sr_launch_spec_digest r)"

definition report_raw :: "SandboxReport \<Rightarrow> RawReport" where
  "report_raw r =
     \<lparr>rr_schema_version = sr_schema_version r, rr_backend_name = be_name (sr_backend r),
      rr_backend_version = be_version (sr_backend r),
      rr_backend_digest = digest_str (sr_backend_digest r),
      rr_policy_digest = digest_str (sr_policy_digest r),
      rr_launch_nonce = nonce_str (sr_launch_nonce r),
      rr_launch_spec_digest = digest_str (sr_launch_spec_digest r),
      rr_filesystem = sr_filesystem r, rr_network = sr_network r, rr_env = sr_env r,
      rr_process_tree = sr_process_tree r, rr_timeout = sr_timeout r\<rparr>"

lemma report_of_raw_iff: "report_of_raw w = Inr r \<longleftrightarrow> report_ok r \<and> w = report_raw r"
proof
  assume "report_of_raw w = Inr r"
  then show "report_ok r \<and> w = report_raw r"
    by (auto simp: report_of_raw_def report_ok_def report_raw_def
        dest!: digest_parse_ok nonce_parse_ok backend_new_ok)
next
  assume "report_ok r \<and> w = report_raw r"
  then show "report_of_raw w = Inr r"
    by (simp add: report_of_raw_def report_ok_def report_raw_def digest_ok_def nonce_ok_def backend_ok_def)
qed

lemma report_from_slice_iff:
  "report_from_slice S bs = Some r \<longleftrightarrow> from_slice S bs = Some (report_raw r) \<and> report_ok r"
proof -
  have "report_from_slice S bs = Some r \<longleftrightarrow> (\<exists>w. from_slice S bs = Some w \<and> report_of_raw w = Inr r)"
    by (simp add: report_from_slice_def split: option.splits sum.splits)
  then show ?thesis unfolding report_of_raw_iff by blast
qed

lemma report_parse_iff:
  "report_parse S bs = Inr r \<longleftrightarrow>
     from_slice S bs = Some (report_raw r) \<and> report_ok r \<and> sr_schema_version r = SCHEMA_VERSION"
  by (auto simp: report_parse_def report_from_slice_iff)

lemma report_parse_err: "report_parse S bs = Inl e \<Longrightarrow> e = Malformed (why S bs) \<or> (\<exists>v. v \<noteq> SCHEMA_VERSION \<and> e = ReportUnsupportedVersion v)"
  by (auto simp: report_parse_def and_then_eq_Inl ok_or_def split: if_splits option.splits)

lemma fully_enforced_all: "is_fully_enforced r \<longleftrightarrow> (\<forall>d. dimension r d = Enforced)"
proof
  assume "\<forall>d. dimension r d = Enforced"
  then have "dimension r Filesystem = Enforced" "dimension r Network = Enforced"
    "dimension r Env = Enforced" "dimension r ProcessTree = Enforced" "dimension r Timeout = Enforced"
    by blast+
  then show "is_fully_enforced r" by (simp add: dimension_def is_fully_enforced_def)
next
  assume "is_fully_enforced r"
  then show "\<forall>d. dimension r d = Enforced"
    by (auto simp: is_fully_enforced_def dimension_def split: SandboxDimension.splits)
qed

lemma DIMENSIONS_all: "d \<in> set DIMENSIONS"
  by (cases d) (simp_all add: DIMENSIONS_def)

section \<open>What an accepted request is\<close>

definition request_ok :: "LaunchRequest \<Rightarrow> bool" where
  "request_ok q \<longleftrightarrow> digest_ok (lr_target_digest q) \<and> nonce_ok (lr_launch_nonce q)"

definition request_raw :: "LaunchRequest \<Rightarrow> RawRequest" where
  "request_raw q =
     \<lparr>rq_schema_version = lr_schema_version q, rq_target_digest = digest_str (lr_target_digest q),
      rq_argv = lr_argv q, rq_cwd = lr_cwd q, rq_env = lr_env q, rq_stdin = lr_stdin q,
      rq_launch_nonce = nonce_str (lr_launch_nonce q)\<rparr>"

lemma request_of_raw_iff: "request_of_raw w = Inr q \<longleftrightarrow> request_ok q \<and> w = request_raw q"
proof
  assume "request_of_raw w = Inr q"
  then show "request_ok q \<and> w = request_raw q"
    by (auto simp: request_of_raw_def request_ok_def request_raw_def dest!: digest_parse_ok nonce_parse_ok)
next
  assume "request_ok q \<and> w = request_raw q"
  then show "request_of_raw w = Inr q"
    by (simp add: request_of_raw_def request_ok_def request_raw_def digest_ok_def nonce_ok_def)
qed

lemma check_env_entry_loop:
  "try_fold check_env_entry seen es = Inr t \<longleftrightarrow>
     (\<forall>e \<in> set es. env_name e \<notin> seen) \<and> distinct (map env_name es) \<and> t = env_name ` set es \<union> seen"
  using try_fold_seen [of check_env_entry "\<lambda>_. True" "\<lambda>e. ReqDuplicateEnvName (env_name e)" env_name
      "\<lambda>e. ReqDuplicateEnvName (env_name e)" seen es t]
  by (simp add: check_env_entry_def)

lemma request_from_slice_iff:
  "request_from_slice S bs = Some q \<longleftrightarrow> from_slice S bs = Some (request_raw q) \<and> request_ok q"
proof -
  have "request_from_slice S bs = Some q \<longleftrightarrow> (\<exists>w. from_slice S bs = Some w \<and> request_of_raw w = Inr q)"
    by (simp add: request_from_slice_def split: option.splits sum.splits)
  then show ?thesis unfolding request_of_raw_iff by blast
qed

lemma request_parse_iff:
  "request_parse S bs = Inr q \<longleftrightarrow>
     from_slice S bs = Some (request_raw q) \<and> request_ok q
     \<and> lr_schema_version q = SCHEMA_VERSION \<and> distinct (map env_name (lr_env q))"
  by (auto simp: request_parse_def request_from_slice_iff check_env_entry_loop)

section \<open>What the launch digest determines\<close>

lemma sort_eq_mset: "sort xs = sort ys \<longleftrightarrow> mset xs = mset (ys :: 'a::linorder list)"
  by (metis mset_sort properties_for_sort sorted_sort)

lemma spec_bytes_seq:
  "spec_bytes q =
     spec_magic @ be_bytes 4 (unat (lr_schema_version q))
     @ push_bytes (as_bytes (digest_str (lr_target_digest q)))
     @ push_seq push_bytes (lr_argv q) @ push_bytes (lr_cwd q)
     @ push_seq (\<lambda>(n, v). push_bytes n @ push_bytes v) (sort (env_pairs q))
     @ [stdin_byte (lr_stdin q)]
     @ push_bytes (as_bytes (nonce_str (lr_launch_nonce q)))"
  by (simp add: spec_bytes_def push_seq_def)

lemma spec_bytes_iff:
  assumes len: "length (spec_bytes q) < max_preimage"
  shows "spec_bytes q = spec_bytes r \<longleftrightarrow>
           lr_schema_version q = lr_schema_version r \<and> lr_target_digest q = lr_target_digest r
           \<and> lr_argv q = lr_argv r \<and> lr_cwd q = lr_cwd r \<and> mset (env_pairs q) = mset (env_pairs r)
           \<and> lr_stdin q = lr_stdin r \<and> lr_launch_nonce q = lr_launch_nonce r"
proof -
  let ?A = "push_seq push_bytes (lr_argv q)" and ?C = "push_bytes (lr_cwd q)"
    and ?E = "push_seq (\<lambda>(n, v). push_bytes n @ push_bytes v) (sort (env_pairs q))"
    and ?N = "push_bytes (as_bytes (nonce_str (lr_launch_nonce q)))"
  have std: "lr_stdin q = lr_stdin r" "stdin_byte (lr_stdin q) = stdin_byte (lr_stdin r)"
    by (cases "lr_stdin q"; cases "lr_stdin r"; simp)+
  have l4: "length ?N < max_preimage"
    and l3: "length (?E @ stdin_byte (lr_stdin r) # ?N) < max_preimage"
    and l2: "length ?C + length (?E @ stdin_byte (lr_stdin r) # ?N) < max_preimage"
    and l1: "length (?A @ ?C @ ?E @ stdin_byte (lr_stdin r) # ?N) < max_preimage"
    and l0: "length (push_bytes (as_bytes (digest_str (lr_target_digest q))))
             + length (?A @ ?C @ ?E @ stdin_byte (lr_stdin r) # ?N) < max_preimage"
    using len unfolding spec_bytes_seq by simp_all
  have ids: "digest_str (lr_target_digest q) = digest_str (lr_target_digest r)
             \<longleftrightarrow> lr_target_digest q = lr_target_digest r"
    "nonce_str (lr_launch_nonce q) = nonce_str (lr_launch_nonce r)
             \<longleftrightarrow> lr_launch_nonce q = lr_launch_nonce r"
    by (metis SandboxDigest.collapse, metis LaunchNonce.collapse)
  have be: "be_bytes 4 (unat v) @ a = be_bytes 4 (unat w) @ b \<longleftrightarrow> v = w \<and> a = b" for v w :: u32 and a b
    by (simp add: be_bytes_inj [OF u32_bytes u32_bytes] word_unat_eq_iff)
  show ?thesis
    unfolding spec_bytes_seq
    by (simp only: same_append_eq append_Cons append_Nil be std(2) list.inject simp_thms as_bytes_inj ids
        push_code.peel_iff [OF l0] push_seq_peel [OF push_code.prefix_code_axioms l1]
        push_code.peel_iff [OF l2] push_seq_peel [OF push_pair_code l3] push_code.peel_end [OF l4]
        sort_eq_mset std(1) conj_assoc)
qed

text \<open>With distinct names the environment is a map, and its order does not matter.\<close>

lemma env_pairs_map_of:
  assumes "distinct (map env_name (lr_env q))" "distinct (map env_name (lr_env r))"
  shows "mset (env_pairs q) = mset (env_pairs r) \<longleftrightarrow> map_of (env_pairs q) = map_of (env_pairs r)"
proof -
  have fst: "map fst (env_pairs x) = map env_name (lr_env x)" for x by (simp add: env_pairs_def)
  then have d: "distinct (map fst (env_pairs q))" "distinct (map fst (env_pairs r))" using assms by simp_all
  then have "mset (env_pairs q) = mset (env_pairs r) \<longleftrightarrow> set (env_pairs q) = set (env_pairs r)"
    by (metis distinct_map set_eq_iff_mset_eq_distinct)
  also have "\<dots> \<longleftrightarrow> map_of (env_pairs q) = map_of (env_pairs r)"
    using map_of_inject_set [OF d] by blast
  finally show ?thesis .
qed

end
