(* ===== verification/Worker_Identity.thy ===== *)
theory Worker_Identity
  imports Rust_Std
begin

text \<open>
  Process identity and process-group membership:
  \<^verbatim>\<open>crates/o7-worker/src/process_identity.rs\<close>. The process table is the
  \<^verbatim>\<open>ProcSource\<close> of the source, a parameter: which PIDs it lists and what reading the
  \<^verbatim>\<open>stat\<close> of one of them gives. An \<^verbatim>\<open>i32\<close> is kept as its value, an \<^typ>\<open>int\<close> in range.

  The lemmas show that the scan is the group's live members or an error: no unreadable or
  unparseable entry is taken for a process that is gone.
\<close>

section \<open>Reading integers\<close>

text \<open>\<^verbatim>\<open>str::parse::<i32>\<close> and \<^verbatim>\<open>str::parse::<u64>\<close>: an optional sign, digits, in range.\<close>

definition digit_char :: "char \<Rightarrow> bool" where
  "digit_char c \<longleftrightarrow> 48 \<le> (of_char c :: nat) \<and> (of_char c :: nat) \<le> 57"

definition parse_digits :: "string \<Rightarrow> nat option" where
  "parse_digits s = (if s \<noteq> [] \<and> list_all digit_char s then Some (dec_value s) else None)"

definition parse_i32 :: "string \<Rightarrow> int option" where
  "parse_i32 s =
     (let (neg, body) = (case s of c # r \<Rightarrow> if c = CHR ''-'' then (True, r)
                                            else if c = CHR ''+'' then (False, r) else (False, s)
                         | [] \<Rightarrow> (False, s))
      in case parse_digits body of
           None \<Rightarrow> None
         | Some n \<Rightarrow>
             (let v = (if neg then - int n else int n)
              in if - (2 ^ 31) \<le> v \<and> v < 2 ^ 31 then Some v else None))"

definition parse_u64 :: "string \<Rightarrow> u64 option" where
  "parse_u64 s =
     (case parse_digits (case s of c # r \<Rightarrow> if c = CHR ''+'' then r else s | [] \<Rightarrow> s) of
        None \<Rightarrow> None
      | Some n \<Rightarrow> if n < 2 ^ 64 then Some (of_nat n) else None)"

text \<open>
  \<^verbatim>\<open>split_whitespace\<close>: the maximal runs between white-space characters, which are the one-, two-
  and three-byte sequences of \<open>ascii_white\<close>, \<open>white2\<close> and \<open>white3\<close>. \<open>acc\<close> is the run being read,
  reversed.
\<close>

definition flush :: "string \<Rightarrow> string list \<Rightarrow> string list" where
  "flush acc ws = (if acc = [] then ws else rev acc # ws)"

fun words_from :: "string \<Rightarrow> string \<Rightarrow> string list" where
  "words_from acc [] = flush acc []"
| "words_from acc (a # r) =
     (if ascii_white (of_char a) then flush acc (words_from [] r)
      else (case r of
              b # c # r' \<Rightarrow>
                if white2 (of_char a) (of_char b) then flush acc (words_from [] (c # r'))
                else if white3 (of_char a) (of_char b) (of_char c) then flush acc (words_from [] r')
                else words_from (a # acc) r
            | [b] \<Rightarrow> if white2 (of_char a) (of_char b) then flush acc [] else words_from (a # acc) r
            | [] \<Rightarrow> words_from (a # acc) r))"

definition split_whitespace :: "string \<Rightarrow> string list" where
  "split_whitespace s = words_from [] s"

section \<open>Definitions\<close>

record ProcessIdentity =
  pi_pid :: int
  pi_process_group :: int
  pi_start_time_ticks :: u64

record StatFields =
  st_state :: char
  st_process_group :: int
  st_start_time_ticks :: u64

text \<open>What follows the last \<^verbatim>\<open>)\<close>, if there is one.\<close>

fun after_last_paren :: "string \<Rightarrow> string option" where
  "after_last_paren [] = None"
| "after_last_paren (c # r) =
     (case after_last_paren r of
        Some t \<Rightarrow> Some t
      | None \<Rightarrow> if c = CHR '')'' then Some r else None)"

definition field :: "string list \<Rightarrow> nat \<Rightarrow> string option" where
  "field fs i = (if i < length fs then Some (fs ! i) else None)"

text \<open>The state is the first character of its field; of a multi-byte one, its first byte.\<close>

definition parse_stat :: "string \<Rightarrow> StatFields option" where
  "parse_stat stat =
     Option.bind (after_last_paren stat) (\<lambda>tail.
       let fs = split_whitespace tail in
       Option.bind (field fs 0) (\<lambda>f0.
       Option.bind (case f0 of [] \<Rightarrow> None | c # _ \<Rightarrow> Some c) (\<lambda>state.
       Option.bind (Option.bind (field fs 2) parse_i32) (\<lambda>pgrp.
       Option.bind (Option.bind (field fs 19) parse_u64) (\<lambda>starttime.
         Some \<lparr>st_state = state, st_process_group = pgrp, st_start_time_ticks = starttime\<rparr>)))))"

definition is_terminal_state :: "char \<Rightarrow> bool" where
  "is_terminal_state c \<longleftrightarrow> c = CHR ''Z'' \<or> c = CHR ''X'' \<or> c = CHR ''x''"

text \<open>An I/O error: its kind where it matters, and its raw OS error.\<close>

datatype ErrorKind = NotFound | InvalidData | OtherKind

record IoError =
  io_kind :: ErrorKind
  io_raw_os :: "int option"

definition ESRCH :: int where
  "ESRCH = 3"

definition is_confirmed_proc_exit_race :: "IoError \<Rightarrow> bool" where
  "is_confirmed_proc_exit_race e \<longleftrightarrow> io_kind e = NotFound \<or> io_raw_os e = Some ESRCH"

record ProcSource =
  ps_pids :: "(IoError, int list) result"
  ps_stat :: "int \<Rightarrow> (IoError, string) result"

definition unparseable :: IoError where
  "unparseable = \<lparr>io_kind = InvalidData, io_raw_os = None\<rparr>"

definition scan_pid :: "ProcSource \<Rightarrow> int \<Rightarrow> ProcessIdentity list \<Rightarrow> int \<Rightarrow> (IoError, ProcessIdentity list) result" where
  "scan_pid P pgid members pid =
     (case ps_stat P pid of
        Inl err \<Rightarrow> if is_confirmed_proc_exit_race err then Inr members else Inl err
      | Inr raw \<Rightarrow>
          (case parse_stat raw of
             None \<Rightarrow> Inl unparseable
           | Some fs \<Rightarrow>
               if is_terminal_state (st_state fs) then Inr members
               else if st_process_group fs = pgid
               then Inr (members @ [\<lparr>pi_pid = pid, pi_process_group = st_process_group fs,
                                     pi_start_time_ticks = st_start_time_ticks fs\<rparr>])
               else Inr members))"

definition enumerate_group_with :: "ProcSource \<Rightarrow> int \<Rightarrow> (IoError, ProcessIdentity list) result" where
  "enumerate_group_with P pgid = and_then (ps_pids P) (try_fold (scan_pid P pgid) [])"

definition read_identity :: "ProcSource \<Rightarrow> int \<Rightarrow> ProcessIdentity option" where
  "read_identity P pid =
     (case ps_stat P pid of
        Inl _ \<Rightarrow> None
      | Inr raw \<Rightarrow> map_option (\<lambda>fs. \<lparr>pi_pid = pid, pi_process_group = st_process_group fs,
                                    pi_start_time_ticks = st_start_time_ticks fs\<rparr>) (parse_stat raw))"

section \<open>The scan\<close>

text \<open>What the table says of one PID.\<close>

datatype Standing = Gone | InGroup ProcessIdentity | Outsider | Unknown IoError

definition standing :: "ProcSource \<Rightarrow> int \<Rightarrow> int \<Rightarrow> Standing" where
  "standing P pgid pid =
     (case ps_stat P pid of
        Inl err \<Rightarrow> if is_confirmed_proc_exit_race err then Gone else Unknown err
      | Inr raw \<Rightarrow>
          (case parse_stat raw of
             None \<Rightarrow> Unknown unparseable
           | Some fs \<Rightarrow>
               if is_terminal_state (st_state fs) then Gone
               else if st_process_group fs = pgid
               then InGroup \<lparr>pi_pid = pid, pi_process_group = pgid,
                            pi_start_time_ticks = st_start_time_ticks fs\<rparr>
               else Outsider))"

definition members_of :: "ProcSource \<Rightarrow> int \<Rightarrow> int list \<Rightarrow> ProcessIdentity list" where
  "members_of P pgid pids =
     concat (map (\<lambda>pid. case standing P pgid pid of InGroup i \<Rightarrow> [i] | _ \<Rightarrow> []) pids)"

lemma scan_pid_standing:
  "scan_pid P pgid ms pid =
     (case standing P pgid pid of Unknown e \<Rightarrow> Inl e | InGroup i \<Rightarrow> Inr (ms @ [i]) | _ \<Rightarrow> Inr ms)"
  by (simp add: scan_pid_def standing_def split: sum.splits option.splits if_splits)

lemma scan_iff:
  "try_fold (scan_pid P pgid) ms pids = Inr out \<longleftrightarrow>
     (\<forall>pid \<in> set pids. \<forall>e. standing P pgid pid \<noteq> Unknown e) \<and> out = ms @ members_of P pgid pids"
proof (induction pids arbitrary: ms)
  case (Cons pid pids)
  show ?case
    by (cases "standing P pgid pid") (auto simp: scan_pid_standing [of P pgid ms pid] Cons.IH members_of_def)
qed (auto simp: members_of_def)

lemma enumerate_group_iff:
  "enumerate_group_with P pgid = Inr out \<longleftrightarrow>
     (\<exists>pids. ps_pids P = Inr pids \<and> (\<forall>pid \<in> set pids. \<forall>e. standing P pgid pid \<noteq> Unknown e)
             \<and> out = members_of P pgid pids)"
  by (auto simp: enumerate_group_with_def scan_iff)

text \<open>An empty answer is proof: every listed process is gone or in another group.\<close>

lemma enumerate_empty:
  "enumerate_group_with P pgid = Inr [] \<longleftrightarrow>
     (\<exists>pids. ps_pids P = Inr pids \<and> (\<forall>pid \<in> set pids. standing P pgid pid = Gone \<or> standing P pgid pid = Outsider))"
proof -
  have "(\<forall>e. standing P pgid pid \<noteq> Unknown e) \<and> (case standing P pgid pid of InGroup i \<Rightarrow> [i] | _ \<Rightarrow> []) = []
        \<longleftrightarrow> standing P pgid pid = Gone \<or> standing P pgid pid = Outsider" for pid
    by (cases "standing P pgid pid") simp_all
  then show ?thesis unfolding enumerate_group_iff members_of_def
    by (auto simp: concat_eq_Nil_conv) blast+
qed

end
