(* ===== verification/Worker_Sealed.thy ===== *)
theory Worker_Sealed
  imports Sandbox_Policy
begin

text \<open>
  Acquiring an executable and holding it sealed: \<^verbatim>\<open>crates/o7-worker/src/sealed.rs\<close>. What the
  operating system answers (opening a path with or without following links, the status of the
  object behind it, reading it, creating and sealing an anonymous file) is the parameter
  \<open>Os\<close>; every decision the source takes on those answers is modelled. An error keeps the value
  its text is formatted from.

  The lemmas say what a held object is: the bytes of a regular file of the size its status
  reports, or of a fully sealed descriptor, under a digest of exactly those bytes.
\<close>

section \<open>Definitions\<close>

definition MAX_OBJECT_BYTES :: nat where
  "MAX_OBJECT_BYTES = 256 * 1024 * 1024"

text \<open>\<^verbatim>\<open>F_SEAL_SEAL | F_SEAL_SHRINK | F_SEAL_GROW | F_SEAL_WRITE\<close>, and the file-type bits of a mode.\<close>

definition required_seals :: "32 word" where
  "required_seals = 0xF"

unbundle bit_operations_syntax

definition fully_sealed :: "32 word \<Rightarrow> bool" where
  "fully_sealed got \<longleftrightarrow> got AND required_seals = required_seals"

definition is_regular :: "32 word \<Rightarrow> bool" where
  "is_regular mode \<longleftrightarrow> mode AND 0xF000 = 0x8000"

datatype OpenFault =
    SymlinkPath
  | OpenFailed string
  | FstatFailed string
  | NotRegular
  | NegativeSize
  | EmptyFile
  | ReadFailed string
  | SizeDrift nat nat

datatype SealError = Open OpenFault | TooLargeObject | Seal string | NotSealed | DigestMismatch

datatype TargetStageError = SourceRejected SealError | StagingFailed SealError

text \<open>
  An open descriptor: its status (mode and size) or an error, all the bytes a reader of it would
  get or an error, and its seals or an error.
\<close>

record Descriptor =
  de_stat :: "(string, 32 word \<times> int) result"
  de_read :: "(string, bytes) result"
  de_seals :: "(string, 32 word) result"

datatype OpenError = LOOP | OtherErrno string

text \<open>The outcome of creating an anonymous file, writing it, sealing it and reading it back.\<close>

record Memfd =
  mf_create :: "(string, nat) result"
  mf_write :: "(string, unit) result"
  mf_add_seals :: "(string, unit) result"
  mf_get_seals :: "(string, 32 word) result"
  mf_back :: "(string, bytes) result"

record Os =
  os_process_id :: nat
  os_open_nofollow :: "string \<Rightarrow> (OpenError, Descriptor) result"
  os_open_follow :: "string \<Rightarrow> (string, Descriptor) result"
  os_memfd :: "bytes \<Rightarrow> Memfd"

record SealedObject =
  so_pid :: nat
  so_fd :: nat
  so_digest :: SandboxDigest

definition all_digits :: "string \<Rightarrow> bool" where
  "all_digits s \<longleftrightarrow> s \<noteq> [] \<and> list_all (\<lambda>c. 48 \<le> (of_char c :: nat) \<and> (of_char c :: nat) \<le> 57) s"

definition is_proc_fd_path :: "string \<Rightarrow> bool" where
  "is_proc_fd_path p =
     (case path_components p of
        [RootDir, Normal proc, Normal pid, Normal fd, Normal n] \<Rightarrow>
          proc = ''proc'' \<and> fd = ''fd'' \<and> (pid = ''self'' \<or> pid = ''thread-self'' \<or> all_digits pid)
          \<and> all_digits n
      | _ \<Rightarrow> False)"

text \<open>\<^verbatim>\<open>Read::take(n)\<close>, then \<^verbatim>\<open>read_to_end\<close>.\<close>

definition read_take :: "Descriptor \<Rightarrow> nat \<Rightarrow> (string, bytes) result" where
  "read_take d n = and_then (de_read d) (\<lambda>bs. Inr (take n bs))"

definition read_capped :: "Descriptor \<Rightarrow> (SealError, bytes) result" where
  "read_capped d =
     and_then (map_err (\<lambda>e. Open (ReadFailed e)) (read_take d (MAX_OBJECT_BYTES + 1))) (\<lambda>bs.
       if length bs > MAX_OBJECT_BYTES then Inl TooLargeObject else Inr bs)"

definition acquire_ordinary :: "Os \<Rightarrow> string \<Rightarrow> (SealError, bytes) result" where
  "acquire_ordinary os source =
     and_then (map_err (\<lambda>e. Open (case e of LOOP \<Rightarrow> SymlinkPath | OtherErrno t \<Rightarrow> OpenFailed t))
                 (os_open_nofollow os source)) (\<lambda>fd.
     and_then (map_err (\<lambda>e. Open (FstatFailed e)) (de_stat fd)) (\<lambda>(mode, st_size).
       if \<not> is_regular mode then Inl (Open NotRegular)
       else if st_size < 0 then Inl (Open NegativeSize)
       else let sz = nat st_size in
         if sz = 0 then Inl (Open EmptyFile)
         else if sz > MAX_OBJECT_BYTES then Inl TooLargeObject
         else and_then (map_err (\<lambda>e. Open (ReadFailed e)) (read_take fd (sz + 1))) (\<lambda>bs.
           if length bs \<noteq> sz then Inl (Open (SizeDrift sz (length bs))) else Inr bs)))"

definition acquire_proc_fd :: "Os \<Rightarrow> string \<Rightarrow> (SealError, bytes) result" where
  "acquire_proc_fd os source =
     and_then (map_err (\<lambda>e. Open (OpenFailed e)) (os_open_follow os source)) (\<lambda>fd.
     and_then (map_err (\<lambda>e. Open (FstatFailed e)) (de_stat fd)) (\<lambda>(mode, _).
       if \<not> is_regular mode then Inl (Open NotRegular)
       else and_then (map_err (\<lambda>_. NotSealed) (de_seals fd)) (\<lambda>g.
         if fully_sealed g then read_capped fd else Inl NotSealed)))"

definition acquire :: "Os \<Rightarrow> string \<Rightarrow> (SealError, bytes) result" where
  "acquire os source =
     (if is_proc_fd_path source then acquire_proc_fd os source else acquire_ordinary os source)"

definition stage_from_bytes ::
  "(bytes \<Rightarrow> bytes) \<Rightarrow> Os \<Rightarrow> bytes \<Rightarrow> SandboxDigest \<Rightarrow> (SealError, SealedObject) result" where
  "stage_from_bytes sha os bs expected =
     (let m = os_memfd os bs in
      and_then (map_err Seal (mf_create m)) (\<lambda>raw.
      and_then (map_err Seal (mf_write m)) (\<lambda>_.
      and_then (map_err Seal (mf_add_seals m)) (\<lambda>_.
      and_then (map_err Seal (mf_get_seals m)) (\<lambda>got.
        if \<not> fully_sealed got then Inl NotSealed
        else and_then (map_err Seal (mf_back m)) (\<lambda>back.
          let d = digest_of_bytes sha back in
          if d \<noteq> expected then Inl DigestMismatch
          else Inr \<lparr>so_pid = os_process_id os, so_fd = raw, so_digest = d\<rparr>))))))"

definition stage_from_path ::
  "(bytes \<Rightarrow> bytes) \<Rightarrow> Os \<Rightarrow> string \<Rightarrow> SandboxDigest \<Rightarrow> (SealError, SealedObject) result" where
  "stage_from_path sha os source expected =
     and_then (acquire os source) (\<lambda>bs. stage_from_bytes sha os bs expected)"

definition stage :: "(bytes \<Rightarrow> bytes) \<Rightarrow> Os \<Rightarrow> string \<Rightarrow> (TargetStageError, SealedObject) result" where
  "stage sha os source =
     and_then (map_err SourceRejected (acquire os source)) (\<lambda>bs.
       let d = digest_of_bytes sha bs in map_err StagingFailed (stage_from_bytes sha os bs d))"

definition descriptor_path :: "SealedObject \<Rightarrow> string" where
  "descriptor_path obj = ''/proc/'' @ decimal (so_pid obj) @ ''/fd/'' @ decimal (so_fd obj)"

section \<open>What is held\<close>

lemma acquire_ordinary_regular:
  assumes "acquire_ordinary os source = Inr bs"
  shows "\<exists>fd mode. os_open_nofollow os source = Inr fd \<and> de_stat fd = Inr (mode, int (length bs))
           \<and> is_regular mode \<and> de_read fd = Inr bs \<and> 0 < length bs \<and> length bs \<le> MAX_OBJECT_BYTES"
proof -
  obtain fd mode st_size where fd: "os_open_nofollow os source = Inr fd" "de_stat fd = Inr (mode, st_size)"
    "is_regular mode"
    and pos: "0 < st_size" and le: "nat st_size \<le> MAX_OBJECT_BYTES"
    and rd: "read_take fd (nat st_size + 1) = Inr bs" and len: "length bs = nat st_size"
    using assms by (auto simp: acquire_ordinary_def Let_def split: if_splits)
  obtain all where all: "de_read fd = Inr all" "bs = take (nat st_size + 1) all"
    using rd by (auto simp: read_take_def)
  then have "bs = all" using len by simp
  with fd pos le len all show ?thesis by auto
qed

lemma acquire_bounded: "acquire os source = Inr bs \<Longrightarrow> length bs \<le> MAX_OBJECT_BYTES"
  using acquire_ordinary_regular [of os source bs]
  by (auto simp: acquire_def acquire_proc_fd_def read_capped_def split: if_splits)

text \<open>A staged object is fully sealed and carries the digest of the bytes acquired.\<close>

lemma stage_binds:
  assumes "stage sha os source = Inr obj"
  shows "\<exists>bs back got. acquire os source = Inr bs \<and> mf_back (os_memfd os bs) = Inr back
           \<and> mf_get_seals (os_memfd os bs) = Inr got \<and> fully_sealed got
           \<and> so_digest obj = digest_of_bytes sha bs \<and> sha back = sha bs"
  using assms
  by (auto simp: stage_def stage_from_bytes_def Let_def digest_of_bytes_inj split: if_splits)

section \<open>The path of a held object\<close>

lemma split_on_absent: "c \<notin> set s \<Longrightarrow> split_on c s = [s]"
  by (induction s) auto

lemma decimal_no_slash: "CHR ''/'' \<notin> set (decimal n)"
  using decimal_digits [of "CHR ''/''" n] by auto

lemma decimal_all_digits: "all_digits (decimal n)"
  by (auto simp: all_digits_def list_all_iff dest: decimal_digits)

lemma decimal_component: "parse_component (decimal n) = [Normal (decimal n)]"
proof -
  have "CHR ''.'' \<notin> set (decimal n)" using decimal_digits [of "CHR ''.''" n] by auto
  then show ?thesis by (auto simp: parse_component_def)
qed

lemma descriptor_components:
  "path_components (descriptor_path obj) =
     [RootDir, Normal ''proc'', Normal (decimal (so_pid obj)), Normal ''fd'', Normal (decimal (so_fd obj))]"
proof -
  have "split_on (CHR ''/'') (descriptor_path obj)
        = split_on (CHR ''/'') [] @ split_on (CHR ''/'') ''proc''
          @ split_on (CHR ''/'') (decimal (so_pid obj)) @ split_on (CHR ''/'') ''fd''
          @ split_on (CHR ''/'') (decimal (so_fd obj))"
    unfolding descriptor_path_def
    using split_on_append [of "CHR ''/''" "[]" "''proc/'' @ decimal (so_pid obj) @ ''/fd/'' @ decimal (so_fd obj)"]
      split_on_append [of "CHR ''/''" "''proc''" "decimal (so_pid obj) @ ''/fd/'' @ decimal (so_fd obj)"]
      split_on_append [of "CHR ''/''" "decimal (so_pid obj)" "''fd/'' @ decimal (so_fd obj)"]
      split_on_append [of "CHR ''/''" "''fd''" "decimal (so_fd obj)"]
    by simp
  then have "split_on (CHR ''/'') (descriptor_path obj)
             = [[], ''proc'', decimal (so_pid obj), ''fd'', decimal (so_fd obj)]"
    by (simp add: split_on_absent decimal_no_slash)
  then show ?thesis
    by (simp add: path_components_def descriptor_path_def decimal_component)
      (simp add: parse_component_def)
qed

lemma descriptor_is_proc_fd: "is_proc_fd_path (descriptor_path obj)"
  by (simp add: is_proc_fd_path_def descriptor_components decimal_all_digits)

end
