(* ===== verification/Worker_Boundary.thy ===== *)
theory Worker_Boundary
  imports Sandbox_Wire Worker_Identity Worker_Sealed
begin

text \<open>
  What a worker asks of its boundary and what a boundary must prove:
  \<^verbatim>\<open>crates/o7-worker/src/boundary.rs\<close>, \<^verbatim>\<open>spec.rs\<close> with the policies of
  \<^verbatim>\<open>output.rs\<close>, \<^verbatim>\<open>cancellation.rs\<close> and \<^verbatim>\<open>heartbeat.rs\<close>, and the pure half of
  \<^verbatim>\<open>sandboy_boundary.rs\<close>: the backend's arguments, the launch request, and the verification of
  its report. An \<^verbatim>\<open>OsString\<close> or a path is its bytes; a \<^verbatim>\<open>BTreeMap\<close> is the list of its
  entries in key order; a \<^verbatim>\<open>usize\<close> is a \<^typ>\<open>u64\<close>. Where the source formats a text for a human
  (\<^verbatim>\<open>format!\<close>, \<^verbatim>\<open>to_string\<close>), the model keeps the value that is formatted.

  The lemmas give the exact conditions of acceptance, and show that the arguments of the
  backend determine the policy: what a backend reads off them is the policy whose digest its
  report must carry.
\<close>

section \<open>Attestations, requirements and evidence\<close>

datatype BoundaryKind = UnconfinedHost | Sandboy

datatype EnforcementLevel = EL_None | EL_Partial | FullyEnforced

record BoundaryAttestation =
  ba_implementation :: BoundaryKind
  ba_enforcement :: EnforcementLevel

datatype BoundaryRequirement = AllowUnconfined | RequireFullyEnforced

definition is_satisfied_by :: "BoundaryRequirement \<Rightarrow> BoundaryAttestation \<Rightarrow> bool" where
  "is_satisfied_by q a =
     (case q of
        AllowUnconfined \<Rightarrow> True
      | RequireFullyEnforced \<Rightarrow> ba_enforcement a = FullyEnforced)"

datatype BoundaryExit = ExitCode int | ExitSignal int

datatype StdinMode = StdinModeNull

record BoundarySpawnSpec =
  ss_executable :: string
  ss_arguments :: "string list"
  ss_working_directory :: string
  ss_environment :: "(string \<times> string) list"
  ss_stdin :: StdinMode

datatype BoundaryEvidence = Unconfined | Reported BoundaryAttestation bytes

definition established :: "BoundaryEvidence \<Rightarrow> BoundaryAttestation option" where
  "established e = (case e of Unconfined \<Rightarrow> None | Reported a _ \<Rightarrow> Some a)"

definition satisfies :: "BoundaryEvidence \<Rightarrow> BoundaryRequirement \<Rightarrow> BoundaryAttestation \<Rightarrow> bool" where
  "satisfies e q configured =
     (case q of
        AllowUnconfined \<Rightarrow> True
      | RequireFullyEnforced \<Rightarrow>
          (case e of
             Unconfined \<Rightarrow> False
           | Reported a _ \<Rightarrow>
               ba_enforcement a = FullyEnforced \<and> ba_implementation a = ba_implementation configured))"

section \<open>The worker specification\<close>

record OutputPolicy =
  op_max_chunk_bytes :: u64
  op_channel_capacity :: u64
  op_sink_backpressure_timeout :: Duration
  op_max_trailing_bytes :: "u64 option"

definition OutputPolicy_default :: OutputPolicy where
  "OutputPolicy_default =
     \<lparr>op_max_chunk_bytes = 64 * 1024, op_channel_capacity = 256,
      op_sink_backpressure_timeout = from_secs 5, op_max_trailing_bytes = None\<rparr>"

record CancellationPolicy =
  cp_graceful_timeout :: Duration

definition CancellationPolicy_default :: CancellationPolicy where
  "CancellationPolicy_default = \<lparr>cp_graceful_timeout = from_secs 5\<rparr>"

record HeartbeatPolicy =
  hp_enabled :: bool
  hp_interval :: Duration

definition HeartbeatPolicy_default :: HeartbeatPolicy where
  "HeartbeatPolicy_default = \<lparr>hp_enabled = True, hp_interval = from_secs 1\<rparr>"

record WorkerSpec =
  ws_worker_id :: string
  ws_executable :: string
  ws_arguments :: "string list"
  ws_working_directory :: string
  ws_environment :: "(string \<times> string) list"
  ws_stdin :: StdinMode
  ws_output :: OutputPolicy
  ws_cancellation :: CancellationPolicy
  ws_heartbeat :: HeartbeatPolicy
  ws_boundary_requirement :: BoundaryRequirement

definition MAX_CHUNK_BYTES :: u64 where
  "MAX_CHUNK_BYTES = 16 * 1024 * 1024"

definition MAX_CHANNEL_CAPACITY :: u64 where
  "MAX_CHANNEL_CAPACITY = 65536"

definition MAX_TOTAL_BUFFER_BYTES :: u64 where
  "MAX_TOTAL_BUFFER_BYTES = 256 * 1024 * 1024"

definition WORKER_MAX_TIMEOUT :: Duration where
  "WORKER_MAX_TIMEOUT = from_secs 3600"

datatype SpecError =
    RelativeExecutable string
  | RelativeWorkingDirectory string
  | ZeroChunkSize
  | ChunkSizeTooLarge u64
  | ZeroChannelCapacity
  | ChannelCapacityTooLarge u64
  | OutputBudgetTooLarge u64 u64
  | ZeroHeartbeatInterval
  | HeartbeatIntervalTooLarge Duration
  | GracefulTimeoutTooLarge Duration
  | BackpressureTimeoutTooLarge Duration

text \<open>\<^verbatim>\<open>usize::checked_mul\<close> and \<^verbatim>\<open>Duration::is_zero\<close>.\<close>

definition checked_mul :: "u64 \<Rightarrow> u64 \<Rightarrow> u64 option" where
  "checked_mul a b = (if unat a * unat b < 2 ^ 64 then Some (a * b) else None)"

definition dur_is_zero :: "Duration \<Rightarrow> bool" where
  "dur_is_zero d \<longleftrightarrow> dur_secs d = 0 \<and> dur_nanos d = 0"

definition within_budget :: "OutputPolicy \<Rightarrow> bool" where
  "within_budget pol =
     (case checked_mul (op_max_chunk_bytes pol) (op_channel_capacity pol) of
        None \<Rightarrow> False
      | Some bytes \<Rightarrow> bytes \<le> MAX_TOTAL_BUFFER_BYTES)"

definition spec_validate :: "WorkerSpec \<Rightarrow> (SpecError, unit) result" where
  "spec_validate w =
     (let out = ws_output w; hb = ws_heartbeat w in
      if \<not> is_absolute (ws_executable w) then Inl (RelativeExecutable (ws_executable w))
      else if \<not> is_absolute (ws_working_directory w)
      then Inl (RelativeWorkingDirectory (ws_working_directory w))
      else if op_max_chunk_bytes out = 0 then Inl ZeroChunkSize
      else if op_max_chunk_bytes out > MAX_CHUNK_BYTES
      then Inl (ChunkSizeTooLarge (op_max_chunk_bytes out))
      else if op_channel_capacity out = 0 then Inl ZeroChannelCapacity
      else if op_channel_capacity out > MAX_CHANNEL_CAPACITY
      then Inl (ChannelCapacityTooLarge (op_channel_capacity out))
      else if \<not> within_budget out
      then Inl (OutputBudgetTooLarge (op_max_chunk_bytes out) (op_channel_capacity out))
      else if hp_enabled hb \<and> dur_is_zero (hp_interval hb) then Inl ZeroHeartbeatInterval
      else if hp_enabled hb \<and> dur_less WORKER_MAX_TIMEOUT (hp_interval hb)
      then Inl (HeartbeatIntervalTooLarge (hp_interval hb))
      else if dur_less WORKER_MAX_TIMEOUT (cp_graceful_timeout (ws_cancellation w))
      then Inl (GracefulTimeoutTooLarge (cp_graceful_timeout (ws_cancellation w)))
      else if dur_less WORKER_MAX_TIMEOUT (op_sink_backpressure_timeout out)
      then Inl (BackpressureTimeoutTooLarge (op_sink_backpressure_timeout out))
      else Inr ())"

section \<open>The Sandboy boundary\<close>

record BackendImage =
  bi_object :: SealedObject
  bi_identity :: BackendIdentity

record SandboyBoundary =
  sb_backend :: BackendImage
  sb_policy :: SandboxPolicy

datatype SandboyLaunchError =
    LE_Policy SandboxPolicyError
  | LE_BackendOpen SealError
  | LE_BackendObjectMismatch
  | LE_BackendMismatch
  | LE_BackendDigestMismatch
  | LE_Frame FrameError
  | LE_PolicyDigestMismatch
  | LE_NonceMismatch
  | LE_LaunchSpecMismatch
  | LE_NotFullyEnforced
  | LE_DisallowedEnv string

text \<open>\<^verbatim>\<open>From<SealError>\<close>, which \<^verbatim>\<open>?\<close> applies.\<close>

definition launch_error_of_seal :: "SealError \<Rightarrow> SandboyLaunchError" where
  "launch_error_of_seal e =
     (case e of DigestMismatch \<Rightarrow> LE_BackendObjectMismatch | other \<Rightarrow> LE_BackendOpen other)"

definition backend_acquire ::
  "(bytes \<Rightarrow> bytes) \<Rightarrow> Os \<Rightarrow> string \<Rightarrow> SandboxDigest \<Rightarrow> BackendIdentity \<Rightarrow> (SandboyLaunchError, BackendImage) result" where
  "backend_acquire sha os path expected identity =
     and_then (map_err launch_error_of_seal (stage_from_path sha os path expected)) (\<lambda>obj.
       Inr \<lparr>bi_object = obj, bi_identity = identity\<rparr>)"

definition sandboy_new :: "BackendImage \<Rightarrow> SandboxPolicy \<Rightarrow> (SandboyLaunchError, SandboyBoundary) result" where
  "sandboy_new backend policy =
     and_then (map_err LE_Policy (policy_validate policy)) (\<lambda>_.
       Inr \<lparr>sb_backend = backend, sb_policy = policy\<rparr>)"

definition sandboy_policy_flags :: "SandboxPolicy \<Rightarrow> string list" where
  "sandboy_policy_flags p =
     (case sp_network p of DenyAll \<Rightarrow> [''--deny-net''])
     @ [''--worktree'', sp_worktree p]
     @ [''--timeout-ms'', decimal (as_millis (sp_timeout p))]
     @ concat (map (\<lambda>path. [''--allow-exec'', path]) (sp_allow_exec p))
     @ concat (map (\<lambda>name. [''--allow-env'', name]) (sp_env_allowlist p))"

definition backend_argv :: "SandboyBoundary \<Rightarrow> LaunchNonce \<Rightarrow> string \<Rightarrow> string list" where
  "backend_argv b nonce sealed_target =
     [''run'', ''--launch-nonce'', nonce_str nonce] @ sandboy_policy_flags (sb_policy b)
     @ [''--''] @ [sealed_target]"

datatype SpawnFault =
    NotPermitted string
  | NonceFault string
  | StagingJoin string
  | StagingFault SealError
  | IoFault string
  | NoValidPid
  | NoIdentity

datatype EvidenceFault =
    LaunchFault SandboyLaunchError
  | RequestFault RequestFrameError
  | NoReport
  | GoFailed

datatype BoundaryError =
    SpawnError SpawnFault
  | TargetAcquisition SealError
  | SignalError string
  | WaitError string
  | MembershipError IoError
  | Evidence EvidenceFault
  | UnsupportedPlatform

text \<open>The production environment of the backend is empty.\<close>

definition backend_environment :: "SandboyBoundary \<Rightarrow> (string \<times> string) list" where
  "backend_environment b = []"

definition backend_spawn_spec ::
  "SandboyBoundary \<Rightarrow> BoundarySpawnSpec \<Rightarrow> string \<Rightarrow> LaunchNonce \<Rightarrow> (BoundaryError, BoundarySpawnSpec) result" where
  "backend_spawn_spec b s sealed_target nonce =
     (if \<not> permits_exec (sb_policy b) (ss_executable s)
      then Inl (SpawnError (NotPermitted (ss_executable s)))
      else Inr \<lparr>ss_executable = descriptor_path (bi_object (sb_backend b)),
                ss_arguments = backend_argv b nonce sealed_target,
                ss_working_directory = ''/'',
                ss_environment = backend_environment b,
                ss_stdin = ss_stdin s\<rparr>)"

definition push_env ::
  "string set \<Rightarrow> EnvEntry list \<Rightarrow> string \<times> string \<Rightarrow> (SandboyLaunchError, EnvEntry list) result" where
  "push_env allowed env = (\<lambda>(name, v).
     if name \<notin> allowed then Inl (LE_DisallowedEnv name)
     else Inr (env @ [\<lparr>env_name = as_bytes name, env_value = as_bytes v\<rparr>]))"

definition launch_request ::
  "SandboyBoundary \<Rightarrow> BoundarySpawnSpec \<Rightarrow> SandboxDigest \<Rightarrow> LaunchNonce \<Rightarrow> (SandboyLaunchError, LaunchRequest) result" where
  "launch_request b s target_digest nonce =
     and_then (try_fold (push_env (set (sp_env_allowlist (sb_policy b)))) [] (ss_environment s)) (\<lambda>env.
       Inr \<lparr>lr_schema_version = SCHEMA_VERSION,
            lr_target_digest = target_digest,
            lr_argv = map as_bytes (ss_arguments s),
            lr_cwd = as_bytes (ss_working_directory s),
            lr_env = env,
            lr_stdin = (case ss_stdin s of StdinModeNull \<Rightarrow> StdinNull),
            lr_launch_nonce = nonce\<rparr>)"

definition sandboy_attestation :: BoundaryAttestation where
  "sandboy_attestation = \<lparr>ba_implementation = Sandboy, ba_enforcement = FullyEnforced\<rparr>"

definition verify_report ::
  "(bytes \<Rightarrow> bytes) \<Rightarrow> (SandboxReport, RawReport) serde \<Rightarrow> SandboyBoundary \<Rightarrow> bytes \<Rightarrow> LaunchNonce \<Rightarrow> SandboxDigest
   \<Rightarrow> (SandboyLaunchError, BoundaryEvidence) result" where
  "verify_report sha S b frame_bytes nonce launch_spec_digest =
     and_then (map_err LE_Frame (decode_report S frame_bytes)) (\<lambda>r.
       if sr_backend r \<noteq> bi_identity (sb_backend b) then Inl LE_BackendMismatch
       else if sr_backend_digest r \<noteq> so_digest (bi_object (sb_backend b)) then Inl LE_BackendDigestMismatch
       else if sr_policy_digest r \<noteq> policy_digest sha (sb_policy b) then Inl LE_PolicyDigestMismatch
       else if sr_launch_nonce r \<noteq> nonce then Inl LE_NonceMismatch
       else if sr_launch_spec_digest r \<noteq> launch_spec_digest then Inl LE_LaunchSpecMismatch
       else if \<not> is_fully_enforced r then Inl LE_NotFullyEnforced
       else Inr (Reported sandboy_attestation frame_bytes))"

section \<open>Acceptance, exactly\<close>

lemma checked_mul_budget:
  "within_budget pol \<longleftrightarrow> unat (op_max_chunk_bytes pol) * unat (op_channel_capacity pol) \<le> 268435456"
proof -
  have bound: "unat MAX_TOTAL_BUFFER_BYTES = 268435456" by (simp add: MAX_TOTAL_BUFFER_BYTES_def)
  show ?thesis
  proof (cases "unat (op_max_chunk_bytes pol) * unat (op_channel_capacity pol) < 2 ^ 64")
    case True
    then have "unat (op_max_chunk_bytes pol * op_channel_capacity pol)
               = unat (op_max_chunk_bytes pol) * unat (op_channel_capacity pol)"
      by (simp add: unat_word_ariths)
    with True bound show ?thesis
      by (simp add: within_budget_def checked_mul_def word_le_nat_alt)
  qed (simp add: within_budget_def checked_mul_def)
qed

lemma spec_validate_iff:
  "spec_validate w = Inr () \<longleftrightarrow>
     is_absolute (ws_executable w) \<and> is_absolute (ws_working_directory w)
     \<and> 0 < op_max_chunk_bytes (ws_output w) \<and> op_max_chunk_bytes (ws_output w) \<le> MAX_CHUNK_BYTES
     \<and> 0 < op_channel_capacity (ws_output w) \<and> op_channel_capacity (ws_output w) \<le> MAX_CHANNEL_CAPACITY
     \<and> within_budget (ws_output w)
     \<and> (hp_enabled (ws_heartbeat w) \<longrightarrow>
          \<not> dur_is_zero (hp_interval (ws_heartbeat w)) \<and> \<not> dur_less WORKER_MAX_TIMEOUT (hp_interval (ws_heartbeat w)))
     \<and> \<not> dur_less WORKER_MAX_TIMEOUT (cp_graceful_timeout (ws_cancellation w))
     \<and> \<not> dur_less WORKER_MAX_TIMEOUT (op_sink_backpressure_timeout (ws_output w))"
  by (auto simp: spec_validate_def Let_def word_gt_0)

lemma verify_report_iff:
  "verify_report sha S b fr nonce spec_dig = Inr ev \<longleftrightarrow>
     (\<exists>r. decode_report S fr = Inr r \<and> sr_backend r = bi_identity (sb_backend b)
          \<and> sr_backend_digest r = so_digest (bi_object (sb_backend b))
          \<and> sr_policy_digest r = policy_digest sha (sb_policy b)
          \<and> sr_launch_nonce r = nonce \<and> sr_launch_spec_digest r = spec_dig
          \<and> (\<forall>d. dimension r d = Enforced))
     \<and> ev = Reported sandboy_attestation fr"
  by (auto simp: verify_report_def simp flip: fully_enforced_all)

text \<open>Only verified evidence satisfies a demand for full enforcement.\<close>

lemma satisfies_iff:
  "satisfies e RequireFullyEnforced c \<longleftrightarrow>
     (\<exists>report. e = Reported \<lparr>ba_implementation = ba_implementation c, ba_enforcement = FullyEnforced\<rparr> report)"
  by (cases e) (auto simp: satisfies_def)

lemma push_env_loop:
  "try_fold (push_env allowed) acc xs = Inr env \<longleftrightarrow>
     fst ` set xs \<subseteq> allowed \<and> env = acc @ map (\<lambda>(n, v). \<lparr>env_name = as_bytes n, env_value = as_bytes v\<rparr>) xs"
proof (induction xs arbitrary: acc)
  case (Cons x xs)
  obtain n v where x: "x = (n, v)" by (cases x)
  have "push_env allowed acc x = (if n \<notin> allowed then Inl (LE_DisallowedEnv n)
        else Inr (acc @ [\<lparr>env_name = as_bytes n, env_value = as_bytes v\<rparr>]))"
    by (simp add: push_env_def x)
  then show ?case by (auto simp: Cons.IH x)
qed auto

lemma launch_request_iff:
  "launch_request b s td nonce = Inr q \<longleftrightarrow>
     fst ` set (ss_environment s) \<subseteq> set (sp_env_allowlist (sb_policy b))
     \<and> q = \<lparr>lr_schema_version = SCHEMA_VERSION, lr_target_digest = td,
            lr_argv = map as_bytes (ss_arguments s), lr_cwd = as_bytes (ss_working_directory s),
            lr_env = map (\<lambda>(n, v). \<lparr>env_name = as_bytes n, env_value = as_bytes v\<rparr>) (ss_environment s),
            lr_stdin = StdinNull, lr_launch_nonce = nonce\<rparr>"
  by (cases "ss_stdin s") (auto simp: launch_request_def push_env_loop)

section \<open>The arguments of the backend\<close>

text \<open>
  A reading of the flags: what a backend reconstructs from them, option by option. It is the
  reference against which \<open>policy_flags\<close> is proved, and no part of the program.
\<close>

fun read_allow :: "string \<Rightarrow> string list \<Rightarrow> string list \<times> string list" where
  "read_allow flag (f # v # rest) =
     (if f = flag then (let (vs, r) = read_allow flag rest in (v # vs, r)) else ([], f # v # rest))"
| "read_allow flag rest = ([], rest)"

definition read_flags :: "string list \<Rightarrow> SandboxPolicy option" where
  "read_flags args =
     (case args of
        deny # w # worktree # t # ms # rest \<Rightarrow>
          if deny = ''--deny-net'' \<and> w = ''--worktree'' \<and> t = ''--timeout-ms'' then
            (let (execs, r1) = read_allow ''--allow-exec'' rest; (envs, r2) = read_allow ''--allow-env'' r1
             in if r2 = [] then
                  Some \<lparr>sp_worktree = worktree, sp_allow_exec = execs, sp_network = DenyAll,
                        sp_env_allowlist = envs, sp_timeout = from_millis (of_nat (dec_value ms))\<rparr>
                else None)
          else None
      | _ \<Rightarrow> None)"

lemma read_allow_pairs:
  assumes "\<forall>f v r. rest = f # v # r \<longrightarrow> f \<noteq> flag"
  shows "read_allow flag (concat (map (\<lambda>v. [flag, v]) vs) @ rest) = (vs, rest)"
proof (induction vs)
  case Nil
  show ?case
  proof (cases rest)
    case (Cons f r)
    with assms show ?thesis by (cases r) simp_all
  qed simp
qed simp

lemma from_millis_exact:
  assumes ok: "dur_ok d" and le: "as_nanos d \<le> 86400000000000" and whole: "unat (dur_nanos d) mod 1000000 = 0"
  shows "from_millis (of_nat (as_millis d)) = d"
proof -
  let ?s = "unat (dur_secs d)" and ?n = "unat (dur_nanos d)"
  have s: "?s * 1000000000 \<le> 86400000000000" using le by (simp only: as_nanos_def)
  have n: "?n < 1000000000" using ok by (simp only: dur_ok_def)
  have q: "?n div 1000000 < 1000" using n by (simp only: div_less_iff_less_mult)
  have ms: "as_millis d < 2 ^ 64" using s q unfolding as_millis_def by simp
  have "as_millis d div 1000 = ?s" "as_millis d mod 1000 = ?n div 1000000"
    using q unfolding as_millis_def by simp_all
  moreover have "?n div 1000000 * 1000000 = ?n" using whole by (metis add.right_neutral div_mult_mod_eq)
  moreover have "unat (of_nat (as_millis d) :: u64) = as_millis d" using ms by (simp add: unat_of_nat)
  ultimately have "unat ((of_nat (as_millis d) :: u64) div 1000) = ?s"
    and "unat ((of_nat (as_millis d) :: u64) mod 1000) * 1000000 = ?n"
    by (simp_all add: unat_div unat_mod)
  then show ?thesis
    unfolding from_millis_def by (simp add: word_unat_eq_iff)
qed

lemma read_flags_exact:
  assumes "policy_validate p = Inr ()" and "dur_ok (sp_timeout p)"
  shows "read_flags (sandboy_policy_flags p) = Some p"
proof -
  have net: "sp_network p = DenyAll" by (cases "sp_network p")
  have "timeout_ok (sp_timeout p)" using assms(1) by (simp add: validate_iff)
  then have t: "from_millis (of_nat (as_millis (sp_timeout p))) = sp_timeout p"
    using assms(2) timeout_ok_nanos [OF assms(2)] by (simp add: from_millis_exact timeout_ok_def)
  let ?envs = "concat (map (\<lambda>n. [''--allow-env'', n]) (sp_env_allowlist p))"
  have "\<forall>f v r. ?envs = f # v # r \<longrightarrow> f \<noteq> ''--allow-exec''" by (cases "sp_env_allowlist p") simp_all
  note execs = read_allow_pairs [OF this, of "sp_allow_exec p"]
  have envs: "read_allow ''--allow-env'' ?envs = (sp_env_allowlist p, [])"
    using read_allow_pairs [of "[]" "''--allow-env''" "sp_env_allowlist p"] by simp
  show ?thesis
    by (simp add: read_flags_def sandboy_policy_flags_def net execs envs dec_value_decimal t)
qed

end
