(* ===== verification/Worker_Launch.thy ===== *)
theory Worker_Launch
  imports Worker_Boundary
begin

text \<open>
  Launching under the Sandboy boundary: \<^verbatim>\<open>spawn\<close> and \<^verbatim>\<open>kill_and_reap\<close> of
  \<^verbatim>\<open>crates/o7-worker/src/sandboy_boundary.rs\<close>, and the host boundary's \<^verbatim>\<open>spawn\<close> of
  \<^verbatim>\<open>host_boundary.rs\<close>. What the world answers, once the launch asks, is the parameter
  \<open>LaunchWorld\<close>; what the launch does to the world is a list of effects, in order: the backend
  started, the request sent, the GO byte written (whether or not the write succeeds), the
  backend's group killed and reaped.

  The wall clock of the reaping loop is explicit: a sleep moves it forward by at least its
  length, so the loop ends at its deadline.
\<close>

section \<open>Reaping\<close>

text \<open>
  \<open>rw_wait\<close> is the bounded wait for the leader (\<open>None\<close> when it timed out), \<open>rw_members i\<close> what the
  \<open>i\<close>-th membership query finds, \<open>rw_late i\<close> the time it takes beyond the sleeps, in milliseconds.
\<close>

record ReapWorld =
  rw_wait :: "(string, unit) result option"
  rw_members :: "nat \<Rightarrow> ProcSource"
  rw_late :: "nat \<Rightarrow> nat"

function drain_group :: "ReapWorld \<Rightarrow> int \<Rightarrow> nat \<Rightarrow> nat \<Rightarrow> nat \<Rightarrow> (BoundaryError, unit) result" where
  "drain_group W pgid i clock deadline =
     (case enumerate_group_with (rw_members W i) pgid of
        Inr [] \<Rightarrow> Inr ()
      | Inr _ \<Rightarrow>
          if clock + rw_late W i \<ge> deadline
          then Inl (SignalError ''backend cleanup did not complete: owned group did not drain'')
          else drain_group W pgid (Suc i) (clock + rw_late W i + 25) deadline
      | Inl e \<Rightarrow> Inl (MembershipError e))"
  by pat_completeness auto
termination
  by (relation "measure (\<lambda>(W, pgid, i, clock, deadline). deadline - clock)") auto

declare drain_group.simps [simp del]

definition kill_and_reap :: "ReapWorld \<Rightarrow> int \<Rightarrow> (BoundaryError, unit) result" where
  "kill_and_reap W pgid =
     (case rw_wait W of
        Some (Inr _) \<Rightarrow> if pgid > 0 then drain_group W pgid 0 0 3000 else Inr ()
      | Some (Inl e) \<Rightarrow> Inl (WaitError e)
      | None \<Rightarrow> Inl (SignalError ''backend cleanup did not complete: leader reap timed out''))"

section \<open>The launch\<close>

record LaunchWorld =
  lw_linux :: bool
  lw_mint :: "(string, LaunchNonce) result"
  lw_os :: Os
  lw_stage_join :: "(string, unit) result"
  lw_socket_pair :: "(string, unit) result"
  lw_command :: "BoundarySpawnSpec \<Rightarrow> (string, u32 option) result"
  lw_proc :: ProcSource
  lw_reply :: "bytes \<Rightarrow> bytes option"
  lw_go :: bool
  lw_reap :: ReapWorld

datatype LaunchEffect =
    BackendStarted BoundarySpawnSpec
  | RequestSent bytes
  | GoSent
  | Reaped "(BoundaryError, unit) result"

record BoundaryLaunch =
  bl_identity :: ProcessIdentity
  bl_evidence :: BoundaryEvidence

definition signalable_pid :: "u32 option \<Rightarrow> (BoundaryError, int) result" where
  "signalable_pid raw =
     (case raw of
        Some v \<Rightarrow> if unat v < 2 ^ 31 \<and> 0 < unat v then Inr (int (unat v)) else Inl (SpawnError NoValidPid)
      | None \<Rightarrow> Inl (SpawnError NoValidPid))"

text \<open>
  The reader on the control socket: one frame, and then the end of the stream. The reply is all
  the bytes the backend writes before it closes its side.
\<close>

definition read_report :: "bytes \<Rightarrow> bytes option" where
  "read_report reply =
     (if length reply < 4 then None
      else let len = be_value (take 4 reply) in
        if len > MAX_REPORT_BYTES then None
        else if length reply < 4 + len then None
        else if length reply > 4 + len then None
        else Some (take 4 reply @ take len (drop 4 reply)))"

definition classify_target_stage_error :: "TargetStageError \<Rightarrow> BoundaryError" where
  "classify_target_stage_error e =
     (case e of
        SourceRejected inner \<Rightarrow> TargetAcquisition inner
      | StagingFailed inner \<Rightarrow> SpawnError (StagingFault inner))"

type_synonym launch_outcome = "LaunchEffect list \<times> (BoundaryError, BoundaryLaunch) result"

text \<open>\<^verbatim>\<open>kill_and_reap(..).await?; return Err(e)\<close>: an unproven cleanup dominates.\<close>

definition reap_then :: "LaunchWorld \<Rightarrow> int \<Rightarrow> LaunchEffect list \<Rightarrow> BoundaryError \<Rightarrow> launch_outcome" where
  "reap_then W pgid tr e =
     (let r = kill_and_reap (lw_reap W) pgid
      in (tr @ [Reaped r], case r of Inl c \<Rightarrow> Inl c | Inr _ \<Rightarrow> Inl e))"

text \<open>From the report to the authorisation.\<close>

definition authorise ::
  "(bytes \<Rightarrow> bytes) \<Rightarrow> (SandboxReport, RawReport) serde \<Rightarrow> LaunchWorld \<Rightarrow> SandboyBoundary \<Rightarrow> LaunchNonce
   \<Rightarrow> SandboxDigest \<Rightarrow> int \<Rightarrow> ProcessIdentity \<Rightarrow> LaunchEffect list \<Rightarrow> bytes \<Rightarrow> launch_outcome" where
  "authorise sha S W b nonce spec_dig pid identity tr report_bytes =
     (case verify_report sha S b report_bytes nonce spec_dig of
        Inl e \<Rightarrow> reap_then W pid tr (Evidence (LaunchFault e))
      | Inr evidence \<Rightarrow>
          if lw_go W
          then (tr @ [GoSent], Inr \<lparr>bl_identity = identity, bl_evidence = evidence\<rparr>)
          else reap_then W pid (tr @ [GoSent]) (Evidence GoFailed))"

text \<open>From the started backend to its report.\<close>

definition handshake ::
  "(bytes \<Rightarrow> bytes) \<Rightarrow> (SandboxReport, RawReport) serde \<Rightarrow> LaunchWorld \<Rightarrow> SandboyBoundary \<Rightarrow> LaunchNonce
   \<Rightarrow> SandboxDigest \<Rightarrow> bytes \<Rightarrow> u32 option \<Rightarrow> LaunchEffect list \<Rightarrow> launch_outcome" where
  "handshake sha S W b nonce spec_dig request_bytes child tr =
     (case signalable_pid child of
        Inl e \<Rightarrow> reap_then W (-1) tr e
      | Inr pid \<Rightarrow>
          (case read_identity (lw_proc W) pid of
             None \<Rightarrow> reap_then W pid tr (SpawnError NoIdentity)
           | Some identity \<Rightarrow>
               (let tr' = tr @ [RequestSent request_bytes] in
                case Option.bind (lw_reply W request_bytes) read_report of
                  None \<Rightarrow> reap_then W pid tr' (Evidence NoReport)
                | Some report_bytes \<Rightarrow>
                    authorise sha S W b nonce spec_dig pid identity tr' report_bytes)))"

definition sandboy_spawn ::
  "(bytes \<Rightarrow> bytes) \<Rightarrow> (SandboxReport, RawReport) serde \<Rightarrow> (LaunchRequest, RawRequest) serde
   \<Rightarrow> LaunchWorld \<Rightarrow> SandboyBoundary \<Rightarrow> BoundarySpawnSpec \<Rightarrow> launch_outcome" where
  "sandboy_spawn sha S Q W b s =
     (if \<not> lw_linux W then ([], Inl UnsupportedPlatform)
      else if \<not> permits_exec (sb_policy b) (ss_executable s)
      then ([], Inl (SpawnError (NotPermitted (ss_executable s))))
      else
        (case and_then (map_err (\<lambda>e. SpawnError (NonceFault e)) (lw_mint W)) (\<lambda>nonce.
              and_then (map_err (\<lambda>e. SpawnError (StagingJoin e)) (lw_stage_join W)) (\<lambda>_.
              and_then (map_err classify_target_stage_error (stage sha (lw_os W) (ss_executable s))) (\<lambda>target.
              and_then (map_err (\<lambda>e. Evidence (LaunchFault e)) (launch_request b s (so_digest target) nonce)) (\<lambda>request.
              and_then (map_err (\<lambda>e. Evidence (RequestFault e)) (encode_request Q request)) (\<lambda>request_bytes.
              and_then (backend_spawn_spec b s (descriptor_path target) nonce) (\<lambda>backend_spec.
              and_then (map_err (\<lambda>e. SpawnError (IoFault e)) (lw_socket_pair W)) (\<lambda>_.
              and_then (map_err (\<lambda>e. SpawnError (IoFault e)) (lw_command W backend_spec)) (\<lambda>child.
                Inr (nonce, request, request_bytes, backend_spec, child))))))))) of
           Inl e \<Rightarrow> ([], Inl e)
         | Inr (nonce, request, request_bytes, backend_spec, child) \<Rightarrow>
             handshake sha S W b nonce (spec_digest sha request) request_bytes child
               [BackendStarted backend_spec]))"

definition host_attestation :: BoundaryAttestation where
  "host_attestation = \<lparr>ba_implementation = UnconfinedHost, ba_enforcement = EL_None\<rparr>"

definition host_spawn :: "LaunchWorld \<Rightarrow> BoundarySpawnSpec \<Rightarrow> (BoundaryError, BoundaryLaunch) result" where
  "host_spawn W s =
     (if \<not> lw_linux W then Inl UnsupportedPlatform
      else and_then (map_err (\<lambda>e. SpawnError (IoFault e)) (lw_command W s)) (\<lambda>child.
           and_then (signalable_pid child) (\<lambda>pid.
             let identity = (case read_identity (lw_proc W) pid of
                               Some i \<Rightarrow> i
                             | None \<Rightarrow> \<lparr>pi_pid = pid, pi_process_group = pid, pi_start_time_ticks = 0\<rparr>)
             in if pi_process_group identity \<le> 0
                then Inl (SignalError ''refusing to own a boundary with non-positive process group'')
                else Inr \<lparr>bl_identity = identity, bl_evidence = Unconfined\<rparr>)))"

section \<open>Authorisation is a barrier\<close>

lemma reap_then_simps [simp]:
  "fst (reap_then W pgid tr e) = tr @ [Reaped (kill_and_reap (lw_reap W) pgid)]"
  "snd (reap_then W pgid tr e) \<noteq> Inr l"
  by (simp_all add: reap_then_def Let_def split: sum.splits unit.splits)

text \<open>The reader delivers the reply itself, when it is one whole frame within the ceiling.\<close>

lemma read_report_iff:
  "read_report reply = Some fr \<longleftrightarrow>
     fr = reply \<and> 4 \<le> length reply \<and> be_value (take 4 reply) \<le> MAX_REPORT_BYTES
     \<and> length reply = 4 + be_value (take 4 reply)"
  by (auto simp: read_report_def Let_def)

text \<open>
  What a successful start has established, before the backend was asked to do anything.
\<close>

definition prepared ::
  "(bytes \<Rightarrow> bytes) \<Rightarrow> (LaunchRequest, RawRequest) serde \<Rightarrow> LaunchWorld \<Rightarrow> SandboyBoundary \<Rightarrow> BoundarySpawnSpec
   \<Rightarrow> LaunchNonce \<Rightarrow> LaunchRequest \<Rightarrow> bytes \<Rightarrow> BoundarySpawnSpec \<Rightarrow> bool" where
  "prepared sha Q W b s nonce request request_bytes backend_spec \<longleftrightarrow>
     permits_exec (sb_policy b) (ss_executable s) \<and> lw_mint W = Inr nonce
     \<and> (\<exists>target. stage sha (lw_os W) (ss_executable s) = Inr target
          \<and> launch_request b s (so_digest target) nonce = Inr request
          \<and> backend_spawn_spec b s (descriptor_path target) nonce = Inr backend_spec)
     \<and> encode_request Q request = Inr request_bytes"

lemma spawn_started:
  assumes "fst (sandboy_spawn sha S Q W b s) \<noteq> []"
  shows "\<exists>nonce request request_bytes backend_spec child.
           prepared sha Q W b s nonce request request_bytes backend_spec
           \<and> sandboy_spawn sha S Q W b s
             = handshake sha S W b nonce (spec_digest sha request) request_bytes child [BackendStarted backend_spec]"
  using assms
  by (auto simp: sandboy_spawn_def prepared_def and_then_def map_err_def split: if_splits sum.splits)

lemma handshake_go:
  assumes "GoSent \<in> set (fst (handshake sha S W b nonce dig req child tr))" and "GoSent \<notin> set tr"
  shows "\<exists>fr ev. lw_reply W req = Some fr \<and> read_report fr = Some fr
           \<and> verify_report sha S b fr nonce dig = Inr ev"
  using assms
  by (auto simp: handshake_def authorise_def Let_def read_report_iff bind_eq_Some_conv
      split: sum.splits option.splits if_splits)

lemma handshake_ok:
  assumes "snd (handshake sha S W b nonce dig req child tr) = Inr launch"
  shows "\<exists>fr. lw_reply W req = Some fr \<and> verify_report sha S b fr nonce dig = Inr (bl_evidence launch)
           \<and> bl_evidence launch = Reported sandboy_attestation fr \<and> lw_go W
           \<and> read_identity (lw_proc W) (pi_pid (bl_identity launch)) = Some (bl_identity launch)
           \<and> fst (handshake sha S W b nonce dig req child tr) = tr @ [RequestSent req, GoSent]"
proof -
  obtain pid i fr ev where *: "signalable_pid child = Inr pid" "read_identity (lw_proc W) pid = Some i"
    "lw_reply W req = Some fr" "read_report fr = Some fr" "verify_report sha S b fr nonce dig = Inr ev" "lw_go W"
    and launch: "launch = \<lparr>bl_identity = i, bl_evidence = ev\<rparr>"
    using assms
    by (auto simp: handshake_def authorise_def Let_def read_report_iff bind_eq_Some_conv
        split: sum.splits option.splits if_splits)
  have "pi_pid i = pid" using *(2) by (auto simp: read_identity_def split: sum.splits)
  moreover have "ev = Reported sandboy_attestation fr" using *(5) verify_report_iff by blast
  ultimately show ?thesis using * by (simp add: launch handshake_def authorise_def)
qed

text \<open>The launch ended by reaping the backend's group: proven gone, or the error says it is not.\<close>

definition reaped_with :: "LaunchWorld \<Rightarrow> launch_outcome \<Rightarrow> BoundaryError \<Rightarrow> bool" where
  "reaped_with W out e \<longleftrightarrow>
     (\<exists>pgid tr r. r = kill_and_reap (lw_reap W) pgid \<and> fst out = tr @ [Reaped r] \<and> (r = Inr () \<or> r = Inl e))"

lemma reap_then_reaped: "snd (reap_then W p t f) = Inl e \<Longrightarrow> reaped_with W (reap_then W p t f) e"
proof -
  assume "snd (reap_then W p t f) = Inl e"
  then have "kill_and_reap (lw_reap W) p = Inr () \<or> kill_and_reap (lw_reap W) p = Inl e"
    by (cases "kill_and_reap (lw_reap W) p") (simp_all add: reap_then_def Let_def)
  then show ?thesis unfolding reaped_with_def using reap_then_simps(1) [of W p t f] by blast
qed

lemma handshake_err:
  "snd (handshake sha S W b nonce dig req child tr) = Inl e \<Longrightarrow>
   reaped_with W (handshake sha S W b nonce dig req child tr) e"
  by (auto simp: handshake_def authorise_def Let_def
      split: sum.splits option.splits if_splits intro: reap_then_reaped)

text \<open>A proven reap is proven: some membership query found the group empty.\<close>

lemma drain_group_empty:
  "drain_group W pgid i clock deadline = Inr () \<Longrightarrow> \<exists>j. enumerate_group_with (rw_members W j) pgid = Inr []"
proof (induction W pgid i clock deadline rule: drain_group.induct)
  case (1 W pgid i clock deadline)
  note step = "1.prems" [unfolded drain_group.simps [of W pgid i clock deadline]]
  show ?case
  proof (cases "enumerate_group_with (rw_members W i) pgid")
    case (Inl e)
    with step show ?thesis by simp
  next
    case (Inr ms)
    show ?thesis
    proof (cases ms)
      case (Cons m ms')
      then have "\<not> clock + rw_late W i \<ge> deadline"
        and "drain_group W pgid (Suc i) (clock + rw_late W i + 25) deadline = Inr ()"
        using step Inr by (auto split: if_splits)
      then show ?thesis using "1.IH" Inr Cons by blast
    qed (use Inr in auto)
  qed
qed

lemma kill_and_reap_empty:
  "kill_and_reap W pgid = Inr () \<Longrightarrow> 0 < pgid \<Longrightarrow> \<exists>j. enumerate_group_with (rw_members W j) pgid = Inr []"
proof -
  assume ok: "kill_and_reap W pgid = Inr ()" and pos: "0 < pgid"
  from ok obtain u where u: "rw_wait W = Some (Inr u)"
    by (simp add: kill_and_reap_def split: option.splits sum.splits)
  have "drain_group W pgid 0 0 3000 = Inr ()"
    using ok pos unfolding kill_and_reap_def u by (cases u) simp
  then show ?thesis by (rule drain_group_empty)
qed

end
