(* ===== verification/Worker_Supervisor.thy ===== *)
theory Worker_Supervisor
  imports Worker_Boundary
begin

text \<open>
  The worker supervisor: \<^verbatim>\<open>crates/o7-worker/src/supervisor.rs\<close>, with the states of
  \<^verbatim>\<open>state.rs\<close> and the observations of \<^verbatim>\<open>observation.rs\<close>.

  The boundary, the observation sink and the clock are what the supervisor talks to, the
  parameter \<open>World\<close>: the answer to the \<open>n\<close>-th interaction, and how long it took beyond what the
  program waits for. A bounded call (\<^verbatim>\<open>tokio::time::timeout\<close>) answers, fails or times out.
  The branches \<^verbatim>\<open>tokio::select!\<close> takes in the run loop are a list of events, in the order it
  takes them; a loop whose events run out is still running (\<open>None\<close>). The supervisor's own state
  is a record: whether the sink is alive, what was published, which boundary operations were
  issued with what outcome, the lifecycle state. The cleanup loops poll against a deadline on the
  clock and every poll sleeps, so they end.

  A text the source formats (\<^verbatim>\<open>format!\<close>) is kept as a \<open>Message\<close>: one constructor per format
  string, with its arguments.
\<close>

section \<open>States, observations, results\<close>

datatype WorkerState = Created | Starting | Running | Cancelling | Exited | StartFailed

definition worker_terminal :: "WorkerState \<Rightarrow> bool" where
  "worker_terminal s \<longleftrightarrow> s = Exited \<or> s = StartFailed"

definition can_transition_to :: "WorkerState \<Rightarrow> WorkerState \<Rightarrow> bool" where
  "can_transition_to a b =
     (case (a, b) of
        (Created, Starting) \<Rightarrow> True
      | (Starting, Running) \<Rightarrow> True
      | (Starting, StartFailed) \<Rightarrow> True
      | (Starting, Cancelling) \<Rightarrow> True
      | (Running, Cancelling) \<Rightarrow> True
      | (Running, Exited) \<Rightarrow> True
      | (Cancelling, Exited) \<Rightarrow> True
      | _ \<Rightarrow> False)"

datatype OutputStream = Stdout | Stderr

record OutputChunk =
  oc_stream :: OutputStream
  oc_sequence :: u64
  oc_bytes :: bytes

datatype SinkFault = SinkError string | SinkTimeout Duration | SinkUnknown

datatype Message =
    M_Sink SinkFault
  | M_Invalid WorkerState WorkerState
  | M_Requirement BoundaryRequirement EnforcementLevel
  | M_Spec SpecError
  | M_Spawn BoundaryError
  | M_Evidence BoundaryRequirement BoundaryKind "BoundaryAttestation option"
  | M_Text string
  | M_GracefulFailed string
  | M_ForceFailed string
  | M_ForceTimeout
  | M_ReapFailed string
  | M_ReapTimeout
  | M_MembersTimeout
  | M_MembersInDrain Message
  | M_ForceInCleanup Message
  | M_Survivors nat
  | M_PrimarySink Message
  | M_PrimaryOutput Message
  | M_PrimaryBoundary Message
  | M_Join "Message list"
  | M_Underlying SinkFault Message
  | M_SinkLost Message SinkFault
  | M_DrainIdle
  | M_DrainBudget
  | M_DrainDeadline
  | M_Kind string

datatype WorkerObservation =
    BoundaryAttested BoundaryAttestation
  | SpawnRequested
  | LaunchEvidence BoundaryEvidence
  | Spawned ProcessIdentity
  | OutputObserved OutputChunk
  | Heartbeat string u64 nat ProcessIdentity
  | CancellationRequested
  | GracefulStopSent
  | ForceStopSent
  | DescendantsRemaining "ProcessIdentity list"
  | ExitObserved BoundaryExit
  | CleanupCompleted
  | SupervisorFailed Message

datatype WorkerResult =
    ExitedNormally int
  | ExitedBySignal int
  | CancelledGracefully
  | CancelledForcefully
  | FailedToStart Message
  | BoundaryFailure Message
  | ObservationFailure Message
  | OutputFailure Message
  | CleanupFailure Message

definition result_kind :: "WorkerResult \<Rightarrow> string" where
  "result_kind r =
     (case r of
        ExitedNormally _ \<Rightarrow> ''EXITED_NORMALLY''
      | ExitedBySignal _ \<Rightarrow> ''EXITED_BY_SIGNAL''
      | CancelledGracefully \<Rightarrow> ''CANCELLED_GRACEFULLY''
      | CancelledForcefully \<Rightarrow> ''CANCELLED_FORCEFULLY''
      | FailedToStart _ \<Rightarrow> ''FAILED_TO_START''
      | BoundaryFailure _ \<Rightarrow> ''BOUNDARY_FAILURE''
      | ObservationFailure _ \<Rightarrow> ''OBSERVATION_FAILURE''
      | OutputFailure _ \<Rightarrow> ''OUTPUT_FAILURE''
      | CleanupFailure _ \<Rightarrow> ''CLEANUP_FAILURE'')"

definition is_failure :: "WorkerResult \<Rightarrow> bool" where
  "is_failure r =
     (case r of
        FailedToStart _ \<Rightarrow> True
      | BoundaryFailure _ \<Rightarrow> True
      | ObservationFailure _ \<Rightarrow> True
      | OutputFailure _ \<Rightarrow> True
      | CleanupFailure _ \<Rightarrow> True
      | _ \<Rightarrow> False)"

definition result_message :: "WorkerResult \<Rightarrow> Message" where
  "result_message r =
     (case r of
        FailedToStart m \<Rightarrow> m
      | BoundaryFailure m \<Rightarrow> m
      | ObservationFailure m \<Rightarrow> m
      | OutputFailure m \<Rightarrow> m
      | CleanupFailure m \<Rightarrow> m
      | other \<Rightarrow> M_Kind (result_kind other))"

section \<open>The world and the supervisor's state\<close>

datatype 'a Bounded = B_Ok 'a | B_Err string | B_Timeout

datatype PublishAnswer = PubOk | PubErr string | PubTimeout

record World =
  wo_publish :: "nat \<Rightarrow> WorkerObservation \<Rightarrow> PublishAnswer"
  wo_graceful :: "nat \<Rightarrow> unit Bounded"
  wo_force :: "nat \<Rightarrow> unit Bounded"
  wo_wait :: "nat \<Rightarrow> BoundaryExit Bounded"
  wo_members :: "nat \<Rightarrow> ProcessIdentity list Bounded"
  wo_lag :: "nat \<Rightarrow> nat"

datatype BoundaryOp =
    OpGraceful "unit Bounded"
  | OpForce "unit Bounded"
  | OpWait "BoundaryExit Bounded"
  | OpMembers "ProcessIdentity list Bounded"

record Sup =
  su_tick :: nat
  su_clock :: nat
  su_timeout :: Duration
  su_alive :: bool
  su_last_error :: "SinkFault option"
  su_log :: "WorkerObservation list"
  su_ops :: "BoundaryOp list"
  su_state :: WorkerState

text \<open>Nanoseconds.\<close>

definition GROUP_POLL_INTERVAL :: nat where
  "GROUP_POLL_INTERVAL = 50000000"

definition CLEANUP_GRACE :: nat where
  "CLEANUP_GRACE = 500000000"

definition DRAIN_IDLE_TIMEOUT :: nat where
  "DRAIN_IDLE_TIMEOUT = 500000000"

definition MAX_TRAILING_DRAIN :: nat where
  "MAX_TRAILING_DRAIN = 3000000000"

text \<open>One interaction: the tick passes, and so does its time.\<close>

definition tock :: "World \<Rightarrow> Sup \<Rightarrow> Sup" where
  "tock W s = s\<lparr>su_tick := Suc (su_tick s), su_clock := su_clock s + wo_lag W (su_tick s)\<rparr>"

definition sleep :: "nat \<Rightarrow> Sup \<Rightarrow> Sup" where
  "sleep d s = s\<lparr>su_clock := su_clock s + d\<rparr>"

definition issue :: "BoundaryOp \<Rightarrow> Sup \<Rightarrow> Sup" where
  "issue op s = s\<lparr>su_ops := su_ops s @ [op]\<rparr>"

definition pub_error :: "Sup \<Rightarrow> SinkFault" where
  "pub_error s = (case su_last_error s of Some f \<Rightarrow> f | None \<Rightarrow> SinkUnknown)"

definition emit :: "World \<Rightarrow> WorkerObservation \<Rightarrow> Sup \<Rightarrow> bool \<times> Sup" where
  "emit W ob s =
     (if \<not> su_alive s then (False, s)
      else (case wo_publish W (su_tick s) ob of
              PubOk \<Rightarrow> (True, (tock W s)\<lparr>su_log := su_log s @ [ob]\<rparr>)
            | PubErr e \<Rightarrow> (False, (tock W s)\<lparr>su_alive := False, su_last_error := Some (SinkError e)\<rparr>)
            | PubTimeout \<Rightarrow>
                (False, (tock W s)\<lparr>su_alive := False, su_last_error := Some (SinkTimeout (su_timeout s))\<rparr>)))"

definition advance_worker :: "WorkerState \<Rightarrow> Sup \<Rightarrow> (Message, unit) result \<times> Sup" where
  "advance_worker to s =
     (if can_transition_to (su_state s) to then (Inr (), s\<lparr>su_state := to\<rparr>)
      else (Inl (M_Invalid (su_state s) to), s))"

section \<open>Bounded boundary operations\<close>

datatype GracefulStop = GS_Ok | GS_Failed Message | GS_TimedOut

definition bounded_graceful_stop :: "World \<Rightarrow> Sup \<Rightarrow> GracefulStop \<times> Sup" where
  "bounded_graceful_stop W s =
     (let r = wo_graceful W (su_tick s); s' = issue (OpGraceful r) (tock W s)
      in (case r of B_Ok _ \<Rightarrow> GS_Ok | B_Err e \<Rightarrow> GS_Failed (M_GracefulFailed e) | B_Timeout \<Rightarrow> GS_TimedOut, s'))"

definition bounded_force_stop :: "World \<Rightarrow> Sup \<Rightarrow> (Message, unit) result \<times> Sup" where
  "bounded_force_stop W s =
     (let r = wo_force W (su_tick s); s' = issue (OpForce r) (tock W s)
      in (case r of B_Ok _ \<Rightarrow> Inr () | B_Err e \<Rightarrow> Inl (M_ForceFailed e) | B_Timeout \<Rightarrow> Inl M_ForceTimeout, s'))"

definition bounded_reap :: "World \<Rightarrow> Sup \<Rightarrow> (Message, BoundaryExit) result \<times> Sup" where
  "bounded_reap W s =
     (let r = wo_wait W (su_tick s); s' = issue (OpWait r) (tock W s)
      in (case r of B_Ok x \<Rightarrow> Inr x | B_Err e \<Rightarrow> Inl (M_ReapFailed e) | B_Timeout \<Rightarrow> Inl M_ReapTimeout, s'))"

definition bounded_members :: "World \<Rightarrow> Sup \<Rightarrow> (Message, ProcessIdentity list) result \<times> Sup" where
  "bounded_members W s =
     (let r = wo_members W (su_tick s); s' = issue (OpMembers r) (tock W s)
      in (case r of B_Ok ms \<Rightarrow> Inr ms | B_Err e \<Rightarrow> Inl (M_Text e) | B_Timeout \<Rightarrow> Inl M_MembersTimeout, s'))"

lemma tock_clock [simp]: "su_clock s \<le> su_clock (tock W s)"
  by (simp add: tock_def)

lemma bounded_members_clock: "su_clock s \<le> su_clock (snd (bounded_members W s))"
  by (simp add: bounded_members_def Let_def issue_def tock_def)

lemma bounded_members_step: "bounded_members W s = (m, s1) \<Longrightarrow> su_clock s \<le> su_clock s1"
  using bounded_members_clock [of s W] by simp

lemma deadline_nearer: "c \<le> c1 \<Longrightarrow> \<not> d \<le> c1 \<Longrightarrow> 0 < k \<Longrightarrow> d - (c1 + k) < d - (c :: nat)"
  by arith

section \<open>Cleanup\<close>

function cleanup_loop :: "World \<Rightarrow> nat \<Rightarrow> Sup \<Rightarrow> (Message, unit) result \<times> Sup" where
  "cleanup_loop W deadline s =
     (let (m, s1) = bounded_members W s in
      case m of
        Inl e \<Rightarrow> (Inl e, s1)
      | Inr survivors \<Rightarrow>
          if survivors = [] then (Inr (), s1)
          else if su_clock s1 \<ge> deadline then (Inl (M_Survivors (length survivors)), s1)
          else cleanup_loop W deadline (sleep GROUP_POLL_INTERVAL s1))"
  by pat_completeness auto
termination
  by (relation "measure (\<lambda>(W, deadline, s). deadline - su_clock s)")
    (auto simp: sleep_def GROUP_POLL_INTERVAL_def intro!: deadline_nearer dest!: sym [of "(_, _)"] bounded_members_step)

declare cleanup_loop.simps [simp del]

definition cleanup_group :: "World \<Rightarrow> Sup \<Rightarrow> (Message, unit) result \<times> Sup" where
  "cleanup_group W s =
     (let (m, s1) = bounded_members W s in
      case m of
        Inl e \<Rightarrow> (Inl e, s1)
      | Inr remaining \<Rightarrow>
          if remaining = [] then (Inr (), s1)
          else let (_, s2) = emit W (DescendantsRemaining remaining) s1;
                   (f, s3) = bounded_force_stop W s2
               in case f of
                    Inl e \<Rightarrow> (Inl (M_ForceInCleanup e), s3)
                  | Inr _ \<Rightarrow> cleanup_loop W (su_clock s3 + CLEANUP_GRACE) s3)"

definition abandon_and_verify :: "World \<Rightarrow> Sup \<Rightarrow> (Message, unit) result \<times> Sup" where
  "abandon_and_verify W s =
     (let (f, s1) = bounded_force_stop W s;
          (r, s2) = bounded_reap W s1;
          (c, s3) = cleanup_group W s2;
          faults = (case f of Inl e \<Rightarrow> [e] | Inr _ \<Rightarrow> []) @ (case r of Inl e \<Rightarrow> [e] | Inr _ \<Rightarrow> [])
                   @ (case c of Inl e \<Rightarrow> [e] | Inr _ \<Rightarrow> [])
      in (if faults = [] then Inr () else Inl (M_Join faults), s3))"

section \<open>Cancellation\<close>

datatype Termination =
    T_Natural BoundaryExit
  | T_Cancelled bool "BoundaryExit option"
  | T_SinkFailed Message "BoundaryExit option"
  | T_OutputFailed Message "BoundaryExit option"
  | T_BoundaryFailed Message "BoundaryExit option"

definition force_after_grace :: "World \<Rightarrow> BoundaryExit option \<Rightarrow> Sup \<Rightarrow> Termination \<times> Sup" where
  "force_after_grace W exit s =
     (let (_, s1) = emit W ForceStopSent s;
          (f, s2) = bounded_force_stop W s1
      in case f of
           Inl e \<Rightarrow> (T_BoundaryFailed e exit, s2)
         | Inr _ \<Rightarrow>
             (case exit of
                Some x \<Rightarrow> (T_Cancelled True (Some x), s2)
              | None \<Rightarrow>
                  (let (r, s3) = bounded_reap W s2
                   in case r of
                        Inr x \<Rightarrow> (T_Cancelled True (Some x), s3)
                      | Inl e \<Rightarrow> (T_BoundaryFailed e None, s3))))"

function graceful_drain :: "World \<Rightarrow> nat \<Rightarrow> BoundaryExit option \<Rightarrow> Sup \<Rightarrow> Termination \<times> Sup" where
  "graceful_drain W deadline exit s =
     (let (m, s1) = bounded_members W s in
      case m of
        Inl fault \<Rightarrow> (T_BoundaryFailed (M_MembersInDrain fault) exit, s1)
      | Inr members \<Rightarrow>
          if members = [] then (T_Cancelled False exit, s1)
          else if su_clock s1 \<ge> deadline then force_after_grace W exit s1
          else graceful_drain W deadline exit (sleep (min GROUP_POLL_INTERVAL (deadline - su_clock s1)) s1))"
  by pat_completeness auto
termination
  by (relation "measure (\<lambda>(W, deadline, exit, s). deadline - su_clock s)")
    (auto simp: sleep_def GROUP_POLL_INTERVAL_def intro!: deadline_nearer dest!: sym [of "(_, _)"] bounded_members_step)

declare graceful_drain.simps [simp del]

definition run_cancellation :: "World \<Rightarrow> Duration \<Rightarrow> Sup \<Rightarrow> Termination \<times> Sup" where
  "run_cancellation W grace s =
     (let (_, s1) = emit W CancellationRequested s;
          deadline = su_clock s1 + as_nanos grace;
          (g, s2) = bounded_graceful_stop W s1
      in case g of
           GS_Failed e \<Rightarrow> (T_BoundaryFailed e None, s2)
         | GS_TimedOut \<Rightarrow> force_after_grace W None s2
         | GS_Ok \<Rightarrow>
             (let (_, s3) = emit W GracefulStopSent s2;
                  r = wo_wait W (su_tick s3); s4 = issue (OpWait r) (tock W s3)
              in case r of
                   B_Ok x \<Rightarrow> graceful_drain W deadline (Some x) s4
                 | B_Err e \<Rightarrow> (T_BoundaryFailed (M_Text e) None, s4)
                 | B_Timeout \<Rightarrow> force_after_grace W None s4))"

section \<open>Output\<close>

datatype ReaderMessage = RM_Chunk OutputChunk | RM_ReadError string

text \<open>
  A reader task: the outcomes of its successive reads, each with whether the channel still takes
  the message. A read fills at most the buffer; an empty one is the end of the stream.
\<close>

fun read_stream :: "OutputStream \<Rightarrow> nat \<Rightarrow> u64 \<Rightarrow> ((string, bytes) result \<times> bool) list \<Rightarrow> ReaderMessage list" where
  "read_stream st cap sq [] = []"
| "read_stream st cap sq ((Inr bs, sent) # rest) =
     (if bs = [] then []
      else if sent
      then RM_Chunk \<lparr>oc_stream = st, oc_sequence = sq, oc_bytes = take (max cap 1) bs\<rparr>
           # read_stream st cap (sq + 1) rest
      else [])"
| "read_stream st cap sq ((Inl e, sent) # rest) = (if sent then [RM_ReadError e] else [])"

text \<open>How the trailing drain ended, and what its successive receives got.\<close>

datatype DrainEnd = D_Skipped | D_Closed | D_Idle | D_Budget | D_Deadline | D_ReadError string | D_SinkLost

datatype Recv = RV_Message ReaderMessage | RV_Closed | RV_Timeout

definition recv_timed_out :: "World \<Rightarrow> nat \<Rightarrow> Sup \<Rightarrow> DrainEnd \<times> Sup" where
  "recv_timed_out W deadline s =
     (let s1 = sleep (min DRAIN_IDLE_TIMEOUT (deadline - su_clock s)) (tock W s)
      in (if su_clock s1 \<ge> deadline then D_Deadline else D_Idle, s1))"

definition within_cap :: "u64 option \<Rightarrow> nat \<Rightarrow> nat \<Rightarrow> bool" where
  "within_cap byte_cap drained len =
     (case byte_cap of
        None \<Rightarrow> True
      | Some cap \<Rightarrow> drained + len < 2 ^ 64 \<and> drained + len \<le> unat cap)"

text \<open>When no receive is left nothing more arrives, so the next one times out.\<close>

fun drain_output :: "World \<Rightarrow> u64 option \<Rightarrow> nat \<Rightarrow> nat \<Rightarrow> Recv list \<Rightarrow> Sup \<Rightarrow> DrainEnd \<times> Sup" where
  "drain_output W byte_cap deadline drained [] s =
     (if deadline - su_clock s = 0 then (D_Deadline, s) else recv_timed_out W deadline s)"
| "drain_output W byte_cap deadline drained (r # rest) s =
     (if deadline - su_clock s = 0 then (D_Deadline, s)
      else case r of
        RV_Timeout \<Rightarrow> recv_timed_out W deadline s
      | RV_Closed \<Rightarrow> (D_Closed, tock W s)
      | RV_Message (RM_ReadError m) \<Rightarrow> (D_ReadError m, tock W s)
      | RV_Message (RM_Chunk c) \<Rightarrow>
          (let s1 = tock W s; len = length (oc_bytes c) in
           if \<not> within_cap byte_cap drained len then (D_Budget, s1)
           else let (ok, s2) = emit W (OutputObserved c) s1 in
             if \<not> ok then (D_SinkLost, s2)
             else drain_output W byte_cap deadline (min (drained + len) (2 ^ 64 - 1)) rest s2))"

section \<open>The run loop\<close>

datatype Phase =
    P_Natural BoundaryExit
  | P_CancelRequested
  | P_SinkFailed Message
  | P_OutputFailed Message
  | P_BoundaryFailed Message

datatype Event =
    EvExit BoundaryExit
  | EvWaitError string
  | EvChunk OutputChunk
  | EvReadError string
  | EvOutputClosed
  | EvHeartbeat
  | EvCancel

text \<open>
  A disabled branch (output after the channel closed, a heartbeat when there is none) is never
  taken. \<open>started\<close> is the clock when the loop began.
\<close>

fun select_loop ::
  "World \<Rightarrow> WorkerSpec \<Rightarrow> ProcessIdentity \<Rightarrow> nat \<Rightarrow> bool \<Rightarrow> u64 \<Rightarrow> Event list \<Rightarrow> Sup \<Rightarrow> Phase option \<times> Sup" where
  "select_loop W w i started output_open sq [] s = (None, s)"
| "select_loop W w i started output_open sq (ev # evs) s =
     (let s0 = tock W s in
      case ev of
        EvExit x \<Rightarrow> (Some (P_Natural x), issue (OpWait (B_Ok x)) s0)
      | EvWaitError e \<Rightarrow> (Some (P_BoundaryFailed (M_Text e)), issue (OpWait (B_Err e)) s0)
      | EvCancel \<Rightarrow> (Some P_CancelRequested, s0)
      | EvOutputClosed \<Rightarrow> select_loop W w i started False sq evs s0
      | EvReadError m \<Rightarrow>
          if output_open then (Some (P_OutputFailed (M_Text m)), s0)
          else select_loop W w i started output_open sq evs s0
      | EvChunk c \<Rightarrow>
          if output_open then
            (let (ok, s1) = emit W (OutputObserved c) s0 in
             if ok then select_loop W w i started output_open sq evs s1
             else (Some (P_SinkFailed (M_Sink (pub_error s1))), s1))
          else select_loop W w i started output_open sq evs s0
      | EvHeartbeat \<Rightarrow>
          if hp_enabled (ws_heartbeat w) then
            (let (ok, s1) = emit W (Heartbeat (ws_worker_id w) sq (su_clock s0 - started) i) s0 in
             if ok then select_loop W w i started output_open (sq + 1) evs s1
             else (Some (P_SinkFailed (M_Sink (pub_error s1))), s1))
          else select_loop W w i started output_open sq evs s0)"

section \<open>The end of a run\<close>

definition primary_fault_message :: "Termination \<Rightarrow> Message option" where
  "primary_fault_message t =
     (case t of
        T_SinkFailed m _ \<Rightarrow> Some (M_PrimarySink m)
      | T_OutputFailed m _ \<Rightarrow> Some (M_PrimaryOutput m)
      | T_BoundaryFailed m _ \<Rightarrow> Some (M_PrimaryBoundary m)
      | _ \<Rightarrow> None)"

definition fault_reaped :: "Termination \<Rightarrow> BoundaryExit option option" where
  "fault_reaped t =
     (case t of
        T_SinkFailed _ r \<Rightarrow> Some r
      | T_OutputFailed _ r \<Rightarrow> Some r
      | T_BoundaryFailed _ r \<Rightarrow> Some r
      | _ \<Rightarrow> None)"

definition termination_of :: "World \<Rightarrow> WorkerSpec \<Rightarrow> Phase \<Rightarrow> Sup \<Rightarrow> Termination \<times> Sup" where
  "termination_of W w ph s =
     (case ph of
        P_Natural x \<Rightarrow> (T_Natural x, s)
      | P_SinkFailed m \<Rightarrow> (T_SinkFailed m None, s)
      | P_OutputFailed m \<Rightarrow> (T_OutputFailed m None, s)
      | P_BoundaryFailed m \<Rightarrow> (T_BoundaryFailed m None, s)
      | P_CancelRequested \<Rightarrow>
          run_cancellation W (cp_graceful_timeout (ws_cancellation w)) (snd (advance_worker Cancelling s)))"

definition emergency_teardown :: "World \<Rightarrow> Termination \<Rightarrow> Sup \<Rightarrow> Message list \<times> Sup" where
  "emergency_teardown W t s =
     (case fault_reaped t of
        None \<Rightarrow> ([], s)
      | Some already \<Rightarrow>
          (let (_, s1) = emit W ForceStopSent s;
               (f, s2) = bounded_force_stop W s1;
               faults = (case f of Inl e \<Rightarrow> [e] | Inr _ \<Rightarrow> [])
           in if already = None
              then let (r, s3) = bounded_reap W s2
                   in (faults @ (case r of Inl e \<Rightarrow> [e] | Inr _ \<Rightarrow> []), s3)
              else (faults, s2)))"

definition compose_cleanup :: "Termination \<Rightarrow> Message list \<Rightarrow> (Message, unit) result" where
  "compose_cleanup t faults =
     (if faults = [] then Inr ()
      else Inl (M_Join ((case primary_fault_message t of Some m \<Rightarrow> [m] | None \<Rightarrow> []) @ faults)))"

definition reported_exit :: "Termination \<Rightarrow> BoundaryExit option" where
  "reported_exit t =
     (case t of
        T_Natural x \<Rightarrow> Some x
      | T_Cancelled _ x \<Rightarrow> x
      | T_SinkFailed _ r \<Rightarrow> r
      | T_OutputFailed _ r \<Rightarrow> r
      | T_BoundaryFailed _ r \<Rightarrow> r)"

definition base_result :: "Termination \<Rightarrow> WorkerResult" where
  "base_result t =
     (case t of
        T_Natural (ExitCode c) \<Rightarrow> ExitedNormally c
      | T_Natural (ExitSignal g) \<Rightarrow> ExitedBySignal g
      | T_Cancelled forceful _ \<Rightarrow> if forceful then CancelledForcefully else CancelledGracefully
      | T_SinkFailed m _ \<Rightarrow> ObservationFailure m
      | T_OutputFailed m _ \<Rightarrow> OutputFailure m
      | T_BoundaryFailed m _ \<Rightarrow> BoundaryFailure m)"

definition effective_result :: "WorkerResult \<Rightarrow> DrainEnd \<Rightarrow> WorkerResult" where
  "effective_result base d =
     (if is_failure base then base
      else case d of
             D_Idle \<Rightarrow> OutputFailure M_DrainIdle
           | D_Budget \<Rightarrow> OutputFailure M_DrainBudget
           | D_Deadline \<Rightarrow> OutputFailure M_DrainDeadline
           | D_ReadError m \<Rightarrow> OutputFailure (M_Text m)
           | _ \<Rightarrow> base)"

definition observation_failure_message :: "Sup \<Rightarrow> WorkerResult \<Rightarrow> Message" where
  "observation_failure_message s effective =
     (case effective of
        BoundaryFailure m \<Rightarrow> M_Underlying (pub_error s) m
      | OutputFailure m \<Rightarrow> M_Underlying (pub_error s) m
      | _ \<Rightarrow> M_Sink (pub_error s))"

definition finalize :: "(Message, unit) result \<Rightarrow> Sup \<Rightarrow> WorkerResult \<Rightarrow> WorkerResult" where
  "finalize cleanup s effective =
     (case cleanup of
        Inl m \<Rightarrow> if su_alive s then CleanupFailure m else CleanupFailure (M_SinkLost m (pub_error s))
      | Inr _ \<Rightarrow> if su_alive s then effective
                 else ObservationFailure (observation_failure_message s effective))"

text \<open>From the end of the drain to the one terminal result.\<close>

definition conclude :: "World \<Rightarrow> Termination \<Rightarrow> (Message, unit) result \<Rightarrow> DrainEnd \<Rightarrow> Sup \<Rightarrow> WorkerResult \<times> Sup" where
  "conclude W t cleanup d s =
     (let s1 = snd (advance_worker Exited s);
          s2 = (case reported_exit t of Some x \<Rightarrow> snd (emit W (ExitObserved x) s1) | None \<Rightarrow> s1);
          s3 = (case cleanup of Inr _ \<Rightarrow> snd (emit W CleanupCompleted s2) | Inl _ \<Rightarrow> s2);
          effective = effective_result (base_result t) d;
          tentative = finalize cleanup s3 effective;
          s4 = (if su_alive s3 \<and> is_failure tentative
                then snd (emit W (SupervisorFailed (result_message tentative)) s3) else s3)
      in (finalize cleanup s4 effective, s4))"

text \<open>From the end of the run loop to the end of the drain.\<close>

definition wind_down :: "World \<Rightarrow> WorkerSpec \<Rightarrow> Recv list \<Rightarrow> Phase \<Rightarrow> Sup \<Rightarrow> WorkerResult \<times> Sup" where
  "wind_down W w recvs ph s =
     (let (t, s1) = termination_of W w ph s;
          (faults, s2) = emergency_teardown W t s1;
          (c, s3) = cleanup_group W s2;
          cleanup = compose_cleanup t (faults @ (case c of Inl m \<Rightarrow> [m] | Inr _ \<Rightarrow> []));
          (d, s4) = (if cleanup = Inr () \<and> su_alive s3
                     then drain_output W (op_max_trailing_bytes (ws_output w))
                            (su_clock s3 + MAX_TRAILING_DRAIN) 0 recvs s3
                     else (D_Skipped, s3))
      in conclude W t cleanup d s4)"

definition manage ::
  "World \<Rightarrow> WorkerSpec \<Rightarrow> ProcessIdentity \<Rightarrow> Event list \<Rightarrow> Recv list \<Rightarrow> Sup \<Rightarrow> WorkerResult option \<times> Sup" where
  "manage W w i evs recvs s =
     (let (ph, s1) = select_loop W w i (su_clock s) True 0 evs s
      in case ph of
           None \<Rightarrow> (None, s1)
         | Some p \<Rightarrow> (let (r, s2) = wind_down W w recvs p s1 in (Some r, s2)))"

end
