(* ===== verification/Worker_Run.thy ===== *)
theory Worker_Run
  imports Worker_Supervisor
begin

text \<open>
  A whole supervised run: \<^verbatim>\<open>run_inner\<close> of \<^verbatim>\<open>crates/o7-worker/src/supervisor.rs\<close>, over the
  pieces of \<open>Worker_Supervisor\<close>. The boundary's attestation, its answer to \<^verbatim>\<open>spawn\<close> (or that
  cancellation won the race), whether cancellation was requested before, and the two event lists
  are the run's input.

  The lemmas follow the last thing asked of the boundary and what a successful end has published;
  \<open>Worker_Trace\<close> carries them to whole runs.
\<close>

section \<open>Definitions\<close>

datatype SpawnAnswer = SpawnOk ProcessIdentity BoundaryEvidence | SpawnErr BoundaryError | SpawnCancelled

record RunInput =
  ri_attestation :: BoundaryAttestation
  ri_cancel_requested :: bool
  ri_spawn :: SpawnAnswer
  ri_events :: "Event list"
  ri_recvs :: "Recv list"

type_synonym run_outcome = "WorkerResult option \<times> Sup"

definition initial :: "WorkerSpec \<Rightarrow> Sup" where
  "initial w =
     \<lparr>su_tick = 0, su_clock = 0, su_timeout = op_sink_backpressure_timeout (ws_output w), su_alive = True,
      su_last_error = None, su_log = [], su_ops = [], su_state = Created\<rparr>"

definition fail_to_start :: "Message \<Rightarrow> Sup \<Rightarrow> run_outcome" where
  "fail_to_start m s =
     (case advance_worker StartFailed s of
        (Inl e, s1) \<Rightarrow> (Some (CleanupFailure e), s1)
      | (Inr _, s1) \<Rightarrow> (Some (FailedToStart m), s1))"

definition sink_lost :: "Sup \<Rightarrow> run_outcome" where
  "sink_lost s = (Some (ObservationFailure (M_Sink (pub_error s))), s)"

definition cancelled_before_running :: "Sup \<Rightarrow> run_outcome" where
  "cancelled_before_running s = (Some CancelledGracefully, snd (advance_worker Exited (snd (advance_worker Cancelling s))))"

text \<open>A cancellation before a process is owned: the sink hears of it first.\<close>

definition cancel_unlaunched :: "World \<Rightarrow> Sup \<Rightarrow> run_outcome" where
  "cancel_unlaunched W s =
     (let (ok, s1) = emit W CancellationRequested s in
      if \<not> ok then sink_lost s1 else cancelled_before_running s1)"

text \<open>A lost sink while a process is owned: prove the cleanup, keep the primary fault.\<close>

definition abandon_sink_lost :: "World \<Rightarrow> Sup \<Rightarrow> run_outcome" where
  "abandon_sink_lost W s =
     (let fault = M_Sink (pub_error s); (a, s1) = abandon_and_verify W s
      in (case a of
            Inl m \<Rightarrow> (Some (CleanupFailure (M_Join [M_PrimarySink fault, m])), s1)
          | Inr _ \<Rightarrow> (Some (ObservationFailure fault), s1)))"

text \<open>From the moment a live process is owned.\<close>

definition launched :: "World \<Rightarrow> WorkerSpec \<Rightarrow> RunInput \<Rightarrow> ProcessIdentity \<Rightarrow> BoundaryEvidence \<Rightarrow> Sup \<Rightarrow> run_outcome" where
  "launched W w R i ev s =
     (if \<not> satisfies ev (ws_boundary_requirement w) (ri_attestation R) then
        (let m = M_Evidence (ws_boundary_requirement w) (ba_implementation (ri_attestation R)) (established ev);
             (a, s1) = abandon_and_verify W s
         in (case a of
               Inl c \<Rightarrow> (Some (CleanupFailure (M_Join [m, c])), s1)
             | Inr _ \<Rightarrow> fail_to_start m s1))
      else
        (let (ok, s1) = emit W (LaunchEvidence ev) s in
         if \<not> ok then abandon_sink_lost W s1
         else (case advance_worker Running s1 of
                 (Inl e, s2) \<Rightarrow> (Some (CleanupFailure e), snd (abandon_and_verify W s2))
               | (Inr _, s2) \<Rightarrow>
                   (let (ok2, s3) = emit W (Spawned i) s2 in
                    if \<not> ok2 then abandon_sink_lost W s3
                    else manage W w i (ri_events R) (ri_recvs R) s3))))"

text \<open>From the request to spawn.\<close>

definition request_spawn :: "World \<Rightarrow> WorkerSpec \<Rightarrow> RunInput \<Rightarrow> Sup \<Rightarrow> run_outcome" where
  "request_spawn W w R s =
     (let (ok, s1) = emit W SpawnRequested s in
      if \<not> ok then sink_lost s1
      else (case ri_spawn R of
              SpawnErr e \<Rightarrow> fail_to_start (M_Spawn e) s1
            | SpawnCancelled \<Rightarrow> cancel_unlaunched W s1
            | SpawnOk i ev \<Rightarrow> launched W w R i ev s1))"

definition run_inner :: "World \<Rightarrow> WorkerSpec \<Rightarrow> RunInput \<Rightarrow> run_outcome" where
  "run_inner W w R =
     (let (ok, s1) = emit W (BoundaryAttested (ri_attestation R)) (initial w) in
      if \<not> ok then sink_lost s1
      else (case advance_worker Starting s1 of
              (Inl e, s2) \<Rightarrow> (Some (CleanupFailure e), s2)
            | (Inr _, s2) \<Rightarrow>
                if \<not> is_satisfied_by (ws_boundary_requirement w) (ri_attestation R)
                then fail_to_start (M_Requirement (ws_boundary_requirement w) (ba_enforcement (ri_attestation R))) s2
                else (case spec_validate w of
                        Inl e \<Rightarrow> fail_to_start (M_Spec e) s2
                      | Inr _ \<Rightarrow>
                          if ri_cancel_requested R then cancel_unlaunched W s2
                          else request_spawn W w R s2)))"

section \<open>What each step leaves alone\<close>

lemma tock_simps [simp]:
  "su_log (tock W s) = su_log s" "su_ops (tock W s) = su_ops s" "su_alive (tock W s) = su_alive s"
  "su_state (tock W s) = su_state s" "su_last_error (tock W s) = su_last_error s"
  by (simp_all add: tock_def)

lemma sleep_simps [simp]:
  "su_log (sleep d s) = su_log s" "su_ops (sleep d s) = su_ops s" "su_alive (sleep d s) = su_alive s"
  by (simp_all add: sleep_def)

lemma issue_simps [simp]:
  "su_log (issue op s) = su_log s" "su_ops (issue op s) = su_ops s @ [op]" "su_alive (issue op s) = su_alive s"
  by (simp_all add: issue_def)

lemma advance_simps [simp]:
  "su_log (snd (advance_worker t s)) = su_log s" "su_ops (snd (advance_worker t s)) = su_ops s"
  "su_alive (snd (advance_worker t s)) = su_alive s"
  by (simp_all add: advance_worker_def)

lemma emit_ops [simp]: "su_ops (snd (emit W ob s)) = su_ops s"
  by (simp add: emit_def split: PublishAnswer.splits)

lemma emit_True: "fst (emit W ob s) \<Longrightarrow> su_log (snd (emit W ob s)) = su_log s @ [ob] \<and> su_alive (snd (emit W ob s))"
  by (auto simp: emit_def split: if_splits PublishAnswer.splits)

lemma emit_alive: "su_alive (snd (emit W ob s)) \<longleftrightarrow> fst (emit W ob s)"
  by (auto simp: emit_def split: PublishAnswer.splits)

lemma emit_log: "su_log (snd (emit W ob s)) = su_log s @ (if fst (emit W ob s) then [ob] else [])"
  by (auto simp: emit_def split: PublishAnswer.splits)

lemma emit_needs_alive: "fst (emit W ob s) \<Longrightarrow> su_alive s"
  by (auto simp: emit_def split: if_splits)

lemma drain_output_ops [simp]: "su_ops (snd (drain_output W cap dl n rs s)) = su_ops s"
proof (induction W cap dl n rs s rule: drain_output.induct)
  case (2 W cap dl n r rest s)
  then show ?case
    by (auto simp: recv_timed_out_def Let_def split: Recv.splits ReaderMessage.splits prod.splits)
      (metis emit_ops snd_conv tock_simps(2))+
qed (simp add: recv_timed_out_def Let_def)

lemma conclude_ops [simp]: "su_ops (snd (conclude W t c d s)) = su_ops s"
  by (simp add: conclude_def Let_def split: option.splits sum.splits)

section \<open>The last thing asked of the boundary\<close>

text \<open>The owned set was last seen empty.\<close>

definition proven_gone :: "Sup \<Rightarrow> bool" where
  "proven_gone s \<longleftrightarrow> (\<exists>pre. su_ops s = pre @ [OpMembers (B_Ok [])])"

lemma bounded_members_ops:
  "bounded_members W s = (m, s1) \<Longrightarrow> \<exists>r. su_ops s1 = su_ops s @ [OpMembers r] \<and> (m = Inr [] \<longrightarrow> r = B_Ok [])"
  by (auto simp: bounded_members_def Let_def split: Bounded.splits)

lemma bounded_members_gone: "bounded_members W s = (Inr [], s1) \<Longrightarrow> proven_gone s1"
  using bounded_members_ops unfolding proven_gone_def by blast

lemma cleanup_loop_gone: "cleanup_loop W dl s = (Inr u, s') \<Longrightarrow> proven_gone s'"
proof (induction W dl s rule: cleanup_loop.induct)
  case (1 W dl s)
  obtain m s1 where m: "bounded_members W s = (m, s1)" by fastforce
  note step = "1.prems" [unfolded cleanup_loop.simps [of W dl s] m Let_def split]
  show ?case
  proof (cases m)
    case (Inl e)
    with step show ?thesis by simp
  next
    case (Inr xs)
    show ?thesis
    proof (cases "xs = []")
      case True
      with step Inr m show ?thesis by (auto intro: bounded_members_gone)
    next
      case False
      with step Inr have "\<not> su_clock s1 \<ge> dl" "cleanup_loop W dl (sleep GROUP_POLL_INTERVAL s1) = (Inr u, s')"
        by (simp_all split: if_splits)
      then show ?thesis using "1.IH" m Inr False by metis
    qed
  qed
qed

lemma cleanup_group_gone: "cleanup_group W s = (Inr u, s') \<Longrightarrow> proven_gone s'"
  by (auto simp: cleanup_group_def Let_def split: prod.splits sum.splits if_splits
      intro: bounded_members_gone cleanup_loop_gone)

lemma abandon_gone: "abandon_and_verify W s = (Inr u, s') \<Longrightarrow> proven_gone s'"
  by (auto simp: abandon_and_verify_def Let_def split: prod.splits sum.splits if_splits
      intro: cleanup_group_gone)

lemma base_not_cleanup: "base_result t \<noteq> CleanupFailure m"
  by (simp add: base_result_def split: Termination.splits BoundaryExit.splits)

lemma effective_not_cleanup: "effective_result (base_result t) d \<noteq> CleanupFailure m"
  by (simp add: effective_result_def base_not_cleanup split: DrainEnd.splits)

lemma conclude_cleanup:
  "fst (conclude W t c d s) = CleanupFailure m \<Longrightarrow> \<exists>e. c = Inl e"
  by (auto simp: conclude_def finalize_def Let_def effective_not_cleanup split: sum.splits if_splits)

lemma conclude_cleanup_iff: "(\<exists>m. fst (conclude W t c d s) = CleanupFailure m) \<longleftrightarrow> (\<exists>e. c = Inl e)"
proof
  assume "\<exists>e. c = Inl e"
  then show "\<exists>m. fst (conclude W t c d s) = CleanupFailure m"
    by (auto simp: conclude_def finalize_def Let_def)
qed (use conclude_cleanup in blast)

lemma wind_downE:
  assumes "wind_down W w recvs p s = (r, s')"
  obtains t s1 fs s2 c s3 cleanup d s4 where
    "termination_of W w p s = (t, s1)" "emergency_teardown W t s1 = (fs, s2)" "cleanup_group W s2 = (c, s3)"
    "cleanup = compose_cleanup t (fs @ (case c of Inl m \<Rightarrow> [m] | Inr _ \<Rightarrow> []))"
    "(if cleanup = Inr () \<and> su_alive s3
      then drain_output W (op_max_trailing_bytes (ws_output w)) (su_clock s3 + MAX_TRAILING_DRAIN) 0 recvs s3
      else (D_Skipped, s3)) = (d, s4)"
    "conclude W t cleanup d s4 = (r, s')"
proof -
  obtain t s1 where t: "termination_of W w p s = (t, s1)" by fastforce
  obtain fs s2 where fs: "emergency_teardown W t s1 = (fs, s2)" by fastforce
  obtain c s3 where c: "cleanup_group W s2 = (c, s3)" by fastforce
  define cleanup where "cleanup = compose_cleanup t (fs @ (case c of Inl m \<Rightarrow> [m] | Inr _ \<Rightarrow> []))"
  obtain d s4 where d: "(if cleanup = Inr () \<and> su_alive s3
       then drain_output W (op_max_trailing_bytes (ws_output w)) (su_clock s3 + MAX_TRAILING_DRAIN) 0 recvs s3
       else (D_Skipped, s3)) = (d, s4)" by fastforce
  have "conclude W t cleanup d s4 = (r, s')"
    using assms(1) by (simp add: wind_down_def t fs c d flip: cleanup_def)
  then show ?thesis by (rule that [OF t fs c cleanup_def d])
qed

lemma compose_cleanup_Inr: "compose_cleanup t fs = Inr u \<longleftrightarrow> fs = []"
  by (simp add: compose_cleanup_def)

lemma fault_list_Nil: "(case c of Inl m \<Rightarrow> [m] | Inr _ \<Rightarrow> []) = [] \<longleftrightarrow> (\<exists>u. c = Inr u)"
  by (cases c) simp_all

lemma drain_ops_if:
  "(if b then drain_output W cap dl n rs s else (D_Skipped, s)) = (d, s4) \<Longrightarrow> su_ops s4 = su_ops s"
  by (auto split: if_splits) (metis drain_output_ops snd_conv)

lemma wind_down_gone:
  assumes run: "wind_down W w recvs p s = (r, s')" and ne: "\<forall>m. r \<noteq> CleanupFailure m"
  shows "proven_gone s'"
  using run
proof (rule wind_downE)
  fix t s1 fs s2 c s3 cleanup d s4
  assume c: "cleanup_group W s2 = (c, s3)"
    and cl: "cleanup = compose_cleanup t (fs @ (case c of Inl m \<Rightarrow> [m] | Inr _ \<Rightarrow> []))"
    and d: "(if cleanup = Inr () \<and> su_alive s3
      then drain_output W (op_max_trailing_bytes (ws_output w)) (su_clock s3 + MAX_TRAILING_DRAIN) 0 recvs s3
      else (D_Skipped, s3)) = (d, s4)"
    and r: "conclude W t cleanup d s4 = (r, s')"
  have "cleanup = Inr ()"
    using ne conclude_cleanup_iff [of W t cleanup d s4] r by (cases cleanup) auto
  with cl have "\<exists>u. c = Inr u" by (simp add: compose_cleanup_Inr fault_list_Nil eq_commute [of "Inr _"])
  with c have "proven_gone s3" using cleanup_group_gone by blast
  moreover have "su_ops s' = su_ops s3"
    using r conclude_ops [of W t cleanup d s4] drain_ops_if [OF d] by simp
  ultimately show ?thesis by (simp add: proven_gone_def)
qed

section \<open>What a successful end has published\<close>

lemma drain_output_alive:
  "drain_output W cap dl n rs s = (d, s') \<Longrightarrow> (su_alive s' \<longrightarrow> su_alive s) \<and> (d = D_SinkLost \<longrightarrow> \<not> su_alive s')
     \<and> d \<noteq> D_Skipped"
proof (induction W cap dl n rs s arbitrary: d s' rule: drain_output.induct)
  case (1 W cap dl n s)
  then show ?case by (auto simp: recv_timed_out_def Let_def split: if_splits)
next
  case (2 W cap dl n r rest s)
  show ?case
  proof (cases "\<exists>c. r = RV_Message (RM_Chunk c) \<and> dl - su_clock s \<noteq> 0 \<and> within_cap cap n (length (oc_bytes c))")
    case True
    then obtain c where r: "r = RV_Message (RM_Chunk c)" "dl - su_clock s \<noteq> 0"
      "within_cap cap n (length (oc_bytes c))" by blast
    obtain ok s2 where e: "emit W (OutputObserved c) (tock W s) = (ok, s2)" by fastforce
    have alive: "su_alive s2 = ok" "ok \<longrightarrow> su_alive s"
      using emit_alive [of W "OutputObserved c" "tock W s"] emit_needs_alive [of W "OutputObserved c" "tock W s"] e
      by simp_all
    show ?thesis
    proof (cases ok)
      case True
      then have "drain_output W cap dl (min (n + length (oc_bytes c)) (2 ^ 64 - 1)) rest s2 = (d, s')"
        using "2.prems" r e by (simp add: Let_def)
      with "2.IH" [OF r(2,1) refl refl refl _ e [symmetric] refl] True r(3) alive show ?thesis by blast
    next
      case False
      with "2.prems" r e alive show ?thesis by (auto simp: Let_def)
    qed
  next
    case False
    with "2.prems" show ?thesis
      by (auto simp: recv_timed_out_def Let_def split: if_splits Recv.splits ReaderMessage.splits)
  qed
qed

lemma drain_output_closed: "fst (drain_output W cap dl n rs s) = D_Closed \<Longrightarrow> RV_Closed \<in> set rs"
proof (induction W cap dl n rs s rule: drain_output.induct)
  case (2 W cap dl n r rest s)
  then show ?case
    by (auto simp: recv_timed_out_def Let_def split: if_splits Recv.splits ReaderMessage.splits prod.splits)
qed (simp add: recv_timed_out_def Let_def split: if_splits)

lemma conclude_success:
  assumes run: "conclude W t c d s = (r, s')" and ok: "\<not> is_failure r"
  shows "c = Inr () \<and> su_alive s' \<and> (\<exists>pre. su_log s' = pre @ [CleanupCompleted]) \<and> su_alive s
         \<and> r = base_result t \<and> d \<in> {D_Closed, D_Skipped, D_SinkLost}"
proof -
  define s2 where "s2 = (case reported_exit t of
      Some x \<Rightarrow> snd (emit W (ExitObserved x) (snd (advance_worker Exited s))) | None \<Rightarrow> snd (advance_worker Exited s))"
  define s3 where "s3 = (case c of Inr _ \<Rightarrow> snd (emit W CleanupCompleted s2) | Inl _ \<Rightarrow> s2)"
  define eff where "eff = effective_result (base_result t) d"
  define s4 where "s4 = (if su_alive s3 \<and> is_failure (finalize c s3 eff)
      then snd (emit W (SupervisorFailed (result_message (finalize c s3 eff))) s3) else s3)"
  have "(r, s') = (finalize c s4 eff, s4)"
    using run unfolding conclude_def Let_def s4_def s3_def s2_def eff_def by (rule sym)
  then have r: "r = finalize c s4 eff" and s': "s' = s4" by simp_all
  have c: "c = Inr ()" and a4: "su_alive s4" and eff: "r = eff"
    using ok r by (auto simp: finalize_def is_failure_def split: sum.splits if_splits)
  have a3: "su_alive s3" using a4 by (auto simp: s4_def emit_alive split: if_splits)
  then have "finalize c s3 eff = eff" by (simp add: c finalize_def)
  with ok eff have s4: "s4 = s3" by (simp add: s4_def)
  have e: "fst (emit W CleanupCompleted s2)" using a3 by (simp add: s3_def c emit_alive)
  then have log: "su_log s3 = su_log s2 @ [CleanupCompleted]" by (simp add: s3_def c emit_log)
  have "su_alive s2" using e emit_needs_alive by blast
  then have alive: "su_alive s"
    by (auto simp: s2_def emit_alive dest: emit_needs_alive split: option.splits)
  have "\<not> is_failure eff" using ok eff by simp
  then have "eff = base_result t \<and> d \<in> {D_Closed, D_Skipped, D_SinkLost}"
    by (cases d) (auto simp: eff_def effective_result_def is_failure_def split: if_splits)
  with c a4 s' s4 log alive eff show ?thesis by blast
qed

lemma wind_down_success:
  assumes run: "wind_down W w recvs p s = (r, s')" and ok: "\<not> is_failure r"
  shows "su_alive s' \<and> (\<exists>pre. su_log s' = pre @ [CleanupCompleted]) \<and> RV_Closed \<in> set recvs"
  using run
proof (rule wind_downE)
  fix t s1 fs s2 c s3 cleanup d s4
  assume d: "(if cleanup = Inr () \<and> su_alive s3
      then drain_output W (op_max_trailing_bytes (ws_output w)) (su_clock s3 + MAX_TRAILING_DRAIN) 0 recvs s3
      else (D_Skipped, s3)) = (d, s4)"
    and r: "conclude W t cleanup d s4 = (r, s')"
  note fin = conclude_success [OF r ok]
  then have cl: "cleanup = Inr ()" and a4: "su_alive s4" by blast+
  have a3: "su_alive s3" using d a4 cl by (auto split: if_splits)
  then have dr: "drain_output W (op_max_trailing_bytes (ws_output w)) (su_clock s3 + MAX_TRAILING_DRAIN) 0 recvs s3 = (d, s4)"
    using d cl by simp
  then have "d = D_Closed" using drain_output_alive [OF dr] a4 fin by blast
  then have "RV_Closed \<in> set recvs" using drain_output_closed dr by (metis fst_conv)
  with fin show ?thesis by blast
qed

end
