(* ===== verification/Worker_Trace.thy ===== *)
theory Worker_Trace
  imports Worker_Run
begin

text \<open>
  The traces of a supervised run: how often its leader is waited for, what is published before and
  after the process is announced, and the paths a run can take. The last section states for whole
  runs what \<open>Worker_Run\<close> shows for their pieces.
\<close>

section \<open>One wait that succeeds\<close>

fun is_wait :: "BoundaryOp \<Rightarrow> bool" where
  "is_wait (OpWait _) = True"
| "is_wait _ = False"

fun wait_ok :: "BoundaryOp \<Rightarrow> bool" where
  "wait_ok (OpWait (B_Ok _)) = True"
| "wait_ok _ = False"

text \<open>No wait follows a successful one.\<close>

definition unreaped :: "BoundaryOp list \<Rightarrow> bool" where
  "unreaped ops = list_all (\<lambda>op. \<not> wait_ok op) (filter is_wait ops)"

definition one_shot :: "BoundaryOp list \<Rightarrow> bool" where
  "one_shot ops = list_all (\<lambda>op. \<not> wait_ok op) (butlast (filter is_wait ops))"

lemma one_shot_simps [simp]:
  "\<not> is_wait op \<Longrightarrow> one_shot (ops @ [op]) = one_shot ops"
  "\<not> is_wait op \<Longrightarrow> unreaped (ops @ [op]) = unreaped ops"
  by (simp_all add: one_shot_def unreaped_def)

lemma one_shot_wait: "unreaped ops \<Longrightarrow> one_shot (ops @ [OpWait r])"
  by (simp add: one_shot_def unreaped_def)

lemma unreaped_wait [simp]: "unreaped (ops @ [OpWait r]) \<longleftrightarrow> unreaped ops \<and> (\<forall>x. r \<noteq> B_Ok x)"
  by (cases r) (simp_all add: unreaped_def)

lemma unreaped_one_shot: "unreaped ops \<Longrightarrow> one_shot ops"
  by (auto simp: one_shot_def unreaped_def list_all_iff dest: in_set_butlastD)

text \<open>The operations that are no wait.\<close>

lemma force_ops: "su_ops (snd (bounded_force_stop W s)) = su_ops s @ [OpForce (wo_force W (su_tick s))]"
  by (simp add: bounded_force_stop_def Let_def)

lemma members_ops: "su_ops (snd (bounded_members W s)) = su_ops s @ [OpMembers (wo_members W (su_tick s))]"
  by (simp add: bounded_members_def Let_def)

definition same_waits :: "Sup \<Rightarrow> Sup \<Rightarrow> bool" where
  "same_waits s s' \<longleftrightarrow> filter is_wait (su_ops s') = filter is_wait (su_ops s)"

lemma same_waits_trans: "same_waits s t \<Longrightarrow> same_waits t u \<Longrightarrow> same_waits s u"
  by (simp add: same_waits_def)

lemma same_waits_iff:
  "same_waits s s' \<Longrightarrow> one_shot (su_ops s') = one_shot (su_ops s)"
  "same_waits s s' \<Longrightarrow> unreaped (su_ops s') = unreaped (su_ops s)"
  by (simp_all add: same_waits_def one_shot_def unreaped_def)

lemma cleanup_loop_waits: "same_waits s (snd (cleanup_loop W dl s))"
proof (induction W dl s rule: cleanup_loop.induct)
  case (1 W dl s)
  obtain m s1 where m: "bounded_members W s = (m, s1)" by fastforce
  have ops: "su_ops s1 = su_ops s @ [OpMembers (wo_members W (su_tick s))]" using members_ops [of W s] m by simp
  show ?case
  proof (cases "\<exists>xs. m = Inr xs \<and> xs \<noteq> [] \<and> \<not> su_clock s1 \<ge> dl")
    case True
    then have "cleanup_loop W dl s = cleanup_loop W dl (sleep GROUP_POLL_INTERVAL s1)"
      by (subst cleanup_loop.simps) (auto simp: m)
    moreover have "same_waits (sleep GROUP_POLL_INTERVAL s1) (snd (cleanup_loop W dl (sleep GROUP_POLL_INTERVAL s1)))"
      using "1.IH" m True by metis
    ultimately show ?thesis by (simp add: same_waits_def ops)
  next
    case False
    then have "snd (cleanup_loop W dl s) = s1"
      by (subst cleanup_loop.simps) (auto simp: m split: sum.splits)
    then show ?thesis by (simp add: same_waits_def ops)
  qed
qed

lemma cleanup_group_waits: "same_waits s (snd (cleanup_group W s))"
proof -
  obtain m s1 where m: "bounded_members W s = (m, s1)" by fastforce
  have w1: "same_waits s s1" using members_ops [of W s] m by (simp add: same_waits_def)
  show ?thesis
  proof (cases "\<exists>xs. m = Inr xs \<and> xs \<noteq> []")
    case True
    then obtain xs where xs: "m = Inr xs" "xs \<noteq> []" by blast
    obtain ok s2 where e: "emit W (DescendantsRemaining xs) s1 = (ok, s2)" by fastforce
    obtain f s3 where f: "bounded_force_stop W s2 = (f, s3)" by fastforce
    have "su_ops s2 = su_ops s1" using emit_ops [of W "DescendantsRemaining xs" s1] e by simp
    then have w3: "same_waits s s3" using force_ops [of W s2] f w1 by (simp add: same_waits_def)
    have "snd (cleanup_group W s)
          = (case f of Inl _ \<Rightarrow> s3 | Inr _ \<Rightarrow> snd (cleanup_loop W (su_clock s3 + CLEANUP_GRACE) s3))"
      using xs by (simp add: cleanup_group_def m e f split: sum.splits)
    then show ?thesis using w3 cleanup_loop_waits same_waits_trans by (auto split: sum.splits)
  next
    case False
    then have "snd (cleanup_group W s) = s1" by (auto simp: cleanup_group_def m split: sum.splits)
    with w1 show ?thesis by simp
  qed
qed

text \<open>
  A termination keeps its word about the leader: where it says the exit was not observed, no wait
  has succeeded.
\<close>

definition honest :: "Termination \<Rightarrow> Sup \<Rightarrow> bool" where
  "honest t s \<longleftrightarrow> one_shot (su_ops s) \<and> (fault_reaped t = Some None \<longrightarrow> unreaped (su_ops s))"

lemma honest_force_after_grace:
  assumes "one_shot (su_ops s)" and "exit = None \<longrightarrow> unreaped (su_ops s)"
    and "force_after_grace W exit s = (t, s')"
  shows "honest t s'"
proof -
  obtain ok s1 where e: "emit W ForceStopSent s = (ok, s1)" by fastforce
  obtain f s2 where f: "bounded_force_stop W s1 = (f, s2)" by fastforce
  have ops: "su_ops s2 = su_ops s @ [OpForce (wo_force W (su_tick s1))]"
    using emit_ops [of W ForceStopSent s] force_ops [of W s1] e f by simp
  show ?thesis
  proof (cases "\<exists>u. f = Inr u \<and> exit = None")
    case True
    obtain r s3 where r: "bounded_reap W s2 = (r, s3)" by fastforce
    have ops3: "su_ops s3 = su_ops s2 @ [OpWait (wo_wait W (su_tick s2))]"
      using r by (auto simp: bounded_reap_def Let_def)
    have un: "unreaped (su_ops s2)" using assms(2) True ops by simp
    have "honest t s'" if "wo_wait W (su_tick s2) = B_Ok x" for x
      using that assms(3) True e f r ops3 one_shot_wait [OF un]
      by (auto simp: force_after_grace_def honest_def bounded_reap_def Let_def fault_reaped_def)
    moreover have "honest t s'" if "\<forall>x. wo_wait W (su_tick s2) \<noteq> B_Ok x"
      using that assms(3) True e f r ops3 one_shot_wait [OF un] un
      by (cases "wo_wait W (su_tick s2)")
        (auto simp: force_after_grace_def honest_def bounded_reap_def Let_def fault_reaped_def)
    ultimately show ?thesis by blast
  next
    case False
    then show ?thesis
      using assms e f ops
      by (cases f; cases exit) (auto simp: force_after_grace_def honest_def fault_reaped_def)
  qed
qed

lemma honest_graceful_drain:
  "graceful_drain W dl (Some x) s = (t, s') \<Longrightarrow> one_shot (su_ops s) \<Longrightarrow> honest t s'"
proof (induction W dl "Some x" s rule: graceful_drain.induct)
  case (1 W dl s)
  obtain m s1 where m: "bounded_members W s = (m, s1)" by fastforce
  have os: "one_shot (su_ops s1)" using members_ops [of W s] m "1.prems"(2) by simp
  note step = "1.prems"(1) [unfolded graceful_drain.simps [of W dl "Some x" s] m Let_def split]
  show ?case
  proof (cases "\<exists>xs. m = Inr xs \<and> xs \<noteq> [] \<and> \<not> su_clock s1 \<ge> dl")
    case True
    then obtain xs where xs: "m = Inr xs" "xs \<noteq> []" "\<not> su_clock s1 \<ge> dl" by blast
    let ?s = "sleep (min GROUP_POLL_INTERVAL (dl - su_clock s1)) s1"
    have "graceful_drain W dl (Some x) ?s = (t, s')" using step xs by simp
    moreover have "one_shot (su_ops ?s)" using os by simp
    ultimately show ?thesis using "1.hyps" [OF m [symmetric] refl xs] by blast
  next
    case False
    show ?thesis
    proof (cases "\<exists>xs. m = Inr xs \<and> xs \<noteq> []")
      case True
      with False step have "force_after_grace W (Some x) s1 = (t, s')" by auto
      then show ?thesis using honest_force_after_grace [of s1 "Some x" W t s'] os by simp
    next
      case f: False
      with step os show ?thesis
        by (cases m) (auto simp: honest_def fault_reaped_def)
    qed
  qed
qed

lemma honest_run_cancellation:
  assumes "run_cancellation W g s = (t, s')" and un: "unreaped (su_ops s)"
  shows "honest t s'"
proof -
  obtain ok s1 where e: "emit W CancellationRequested s = (ok, s1)" by fastforce
  obtain gs s2 where g: "bounded_graceful_stop W s1 = (gs, s2)" by fastforce
  obtain ok2 s3 where e2: "emit W GracefulStopSent s2 = (ok2, s3)" by fastforce
  have "su_ops s1 = su_ops s" using emit_ops [of W CancellationRequested s] e by simp
  moreover have "su_ops s2 = su_ops s1 @ [OpGraceful (wo_graceful W (su_tick s1))]"
    using g by (auto simp: bounded_graceful_stop_def Let_def)
  moreover have "su_ops s3 = su_ops s2" using emit_ops [of W GracefulStopSent s2] e2 by simp
  ultimately have un2: "unreaped (su_ops s2)" and un3: "unreaped (su_ops s3)" using un by simp_all
  let ?r = "wo_wait W (su_tick s3)" let ?s4 = "issue (OpWait ?r) (tock W s3)"
  have run: "(t, s') = (case gs of
      GS_Failed m \<Rightarrow> (T_BoundaryFailed m None, s2) | GS_TimedOut \<Rightarrow> force_after_grace W None s2
    | GS_Ok \<Rightarrow> (case ?r of B_Ok x \<Rightarrow> graceful_drain W (su_clock s1 + as_nanos g) (Some x) ?s4
        | B_Err m \<Rightarrow> (T_BoundaryFailed (M_Text m) None, ?s4) | B_Timeout \<Rightarrow> force_after_grace W None ?s4))"
    using assms(1) by (cases gs) (simp_all add: run_cancellation_def e g e2 Let_def)
  have os4: "one_shot (su_ops ?s4)" using one_shot_wait [OF un3] by simp
  show ?thesis
  proof (cases gs)
    case GS_Ok
    show ?thesis
    proof (cases ?r)
      case (B_Ok x)
      with run GS_Ok os4 show ?thesis using honest_graceful_drain [of W _ x ?s4 t s'] by simp
    next
      case (B_Err m)
      with run GS_Ok os4 un3 show ?thesis by (simp add: honest_def)
    next
      case B_Timeout
      with run GS_Ok os4 un3 show ?thesis using honest_force_after_grace [of ?s4 None W t s'] by simp
    qed
  next
    case (GS_Failed m)
    with run un2 show ?thesis by (simp add: honest_def unreaped_one_shot)
  next
    case GS_TimedOut
    with run un2 show ?thesis
      using honest_force_after_grace [of s2 None W t s'] by (simp add: unreaped_one_shot)
  qed
qed

text \<open>What the run loop leaves of the operations, when it starts from none.\<close>

lemma select_loop_ops:
  "select_loop W w i st open' sq evs s = (ph, s') \<Longrightarrow>
   su_ops s' = su_ops s @ (case ph of Some (P_Natural x) \<Rightarrow> [OpWait (B_Ok x)] | _ \<Rightarrow> [])
   \<or> (\<exists>e. su_ops s' = su_ops s @ [OpWait (B_Err e)] \<and> ph = Some (P_BoundaryFailed (M_Text e)))"
proof (induction evs arbitrary: open' sq s)
  case (Cons ev evs)
  have keep: "su_ops s2 = su_ops s" if "emit W ob (tock W s) = (ok, s2)" for ob ok s2
    using emit_ops [of W ob "tock W s"] that by simp
  note IH = Cons.IH [of _ _ "tock W s"]
  show ?case
  proof (cases ev)
    case (EvChunk c)
    obtain ok s2 where e: "emit W (OutputObserved c) (tock W s) = (ok, s2)" by fastforce
    show ?thesis
      using Cons.prems IH Cons.IH [of _ _ s2] keep [OF e] EvChunk e
      by (cases open'; cases ok) (auto simp: Let_def)
  next
    case EvHeartbeat
    obtain ok s2 where e: "emit W (Heartbeat (ws_worker_id w) sq (su_clock (tock W s) - st) i) (tock W s) = (ok, s2)"
      by fastforce
    show ?thesis
      using Cons.prems IH Cons.IH [of _ _ s2] keep [OF e] EvHeartbeat e
      by (cases "hp_enabled (ws_heartbeat w)"; cases ok) (auto simp: Let_def)
  qed (use Cons.prems IH in \<open>auto simp: Let_def split: if_splits\<close>)
qed simp

lemma emergency_one_shot:
  assumes "honest t s" and "emergency_teardown W t s = (fs, s')"
  shows "one_shot (su_ops s')"
proof (cases "fault_reaped t")
  case None
  with assms show ?thesis by (simp add: emergency_teardown_def honest_def)
next
  case (Some already)
  obtain ok s1 where e: "emit W ForceStopSent s = (ok, s1)" by fastforce
  obtain f s2 where f: "bounded_force_stop W s1 = (f, s2)" by fastforce
  obtain r s3 where r: "bounded_reap W s2 = (r, s3)" by fastforce
  have ops: "su_ops s2 = su_ops s @ [OpForce (wo_force W (su_tick s1))]"
    using emit_ops [of W ForceStopSent s] force_ops [of W s1] e f by simp
  have ops3: "su_ops s3 = su_ops s2 @ [OpWait (wo_wait W (su_tick s2))]"
    using r by (auto simp: bounded_reap_def Let_def)
  show ?thesis
  proof (cases already)
    case None
    then have "unreaped (su_ops s2)" using assms(1) Some ops by (simp add: honest_def)
    then have "one_shot (su_ops s3)" unfolding ops3 by (rule one_shot_wait)
    then show ?thesis using assms(2) Some None by (simp add: emergency_teardown_def e f r)
  next
    case x: (Some x)
    have "one_shot (su_ops s2)" using assms(1) ops by (simp add: honest_def)
    then show ?thesis using assms(2) Some x by (simp add: emergency_teardown_def e f)
  qed
qed

lemma honest_termination_of:
  assumes "termination_of W w p s = (t, s')"
    and "unreaped (su_ops s) \<or> ((\<exists>x. p = P_Natural x) \<and> one_shot (su_ops s))"
  shows "honest t s'"
proof (cases p)
  case P_CancelRequested
  with assms have un: "unreaped (su_ops (snd (advance_worker Cancelling s)))" by simp
  show ?thesis using assms(1) P_CancelRequested
    by (auto simp: termination_of_def intro: honest_run_cancellation [OF _ un])
qed (use assms in \<open>auto simp: termination_of_def honest_def fault_reaped_def unreaped_one_shot\<close>)

lemma manage_one_shot:
  assumes "manage W w i evs recvs s = (r, s')" and "su_ops s = []"
  shows "one_shot (su_ops s')"
proof -
  obtain ph s1 where sel: "select_loop W w i (su_clock s) True 0 evs s = (ph, s1)" by fastforce
  note ops = select_loop_ops [OF sel, unfolded assms(2) append_Nil]
  show ?thesis
  proof (cases ph)
    case None
    with ops sel assms(1) show ?thesis by (simp add: manage_def one_shot_def)
  next
    case (Some p)
    obtain r' where wd: "wind_down W w recvs p s1 = (r', s')"
      using assms(1) sel Some by (auto simp: manage_def split: prod.splits)
    have start: "unreaped (su_ops s1) \<or> ((\<exists>x. p = P_Natural x) \<and> one_shot (su_ops s1))"
      using ops Some by (cases p) (auto simp: unreaped_def one_shot_def)
    from wd show ?thesis
    proof (rule wind_downE)
      fix t s2 fs s3 c s4 cleanup d s5
      assume t: "termination_of W w p s1 = (t, s2)" and e: "emergency_teardown W t s2 = (fs, s3)"
        and c: "cleanup_group W s3 = (c, s4)"
        and d: "(if cleanup = Inr () \<and> su_alive s4
          then drain_output W (op_max_trailing_bytes (ws_output w)) (su_clock s4 + MAX_TRAILING_DRAIN) 0 recvs s4
          else (D_Skipped, s4)) = (d, s5)"
        and r: "conclude W t cleanup d s5 = (r', s')"
      have "one_shot (su_ops s3)" using emergency_one_shot [OF honest_termination_of [OF t start] e] .
      moreover have "same_waits s3 s4" using cleanup_group_waits [of s3 W] c by simp
      ultimately have "one_shot (su_ops s4)" by (simp add: same_waits_iff)
      moreover have "su_ops s' = su_ops s4"
        using r conclude_ops [of W t cleanup d s5] drain_ops_if [OF d] by simp
      ultimately show ?thesis by simp
    qed
  qed
qed

section \<open>The paths of a run\<close>

lemma abandon_ops:
  assumes "abandon_and_verify W s = (a, s')" and "su_ops s = []"
  shows "one_shot (su_ops s')" and "su_ops s' \<noteq> []"
proof -
  obtain f s1 where f: "bounded_force_stop W s = (f, s1)" by fastforce
  obtain r s2 where r: "bounded_reap W s1 = (r, s2)" by fastforce
  obtain c s3 where c: "cleanup_group W s2 = (c, s3)" by fastforce
  have s': "s' = s3" using assms(1) by (simp add: abandon_and_verify_def f r c Let_def)
  have ops: "su_ops s2 = [OpForce (wo_force W (su_tick s)), OpWait (wo_wait W (su_tick s1))]"
    using force_ops [of W s] f r assms(2) by (auto simp: bounded_reap_def Let_def)
  have w: "same_waits s2 s'" using cleanup_group_waits [of s2 W] c s' by simp
  have "one_shot (su_ops s2)" by (simp add: ops one_shot_def)
  then show "one_shot (su_ops s')" using same_waits_iff(1) [OF w] by simp
  have "filter is_wait (su_ops s') \<noteq> []" using w ops by (simp add: same_waits_def)
  then show "su_ops s' \<noteq> []" by auto
qed

text \<open>Nothing but the run itself is published once the process was announced.\<close>

fun announces :: "WorkerObservation \<Rightarrow> bool" where
  "announces (BoundaryAttested _) = True"
| "announces SpawnRequested = True"
| "announces (LaunchEvidence _) = True"
| "announces (Spawned _) = True"
| "announces _ = False"

definition continues :: "Sup \<Rightarrow> Sup \<Rightarrow> bool" where
  "continues s s' \<longleftrightarrow> (\<exists>rest. su_log s' = su_log s @ rest \<and> list_all (\<lambda>ob. \<not> announces ob) rest)"

lemma continues_refl: "su_log s' = su_log s \<Longrightarrow> continues s s'"
  by (simp add: continues_def)

lemma continues_trans: "continues s t \<Longrightarrow> continues t u \<Longrightarrow> continues s u"
  by (auto simp: continues_def)

lemma continues_emit: "emit W ob s = (ok, s') \<Longrightarrow> \<not> announces ob \<Longrightarrow> continues s s'"
  using emit_log [of W ob s] by (auto simp: continues_def)

lemma continues_ops:
  "bounded_force_stop W s = (f, s1) \<Longrightarrow> continues s s1"
  "bounded_reap W s = (r, s1) \<Longrightarrow> continues s s1"
  "bounded_members W s = (m, s1) \<Longrightarrow> continues s s1"
  "bounded_graceful_stop W s = (g, s1) \<Longrightarrow> continues s s1"
  by (auto simp: bounded_force_stop_def bounded_reap_def bounded_members_def bounded_graceful_stop_def Let_def
      intro!: continues_refl)

lemma continues_cleanup_loop: "cleanup_loop W dl s = (c, s') \<Longrightarrow> continues s s'"
proof (induction W dl s rule: cleanup_loop.induct)
  case (1 W dl s)
  obtain m s1 where m: "bounded_members W s = (m, s1)" by fastforce
  note k = continues_ops(3) [OF m]
  note step = "1.prems" [unfolded cleanup_loop.simps [of W dl s] m Let_def split]
  show ?case
  proof (cases "\<exists>xs. m = Inr xs \<and> xs \<noteq> [] \<and> \<not> su_clock s1 \<ge> dl")
    case True
    then obtain xs where xs: "m = Inr xs" "xs \<noteq> []" "\<not> su_clock s1 \<ge> dl" by blast
    have "continues s1 (sleep GROUP_POLL_INTERVAL s1)" by (simp add: continues_refl)
    moreover have "continues (sleep GROUP_POLL_INTERVAL s1) s'"
      using "1.IH" [OF m [symmetric] refl xs] step xs by simp
    ultimately show ?thesis using k continues_trans by blast
  next
    case False
    with step k show ?thesis by (cases m) (auto split: if_splits)
  qed
qed

lemma continues_cleanup_group:
  assumes "cleanup_group W s = (c, s')"
  shows "continues s s'"
proof -
  obtain m s1 where m: "bounded_members W s = (m, s1)" by fastforce
  note k = continues_ops(3) [OF m]
  show ?thesis
  proof (cases "\<exists>xs. m = Inr xs \<and> xs \<noteq> []")
    case True
    then obtain xs where xs: "m = Inr xs" "xs \<noteq> []" by blast
    obtain ok s2 where e: "emit W (DescendantsRemaining xs) s1 = (ok, s2)" by fastforce
    obtain f s3 where f: "bounded_force_stop W s2 = (f, s3)" by fastforce
    have k3: "continues s s3"
      using k continues_emit [OF e, simplified] continues_ops(1) [OF f] continues_trans by blast
    show ?thesis
    proof (cases f)
      case (Inl x)
      with assms xs k3 show ?thesis by (simp add: cleanup_group_def m e f)
    next
      case (Inr u)
      then have "cleanup_loop W (su_clock s3 + CLEANUP_GRACE) s3 = (c, s')"
        using assms xs by (simp add: cleanup_group_def m e f)
      then show ?thesis using continues_cleanup_loop k3 continues_trans by blast
    qed
  next
    case False
    with assms k show ?thesis by (auto simp: cleanup_group_def m split: sum.splits)
  qed
qed

lemma continues_abandon:
  assumes "abandon_and_verify W s = (a, s')"
  shows "continues s s'"
proof -
  obtain f s1 where f: "bounded_force_stop W s = (f, s1)" by fastforce
  obtain r s2 where r: "bounded_reap W s1 = (r, s2)" by fastforce
  obtain c s3 where c: "cleanup_group W s2 = (c, s3)" by fastforce
  have "s' = s3" using assms by (simp add: abandon_and_verify_def f r c Let_def)
  then show ?thesis
    using continues_ops(1) [OF f] continues_ops(2) [OF r] continues_cleanup_group [OF c] continues_trans by blast
qed

lemma continues_drain: "drain_output W cap dl n rs s = (d, s') \<Longrightarrow> continues s s'"
proof (induction rs arbitrary: n s)
  case Nil
  then show ?case by (auto simp: recv_timed_out_def Let_def intro!: continues_refl split: if_splits)
next
  case (Cons r rs)
  show ?case
  proof (cases "\<exists>c. r = RV_Message (RM_Chunk c) \<and> dl - su_clock s \<noteq> 0 \<and> within_cap cap n (length (oc_bytes c))")
    case True
    then obtain c where r: "r = RV_Message (RM_Chunk c)" "dl - su_clock s \<noteq> 0"
      "within_cap cap n (length (oc_bytes c))" by blast
    obtain ok s2 where e: "emit W (OutputObserved c) (tock W s) = (ok, s2)" by fastforce
    have "continues s (tock W s)" by (simp add: continues_refl)
    then have k: "continues s s2" using continues_emit [OF e, simplified] continues_trans by blast
    show ?thesis
    proof (cases ok)
      case True
      then have "drain_output W cap dl (min (n + length (oc_bytes c)) (2 ^ 64 - 1)) rs s2 = (d, s')"
        using Cons.prems r e by (simp add: Let_def)
      then show ?thesis using Cons.IH k continues_trans by blast
    next
      case False
      with Cons.prems r e k show ?thesis by (auto simp: Let_def)
    qed
  next
    case False
    with Cons.prems show ?thesis
      by (auto simp: recv_timed_out_def Let_def intro!: continues_refl split: if_splits Recv.splits ReaderMessage.splits)
  qed
qed

lemma continues_force:
  assumes "force_after_grace W x s = (t, s')"
  shows "continues s s'"
proof -
  obtain ok s1 where e: "emit W ForceStopSent s = (ok, s1)" by fastforce
  obtain f s2 where f: "bounded_force_stop W s1 = (f, s2)" by fastforce
  obtain r s3 where r: "bounded_reap W s2 = (r, s3)" by fastforce
  have k: "continues s s2" using continues_emit [OF e, simplified] continues_ops(1) [OF f] continues_trans by blast
  have "s' = s2 \<or> s' = s3"
    using assms by (auto simp: force_after_grace_def e f r split: sum.splits option.splits)
  then show ?thesis using k continues_ops(2) [OF r] continues_trans by blast
qed

lemma continues_graceful_drain: "graceful_drain W dl x s = (t, s') \<Longrightarrow> continues s s'"
proof (induction W dl x s rule: graceful_drain.induct)
  case (1 W dl x s)
  obtain m s1 where m: "bounded_members W s = (m, s1)" by fastforce
  note k = continues_ops(3) [OF m]
  note step = "1.prems" [unfolded graceful_drain.simps [of W dl x s] m Let_def split]
  show ?case
  proof (cases "\<exists>xs. m = Inr xs \<and> xs \<noteq> [] \<and> \<not> su_clock s1 \<ge> dl")
    case True
    then obtain xs where xs: "m = Inr xs" "xs \<noteq> []" "\<not> su_clock s1 \<ge> dl" by blast
    let ?s = "sleep (min GROUP_POLL_INTERVAL (dl - su_clock s1)) s1"
    have "continues s1 ?s" by (simp add: continues_refl)
    moreover have "continues ?s s'" using "1.IH" [OF m [symmetric] refl xs] step xs by simp
    ultimately show ?thesis using k continues_trans by blast
  next
    case False
    then have "s' = s1 \<or> force_after_grace W x s1 = (t, s')"
      using step by (cases m) (auto split: if_splits)
    then show ?thesis using k continues_force continues_trans by blast
  qed
qed

lemma continues_termination_of:
  assumes "termination_of W w p s = (t, s')"
  shows "continues s s'"
proof (cases "p = P_CancelRequested")
  case True
  let ?g = "cp_graceful_timeout (ws_cancellation w)" and ?s = "snd (advance_worker Cancelling s)"
  obtain ok s1 where e: "emit W CancellationRequested ?s = (ok, s1)" by fastforce
  obtain gs s2 where g: "bounded_graceful_stop W s1 = (gs, s2)" by fastforce
  obtain ok2 s3 where e2: "emit W GracefulStopSent s2 = (ok2, s3)" by fastforce
  let ?s4 = "issue (OpWait (wo_wait W (su_tick s3))) (tock W s3)"
  have k0: "continues s ?s" "continues s3 ?s4" by (simp_all add: continues_refl)
  have k2: "continues s s2"
    using k0(1) continues_emit [OF e, simplified] continues_ops(4) [OF g] continues_trans by blast
  then have k4: "continues s ?s4" using continues_emit [OF e2, simplified] k0(2) continues_trans by blast
  have "run_cancellation W ?g ?s = (t, s')" using assms True by (simp add: termination_of_def)
  then have "s' = s2 \<or> s' = ?s4 \<or> force_after_grace W None s2 = (t, s') \<or> force_after_grace W None ?s4 = (t, s')
             \<or> (\<exists>x. graceful_drain W (su_clock s1 + as_nanos ?g) (Some x) ?s4 = (t, s'))"
    by (cases gs; cases "wo_wait W (su_tick s3)") (auto simp: run_cancellation_def e g e2 Let_def)
  then show ?thesis using k2 k4 continues_force continues_graceful_drain continues_trans by blast
next
  case False
  with assms have "s' = s" by (cases p) (auto simp: termination_of_def)
  then show ?thesis by (simp add: continues_refl)
qed

lemma continues_emergency:
  assumes "emergency_teardown W t s = (fs, s')"
  shows "continues s s'"
proof -
  obtain ok s1 where e: "emit W ForceStopSent s = (ok, s1)" by fastforce
  obtain f s2 where f: "bounded_force_stop W s1 = (f, s2)" by fastforce
  obtain r s3 where r: "bounded_reap W s2 = (r, s3)" by fastforce
  have k: "continues s s2" using continues_emit [OF e, simplified] continues_ops(1) [OF f] continues_trans by blast
  have "s' = s \<or> s' = s2 \<or> s' = s3"
    using assms by (auto simp: emergency_teardown_def e f r Let_def split: option.splits if_splits)
  then show ?thesis using k continues_ops(2) [OF r] continues_trans continues_refl by blast
qed

lemma continues_emit_snd: "\<not> announces ob \<Longrightarrow> continues s (snd (emit W ob s))"
  by (metis continues_emit prod.collapse)

lemma continues_conclude:
  assumes "conclude W t c d s = (r, s')"
  shows "continues s s'"
proof -
  define s1 where "s1 = snd (advance_worker Exited s)"
  define s2 where "s2 = (case reported_exit t of Some x \<Rightarrow> snd (emit W (ExitObserved x) s1) | None \<Rightarrow> s1)"
  define s3 where "s3 = (case c of Inr _ \<Rightarrow> snd (emit W CleanupCompleted s2) | Inl _ \<Rightarrow> s2)"
  have s': "s' = s3 \<or> (\<exists>m. s' = snd (emit W (SupervisorFailed m) s3))"
    using assms unfolding conclude_def Let_def s3_def s2_def s1_def prod.inject by (metis (full_types))
  have "continues s s1" by (simp add: s1_def continues_refl)
  moreover have "continues s1 s2" "continues s2 s3"
    by (auto simp: s2_def s3_def intro: continues_emit_snd continues_refl split: option.splits sum.splits)
  moreover have "continues s3 s'" using s' continues_emit_snd continues_refl by (metis announces.simps(13))
  ultimately show ?thesis using continues_trans by blast
qed

lemma continues_select: "select_loop W w i st opn sq evs s = (ph, s') \<Longrightarrow> continues s s'"
proof (induction evs arbitrary: opn sq s)
  case (Cons ev evs)
  have t: "continues s (tock W s)" by (simp add: continues_refl)
  have keep: "continues s s2" if "emit W ob (tock W s) = (ok, s2)" "\<not> announces ob" for ob ok s2
    using continues_emit [OF that] t continues_trans by blast
  have rec: "continues s s'" if "select_loop W w i st o2 q2 evs (tock W s) = (ph, s')" for o2 q2
    using Cons.IH [OF that] t continues_trans by blast
  have end_at: "continues s (issue op (tock W s))" for op by (simp add: continues_refl)
  show ?case
  proof (cases ev)
    case (EvChunk c)
    obtain ok s2 where e: "emit W (OutputObserved c) (tock W s) = (ok, s2)" by fastforce
    have k: "continues s s2" using keep [OF e] by simp
    have "s' = s2 \<or> (\<exists>o2 q2. select_loop W w i st o2 q2 evs s2 = (ph, s'))
          \<or> (\<exists>o2 q2. select_loop W w i st o2 q2 evs (tock W s) = (ph, s'))"
      using Cons.prems EvChunk e by (auto simp: Let_def split: if_splits)
    then show ?thesis using k rec Cons.IH continues_trans by blast
  next
    case EvHeartbeat
    obtain ok s2 where e: "emit W (Heartbeat (ws_worker_id w) sq (su_clock (tock W s) - st) i) (tock W s) = (ok, s2)"
      by fastforce
    have k: "continues s s2" using keep [OF e] by simp
    have "s' = s2 \<or> (\<exists>o2 q2. select_loop W w i st o2 q2 evs s2 = (ph, s'))
          \<or> (\<exists>o2 q2. select_loop W w i st o2 q2 evs (tock W s) = (ph, s'))"
      using Cons.prems EvHeartbeat e by (auto simp: Let_def split: if_splits)
    then show ?thesis using k rec Cons.IH continues_trans by blast
  qed (use Cons.prems rec end_at t in \<open>auto simp: Let_def split: if_splits\<close>)
qed (simp add: continues_refl)

lemma continues_wind_down:
  assumes "wind_down W w recvs p s = (r, s')"
  shows "continues s s'"
  using assms
proof (rule wind_downE)
  fix t s1 fs s2 c s3 cleanup d s4
  assume t: "termination_of W w p s = (t, s1)" and e: "emergency_teardown W t s1 = (fs, s2)"
    and c: "cleanup_group W s2 = (c, s3)"
    and d: "(if cleanup = Inr () \<and> su_alive s3
      then drain_output W (op_max_trailing_bytes (ws_output w)) (su_clock s3 + MAX_TRAILING_DRAIN) 0 recvs s3
      else (D_Skipped, s3)) = (d, s4)"
    and r: "conclude W t cleanup d s4 = (r, s')"
  have "continues s3 s4" using d continues_drain continues_refl by (metis prod.inject)
  then show ?thesis
    using continues_termination_of [OF t] continues_emergency [OF e] continues_cleanup_group [OF c]
      continues_conclude [OF r] continues_trans by blast
qed

lemma continues_manage: "manage W w i evs recvs s = (r, s') \<Longrightarrow> continues s s'"
  using continues_select continues_wind_down continues_trans
  by (auto simp: manage_def split: prod.splits option.splits) blast

text \<open>A run either never owns a process, or reaches the point where it does.\<close>

lemma fail_to_start_same:
  "fail_to_start m s = (r, s') \<Longrightarrow> su_log s' = su_log s \<and> su_ops s' = su_ops s \<and> su_alive s' = su_alive s
     \<and> (\<exists>x. r = Some x \<and> is_failure x)"
  by (auto simp: fail_to_start_def advance_worker_def is_failure_def split: if_splits)

lemma cancelled_before_same:
  assumes "cancel_unlaunched W s = (r, s')"
  shows "su_ops s' = su_ops s \<and> continues s s'"
proof -
  obtain ok s1 where e: "emit W CancellationRequested s = (ok, s1)" by fastforce
  have "su_ops s1 = su_ops s" using emit_ops [of W CancellationRequested s] e by simp
  moreover have "su_log s' = su_log s1 \<and> su_ops s' = su_ops s1"
    using assms by (auto simp: cancel_unlaunched_def cancelled_before_running_def e sink_lost_def split: if_splits)
  ultimately show ?thesis using continues_emit [OF e, simplified] by (simp add: continues_def)
qed

definition unannounced :: "Sup \<Rightarrow> bool" where
  "unannounced s \<longleftrightarrow> (\<forall>i. Spawned i \<notin> set (su_log s))"

lemma unannounced_continues: "unannounced s \<Longrightarrow> continues s s' \<Longrightarrow> unannounced s'"
  by (auto simp: unannounced_def continues_def list_all_iff) (use announces.simps(4) in blast)

lemma run_innerE:
  assumes run: "run_inner W w R = (r, s)"
  obtains (never) "su_ops s = []" "unannounced s"
  | (owned) i ev s1 where "ri_spawn R = SpawnOk i ev" "su_ops s1 = []" "su_state s1 = Starting"
      "su_log s1 = [BoundaryAttested (ri_attestation R), SpawnRequested]"
      "is_satisfied_by (ws_boundary_requirement w) (ri_attestation R)" "spec_validate w = Inr ()"
      "launched W w R i ev s1 = (r, s)"
proof -
  let ?a = "BoundaryAttested (ri_attestation R)"
  obtain ok s0 where e: "emit W ?a (initial w) = (ok, s0)" by fastforce
  have o0: "su_ops s0 = []" and l0: "su_log s0 = (if ok then [?a] else [])" and st0: "su_state s0 = Created"
    using emit_ops [of W ?a "initial w"] emit_log [of W ?a "initial w"] e
    by (auto simp: initial_def emit_def tock_def split: PublishAnswer.splits)
  obtain s2 where adv: "advance_worker Starting s0 = (Inr (), s2)" and s2: "su_ops s2 = []" "su_state s2 = Starting"
      "su_log s2 = su_log s0"
    using st0 o0 by (simp add: advance_worker_def can_transition_to_def)
  have un: "unannounced s0" using l0 by (simp add: unannounced_def)
  have un2: "unannounced s2" using un s2 by (simp add: unannounced_def)
  obtain ok2 s3 where e2: "emit W SpawnRequested s2 = (ok2, s3)" by fastforce
  have o3: "su_ops s3 = []" and l3: "su_log s3 = su_log s0 @ (if ok2 then [SpawnRequested] else [])"
    and st3: "su_state s3 = Starting"
    using emit_ops [of W SpawnRequested s2] emit_log [of W SpawnRequested s2] e2 s2
    by (auto simp: emit_def tock_def split: if_splits PublishAnswer.splits)
  have un3: "unannounced s3" using un l3 by (auto simp: unannounced_def)
  have early: "thesis" if "fail_to_start m sx = (r, s)" "su_ops sx = []" "unannounced sx" for m sx
    using fail_to_start_same [OF that(1)] that(2,3) never by (simp add: unannounced_def)
  have early_c: "thesis" if "cancel_unlaunched W sx = (r, s)" "su_ops sx = []" "unannounced sx" for sx
    using cancelled_before_same [OF that(1)] that(2,3) never unannounced_continues by metis
  have early_l: "thesis" if "sink_lost sx = (r, s)" "su_ops sx = []" "unannounced sx" for sx
    using that never by (simp add: sink_lost_def)
  show ?thesis
  proof (cases ok)
    case False
    with run e o0 un show ?thesis by (auto simp: run_inner_def intro: early_l)
  next
    case okT: True
    show ?thesis
    proof (cases "is_satisfied_by (ws_boundary_requirement w) (ri_attestation R)
                  \<and> spec_validate w = Inr () \<and> \<not> ri_cancel_requested R")
      case False
      then show ?thesis
        using run okT e adv s2(1) un2
        by (auto simp: run_inner_def split: if_splits sum.splits intro: early early_c)
    next
      case True
      then have rq: "request_spawn W w R s2 = (r, s)" using run okT e adv by (simp add: run_inner_def)
      show ?thesis
      proof (cases "\<exists>i ev. ok2 \<and> ri_spawn R = SpawnOk i ev")
        case False
        then show ?thesis
          using rq e2 o3 un3
          by (auto simp: request_spawn_def split: if_splits SpawnAnswer.splits intro: early early_c early_l)
      next
        case True2: True
        then obtain i ev where i: "ok2" "ri_spawn R = SpawnOk i ev" by blast
        then have "launched W w R i ev s3 = (r, s)" using rq e2 by (simp add: request_spawn_def)
        moreover have "su_log s3 = [?a, SpawnRequested]" using l0 l3 okT i(1) by simp
        ultimately show ?thesis using owned [OF i(2) o3 st3] True by blast
      qed
    qed
  qed
qed

text \<open>Once a process is owned: it is abandoned unannounced, or announced and managed.\<close>

lemma launchedE:
  assumes run: "launched W w R i ev s1 = (r, s)" and ops: "su_ops s1 = []" and st: "su_state s1 = Starting"
    and log: "su_log s1 = [BoundaryAttested a, SpawnRequested]"
  obtains (abandoned) v s2 where "su_ops s2 = []" "unannounced s2" "abandon_and_verify W s2 = (v, snd (abandon_and_verify W s2))"
      "\<exists>x. r = Some x \<and> is_failure x \<and> ((\<exists>m. x = CleanupFailure m) \<or> (\<exists>u. v = Inr u))"
      "su_ops s = su_ops (snd (abandon_and_verify W s2))" "su_log s = su_log (snd (abandon_and_verify W s2))"
  | (managed) s2 where "satisfies ev (ws_boundary_requirement w) (ri_attestation R)" "su_ops s2 = []"
      "su_log s2 = [BoundaryAttested a, SpawnRequested, LaunchEvidence ev, Spawned i]"
      "manage W w i (ri_events R) (ri_recvs R) s2 = (r, s)"
proof -
  have un1: "unannounced s1" using log by (simp add: unannounced_def)
  have lost: "thesis" if "abandon_sink_lost W s2 = (r, s)" "su_ops s2 = []" "unannounced s2" for s2
  proof -
    obtain v s3 where v: "abandon_and_verify W s2 = (v, s3)" by fastforce
    show ?thesis
      by (rule abandoned [OF that(2,3), of v])
        (use that(1) v in \<open>auto simp: abandon_sink_lost_def is_failure_def Let_def split: sum.splits\<close>)
  qed
  show ?thesis
  proof (cases "satisfies ev (ws_boundary_requirement w) (ri_attestation R)")
    case False
    obtain v s3 where v: "abandon_and_verify W s1 = (v, s3)" by fastforce
    let ?m = "M_Evidence (ws_boundary_requirement w) (ba_implementation (ri_attestation R)) (established ev)"
    have out: "(r, s) = (case v of Inl c \<Rightarrow> (Some (CleanupFailure (M_Join [?m, c])), s3) | Inr _ \<Rightarrow> fail_to_start ?m s3)"
      using run False v by (simp add: launched_def Let_def)
    have "(\<exists>x. r = Some x \<and> is_failure x \<and> ((\<exists>m. x = CleanupFailure m) \<or> (\<exists>u. v = Inr u)))
          \<and> su_ops s = su_ops s3 \<and> su_log s = su_log s3"
    proof (cases v)
      case (Inl c)
      with out show ?thesis by (simp add: is_failure_def)
    next
      case (Inr u)
      with out have "fail_to_start ?m s3 = (r, s)" by simp
      from fail_to_start_same [OF this] Inr show ?thesis by blast
    qed
    then show ?thesis using abandoned [OF ops un1, of v] v by simp
  next
    case sat: True
    obtain ok s2 where e: "emit W (LaunchEvidence ev) s1 = (ok, s2)" by fastforce
    have o2: "su_ops s2 = []" and l2: "su_log s2 = su_log s1 @ (if ok then [LaunchEvidence ev] else [])"
      and st2: "su_state s2 = Starting"
      using emit_ops [of W "LaunchEvidence ev" s1] emit_log [of W "LaunchEvidence ev" s1] e ops st
      by (auto simp: emit_def tock_def split: if_splits PublishAnswer.splits)
    have un2: "unannounced s2" using un1 l2 by (auto simp: unannounced_def)
    obtain s3 where adv: "advance_worker Running s2 = (Inr (), s3)" and s3: "su_ops s3 = []" "su_log s3 = su_log s2"
      using st2 o2 by (simp add: advance_worker_def can_transition_to_def)
    obtain ok2 s4 where e2: "emit W (Spawned i) s3 = (ok2, s4)" by fastforce
    have o4: "su_ops s4 = []" and l4: "su_log s4 = su_log s3 @ (if ok2 then [Spawned i] else [])"
      using emit_ops [of W "Spawned i" s3] emit_log [of W "Spawned i" s3] e2 s3 by auto
    show ?thesis
    proof (cases "ok \<and> ok2")
      case True
      then have "manage W w i (ri_events R) (ri_recvs R) s4 = (r, s)"
        using run sat e adv e2 by (simp add: launched_def Let_def)
      moreover have "su_log s4 = [BoundaryAttested a, SpawnRequested, LaunchEvidence ev, Spawned i]"
        using True log l2 s3 l4 by simp
      ultimately show ?thesis using managed [OF sat o4] by blast
    next
      case False
      have "(\<not> ok \<and> abandon_sink_lost W s2 = (r, s)) \<or> (ok \<and> \<not> ok2 \<and> abandon_sink_lost W s4 = (r, s))"
        using run sat e adv e2 False by (cases ok; cases ok2) (simp_all add: launched_def Let_def)
      moreover have "unannounced s4" if "\<not> ok2" using that un2 s3 l4 by (simp add: unannounced_def)
      ultimately show ?thesis using lost [OF _ o2 un2] lost [OF _ o4] by blast
    qed
  qed
qed

section \<open>Runs\<close>

text \<open>Every end of a run that owned a process proves the process set gone, or says it could not.\<close>

lemma run_proven_gone:
  assumes "run_inner W w R = (Some r, s)" and "\<forall>m. r \<noteq> CleanupFailure m"
  shows "proven_gone s \<or> (su_ops s = [] \<and> unannounced s)"
  using assms(1)
proof (cases rule: run_innerE)
  case (owned i ev s1)
  from owned(7,2,3,4) show ?thesis
  proof (cases rule: launchedE)
    case (abandoned v s2)
    then obtain u where "v = Inr u" using assms(2) by blast
    with abandoned have "proven_gone (snd (abandon_and_verify W s2))" using abandon_gone by blast
    then show ?thesis using abandoned(5) by (simp add: proven_gone_def)
  next
    case (managed s2)
    then obtain p s3 where "wind_down W w (ri_recvs R) p s3 = (r, s)"
      by (auto simp: manage_def split: prod.splits option.splits)
    then show ?thesis using wind_down_gone assms(2) by blast
  qed
qed simp

lemma run_success:
  assumes "run_inner W w R = (Some r, s)" and "\<not> is_failure r"
  shows "(su_ops s = [] \<and> unannounced s)
         \<or> (su_alive s \<and> (\<exists>pre. su_log s = pre @ [CleanupCompleted]) \<and> RV_Closed \<in> set (ri_recvs R))"
  using assms(1)
proof (cases rule: run_innerE)
  case (owned i ev s1)
  from owned(7,2,3,4) show ?thesis
  proof (cases rule: launchedE)
    case (managed s2)
    then obtain p s3 where "wind_down W w (ri_recvs R) p s3 = (r, s)"
      by (auto simp: manage_def split: prod.splits option.splits)
    then show ?thesis using wind_down_success assms(2) by blast
  qed (use assms(2) in blast)
qed simp

lemma run_one_shot:
  assumes "run_inner W w R = (r, s)"
  shows "one_shot (su_ops s)"
  using assms
proof (cases rule: run_innerE)
  case never
  then show ?thesis by (simp add: one_shot_def)
next
  case (owned i ev s1)
  from owned(7,2,3,4) show ?thesis
  proof (cases rule: launchedE)
    case (abandoned v s2)
    then show ?thesis using abandon_ops(1) by metis
  next
    case (managed s2)
    then show ?thesis using manage_one_shot by blast
  qed
qed

lemma run_announced:
  assumes "run_inner W w R = (r, s)" and "Spawned i \<in> set (su_log s)"
  shows "\<exists>ev rest. su_log s = [BoundaryAttested (ri_attestation R), SpawnRequested, LaunchEvidence ev, Spawned i] @ rest
           \<and> list_all (\<lambda>ob. \<not> announces ob) rest \<and> ri_spawn R = SpawnOk i ev
           \<and> satisfies ev (ws_boundary_requirement w) (ri_attestation R) \<and> spec_validate w = Inr ()"
  using assms(1)
proof (cases rule: run_innerE)
  case never
  with assms(2) show ?thesis by (simp add: unannounced_def)
next
  case (owned j ev s1)
  from owned(7,2,3,4) show ?thesis
  proof (cases rule: launchedE)
    case (abandoned v s2)
    then have "unannounced (snd (abandon_and_verify W s2))"
      using unannounced_continues continues_abandon by blast
    with assms(2) abandoned(6) show ?thesis by (simp add: unannounced_def)
  next
    case (managed s2)
    then obtain rest where rest: "su_log s = su_log s2 @ rest" "list_all (\<lambda>ob. \<not> announces ob) rest"
      using continues_manage unfolding continues_def by blast
    then have "Spawned i \<notin> set rest" by (auto simp: list_all_iff)
    then have "i = j" using assms(2) rest(1) managed(3) by auto
    then show ?thesis using rest managed owned by simp
  qed
qed

end
