(* ===== verification/Sandbox_Provenance.thy ===== *)
theory Sandbox_Provenance
  imports Sandbox_Policy
begin

text \<open>
  Where a policy's values came from: \<^verbatim>\<open>crates/o7-sandbox-protocol/src/provenance.rs\<close>. The
  four leaf grammars, the source of one field, the record over all fields and the probe of a
  document's schema version. The grammars test ASCII classes only, so a test over the
  characters of a string is a test over its bytes. A \<^verbatim>\<open>BTreeMap\<close> is a map; the JSON reader
  of \<^verbatim>\<open>serde_json\<close> is the parameter \<open>envelope\<close> of \<open>probe_schema_version\<close>.

  The lemmas show what the grammars exclude: an assignment, a control character, a path that
  leaves its anchor; and that a described policy has an origin for every field.
\<close>

section \<open>Characters\<close>

definition is_lower :: "char \<Rightarrow> bool" where
  "is_lower c \<longleftrightarrow> (let n = (of_char c :: nat) in 97 \<le> n \<and> n \<le> 122)"

definition is_alpha :: "char \<Rightarrow> bool" where
  "is_alpha c \<longleftrightarrow> (let n = (of_char c :: nat) in (65 \<le> n \<and> n \<le> 90) \<or> (97 \<le> n \<and> n \<le> 122))"

definition is_ascii_digit :: "char \<Rightarrow> bool" where
  "is_ascii_digit c \<longleftrightarrow> (let n = (of_char c :: nat) in 48 \<le> n \<and> n \<le> 57)"

section \<open>Leaves\<close>

definition PROVENANCE_SCHEMA_VERSION :: u32 where
  "PROVENANCE_SCHEMA_VERSION = 1"

definition MAX_CLI_OPTION :: nat where
  "MAX_CLI_OPTION = 64"

definition MAX_POLICY_KEY :: nat where
  "MAX_POLICY_KEY = 128"

definition MAX_ENV_NAME :: nat where
  "MAX_ENV_NAME = 128"

definition MAX_CONFIG_LOCATOR :: nat where
  "MAX_CONFIG_LOCATOR = 256"

datatype ProvenanceError = BadCliOption | BadPolicyKey | BadEnvName | BadConfigLocator

datatype CliOption = CliOption (cli_str: string)
datatype PolicyKey = PolicyKey (key_str: string)
datatype EnvName = EnvName (name_str: string)
datatype ConfigLocator = ConfigLocator (locator_str: string)

definition strip_dashes :: "string \<Rightarrow> string option" where
  "strip_dashes v = (if take 2 v = ''--'' then Some (drop 2 v) else None)"

fun has_double_dash :: "string \<Rightarrow> bool" where
  "has_double_dash (a # b # r) \<longleftrightarrow> (a = CHR ''-'' \<and> b = CHR ''-'') \<or> has_double_dash (b # r)"
| "has_double_dash _ \<longleftrightarrow> False"

definition cli_option_parse :: "string \<Rightarrow> (ProvenanceError, CliOption) result" where
  "cli_option_parse v =
     (if length v > MAX_CLI_OPTION then Inl BadCliOption
      else and_then (ok_or (strip_dashes v) BadCliOption) (\<lambda>body.
        case body of
          [] \<Rightarrow> Inl BadCliOption
        | first # _ \<Rightarrow>
            if \<not> is_lower first \<or> last body = CHR ''-'' \<or> has_double_dash body
               \<or> \<not> list_all (\<lambda>c. is_lower c \<or> is_ascii_digit c \<or> c = CHR ''-'') body
            then Inl BadCliOption else Inr (CliOption v)))"

definition key_segment :: "string \<Rightarrow> (ProvenanceError, unit) result" where
  "key_segment segment =
     (case segment of
        [] \<Rightarrow> Inl BadPolicyKey
      | first # _ \<Rightarrow>
          if \<not> (is_lower first \<or> first = CHR ''_'')
             \<or> \<not> list_all (\<lambda>c. is_lower c \<or> is_ascii_digit c \<or> c = CHR ''_'') segment
          then Inl BadPolicyKey else Inr ())"

definition policy_key_parse :: "string \<Rightarrow> (ProvenanceError, PolicyKey) result" where
  "policy_key_parse v =
     (if v = [] \<or> length v > MAX_POLICY_KEY then Inl BadPolicyKey
      else and_then (try_for_each key_segment (split_on (CHR ''.'') v)) (\<lambda>_. Inr (PolicyKey v)))"

definition env_name_parse :: "string \<Rightarrow> (ProvenanceError, EnvName) result" where
  "env_name_parse v =
     (if v = [] \<or> length v > MAX_ENV_NAME then Inl BadEnvName
      else (case v of
              [] \<Rightarrow> Inl BadEnvName
            | first # _ \<Rightarrow>
                if \<not> (is_alpha first \<or> first = CHR ''_'')
                   \<or> \<not> list_all (\<lambda>c. is_alpha c \<or> is_ascii_digit c \<or> c = CHR ''_'') v
                then Inl BadEnvName else Inr (EnvName v)))"

datatype ConfigAnchor = TargetRepo

definition locator_segment :: "string \<Rightarrow> (ProvenanceError, unit) result" where
  "locator_segment segment =
     (if segment = [] \<or> segment = ''.'' \<or> segment = ''..'' then Inl BadConfigLocator
      else if \<not> list_all (\<lambda>c. is_alpha c \<or> is_ascii_digit c \<or> c = CHR ''.'' \<or> c = CHR ''_'' \<or> c = CHR ''-'') segment
      then Inl BadConfigLocator else Inr ())"

definition config_locator_parse :: "string \<Rightarrow> (ProvenanceError, ConfigLocator) result" where
  "config_locator_parse v =
     (if v = [] \<or> length v > MAX_CONFIG_LOCATOR then Inl BadConfigLocator
      else and_then (try_for_each locator_segment (split_on (CHR ''/'') v))
             (\<lambda>_. Inr (ConfigLocator v)))"

section \<open>Versions\<close>

text \<open>A \<^verbatim>\<open>serde_json\<close> error: its category (as it prints), its line and its column.\<close>

record SerdeError =
  se_classify :: string
  se_line :: nat
  se_column :: nat

definition redacted_parse_failure :: "SerdeError \<Rightarrow> string" where
  "redacted_parse_failure e =
     se_classify e @ '' error at line '' @ decimal (se_line e) @ '', column '' @ decimal (se_column e)
     @ '' (the offending text is deliberately not echoed)''"

datatype SchemaSupport = Supported | Unsupported u32 | Unreadable string

text \<open>\<open>envelope\<close> reads the numeric \<^verbatim>\<open>schema_version\<close> of a JSON document, whatever else it holds.\<close>

definition probe_schema_version :: "(string \<Rightarrow> (SerdeError, u32) result) \<Rightarrow> string \<Rightarrow> SchemaSupport" where
  "probe_schema_version envelope text =
     (case envelope text of
        Inr v \<Rightarrow> if v = PROVENANCE_SCHEMA_VERSION then Supported else Unsupported v
      | Inl e \<Rightarrow> Unreadable (redacted_parse_failure e))"

section \<open>Sources\<close>

text \<open>The line of a \<open>Config\<close> source is a \<^verbatim>\<open>NonZeroU32\<close>.\<close>

datatype PolicySource =
    Default
  | Cli CliOption
  | Config ConfigAnchor ConfigLocator PolicyKey "u32 option"
  | Environment EnvName

datatype PolicyField = PF_Worktree | PF_AllowExec | PF_Network | PF_EnvAllowlist | PF_Timeout

definition POLICY_FIELDS :: "PolicyField list" where
  "POLICY_FIELDS = [PF_Worktree, PF_AllowExec, PF_Network, PF_EnvAllowlist, PF_Timeout]"

record PolicySources =
  ps_worktree :: PolicySource
  ps_allow_exec :: PolicySource
  ps_network :: PolicySource
  ps_env_allowlist :: PolicySource
  ps_timeout :: PolicySource

record PolicyProvenance =
  pp_schema_version :: u32
  pp_policy_digest :: SandboxDigest
  pp_fields :: "PolicyField \<rightharpoonup> PolicySource"

definition describe :: "(bytes \<Rightarrow> bytes) \<Rightarrow> SandboxPolicy \<Rightarrow> PolicySources \<Rightarrow> PolicyProvenance" where
  "describe sha p s =
     \<lparr>pp_schema_version = PROVENANCE_SCHEMA_VERSION,
      pp_policy_digest = policy_digest sha p,
      pp_fields = Map.empty(PF_Worktree \<mapsto> ps_worktree s, PF_AllowExec \<mapsto> ps_allow_exec s,
                    PF_Network \<mapsto> ps_network s, PF_EnvAllowlist \<mapsto> ps_env_allowlist s,
                    PF_Timeout \<mapsto> ps_timeout s)\<rparr>"

definition is_supported_version :: "PolicyProvenance \<Rightarrow> bool" where
  "is_supported_version v \<longleftrightarrow> pp_schema_version v = PROVENANCE_SCHEMA_VERSION"

definition source_of :: "PolicyProvenance \<Rightarrow> PolicyField \<Rightarrow> PolicySource option" where
  "source_of v f = pp_fields v f"

definition missing_fields :: "PolicyProvenance \<Rightarrow> PolicyField list" where
  "missing_fields v = filter (\<lambda>f. pp_fields v f = None) POLICY_FIELDS"

definition explains :: "(bytes \<Rightarrow> bytes) \<Rightarrow> PolicyProvenance \<Rightarrow> SandboxPolicy \<Rightarrow> bool" where
  "explains sha v p \<longleftrightarrow> pp_policy_digest v = policy_digest sha p"

section \<open>What the grammars exclude\<close>

text \<open>A printable ASCII character other than \<^verbatim>\<open>=\<close>, \<^verbatim>\<open>:\<close>, \<^verbatim>\<open>\\<close>, quotes and the blank.\<close>

definition identifier_char :: "char \<Rightarrow> bool" where
  "identifier_char c \<longleftrightarrow>
     is_alpha c \<or> is_ascii_digit c \<or> c = CHR ''.'' \<or> c = CHR ''_'' \<or> c = CHR ''-'' \<or> c = CHR ''/''"

lemma is_lower_alpha: "is_lower c \<Longrightarrow> is_alpha c"
  by (simp add: is_lower_def is_alpha_def Let_def)

lemma split_on_chars: "c \<in> set v \<Longrightarrow> c = d \<or> (\<exists>seg \<in> set (split_on d v). c \<in> set seg)"
proof (induction v)
  case (Cons x xs)
  show ?case
  proof (cases "x = d")
    case True
    with Cons show ?thesis by auto
  next
    case False
    obtain y ys where y: "split_on d xs = y # ys" by (cases "split_on d xs") simp_all
    with False have split: "split_on d (x # xs) = (x # y) # ys" by simp
    show ?thesis
    proof (cases "c = x")
      case False
      with Cons show ?thesis unfolding split by (auto simp: y)
    qed (simp only: split list.set insert_iff bex_simps, simp)
  qed
qed simp

lemma env_name_chars: "env_name_parse v = Inr n \<Longrightarrow> n = EnvName v \<and> list_all identifier_char v"
  by (auto simp: env_name_parse_def identifier_char_def list_all_iff split: list.splits if_splits)

lemma policy_key_chars:
  assumes "policy_key_parse v = Inr k"
  shows "k = PolicyKey v \<and> list_all identifier_char v"
proof
  show "k = PolicyKey v" using assms by (simp add: policy_key_parse_def split: if_splits)
  have seg: "\<forall>seg \<in> set (split_on (CHR ''.'') v). key_segment seg = Inr ()"
    using assms by (simp add: policy_key_parse_def try_for_each_Inr split: if_splits)
  have "identifier_char c" if "c \<in> set v" for c
  proof (cases "c = CHR ''.''")
    case False
    with that split_on_chars obtain s where "s \<in> set (split_on (CHR ''.'') v)" "c \<in> set s" by blast
    moreover from this seg have "key_segment s = Inr ()" by blast
    ultimately show ?thesis
      by (simp add: key_segment_def list_all_iff identifier_char_def split: list.splits if_splits)
        (use is_lower_alpha in blast)
  qed (simp add: identifier_char_def)
  then show "list_all identifier_char v" by (simp add: list_all_iff)
qed

lemma cli_option_chars:
  assumes "cli_option_parse v = Inr k"
  shows "k = CliOption v \<and> list_all identifier_char v"
proof -
  obtain body where body: "strip_dashes v = Some body"
    and rest: "(case body of [] \<Rightarrow> Inl BadCliOption | first # _ \<Rightarrow>
        if \<not> is_lower first \<or> last body = CHR ''-'' \<or> has_double_dash body
           \<or> \<not> list_all (\<lambda>c. is_lower c \<or> is_ascii_digit c \<or> c = CHR ''-'') body
        then Inl BadCliOption else Inr (CliOption v)) = Inr k"
    using assms unfolding cli_option_parse_def if_Inl_eq_Inr and_then_eq_Inr ok_or_eq_Inr by blast
  from rest have k: "k = CliOption v"
    and all: "list_all (\<lambda>c. is_lower c \<or> is_ascii_digit c \<or> c = CHR ''-'') body"
    by (cases body; simp split: if_splits)+
  have "take 2 v = ''--'' \<and> body = drop 2 v"
    using body by (cases "take 2 v = ''--''") (simp_all only: strip_dashes_def if_True if_False option.simps simp_thms)
  then have v: "v = ''--'' @ body" using append_take_drop_id [of 2 v] by (simp only:)
  have "list_all identifier_char body"
    using all by (auto simp: list_all_iff identifier_char_def is_lower_alpha)
  moreover have "identifier_char (CHR ''-'')" by (simp add: identifier_char_def)
  ultimately show ?thesis using k by (simp add: v)
qed

lemma locator_segments:
  assumes "config_locator_parse v = Inr l"
  shows "l = ConfigLocator v" "v \<noteq> []" "length v \<le> 256"
    and "\<forall>seg \<in> set (split_on (CHR ''/'') v). locator_segment seg = Inr ()"
  using assms
  by (simp_all add: config_locator_parse_def try_for_each_Inr MAX_CONFIG_LOCATOR_def split: if_splits)

lemma locator_chars:
  assumes "config_locator_parse v = Inr l"
  shows "l = ConfigLocator v \<and> list_all identifier_char v"
proof
  have "identifier_char c" if "c \<in> set v" for c
  proof (cases "c = CHR ''/''")
    case False
    with that split_on_chars obtain s where "s \<in> set (split_on (CHR ''/'') v)" "c \<in> set s" by blast
    moreover from this locator_segments(4) [OF assms] have "locator_segment s = Inr ()" by blast
    ultimately show ?thesis
      by (auto simp: locator_segment_def list_all_iff identifier_char_def split: if_splits)
  qed (simp add: identifier_char_def)
  then show "list_all identifier_char v" by (simp add: list_all_iff)
qed (rule locator_segments(1) [OF assms])

text \<open>The components of a locator are its segments, each a plain name.\<close>

lemma locator_components:
  assumes "config_locator_parse v = Inr l"
  shows "path_components v = map Normal (split_on (CHR ''/'') v)"
proof -
  note seg = locator_segments [OF assms]
  let ?segs = "split_on (CHR ''/'') v"
  have each: "parse_component s = [Normal s]" if "s \<in> set ?segs" for s
  proof -
    have "locator_segment s = Inr ()" using seg(4) that by blast
    then have "s \<noteq> []" "s \<noteq> ''.''" "s \<noteq> ''..''"
      by (simp_all only: locator_segment_def) (auto split: if_splits)
    then show ?thesis by (simp only: parse_component_def if_False simp_thms)
  qed
  have hd: "hd ?segs \<in> set ?segs" by simp
  have "hd v \<noteq> CHR ''/''"
  proof
    assume "hd v = CHR ''/''"
    then obtain r where "v = CHR ''/'' # r" using seg(2) by (cases v) simp_all
    then have "hd ?segs = []" by simp
    with hd each [OF hd] show False by (simp add: parse_component_def)
  qed
  moreover have "hd ?segs \<noteq> ''.''"
    using each [OF hd] by (auto simp only: parse_component_def split: if_splits)
  moreover have "concat (map parse_component ?segs) = map Normal ?segs"
    using each by (induction ?segs) (auto simp: map_concat cong: map_cong)
  ultimately show ?thesis by (simp add: path_components_def Let_def)
qed

text \<open>The strings a source carries, and that each of them came through its grammar.\<close>

definition source_leaves :: "PolicySource \<Rightarrow> string list" where
  "source_leaves s =
     (case s of
        Default \<Rightarrow> []
      | Cli c \<Rightarrow> [cli_str c]
      | Config _ l k _ \<Rightarrow> [locator_str l, key_str k]
      | Environment n \<Rightarrow> [name_str n])"

definition source_ok :: "PolicySource \<Rightarrow> bool" where
  "source_ok s =
     (case s of
        Default \<Rightarrow> True
      | Cli c \<Rightarrow> cli_option_parse (cli_str c) = Inr c
      | Config _ l k _ \<Rightarrow>
          config_locator_parse (locator_str l) = Inr l \<and> policy_key_parse (key_str k) = Inr k
      | Environment n \<Rightarrow> env_name_parse (name_str n) = Inr n)"

lemma leaf_lengths:
  "cli_option_parse v = Inr c \<Longrightarrow> length v \<le> 64"
  "policy_key_parse v = Inr k \<Longrightarrow> length v \<le> 128"
  "env_name_parse v = Inr n \<Longrightarrow> length v \<le> 128"
  by (simp_all add: cli_option_parse_def policy_key_parse_def env_name_parse_def MAX_CLI_OPTION_def
      MAX_POLICY_KEY_def MAX_ENV_NAME_def split: if_splits)

lemma source_leaves_identify:
  assumes "source_ok s" and "v \<in> set (source_leaves s)"
  shows "length v \<le> 256 \<and> list_all identifier_char v"
proof (cases s)
  case (Cli c)
  with assms show ?thesis
    using cli_option_chars [of v] leaf_lengths(1) [of v] by (auto simp: source_ok_def source_leaves_def)
next
  case (Config a l k line)
  with assms show ?thesis
    using locator_chars [of v] locator_segments(3) [of v] policy_key_chars [of v] leaf_lengths(2) [of v]
    by (auto simp: source_ok_def source_leaves_def)
next
  case (Environment n)
  with assms show ?thesis
    using env_name_chars [of v] leaf_lengths(3) [of v] by (auto simp: source_ok_def source_leaves_def)
qed (use assms in \<open>simp add: source_leaves_def\<close>)

section \<open>A described policy\<close>

lemma describe_source:
  "source_of (describe sha p s) f =
     Some (case f of PF_Worktree \<Rightarrow> ps_worktree s | PF_AllowExec \<Rightarrow> ps_allow_exec s
           | PF_Network \<Rightarrow> ps_network s | PF_EnvAllowlist \<Rightarrow> ps_env_allowlist s | PF_Timeout \<Rightarrow> ps_timeout s)"
  by (cases f) (simp_all add: source_of_def describe_def)

lemma describe_complete:
  "missing_fields (describe sha p s) = []" "explains sha (describe sha p s) p"
  "is_supported_version (describe sha p s)"
  using describe_source [of sha p s]
  by (simp_all add: missing_fields_def source_of_def explains_def describe_def is_supported_version_def)

lemma POLICY_FIELDS_all: "f \<in> set POLICY_FIELDS"
  by (cases f) (simp_all add: POLICY_FIELDS_def)

lemma missing_fields_iff: "f \<in> set (missing_fields v) \<longleftrightarrow> source_of v f = None"
  by (simp add: missing_fields_def source_of_def POLICY_FIELDS_all)

end
