(* ===== verification/Worker_Properties.thy ===== *)
theory Worker_Properties
  imports Worker_Launch Worker_Trace Sandbox_Provenance
begin

text \<open>
  The properties of the sandbox contract and of the worker, each with a concrete run where it has
  a hypothesis. The samples at the beginning are a policy, a backend that answers, and a run that
  ends well.
\<close>

section \<open>Samples\<close>

definition sample_policy :: SandboxPolicy where
  "sample_policy =
     \<lparr>sp_worktree = ''/w'', sp_allow_exec = [''/bin'', ''/opt''], sp_network = DenyAll,
      sp_env_allowlist = [''A'', ''B''], sp_timeout = from_secs 5\<rparr>"

text \<open>The same allowances in another order.\<close>

definition sample_policy' :: SandboxPolicy where
  "sample_policy' = sample_policy\<lparr>sp_allow_exec := [''/opt'', ''/bin''], sp_env_allowlist := [''B'', ''A'']\<rparr>"

definition sample_sha :: "bytes \<Rightarrow> bytes" where
  "sample_sha bs = replicate 32 0"

definition sample_digest :: SandboxDigest where
  "sample_digest = SandboxDigest (replicate 64 CHR ''0'')"

definition sample_nonce :: LaunchNonce where
  "sample_nonce = LaunchNonce (replicate 32 CHR ''0'')"

definition sample_object :: SealedObject where
  "sample_object = \<lparr>so_pid = 7, so_fd = 3, so_digest = sample_digest\<rparr>"

definition sample_boundary :: SandboyBoundary where
  "sample_boundary =
     \<lparr>sb_backend = \<lparr>bi_object = sample_object, bi_identity = \<lparr>be_name = ''s'', be_version = ''1''\<rparr>\<rparr>,
      sb_policy = sample_policy\<rparr>"

definition sample_report :: SandboxReport where
  "sample_report =
     \<lparr>sr_schema_version = 1, sr_backend = \<lparr>be_name = ''s'', be_version = ''1''\<rparr>,
      sr_backend_digest = sample_digest, sr_policy_digest = sample_digest, sr_launch_nonce = sample_nonce,
      sr_launch_spec_digest = sample_digest, sr_filesystem = Enforced, sr_network = Enforced,
      sr_env = Enforced, sr_process_tree = Enforced, sr_timeout = Enforced\<rparr>"

definition sample_report_serde :: "(SandboxReport, RawReport) serde" where
  "sample_report_serde =
     \<lparr>to_vec = (\<lambda>_. Inr [7]), from_slice = (\<lambda>bs. if bs = [7] then Some (report_raw sample_report) else None),
      why = (\<lambda>_. [])\<rparr>"

definition sample_request :: "EnvEntry list \<Rightarrow> LaunchRequest" where
  "sample_request env =
     \<lparr>lr_schema_version = 1, lr_target_digest = sample_digest, lr_argv = [[1]], lr_cwd = [47], lr_env = env,
      lr_stdin = StdinNull, lr_launch_nonce = sample_nonce\<rparr>"

definition sample_env :: "EnvEntry list" where
  "sample_env = [\<lparr>env_name = [65], env_value = [1]\<rparr>, \<lparr>env_name = [66], env_value = [2]\<rparr>]"

definition sample_request_serde :: "(LaunchRequest, RawRequest) serde" where
  "sample_request_serde =
     \<lparr>to_vec = (\<lambda>_. Inr [1]),
      from_slice = (\<lambda>bs. Some (request_raw (sample_request (if bs = [1] then sample_env else rev sample_env)))),
      why = (\<lambda>_. [])\<rparr>"

definition sample_fields :: "string list" where
  "sample_fields = [''S'', ''1'', ''9'', ''9'', ''0'', ''0'', ''0'', ''0'', ''0'', ''0'', ''0'', ''0'', ''0'', ''0'', ''0'', ''0'', ''0'', ''0'', ''0'', ''42'']"

definition sample_stat :: string where
  "sample_stat = ''9 (s)'' @ concat (map (\<lambda>f. CHR '' '' # f) sample_fields)"

definition sample_os :: Os where
  "sample_os =
     \<lparr>os_process_id = 7,
      os_open_nofollow = (\<lambda>_. Inr \<lparr>de_stat = Inr (0x81ED, 1), de_read = Inr [5], de_seals = Inr 0\<rparr>),
      os_open_follow = (\<lambda>_. Inl []),
      os_memfd = (\<lambda>bs. \<lparr>mf_create = Inr 4, mf_write = Inr (), mf_add_seals = Inr (), mf_get_seals = Inr 0xF,
                        mf_back = Inr bs\<rparr>)\<rparr>"

definition sample_world :: LaunchWorld where
  "sample_world =
     \<lparr>lw_linux = True, lw_mint = Inr sample_nonce, lw_os = sample_os, lw_stage_join = Inr (),
      lw_socket_pair = Inr (), lw_command = (\<lambda>_. Inr (Some 9)),
      lw_proc = \<lparr>ps_pids = Inr [], ps_stat = (\<lambda>_. Inr sample_stat)\<rparr>,
      lw_reply = (\<lambda>_. Some [0, 0, 0, 1, 7]), lw_go = True,
      lw_reap = \<lparr>rw_wait = None, rw_members = (\<lambda>_. \<lparr>ps_pids = Inr [], ps_stat = (\<lambda>_. Inr [])\<rparr>),
                 rw_late = (\<lambda>_. 0)\<rparr>\<rparr>"

definition sample_spawn :: BoundarySpawnSpec where
  "sample_spawn =
     \<lparr>ss_executable = ''/bin/x'', ss_arguments = [''x''], ss_working_directory = ''/w'',
      ss_environment = [(''A'', ''1'')], ss_stdin = StdinModeNull\<rparr>"

definition sample_spec :: WorkerSpec where
  "sample_spec =
     \<lparr>ws_worker_id = ''w'', ws_executable = ''/bin/x'', ws_arguments = [], ws_working_directory = ''/'',
      ws_environment = [], ws_stdin = StdinModeNull, ws_output = OutputPolicy_default,
      ws_cancellation = CancellationPolicy_default, ws_heartbeat = HeartbeatPolicy_default,
      ws_boundary_requirement = RequireFullyEnforced\<rparr>"

definition sample_identity :: ProcessIdentity where
  "sample_identity = \<lparr>pi_pid = 9, pi_process_group = 9, pi_start_time_ticks = 42\<rparr>"

definition sample_answers :: World where
  "sample_answers =
     \<lparr>wo_publish = (\<lambda>_ _. PubOk), wo_graceful = (\<lambda>_. B_Ok ()), wo_force = (\<lambda>_. B_Ok ()),
      wo_wait = (\<lambda>_. B_Ok (ExitCode 0)), wo_members = (\<lambda>_. B_Ok []), wo_lag = (\<lambda>_. 1)\<rparr>"

definition sample_run :: RunInput where
  "sample_run =
     \<lparr>ri_attestation = sandboy_attestation, ri_cancel_requested = False,
      ri_spawn = SpawnOk sample_identity (Reported sandboy_attestation [1]),
      ri_events = [EvHeartbeat, EvExit (ExitCode 0)], ri_recvs = [RV_Closed]\<rparr>"

lemma sample_durations [simp]:
  "dur_ok (from_secs 5)" "timeout_ok (from_secs 5)"
  by (simp_all add: dur_ok_def timeout_ok_def from_secs_def MIN_TIMEOUT_def MAX_TIMEOUT_def dur_less_def from_millis_def)

lemma sample_policy_valid: "policy_validate sample_policy = Inr ()" "policy_validate sample_policy' = Inr ()"
  by (simp_all add: validate_iff sample_policy_def sample_policy'_def is_absolute_def)


lemma sample_path: "path_components ''/bin/x'' = [RootDir, Normal ''bin'', Normal ''x'']"
  by (simp add: path_components_def parse_component_def)

lemma sample_bin: "path_components ''/bin'' = [RootDir, Normal ''bin'']"
  by (simp add: path_components_def parse_component_def)

lemma sample_target_permitted: "permits_exec sample_policy ''/bin/x''"
  by (simp add: permits_exec_def sample_path sample_bin sample_policy_def is_dot_def path_starts_with_def)

definition plain_word :: "string \<Rightarrow> bool" where
  "plain_word w \<longleftrightarrow> w \<noteq> [] \<and> list_all (\<lambda>c. (of_char c :: nat) < 128 \<and> \<not> ascii_white (of_char c)) w"

lemma words_from_word:
  "list_all (\<lambda>c. (of_char c :: nat) < 128 \<and> \<not> ascii_white (of_char c)) w \<Longrightarrow>
   words_from acc (w @ CHR '' '' # r) = flush (rev w @ acc) (words_from [] r)
   \<and> words_from acc w = flush (rev w @ acc) []"
proof (induction w arbitrary: acc)
  case Nil
  then show ?case by (simp add: ascii_white_def)
next
  case (Cons a w)
  then have a: "\<not> ascii_white (of_char a)" "\<not> white2 (of_char a) x" "\<not> white3 (of_char a) x y" for x y
    by (auto simp: white2_def white3_def)
  then have "words_from acc (a # t) = words_from (a # acc) t" for t by (simp split: list.splits)
  with Cons show ?case by simp
qed

lemma split_whitespace_words:
  "list_all plain_word ws \<Longrightarrow> split_whitespace (concat (map (\<lambda>f. CHR '' '' # f) ws)) = ws"
proof (induction ws)
  case (Cons w ws)
  have sp: "words_from [] (CHR '' '' # t) = words_from [] t" for t by (simp add: ascii_white_def flush_def)
  have IH: "words_from [] (concat (map (\<lambda>f. CHR '' '' # f) ws)) = ws" using Cons by (simp add: split_whitespace_def)
  from Cons.prems have w: "w \<noteq> []" "list_all (\<lambda>c. (of_char c :: nat) < 128 \<and> \<not> ascii_white (of_char c)) w"
    by (simp_all add: plain_word_def)
  show ?case
  proof (cases ws)
    case Nil
    then show ?thesis using words_from_word [OF w(2), of "[]"] w(1) sp by (simp add: split_whitespace_def flush_def)
  next
    case (Cons v vs)
    then have "words_from [] (w @ concat (map (\<lambda>f. CHR '' '' # f) ws)) = w # ws"
      using words_from_word [OF w(2), of "[]" "v @ concat (map (\<lambda>f. CHR '' '' # f) vs)"] w(1) IH sp
      by (simp add: flush_def)
    then show ?thesis using sp by (simp add: split_whitespace_def)
  qed
qed (simp add: split_whitespace_def flush_def)

lemma after_last_paren_append: "CHR '')'' \<notin> set t \<Longrightarrow> after_last_paren (a @ CHR '')'' # t) = Some t"
proof -
  assume "CHR '')'' \<notin> set t"
  then have "after_last_paren t = None" by (induction t) auto
  then show ?thesis by (induction a) simp_all
qed

lemma sample_words: "Option.bind (after_last_paren sample_stat) (\<lambda>t. Some (split_whitespace t)) = Some sample_fields"
proof -
  have "list_all plain_word sample_fields"
    by (simp add: sample_fields_def plain_word_def ascii_white_def)
  moreover have "after_last_paren sample_stat = Some (concat (map (\<lambda>f. CHR '' '' # f) sample_fields))"
    using after_last_paren_append [of "concat (map (\<lambda>f. CHR '' '' # f) sample_fields)" "''9 (s''"]
    by (simp add: sample_stat_def sample_fields_def)
  ultimately show ?thesis by (simp add: split_whitespace_words)
qed

lemma sample_numbers: "parse_i32 ''9'' = Some 9" "parse_u64 ''42'' = Some 42"
  by (simp_all add: parse_i32_def parse_u64_def parse_digits_def digit_char_def dec_value_def)

lemma sample_identity_read: "read_identity \<lparr>ps_pids = Inr [], ps_stat = (\<lambda>_. Inr sample_stat)\<rparr> 9 = Some sample_identity"
proof -
  obtain t where t: "after_last_paren sample_stat = Some t" "split_whitespace t = sample_fields"
    using sample_words by (cases "after_last_paren sample_stat") simp_all
  show ?thesis
    by (simp add: read_identity_def parse_stat_def t field_def sample_numbers sample_identity_def)
      (simp add: sample_fields_def sample_numbers)
qed

lemma hex_zeros: "to_lower_hex (replicate n 0) = replicate (2 * n) (CHR ''0'')"
proof (induction n)
  case (Suc n)
  have "char_of (48 :: nat) = CHR ''0''" by code_simp
  with Suc show ?case by (simp add: hex_digit_def from_digit16_def)
qed simp

lemma sample_digest_of [simp]: "digest_of_bytes sample_sha bs = sample_digest"
  by (simp only: digest_of_bytes_def sample_sha_def hex_zeros sample_digest_def) simp

lemma sample_staged: "stage sample_sha sample_os ''/bin/x'' = Inr \<lparr>so_pid = 7, so_fd = 4, so_digest = sample_digest\<rparr>"
  by (simp add: stage_def acquire_def is_proc_fd_path_def sample_path acquire_ordinary_def sample_os_def
      is_regular_def read_take_def MAX_OBJECT_BYTES_def stage_from_bytes_def fully_sealed_def required_seals_def
      sample_digest_of)

section \<open>The sandbox contract\<close>



text \<open>
  C39. The execution gate decides containment. Under a validated policy a target may execute exactly when it is an
  absolute path without dot components that lies, component by component, at or beneath an allowance that itself
  has none: the place it names from the root extends the place the allowance names.
\<close>

theorem permits_exec_containment:
  assumes "policy_validate p = Inr ()"
  shows "permits_exec p t \<longleftrightarrow>
           plain t \<and> is_absolute t \<and> (\<exists>a \<in> set (sp_allow_exec p). plain a \<and> prefix (named_place a) (named_place t))"
  by (rule permits_exec_places) (use assms in \<open>simp add: validate_iff\<close>)

theorem permits_exec_containment_witness:
  "plain ''/bin/x'' \<and> is_absolute ''/bin/x''
   \<and> (\<exists>a \<in> set (sp_allow_exec sample_policy). plain a \<and> prefix (named_place a) (named_place ''/bin/x''))"
  using permits_exec_containment [OF sample_policy_valid(1), of "''/bin/x''"] sample_target_permitted by blast

text \<open>
  C38. The report channel accepts one bounded frame and nothing else. Decoding returns a report exactly for the
  four big-endian bytes of a length of at most 65536 followed by that many bytes, when those are the JSON of a
  report whose identity, digests and nonce are well-formed and whose version is the supported one.
\<close>

theorem report_frame_exact:
  "decode_report S bs = Inr r \<longleftrightarrow>
     (\<exists>body. bs = be_bytes 4 (length body) @ body \<and> length body \<le> 65536
             \<and> from_slice S body = Some (report_raw r) \<and> report_ok r \<and> sr_schema_version r = 1)"
proof -
  have len: "len_prefix body = be_bytes 4 (length body)" if "length body \<le> 65536" for body
    using that by (simp add: len_prefix_def unat_of_nat)
  show ?thesis
    unfolding report_frame.accepted_iff map_err_eq_Inr report_parse_iff
    by (auto simp: MAX_REPORT_BYTES_def SCHEMA_VERSION_def len) (metis len)
qed

text \<open>
  C36. The launch digest identifies the execution. Two requests that decode have one digest exactly when they name
  the same target object, the same arguments in the same order, the same directory, the same environment as a map,
  the same standard input and the same nonce; the only other case is a collision of the hash.
\<close>

theorem launch_digest_identity:
  assumes "decode_request S b1 = Inr q" "decode_request S b2 = Inr r" and "length (spec_bytes q) < 2 ^ 64"
  shows "spec_digest sha q = spec_digest sha r \<longleftrightarrow>
           (lr_target_digest q = lr_target_digest r \<and> lr_argv q = lr_argv r \<and> lr_cwd q = lr_cwd r
            \<and> map_of (env_pairs q) = map_of (env_pairs r) \<and> lr_stdin q = lr_stdin r
            \<and> lr_launch_nonce q = lr_launch_nonce r)
           \<or> (spec_bytes q \<noteq> spec_bytes r \<and> sha (spec_bytes q) = sha (spec_bytes r))"
proof -
  have q: "lr_schema_version q = SCHEMA_VERSION" "distinct (map env_name (lr_env q))"
    and r: "lr_schema_version r = SCHEMA_VERSION" "distinct (map env_name (lr_env r))"
    using assms(1,2) unfolding request_frame.accepted_iff request_parse_iff by auto
  show ?thesis
    using spec_bytes_iff [of q r] assms(3)
    by (auto simp: spec_digest_def digest_of_bytes_inj q(1) r(1) env_pairs_map_of [OF q(2) r(2)])
qed

lemma length_spec_bytes:
  "length (spec_bytes q) =
     63 + length (digest_str (lr_target_digest q)) + sum_list (map (\<lambda>a. 8 + length a) (lr_argv q)) + length (lr_cwd q)
     + sum_list (map (\<lambda>e. 16 + length (env_name e) + length (env_value e)) (lr_env q))
     + length (nonce_str (lr_launch_nonce q))"
proof -
  have "sum_list (map f (sort xs)) = sum_list (map f xs)" for f :: "bytes \<times> bytes \<Rightarrow> nat" and xs
    by (metis mset_map mset_sort sum_mset_sum_list)
  then have "length (concat (map (\<lambda>(n, v). push_bytes n @ push_bytes v) (sort (env_pairs q))))
        = sum_list (map (\<lambda>e. 16 + length (env_name e) + length (env_value e)) (lr_env q))"
    by (simp add: length_concat comp_def env_pairs_def case_prod_beta add.assoc)
  then show ?thesis
    by (simp add: spec_bytes_def spec_magic_def length_concat comp_def)
qed

lemma sample_request_decodes:
  "decode_request sample_request_serde [0, 0, 0, 1, 1] = Inr (sample_request sample_env)"
  "decode_request sample_request_serde [0, 0, 0, 1, 2] = Inr (sample_request (rev sample_env))"
proof -
  have ok: "request_ok (sample_request e)" for e
    by (simp add: request_ok_def sample_request_def sample_digest_def sample_nonce_def digest_ok_def nonce_ok_def
        digest_parse_def nonce_parse_def is_lower_hex_def list_all_iff)
  have "request_parse sample_request_serde [1] = Inr (sample_request sample_env)"
    "request_parse sample_request_serde [2] = Inr (sample_request (rev sample_env))"
    unfolding request_parse_iff
    by (simp_all add: ok sample_request_serde_def) (simp_all add: sample_request_def SCHEMA_VERSION_def sample_env_def)
  then show "decode_request sample_request_serde [0, 0, 0, 1, 1] = Inr (sample_request sample_env)"
    "decode_request sample_request_serde [0, 0, 0, 1, 2] = Inr (sample_request (rev sample_env))"
    by (simp_all add: decode_request_def frame_cases MAX_REQUEST_BYTES_def be_value_def)
qed

theorem launch_digest_identity_witness:
  "spec_digest sample_sha (sample_request sample_env) = spec_digest sample_sha (sample_request (rev sample_env)) \<longleftrightarrow>
     map_of (env_pairs (sample_request sample_env)) = map_of (env_pairs (sample_request (rev sample_env)))
     \<or> spec_bytes (sample_request sample_env) \<noteq> spec_bytes (sample_request (rev sample_env))"
proof -
  have "length (spec_bytes (sample_request sample_env)) < 2 ^ 64"
    by (simp add: length_spec_bytes sample_request_def sample_digest_def sample_nonce_def sample_env_def)
  from launch_digest_identity [OF sample_request_decodes this, of sample_sha]
  show ?thesis by (auto simp: sample_request_def sample_sha_def)
qed

section \<open>The launch\<close>

text \<open>
  C40. The backend reads the digested policy off its arguments. For every boundary that could be constructed, the
  arguments of the backend are the nonce, the flags of the policy and the sealed target, and reading the flags
  back gives exactly that policy, deadline included: no precision is lost between the digest and the command line.
\<close>

theorem backend_reads_policy:
  assumes "sandboy_new img p = Inr b" and "dur_ok (sp_timeout p)"
  shows "\<exists>flags. backend_argv b nonce target
           = [''run'', ''--launch-nonce'', nonce_str nonce] @ flags @ [''--'', target]
           \<and> read_flags flags = Some p"
proof -
  have "policy_validate p = Inr ()" and b: "b = \<lparr>sb_backend = img, sb_policy = p\<rparr>"
    using assms(1) by (auto simp: sandboy_new_def)
  then have "read_flags (sandboy_policy_flags p) = Some p" using read_flags_exact assms(2) by blast
  then show ?thesis by (auto simp: backend_argv_def b)
qed

theorem backend_reads_policy_witness:
  "\<exists>flags. backend_argv sample_boundary sample_nonce ''/proc/7/fd/4''
     = [''run'', ''--launch-nonce'', nonce_str sample_nonce] @ flags @ [''--'', ''/proc/7/fd/4'']
     \<and> read_flags flags = Some sample_policy"
  by (rule backend_reads_policy [of "sb_backend sample_boundary"])
    (simp_all add: sandboy_new_def sample_policy_valid sample_boundary_def, simp add: sample_policy_def)

text \<open>
  C31. The target never runs on an unverified report. If the GO byte is written at all, the executable was permitted
  and staged, every variable of its environment was on the allowlist, and the backend had answered the very request
  that was sent with a frame that decodes to a report from the expected backend object, for this policy, this nonce
  and this exact launch, with every dimension enforced.
\<close>

theorem go_only_when_verified:
  assumes "GoSent \<in> set (fst (sandboy_spawn sha S Q W b s))"
  shows "\<exists>nonce request request_bytes backend_spec fr r.
           prepared sha Q W b s nonce request request_bytes backend_spec
           \<and> fst ` set (ss_environment s) \<subseteq> set (sp_env_allowlist (sb_policy b))
           \<and> lw_reply W request_bytes = Some fr \<and> decode_report S fr = Inr r
           \<and> sr_backend r = bi_identity (sb_backend b)
           \<and> sr_backend_digest r = so_digest (bi_object (sb_backend b))
           \<and> sr_policy_digest r = policy_digest sha (sb_policy b)
           \<and> sr_launch_nonce r = nonce \<and> sr_launch_spec_digest r = spec_digest sha request
           \<and> (\<forall>d. dimension r d = Enforced)"
proof -
  have "fst (sandboy_spawn sha S Q W b s) \<noteq> []" using assms by auto
  then obtain nonce request rb bs child where p: "prepared sha Q W b s nonce request rb bs"
    and h: "sandboy_spawn sha S Q W b s = handshake sha S W b nonce (spec_digest sha request) rb child [BackendStarted bs]"
    using spawn_started by blast
  obtain fr ev where fr: "lw_reply W rb = Some fr" "verify_report sha S b fr nonce (spec_digest sha request) = Inr ev"
    using handshake_go [of sha S W b nonce "spec_digest sha request" rb child "[BackendStarted bs]"] assms
    unfolding h by auto
  moreover have "fst ` set (ss_environment s) \<subseteq> set (sp_env_allowlist (sb_policy b))"
    using p by (auto simp: prepared_def launch_request_iff)
  ultimately show ?thesis using p unfolding verify_report_iff by blast
qed

lemma sample_report_decodes: "decode_report sample_report_serde [0, 0, 0, 1, 7] = Inr sample_report"
proof -
  have "report_ok sample_report"
    by (simp add: report_ok_def sample_report_def sample_digest_def sample_nonce_def digest_ok_def nonce_ok_def
        backend_ok_def backend_new_def digest_parse_def nonce_parse_def is_lower_hex_def list_all_iff
        trim_is_empty_def ascii_white_def)
  then have "report_parse sample_report_serde [7] = Inr sample_report"
    unfolding report_parse_iff
    by (simp add: sample_report_serde_def) (simp add: sample_report_def SCHEMA_VERSION_def)
  then show ?thesis by (simp add: decode_report_def frame_cases MAX_REPORT_BYTES_def be_value_def)
qed

lemma sample_go:
  "fst (sandboy_spawn sample_sha sample_report_serde sample_request_serde sample_world sample_boundary sample_spawn)
   = [BackendStarted
        \<lparr>ss_executable = descriptor_path sample_object,
         ss_arguments = backend_argv sample_boundary sample_nonce
           (descriptor_path \<lparr>so_pid = 7, so_fd = 4, so_digest = sample_digest\<rparr>),
         ss_working_directory = ''/'', ss_environment = [], ss_stdin = StdinModeNull\<rparr>,
      RequestSent [0, 0, 0, 1, 1], GoSent]"
proof -
  let ?target = "\<lparr>so_pid = 7, so_fd = 4, so_digest = sample_digest\<rparr>"
  obtain q where q: "launch_request sample_boundary sample_spawn sample_digest sample_nonce = Inr q"
    unfolding launch_request_iff by (simp add: sample_spawn_def sample_boundary_def sample_policy_def)
  have four: "(4 :: nat) = Suc (Suc (Suc (Suc 0)))" by simp
  have "be_bytes 4 1 = [0, 0, 0, 1]" by (simp only: be_bytes_def four le_bytes.simps) simp
  then have enc: "encode_request sample_request_serde q = Inr [0, 0, 0, 1, 1]"
    by (simp add: encode_request_def sample_request_serde_def MAX_REQUEST_BYTES_def len_prefix_def)
  have spec: "backend_spawn_spec sample_boundary sample_spawn (descriptor_path ?target) sample_nonce
      = Inr \<lparr>ss_executable = descriptor_path sample_object,
             ss_arguments = backend_argv sample_boundary sample_nonce (descriptor_path ?target),
             ss_working_directory = ''/'', ss_environment = [], ss_stdin = StdinModeNull\<rparr>"
    using sample_target_permitted
    by (simp add: backend_spawn_spec_def sample_boundary_def sample_spawn_def backend_environment_def)
  have ver: "verify_report sample_sha sample_report_serde sample_boundary [0, 0, 0, 1, 7] sample_nonce
      (spec_digest sample_sha q) = Inr (Reported sandboy_attestation [0, 0, 0, 1, 7])"
    unfolding verify_report_def sample_report_decodes
    by (simp add: policy_digest_def spec_digest_def is_fully_enforced_def)
      (simp add: sample_report_def sample_boundary_def sample_object_def)
  have hs: "fst (handshake sample_sha sample_report_serde sample_world sample_boundary sample_nonce
      (spec_digest sample_sha q) [0, 0, 0, 1, 1] (Some 9) tr) = tr @ [RequestSent [0, 0, 0, 1, 1], GoSent]" for tr
    using ver sample_identity_read
    by (simp add: handshake_def signalable_pid_def sample_world_def read_report_def be_value_def
        MAX_REPORT_BYTES_def authorise_def)
  have perm: "permits_exec (sb_policy sample_boundary) ''/bin/x''"
    using sample_target_permitted by (simp add: sample_boundary_def)
  have world: "lw_linux sample_world = True" "lw_mint sample_world = Inr sample_nonce" "lw_os sample_world = sample_os"
    "lw_stage_join sample_world = Inr ()" "lw_socket_pair sample_world = Inr ()"
    "lw_command sample_world x = Inr (Some 9)" "ss_executable sample_spawn = ''/bin/x''" for x
    by (simp_all add: sample_world_def sample_spawn_def)
  show ?thesis
    unfolding sandboy_spawn_def world sample_staged map_err_simps and_then_simps
    by (simp only: perm SealedObject.simps q enc spec hs world map_err_simps and_then_simps sum.case prod.case
        not_True_eq_False if_False append_Cons append_Nil)
qed

theorem go_only_when_verified_witness:
  "\<exists>nonce request request_bytes backend_spec fr r.
     prepared sample_sha sample_request_serde sample_world sample_boundary sample_spawn nonce request request_bytes
       backend_spec
     \<and> fst ` set (ss_environment sample_spawn) \<subseteq> set (sp_env_allowlist (sb_policy sample_boundary))
     \<and> lw_reply sample_world request_bytes = Some fr \<and> decode_report sample_report_serde fr = Inr r
     \<and> sr_backend r = bi_identity (sb_backend sample_boundary)
     \<and> sr_backend_digest r = so_digest (bi_object (sb_backend sample_boundary))
     \<and> sr_policy_digest r = policy_digest sample_sha (sb_policy sample_boundary)
     \<and> sr_launch_nonce r = nonce \<and> sr_launch_spec_digest r = spec_digest sample_sha request
     \<and> (\<forall>d. dimension r d = Enforced)"
  by (rule go_only_when_verified [of sample_sha sample_report_serde]) (simp add: sample_go)


section \<open>The supervisor\<close>

lemma sample_spec_valid: "spec_validate sample_spec = Inr ()"
  by (simp add: spec_validate_iff sample_spec_def is_absolute_def OutputPolicy_default_def CancellationPolicy_default_def
      HeartbeatPolicy_default_def checked_mul_budget MAX_CHUNK_BYTES_def MAX_CHANNEL_CAPACITY_def
      WORKER_MAX_TIMEOUT_def from_secs_def dur_less_def dur_is_zero_def)

lemma sample_run_ends:
  "\<exists>s. run_inner sample_answers sample_spec sample_run = (Some (ExitedNormally 0), s)
       \<and> Spawned sample_identity \<in> set (su_log s)"
proof -
  have emit_ok: "emit sample_answers ob s = (True, (tock sample_answers s)\<lparr>su_log := su_log s @ [ob]\<rparr>)"
    if "su_alive s" for ob s
    using that by (simp add: emit_def sample_answers_def)
  have members: "bounded_members sample_answers s = (Inr [], issue (OpMembers (B_Ok [])) (tock sample_answers s))" for s
    by (simp add: bounded_members_def sample_answers_def Let_def)
  have lag: "wo_lag sample_answers n = 1" for n by (simp add: sample_answers_def)
  have hb: "hp_enabled (ws_heartbeat sample_spec)" by (simp add: sample_spec_def HeartbeatPolicy_default_def)
  have req: "ws_boundary_requirement sample_spec = RequireFullyEnforced" by (simp add: sample_spec_def)
  have att: "ri_attestation sample_run = sandboy_attestation" "\<not> ri_cancel_requested sample_run"
    "ri_spawn sample_run = SpawnOk sample_identity (Reported sandboy_attestation [1])"
    "ri_events sample_run = [EvHeartbeat, EvExit (ExitCode 0)]" "ri_recvs sample_run = [RV_Closed]"
    by (simp_all add: sample_run_def)
  have sat: "is_satisfied_by RequireFullyEnforced sandboy_attestation"
    "satisfies (Reported sandboy_attestation x) RequireFullyEnforced sandboy_attestation" for x
    by (simp_all add: is_satisfied_by_def satisfies_def sandboy_attestation_def)
  show ?thesis
    by (simp add: run_inner_def request_spawn_def launched_def manage_def wind_down_def termination_of_def
        emergency_teardown_def fault_reaped_def cleanup_group_def compose_cleanup_def conclude_def reported_exit_def
        base_result_def effective_result_def finalize_def is_failure_def initial_def advance_worker_def
        can_transition_to_def emit_ok members lag hb req att sat sample_spec_valid issue_def tock_def
        MAX_TRAILING_DRAIN_def)
qed



text \<open>
  C33. An exit is consumed once. On every path of a run, cancelled, abandoned, faulted or still running, no wait for
  the leader follows one that returned its exit: a boundary whose exit can be observed only once is never asked
  again.
\<close>

theorem leader_waited_once: "one_shot (su_ops (snd (run_inner W w R)))"
  using run_one_shot [of W w R "fst (run_inner W w R)" "snd (run_inner W w R)"] by simp

text \<open>
  C34. A process is announced only with its evidence. If the leader is announced, the log begins with the attestation,
  the request and the evidence, in this order and each once; the announced process and the evidence are those the
  boundary returned; a run that requires full enforcement carries a report of full enforcement by the attested
  implementation; and the run's buffers hold at most 256 MiB.
\<close>

theorem announced_with_evidence:
  assumes "Spawned i \<in> set (su_log (snd (run_inner W w R)))"
  shows "\<exists>ev rest. su_log (snd (run_inner W w R))
             = [BoundaryAttested (ri_attestation R), SpawnRequested, LaunchEvidence ev, Spawned i] @ rest
           \<and> filter announces rest = [] \<and> ri_spawn R = SpawnOk i ev
           \<and> (ws_boundary_requirement w = AllowUnconfined
               \<or> (\<exists>report. ev = Reported \<lparr>ba_implementation = ba_implementation (ri_attestation R),
                                       ba_enforcement = FullyEnforced\<rparr> report))
           \<and> unat (op_max_chunk_bytes (ws_output w)) * unat (op_channel_capacity (ws_output w)) \<le> 268435456"
proof -
  obtain ev rest where *: "su_log (snd (run_inner W w R))
      = [BoundaryAttested (ri_attestation R), SpawnRequested, LaunchEvidence ev, Spawned i] @ rest"
    "list_all (\<lambda>ob. \<not> announces ob) rest" "ri_spawn R = SpawnOk i ev"
    "satisfies ev (ws_boundary_requirement w) (ri_attestation R)" "spec_validate w = Inr ()"
    using run_announced [of W w R "fst (run_inner W w R)"] assms by (metis prod.collapse)
  have "filter announces rest = []" using *(2) by (simp add: list_all_iff filter_empty_conv)
  moreover have "ws_boundary_requirement w = AllowUnconfined
      \<or> (\<exists>report. ev = Reported \<lparr>ba_implementation = ba_implementation (ri_attestation R),
                              ba_enforcement = FullyEnforced\<rparr> report)"
    using *(4) satisfies_iff by (cases "ws_boundary_requirement w") auto
  ultimately show ?thesis using * by (auto simp: spec_validate_iff checked_mul_budget)
qed

theorem announced_with_evidence_witness:
  "\<exists>ev rest. su_log (snd (run_inner sample_answers sample_spec sample_run))
       = [BoundaryAttested sandboy_attestation, SpawnRequested, LaunchEvidence ev, Spawned sample_identity] @ rest
     \<and> ri_spawn sample_run = SpawnOk sample_identity ev"
proof -
  have "Spawned sample_identity \<in> set (su_log (snd (run_inner sample_answers sample_spec sample_run)))"
    using sample_run_ends by auto
  from announced_with_evidence [OF this] show ?thesis by (auto simp: sample_run_def)
qed

end
