(* ===== verification/Spec2Isabelle.thy ===== *)
theory Spec2Isabelle
  imports Replay_Properties Execute_Properties Closure_Classifier Closure_Properties Closure_Decisions
    A1_Language Ledger_Properties Worker_Properties
begin

text \<open>
  A verification library for \<^verbatim>\<open>007\<close>, a harness that runs coding agents in worktrees, checks their
  output with gates, keeps a tamper-evident record of each run, and decides from retained evidence
  whether a pull request may be closed.

  \<^bold>\<open>The program.\<close> A run is an append-only stream of canonical events (\<^verbatim>\<open>crates/o7-run/src/event.rs\<close>). A
  pure reducer (\<^verbatim>\<open>reduce.rs\<close>) folds the stream into a run state (\<^verbatim>\<open>state.rs\<close>) and, at \<open>RunSealed\<close>, a
  verdict. \<^verbatim>\<open>o7 run\<close> (\<^verbatim>\<open>src/main.rs\<close>, \<^verbatim>\<open>gate.rs\<close>, \<^verbatim>\<open>events.rs\<close>, \<^verbatim>\<open>record.rs\<close>) executes the gates and writes
  such a stream; replay (\<^verbatim>\<open>replay.rs\<close>) re-derives the verdict of a stored record, checks its hash chain
  and the digest of every artifact, and has the candidate-state evidence verified (\<^verbatim>\<open>candidate.rs\<close>). The
  daemon keeps conversations, runs, attempts, events and commands in a SQLite ledger
  (\<^verbatim>\<open>crates/o7-ledger\<close>). The agent runs under a worker supervisor (\<^verbatim>\<open>crates/o7-worker\<close>) that launches it
  through a sandbox backend, whose contract is \<^verbatim>\<open>crates/o7-sandbox-protocol\<close>. The closure crates decide:
  canonical JSON and digests (\<^verbatim>\<open>o7-closure-canonical\<close>), the replay of recorded selections
  (\<^verbatim>\<open>o7-closure-matcher\<close>), the resolution of evidence (\<^verbatim>\<open>o7-closure-provenance\<close>) and the classifier over
  observations (\<^verbatim>\<open>o7-closure-classifier\<close>). Documents of the A1 protocol are admitted by a streaming
  scanner (\<^verbatim>\<open>o7-a1-contracts/src/scan.rs\<close>).

  \<^bold>\<open>Shared theories.\<close>
  \<^item> \<open>O7_Prelude\<close>: results, fallible loops (\<open>try_for_each\<close>, \<open>try_fold\<close>), bytes, and the locale
    \<open>prefix_code\<close> for encoders that can be peeled off the front of a byte string.
  \<^item> \<open>Rust_Std\<close>: binary search, \<open>Vec::insert\<close>, path components and joins.

  \<^bold>\<open>The run.\<close>
  \<^item> \<open>Run_Event\<close> (\<^verbatim>\<open>ids.rs\<close>, \<^verbatim>\<open>event.rs\<close>): the event vocabulary and the digest preimage, with
    \<open>prefix_code\<close> interpreted on each framed encoder.
  \<^item> \<open>Run_State\<close> (\<^verbatim>\<open>state.rs\<close>), \<open>Run_Reduce\<close> (\<^verbatim>\<open>reduce.rs\<close>): the state record with the derived orders as
    \<open>linorder\<close> instances; one definition per function, every early return an error value.
  \<^item> \<open>Run_Step\<close>: the contract's well-formedness and the accepted transitions, stated without the
    code's control flow; the reducer computes exactly these.
  \<^item> \<open>Run_Invariants\<close>, \<open>Run_Slots\<close>: reachable states by rule induction. The locale \<open>slot\<close> (a field
    that one kind of event fills once) is interpreted on the fields of the state, on each gate,
    policy and sandbox requirement, and gives what the state says about the stream.
  \<^item> \<open>Run_Verdict\<close>, \<open>Run_Order\<close>: the verdict specified over the contract and the set of recorded events,
    and \<open>compute_verdict\<close> as that specification; what precedes what, and the hash chain.
  \<^item> \<open>Run_Candidate\<close> (\<^verbatim>\<open>candidate.rs\<close>), \<open>Run_Replay\<close> (\<^verbatim>\<open>replay.rs\<close>): verification of candidate evidence;
    replay, with the locale \<open>artifact_resolver\<close> for the trait \<^verbatim>\<open>ArtifactResolver\<close>, interpreted on
    \<open>RecordDirResolver\<close>.
  \<^item> \<open>Run_Build\<close>, \<open>Run_Record\<close>, \<open>Run_Execute\<close>: the path of \<^verbatim>\<open>o7 run\<close> without a ledger, from the manifest
    to the files of the record; the stream it builds is always accepted, and what replaying needs.
  \<^item> \<open>Run_Properties\<close>, \<open>Replay_Properties\<close>, \<open>Execute_Properties\<close>: their properties, with example
    streams, records and hosts.

  \<^bold>\<open>The ledger.\<close>
  \<^item> \<open>Ledger_Model\<close> (\<^verbatim>\<open>models.rs\<close>, \<^verbatim>\<open>transitions.rs\<close>, \<^verbatim>\<open>idempotency.rs\<close>, the constraints of \<^verbatim>\<open>migrations.rs\<close>),
    \<open>Ledger_Ops\<close>, \<open>Ledger_Commands\<close>, \<open>Ledger_Queries\<close> (\<^verbatim>\<open>sqlite.rs\<close>): the tables as a record, each writing
    method as the closure handed to \<open>with_tx\<close>, which rolls back on an error; the reading methods, with
    the locale \<open>keyset\<close> for the paged listings.
  \<^item> \<open>Ledger_Step\<close>, \<open>Ledger_Refine\<close>: what can happen to the tables as a step relation, and every
    committing operation as a sequence of steps. \<open>Ledger_Shape\<close> is the well-formedness all of them keep.
  \<^item> \<open>Ledger_History\<close>: the locales \<open>step_order\<close> and \<open>stable\<close> lift a law from steps to histories of
    operations; \<open>Ledger_Requests\<close>: the locale \<open>idempotent_request\<close>, interpreted on the six keyed methods;
    \<open>Ledger_Recovery\<close>: the recovery loops end and what they leave. \<open>Ledger_Properties\<close> states the results.

  \<^bold>\<open>Closure decisions.\<close>
  \<^item> \<open>Closure_Classifier\<close>: the classifier and its properties.
  \<^item> \<open>Closure_Json\<close>, \<open>Closure_Canonical\<close>: JSON values and their canonical text.
  \<^item> \<open>Closure_Matcher\<close>: shapes, matchers and the replay of a selection; \<open>Closure_Shapes\<close> and
    \<open>Closure_Matching\<close> say what they accept; \<open>Closure_Properties\<close> states the results.
  \<^item> \<open>Closure_Redaction\<close>, \<open>Closure_Artifact\<close>, \<open>Closure_Provenance\<close> (\<^verbatim>\<open>redaction.rs\<close>, \<^verbatim>\<open>artifact.rs\<close>, \<^verbatim>\<open>lib.rs\<close>):
    retention assessments, validated artifacts, evidence and decision bases. \<open>Closure_Authorise\<close>,
    \<open>Closure_Evidence\<close> and \<open>Closure_Bracket\<close> show what an acceptance establishes;
    \<open>Closure_Decisions\<close> states the results and has a store that meets them.

  \<^bold>\<open>Document admission.\<close> \<open>A1_Scan\<close> is the scanner, \<open>A1_Grammar\<close> the language of admissible documents as
  inductive predicates, \<open>A1_Admission\<close> and \<open>A1_Language\<close> prove that the scanner accepts exactly it.

  \<^bold>\<open>Sandbox and worker.\<close>
  \<^item> \<open>Sandbox_Ids\<close>, \<open>Sandbox_Policy\<close>, \<open>Sandbox_Wire\<close>, \<open>Sandbox_Provenance\<close> (\<^verbatim>\<open>ids.rs\<close>, \<^verbatim>\<open>policy.rs\<close>,
    \<^verbatim>\<open>report.rs\<close> with \<^verbatim>\<open>frame.rs\<close> and \<^verbatim>\<open>request.rs\<close>, \<^verbatim>\<open>provenance.rs\<close>): \<open>prefix_code\<close> is interpreted on the
    big-endian framing, the locale \<open>bounded_frame\<close> on the two frame decoders. What is read from the
    wire is first a raw record, then its validated leaves, as the \<^verbatim>\<open>Deserialize\<close> instances do it.
  \<^item> \<open>Worker_Identity\<close> (\<^verbatim>\<open>process_identity.rs\<close>), \<open>Worker_Sealed\<close> (\<^verbatim>\<open>sealed.rs\<close>), \<open>Worker_Boundary\<close>
    (\<^verbatim>\<open>boundary.rs\<close>, \<^verbatim>\<open>spec.rs\<close>, the pure part of \<^verbatim>\<open>sandboy_boundary.rs\<close>), \<open>Worker_Launch\<close> (its \<^verbatim>\<open>spawn\<close> and
    \<^verbatim>\<open>kill_and_reap\<close>, and the host's \<^verbatim>\<open>spawn\<close>).
  \<^item> \<open>Worker_Supervisor\<close>, \<open>Worker_Run\<close> (\<^verbatim>\<open>supervisor.rs\<close>): the supervisor's pieces and the whole run;
    \<open>Worker_Trace\<close> follows what a run asks of its boundary and publishes; \<open>Worker_Properties\<close> states
    the results.

  \<^bold>\<open>Conventions.\<close> \<open>Result\<close> is a sum with the error on the left; a \<^verbatim>\<open>&mut\<close> state is passed and returned;
  \<open>u64\<close> and \<open>u32\<close> are words, so a sequence number wraps where the source's addition does in a release
  build (no accepted stream of at most \<open>2^64\<close> events reaches the wrap). Strings are lists of bytes read
  as characters. Texts of refusals and messages that only people read are constructors with the
  values they print.

  \<^bold>\<open>Parameters.\<close> Code outside the repository is an argument: SHA-256 (\<open>sha\<close>), the serializers and parsers
  of \<^verbatim>\<open>serde_json\<close>, the file system, the shell, the kernel's answers (\<open>Os\<close>, \<open>ProcSource\<close>), the backend and the
  socket (\<open>LaunchWorld\<close>), the boundary, the observation sink and the clock as the supervisor meets them
  (\<open>World\<close>, answers by interaction), the events of its \<^verbatim>\<open>select!\<close> loop and its receives as lists, the
  evidence store as its two trait methods. Nothing is assumed of a store, a sink, a boundary or a backend. Where
  a theorem needs the hash to separate values, it assumes no collision on the values at hand, or
  names the collision as the only other case; where a round trip goes through \<^verbatim>\<open>serde_json\<close>, it assumes
  that parsing undoes printing on the values written.

  \<^bold>\<open>Termination and fuel.\<close> All definitions are total. Loops that are not structural have termination
  proofs: the binary search, the string loops of the scanner, the two shape walks, the resolution of
  artifacts (an authorising object has a role that needs no further authorisation) and the polling
  loops of the worker, which end because each round sleeps and the deadline is fixed. Only the mutually
  recursive methods of the scanner carry fuel, \<open>3 n + 1\<close> for the \<open>n\<close> bytes that are left: a value, an
  object and its loop are at most three calls between two bytes consumed, and \<open>value_fuel\<close> shows that
  it is never exhausted. The supervisor's loop ends with its list of events; a run whose events stop
  without an end has no result, and the properties of traces hold for it too.

  \<^bold>\<open>Not modelled.\<close> Git worktrees (\<^verbatim>\<open>src/worktree.rs\<close>), agent invocation (\<^verbatim>\<open>invoke.rs\<close>), the judge, the
  \<^verbatim>\<open>--ledger\<close> path and the rest of the command line, the HTTP daemon (\<^verbatim>\<open>o7d\<close>) and the browser interface:
  sequences of calls to processes, files and sockets whose effects are outside the repository. Also
  left out are the wire types of \<^verbatim>\<open>o7-a1-contracts\<close> beyond admission, its content-addressed store
  (\<^verbatim>\<open>o7-a1-cas\<close>), the verifier, the harness policy; opening and migrating the database; in the worker the
  scrubbing of descriptors, the forwarding methods of the process handles, drop guards and
  the plumbing of asynchronous tasks.
\<close>

end
